(* ===== verification/Prelude.thy ===== *)
theory Prelude
  imports Complex_Main
begin

text \<open>
  What the components share. Python floats are \<open>pyfloat\<close>: the two infinities and NaN are values
  of the type, comparisons with NaN are false, and arithmetic between finite values is exact
  (rounding is not modelled). Raised exceptions are values of \<open>exn\<close> on the left of a sum. The
  locales \<open>invariant_system\<close>, \<open>monotone_system\<close> and \<open>bounded_memory\<close> are the contracts that
  several components meet: operations that keep an invariant, operations that never decrease a
  counter, and a bounded memory of identifiers.
\<close>

named_theorems flt_simps \<open>evaluation of float operations on finite arguments\<close>

section \<open>Floats\<close>

datatype pyfloat = NaN | NegInf | Fin real | PosInf

fun flt_less :: "pyfloat \<Rightarrow> pyfloat \<Rightarrow> bool" where
  "flt_less (Fin a) (Fin b) = (a < b)"
| "flt_less NegInf (Fin b) = True"
| "flt_less NegInf PosInf = True"
| "flt_less (Fin a) PosInf = True"
| "flt_less _ _ = False"

fun flt_le :: "pyfloat \<Rightarrow> pyfloat \<Rightarrow> bool" where
  "flt_le NaN _ = False"
| "flt_le _ NaN = False"
| "flt_le a b = (a = b \<or> flt_less a b)"

fun flt_add :: "pyfloat \<Rightarrow> pyfloat \<Rightarrow> pyfloat" where
  "flt_add (Fin a) (Fin b) = Fin (a + b)"
| "flt_add NaN _ = NaN"
| "flt_add _ NaN = NaN"
| "flt_add PosInf NegInf = NaN"
| "flt_add NegInf PosInf = NaN"
| "flt_add PosInf _ = PosInf"
| "flt_add _ PosInf = PosInf"
| "flt_add NegInf _ = NegInf"
| "flt_add _ NegInf = NegInf"

fun flt_neg :: "pyfloat \<Rightarrow> pyfloat" where
  "flt_neg (Fin a) = Fin (- a)"
| "flt_neg NaN = NaN"
| "flt_neg PosInf = NegInf"
| "flt_neg NegInf = PosInf"

fun flt_abs :: "pyfloat \<Rightarrow> pyfloat" where
  "flt_abs (Fin a) = Fin \<bar>a\<bar>"
| "flt_abs NaN = NaN"
| "flt_abs PosInf = PosInf"
| "flt_abs NegInf = PosInf"

fun flt_mul :: "pyfloat \<Rightarrow> pyfloat \<Rightarrow> pyfloat" where
  "flt_mul (Fin a) (Fin b) = Fin (a * b)"
| "flt_mul NaN _ = NaN"
| "flt_mul _ NaN = NaN"
| "flt_mul PosInf b = (if b = Fin 0 then NaN else if flt_less (Fin 0) b then PosInf else NegInf)"
| "flt_mul NegInf b = (if b = Fin 0 then NaN else if flt_less (Fin 0) b then NegInf else PosInf)"
| "flt_mul (Fin a) PosInf = (if a = 0 then NaN else if 0 < a then PosInf else NegInf)"
| "flt_mul (Fin a) NegInf = (if a = 0 then NaN else if 0 < a then NegInf else PosInf)"

text \<open>Division; the code only divides by values it has checked to be positive.\<close>

fun flt_div :: "pyfloat \<Rightarrow> pyfloat \<Rightarrow> pyfloat" where
  "flt_div (Fin a) (Fin b) = Fin (a / b)"
| "flt_div NaN _ = NaN"
| "flt_div _ NaN = NaN"
| "flt_div PosInf (Fin b) = (if 0 < b then PosInf else NegInf)"
| "flt_div NegInf (Fin b) = (if 0 < b then NegInf else PosInf)"
| "flt_div (Fin a) _ = Fin 0"
| "flt_div _ _ = NaN"

instantiation pyfloat :: "{ord, zero, one, plus, minus, uminus, abs}"
begin

definition less_pyfloat :: "pyfloat \<Rightarrow> pyfloat \<Rightarrow> bool" where "less_pyfloat = flt_less"
definition less_eq_pyfloat :: "pyfloat \<Rightarrow> pyfloat \<Rightarrow> bool" where "less_eq_pyfloat = flt_le"
definition zero_pyfloat :: pyfloat where "zero_pyfloat = Fin 0"
definition one_pyfloat :: pyfloat where "one_pyfloat = Fin 1"
definition plus_pyfloat :: "pyfloat \<Rightarrow> pyfloat \<Rightarrow> pyfloat" where "plus_pyfloat = flt_add"
definition uminus_pyfloat :: "pyfloat \<Rightarrow> pyfloat" where "uminus_pyfloat = flt_neg"
definition minus_pyfloat :: "pyfloat \<Rightarrow> pyfloat \<Rightarrow> pyfloat" where
  "minus_pyfloat a b = flt_add a (flt_neg b)"
definition abs_pyfloat :: "pyfloat \<Rightarrow> pyfloat" where "abs_pyfloat = flt_abs"

instance ..

end

text \<open>\<open>math.isfinite\<close>, and the two-argument \<open>max\<close> and \<open>min\<close>, which return their first argument
  unless the second is strictly better.\<close>

fun isfinite :: "pyfloat \<Rightarrow> bool" where
  "isfinite (Fin _) = True"
| "isfinite _ = False"

definition pymax :: "pyfloat \<Rightarrow> pyfloat \<Rightarrow> pyfloat" where
  "pymax a b = (if a < b then b else a)"

definition pymin :: "pyfloat \<Rightarrow> pyfloat \<Rightarrow> pyfloat" where
  "pymin a b = (if b < a then b else a)"

text \<open>\<open>math.hypot\<close>: infinite as soon as one argument is, even beside a NaN.\<close>

fun hypot :: "pyfloat \<Rightarrow> pyfloat \<Rightarrow> pyfloat" where
  "hypot (Fin a) (Fin b) = Fin (sqrt (a ^ 2 + b ^ 2))"
| "hypot PosInf _ = PosInf"
| "hypot NegInf _ = PosInf"
| "hypot _ PosInf = PosInf"
| "hypot _ NegInf = PosInf"
| "hypot _ _ = NaN"

lemma flt_fin [simp, flt_simps]:
  "Fin a < Fin b \<longleftrightarrow> a < b"
  "Fin a \<le> Fin b \<longleftrightarrow> a \<le> b"
  "Fin a + Fin b = Fin (a + b)"
  "Fin a - Fin b = Fin (a - b)"
  "- Fin a = Fin (- a)"
  "\<bar>Fin a\<bar> = Fin \<bar>a\<bar>"
  by (auto simp: less_pyfloat_def less_eq_pyfloat_def plus_pyfloat_def minus_pyfloat_def
      uminus_pyfloat_def abs_pyfloat_def)

lemma flt_nan [simp, flt_simps]:
  "\<not> NaN < x" "\<not> x < NaN" "\<not> NaN \<le> x" "\<not> x \<le> NaN" "NaN + x = NaN" "x + NaN = NaN"
  "NaN - x = NaN" "x - NaN = NaN"
  by (cases x; simp add: less_pyfloat_def less_eq_pyfloat_def plus_pyfloat_def minus_pyfloat_def)+

lemma flt_inf [simp, flt_simps]:
  "Fin a < PosInf" "NegInf < Fin a" "\<not> PosInf < x" "\<not> x < NegInf" "\<not> PosInf \<le> Fin a"
  "\<not> Fin a \<le> NegInf" "Fin a \<le> PosInf" "NegInf \<le> Fin a"
  by (cases x; simp add: less_pyfloat_def less_eq_pyfloat_def)+

lemma zero_fin [flt_simps]: "(0 :: pyfloat) = Fin 0" by (rule zero_pyfloat_def)

lemma one_fin [flt_simps]: "(1 :: pyfloat) = Fin 1" by (rule one_pyfloat_def)

lemma isfinite_iff: "isfinite x \<longleftrightarrow> (\<exists>r. x = Fin r)"
  by (cases x) auto

lemma isfiniteE [elim]:
  assumes "isfinite x"
  obtains r where "x = Fin r"
  using assms by (cases x) auto

lemma flt_less_le: "a < b \<Longrightarrow> a \<le> (b :: pyfloat)"
  by (cases a; cases b) (auto simp: less_pyfloat_def less_eq_pyfloat_def)

lemma flt_not_less_self [simp]: "\<not> a < (a :: pyfloat)"
  by (cases a) (auto simp: less_pyfloat_def)

lemma flt_less_trans: "a < b \<Longrightarrow> b < c \<Longrightarrow> a < (c :: pyfloat)"
  by (cases a; cases b; cases c) (auto simp: less_pyfloat_def)

lemma flt_le_trans: "a \<le> b \<Longrightarrow> b \<le> c \<Longrightarrow> a \<le> (c :: pyfloat)"
  by (cases a; cases b; cases c) (auto simp: less_pyfloat_def less_eq_pyfloat_def)

lemma flt_not_le_less: "a < b \<Longrightarrow> \<not> b \<le> (a :: pyfloat)"
  by (cases a; cases b) (auto simp: less_pyfloat_def less_eq_pyfloat_def)

lemma flt_not_less_finite: "isfinite a \<Longrightarrow> isfinite b \<Longrightarrow> \<not> a < b \<longleftrightarrow> b \<le> a"
  by (cases a; cases b) auto

lemma pymax_fin [simp, flt_simps]: "pymax (Fin a) (Fin b) = Fin (max a b)"
  by (auto simp: pymax_def max_def)

lemma pymin_fin [simp, flt_simps]: "pymin (Fin a) (Fin b) = Fin (min a b)"
  by (auto simp: pymin_def min_def)

section \<open>Angles\<close>

text \<open>\<open>math.atan2\<close> of finite arguments; the sign of a zero is not represented.\<close>

definition atan2 :: "real \<Rightarrow> real \<Rightarrow> real" where
  "atan2 y x =
     (if x > 0 then arctan (y / x)
      else if x < 0 then (if y \<ge> 0 then arctan (y / x) + pi else arctan (y / x) - pi)
      else if y > 0 then pi / 2 else if y < 0 then - (pi / 2) else 0)"

lemma atan2_sin_cos:
  assumes "- pi < e" "e \<le> pi"
  shows "atan2 (sin e) (cos e) = e"
proof -
  consider "\<bar>e\<bar> < pi / 2" | "e = pi / 2" | "e = - (pi / 2)" | "pi / 2 < e" | "e < - (pi / 2)"
    by linarith
  then show ?thesis
  proof cases
    case 1
    then have "cos e > 0" by (intro cos_gt_zero_pi) auto
    moreover have "arctan (tan e) = e" using 1 by (intro arctan_tan) auto
    ultimately show ?thesis by (simp add: atan2_def tan_def)
  next
    case 2
    show ?thesis unfolding 2 by (simp add: atan2_def)
  next
    case 3
    show ?thesis unfolding 3 by (simp add: atan2_def)
  next
    case 4
    have "cos (e - pi) > 0" using 4 assms by (intro cos_gt_zero_pi) auto
    then have neg: "cos e < 0" by (simp add: cos_diff)
    have "sin e \<ge> 0" using 4 assms pi_gt_zero by (intro sin_ge_zero) linarith+
    moreover have "arctan (tan (e - pi)) = e - pi" using 4 assms by (intro arctan_tan) auto
    moreover have "tan (e - pi) = sin e / cos e" by (simp add: tan_def sin_diff cos_diff)
    ultimately show ?thesis using neg by (simp add: atan2_def)
  next
    case 5
    have "cos (e + pi) > 0" using 5 assms by (intro cos_gt_zero_pi) auto
    then have neg: "cos e < 0" by (simp add: cos_add)
    have "sin (- e) > 0" using 5 assms pi_gt_zero by (intro sin_gt_zero) linarith+
    then have "sin e < 0" by simp
    moreover have "arctan (tan (e + pi)) = e + pi" using 5 assms by (intro arctan_tan) auto
    moreover have "tan (e + pi) = sin e / cos e" by (simp add: tan_def sin_add cos_add)
    ultimately show ?thesis using neg by (simp add: atan2_def)
  qed
qed

lemma angle_representative: "\<exists>k :: int. - pi < d + 2 * pi * real_of_int k \<and> d + 2 * pi * real_of_int k \<le> pi"
proof -
  define k where "k = - ceiling ((d - pi) / (2 * pi))"
  have "real_of_int (- k) - 1 < (d - pi) / (2 * pi)" "(d - pi) / (2 * pi) \<le> real_of_int (- k)"
    unfolding k_def by linarith+
  then have "(real_of_int (- k) - 1) * (2 * pi) < d - pi" "d - pi \<le> real_of_int (- k) * (2 * pi)"
    by (simp_all add: pos_less_divide_eq pos_divide_le_eq)
  then show ?thesis by (intro exI [of _ k]) (auto simp: algebra_simps)
qed

section \<open>Lists\<close>

lemma nth_update_if: "xs[i := y] ! j = (if i = j \<and> j < length xs then y else xs ! j)"
  by (cases "i < length xs") (auto simp: nth_list_update list_update_beyond)

lemma failed_names_Nil [simp]:
  "filter (\<lambda>(name, passed). \<not> passed) xs = [] \<longleftrightarrow> list_all snd xs"
  by (induction xs) auto

section \<open>Exceptions\<close>

text \<open>The exception classes the modelled code raises, with the message where it is a text.\<close>

datatype exn =
    ValueError string
  | TypeError string
  | RuntimeError string
  | TimeoutError string
  | IndexError int
  | OverflowError string
  | KeyError string
  | AssertionError
  | QuiescenceError string
  | QuiescenceTimeout string
  | GoalSamplingError string
  | AutomaticMissionCancelled string
  | Nav2GoalRejected string
  | Nav2MotionFailed string
  | Nav2SafetyFailure string "(int \<times> int \<times> string) option"
  | Nav2TransactionBusy string
  | OSError string
  | LowConfidenceSpeakerError string

type_synonym 'a result = "exn + 'a"

fun is_error :: "'a result \<Rightarrow> bool" where
  "is_error (Inl _) = True"
| "is_error (Inr _) = False"

lemma is_error_iff: "is_error r \<longleftrightarrow> (\<exists>e. r = Inl e)"
  by (cases r) auto

text \<open>Sequencing of fallible computations, and a fallible function along a list.\<close>

definition rbind :: "'a result \<Rightarrow> ('a \<Rightarrow> 'b result) \<Rightarrow> 'b result" where
  "rbind r f = (case r of Inl e \<Rightarrow> Inl e | Inr x \<Rightarrow> f x)"

fun rmap :: "('a \<Rightarrow> 'b result) \<Rightarrow> 'a list \<Rightarrow> 'b list result" where
  "rmap f [] = Inr []"
| "rmap f (x # xs) = rbind (f x) (\<lambda>y. rbind (rmap f xs) (\<lambda>ys. Inr (y # ys)))"

lemma rbind_simps [simp]: "rbind (Inl e) f = Inl e" "rbind (Inr x) f = f x"
  by (simp_all add: rbind_def)

lemma rbind_Inr_iff: "rbind r f = Inr y \<longleftrightarrow> (\<exists>x. r = Inr x \<and> f x = Inr y)"
  by (cases r) auto

lemma rmap_Inr: "(\<And>x. x \<in> set xs \<Longrightarrow> f x = Inr (g x)) \<Longrightarrow> rmap f xs = Inr (map g xs)"
  by (induction xs) auto

text \<open>\<open>math.floor\<close> and \<open>math.ceil\<close>, which raise on values that are not finite, and the indexing
  of a sequence, where a negative index counts from the end.\<close>

fun py_floor :: "pyfloat \<Rightarrow> int result" where
  "py_floor (Fin r) = Inr \<lfloor>r\<rfloor>"
| "py_floor NaN = Inl (ValueError ''cannot convert float NaN to integer'')"
| "py_floor _ = Inl (OverflowError ''cannot convert float infinity to integer'')"

fun py_ceil :: "pyfloat \<Rightarrow> int result" where
  "py_ceil (Fin r) = Inr \<lceil>r\<rceil>"
| "py_ceil NaN = Inl (ValueError ''cannot convert float NaN to integer'')"
| "py_ceil _ = Inl (OverflowError ''cannot convert float infinity to integer'')"

definition py_index :: "'a list \<Rightarrow> int \<Rightarrow> 'a result" where
  "py_index xs i =
     (if 0 \<le> i \<and> i < int (length xs) then Inr (xs ! nat i)
      else if i < 0 \<and> - int (length xs) \<le> i then Inr (xs ! nat (int (length xs) + i))
      else Inl (IndexError i))"

section \<open>Text\<close>

text \<open>\<open>str.strip\<close> on byte strings: ASCII white space is removed at both ends.\<close>

definition is_space :: "char \<Rightarrow> bool" where
  "is_space c \<longleftrightarrow> c \<in> {CHR '' '', CHR 0x09, CHR 0x0A, CHR 0x0B, CHR 0x0C, CHR 0x0D,
     CHR 0x1C, CHR 0x1D, CHR 0x1E, CHR 0x1F}"

definition strip :: "string \<Rightarrow> string" where
  "strip s = rev (dropWhile is_space (rev (dropWhile is_space s)))"

definition lower_char :: "char \<Rightarrow> char" where
  "lower_char c = (if 65 \<le> (of_char c :: nat) \<and> (of_char c :: nat) \<le> 90
     then char_of ((of_char c :: nat) + 32) else c)"

definition lower :: "string \<Rightarrow> string" where
  "lower s = map lower_char s"

fun show_nat :: "nat \<Rightarrow> string" where
  "show_nat n = (if n < 10 then [char_of (48 + n)]
     else show_nat (n div 10) @ [char_of (48 + n mod 10)])"

declare show_nat.simps [simp del]

definition show_int :: "int \<Rightarrow> string" where
  "show_int i = (if i < 0 then ''-'' @ show_nat (nat (- i)) else show_nat (nat i))"

text \<open>Python's \<open>f"{x:.nf}"\<close>: the nearest decimal with \<open>n\<close> digits, ties to the even one.\<close>

definition round_half_even :: "real \<Rightarrow> int" where
  "round_half_even x =
     (let k = \<lfloor>x\<rfloor>; rest = x - real_of_int k
      in if rest < 1 / 2 \<or> rest = 1 / 2 \<and> even k then k else k + 1)"

definition show_fixed :: "nat \<Rightarrow> pyfloat \<Rightarrow> string" where
  "show_fixed n x =
     (case x of
        NaN \<Rightarrow> ''nan'' | PosInf \<Rightarrow> ''inf'' | NegInf \<Rightarrow> ''-inf''
      | Fin r \<Rightarrow>
          (let k = nat (round_half_even (\<bar>r\<bar> * 10 ^ n)); digits = show_nat (k mod 10 ^ n)
           in (if r < 0 then ''-'' else []) @ show_nat (k div 10 ^ n)
              @ (if n = 0 then []
                 else ''.'' @ replicate (n - length digits) (CHR ''0'') @ digits)))"

text \<open>\<open>str(exc)\<close>. The only index whose text is read is the sequence of a navigation goal.\<close>

fun exn_text :: "exn \<Rightarrow> string" where
  "exn_text (ValueError m) = m"
| "exn_text (TypeError m) = m"
| "exn_text (RuntimeError m) = m"
| "exn_text (TimeoutError m) = m"
| "exn_text (IndexError i) = ''unknown navigation goal sequence: '' @ show_int i"
| "exn_text (OverflowError m) = m"
| "exn_text (KeyError k) = [CHR 0x27] @ k @ [CHR 0x27]"
| "exn_text AssertionError = []"
| "exn_text (QuiescenceError m) = m"
| "exn_text (QuiescenceTimeout m) = m"
| "exn_text (GoalSamplingError m) = m"
| "exn_text (AutomaticMissionCancelled m) = m"
| "exn_text (Nav2GoalRejected m) = m"
| "exn_text (Nav2MotionFailed m) = m"
| "exn_text (Nav2SafetyFailure m t) = m"
| "exn_text (Nav2TransactionBusy m) = m"
| "exn_text (OSError m) = m"
| "exn_text (LowConfidenceSpeakerError m) = m"

fun join :: "string \<Rightarrow> string list \<Rightarrow> string" where
  "join sep [] = []"
| "join sep [x] = x"
| "join sep (x # y # xs) = x @ sep @ join sep (y # xs)"

definition startswith :: "string \<Rightarrow> string \<Rightarrow> bool" where
  "startswith prefix s \<longleftrightarrow> take (length prefix) s = prefix"

lemma dropWhile_not_hd: "dropWhile P xs = [] \<or> \<not> P (hd (dropWhile P xs))"
  by (induction xs) auto

lemma strip_Nil [simp]: "strip [] = []"
  by (simp add: strip_def)

lemma dropWhile_rev_dropWhile_id:
  "ys = rev (dropWhile P (rev xs)) \<Longrightarrow> xs = [] \<or> \<not> P (hd xs) \<Longrightarrow> ys = [] \<or> \<not> P (hd ys)"
proof (induction xs arbitrary: ys rule: rev_induct)
  case Nil
  then show ?case by simp
next
  case (snoc x xs)
  then show ?case by (cases "P x"; cases xs) auto
qed

lemma strip_idem [simp]: "strip (strip s) = strip s"
proof -
  define a where "a = dropWhile is_space s"
  define b where "b = rev (dropWhile is_space (rev a))"
  have "a = [] \<or> \<not> is_space (hd a)" unfolding a_def by (rule dropWhile_not_hd)
  from dropWhile_rev_dropWhile_id [OF b_def this] have "dropWhile is_space b = b"
    by (cases b) auto
  moreover have "dropWhile is_space (rev b) = rev b"
    by (simp add: b_def)
  moreover have "strip s = b" by (simp add: strip_def a_def b_def)
  ultimately show ?thesis by (simp add: strip_def)
qed

section \<open>Contracts shared by the components\<close>

text \<open>A run applies a list of operations in order.\<close>

definition run :: "('e \<Rightarrow> 's \<Rightarrow> 's) \<Rightarrow> 'e list \<Rightarrow> 's \<Rightarrow> 's" where
  "run f es s = fold f es s"

lemma run_Nil [simp]: "run f [] s = s"
  by (simp add: run_def)

lemma run_Cons [simp]: "run f (e # es) s = run f es (f e s)"
  by (simp add: run_def)

lemma run_append [simp]: "run f (es @ fs) s = run f fs (run f es s)"
  by (simp add: run_def)

lemma run_cond_unchanged:
  assumes "\<And>e. e \<in> set es \<Longrightarrow> f e s = s"
  shows "run f es s = s"
  using assms by (induction es) auto

text \<open>Operations that keep an invariant keep it through every run.\<close>

locale invariant_system =
  fixes step :: "'e \<Rightarrow> 's \<Rightarrow> 's"
    and inv :: "'s \<Rightarrow> bool"
  assumes step_inv: "inv s \<Longrightarrow> inv (step e s)"
begin

lemma run_inv: "inv s \<Longrightarrow> inv (run step es s)"
  by (induction es arbitrary: s) (auto intro: step_inv)

end

text \<open>Operations that never decrease a measure never decrease it through a run.\<close>

locale monotone_system = invariant_system step inv
  for step :: "'e \<Rightarrow> 's \<Rightarrow> 's" and inv :: "'s \<Rightarrow> bool" +
  fixes level :: "'s \<Rightarrow> int"
  assumes step_level: "inv s \<Longrightarrow> level s \<le> level (step e s)"
begin

lemma run_level: "inv s \<Longrightarrow> level s \<le> level (run step es s)"
proof (induction es arbitrary: s)
  case Nil
  then show ?case by simp
next
  case (Cons e es)
  have "level s \<le> level (step e s)" using Cons.prems by (rule step_level)
  also have "\<dots> \<le> level (run step es (step e s))"
    using Cons.prems by (intro Cons.IH step_inv)
  finally show ?case by simp
qed

lemma run_level_eq_step:
  assumes "inv s" "level (run step (e # es) s) = level s"
  shows "level (step e s) = level s" "level (run step es (step e s)) = level (step e s)"
proof -
  have a: "level s \<le> level (step e s)" using assms(1) by (rule step_level)
  have b: "level (step e s) \<le> level (run step es (step e s))"
    using assms(1) by (intro run_level step_inv)
  show "level (step e s) = level s" "level (run step es (step e s)) = level (step e s)"
    using a b assms(2) by auto
qed

end

text \<open>A bounded memory of identifiers: a set for membership and the order of insertion, from which
  the oldest identifier is forgotten when the capacity is reached. The laws are what the clients
  rely on: the set and the order agree, the order has no duplicates and stays within capacity, and
  what was just remembered is found.\<close>

definition memory_ok :: "nat \<Rightarrow> 'a set \<Rightarrow> 'a list \<Rightarrow> bool" where
  "memory_ok cap seen order \<longleftrightarrow> seen = set order \<and> distinct order \<and> length order \<le> cap"

locale bounded_memory =
  fixes cap :: nat
    and fits :: "'a \<Rightarrow> 'a set \<times> 'a list \<Rightarrow> bool"
    and remember :: "'a \<Rightarrow> 'a set \<times> 'a list \<Rightarrow> 'a set \<times> 'a list"
  assumes remember_ok:
    "memory_ok cap (fst m) (snd m) \<Longrightarrow> fits x m \<Longrightarrow>
       memory_ok cap (fst (remember x m)) (snd (remember x m))"
    and remember_found: "x \<in> fst (remember x m)"
    and remember_only: "fst (remember x m) \<subseteq> insert x (fst m)"
begin

lemma remember_finite:
  "memory_ok cap (fst m) (snd m) \<Longrightarrow> fits x m \<Longrightarrow>
     finite (fst (remember x m)) \<and> card (fst (remember x m)) \<le> cap"
  using remember_ok [of m x] card_length [of "snd (remember x m)"] by (auto simp: memory_ok_def)

end

end
