(* ===== verification/Authority_Lease.thy ===== *)
theory Authority_Lease
  imports Prelude
begin

text \<open>
  \<open>control_authority_lease.py\<close>: the lease under which high-level tasks may command motion. The
  manager publishes snapshots numbered within a manager epoch; the lease keeps the last accepted
  one, the time of its receipt, the epochs that are retired and a local generation. The theory
  shows that the stored state stays well formed, that the generation identifies the accepted
  authority, that retired epochs never come back and that a broken lease is restored by a safe
  bootstrap of a new epoch only.
\<close>

section \<open>Data\<close>

definition HOLD :: int where "HOLD = 0"
definition AUTONOMY :: int where "AUTONOMY = 1"
definition KEYBOARD :: int where "KEYBOARD = 2"
definition ESTOP :: int where "ESTOP = 3"
definition VALID_AUTHORITIES :: "int set" where
  "VALID_AUTHORITIES = {HOLD, AUTONOMY, KEYBOARD, ESTOP}"

lemmas authority_codes = HOLD_def AUTONOMY_def KEYBOARD_def ESTOP_def VALID_AUTHORITIES_def

record AuthoritySnapshot =
  snap_authority :: int
  snap_estop_latched :: bool
  snap_manager_epoch :: int
  snap_transition_sequence :: int
  snap_active_source :: string
  snap_reason :: string
  snap_pending_revocation :: int
  snap_quiescence_acknowledged :: bool

datatype AuthorityUpdateDecision =
    ACCEPTED_INITIAL
  | ACCEPTED_HEARTBEAT
  | ACCEPTED_TRANSITION
  | ACCEPTED_MANAGER_RESTART
  | REJECTED_INVALID_PAYLOAD
  | REJECTED_RETIRED_EPOCH
  | REJECTED_UNSAFE_EPOCH_BOOTSTRAP
  | REJECTED_LEASE_DISCONTINUITY
  | REJECTED_OLD_SEQUENCE
  | REJECTED_CONFLICTING_HEARTBEAT
  | REJECTED_REORDERED_RECEIPT

record AuthorityUpdate =
  upd_accepted :: bool
  upd_generation_changed :: bool
  upd_lease_discontinuity :: bool
  upd_decision :: AuthorityUpdateDecision

record ControlAuthorityLease =
  lease_s :: pyfloat
  lease_snapshot :: "AuthoritySnapshot option"
  lease_received_at :: "pyfloat option"
  lease_generation :: int
  lease_retired_epochs :: "int set"

section \<open>Operations\<close>

definition lease_init :: "pyfloat \<Rightarrow> ControlAuthorityLease result" where
  "lease_init d =
     (if d \<le> 0 then Inl (ValueError ''authority lease_s must be greater than zero'')
      else Inr \<lparr>lease_s = d, lease_snapshot = None, lease_received_at = None,
                lease_generation = 0, lease_retired_epochs = {}\<rparr>)"

definition lease_observed :: "ControlAuthorityLease \<Rightarrow> bool" where
  "lease_observed s \<longleftrightarrow> lease_snapshot s \<noteq> None \<and> lease_received_at s \<noteq> None"

definition lease_authority :: "ControlAuthorityLease \<Rightarrow> int" where
  "lease_authority s = (case lease_snapshot s of None \<Rightarrow> HOLD | Some c \<Rightarrow> snap_authority c)"

definition fresh :: "ControlAuthorityLease \<Rightarrow> pyfloat \<Rightarrow> bool" where
  "fresh s now = (case lease_received_at s of
       None \<Rightarrow> False
     | Some r \<Rightarrow> now \<ge> r \<and> now - r \<le> lease_s s)"

definition fresh_autonomy :: "ControlAuthorityLease \<Rightarrow> pyfloat \<Rightarrow> bool" where
  "fresh_autonomy s now \<longleftrightarrow> fresh s now \<and> lease_authority s = AUTONOMY"

definition payload_is_valid :: "AuthoritySnapshot \<Rightarrow> bool" where
  "payload_is_valid p =
     (if snap_authority p \<notin> VALID_AUTHORITIES
         \<or> snap_manager_epoch p \<le> 0
         \<or> snap_transition_sequence p < 0
         \<or> snap_pending_revocation p < 0
         \<or> snap_pending_revocation p > snap_transition_sequence p
         \<or> snap_estop_latched p \<noteq> (snap_authority p = ESTOP)
      then False
      else if snap_authority p = AUTONOMY
              \<and> (snap_pending_revocation p \<noteq> 0 \<or> snap_quiescence_acknowledged p)
      then False
      else if snap_authority p = HOLD then snap_active_source p = []
      else snap_active_source p \<noteq> [])"

definition safe_manager_bootstrap :: "AuthoritySnapshot \<Rightarrow> bool" where
  "safe_manager_bootstrap p \<longleftrightarrow>
     snap_manager_epoch p > 0
     \<and> snap_transition_sequence p = 0
     \<and> snap_authority p = HOLD
     \<and> \<not> snap_estop_latched p
     \<and> snap_active_source p = []
     \<and> snap_reason p = ''initialized''"

definition reject :: "AuthorityUpdateDecision \<Rightarrow> bool \<Rightarrow> AuthorityUpdate" where
  "reject d discontinuity =
     \<lparr>upd_accepted = False, upd_generation_changed = False,
      upd_lease_discontinuity = discontinuity, upd_decision = d\<rparr>"

definition accept ::
  "AuthoritySnapshot \<Rightarrow> pyfloat \<Rightarrow> AuthorityUpdateDecision \<Rightarrow> bool \<Rightarrow> bool \<Rightarrow>
   ControlAuthorityLease \<Rightarrow> AuthorityUpdate \<times> ControlAuthorityLease" where
  "accept p t d generation_changed discontinuity s =
     (\<lparr>upd_accepted = True, upd_generation_changed = generation_changed,
       upd_lease_discontinuity = discontinuity, upd_decision = d\<rparr>,
      s\<lparr>lease_snapshot := Some p, lease_received_at := Some t,
        lease_generation := (if generation_changed then lease_generation s + 1
                             else lease_generation s)\<rparr>)"

definition update ::
  "AuthoritySnapshot \<Rightarrow> pyfloat \<Rightarrow> ControlAuthorityLease \<Rightarrow>
   AuthorityUpdate \<times> ControlAuthorityLease" where
  "update p t s =
     (if \<not> payload_is_valid p then (reject REJECTED_INVALID_PAYLOAD False, s)
      else case (lease_snapshot s, lease_received_at s) of
        (Some current, Some received_at) \<Rightarrow>
          if t < received_at then (reject REJECTED_REORDERED_RECEIPT False, s)
          else if snap_manager_epoch p \<noteq> snap_manager_epoch current then
            (if snap_manager_epoch p \<in> lease_retired_epochs s
             then (reject REJECTED_RETIRED_EPOCH False, s)
             else if \<not> safe_manager_bootstrap p
             then (reject REJECTED_UNSAFE_EPOCH_BOOTSTRAP False, s)
             else accept p t ACCEPTED_MANAGER_RESTART True True
                    (s\<lparr>lease_retired_epochs :=
                         insert (snap_manager_epoch current) (lease_retired_epochs s)\<rparr>))
          else if t - received_at > lease_s s
          then (reject REJECTED_LEASE_DISCONTINUITY True, s)
          else if snap_transition_sequence p < snap_transition_sequence current
          then (reject REJECTED_OLD_SEQUENCE False, s)
          else if snap_transition_sequence p = snap_transition_sequence current then
            (if p \<noteq> current then (reject REJECTED_CONFLICTING_HEARTBEAT False, s)
             else (\<lparr>upd_accepted = True, upd_generation_changed = False,
                    upd_lease_discontinuity = False, upd_decision = ACCEPTED_HEARTBEAT\<rparr>,
                   s\<lparr>lease_received_at := Some t\<rparr>))
          else accept p t ACCEPTED_TRANSITION True False s
      | _ \<Rightarrow> accept p t ACCEPTED_INITIAL True False s)"

text \<open>The lease as a machine over received messages: a snapshot with its receipt time.\<close>

definition lease_step ::
  "AuthoritySnapshot \<times> pyfloat \<Rightarrow> ControlAuthorityLease \<Rightarrow> ControlAuthorityLease" where
  "lease_step m s = snd (update (fst m) (snd m) s)"

section \<open>Invariant\<close>

definition lease_inv :: "ControlAuthorityLease \<Rightarrow> bool" where
  "lease_inv s \<longleftrightarrow>
     (lease_snapshot s = None \<longleftrightarrow> lease_received_at s = None)
     \<and> (lease_snapshot s = None \<longrightarrow> lease_generation s = 0 \<and> lease_retired_epochs s = {})
     \<and> 0 \<le> lease_generation s
     \<and> finite (lease_retired_epochs s)
     \<and> (\<forall>c. lease_snapshot s = Some c \<longrightarrow>
          payload_is_valid c
          \<and> snap_manager_epoch c \<notin> lease_retired_epochs s
          \<and> int (card (lease_retired_epochs s)) < lease_generation s)"

lemmas lease_update_defs = update_def accept_def reject_def lease_step_def

lemma lease_init_inv: "lease_init d = Inr s \<Longrightarrow> lease_inv s"
  by (auto simp: lease_init_def lease_inv_def split: if_splits)

lemma lease_step_inv: "lease_inv s \<Longrightarrow> lease_inv (lease_step m s)"
  by (auto simp: lease_update_defs lease_inv_def card_insert_if split: option.splits)

lemma lease_step_generation: "lease_generation s \<le> lease_generation (lease_step m s)"
  by (auto simp: lease_update_defs split: option.splits)

interpretation lease: monotone_system lease_step lease_inv lease_generation
  by unfold_locales (auto intro: lease_step_inv lease_step_generation)


section \<open>Single steps\<close>

lemma payload_valid_epoch: "payload_is_valid p \<Longrightarrow> 0 < snap_manager_epoch p"
  by (auto simp: payload_is_valid_def split: if_splits)

lemma update_rejected_unchanged: "\<not> upd_accepted (fst (update p t s)) \<Longrightarrow> snd (update p t s) = s"
  by (auto simp: lease_update_defs split: option.splits if_splits)

lemma update_accepted_state:
  assumes "upd_accepted (fst (update p t s))"
  shows "lease_snapshot (snd (update p t s)) = Some p"
    and "lease_received_at (snd (update p t s)) = Some t"
    and "lease_s (snd (update p t s)) = lease_s s"
    and "payload_is_valid p"
    and "lease_generation (snd (update p t s)) =
           lease_generation s + (if upd_generation_changed (fst (update p t s)) then 1 else 0)"
  using assms by (auto simp: lease_update_defs split: option.splits if_splits)

lemma lease_step_lease_s [simp]: "lease_s (lease_step m s) = lease_s s"
  by (auto simp: lease_update_defs split: option.splits)

lemma lease_step_same_generation:
  assumes "lease_generation (lease_step m s) = lease_generation s"
  shows "lease_snapshot (lease_step m s) = lease_snapshot s"
    and "lease_retired_epochs (lease_step m s) = lease_retired_epochs s"
  using assms by (auto simp: lease_update_defs split: option.splits if_splits)

text \<open>A message that may restart the lease: the bootstrap of an epoch that is neither the current
  one nor retired.\<close>

definition restarts :: "AuthoritySnapshot \<Rightarrow> ControlAuthorityLease \<Rightarrow> bool" where
  "restarts p s \<longleftrightarrow> safe_manager_bootstrap p
     \<and> snap_manager_epoch p \<notin> lease_retired_epochs s
     \<and> Some (snap_manager_epoch p) \<noteq> map_option snap_manager_epoch (lease_snapshot s)"

lemma lease_step_broken:
  assumes "lease_snapshot s = Some c" "lease_received_at s = Some r"
    and "t - r > lease_s s" "\<not> restarts p s"
  shows "lease_step (p, t) s = s"
  using assms by (auto simp: lease_update_defs restarts_def)

lemma lease_step_retired: "lease_retired_epochs s \<subseteq> lease_retired_epochs (lease_step m s)"
  by (auto simp: lease_update_defs split: option.splits)

lemma lease_run_retired: "lease_retired_epochs s \<subseteq> lease_retired_epochs (run lease_step es s)"
  by (induction es arbitrary: s) (auto dest: lease_step_retired [THEN subsetD])

lemma lease_step_sequence:
  assumes "lease_inv s" "lease_snapshot s = Some c"
  shows "\<exists>c'. lease_snapshot (lease_step m s) = Some c'
     \<and> (snap_manager_epoch c' = snap_manager_epoch c
          \<and> snap_transition_sequence c \<le> snap_transition_sequence c'
        \<or> snap_manager_epoch c \<in> lease_retired_epochs (lease_step m s))"
  using assms by (auto simp: lease_update_defs lease_inv_def split: option.splits)

lemma lease_run_sequence:
  assumes "lease_inv s" "lease_snapshot s = Some c"
  shows "\<exists>c'. lease_snapshot (run lease_step es s) = Some c'
     \<and> (snap_manager_epoch c' = snap_manager_epoch c
          \<and> snap_transition_sequence c \<le> snap_transition_sequence c'
        \<or> snap_manager_epoch c \<in> lease_retired_epochs (run lease_step es s))"
  using assms
proof (induction es arbitrary: s c)
  case Nil
  then show ?case by simp
next
  case (Cons m es)
  from lease_step_sequence [OF Cons.prems, of m] obtain c1 where
    c1: "lease_snapshot (lease_step m s) = Some c1"
    and or1: "snap_manager_epoch c1 = snap_manager_epoch c
          \<and> snap_transition_sequence c \<le> snap_transition_sequence c1
        \<or> snap_manager_epoch c \<in> lease_retired_epochs (lease_step m s)" by blast
  have inv1: "lease_inv (lease_step m s)" using Cons.prems(1) by (rule lease_step_inv)
  from Cons.IH [OF inv1 c1] obtain c' where
    c': "lease_snapshot (run lease_step es (lease_step m s)) = Some c'"
    and or2: "snap_manager_epoch c' = snap_manager_epoch c1
          \<and> snap_transition_sequence c1 \<le> snap_transition_sequence c'
        \<or> snap_manager_epoch c1 \<in> lease_retired_epochs (run lease_step es (lease_step m s))"
    by blast
  have "lease_retired_epochs (lease_step m s)
      \<subseteq> lease_retired_epochs (run lease_step es (lease_step m s))" by (rule lease_run_retired)
  with c' or1 or2 show ?case by auto
qed

section \<open>Properties\<close>

text \<open>C3. A broken lease is sticky. Once the last receipt is more than the lease duration in the
  past, no sequence of later messages restores fresh autonomy unless one of them is the safe
  bootstrap (sequence 0, HOLD, initialized) of an epoch that is neither the current nor a retired
  one; without such a message the lease state does not change at all.\<close>

theorem lease_loss_is_sticky:
  assumes "lease_snapshot s = Some c" "lease_received_at s = Some r"
    and late: "\<forall>m\<in>set es. snd m - r > lease_s s"
    and none: "\<forall>m\<in>set es. \<not> restarts (fst m) s"
    and now: "now - r > lease_s s"
  shows "run lease_step es s = s \<and> \<not> fresh_autonomy (run lease_step es s) now"
proof -
  have "run lease_step es s = s"
  proof (rule run_cond_unchanged)
    fix m assume "m \<in> set es"
    then show "lease_step m s = s"
      using lease_step_broken [OF assms(1,2), of "snd m" "fst m"] late none by auto
  qed
  moreover have "\<not> fresh_autonomy s now"
    using assms(2) now by (auto simp: fresh_autonomy_def fresh_def dest: flt_not_le_less)
  ultimately show ?thesis by simp
qed

definition example_hold :: AuthoritySnapshot where
  "example_hold = \<lparr>snap_authority = 0, snap_estop_latched = False, snap_manager_epoch = 7,
     snap_transition_sequence = 0, snap_active_source = [], snap_reason = ''initialized'',
     snap_pending_revocation = 0, snap_quiescence_acknowledged = True\<rparr>"

definition example_autonomy :: AuthoritySnapshot where
  "example_autonomy = \<lparr>snap_authority = 1, snap_estop_latched = False, snap_manager_epoch = 7,
     snap_transition_sequence = 1, snap_active_source = ''autonomy'', snap_reason = ''resumed'',
     snap_pending_revocation = 0, snap_quiescence_acknowledged = False\<rparr>"

definition example_lease :: ControlAuthorityLease where
  "example_lease = \<lparr>lease_s = Fin 1, lease_snapshot = Some example_autonomy,
     lease_received_at = Some (Fin 10), lease_generation = 2, lease_retired_epochs = {3}\<rparr>"

lemmas lease_examples = example_hold_def example_autonomy_def example_lease_def

theorem lease_loss_is_sticky_witness:
  "run lease_step [(example_autonomy, Fin 12)] example_lease = example_lease
   \<and> \<not> fresh_autonomy (run lease_step [(example_autonomy, Fin 12)] example_lease) (Fin 13)"
proof (rule lease_loss_is_sticky)
  show "lease_snapshot example_lease = Some example_autonomy" by (simp add: lease_examples)
  show "lease_received_at example_lease = Some (Fin 10)" by (simp add: lease_examples)
  show "\<forall>m\<in>set [(example_autonomy, Fin 12)]. snd m - Fin 10 > lease_s example_lease"
    by (simp add: lease_examples)
  show "\<forall>m\<in>set [(example_autonomy, Fin 12)]. \<not> restarts (fst m) example_lease"
    by (simp add: lease_examples restarts_def)
  show "Fin 13 - Fin 10 > lease_s example_lease" by (simp add: lease_examples)
qed

text \<open>The generation identifies the accepted authority: if a run of messages leaves the
  generation where it was, then the accepted snapshot and the retired epochs are unchanged, so a
  task admitted under that generation still runs under the authority it was admitted for; and the
  generation never decreases.\<close>

lemma generation_identifies_authority:
  assumes "lease_inv s"
  shows "lease_generation s \<le> lease_generation (run lease_step es s)
     \<and> (lease_generation (run lease_step es s) = lease_generation s \<longrightarrow>
          lease_snapshot (run lease_step es s) = lease_snapshot s
          \<and> lease_retired_epochs (run lease_step es s) = lease_retired_epochs s)"
proof (intro conjI impI)
  show "lease_generation s \<le> lease_generation (run lease_step es s)"
    using assms by (rule lease.run_level)
next
  assume "lease_generation (run lease_step es s) = lease_generation s"
  with assms have "lease_snapshot (run lease_step es s) = lease_snapshot s
      \<and> lease_retired_epochs (run lease_step es s) = lease_retired_epochs s"
  proof (induction es arbitrary: s)
    case Nil
    then show ?case by simp
  next
    case (Cons m es)
    note eq = lease.run_level_eq_step [OF Cons.prems]
    have "lease_inv (lease_step m s)" using Cons.prems(1) by (rule lease_step_inv)
    from Cons.IH [OF this eq(2)] lease_step_same_generation [OF eq(1)] show ?case by simp
  qed
  then show "lease_snapshot (run lease_step es s) = lease_snapshot s"
    and "lease_retired_epochs (run lease_step es s) = lease_retired_epochs s" by auto
qed

lemma example_lease_inv: "lease_inv example_lease"
  by (simp add: lease_examples lease_inv_def payload_is_valid_def authority_codes)

text \<open>Message order within an epoch: after any run of messages from a well-formed lease, the
  current snapshot is either of the epoch it was, with a transition sequence that has not
  decreased, or the old epoch is retired; a retired epoch is never current again.\<close>

lemma epochs_never_return:
  assumes "lease_inv s" "lease_snapshot s = Some c"
  shows "\<exists>c'. lease_snapshot (run lease_step es s) = Some c'
     \<and> (if snap_manager_epoch c' = snap_manager_epoch c
        then snap_transition_sequence c \<le> snap_transition_sequence c'
        else snap_manager_epoch c \<in> lease_retired_epochs (run lease_step es s))
     \<and> snap_manager_epoch c' \<notin> lease_retired_epochs s"
proof -
  from lease_run_sequence [OF assms, of es] obtain c' where
    c': "lease_snapshot (run lease_step es s) = Some c'"
    and alt: "snap_manager_epoch c' = snap_manager_epoch c
          \<and> snap_transition_sequence c \<le> snap_transition_sequence c'
        \<or> snap_manager_epoch c \<in> lease_retired_epochs (run lease_step es s)" by blast
  have "lease_inv (run lease_step es s)" using assms(1) by (rule lease.run_inv)
  with c' have "snap_manager_epoch c' \<notin> lease_retired_epochs (run lease_step es s)"
    by (auto simp: lease_inv_def)
  with c' alt lease_run_retired [of s es] show ?thesis by auto
qed

text \<open>The effect of one message: a rejected one leaves the lease untouched; an accepted one is
  valid and becomes the current snapshot, received at its own time and hence fresh then (for a
  finite time and a positive lease), and the generation grows by one exactly when the update says
  so, which is when the snapshot differs from the one held before.\<close>

lemma update_effect:
  assumes "0 < lease_s s"
  shows "(\<not> upd_accepted (fst (update p (Fin t) s)) \<longrightarrow> snd (update p (Fin t) s) = s)
     \<and> (upd_accepted (fst (update p (Fin t) s)) \<longrightarrow>
          payload_is_valid p
          \<and> lease_snapshot (snd (update p (Fin t) s)) = Some p
          \<and> fresh (snd (update p (Fin t) s)) (Fin t)
          \<and> lease_generation (snd (update p (Fin t) s)) = lease_generation s
              + (if upd_generation_changed (fst (update p (Fin t) s)) then 1 else 0)
          \<and> (upd_generation_changed (fst (update p (Fin t) s)) \<longleftrightarrow>
              lease_snapshot s \<noteq> Some p \<or> lease_received_at s = None))"
proof -
  have "0 \<le> lease_s s" using assms by (rule flt_less_le)
  then have "fresh (snd (update p (Fin t) s)) (Fin t)"
    if "upd_accepted (fst (update p (Fin t) s))"
    using update_accepted_state(2,3) [OF that] by (simp add: fresh_def zero_fin)
  moreover have "upd_generation_changed (fst (update p (Fin t) s)) \<longleftrightarrow>
      lease_snapshot s \<noteq> Some p \<or> lease_received_at s = None"
    if "upd_accepted (fst (update p (Fin t) s))"
    using that by (auto simp: lease_update_defs split: option.splits if_splits)
  ultimately show ?thesis
    by (cases "upd_accepted (fst (update p (Fin t) s))")
      (simp_all add: update_rejected_unchanged update_accepted_state)
qed


end
