(* ===== verification/Authority_Bootstrap.thy ===== *)
theory Authority_Bootstrap
  imports Authority_Lease
begin

text \<open>
  \<open>control_authority_bootstrap.py\<close>: the one-shot node that turns the verified cold-start HOLD of
  the manager into autonomy through the typed service. The service, the executor and the topic are
  arguments: whether the service is available, the states seen at the successive polls before each
  deadline, and the response to the request.
\<close>

definition validate_cold_bootstrap_state :: "AuthoritySnapshot \<Rightarrow> (int \<times> int) result" where
  "validate_cold_bootstrap_state st =
     (let epoch = snap_manager_epoch st; sequence = snap_transition_sequence st
      in if epoch \<le> 0
            \<or> sequence \<noteq> 0
            \<or> snap_authority st \<noteq> HOLD
            \<or> snap_estop_latched st
            \<or> snap_pending_revocation st \<noteq> 0
            \<or> \<not> snap_quiescence_acknowledged st
            \<or> snap_active_source st \<noteq> []
         then Inl (RuntimeError ''manager did not publish a safe cold-bootstrap HOLD state'')
         else Inr (epoch, sequence))"

definition validate_resumed_state :: "AuthoritySnapshot \<Rightarrow> int \<Rightarrow> int \<Rightarrow> int result" where
  "validate_resumed_state st manager_epoch previous_sequence =
     (let sequence = snap_transition_sequence st
      in if snap_manager_epoch st \<noteq> manager_epoch
            \<or> sequence \<le> previous_sequence
            \<or> snap_authority st \<noteq> AUTONOMY
            \<or> snap_estop_latched st
            \<or> snap_pending_revocation st \<noteq> 0
            \<or> snap_quiescence_acknowledged st
            \<or> snap_active_source st \<noteq> ''autonomy''
         then Inl (RuntimeError ''RESUME_AUTONOMY returned an invalid or stale authority state'')
         else Inr sequence)"

text \<open>\<open>_wait_for_state\<close>: \<open>polls\<close> are the values of \<open>self._state\<close> after each \<open>spin_once\<close> that
  starts before the deadline; when none of them satisfies the predicate the deadline passes.\<close>

fun wait_for_state ::
  "(AuthoritySnapshot \<Rightarrow> bool) \<Rightarrow> AuthoritySnapshot option list \<Rightarrow> AuthoritySnapshot result" where
  "wait_for_state P [] = Inl (TimeoutError ''timed out waiting for control authority state'')"
| "wait_for_state P (None # polls) = wait_for_state P polls"
| "wait_for_state P (Some st # polls) = (if P st then Inr st else wait_for_state P polls)"

record SetControlAuthorityRequest =
  req_command :: string
  req_requester :: string
  req_reason :: string

record SetControlAuthorityResponse =
  resp_accepted :: bool
  resp_message :: string
  resp_state :: AuthoritySnapshot

definition resume ::
  "bool \<Rightarrow> AuthoritySnapshot option list \<Rightarrow>
   (SetControlAuthorityRequest \<Rightarrow> SetControlAuthorityResponse option) \<Rightarrow>
   AuthoritySnapshot option list \<Rightarrow> (int \<times> int) result" where
  "resume service_available first_polls call second_polls =
     (if \<not> service_available then Inl (TimeoutError ''/control/set_authority is unavailable'')
      else case wait_for_state (\<lambda>_. True) first_polls of
        Inl e \<Rightarrow> Inl e
      | Inr initial \<Rightarrow>
        (case validate_cold_bootstrap_state initial of
          Inl e \<Rightarrow> Inl e
        | Inr (manager_epoch, initial_sequence) \<Rightarrow>
          (case call \<lparr>req_command = ''RESUME_AUTONOMY'', req_requester = ''showcase_session_root'',
                      req_reason = ''verified_cold_start''\<rparr> of
            None \<Rightarrow> Inl (RuntimeError ''RESUME_AUTONOMY rejected: no response'')
          | Some response \<Rightarrow>
            if \<not> resp_accepted response
            then Inl (RuntimeError (''RESUME_AUTONOMY rejected: '' @ resp_message response))
            else case validate_resumed_state (resp_state response) manager_epoch initial_sequence of
              Inl e \<Rightarrow> Inl e
            | Inr resumed_sequence \<Rightarrow>
              (case wait_for_state
                      (\<lambda>st. snap_manager_epoch st = manager_epoch
                         \<and> snap_transition_sequence st \<ge> resumed_sequence
                         \<and> snap_authority st = AUTONOMY) second_polls of
                Inl e \<Rightarrow> Inl e
              | Inr _ \<Rightarrow> Inr (manager_epoch, resumed_sequence)))))"

lemma wait_for_state_Inr:
  "wait_for_state P polls = Inr st \<Longrightarrow> Some st \<in> set polls \<and> P st"
  by (induction P polls rule: wait_for_state.induct) (auto split: if_splits)

lemma wait_for_state_finds:
  "Some st \<in> set polls \<Longrightarrow> P st \<Longrightarrow> \<exists>st'. wait_for_state P polls = Inr st'"
  by (induction P polls rule: wait_for_state.induct) auto

lemma cold_state_valid:
  "validate_cold_bootstrap_state st = Inr (e, q) \<Longrightarrow>
     payload_is_valid st \<and> e = snap_manager_epoch st \<and> q = 0 \<and> 0 < e \<and> snap_authority st = HOLD
     \<and> snap_transition_sequence st = 0"
  by (auto simp: validate_cold_bootstrap_state_def payload_is_valid_def authority_codes Let_def
      split: if_splits)

lemma resumed_state_valid:
  "validate_resumed_state st e q = Inr q' \<Longrightarrow> 0 < e \<Longrightarrow> 0 \<le> q \<Longrightarrow>
     payload_is_valid st \<and> snap_manager_epoch st = e \<and> q < q'
     \<and> q' = snap_transition_sequence st \<and> snap_authority st = AUTONOMY"
  by (auto simp: validate_resumed_state_def payload_is_valid_def authority_codes Let_def
      split: if_splits)

text \<open>A successful cold-start resume is exactly what the lease needs: both states the node
  validated are valid lease payloads of one epoch with increasing sequences, and a new lease that
  receives the first and then, within the lease duration, the second holds fresh autonomy at that
  moment, in generation 2. The wait after the service call has seen the resumed authority on the
  topic.\<close>

lemma resume_gives_fresh_autonomy:
  assumes res: "resume avail polls1 call polls2 = Inr (e, q)"
    and init: "lease_init d = Inr s0"
    and times: "t0 \<le> t1" "Fin (t1 - t0) \<le> d" "0 \<le> d"
  shows "\<exists>first (response :: SetControlAuthorityResponse). Some first \<in> set polls1
     \<and> snap_manager_epoch first = e \<and> snap_manager_epoch (resp_state response) = e
     \<and> snap_transition_sequence (resp_state response) = q \<and> 0 < q
     \<and> (\<exists>st. Some st \<in> set polls2 \<and> snap_manager_epoch st = e
            \<and> q \<le> snap_transition_sequence st \<and> snap_authority st = AUTONOMY)
     \<and> (let s2 = run lease_step [(first, Fin t0), (resp_state response, Fin t1)] s0
        in fresh_autonomy s2 (Fin t1) \<and> lease_generation s2 = 2)"
proof -
  from res obtain first e' q0 st and response :: SetControlAuthorityResponse where
    w1: "wait_for_state (\<lambda>_. True) polls1 = Inr first"
    and v1: "validate_cold_bootstrap_state first = Inr (e', q0)"
    and v2: "validate_resumed_state (resp_state response) e' q0 = Inr q"
    and w2: "wait_for_state (\<lambda>st. snap_manager_epoch st = e'
               \<and> snap_transition_sequence st \<ge> q \<and> snap_authority st = AUTONOMY) polls2 = Inr st"
    and e: "e = e'"
    by (simp add: resume_def split: if_splits sum.splits prod.splits option.splits)
  note c = cold_state_valid [OF v1]
  have q0: "q0 = 0" "0 < e'" using c by auto
  have r: "payload_is_valid (resp_state response)" "snap_manager_epoch (resp_state response) = e'"
      "0 < q" "q = snap_transition_sequence (resp_state response)"
      "snap_authority (resp_state response) = AUTONOMY"
    using resumed_state_valid [OF v2] q0 by auto
  let ?s1 = "lease_step (first, Fin t0) s0"
  have s0: "lease_snapshot s0 = None" "lease_generation s0 = 0" "lease_s s0 = d"
    using init by (auto simp: lease_init_def split: if_splits)
  then have s1: "lease_snapshot ?s1 = Some first" "lease_received_at ?s1 = Some (Fin t0)"
      "lease_generation ?s1 = 1"
    using c by (auto simp: lease_update_defs)
  have "\<not> d < Fin (t1 - t0)" using times(2) by (blast dest: flt_not_le_less)
  then have "lease_snapshot (lease_step (resp_state response, Fin t1) ?s1) = Some (resp_state response)
      \<and> lease_received_at (lease_step (resp_state response, Fin t1) ?s1) = Some (Fin t1)
      \<and> lease_generation (lease_step (resp_state response, Fin t1) ?s1) = 2"
    using s1 s0 c r times(1) by (auto simp: lease_update_defs)
  then have "let s2 = run lease_step [(first, Fin t0), (resp_state response, Fin t1)] s0
      in fresh_autonomy s2 (Fin t1) \<and> lease_generation s2 = 2"
    using s0 r times(3) by (simp add: fresh_autonomy_def fresh_def lease_authority_def zero_fin)
  moreover have "\<exists>st. Some st \<in> set polls2 \<and> snap_manager_epoch st = e
      \<and> q \<le> snap_transition_sequence st \<and> snap_authority st = AUTONOMY"
    using wait_for_state_Inr [OF w2] e by blast
  moreover have "Some first \<in> set polls1" using wait_for_state_Inr [OF w1] by blast
  ultimately show ?thesis
    using c r e by - (rule exI [of _ first], rule exI [of _ response], simp)
qed

definition example_response :: SetControlAuthorityResponse where
  "example_response = \<lparr>resp_accepted = True, resp_message = [], resp_state = example_autonomy\<rparr>"

end
