(* ===== verification/Quiescence.thy ===== *)
theory Quiescence
  imports Prelude
begin

text \<open>
  \<open>autonomy_quiescence.py\<close>: the barrier between the revocation of autonomy and its
  acknowledgement. It gathers four facts (the explorer's ledger is settled, every Nav2 goal that was
  active has ended, the priority STOP has its result, a zero velocity newer than the STOP has been
  seen) and lets the acknowledgement proceed only when all of them hold. Every method of the class is
  an operation on \<open>barrier\<close>; the lock makes each of them atomic, so an interleaving of threads is a
  list of operations. Notifications to waiting threads carry no data and are left out; the waiting
  loops are modelled over the operations other threads perform between two checks.
\<close>

section \<open>Data\<close>

datatype QuiescenceState = IDLE | WAITING | READY | ACK_IN_FLIGHT | ACKNOWLEDGED | QFAILED

record QuiescenceIdentity =
  qid_manager_epoch :: int
  qid_revocation_sequence :: int

definition quiescence_identity :: "int \<Rightarrow> int \<Rightarrow> QuiescenceIdentity result" where
  "quiescence_identity e r =
     (if e \<le> 0 then Inl (ValueError ''manager_epoch must be positive'')
      else if r < 0 then Inl (ValueError ''revocation_sequence must be non-negative'')
      else Inr \<lparr>qid_manager_epoch = e, qid_revocation_sequence = r\<rparr>)"

definition show_identity :: "QuiescenceIdentity \<Rightarrow> string" where
  "show_identity i = ''QuiescenceIdentity(manager_epoch='' @ show_int (qid_manager_epoch i)
     @ '', revocation_sequence='' @ show_int (qid_revocation_sequence i) @ '')''"

record QuiescenceSnapshot =
  qs_state :: QuiescenceState
  qs_identity :: "QuiescenceIdentity option"
  qs_ready :: bool
  qs_missing :: "string list"
  qs_failure_reason :: string
  qs_frontier_required :: bool
  qs_nav2_goal_count :: nat
  qs_stop_command_id :: string
  qs_fresh_zero_generation :: "int option"

record barrier =
  zero_epsilon :: pyfloat
  bstate :: QuiescenceState
  identity :: "QuiescenceIdentity option"
  observed_authority :: "QuiescenceIdentity option"
  failure_reason :: string
  frontier_active :: bool
  frontier_terminal :: bool
  frontier_required :: bool
  active_nav2_goals :: "string set"
  required_nav2_goals :: "string set"
  terminal_nav2_goals :: "string set"
  terminal_nav2_goal_order :: "string list"
  stop_command_id :: string
  stop_result_observed :: bool
  stop_cmd_vel_generation :: "int option"
  fresh_zero_generation :: "int option"
  acknowledged_identities :: "QuiescenceIdentity set"
  acknowledged_identity_order :: "QuiescenceIdentity list"

definition FRONTIER_ACTIVE_STATUSES :: "string set" where
  "FRONTIER_ACTIVE_STATUSES = {''exploration_started'', ''exploration_running''}"

definition FRONTIER_TERMINAL_STATUSES :: "string set" where
  "FRONTIER_TERMINAL_STATUSES = {''exploration_paused'', ''exploration_complete'',
     ''exploration_completed'', ''exploration_stopped''}"

definition barrier_init :: "pyfloat \<Rightarrow> barrier result" where
  "barrier_init eps =
     (if \<not> isfinite eps \<or> eps < 0
      then Inl (ValueError ''zero_epsilon must be finite and non-negative'')
      else Inr \<lparr>zero_epsilon = eps, bstate = IDLE, identity = None, observed_authority = None,
        failure_reason = [], frontier_active = False, frontier_terminal = True,
        frontier_required = False, active_nav2_goals = {}, required_nav2_goals = {},
        terminal_nav2_goals = {}, terminal_nav2_goal_order = [], stop_command_id = [],
        stop_result_observed = False, stop_cmd_vel_generation = None,
        fresh_zero_generation = None, acknowledged_identities = {},
        acknowledged_identity_order = []\<rparr>)"

section \<open>Private helpers\<close>

definition active_states :: "QuiescenceState set" where
  "active_states = {WAITING, READY, ACK_IN_FLIGHT}"

definition missing_unlocked :: "barrier \<Rightarrow> string list" where
  "missing_unlocked s =
     (if frontier_required s \<and> \<not> frontier_terminal s then [''explore_ledger_terminal''] else [])
     @ (if required_nav2_goals s \<noteq> {} then [''nav2_action_terminal''] else [])
     @ (if \<not> stop_result_observed s then [''priority_stop_result''] else [])
     @ (if fresh_zero_generation s = None then [''fresh_zero_cmd_vel''] else [])"

definition fail_unlocked :: "string \<Rightarrow> barrier \<Rightarrow> barrier" where
  "fail_unlocked reason s =
     (if bstate s = QFAILED then s else s\<lparr>bstate := QFAILED, failure_reason := reason\<rparr>)"

definition refresh_ready_unlocked :: "barrier \<Rightarrow> barrier" where
  "refresh_ready_unlocked s =
     (if bstate s = ACK_IN_FLIGHT then
        (if missing_unlocked s \<noteq> [] then
           fail_unlocked (''quiescence evidence invalidated while ACK in flight: ''
             @ join '','' (missing_unlocked s)) s
         else s)
      else if bstate s \<notin> {WAITING, READY} then s
      else s\<lparr>bstate := (if missing_unlocked s = [] then READY else WAITING)\<rparr>)"

definition require_active_unlocked :: "barrier \<Rightarrow> unit result" where
  "require_active_unlocked s =
     (if bstate s = QFAILED then Inl (QuiescenceError (failure_reason s))
      else if bstate s \<notin> active_states
      then Inl (QuiescenceError ''autonomy quiescence is not active'')
      else Inr ())"

definition remember_acknowledged ::
  "QuiescenceIdentity \<Rightarrow> QuiescenceIdentity set \<times> QuiescenceIdentity list \<Rightarrow>
   QuiescenceIdentity set \<times> QuiescenceIdentity list" where
  "remember_acknowledged i m =
     (let (seen, order) = m
      in if i \<in> seen then (seen, order)
         else case order of
           expired # rest \<Rightarrow>
             if length order \<ge> 32 then (insert i (seen - {expired}), rest @ [i])
             else (insert i seen, order @ [i])
         | [] \<Rightarrow> (insert i seen, [i]))"

definition remember_terminal ::
  "string \<Rightarrow> string set \<times> string list \<Rightarrow> string set \<times> string list" where
  "remember_terminal tok m =
     (let (seen, order) = m
      in case order of
           expired # rest \<Rightarrow>
             if length order \<ge> 128 then (insert tok (seen - {expired}), rest @ [tok])
             else (insert tok seen, order @ [tok])
         | [] \<Rightarrow> (insert tok seen, [tok]))"

definition remember_acknowledged_identity_unlocked :: "QuiescenceIdentity \<Rightarrow> barrier \<Rightarrow> barrier" where
  "remember_acknowledged_identity_unlocked i s =
     (let (seen, order) =
        remember_acknowledged i (acknowledged_identities s, acknowledged_identity_order s)
      in s\<lparr>acknowledged_identities := seen, acknowledged_identity_order := order\<rparr>)"

definition remember_terminal_nav2_goal_unlocked :: "string \<Rightarrow> barrier \<Rightarrow> barrier" where
  "remember_terminal_nav2_goal_unlocked tok s =
     (let (seen, order) = remember_terminal tok (terminal_nav2_goals s, terminal_nav2_goal_order s)
      in s\<lparr>terminal_nav2_goals := seen, terminal_nav2_goal_order := order\<rparr>)"

definition acknowledge_current_unlocked :: "barrier \<Rightarrow> unit result \<times> barrier" where
  "acknowledge_current_unlocked s =
     (case identity s of
        None \<Rightarrow>
          (let s' = fail_unlocked ''cannot acknowledge quiescence without identity'' s
           in (Inl (QuiescenceError (failure_reason s')), s'))
      | Some i \<Rightarrow>
          (Inr (), (remember_acknowledged_identity_unlocked i s)\<lparr>bstate := ACKNOWLEDGED\<rparr>))"

definition snapshot_unlocked :: "barrier \<Rightarrow> QuiescenceSnapshot" where
  "snapshot_unlocked s =
     \<lparr>qs_state = bstate s, qs_identity = identity s,
      qs_ready = (bstate s = READY \<and> missing_unlocked s = []),
      qs_missing = missing_unlocked s, qs_failure_reason = failure_reason s,
      qs_frontier_required = frontier_required s,
      qs_nav2_goal_count = card (required_nav2_goals s),
      qs_stop_command_id = stop_command_id s,
      qs_fresh_zero_generation = fresh_zero_generation s\<rparr>"

section \<open>Operations\<close>

definition barrier_active :: "barrier \<Rightarrow> bool" where
  "barrier_active s \<longleftrightarrow> bstate s \<in> active_states"

definition observe_authority ::
  "QuiescenceIdentity \<Rightarrow> bool \<Rightarrow> barrier \<Rightarrow> unit result \<times> barrier" where
  "observe_authority i autonomy_active s =
     (if bstate s \<notin> active_states then (Inr (), s\<lparr>observed_authority := Some i\<rparr>)
      else case identity s of
        None \<Rightarrow> (Inr (), fail_unlocked ''active autonomy quiescence has no identity'' s)
      | Some expected \<Rightarrow>
        if autonomy_active then
          (let (r, s') =
             (if qid_manager_epoch i \<noteq> qid_manager_epoch expected then
                (Inr (), fail_unlocked
                   (''authority manager epoch changed while quiescing: expected=''
                    @ show_int (qid_manager_epoch expected) @ '' observed=''
                    @ show_int (qid_manager_epoch i)) s)
              else if bstate s = ACK_IN_FLIGHT then acknowledge_current_unlocked s
              else (Inr (), fail_unlocked
                      ''manager resumed autonomy before quiescence ACK started'' s))
           in case r of Inl e \<Rightarrow> (Inl e, s')
              | Inr _ \<Rightarrow> (Inr (), s'\<lparr>observed_authority := Some i\<rparr>))
        else if i \<noteq> expected then
          (if bstate s = ACK_IN_FLIGHT
              \<and> qid_manager_epoch i = qid_manager_epoch expected
              \<and> qid_revocation_sequence i > qid_revocation_sequence expected
           then (case acknowledge_current_unlocked s of
                   (Inl e, s') \<Rightarrow> (Inl e, s')
                 | (Inr _, s') \<Rightarrow> (Inr (), s'\<lparr>observed_authority := Some i\<rparr>))
           else (Inr (), fail_unlocked
                   (''authority identity changed while quiescing: expected=''
                    @ show_identity expected @ '' observed='' @ show_identity i) s))
        else (Inr (), s\<lparr>observed_authority := Some i\<rparr>))"

definition begin_barrier ::
  "QuiescenceIdentity \<Rightarrow> bool option \<Rightarrow> barrier \<Rightarrow> bool result \<times> barrier" where
  "begin_barrier i require_frontier s =
     (if bstate s = QFAILED then (Inl (QuiescenceError (failure_reason s)), s)
      else if bstate s \<in> active_states then
        (if Some i = identity s then (Inr False, s)
         else let s' = fail_unlocked ''new autonomy revocation arrived before previous ACK'' s
              in (Inl (QuiescenceError (failure_reason s')), s'))
      else if observed_authority s \<noteq> Some i
      then (Inl (QuiescenceError ''cannot begin without matching authority observation''), s)
      else (Inr True, refresh_ready_unlocked
              (s\<lparr>identity := Some i, bstate := WAITING, failure_reason := [],
                 frontier_required := (case require_frontier of
                     None \<Rightarrow> frontier_active s
                   | Some b \<Rightarrow> b \<or> frontier_active s),
                 required_nav2_goals := active_nav2_goals s,
                 stop_command_id := [], stop_result_observed := False,
                 stop_cmd_vel_generation := None, fresh_zero_generation := None\<rparr>)))"

definition observe_frontier ::
  "string \<Rightarrow> int \<Rightarrow> int \<Rightarrow> int \<Rightarrow> barrier \<Rightarrow> unit result \<times> barrier" where
  "observe_frontier status active_goal_count accepted_goal_count terminal_goal_count s =
     (if active_goal_count < 0 \<or> accepted_goal_count < 0 \<or> terminal_goal_count < 0
      then (Inl (ValueError ''frontier ledger counters must be non-negative''), s)
      else
        let normalized_status = lower (strip status);
            terminal = (normalized_status \<in> FRONTIER_TERMINAL_STATUSES
              \<and> active_goal_count = 0 \<and> accepted_goal_count = terminal_goal_count);
            active = (normalized_status \<in> FRONTIER_ACTIVE_STATUSES
              \<or> active_goal_count > 0 \<or> accepted_goal_count > terminal_goal_count);
            s' = s\<lparr>frontier_active := active, frontier_terminal := terminal\<rparr>
        in (Inr (), if bstate s' \<in> active_states \<and> frontier_required s'
                    then refresh_ready_unlocked s' else s'))"

definition nav2_goal_started :: "string \<Rightarrow> barrier \<Rightarrow> unit result \<times> barrier" where
  "nav2_goal_started tok s =
     (let normalized = strip tok
      in if normalized = [] then (Inl (ValueError ''Nav2 goal token must not be empty''), s)
         else if normalized \<in> active_nav2_goals s
         then (Inl (QuiescenceError (''duplicate active Nav2 goal: '' @ normalized)), s)
         else if normalized \<in> terminal_nav2_goals s
         then (Inl (QuiescenceError (''reused terminal Nav2 goal token: '' @ normalized)), s)
         else
           let s' = s\<lparr>active_nav2_goals := insert normalized (active_nav2_goals s)\<rparr>
           in (Inr (), if bstate s' \<in> active_states
                 then fail_unlocked (''Nav2 goal started after autonomy revocation: ''
                        @ normalized) s'
                 else s'))"

definition nav2_goal_terminal :: "string \<Rightarrow> barrier \<Rightarrow> bool result \<times> barrier" where
  "nav2_goal_terminal tok s =
     (let normalized = strip tok
      in if normalized = [] then (Inl (ValueError ''Nav2 goal token must not be empty''), s)
         else if normalized \<notin> active_nav2_goals s then
           (let category = (if normalized \<in> terminal_nav2_goals s then ''duplicate'' else ''unknown'');
                s' = fail_unlocked (category @ '' Nav2 terminal token: '' @ normalized) s
            in (Inl (QuiescenceError (failure_reason s')), s'))
         else (Inr True, refresh_ready_unlocked (remember_terminal_nav2_goal_unlocked normalized
                (s\<lparr>active_nav2_goals := active_nav2_goals s - {normalized},
                   required_nav2_goals := required_nav2_goals s - {normalized}\<rparr>))))"

definition mark_priority_stop_requested ::
  "string \<Rightarrow> int \<Rightarrow> barrier \<Rightarrow> unit result \<times> barrier" where
  "mark_priority_stop_requested command_id cmd_vel_generation s =
     (let normalized = strip command_id
      in if normalized = [] then (Inl (ValueError ''priority STOP command_id must not be empty''), s)
         else if cmd_vel_generation < 0
         then (Inl (ValueError ''cmd_vel_generation must be non-negative''), s)
         else case require_active_unlocked s of
           Inl e \<Rightarrow> (Inl e, s)
         | Inr _ \<Rightarrow>
           if stop_command_id s \<noteq> [] then
             (if stop_command_id s = normalized \<and> stop_cmd_vel_generation s = Some cmd_vel_generation
              then (Inr (), s)
              else let s' = fail_unlocked ''priority STOP request changed while quiescing'' s
                   in (Inl (QuiescenceError (failure_reason s')), s'))
           else (Inr (), refresh_ready_unlocked
                  (s\<lparr>stop_command_id := normalized,
                     stop_cmd_vel_generation := Some cmd_vel_generation,
                     fresh_zero_generation := None\<rparr>)))"

definition observe_priority_stop_result ::
  "string \<Rightarrow> bool \<Rightarrow> string \<Rightarrow> barrier \<Rightarrow> bool result \<times> barrier" where
  "observe_priority_stop_result command_id success detail s =
     (let normalized = strip command_id
      in if bstate s \<notin> active_states \<or> normalized \<noteq> stop_command_id s then (Inr False, s)
         else if \<not> success
         then (Inr True, fail_unlocked (''priority STOP failed''
                 @ (if detail \<noteq> [] then '': '' @ detail else [])) s)
         else (Inr True, refresh_ready_unlocked (s\<lparr>stop_result_observed := True\<rparr>)))"

definition observe_cmd_vel :: "int \<Rightarrow> pyfloat \<Rightarrow> pyfloat \<Rightarrow> barrier \<Rightarrow> unit result \<times> barrier" where
  "observe_cmd_vel generation linear_x angular_z s =
     (if generation < 0 then (Inl (ValueError ''cmd_vel generation must be non-negative''), s)
      else if \<not> isfinite linear_x \<or> \<not> isfinite angular_z
      then (Inl (ValueError ''cmd_vel values must be finite''), s)
      else if bstate s \<notin> active_states then (Inr (), s)
      else case stop_cmd_vel_generation s of
        None \<Rightarrow> (Inr (), s)
      | Some stop_generation \<Rightarrow>
        if generation \<le> stop_generation then (Inr (), s)
        else if \<bar>linear_x\<bar> \<le> zero_epsilon s \<and> \<bar>angular_z\<bar> \<le> zero_epsilon s
        then (Inr (), refresh_ready_unlocked (s\<lparr>fresh_zero_generation := Some generation\<rparr>))
        else (Inr (), refresh_ready_unlocked (s\<lparr>fresh_zero_generation := None\<rparr>)))"

definition acknowledged :: "QuiescenceIdentity \<Rightarrow> barrier \<Rightarrow> bool" where
  "acknowledged i s \<longleftrightarrow> i \<in> acknowledged_identities s"

definition begin_acknowledgement ::
  "QuiescenceIdentity \<Rightarrow> barrier \<Rightarrow> QuiescenceSnapshot result \<times> barrier" where
  "begin_acknowledgement i s =
     (if bstate s = QFAILED then (Inl (QuiescenceError (failure_reason s)), s)
      else
        let s1 = refresh_ready_unlocked s
        in if bstate s1 \<noteq> READY \<or> Some i \<noteq> identity s1 \<or> Some i \<noteq> observed_authority s1
           then (Inl (QuiescenceError
                  ''cannot start acknowledgement for incomplete or stale quiescence''), s1)
           else let s2 = s1\<lparr>bstate := ACK_IN_FLIGHT\<rparr> in (Inr (snapshot_unlocked s2), s2))"

definition complete_acknowledgement ::
  "QuiescenceIdentity \<Rightarrow> barrier \<Rightarrow> bool result \<times> barrier" where
  "complete_acknowledgement i s =
     (if i \<in> acknowledged_identities s then (Inr False, s)
      else if bstate s = QFAILED then (Inl (QuiescenceError (failure_reason s)), s)
      else if bstate s \<noteq> ACK_IN_FLIGHT \<or> Some i \<noteq> identity s \<or> Some i \<noteq> observed_authority s
              \<or> missing_unlocked s \<noteq> []
      then (Inl (QuiescenceError
             ''cannot complete acknowledgement for incomplete or stale quiescence''), s)
      else case acknowledge_current_unlocked s of
             (Inl e, s') \<Rightarrow> (Inl e, s')
           | (Inr _, s') \<Rightarrow> (Inr True, s'))"

definition mark_acknowledged :: "QuiescenceIdentity \<Rightarrow> barrier \<Rightarrow> unit result \<times> barrier" where
  "mark_acknowledged i s =
     (case begin_acknowledgement i s of
        (Inl e, s') \<Rightarrow> (Inl e, s')
      | (Inr _, s') \<Rightarrow>
        (case complete_acknowledgement i s' of
           (Inl e, s'') \<Rightarrow> (Inl e, s'')
         | (Inr _, s'') \<Rightarrow> (Inr (), s'')))"

definition fail_barrier :: "string \<Rightarrow> barrier \<Rightarrow> unit result \<times> barrier" where
  "fail_barrier reason s =
     (Inr (), fail_unlocked (if reason \<noteq> [] then reason else ''quiescence failed'') s)"

definition barrier_snapshot :: "barrier \<Rightarrow> QuiescenceSnapshot \<times> barrier" where
  "barrier_snapshot s = (let s' = refresh_ready_unlocked s in (snapshot_unlocked s', s'))"

section \<open>The barrier as a machine\<close>

text \<open>One atomic operation of some thread; its result, returned or raised, goes to that thread.\<close>

datatype barrier_op =
    ObserveAuthority QuiescenceIdentity bool
  | BeginBarrier QuiescenceIdentity "bool option"
  | ObserveFrontier string int int int
  | GoalStarted string
  | GoalTerminal string
  | MarkStopRequested string int
  | StopResult string bool string
  | CmdVel int pyfloat pyfloat
  | BeginAck QuiescenceIdentity
  | CompleteAck QuiescenceIdentity
  | MarkAcknowledged QuiescenceIdentity
  | FailBarrier string
  | TakeSnapshot

fun barrier_step :: "barrier_op \<Rightarrow> barrier \<Rightarrow> barrier" where
  "barrier_step (ObserveAuthority i a) s = snd (observe_authority i a s)"
| "barrier_step (BeginBarrier i f) s = snd (begin_barrier i f s)"
| "barrier_step (ObserveFrontier st a c t) s = snd (observe_frontier st a c t s)"
| "barrier_step (GoalStarted tok) s = snd (nav2_goal_started tok s)"
| "barrier_step (GoalTerminal tok) s = snd (nav2_goal_terminal tok s)"
| "barrier_step (MarkStopRequested c g) s = snd (mark_priority_stop_requested c g s)"
| "barrier_step (StopResult c ok d) s = snd (observe_priority_stop_result c ok d s)"
| "barrier_step (CmdVel g x z) s = snd (observe_cmd_vel g x z s)"
| "barrier_step (BeginAck i) s = snd (begin_acknowledgement i s)"
| "barrier_step (CompleteAck i) s = snd (complete_acknowledgement i s)"
| "barrier_step (MarkAcknowledged i) s = snd (mark_acknowledged i s)"
| "barrier_step (FailBarrier r) s = snd (fail_barrier r s)"
| "barrier_step TakeSnapshot s = snd (barrier_snapshot s)"

text \<open>\<open>wait_ready\<close>: the first clock reading sets the deadline; each entry of \<open>checks\<close> is a clock
  reading at a check of the loop and the operations other threads perform while this thread waits
  after it. \<open>None\<close> means that the thread is still waiting when the entries are used up.\<close>

fun wait_ready_loop ::
  "pyfloat \<Rightarrow> (pyfloat \<times> barrier_op list) list \<Rightarrow> barrier \<Rightarrow>
   (QuiescenceSnapshot result \<times> barrier) option" where
  "wait_ready_loop deadline [] s = None"
| "wait_ready_loop deadline ((now, ops) # checks) s =
     (if bstate s = QFAILED then Some (Inl (QuiescenceError (failure_reason s)), s)
      else
        let s1 = refresh_ready_unlocked s
        in if bstate s1 = READY then Some (Inr (snapshot_unlocked s1), s1)
           else if deadline - now \<le> 0 then
             (let s2 = fail_unlocked (''autonomy quiescence timeout missing=''
                         @ join '','' (missing_unlocked s1)) s1
              in Some (Inl (QuiescenceTimeout (failure_reason s2)), s2))
           else wait_ready_loop deadline checks (run barrier_step ops s1))"

definition wait_ready ::
  "pyfloat \<Rightarrow> pyfloat \<Rightarrow> (pyfloat \<times> barrier_op list) list \<Rightarrow> barrier \<Rightarrow>
   (QuiescenceSnapshot result \<times> barrier) option" where
  "wait_ready timeout_s start checks s =
     (if \<not> isfinite timeout_s \<or> timeout_s < 0
      then Some (Inl (ValueError ''quiescence timeout must be finite and non-negative''), s)
      else wait_ready_loop (start + timeout_s) checks s)"

fun wait_acknowledged_loop ::
  "QuiescenceIdentity \<Rightarrow> pyfloat \<Rightarrow> (pyfloat \<times> barrier_op list) list \<Rightarrow> barrier \<Rightarrow>
   (QuiescenceSnapshot result \<times> barrier) option" where
  "wait_acknowledged_loop i deadline [] s = None"
| "wait_acknowledged_loop i deadline ((now, ops) # checks) s =
     (if i \<in> acknowledged_identities s then Some (Inr (snapshot_unlocked s), s)
      else if bstate s = QFAILED then Some (Inl (QuiescenceError (failure_reason s)), s)
      else if deadline - now \<le> 0
      then Some (Inl (QuiescenceTimeout
             (''autonomy quiescence acknowledgement timeout identity='' @ show_identity i)), s)
      else wait_acknowledged_loop i deadline checks (run barrier_step ops s))"

definition wait_acknowledged ::
  "QuiescenceIdentity \<Rightarrow> pyfloat \<Rightarrow> pyfloat \<Rightarrow> (pyfloat \<times> barrier_op list) list \<Rightarrow> barrier \<Rightarrow>
   (QuiescenceSnapshot result \<times> barrier) option" where
  "wait_acknowledged i timeout_s start checks s =
     (if \<not> isfinite timeout_s \<or> timeout_s < 0
      then Some (Inl (ValueError ''quiescence timeout must be finite and non-negative''), s)
      else wait_acknowledged_loop i (start + timeout_s) checks s)"

section \<open>Bounded memories\<close>

interpretation ack_memory: bounded_memory 32 "\<lambda>_ _. True" remember_acknowledged
proof
  fix m :: "QuiescenceIdentity set \<times> QuiescenceIdentity list" and i
  assume "memory_ok 32 (fst m) (snd m)"
  then show "memory_ok 32 (fst (remember_acknowledged i m)) (snd (remember_acknowledged i m))"
    by (cases m; cases "snd m") (auto simp: memory_ok_def remember_acknowledged_def)
qed (auto simp: remember_acknowledged_def split: prod.splits list.splits)

interpretation goal_memory: bounded_memory 128 "\<lambda>tok m. tok \<notin> fst m" remember_terminal
proof
  fix m :: "string set \<times> string list" and tok
  assume "memory_ok 128 (fst m) (snd m)" "tok \<notin> fst m"
  then show "memory_ok 128 (fst (remember_terminal tok m)) (snd (remember_terminal tok m))"
    by (cases m; cases "snd m") (auto simp: memory_ok_def remember_terminal_def)
qed (auto simp: remember_terminal_def split: prod.splits list.splits)

section \<open>Invariant\<close>

definition base_inv :: "barrier \<Rightarrow> bool" where
  "base_inv s \<longleftrightarrow>
     memory_ok 128 (terminal_nav2_goals s) (terminal_nav2_goal_order s)
     \<and> memory_ok 32 (acknowledged_identities s) (acknowledged_identity_order s)
     \<and> active_nav2_goals s \<inter> terminal_nav2_goals s = {}
     \<and> finite (active_nav2_goals s)
     \<and> required_nav2_goals s \<subseteq> active_nav2_goals s
     \<and> (bstate s \<in> active_states \<longrightarrow>
          identity s \<noteq> None \<and> required_nav2_goals s = active_nav2_goals s)
     \<and> (\<forall>g. fresh_zero_generation s = Some g \<longrightarrow>
          (\<exists>sg. stop_cmd_vel_generation s = Some sg \<and> sg < g))
     \<and> (stop_cmd_vel_generation s = None \<longleftrightarrow> stop_command_id s = [])"

definition ready_inv :: "barrier \<Rightarrow> bool" where
  "ready_inv s \<longleftrightarrow>
     (bstate s = ACK_IN_FLIGHT \<longrightarrow> missing_unlocked s = [])
     \<and> (bstate s = READY \<longrightarrow> missing_unlocked s = [])
     \<and> (bstate s = WAITING \<longrightarrow> missing_unlocked s \<noteq> [])"

definition barrier_inv :: "barrier \<Rightarrow> bool" where
  "barrier_inv s \<longleftrightarrow> base_inv s \<and> ready_inv s"

lemma fail_unlocked_fields [simp]:
  "bstate (fail_unlocked r s) = QFAILED"
  "identity (fail_unlocked r s) = identity s"
  "active_nav2_goals (fail_unlocked r s) = active_nav2_goals s"
  "required_nav2_goals (fail_unlocked r s) = required_nav2_goals s"
  "acknowledged_identities (fail_unlocked r s) = acknowledged_identities s"
  by (auto simp: fail_unlocked_def)

lemma fail_unlocked_inv [intro]: "base_inv s \<Longrightarrow> barrier_inv (fail_unlocked r s)"
  by (auto simp: barrier_inv_def base_inv_def ready_inv_def fail_unlocked_def active_states_def)

lemma missing_bstate [simp]: "missing_unlocked (s\<lparr>bstate := b\<rparr>) = missing_unlocked s"
  by (simp add: missing_unlocked_def)

lemma refresh_inv [intro]: "base_inv s \<Longrightarrow> barrier_inv (refresh_ready_unlocked s)"
  by (auto simp: refresh_ready_unlocked_def barrier_inv_def ready_inv_def base_inv_def
      active_states_def fail_unlocked_def)

lemma refresh_fields [simp]:
  "acknowledged_identities (refresh_ready_unlocked s) = acknowledged_identities s"
  "identity (refresh_ready_unlocked s) = identity s"
  "observed_authority (refresh_ready_unlocked s) = observed_authority s"
  "missing_unlocked (refresh_ready_unlocked s) = missing_unlocked s"
  by (auto simp: refresh_ready_unlocked_def fail_unlocked_def missing_unlocked_def)

lemma barrier_inv_base [simp]: "barrier_inv s \<Longrightarrow> base_inv s"
  by (simp add: barrier_inv_def)

lemma remember_terminal_inv:
  assumes "base_inv s" "tok \<in> active_nav2_goals s"
  shows "base_inv (remember_terminal_nav2_goal_unlocked tok
     (s\<lparr>active_nav2_goals := active_nav2_goals s - {tok},
        required_nav2_goals := required_nav2_goals s - {tok}\<rparr>))"
proof -
  let ?m = "(terminal_nav2_goals s, terminal_nav2_goal_order s)"
  have "memory_ok 128 (fst (remember_terminal tok ?m)) (snd (remember_terminal tok ?m))"
    using assms by (intro goal_memory.remember_ok) (auto simp: base_inv_def)
  moreover have "fst (remember_terminal tok ?m) \<subseteq> insert tok (terminal_nav2_goals s)"
    using goal_memory.remember_only [of tok ?m] by simp
  ultimately show ?thesis
    using assms
    by (auto simp: base_inv_def remember_terminal_nav2_goal_unlocked_def split: prod.splits)
qed

lemma acknowledge_current_inv [intro]:
  assumes "base_inv s"
  shows "barrier_inv (snd (acknowledge_current_unlocked s))"
proof (cases "identity s")
  case None
  with assms show ?thesis by (auto simp: acknowledge_current_unlocked_def Let_def)
next
  case (Some i)
  let ?m = "(acknowledged_identities s, acknowledged_identity_order s)"
  have "memory_ok 32 (fst (remember_acknowledged i ?m)) (snd (remember_acknowledged i ?m))"
    using assms by (intro ack_memory.remember_ok) (auto simp: base_inv_def)
  with assms Some show ?thesis
    by (auto simp: acknowledge_current_unlocked_def remember_acknowledged_identity_unlocked_def
        barrier_inv_def base_inv_def ready_inv_def active_states_def split: prod.splits)
qed

lemma observed_authority_inv [simp]: "barrier_inv (s\<lparr>observed_authority := a\<rparr>) = barrier_inv s"
  by (simp add: barrier_inv_def base_inv_def ready_inv_def missing_unlocked_def)

lemma observe_authority_inv: "barrier_inv s \<Longrightarrow> barrier_inv (snd (observe_authority i a s))"
  using acknowledge_current_inv [of s]
  by (auto simp: observe_authority_def split: option.splits prod.splits sum.splits)

lemma base_inv_begin:
  "base_inv s \<Longrightarrow> base_inv (s\<lparr>identity := Some i, bstate := WAITING, failure_reason := [],
     frontier_required := f, required_nav2_goals := active_nav2_goals s, stop_command_id := [],
     stop_result_observed := False, stop_cmd_vel_generation := None,
     fresh_zero_generation := None\<rparr>)"
  by (simp add: base_inv_def)

lemma base_inv_frontier:
  "base_inv (s\<lparr>frontier_active := a, frontier_terminal := b\<rparr>) = base_inv s"
  by (simp add: base_inv_def)

lemma base_inv_stop_requested:
  "base_inv s \<Longrightarrow> c \<noteq> [] \<Longrightarrow> base_inv (s\<lparr>stop_command_id := c, stop_cmd_vel_generation := Some g,
     fresh_zero_generation := None\<rparr>)"
  by (simp add: base_inv_def)

lemma base_inv_stop_result: "base_inv (s\<lparr>stop_result_observed := b\<rparr>) = base_inv s"
  by (simp add: base_inv_def)

lemma base_inv_zero:
  "base_inv s \<Longrightarrow> stop_cmd_vel_generation s = Some sg \<Longrightarrow> sg < g \<Longrightarrow>
     base_inv (s\<lparr>fresh_zero_generation := Some g\<rparr>)"
  "base_inv s \<Longrightarrow> base_inv (s\<lparr>fresh_zero_generation := None\<rparr>)"
  by (simp_all add: base_inv_def)

lemmas base_inv_updates = base_inv_begin base_inv_frontier base_inv_stop_requested
  base_inv_stop_result base_inv_zero remember_terminal_inv

lemma begin_barrier_inv: "barrier_inv s \<Longrightarrow> barrier_inv (snd (begin_barrier i f s))"
  by (simp add: begin_barrier_def Let_def refresh_inv base_inv_updates fail_unlocked_inv)

lemma observe_frontier_inv: "barrier_inv s \<Longrightarrow> barrier_inv (snd (observe_frontier st a c t s))"
proof -
  assume inv: "barrier_inv s"
  let ?s = "\<lambda>a b. s\<lparr>frontier_active := a, frontier_terminal := b\<rparr>"
  have "barrier_inv (?s a b)" if "\<not> (bstate s \<in> active_states \<and> frontier_required s)" for a b
  proof (cases "frontier_required s")
    case True
    with inv that show ?thesis
      by (simp add: barrier_inv_def base_inv_frontier ready_inv_def active_states_def)
  next
    case False
    then have "missing_unlocked (?s a b) = missing_unlocked s" by (simp add: missing_unlocked_def)
    with inv show ?thesis by (simp add: barrier_inv_def base_inv_frontier ready_inv_def)
  qed
  moreover have "barrier_inv (refresh_ready_unlocked (?s a b))" for a b
    using inv by (simp add: refresh_inv base_inv_frontier)
  ultimately show ?thesis
    using inv by (simp add: observe_frontier_def Let_def)
qed

lemma nav2_goal_started_inv: "barrier_inv s \<Longrightarrow> barrier_inv (snd (nav2_goal_started tok s))"
  by (auto simp: nav2_goal_started_def Let_def)
    (auto simp: fail_unlocked_def barrier_inv_def base_inv_def ready_inv_def missing_unlocked_def
      active_states_def)

lemma nav2_goal_terminal_inv: "barrier_inv s \<Longrightarrow> barrier_inv (snd (nav2_goal_terminal tok s))"
  by (simp add: nav2_goal_terminal_def Let_def refresh_inv base_inv_updates fail_unlocked_inv)

lemma mark_stop_inv: "barrier_inv s \<Longrightarrow> barrier_inv (snd (mark_priority_stop_requested c g s))"
  by (simp add: mark_priority_stop_requested_def Let_def refresh_inv base_inv_updates
      fail_unlocked_inv split: sum.splits)

lemma stop_result_inv: "barrier_inv s \<Longrightarrow> barrier_inv (snd (observe_priority_stop_result c ok d s))"
  by (simp add: observe_priority_stop_result_def Let_def refresh_inv base_inv_updates
      fail_unlocked_inv)

lemma cmd_vel_inv: "barrier_inv s \<Longrightarrow> barrier_inv (snd (observe_cmd_vel g x z s))"
  by (simp add: observe_cmd_vel_def refresh_inv base_inv_updates split: option.splits)

lemma begin_ack_inv: "barrier_inv s \<Longrightarrow> barrier_inv (snd (begin_acknowledgement i s))"
proof -
  assume "barrier_inv s"
  then have inv: "barrier_inv (refresh_ready_unlocked s)" by (simp add: refresh_inv)
  then have "bstate (refresh_ready_unlocked s) = READY \<Longrightarrow>
      barrier_inv (refresh_ready_unlocked s\<lparr>bstate := ACK_IN_FLIGHT\<rparr>)"
    by (simp add: barrier_inv_def ready_inv_def base_inv_def active_states_def)
  with inv \<open>barrier_inv s\<close> show ?thesis by (simp add: begin_acknowledgement_def Let_def)
qed

lemma complete_ack_inv: "barrier_inv s \<Longrightarrow> barrier_inv (snd (complete_acknowledgement i s))"
  using acknowledge_current_inv [of s]
  by (auto simp: complete_acknowledgement_def split: prod.splits sum.splits)

lemma mark_acknowledged_inv: "barrier_inv s \<Longrightarrow> barrier_inv (snd (mark_acknowledged i s))"
  using begin_ack_inv [of s i] complete_ack_inv [of "snd (begin_acknowledgement i s)" i]
  by (auto simp: mark_acknowledged_def split: prod.splits sum.splits)

lemmas barrier_op_invs = observe_authority_inv begin_barrier_inv observe_frontier_inv
  nav2_goal_started_inv nav2_goal_terminal_inv mark_stop_inv stop_result_inv cmd_vel_inv
  begin_ack_inv complete_ack_inv mark_acknowledged_inv

lemma barrier_step_inv: "barrier_inv s \<Longrightarrow> barrier_inv (barrier_step e s)"
  by (cases e) (auto simp: barrier_op_invs fail_barrier_def barrier_snapshot_def Let_def)

interpretation barrier: invariant_system barrier_step barrier_inv
  by unfold_locales (rule barrier_step_inv)

lemma barrier_init_inv: "barrier_init eps = Inr s \<Longrightarrow> barrier_inv s"
  by (auto simp: barrier_init_def barrier_inv_def base_inv_def ready_inv_def memory_ok_def
      active_states_def split: if_splits)

section \<open>What one operation can do\<close>

lemma missing_Nil_iff:
  "missing_unlocked s = [] \<longleftrightarrow>
     (frontier_required s \<longrightarrow> frontier_terminal s) \<and> required_nav2_goals s = {}
     \<and> stop_result_observed s \<and> fresh_zero_generation s \<noteq> None"
  by (auto simp: missing_unlocked_def)

lemma remember_terminal_fields [simp]:
  "bstate (remember_terminal_nav2_goal_unlocked tok s) = bstate s"
  "acknowledged_identities (remember_terminal_nav2_goal_unlocked tok s) = acknowledged_identities s"
  "failure_reason (remember_terminal_nav2_goal_unlocked tok s) = failure_reason s"
  "stop_result_observed (remember_terminal_nav2_goal_unlocked tok s) = stop_result_observed s"
  "stop_command_id (remember_terminal_nav2_goal_unlocked tok s) = stop_command_id s"
  by (auto simp: remember_terminal_nav2_goal_unlocked_def split: prod.splits)

lemma refresh_stop_fields [simp]:
  "stop_result_observed (refresh_ready_unlocked s) = stop_result_observed s"
  "stop_command_id (refresh_ready_unlocked s) = stop_command_id s"
  by (auto simp: refresh_ready_unlocked_def fail_unlocked_def)

lemma fail_stop_fields [simp]:
  "stop_result_observed (fail_unlocked r s) = stop_result_observed s"
  "stop_command_id (fail_unlocked r s) = stop_command_id s"
  by (auto simp: fail_unlocked_def)

lemma acknowledge_fields:
  "acknowledge_current_unlocked s = (r, s') \<Longrightarrow>
     stop_result_observed s' = stop_result_observed s \<and> stop_command_id s' = stop_command_id s"
  by (auto simp: acknowledge_current_unlocked_def remember_acknowledged_identity_unlocked_def Let_def
      split: option.splits prod.splits)

lemma acknowledge_current_adds:
  "j \<in> acknowledged_identities (snd (acknowledge_current_unlocked s)) \<Longrightarrow>
     j \<notin> acknowledged_identities s \<Longrightarrow> identity s = Some j"
  using ack_memory.remember_only
    [of "the (identity s)" "(acknowledged_identities s, acknowledged_identity_order s)"]
  by (auto simp: acknowledge_current_unlocked_def remember_acknowledged_identity_unlocked_def Let_def
      split: option.splits prod.splits)

lemma failed_refresh: "bstate s = QFAILED \<Longrightarrow> refresh_ready_unlocked s = s"
  by (simp add: refresh_ready_unlocked_def)

lemma failed_fail: "bstate s = QFAILED \<Longrightarrow> fail_unlocked r s = s"
  by (simp add: fail_unlocked_def)

lemma failed_step:
  assumes "bstate s = QFAILED"
  shows "bstate (barrier_step e s) = QFAILED"
    and "failure_reason (barrier_step e s) = failure_reason s"
    and "acknowledged_identities (barrier_step e s) = acknowledged_identities s"
  using assms
  by (cases e; simp add: observe_authority_def begin_barrier_def observe_frontier_def
      nav2_goal_started_def nav2_goal_terminal_def mark_priority_stop_requested_def
      observe_priority_stop_result_def observe_cmd_vel_def begin_acknowledgement_def
      complete_acknowledgement_def mark_acknowledged_def fail_barrier_def barrier_snapshot_def
      require_active_unlocked_def active_states_def Let_def failed_refresh failed_fail)+

lemma failed_run:
  "bstate s = QFAILED \<Longrightarrow>
     bstate (run barrier_step es s) = QFAILED
     \<and> failure_reason (run barrier_step es s) = failure_reason s
     \<and> acknowledged_identities (run barrier_step es s) = acknowledged_identities s"
  by (induction es arbitrary: s) (simp_all add: failed_step)

lemma observe_authority_acks:
  assumes "j \<in> acknowledged_identities (snd (observe_authority i a s))"
    and "j \<notin> acknowledged_identities s"
  shows "bstate s = ACK_IN_FLIGHT" and "identity s = Some j"
  using assms acknowledge_current_adds [of j s]
  by (auto simp: observe_authority_def split: if_splits option.splits prod.splits sum.splits)

lemma begin_ack_acks [simp]:
  "acknowledged_identities (snd (begin_acknowledgement i s)) = acknowledged_identities s"
  by (simp add: begin_acknowledgement_def Let_def)

lemma complete_ack_acks:
  assumes "j \<in> acknowledged_identities (snd (complete_acknowledgement i s))"
    and "j \<notin> acknowledged_identities s"
  shows "bstate s = ACK_IN_FLIGHT" and "identity s = Some j"
  using assms acknowledge_current_adds [of j s]
  by (auto simp: complete_acknowledgement_def split: if_splits prod.splits sum.splits)

lemma mark_acknowledged_acks:
  assumes "barrier_inv s" "j \<in> acknowledged_identities (snd (mark_acknowledged i s))"
    and "j \<notin> acknowledged_identities s"
  shows "bstate s = READY" and "identity s = Some j"
proof -
  let ?s1 = "snd (begin_acknowledgement i s)"
  have "fst (begin_acknowledgement i s) = Inr (snapshot_unlocked ?s1)
      \<and> j \<in> acknowledged_identities (snd (complete_acknowledgement i ?s1))"
    using assms(2,3) begin_ack_acks [of i s]
    by (auto simp: mark_acknowledged_def begin_acknowledgement_def Let_def
        split: if_splits prod.splits sum.splits)
  moreover from this have "bstate (refresh_ready_unlocked s) = READY" "identity ?s1 = identity s"
    by (auto simp: begin_acknowledgement_def Let_def split: if_splits)
  moreover from this(1) have "bstate s = READY"
    using assms(1)
    by (auto simp: refresh_ready_unlocked_def barrier_inv_def ready_inv_def split: if_splits)
  ultimately show "bstate s = READY" "identity s = Some j"
    using complete_ack_acks(2) [of j i ?s1] assms(3) by auto
qed

lemma step_acks:
  assumes "barrier_inv s" "j \<in> acknowledged_identities (barrier_step e s)"
    and "j \<notin> acknowledged_identities s"
  shows "bstate s \<in> {READY, ACK_IN_FLIGHT} \<and> identity s = Some j"
proof (cases e)
  case (ObserveAuthority i a)
  with assms show ?thesis using observe_authority_acks by simp
next
  case (CompleteAck i)
  with assms show ?thesis using complete_ack_acks by simp
next
  case (MarkAcknowledged i)
  with assms show ?thesis using mark_acknowledged_acks [of s j i] by simp
qed (use assms in \<open>auto simp: begin_barrier_def observe_frontier_def nav2_goal_started_def
      nav2_goal_terminal_def mark_priority_stop_requested_def observe_priority_stop_result_def
      observe_cmd_vel_def fail_barrier_def barrier_snapshot_def Let_def
      split: if_splits sum.splits option.splits\<close>)

lemma complete_fields:
  "complete_acknowledgement i s = (r, s') \<Longrightarrow>
     stop_result_observed s' = stop_result_observed s \<and> stop_command_id s' = stop_command_id s"
  by (auto simp: complete_acknowledgement_def dest: acknowledge_fields
      split: if_splits prod.splits sum.splits)

lemma stop_result_step:
  assumes "stop_result_observed (barrier_step e s)" "stop_result_observed s \<longrightarrow> stop_command_id s \<noteq> []"
  shows "stop_command_id (barrier_step e s) = stop_command_id s
     \<and> (stop_result_observed s
        \<or> (\<exists>c d. e = StopResult c True d \<and> strip c = stop_command_id s))"
proof (cases e)
  case (ObserveAuthority i a)
  with assms show ?thesis
    by (auto simp: observe_authority_def dest: acknowledge_fields
        split: if_splits option.splits prod.splits sum.splits)
next
  case (CompleteAck i)
  with assms show ?thesis
    by (cases "complete_acknowledgement i s") (auto dest: complete_fields)
next
  case (MarkAcknowledged i)
  with assms show ?thesis
    by (auto simp: mark_acknowledged_def begin_acknowledgement_def Let_def dest!: complete_fields
        split: prod.splits sum.splits if_splits)
qed (use assms in \<open>auto simp: begin_barrier_def observe_frontier_def nav2_goal_started_def
      nav2_goal_terminal_def mark_priority_stop_requested_def observe_priority_stop_result_def
      observe_cmd_vel_def begin_acknowledgement_def fail_barrier_def barrier_snapshot_def Let_def
      split: if_splits sum.splits option.splits\<close>)

text \<open>In a run whose STOP results all carry a command id, an observed result belongs to the STOP
  that is on record, and that STOP was on record when the result arrived.\<close>

definition named_results :: "barrier_op list \<Rightarrow> bool" where
  "named_results es \<longleftrightarrow> (\<forall>c ok d. StopResult c ok d \<in> set es \<longrightarrow> strip c \<noteq> [])"

lemma stop_result_history:
  assumes "\<not> stop_result_observed s0" "named_results es"
    and "stop_result_observed (run barrier_step es s0)"
  shows "stop_command_id (run barrier_step es s0) \<noteq> []
     \<and> (\<exists>pre c d post. es = pre @ StopResult c True d # post
          \<and> strip c = stop_command_id (run barrier_step es s0)
          \<and> stop_command_id (run barrier_step pre s0) = strip c)"
  using assms(2,3)
proof (induction es rule: rev_induct)
  case Nil
  with assms(1) show ?case by simp
next
  case (snoc e es)
  let ?s = "run barrier_step es s0"
  have named: "named_results es" using snoc.prems(1) by (auto simp: named_results_def)
  have last: "stop_result_observed (barrier_step e ?s)" using snoc.prems(2) by simp
  have "stop_result_observed ?s \<longrightarrow> stop_command_id ?s \<noteq> []" using snoc.IH named by blast
  from stop_result_step [OF last this]
  have same: "stop_command_id (barrier_step e ?s) = stop_command_id ?s"
    and alt: "stop_result_observed ?s \<or> (\<exists>c d. e = StopResult c True d \<and> strip c = stop_command_id ?s)"
    by auto
  from alt show ?case
  proof
    assume "stop_result_observed ?s"
    with snoc.IH named obtain pre c d post where
      "stop_command_id ?s \<noteq> []" "es = pre @ StopResult c True d # post"
      "strip c = stop_command_id ?s" "stop_command_id (run barrier_step pre s0) = strip c" by blast
    moreover from this(2) have "es @ [e] = pre @ StopResult c True d # (post @ [e])" by simp
    moreover have "stop_command_id (run barrier_step (es @ [e]) s0) = stop_command_id ?s"
      using same by simp
    ultimately show ?thesis by metis
  next
    assume "\<exists>c d. e = StopResult c True d \<and> strip c = stop_command_id ?s"
    then obtain c d where "e = StopResult c True d" "strip c = stop_command_id ?s" by blast
    moreover from this(1) snoc.prems(1) have "strip c \<noteq> []" by (auto simp: named_results_def)
    moreover have "stop_command_id (run barrier_step (es @ [e]) s0) = stop_command_id ?s"
      using same by simp
    ultimately show ?thesis by metis
  qed
qed

lemma wait_ready_loop_result:
  assumes "wait_ready_loop deadline checks s = Some (r, s')"
  shows "case r of Inr snap \<Rightarrow> bstate s' = READY \<and> missing_unlocked s' = [] \<and> snap = snapshot_unlocked s'
     | Inl _ \<Rightarrow> bstate s' = QFAILED"
  using assms
proof (induction deadline checks s rule: wait_ready_loop.induct)
  case (1 deadline s)
  then show ?case by simp
next
  case (2 deadline now ops checks s)
  have "bstate (refresh_ready_unlocked s) = READY \<Longrightarrow> missing_unlocked s = []"
    by (auto simp: refresh_ready_unlocked_def split: if_splits)
  with 2 show ?case by (auto simp: Let_def split: if_splits)
qed

lemma wait_ready_loop_returns:
  "(now0, ops0) \<in> set checks \<Longrightarrow> deadline - now0 \<le> 0 \<Longrightarrow>
     \<exists>r s'. wait_ready_loop deadline checks s = Some (r, s')"
  by (induction deadline checks s rule: wait_ready_loop.induct) (auto simp: Let_def)

section \<open>Properties\<close>


definition example_id :: QuiescenceIdentity where
  "example_id = \<lparr>qid_manager_epoch = 7, qid_revocation_sequence = 3\<rparr>"

definition example_barrier :: barrier where
  "example_barrier = \<lparr>zero_epsilon = Fin (1/1000), bstate = IDLE, identity = None,
     observed_authority = None, failure_reason = [], frontier_active = False,
     frontier_terminal = True, frontier_required = False, active_nav2_goals = {},
     required_nav2_goals = {}, terminal_nav2_goals = {}, terminal_nav2_goal_order = [],
     stop_command_id = [], stop_result_observed = False, stop_cmd_vel_generation = None,
     fresh_zero_generation = None, acknowledged_identities = {}, acknowledged_identity_order = []\<rparr>"

definition example_ops :: "barrier_op list" where
  "example_ops = [ObserveAuthority example_id False, BeginBarrier example_id None,
     MarkStopRequested ''s1'' 5, StopResult ''s1'' True [], CmdVel 6 (Fin 0) (Fin 0),
     BeginAck example_id]"

lemma example_barrier_init: "barrier_init (Fin (1/1000)) = Inr example_barrier"
  by (simp add: barrier_init_def example_barrier_def zero_fin)

lemmas barrier_evaluation = example_barrier_def example_id_def observe_authority_def
  begin_barrier_def mark_priority_stop_requested_def require_active_unlocked_def
  observe_priority_stop_result_def observe_cmd_vel_def begin_acknowledgement_def
  complete_acknowledgement_def acknowledge_current_unlocked_def
  remember_acknowledged_identity_unlocked_def remember_acknowledged_def refresh_ready_unlocked_def
  missing_unlocked_def active_states_def strip_def is_space_def Let_def

lemma example_ops_ready:
  "run barrier_step example_ops example_barrier =
     example_barrier\<lparr>bstate := ACK_IN_FLIGHT, identity := Some example_id,
       observed_authority := Some example_id, stop_command_id := ''s1'',
       stop_result_observed := True, stop_cmd_vel_generation := Some 5,
       fresh_zero_generation := Some 6\<rparr>"
  by (simp add: example_ops_def barrier_evaluation)

lemma example_completes:
  "example_id \<in> acknowledged_identities
     (barrier_step (CompleteAck example_id) (run barrier_step example_ops example_barrier))"
  by (simp add: example_ops_ready) (simp add: barrier_evaluation)


text \<open>A failed barrier stays failed: no sequence of operations leaves the state, changes the
  recorded reason or acknowledges a revocation.\<close>

lemma failure_is_permanent:
  assumes "bstate s = QFAILED"
  shows "bstate (run barrier_step es s) = QFAILED
     \<and> failure_reason (run barrier_step es s) = failure_reason s
     \<and> acknowledged_identities (run barrier_step es s) = acknowledged_identities s"
  using assms by (rule failed_run)


text \<open>No ghost goal is acknowledged away: a Nav2 goal that starts while a revocation is pending
  fails the barrier, and from then on, whatever happens, nothing more is acknowledged, even when that
  goal ends at once.\<close>

lemma ghost_goal_blocks_acknowledgement:
  assumes "bstate s \<in> active_states" "fst (nav2_goal_started tok s) = Inr ()"
  shows "bstate (run barrier_step (GoalStarted tok # es) s) = QFAILED
     \<and> acknowledged_identities (run barrier_step (GoalStarted tok # es) s) = acknowledged_identities s"
proof -
  let ?s = "snd (nav2_goal_started tok s)"
  have "bstate ?s = QFAILED" "acknowledged_identities ?s = acknowledged_identities s"
    using assms by (auto simp: nav2_goal_started_def Let_def split: if_splits)
  then show ?thesis using failed_run [of ?s es] by simp
qed

text \<open>Motion after the zero velocity revokes the evidence: a finite velocity above the tolerance
  with a generation newer than the STOP takes a READY barrier back to WAITING and fails one whose
  acknowledgement is in flight.\<close>

lemma motion_revokes_evidence:
  assumes "bstate s \<in> {READY, ACK_IN_FLIGHT}" "stop_cmd_vel_generation s = Some sg" "sg < g" "0 \<le> g"
    and "zero_epsilon s < Fin \<bar>x\<bar> \<or> zero_epsilon s < Fin \<bar>z\<bar>"
  shows "bstate (barrier_step (CmdVel g (Fin x) (Fin z)) s) =
     (if bstate s = READY then WAITING else QFAILED)"
proof -
  have "\<not> (\<bar>Fin x\<bar> \<le> zero_epsilon s \<and> \<bar>Fin z\<bar> \<le> zero_epsilon s)"
    using assms(5) by (auto dest: flt_not_le_less)
  then show ?thesis
    using assms(1-4)
    by (auto simp: observe_cmd_vel_def active_states_def refresh_ready_unlocked_def
        missing_unlocked_def)
qed

text \<open>The STOP evidence is the right one, as long as STOP results carry a command id: in such a
  run from a new barrier, an observed result names the STOP on record, and that STOP had been
  requested before the result came in.\<close>

lemma stop_result_matches_request:
  assumes "barrier_init eps = Inr s0" "named_results es"
    and "stop_result_observed (run barrier_step es s0)"
  shows "stop_command_id (run barrier_step es s0) \<noteq> []
     \<and> (\<exists>pre c d post. es = pre @ StopResult c True d # post
          \<and> strip c = stop_command_id (run barrier_step es s0)
          \<and> stop_command_id (run barrier_step pre s0) = strip c)"
proof (rule stop_result_history [OF _ assms(2,3)])
  show "\<not> stop_result_observed s0"
    using assms(1) by (auto simp: barrier_init_def split: if_splits)
qed


text \<open>Waiting for readiness is bounded and fails closed: once a check reads a clock at or past
  the deadline the wait returns; it returns normally only in READY with nothing missing, and raises
  only with the barrier failed.\<close>

lemma wait_ready_bounded:
  assumes "isfinite timeout_s" "0 \<le> timeout_s"
    and "\<exists>now ops. (now, ops) \<in> set checks \<and> start + timeout_s - now \<le> 0"
  shows "\<exists>r s'. wait_ready timeout_s start checks s = Some (r, s')
     \<and> (case r of Inr snap \<Rightarrow> bstate s' = READY \<and> missing_unlocked s' = [] \<and> snap = snapshot_unlocked s'
        | Inl _ \<Rightarrow> bstate s' = QFAILED)"
proof -
  have "\<not> timeout_s < 0" using assms(2) by (blast dest: flt_not_le_less)
  then have eq: "wait_ready timeout_s start checks s = wait_ready_loop (start + timeout_s) checks s"
    using assms(1) by (simp add: wait_ready_def)
  obtain r s' where "wait_ready_loop (start + timeout_s) checks s = Some (r, s')"
    using assms(3) wait_ready_loop_returns by blast
  with eq wait_ready_loop_result [OF this] show ?thesis by auto
qed

text \<open>The protocol can complete: from an idle barrier that has observed a revocation, with no
  explorer activity and no Nav2 goal, a named STOP with its result and one newer zero velocity lead
  to the acknowledgement of that revocation.\<close>

lemma nominal_protocol_acknowledges:
  assumes "bstate s = IDLE" "observed_authority s = Some i" "\<not> frontier_active s"
    and "active_nav2_goals s = {}" "i \<notin> acknowledged_identities s"
    and "strip c \<noteq> []" "0 \<le> sg" "sg < g" "0 \<le> zero_epsilon s"
  shows "i \<in> acknowledged_identities (run barrier_step
     [BeginBarrier i None, MarkStopRequested c sg, StopResult c True d, CmdVel g (Fin 0) (Fin 0),
      BeginAck i, CompleteAck i] s)"
proof -
  let ?s1 = "s\<lparr>identity := Some i, bstate := WAITING, failure_reason := [],
     frontier_required := False, required_nav2_goals := {}, stop_command_id := [],
     stop_result_observed := False, stop_cmd_vel_generation := None, fresh_zero_generation := None\<rparr>"
  let ?s4 = "?s1\<lparr>stop_command_id := strip c, stop_cmd_vel_generation := Some sg,
     stop_result_observed := True, fresh_zero_generation := Some g, bstate := READY\<rparr>"
  have s1: "barrier_step (BeginBarrier i None) s = ?s1"
    using assms(1-4)
    by (simp add: begin_barrier_def active_states_def refresh_ready_unlocked_def missing_unlocked_def)
  have s4: "run barrier_step [MarkStopRequested c sg, StopResult c True d, CmdVel g (Fin 0) (Fin 0)] ?s1
      = ?s4"
    using assms(6-9)
    by (simp add: mark_priority_stop_requested_def observe_priority_stop_result_def
        observe_cmd_vel_def require_active_unlocked_def active_states_def refresh_ready_unlocked_def
        missing_unlocked_def zero_fin)
  have "run barrier_step [BeginAck i] ?s4 = ?s4\<lparr>bstate := ACK_IN_FLIGHT\<rparr>"
    using assms(2)
    by (simp add: begin_acknowledgement_def refresh_ready_unlocked_def missing_unlocked_def Let_def)
  moreover have "i \<in> acknowledged_identities
      (barrier_step (CompleteAck i) (?s4\<lparr>bstate := ACK_IN_FLIGHT\<rparr>))"
    using assms(2,5) ack_memory.remember_found
      [of i "(acknowledged_identities s, acknowledged_identity_order s)"]
    by (simp add: complete_acknowledgement_def acknowledge_current_unlocked_def
        missing_unlocked_def remember_acknowledged_identity_unlocked_def case_prod_beta Let_def)
  ultimately show ?thesis using s1 s4 by simp
qed

end
