(* ===== verification/Saturation.thy ===== *)
theory Saturation
  imports Prelude
begin

text \<open>
  \<open>exploration_saturation.py\<close>: the evidence that continuing an exploration yields little, gathered
  over explorer restarts, and the decision drawn from it. The tracker keeps task-level counters that
  never go back, the finished epochs and one final probe; the policy turns them into the list of
  unmet requirements, and the exploration is complete when the list is empty. The \<open>isinstance\<close>
  checks on the trigger hold by typing.
\<close>

section \<open>Data\<close>

record ExplorationCounters =
  peak_known_cells :: int
  terminal_goal_count :: int
  counters_path_m :: pyfloat

definition exploration_counters :: "int \<Rightarrow> int \<Rightarrow> pyfloat \<Rightarrow> ExplorationCounters result" where
  "exploration_counters peak goals path =
     (if peak < 0 \<or> goals < 0 then Inl (ValueError ''exploration counters must be non-negative'')
      else if \<not> isfinite path \<or> path < 0
      then Inl (ValueError ''mapping path must be finite and non-negative'')
      else Inr \<lparr>peak_known_cells = peak, terminal_goal_count = goals, counters_path_m = path\<rparr>)"

record ExplorationEpochEvidence =
  epoch_id :: int
  epoch_start :: ExplorationCounters
  epoch_end :: ExplorationCounters

definition exploration_epoch_evidence ::
  "int \<Rightarrow> ExplorationCounters \<Rightarrow> ExplorationCounters \<Rightarrow> ExplorationEpochEvidence result" where
  "exploration_epoch_evidence i a b =
     (if i \<le> 0 then Inl (ValueError ''epoch id must be positive'')
      else if peak_known_cells b < peak_known_cells a
      then Inl (ValueError ''peak known cells must not decrease across an epoch'')
      else if terminal_goal_count b < terminal_goal_count a
      then Inl (ValueError ''terminal goal count must not decrease across an epoch'')
      else if counters_path_m b < counters_path_m a
      then Inl (ValueError ''mapping path must not decrease across an epoch'')
      else Inr \<lparr>epoch_id = i, epoch_start = a, epoch_end = b\<rparr>)"

definition epoch_map_gain_cells :: "ExplorationEpochEvidence \<Rightarrow> int" where
  "epoch_map_gain_cells e = peak_known_cells (epoch_end e) - peak_known_cells (epoch_start e)"

definition epoch_map_gain_ratio :: "ExplorationEpochEvidence \<Rightarrow> real" where
  "epoch_map_gain_ratio e =
     of_int (epoch_map_gain_cells e) / of_int (max 1 (peak_known_cells (epoch_start e)))"

definition epoch_terminal_goals :: "ExplorationEpochEvidence \<Rightarrow> int" where
  "epoch_terminal_goals e = terminal_goal_count (epoch_end e) - terminal_goal_count (epoch_start e)"

definition map_gain_cells_per_terminal :: "ExplorationEpochEvidence \<Rightarrow> real" where
  "map_gain_cells_per_terminal e =
     of_int (epoch_map_gain_cells e) / of_int (max 1 (epoch_terminal_goals e))"

definition map_gain_ratio_per_terminal :: "ExplorationEpochEvidence \<Rightarrow> real" where
  "map_gain_ratio_per_terminal e =
     epoch_map_gain_ratio e / of_int (max 1 (epoch_terminal_goals e))"

definition path_gain_m :: "ExplorationEpochEvidence \<Rightarrow> pyfloat" where
  "path_gain_m e = counters_path_m (epoch_end e) - counters_path_m (epoch_start e)"

datatype SaturationTrigger = TIME_BUDGET | REPEATED_REACHABLE_STALL

record FinalProbeEvidence =
  probe_trigger :: SaturationTrigger
  probe_start :: ExplorationCounters
  probe_end :: ExplorationCounters

definition final_probe_evidence ::
  "SaturationTrigger \<Rightarrow> ExplorationCounters \<Rightarrow> ExplorationCounters \<Rightarrow> FinalProbeEvidence result" where
  "final_probe_evidence trig a b =
     (if peak_known_cells b < peak_known_cells a
      then Inl (ValueError ''probe peak known cells must not decrease'')
      else if terminal_goal_count b < terminal_goal_count a
      then Inl (ValueError ''probe terminal goal count must not decrease'')
      else if counters_path_m b < counters_path_m a
      then Inl (ValueError ''probe mapping path must not decrease'')
      else Inr \<lparr>probe_trigger = trig, probe_start = a, probe_end = b\<rparr>)"

definition probe_map_gain_cells :: "FinalProbeEvidence \<Rightarrow> int" where
  "probe_map_gain_cells p = peak_known_cells (probe_end p) - peak_known_cells (probe_start p)"

definition probe_map_gain_ratio :: "FinalProbeEvidence \<Rightarrow> real" where
  "probe_map_gain_ratio p =
     of_int (probe_map_gain_cells p) / of_int (max 1 (peak_known_cells (probe_start p)))"

record SaturationHistory =
  hist_counters :: ExplorationCounters
  hist_epochs :: "ExplorationEpochEvidence list"
  hist_final_probe :: "FinalProbeEvidence option"

record SaturationEvidenceTracker =
  trk_counters :: ExplorationCounters
  trk_epochs :: "ExplorationEpochEvidence list"
  trk_active_epoch :: "(int \<times> ExplorationCounters) option"
  trk_probe_start :: "(SaturationTrigger \<times> ExplorationCounters) option"
  trk_final_probe :: "FinalProbeEvidence option"

section \<open>Tracker\<close>

definition tracker_init :: SaturationEvidenceTracker where
  "tracker_init =
     \<lparr>trk_counters = \<lparr>peak_known_cells = 0, terminal_goal_count = 0, counters_path_m = Fin 0\<rparr>,
      trk_epochs = [], trk_active_epoch = None, trk_probe_start = None, trk_final_probe = None\<rparr>"

definition tracker_observe ::
  "int \<Rightarrow> int \<Rightarrow> pyfloat \<Rightarrow> SaturationEvidenceTracker \<Rightarrow>
   unit result \<times> SaturationEvidenceTracker" where
  "tracker_observe current_known goals path s =
     (if current_known < 0 \<or> goals < 0
      then (Inl (ValueError ''exploration observations must be non-negative''), s)
      else if \<not> isfinite path \<or> path < 0
      then (Inl (ValueError ''mapping path must be finite and non-negative''), s)
      else if goals < terminal_goal_count (trk_counters s)
      then (Inl (ValueError ''terminal goal total must be monotonic''), s)
      else if path < counters_path_m (trk_counters s)
      then (Inl (ValueError ''mapping path total must be monotonic''), s)
      else case exploration_counters (max (peak_known_cells (trk_counters s)) current_known)
                  goals path of
             Inl e \<Rightarrow> (Inl e, s)
           | Inr c \<Rightarrow> (Inr (), s\<lparr>trk_counters := c\<rparr>))"

definition begin_epoch ::
  "int \<Rightarrow> SaturationEvidenceTracker \<Rightarrow> unit result \<times> SaturationEvidenceTracker" where
  "begin_epoch i s =
     (if i \<le> 0 then (Inl (ValueError ''epoch id must be positive''), s)
      else if trk_active_epoch s \<noteq> None
      then (Inl (RuntimeError ''an exploration epoch is already active''), s)
      else if trk_probe_start s \<noteq> None
      then (Inl (RuntimeError ''cannot start an epoch during the final probe''), s)
      else if trk_epochs s \<noteq> [] \<and> i \<le> epoch_id (last (trk_epochs s))
      then (Inl (ValueError ''epoch ids must increase''), s)
      else (Inr (), s\<lparr>trk_active_epoch := Some (i, trk_counters s)\<rparr>))"

definition finish_epoch ::
  "SaturationEvidenceTracker \<Rightarrow> ExplorationEpochEvidence result \<times> SaturationEvidenceTracker" where
  "finish_epoch s =
     (case trk_active_epoch s of
        None \<Rightarrow> (Inl (RuntimeError ''no exploration epoch is active''), s)
      | Some (i, start) \<Rightarrow>
        (case exploration_epoch_evidence i start (trk_counters s) of
           Inl e \<Rightarrow> (Inl e, s)
         | Inr ev \<Rightarrow> (Inr ev, s\<lparr>trk_epochs := trk_epochs s @ [ev], trk_active_epoch := None\<rparr>)))"

definition begin_final_probe ::
  "SaturationTrigger \<Rightarrow> SaturationEvidenceTracker \<Rightarrow> unit result \<times> SaturationEvidenceTracker" where
  "begin_final_probe trig s =
     (if trk_active_epoch s \<noteq> None
      then (Inl (RuntimeError ''finish the active epoch before the final probe''), s)
      else if trk_probe_start s \<noteq> None \<or> trk_final_probe s \<noteq> None
      then (Inl (RuntimeError ''the final probe may run only once''), s)
      else (Inr (), s\<lparr>trk_probe_start := Some (trig, trk_counters s)\<rparr>))"

definition finish_final_probe ::
  "SaturationEvidenceTracker \<Rightarrow> FinalProbeEvidence result \<times> SaturationEvidenceTracker" where
  "finish_final_probe s =
     (case trk_probe_start s of
        None \<Rightarrow> (Inl (RuntimeError ''the final probe has not started''), s)
      | Some (trig, start) \<Rightarrow>
        (case final_probe_evidence trig start (trk_counters s) of
           Inl e \<Rightarrow> (Inl e, s)
         | Inr p \<Rightarrow> (Inr p, s\<lparr>trk_final_probe := Some p, trk_probe_start := None\<rparr>)))"

definition tracker_snapshot :: "SaturationEvidenceTracker \<Rightarrow> SaturationHistory" where
  "tracker_snapshot s = \<lparr>hist_counters = trk_counters s, hist_epochs = trk_epochs s,
     hist_final_probe = trk_final_probe s\<rparr>"

section \<open>Policy and assessment\<close>

record SaturationPolicy =
  minimum_low_yield_epochs :: int
  minimum_terminal_goals_per_epoch :: int
  minimum_mapping_path_m :: pyfloat
  maximum_low_yield_gain_cells :: int
  maximum_low_yield_gain_ratio :: pyfloat
  required_map_quiet_s :: pyfloat
  maximum_final_stop_age_s :: pyfloat

definition default_policy :: SaturationPolicy where
  "default_policy = \<lparr>minimum_low_yield_epochs = 2, minimum_terminal_goals_per_epoch = 3,
     minimum_mapping_path_m = Fin 20, maximum_low_yield_gain_cells = 40,
     maximum_low_yield_gain_ratio = Fin (2/1000), required_map_quiet_s = Fin 10,
     maximum_final_stop_age_s = Fin 5\<rparr>"

definition check_policy :: "SaturationPolicy \<Rightarrow> SaturationPolicy result" where
  "check_policy p =
     (if minimum_low_yield_epochs p < 0 \<or> minimum_terminal_goals_per_epoch p < 0
         \<or> maximum_low_yield_gain_cells p < 0
      then Inl (ValueError ''saturation policy counters must be non-negative'')
      else if minimum_low_yield_epochs p < 2
      then Inl (ValueError ''at least two low-yield epochs are required'')
      else if minimum_terminal_goals_per_epoch p < 3
      then Inl (ValueError ''at least three terminal goals per epoch are required'')
      else if \<not> list_all (\<lambda>v. isfinite v \<and> v > 0)
             [minimum_mapping_path_m p, maximum_low_yield_gain_ratio p, required_map_quiet_s p,
              maximum_final_stop_age_s p]
      then Inl (ValueError ''saturation policy durations and ratios must be positive'')
      else if maximum_low_yield_gain_cells p \<le> 0
      then Inl (ValueError ''low-yield cell threshold must be positive'')
      else if maximum_low_yield_gain_ratio p > Fin 1
      then Inl (ValueError ''low-yield ratio threshold must not exceed one'')
      else Inr p)"

record SaturationRuntimeEvidence =
  ev_history :: SaturationHistory
  ev_trigger :: SaturationTrigger
  ev_recovery_attempts_remaining :: int
  ev_residual_available_frontiers :: int
  ev_active_goal_count :: int
  ev_pending_goal_count :: int
  ev_map_quiet_s :: pyfloat
  ev_typed_stop_confirmed :: bool
  ev_typed_stop_after_final_probe :: bool
  ev_final_stop_age_s :: "pyfloat option"

definition check_runtime_evidence ::
  "SaturationRuntimeEvidence \<Rightarrow> SaturationRuntimeEvidence result" where
  "check_runtime_evidence e =
     (if ev_recovery_attempts_remaining e < 0 \<or> ev_residual_available_frontiers e < 0
         \<or> ev_active_goal_count e < 0 \<or> ev_pending_goal_count e < 0
      then Inl (ValueError ''runtime saturation counters must be non-negative'')
      else if \<not> isfinite (ev_map_quiet_s e) \<or> ev_map_quiet_s e < 0
      then Inl (ValueError ''map quiet duration must be finite and non-negative'')
      else if (case ev_final_stop_age_s e of None \<Rightarrow> False | Some a \<Rightarrow> \<not> isfinite a \<or> a < 0)
      then Inl (ValueError ''final stop age must be finite and non-negative'')
      else Inr e)"

datatype SaturationDecision = SAT_CONTINUE | SAT_COMPLETE

record SaturationAssessment =
  assess_decision :: SaturationDecision
  assess_unmet_requirements :: "string list"

definition assessment_complete :: "SaturationAssessment \<Rightarrow> bool" where
  "assessment_complete a \<longleftrightarrow> assess_decision a = SAT_COMPLETE"

text \<open>The loop of \<open>consecutive_low_yield_epoch_count\<close>, over the epochs from the last to the
  first, with its two breaks.\<close>

definition epoch_material :: "SaturationPolicy \<Rightarrow> ExplorationEpochEvidence \<Rightarrow> bool" where
  "epoch_material p e \<longleftrightarrow>
     Fin (map_gain_cells_per_terminal e) \<ge> Fin (of_int (maximum_low_yield_gain_cells p))
     \<and> Fin (map_gain_ratio_per_terminal e) \<ge> maximum_low_yield_gain_ratio p"

fun low_yield_loop :: "SaturationPolicy \<Rightarrow> ExplorationEpochEvidence list \<Rightarrow> int \<Rightarrow> int" where
  "low_yield_loop p [] count = count"
| "low_yield_loop p (e # es) count =
     (if epoch_terminal_goals e < minimum_terminal_goals_per_epoch p then count
      else if epoch_material p e then count
      else low_yield_loop p es (count + 1))"

definition consecutive_low_yield_epoch_count :: "SaturationHistory \<Rightarrow> SaturationPolicy \<Rightarrow> int" where
  "consecutive_low_yield_epoch_count h p = low_yield_loop p (rev (hist_epochs h)) 0"

text \<open>The slice \<open>xs[-n:]\<close>: the whole list for n = 0.\<close>

definition last_slice :: "int \<Rightarrow> 'a list \<Rightarrow> 'a list" where
  "last_slice n xs =
     (if 0 < n then drop (length xs - nat n) xs else drop (nat (- n)) xs)"

definition assess_bounded_frontier_saturation ::
  "SaturationRuntimeEvidence \<Rightarrow> SaturationPolicy \<Rightarrow> SaturationAssessment" where
  "assess_bounded_frontier_saturation e p =
     (let h = ev_history e;
          recent_epochs = last_slice (minimum_low_yield_epochs p) (hist_epochs h);
          unmet =
            (if ev_trigger e = REPEATED_REACHABLE_STALL \<and> ev_recovery_attempts_remaining e \<noteq> 0
             then [''stall_confirmation_budget_remaining''] else [])
            @ (if int (length recent_epochs) < minimum_low_yield_epochs p
               then [''insufficient_low_yield_epochs'']
               else (if list_ex (\<lambda>x. epoch_terminal_goals x < minimum_terminal_goals_per_epoch p)
                       recent_epochs
                     then [''insufficient_terminal_goals_per_epoch''] else [])
                 @ (if consecutive_low_yield_epoch_count h p < minimum_low_yield_epochs p
                    then [''recent_epochs_still_material''] else []))
            @ (if counters_path_m (hist_counters h) < minimum_mapping_path_m p
               then [''insufficient_mapping_path''] else [])
            @ (if ev_trigger e = REPEATED_REACHABLE_STALL \<and> ev_residual_available_frontiers e \<noteq> 0
               then [''reachable_frontiers_remain_after_stall''] else [])
            @ (if ev_active_goal_count e \<noteq> 0 \<or> ev_pending_goal_count e \<noteq> 0
               then [''action_ledger_not_drained''] else [])
            @ (case hist_final_probe h of
                 None \<Rightarrow> [''final_probe_missing'']
               | Some probe \<Rightarrow>
                   (if probe_trigger probe \<noteq> ev_trigger e
                    then [''final_probe_trigger_mismatch''] else [])
                   @ (if probe_map_gain_cells probe \<ge> maximum_low_yield_gain_cells p
                         \<or> Fin (probe_map_gain_ratio probe) \<ge> maximum_low_yield_gain_ratio p
                      then [''final_probe_still_material''] else []))
            @ (if ev_map_quiet_s e < required_map_quiet_s p then [''map_not_quiet''] else [])
            @ (if \<not> ev_typed_stop_confirmed e then [''final_stop_missing''] else [])
            @ (if \<not> ev_typed_stop_after_final_probe e then [''final_stop_not_after_probe''] else [])
            @ (if (case ev_final_stop_age_s e of None \<Rightarrow> True
                   | Some a \<Rightarrow> a > maximum_final_stop_age_s p)
               then [''final_stop_stale''] else [])
      in \<lparr>assess_decision = (if unmet = [] then SAT_COMPLETE else SAT_CONTINUE),
          assess_unmet_requirements = unmet\<rparr>)"

section \<open>The tracker as a machine\<close>

datatype tracker_op =
    Observe int int pyfloat
  | BeginEpoch int
  | FinishEpoch
  | BeginFinalProbe SaturationTrigger
  | FinishFinalProbe

fun tracker_step :: "tracker_op \<Rightarrow> SaturationEvidenceTracker \<Rightarrow> SaturationEvidenceTracker" where
  "tracker_step (Observe k g m) s = snd (tracker_observe k g m s)"
| "tracker_step (BeginEpoch i) s = snd (begin_epoch i s)"
| "tracker_step FinishEpoch s = snd (finish_epoch s)"
| "tracker_step (BeginFinalProbe tr) s = snd (begin_final_probe tr s)"
| "tracker_step FinishFinalProbe s = snd (finish_final_probe s)"

definition counters_le :: "ExplorationCounters \<Rightarrow> ExplorationCounters \<Rightarrow> bool" where
  "counters_le a b \<longleftrightarrow> peak_known_cells a \<le> peak_known_cells b
     \<and> terminal_goal_count a \<le> terminal_goal_count b \<and> counters_path_m a \<le> counters_path_m b"

definition counters_valid :: "ExplorationCounters \<Rightarrow> bool" where
  "counters_valid c \<longleftrightarrow> 0 \<le> peak_known_cells c \<and> 0 \<le> terminal_goal_count c
     \<and> isfinite (counters_path_m c) \<and> 0 \<le> counters_path_m c"

text \<open>Finished epochs: positive increasing ids, no epoch loses counts, and each starts where or
  after the one before ended.\<close>

definition epochs_ok :: "ExplorationEpochEvidence list \<Rightarrow> bool" where
  "epochs_ok es \<longleftrightarrow>
     sorted_wrt (\<lambda>a b. epoch_id a < epoch_id b \<and> counters_le (epoch_end a) (epoch_start b)) es
     \<and> (\<forall>e\<in>set es. 0 < epoch_id e \<and> counters_le (epoch_start e) (epoch_end e))"

definition tracker_inv :: "SaturationEvidenceTracker \<Rightarrow> bool" where
  "tracker_inv s \<longleftrightarrow>
     counters_valid (trk_counters s)
     \<and> epochs_ok (trk_epochs s)
     \<and> (\<forall>e\<in>set (trk_epochs s). counters_le (epoch_end e) (trk_counters s))
     \<and> (\<forall>i a. trk_active_epoch s = Some (i, a) \<longrightarrow>
          0 < i \<and> counters_le a (trk_counters s) \<and> trk_probe_start s = None
          \<and> (\<forall>e\<in>set (trk_epochs s). epoch_id e < i \<and> counters_le (epoch_end e) a))
     \<and> (\<forall>tr a. trk_probe_start s = Some (tr, a) \<longrightarrow>
          counters_le a (trk_counters s) \<and> trk_final_probe s = None)
     \<and> (\<forall>p. trk_final_probe s = Some p \<longrightarrow>
          counters_le (probe_start p) (probe_end p) \<and> counters_le (probe_end p) (trk_counters s))"

lemma counters_le_trans: "counters_le a b \<Longrightarrow> counters_le b c \<Longrightarrow> counters_le a c"
  by (auto simp: counters_le_def intro: flt_le_trans)

lemma counters_le_refl: "counters_valid a \<Longrightarrow> counters_le a a"
  by (auto simp: counters_le_def counters_valid_def)

lemma counters_le_evidence:
  "counters_le a b \<Longrightarrow> 0 < i \<Longrightarrow> exploration_epoch_evidence i a b
     = Inr \<lparr>epoch_id = i, epoch_start = a, epoch_end = b\<rparr>"
  "counters_le a b \<Longrightarrow> final_probe_evidence tr a b
     = Inr \<lparr>probe_trigger = tr, probe_start = a, probe_end = b\<rparr>"
  by (auto simp: counters_le_def exploration_epoch_evidence_def final_probe_evidence_def
      dest: flt_not_le_less)

lemma epochs_ok_snoc:
  "epochs_ok es \<Longrightarrow> 0 < i \<Longrightarrow> counters_le a b \<Longrightarrow>
     (\<forall>e\<in>set es. epoch_id e < i \<and> counters_le (epoch_end e) a) \<Longrightarrow>
     epochs_ok (es @ [\<lparr>epoch_id = i, epoch_start = a, epoch_end = b\<rparr>])"
  by (auto simp: epochs_ok_def sorted_wrt_append)

lemma epochs_ok_ids:
  "epochs_ok es \<Longrightarrow> e \<in> set es \<Longrightarrow> epoch_id e \<le> epoch_id (last es)"
  by (induction es rule: rev_induct) (auto simp: epochs_ok_def sorted_wrt_append)

lemma tracker_observe_result:
  "tracker_observe k g m s = (r, s') \<Longrightarrow> tracker_inv s \<Longrightarrow>
     (s' = s \<or> (\<exists>c. s' = s\<lparr>trk_counters := c\<rparr> \<and> counters_valid c \<and> counters_le (trk_counters s) c))"
  by (auto simp: tracker_observe_def exploration_counters_def tracker_inv_def counters_valid_def
      counters_le_def flt_not_less_finite zero_fin split: if_splits)

lemma tracker_observe_inv:
  assumes "tracker_inv s"
  shows "tracker_inv (snd (tracker_observe k g m s))"
proof (cases "tracker_observe k g m s")
  case (Pair r s')
  from tracker_observe_result [OF this assms] show ?thesis
  proof
    assume "s' = s"
    with Pair assms show ?thesis by simp
  next
    assume "\<exists>c. s' = s\<lparr>trk_counters := c\<rparr> \<and> counters_valid c \<and> counters_le (trk_counters s) c"
    then obtain c where c: "s' = s\<lparr>trk_counters := c\<rparr>" "counters_valid c"
      "counters_le (trk_counters s) c" by blast
    with Pair assms show ?thesis
      by (auto simp: tracker_inv_def intro: counters_le_trans)
  qed
qed

lemma begin_epoch_result:
  "snd (begin_epoch i s) = s
   \<or> 0 < i \<and> trk_probe_start s = None \<and> (trk_epochs s = [] \<or> epoch_id (last (trk_epochs s)) < i)
     \<and> snd (begin_epoch i s) = s\<lparr>trk_active_epoch := Some (i, trk_counters s)\<rparr>"
  by (auto simp: begin_epoch_def)

lemma begin_epoch_inv:
  assumes "tracker_inv s"
  shows "tracker_inv (snd (begin_epoch i s))"
  using begin_epoch_result [of i s]
proof
  assume "snd (begin_epoch i s) = s"
  with assms show ?thesis by simp
next
  assume r: "0 < i \<and> trk_probe_start s = None
    \<and> (trk_epochs s = [] \<or> epoch_id (last (trk_epochs s)) < i)
    \<and> snd (begin_epoch i s) = s\<lparr>trk_active_epoch := Some (i, trk_counters s)\<rparr>"
  have "epoch_id e < i" if "e \<in> set (trk_epochs s)" for e
  proof -
    have "epoch_id e \<le> epoch_id (last (trk_epochs s))"
      using that assms by (intro epochs_ok_ids) (auto simp: tracker_inv_def)
    moreover have "trk_epochs s \<noteq> []" using that by auto
    ultimately show ?thesis using r by simp
  qed
  then show ?thesis using assms r by (simp add: tracker_inv_def counters_le_refl)
qed

lemma finish_epoch_Some:
  assumes "tracker_inv s" "trk_active_epoch s = Some (i, a)"
  shows "finish_epoch s =
     (Inr \<lparr>epoch_id = i, epoch_start = a, epoch_end = trk_counters s\<rparr>,
      s\<lparr>trk_epochs := trk_epochs s @ [\<lparr>epoch_id = i, epoch_start = a, epoch_end = trk_counters s\<rparr>],
        trk_active_epoch := None\<rparr>)"
  using assms by (simp add: finish_epoch_def tracker_inv_def counters_le_evidence)

lemma finish_epoch_inv:
  assumes "tracker_inv s"
  shows "tracker_inv (snd (finish_epoch s))"
proof (cases "trk_active_epoch s")
  case None
  with assms show ?thesis by (simp add: finish_epoch_def)
next
  case (Some x)
  obtain i a where "x = (i, a)" by (cases x)
  with Some finish_epoch_Some [OF assms] assms show ?thesis
    by (auto simp: tracker_inv_def intro: epochs_ok_snoc counters_le_refl)
qed

lemma begin_final_probe_inv: "tracker_inv s \<Longrightarrow> tracker_inv (snd (begin_final_probe tr s))"
  by (auto simp: begin_final_probe_def tracker_inv_def intro: counters_le_refl)

lemma finish_final_probe_Some:
  assumes "tracker_inv s" "trk_probe_start s = Some (tr, a)"
  shows "finish_final_probe s =
     (Inr \<lparr>probe_trigger = tr, probe_start = a, probe_end = trk_counters s\<rparr>,
      s\<lparr>trk_final_probe := Some \<lparr>probe_trigger = tr, probe_start = a, probe_end = trk_counters s\<rparr>,
        trk_probe_start := None\<rparr>)"
  using assms by (simp add: finish_final_probe_def tracker_inv_def counters_le_evidence)

lemma finish_final_probe_inv:
  assumes "tracker_inv s"
  shows "tracker_inv (snd (finish_final_probe s))"
proof (cases "trk_probe_start s")
  case None
  with assms show ?thesis by (simp add: finish_final_probe_def)
next
  case (Some x)
  obtain tr a where "x = (tr, a)" by (cases x)
  with Some finish_final_probe_Some [OF assms] assms show ?thesis
    by (auto simp: tracker_inv_def intro: counters_le_refl)
qed

lemmas tracker_op_invs = tracker_observe_inv begin_epoch_inv finish_epoch_inv
  begin_final_probe_inv finish_final_probe_inv

lemma tracker_step_inv: "tracker_inv s \<Longrightarrow> tracker_inv (tracker_step e s)"
  by (cases e) (simp_all add: tracker_op_invs)

lemma tracker_step_counters:
  assumes "tracker_inv s"
  shows "counters_le (trk_counters s) (trk_counters (tracker_step e s))"
proof -
  have refl: "counters_le (trk_counters s) (trk_counters s)"
    using assms by (auto simp: tracker_inv_def intro: counters_le_refl)
  show ?thesis
  proof (cases e)
    case (Observe k g m)
    then show ?thesis
      using tracker_observe_result [of k g m s] assms refl
      by (cases "tracker_observe k g m s") fastforce
  qed (use refl in \<open>auto simp: begin_epoch_def finish_epoch_def begin_final_probe_def
      finish_final_probe_def split: option.splits sum.splits\<close>)
qed

lemma tracker_init_inv: "tracker_inv tracker_init"
  by (simp add: tracker_inv_def tracker_init_def counters_valid_def epochs_ok_def zero_fin)

interpretation tracker: invariant_system tracker_step tracker_inv
  by unfold_locales (rule tracker_step_inv)

interpretation tracker_peak: monotone_system tracker_step tracker_inv
    "\<lambda>s. peak_known_cells (trk_counters s)"
  by unfold_locales (use tracker_step_counters in \<open>auto simp: counters_le_def\<close>)

interpretation tracker_goals: monotone_system tracker_step tracker_inv
    "\<lambda>s. terminal_goal_count (trk_counters s)"
  by unfold_locales (use tracker_step_counters in \<open>auto simp: counters_le_def\<close>)

section \<open>The low-yield count\<close>

definition low_yield :: "SaturationPolicy \<Rightarrow> ExplorationEpochEvidence \<Rightarrow> bool" where
  "low_yield p e \<longleftrightarrow> minimum_terminal_goals_per_epoch p \<le> epoch_terminal_goals e \<and> \<not> epoch_material p e"

lemma low_yield_loop_takeWhile:
  "low_yield_loop p es count = count + int (length (takeWhile (low_yield p) es))"
  by (induction p es count rule: low_yield_loop.induct) (auto simp: low_yield_def)

lemma takeWhile_length_ge:
  "n \<le> length (takeWhile P xs) \<longleftrightarrow> n \<le> length xs \<and> list_all P (take n xs)"
proof (induction xs arbitrary: n)
  case Nil
  then show ?case by auto
next
  case (Cons x xs)
  then show ?case by (cases n) auto
qed

lemma take_rev_last_slice: "take n (rev xs) = rev (drop (length xs - n) xs)"
  by (simp add: rev_drop [symmetric] take_rev)

lemma low_yield_count_ge:
  "0 \<le> n \<Longrightarrow> n \<le> consecutive_low_yield_epoch_count h p \<longleftrightarrow>
     n \<le> int (length (hist_epochs h))
     \<and> list_all (low_yield p) (drop (length (hist_epochs h) - nat n) (hist_epochs h))"
  using takeWhile_length_ge [of "nat n" "low_yield p" "rev (hist_epochs h)"]
  by (auto simp: consecutive_low_yield_epoch_count_def low_yield_loop_takeWhile
      take_rev_last_slice list_all_iff)

lemma last_slice_split:
  "0 < n \<Longrightarrow> n \<le> int (length xs) \<Longrightarrow>
     (\<exists>pre recent. xs = pre @ recent \<and> int (length recent) = n \<and> list_all P recent)
     \<longleftrightarrow> list_all P (drop (length xs - nat n) xs)"
proof
  assume "\<exists>pre recent. xs = pre @ recent \<and> int (length recent) = n \<and> list_all P recent"
  then show "list_all P (drop (length xs - nat n) xs)" by auto
next
  assume n: "0 < n" "n \<le> int (length xs)" and all: "list_all P (drop (length xs - nat n) xs)"
  show "\<exists>pre recent. xs = pre @ recent \<and> int (length recent) = n \<and> list_all P recent"
  proof (intro exI conjI)
    show "xs = take (length xs - nat n) xs @ drop (length xs - nat n) xs" by simp
    show "int (length (drop (length xs - nat n) xs)) = n" using n by simp
  qed (rule all)
qed

text \<open>What bounded saturation means, written over the history alone.\<close>

definition saturated :: "SaturationRuntimeEvidence \<Rightarrow> SaturationPolicy \<Rightarrow> bool" where
  "saturated e p \<longleftrightarrow>
     (\<exists>pre recent. hist_epochs (ev_history e) = pre @ recent
        \<and> int (length recent) = minimum_low_yield_epochs p \<and> list_all (low_yield p) recent)
     \<and> minimum_mapping_path_m p \<le> counters_path_m (hist_counters (ev_history e))
     \<and> ev_active_goal_count e = 0 \<and> ev_pending_goal_count e = 0
     \<and> (ev_trigger e = REPEATED_REACHABLE_STALL \<longrightarrow>
          ev_recovery_attempts_remaining e = 0 \<and> ev_residual_available_frontiers e = 0)
     \<and> (\<exists>probe. hist_final_probe (ev_history e) = Some probe \<and> probe_trigger probe = ev_trigger e
          \<and> probe_map_gain_cells probe < maximum_low_yield_gain_cells p
          \<and> Fin (probe_map_gain_ratio probe) < maximum_low_yield_gain_ratio p)
     \<and> required_map_quiet_s p \<le> ev_map_quiet_s e
     \<and> ev_typed_stop_confirmed e \<and> ev_typed_stop_after_final_probe e
     \<and> (\<exists>age. ev_final_stop_age_s e = Some age \<and> age \<le> maximum_final_stop_age_s p)"

lemma flt_not_le_finite: "isfinite a \<Longrightarrow> isfinite b \<Longrightarrow> \<not> a \<le> b \<longleftrightarrow> b < a"
  by (cases a; cases b) auto

lemma recent_epochs_ok:
  assumes "2 \<le> n"
  shows "(\<not> int (length (last_slice n es)) < n
      \<and> \<not> list_ex (\<lambda>x. epoch_terminal_goals x < minimum_terminal_goals_per_epoch p) (last_slice n es)
      \<and> \<not> low_yield_loop p (rev es) 0 < n)
    \<longleftrightarrow> (\<exists>pre recent. es = pre @ recent \<and> int (length recent) = n \<and> list_all (low_yield p) recent)"
proof (cases "n \<le> int (length es)")
  case True
  let ?d = "drop (length es - nat n) es"
  have slice: "last_slice n es = ?d" using assms by (simp add: last_slice_def)
  have len: "int (length ?d) = n" using True assms by simp
  have count: "n \<le> low_yield_loop p (rev es) 0 \<longleftrightarrow> list_all (low_yield p) ?d"
    using low_yield_count_ge [of n "\<lparr>hist_counters = undefined, hist_epochs = es,
        hist_final_probe = None\<rparr>" p] True assms
    by (simp add: consecutive_low_yield_epoch_count_def)
  have "list_all (low_yield p) ?d \<Longrightarrow>
      \<not> list_ex (\<lambda>x. epoch_terminal_goals x < minimum_terminal_goals_per_epoch p) ?d"
    by (auto simp: list_ex_iff list_all_iff low_yield_def)
  moreover have "(\<exists>pre recent. es = pre @ recent \<and> int (length recent) = n
      \<and> list_all (low_yield p) recent) \<longleftrightarrow> list_all (low_yield p) ?d"
    using assms True by (intro last_slice_split) auto
  ultimately show ?thesis using slice len count by (auto simp: not_less)
next
  case False
  then have "int (length (last_slice n es)) < n" using assms by (simp add: last_slice_def)
  then show ?thesis using False by auto
qed

section \<open>Properties\<close>

text \<open>The assessment is exactly bounded saturation: for a checked policy and checked evidence,
  the decision is COMPLETE precisely when the last epochs, as many as the policy asks for, each closed
  enough goals and gained too little, the path is long enough, the action ledger is drained, a stall
  used up its confirmation budget and left no reachable frontier, the final probe has the same trigger
  and gained too little both in cells and in ratio, the map is quiet and the typed STOP came after the
  probe and is recent.\<close>

lemma assessment_iff_saturated:
  assumes "check_policy p = Inr p" "check_runtime_evidence e = Inr e"
    and "isfinite (counters_path_m (hist_counters (ev_history e)))"
  shows "assessment_complete (assess_bounded_frontier_saturation e p) \<longleftrightarrow> saturated e p"
proof -
  have n: "2 \<le> minimum_low_yield_epochs p"
    using assms(1) by (auto simp: check_policy_def split: if_splits)
  have fp: "isfinite (minimum_mapping_path_m p)" "isfinite (maximum_low_yield_gain_ratio p)"
      "isfinite (required_map_quiet_s p)" "isfinite (maximum_final_stop_age_s p)"
    using assms(1) by (auto simp: check_policy_def split: if_splits)
  have fe: "isfinite (ev_map_quiet_s e)" "\<And>a. ev_final_stop_age_s e = Some a \<Longrightarrow> isfinite a"
    using assms(2) by (auto simp: check_runtime_evidence_def split: if_splits)
  have path: "\<not> counters_path_m (hist_counters (ev_history e)) < minimum_mapping_path_m p \<longleftrightarrow>
      minimum_mapping_path_m p \<le> counters_path_m (hist_counters (ev_history e))"
    using assms(3) fp by (simp add: flt_not_less_finite)
  have quiet: "\<not> ev_map_quiet_s e < required_map_quiet_s p \<longleftrightarrow> required_map_quiet_s p \<le> ev_map_quiet_s e"
    using fe fp by (simp add: flt_not_less_finite)
  have age: "\<not> (case ev_final_stop_age_s e of None \<Rightarrow> True | Some a \<Rightarrow> a > maximum_final_stop_age_s p)
      \<longleftrightarrow> (\<exists>age. ev_final_stop_age_s e = Some age \<and> age \<le> maximum_final_stop_age_s p)"
    using fe fp by (auto simp: flt_not_less_finite split: option.splits)
  have ratio: "\<not> maximum_low_yield_gain_ratio p \<le> Fin r \<longleftrightarrow> Fin r < maximum_low_yield_gain_ratio p" for r
    using fp by (simp add: flt_not_le_finite)
  show ?thesis
    using recent_epochs_ok [OF n, of "hist_epochs (ev_history e)" p] path quiet age ratio
    by (auto simp: assessment_complete_def assess_bounded_frontier_saturation_def Let_def
        saturated_def consecutive_low_yield_epoch_count_def not_le split: option.splits if_splits)
qed

definition example_counters :: "int \<Rightarrow> int \<Rightarrow> real \<Rightarrow> ExplorationCounters" where
  "example_counters k g m = \<lparr>peak_known_cells = k, terminal_goal_count = g, counters_path_m = Fin m\<rparr>"

definition example_evidence :: SaturationRuntimeEvidence where
  "example_evidence = \<lparr>ev_history = \<lparr>hist_counters = example_counters 1010 10 25,
       hist_epochs =
         [\<lparr>epoch_id = 1, epoch_start = example_counters 990 0 10, epoch_end = example_counters 1000 4 15\<rparr>,
          \<lparr>epoch_id = 2, epoch_start = example_counters 1000 4 15, epoch_end = example_counters 1010 8 25\<rparr>],
       hist_final_probe = Some \<lparr>probe_trigger = TIME_BUDGET, probe_start = example_counters 1010 10 25,
         probe_end = example_counters 1010 10 25\<rparr>\<rparr>,
     ev_trigger = TIME_BUDGET, ev_recovery_attempts_remaining = 1, ev_residual_available_frontiers = 2,
     ev_active_goal_count = 0, ev_pending_goal_count = 0, ev_map_quiet_s = Fin 12,
     ev_typed_stop_confirmed = True, ev_typed_stop_after_final_probe = True,
     ev_final_stop_age_s = Some (Fin 0)\<rparr>"

text \<open>The evidence is monotone and never self-contradictory: after any sequence of tracker
  operations the known-cell peak, the goal total and the path have not gone back, whatever the
  observations did, the finished epochs have increasing ids and do not overlap, and finishing an epoch
  or the final probe succeeds whenever one is open, so the consistency checks of the evidence
  constructors never fire.\<close>

lemma tracker_evidence_consistent:
  assumes s: "s = run tracker_step es tracker_init"
  shows "peak_known_cells (trk_counters s) \<le> peak_known_cells (trk_counters (run tracker_step fs s))
     \<and> terminal_goal_count (trk_counters s) \<le> terminal_goal_count (trk_counters (run tracker_step fs s))
     \<and> epochs_ok (trk_epochs s)
     \<and> (trk_active_epoch s \<noteq> None \<longrightarrow> \<not> is_error (fst (finish_epoch s)))
     \<and> (trk_probe_start s \<noteq> None \<longrightarrow> \<not> is_error (fst (finish_final_probe s)))"
proof -
  have inv: "tracker_inv s" unfolding s using tracker_init_inv by (rule tracker.run_inv)
  have "trk_active_epoch s \<noteq> None \<longrightarrow> \<not> is_error (fst (finish_epoch s))"
    using finish_epoch_Some [OF inv] by auto
  moreover have "trk_probe_start s \<noteq> None \<longrightarrow> \<not> is_error (fst (finish_final_probe s))"
    using finish_final_probe_Some [OF inv] by auto
  moreover have "epochs_ok (trk_epochs s)" using inv by (simp add: tracker_inv_def)
  ultimately show ?thesis
    using tracker_peak.run_level [OF inv, of fs] tracker_goals.run_level [OF inv, of fs] by simp
qed

end
