(* ===== verification/Mapping_Return.thy ===== *)
theory Mapping_Return
  imports Prelude
begin

text \<open>
  The return-to-start contract of \<open>mapping_return.py\<close>: poses, thresholds and evidence with the
  checks of their constructors, the wrapped yaw error, the fail-closed evaluation and the report.
  The enum type checks of the evidence constructor hold by typing.
\<close>

section \<open>Data\<close>

datatype ReturnActionKind = NAVIGATE_TO_POSE

datatype ReturnActionStatus =
  RA_UNSPECIFIED | RA_ACCEPTED | RA_EXECUTING | RA_SUCCEEDED | RA_REJECTED | RA_ABORTED
  | RA_CANCELED | RA_TIMED_OUT

record PlanarPose =
  pose_x :: pyfloat
  pose_y :: pyfloat
  pose_yaw :: pyfloat
  pose_frame_id :: string
  pose_observed_at_ns :: int

definition planar_pose :: "PlanarPose \<Rightarrow> PlanarPose result" where
  "planar_pose p =
     (if \<not> list_all isfinite [pose_x p, pose_y p, pose_yaw p]
      then Inl (ValueError ''planar pose values must be finite'')
      else if strip (pose_frame_id p) = ''''
      then Inl (ValueError ''planar pose frame_id must not be empty'')
      else if pose_observed_at_ns p < 0
      then Inl (ValueError ''planar pose timestamp must be non-negative'')
      else Inr p)"

record ReturnToStartSpec =
  rts_max_xy_error_m :: pyfloat
  rts_max_yaw_error_rad :: pyfloat
  rts_zero_velocity_tolerance :: pyfloat
  rts_max_cmd_vel_age_s :: pyfloat

definition default_return_spec :: ReturnToStartSpec where
  "default_return_spec =
     \<lparr>rts_max_xy_error_m = Fin 0.35, rts_max_yaw_error_rad = Fin (20 * pi / 180),
      rts_zero_velocity_tolerance = Fin 0.001, rts_max_cmd_vel_age_s = Fin 1\<rparr>"

definition return_to_start_spec :: "ReturnToStartSpec \<Rightarrow> ReturnToStartSpec result" where
  "return_to_start_spec s =
     (if \<not> list_all (\<lambda>value. isfinite value \<and> value > 0)
           [rts_max_xy_error_m s, rts_max_yaw_error_rad s, rts_zero_velocity_tolerance s,
            rts_max_cmd_vel_age_s s]
      then Inl (ValueError ''return-to-start thresholds must be finite and positive'')
      else if rts_max_yaw_error_rad s > Fin pi
      then Inl (ValueError ''max_yaw_error_rad must not exceed pi'')
      else Inr s)"

record ReturnToStartEvidence =
  rte_start_pose :: PlanarPose
  rte_final_pose :: "PlanarPose option"
  rte_action_kind :: ReturnActionKind
  rte_action_status :: ReturnActionStatus
  rte_action_command_id :: string
  rte_action_started_at_ns :: int
  rte_action_finished_at_ns :: int
  rte_map_saved_at_ns :: int
  rte_cmd_vel_linear_x :: pyfloat
  rte_cmd_vel_angular_z :: pyfloat
  rte_cmd_vel_observed_at_ns :: int
  rte_evaluated_at_ns :: int

definition return_to_start_evidence :: "ReturnToStartEvidence \<Rightarrow> ReturnToStartEvidence result" where
  "return_to_start_evidence e =
     (if list_ex (\<lambda>value. value < 0)
           [rte_action_started_at_ns e, rte_action_finished_at_ns e, rte_map_saved_at_ns e,
            rte_cmd_vel_observed_at_ns e, rte_evaluated_at_ns e]
      then Inl (ValueError ''return-to-start timestamps must be non-negative'')
      else if \<not> list_all isfinite [rte_cmd_vel_linear_x e, rte_cmd_vel_angular_z e]
      then Inl (ValueError ''cmd_vel values must be finite'')
      else Inr e)"

record ReturnToStartDecision =
  rtd_passed :: bool
  rtd_checks :: "(string \<times> bool) list"
  rtd_failed_checks :: "string list"
  rtd_xy_error_m :: "pyfloat option"
  rtd_yaw_error_rad :: "pyfloat option"
  rtd_cmd_vel_age_s :: "pyfloat option"

text \<open>\<open>ReturnToStartDecision.check\<close>: the dictionary of the checks keeps the last entry of a
  name; \<open>None\<close> is the \<open>KeyError\<close>.\<close>

definition decision_check :: "string \<Rightarrow> ReturnToStartDecision \<Rightarrow> bool option" where
  "decision_check name d = map_of (rev (rtd_checks d)) name"

section \<open>Evaluation\<close>

fun wrapped_yaw_error_rad :: "pyfloat \<Rightarrow> pyfloat \<Rightarrow> pyfloat result" where
  "wrapped_yaw_error_rad (Fin expected) (Fin actual) =
     Inr (Fin \<bar>atan2 (sin (actual - expected)) (cos (actual - expected))\<bar>)"
| "wrapped_yaw_error_rad _ _ = Inl (ValueError ''yaw values must be finite'')"

text \<open>\<open>math.isclose\<close> with \<open>rel_tol=0.0\<close>: equal values are close, an infinite value is close to
  nothing else, and finite values are compared with the absolute tolerance.\<close>

definition isclose_abs :: "pyfloat \<Rightarrow> pyfloat \<Rightarrow> pyfloat \<Rightarrow> bool" where
  "isclose_abs a b abs_tol \<longleftrightarrow>
     (if a = b \<and> a \<noteq> NaN then True
      else isfinite a \<and> isfinite b \<and> \<bar>b - a\<bar> \<le> abs_tol)"

definition within_limit :: "pyfloat \<Rightarrow> pyfloat \<Rightarrow> bool" where
  "within_limit value limit \<longleftrightarrow> value \<le> limit \<or> isclose_abs value limit (Fin (1 / 10 ^ 12))"

definition return_xy_error :: "ReturnToStartEvidence \<Rightarrow> pyfloat option" where
  "return_xy_error e =
     (case rte_final_pose e of
        None \<Rightarrow> None
      | Some p \<Rightarrow> Some (hypot (pose_x p - pose_x (rte_start_pose e))
          (pose_y p - pose_y (rte_start_pose e))))"

definition return_yaw_error :: "ReturnToStartEvidence \<Rightarrow> pyfloat option result" where
  "return_yaw_error e =
     (case rte_final_pose e of
        None \<Rightarrow> Inr None
      | Some p \<Rightarrow>
          (case wrapped_yaw_error_rad (pose_yaw (rte_start_pose e)) (pose_yaw p) of
             Inl x \<Rightarrow> Inl x
           | Inr v \<Rightarrow> Inr (Some v)))"

definition return_timeline_valid :: "ReturnToStartEvidence \<Rightarrow> bool" where
  "return_timeline_valid e \<longleftrightarrow>
     pose_observed_at_ns (rte_start_pose e) \<le> rte_action_started_at_ns e
     \<and> rte_action_started_at_ns e < rte_action_finished_at_ns e
     \<and> rte_action_finished_at_ns e < rte_map_saved_at_ns e
     \<and> rte_map_saved_at_ns e \<le> rte_evaluated_at_ns e"

definition return_cmd_vel_age :: "ReturnToStartEvidence \<Rightarrow> pyfloat option" where
  "return_cmd_vel_age e =
     (if rte_cmd_vel_observed_at_ns e \<le> rte_evaluated_at_ns e
      then Some (Fin (real_of_int (rte_evaluated_at_ns e - rte_cmd_vel_observed_at_ns e) / 10 ^ 9))
      else None)"

definition return_checks ::
  "ReturnToStartEvidence \<Rightarrow> ReturnToStartSpec \<Rightarrow> pyfloat option \<Rightarrow> (string \<times> bool) list" where
  "return_checks e spec yaw_error_rad =
     (let final_pose = rte_final_pose e;
          xy_error_m = return_xy_error e;
          cmd_vel_age_s = return_cmd_vel_age e
      in
      [(''typed_action_command'', strip (rte_action_command_id e) \<noteq> ''''),
       (''typed_action_succeeded'',
          rte_action_kind e = NAVIGATE_TO_POSE \<and> rte_action_status e = RA_SUCCEEDED),
       (''return_before_map_save'', return_timeline_valid e),
       (''same_pose_frame'',
          (case final_pose of None \<Rightarrow> False
           | Some p \<Rightarrow> pose_frame_id p = pose_frame_id (rte_start_pose e))),
       (''final_pose_in_return_window'',
          (case final_pose of None \<Rightarrow> False
           | Some p \<Rightarrow> rte_action_finished_at_ns e \<le> pose_observed_at_ns p
               \<and> pose_observed_at_ns p \<le> rte_map_saved_at_ns e)),
       (''xy_within_tolerance'',
          (case xy_error_m of None \<Rightarrow> False | Some v \<Rightarrow> within_limit v (rts_max_xy_error_m spec))),
       (''yaw_within_tolerance'',
          (case yaw_error_rad of None \<Rightarrow> False
           | Some v \<Rightarrow> within_limit v (rts_max_yaw_error_rad spec))),
       (''cmd_vel_after_return'',
          rte_action_finished_at_ns e \<le> rte_cmd_vel_observed_at_ns e
          \<and> rte_cmd_vel_observed_at_ns e \<le> rte_evaluated_at_ns e),
       (''final_cmd_vel_fresh'',
          (case cmd_vel_age_s of None \<Rightarrow> False | Some v \<Rightarrow> v \<le> rts_max_cmd_vel_age_s spec)),
       (''final_cmd_vel_zero'',
          \<bar>rte_cmd_vel_linear_x e\<bar> \<le> rts_zero_velocity_tolerance spec
          \<and> \<bar>rte_cmd_vel_angular_z e\<bar> \<le> rts_zero_velocity_tolerance spec)])"

definition evaluate_return_to_start ::
  "ReturnToStartEvidence \<Rightarrow> ReturnToStartSpec \<Rightarrow> ReturnToStartDecision result" where
  "evaluate_return_to_start e spec =
     (case return_yaw_error e of
        Inl x \<Rightarrow> Inl x
      | Inr yaw_error_rad \<Rightarrow>
          (let checks = return_checks e spec yaw_error_rad;
               failed_checks = map fst (filter (\<lambda>(name, passed). \<not> passed) checks)
           in Inr \<lparr>rtd_passed = (failed_checks = []), rtd_checks = checks,
                rtd_failed_checks = failed_checks, rtd_xy_error_m = return_xy_error e,
                rtd_yaw_error_rad = yaw_error_rad, rtd_cmd_vel_age_s = return_cmd_vel_age e\<rparr>))"

text \<open>The report dictionary, with its nested dictionaries flattened into fields.\<close>

record ReturnToStartReport =
  rep_schema_version :: int
  rep_passed :: bool
  rep_checks :: "(string \<times> bool) list"
  rep_failed_checks :: "string list"
  rep_thresholds :: ReturnToStartSpec
  rep_error_xy_m :: "pyfloat option"
  rep_error_yaw_rad :: "pyfloat option"
  rep_start_pose :: PlanarPose
  rep_final_pose :: "PlanarPose option"
  rep_action_kind :: ReturnActionKind
  rep_action_status :: ReturnActionStatus
  rep_action_command_id :: string
  rep_action_started_at_ns :: int
  rep_action_finished_at_ns :: int
  rep_map_saved_at_ns :: int
  rep_cmd_vel_linear_x :: pyfloat
  rep_cmd_vel_angular_z :: pyfloat
  rep_cmd_vel_observed_at_ns :: int
  rep_cmd_vel_age_s :: "pyfloat option"
  rep_evaluated_at_ns :: int

definition build_return_to_start_report ::
  "ReturnToStartEvidence \<Rightarrow> ReturnToStartSpec \<Rightarrow> ReturnToStartReport result" where
  "build_return_to_start_report e spec =
     (case evaluate_return_to_start e spec of
        Inl x \<Rightarrow> Inl x
      | Inr d \<Rightarrow> Inr
          \<lparr>rep_schema_version = 1, rep_passed = rtd_passed d, rep_checks = rtd_checks d,
           rep_failed_checks = rtd_failed_checks d, rep_thresholds = spec,
           rep_error_xy_m = rtd_xy_error_m d, rep_error_yaw_rad = rtd_yaw_error_rad d,
           rep_start_pose = rte_start_pose e, rep_final_pose = rte_final_pose e,
           rep_action_kind = rte_action_kind e, rep_action_status = rte_action_status e,
           rep_action_command_id = rte_action_command_id e,
           rep_action_started_at_ns = rte_action_started_at_ns e,
           rep_action_finished_at_ns = rte_action_finished_at_ns e,
           rep_map_saved_at_ns = rte_map_saved_at_ns e,
           rep_cmd_vel_linear_x = rte_cmd_vel_linear_x e,
           rep_cmd_vel_angular_z = rte_cmd_vel_angular_z e,
           rep_cmd_vel_observed_at_ns = rte_cmd_vel_observed_at_ns e,
           rep_cmd_vel_age_s = rtd_cmd_vel_age_s d,
           rep_evaluated_at_ns = rte_evaluated_at_ns e\<rparr>)"

section \<open>The yaw error is the shortest angle\<close>

lemma wrapped_yaw_shortest:
  fixes a b :: real
  shows "\<exists>w. wrapped_yaw_error_rad (Fin a) (Fin b) = Inr (Fin w) \<and> 0 \<le> w \<and> w \<le> pi
    \<and> (\<exists>k :: int. w = \<bar>b - a + 2 * pi * real_of_int k\<bar>)
    \<and> (\<forall>k :: int. w \<le> \<bar>b - a + 2 * pi * real_of_int k\<bar>)"
proof -
  obtain k :: int where k: "- pi < b - a + 2 * pi * real_of_int k"
    "b - a + 2 * pi * real_of_int k \<le> pi" using angle_representative by blast
  define w where "w = b - a + 2 * pi * real_of_int k"
  have sc: "sin w = sin (b - a)" "cos w = cos (b - a)"
    unfolding w_def using sin_int_2pin [of k] cos_int_2pin [of k]
    by (simp_all add: sin_add [of "b - a"] cos_add [of "b - a"])
  have w: "atan2 (sin (b - a)) (cos (b - a)) = w"
    using atan2_sin_cos [of w] k sc w_def by simp
  have "\<bar>w\<bar> \<le> \<bar>b - a + 2 * pi * real_of_int j\<bar>" for j
  proof (cases "j = k")
    case False
    have eq: "b - a + 2 * pi * real_of_int j = w + 2 * pi * real_of_int (j - k)"
      by (simp add: w_def algebra_simps)
    have "1 \<le> \<bar>real_of_int (j - k)\<bar>" using False by linarith
    then have "2 * pi * 1 \<le> 2 * pi * \<bar>real_of_int (j - k)\<bar>" by (intro mult_left_mono) auto
    then have "2 * pi \<le> \<bar>2 * pi * real_of_int (j - k)\<bar>" by (simp add: abs_mult)
    then show ?thesis unfolding eq using k w_def by linarith
  qed (simp add: w_def)
  moreover have "\<bar>w\<bar> \<le> pi" using k w_def by linarith
  ultimately show ?thesis using w w_def by auto
qed

section \<open>What a passed return means\<close>

definition pose_valid :: "PlanarPose \<Rightarrow> bool" where
  "pose_valid p \<longleftrightarrow> planar_pose p = Inr p"

text \<open>The evidence a constructor has accepted: its poses and itself.\<close>

definition return_input_valid :: "ReturnToStartEvidence \<Rightarrow> ReturnToStartSpec \<Rightarrow> bool" where
  "return_input_valid e spec \<longleftrightarrow>
     return_to_start_evidence e = Inr e \<and> return_to_start_spec spec = Inr spec
     \<and> pose_valid (rte_start_pose e)
     \<and> (case rte_final_pose e of None \<Rightarrow> True | Some p \<Rightarrow> pose_valid p)"

text \<open>The robot is back: the position is within the tolerance in the plane and the heading within
  the tolerance on the circle, up to the comparison slack of \<open>10\<^sup>-\<^sup>1\<^sup>2\<close>.\<close>

fun pose_close :: "PlanarPose \<Rightarrow> PlanarPose \<Rightarrow> real \<Rightarrow> real \<Rightarrow> bool" where
  "pose_close p q max_xy max_yaw \<longleftrightarrow>
     (\<exists>x y x' y' a b. pose_x p = Fin x \<and> pose_y p = Fin y \<and> pose_yaw p = Fin a
        \<and> pose_x q = Fin x' \<and> pose_y q = Fin y' \<and> pose_yaw q = Fin b
        \<and> sqrt ((x' - x) ^ 2 + (y' - y) ^ 2) \<le> max_xy + 1 / 10 ^ 12
        \<and> (\<exists>k :: int. \<bar>b - a + 2 * pi * real_of_int k\<bar> \<le> max_yaw + 1 / 10 ^ 12))"

declare pose_close.simps [simp del]

lemma pose_validE:
  assumes "pose_valid p"
  obtains x y a where "pose_x p = Fin x" "pose_y p = Fin y" "pose_yaw p = Fin a"
  using assms by (auto simp: pose_valid_def planar_pose_def isfinite_iff split: if_splits)

lemma within_limit_fin: "within_limit (Fin v) (Fin l) \<longleftrightarrow> v \<le> l + 1 / 10 ^ 12"
  by (cases "v \<le> l") (auto simp: within_limit_def isclose_abs_def abs_real_def field_simps)

lemma return_spec_fin:
  assumes "return_to_start_spec spec = Inr spec"
  obtains mxy myaw zero_tol age where "spec = \<lparr>rts_max_xy_error_m = Fin mxy,
    rts_max_yaw_error_rad = Fin myaw, rts_zero_velocity_tolerance = Fin zero_tol,
    rts_max_cmd_vel_age_s = Fin age\<rparr>"
  using assms by (cases spec) (auto simp: return_to_start_spec_def isfinite_iff split: if_splits)

lemma pose_close_checks:
  assumes "pose_valid p" "pose_valid q"
  shows "\<exists>xy w. hypot (pose_x q - pose_x p) (pose_y q - pose_y p) = Fin xy
    \<and> wrapped_yaw_error_rad (pose_yaw p) (pose_yaw q) = Inr (Fin w)
    \<and> (pose_close p q mxy myaw \<longleftrightarrow>
         within_limit (Fin xy) (Fin mxy) \<and> within_limit (Fin w) (Fin myaw))"
proof -
  obtain x y a where p: "pose_x p = Fin x" "pose_y p = Fin y" "pose_yaw p = Fin a"
    using pose_validE [OF assms(1)] by blast
  obtain x' y' b where q: "pose_x q = Fin x'" "pose_y q = Fin y'" "pose_yaw q = Fin b"
    using pose_validE [OF assms(2)] by blast
  obtain w where w: "wrapped_yaw_error_rad (Fin a) (Fin b) = Inr (Fin w)"
    "\<exists>k :: int. w = \<bar>b - a + 2 * pi * real_of_int k\<bar>"
    "\<forall>k :: int. w \<le> \<bar>b - a + 2 * pi * real_of_int k\<bar>"
    using wrapped_yaw_shortest [of a b] by blast
  have "(\<exists>k :: int. \<bar>b - a + 2 * pi * real_of_int k\<bar> \<le> myaw + 1 / 10 ^ 12)
      \<longleftrightarrow> w \<le> myaw + 1 / 10 ^ 12"
    using w(2,3) order_trans by blast
  then show ?thesis
    using w(1) p q by (simp add: pose_close.simps within_limit_fin del: wrapped_yaw_error_rad.simps)
qed

lemma decision_passed_iff:
  "evaluate_return_to_start e spec = Inr d \<Longrightarrow> rtd_passed d \<longleftrightarrow> list_all snd (rtd_checks d)"
  by (auto simp: evaluate_return_to_start_def Let_def split: sum.splits)

text \<open>The return is judged fail-closed and exactly. On evidence and thresholds that their
  constructors accept, the evaluation never raises, and it passes exactly when a typed command
  succeeded, start, return, save and evaluation happened in that order, the final pose is in the
  frame of the start pose, was observed between the end of the return and the save and is close to
  the start in the plane and on the circle, and the last velocity is of after the return, recent
  and zero within tolerance. Without a final pose it never passes.\<close>

lemma return_judged_exactly:
  assumes "return_input_valid e spec"
  shows "\<exists>d. evaluate_return_to_start e spec = Inr d \<and>
    (rtd_passed d \<longleftrightarrow>
       strip (rte_action_command_id e) \<noteq> '''' \<and> rte_action_status e = RA_SUCCEEDED
       \<and> return_timeline_valid e
       \<and> (\<exists>p mxy myaw. rte_final_pose e = Some p
            \<and> rts_max_xy_error_m spec = Fin mxy \<and> rts_max_yaw_error_rad spec = Fin myaw
            \<and> pose_frame_id p = pose_frame_id (rte_start_pose e)
            \<and> rte_action_finished_at_ns e \<le> pose_observed_at_ns p
            \<and> pose_observed_at_ns p \<le> rte_map_saved_at_ns e
            \<and> pose_close (rte_start_pose e) p mxy myaw)
       \<and> rte_action_finished_at_ns e \<le> rte_cmd_vel_observed_at_ns e
       \<and> rte_cmd_vel_observed_at_ns e \<le> rte_evaluated_at_ns e
       \<and> Fin (real_of_int (rte_evaluated_at_ns e - rte_cmd_vel_observed_at_ns e) / 10 ^ 9)
           \<le> rts_max_cmd_vel_age_s spec
       \<and> \<bar>rte_cmd_vel_linear_x e\<bar> \<le> rts_zero_velocity_tolerance spec
       \<and> \<bar>rte_cmd_vel_angular_z e\<bar> \<le> rts_zero_velocity_tolerance spec)"
proof -
  obtain mxy myaw zero_tol age where spec: "spec = \<lparr>rts_max_xy_error_m = Fin mxy,
    rts_max_yaw_error_rad = Fin myaw, rts_zero_velocity_tolerance = Fin zero_tol,
    rts_max_cmd_vel_age_s = Fin age\<rparr>"
    using assms unfolding return_input_valid_def by (elim conjE return_spec_fin)
  have kind: "rte_action_kind e = NAVIGATE_TO_POSE" by (cases "rte_action_kind e")
  note defs = return_checks_def Let_def return_xy_error_def return_cmd_vel_age_def
  show ?thesis
  proof (cases "rte_final_pose e")
    case None
    then obtain d where d: "evaluate_return_to_start e spec = Inr d"
      "rtd_checks d = return_checks e spec None"
      by (auto simp: evaluate_return_to_start_def return_yaw_error_def Let_def)
    have "\<not> rtd_passed d"
      unfolding decision_passed_iff [OF d(1)] d(2) by (simp add: defs None)
    then show ?thesis using d(1) None by auto
  next
    case (Some p)
    then have valid: "pose_valid (rte_start_pose e)" "pose_valid p"
      using assms by (auto simp: return_input_valid_def)
    obtain xy w where xyw: "hypot (pose_x p - pose_x (rte_start_pose e))
        (pose_y p - pose_y (rte_start_pose e)) = Fin xy"
      "wrapped_yaw_error_rad (pose_yaw (rte_start_pose e)) (pose_yaw p) = Inr (Fin w)"
      "pose_close (rte_start_pose e) p mxy myaw \<longleftrightarrow>
         within_limit (Fin xy) (Fin mxy) \<and> within_limit (Fin w) (Fin myaw)"
      using pose_close_checks [OF valid, of mxy myaw] by blast
    then obtain d where d: "evaluate_return_to_start e spec = Inr d"
      "rtd_checks d = return_checks e spec (Some (Fin w))"
      using Some by (auto simp: evaluate_return_to_start_def return_yaw_error_def Let_def)
    then show ?thesis
      using d decision_passed_iff [OF d(1)] xyw kind by (simp add: defs Some spec)
  qed
qed

definition example_return :: ReturnToStartEvidence where
  "example_return =
     \<lparr>rte_start_pose = \<lparr>pose_x = Fin 0, pose_y = Fin 0, pose_yaw = Fin 0, pose_frame_id = ''map'',
        pose_observed_at_ns = 1\<rparr>,
      rte_final_pose = Some \<lparr>pose_x = Fin (1 / 10), pose_y = Fin 0, pose_yaw = Fin 0,
        pose_frame_id = ''map'', pose_observed_at_ns = 4\<rparr>,
      rte_action_kind = NAVIGATE_TO_POSE, rte_action_status = RA_SUCCEEDED,
      rte_action_command_id = ''return'', rte_action_started_at_ns = 2,
      rte_action_finished_at_ns = 3, rte_map_saved_at_ns = 5, rte_cmd_vel_linear_x = Fin 0,
      rte_cmd_vel_angular_z = Fin 0, rte_cmd_vel_observed_at_ns = 6, rte_evaluated_at_ns = 7\<rparr>"

end
