(* ===== verification/Mission_Policy.thy ===== *)
theory Mission_Policy
  imports Saturation Mapping_Return
begin

text \<open>
  The decisions and configuration of \<open>mission_executor.py\<close> that need no runtime: what a recovery
  scan allows next (\<open>decide_epoch_recovery\<close>) and the checks of the two mission specifications.
\<close>

section \<open>What a recovery scan allows next\<close>

datatype EpochRecoveryDecision =
    ADVANCE_EPOCH
  | RUN_STALL_CONFIRMATION_EPOCH
  | ASSESS_STALL_SATURATION
  | RUN_FINAL_CONFIRMATION_EPOCH
  | COMPLETE_BELOW_MATERIAL_GAIN
  | FAIL_BELOW_MATERIAL_GAIN
  | FAIL_BUDGET_EXHAUSTED

definition RELOCATION_RECOVERY_REASONS :: "string list" where
  "RELOCATION_RECOVERY_REASONS =
     [''recovery_required:no_clearance_safe_frontier_approach'',
      ''recovery_required:frontier_attempts_exhausted'']"

text \<open>The keyword arguments of \<open>decide_epoch_recovery\<close>.\<close>

record EpochRecoveryInput =
  er_recovery_reason :: string
  er_map_gain_cells :: int
  er_minimum_gain_cells :: int
  er_recovery_attempts_remaining :: int
  er_available_frontier_count :: int
  er_active_goal_count :: int
  er_blacklisted_frontier_count :: int
  er_detected_frontier_count :: int
  er_map_gain_ratio :: pyfloat
  er_minimum_gain_ratio :: pyfloat
  er_completed_recovery_epochs :: int
  er_final_confirmation_used :: bool
  er_recovery_displacement_m :: "pyfloat option"
  er_minimum_recovery_displacement_m :: "pyfloat option"

definition displacement_invalid :: "EpochRecoveryInput \<Rightarrow> bool" where
  "displacement_invalid i \<longleftrightarrow>
     (case (er_recovery_displacement_m i, er_minimum_recovery_displacement_m i) of
        (Some d, Some m) \<Rightarrow> \<not> isfinite d \<or> d < 0 \<or> \<not> isfinite m \<or> m \<le> 0
      | _ \<Rightarrow> False)"

definition relocation_verified :: "EpochRecoveryInput \<Rightarrow> bool" where
  "relocation_verified i \<longleftrightarrow>
     (case (er_recovery_displacement_m i, er_minimum_recovery_displacement_m i) of
        (Some d, Some m) \<Rightarrow>
          er_recovery_reason i \<in> set RELOCATION_RECOVERY_REASONS \<and> d \<ge> m
      | _ \<Rightarrow> False)"

definition map_growth_is_significant :: "EpochRecoveryInput \<Rightarrow> bool" where
  "map_growth_is_significant i \<longleftrightarrow>
     er_map_gain_cells i \<ge> er_minimum_gain_cells i
     \<and> er_map_gain_ratio i \<ge> er_minimum_gain_ratio i"

definition counters_are_terminal :: "EpochRecoveryInput \<Rightarrow> bool" where
  "counters_are_terminal i \<longleftrightarrow>
     er_available_frontier_count i = 0 \<and> er_active_goal_count i = 0
     \<and> er_blacklisted_frontier_count i \<le> er_detected_frontier_count i"

definition decide_epoch_recovery :: "EpochRecoveryInput \<Rightarrow> EpochRecoveryDecision result" where
  "decide_epoch_recovery i =
     (if list_ex (\<lambda>value. value < 0)
           [er_map_gain_cells i, er_minimum_gain_cells i, er_recovery_attempts_remaining i,
            er_available_frontier_count i, er_active_goal_count i,
            er_blacklisted_frontier_count i, er_detected_frontier_count i,
            er_completed_recovery_epochs i]
      then Inl (ValueError ''epoch recovery counters must be non-negative'')
      else if er_blacklisted_frontier_count i > er_detected_frontier_count i
      then Inl (ValueError ''blacklisted frontier count exceeds detected count'')
      else if \<not> isfinite (er_map_gain_ratio i) \<or> er_map_gain_ratio i < 0
         \<or> \<not> isfinite (er_minimum_gain_ratio i)
         \<or> \<not> (0 < er_minimum_gain_ratio i \<and> er_minimum_gain_ratio i \<le> 1)
      then Inl (ValueError ''map gain ratio values are invalid'')
      else if (er_recovery_displacement_m i = None) \<noteq> (er_minimum_recovery_displacement_m i = None)
      then Inl (ValueError ''recovery displacement and its minimum must be provided together'')
      else if displacement_invalid i
      then Inl (ValueError ''recovery displacement values are invalid'')
      else if map_growth_is_significant i then
        (if er_recovery_attempts_remaining i > 0 then Inr ADVANCE_EPOCH
         else if er_recovery_reason i = ''recovery_required:frontier_attempts_exhausted''
            \<and> counters_are_terminal i \<and> er_completed_recovery_epochs i > 0
            \<and> \<not> er_final_confirmation_used i
         then Inr RUN_FINAL_CONFIRMATION_EPOCH
         else Inr FAIL_BUDGET_EXHAUSTED)
      else if relocation_verified i then
        Inr (if er_recovery_attempts_remaining i > 0 then ADVANCE_EPOCH else FAIL_BUDGET_EXHAUSTED)
      else if er_recovery_reason i = ''recovery_required:reachable_frontiers_stalled''
         \<and> counters_are_terminal i \<and> er_recovery_attempts_remaining i > 0
      then Inr RUN_STALL_CONFIRMATION_EPOCH
      else if er_recovery_reason i = ''recovery_required:reachable_frontiers_stalled''
         \<and> counters_are_terminal i \<and> er_completed_recovery_epochs i > 0
      then Inr ASSESS_STALL_SATURATION
      else if er_recovery_reason i = ''recovery_required:frontier_attempts_exhausted''
         \<and> counters_are_terminal i \<and> er_recovery_attempts_remaining i = 0
         \<and> er_completed_recovery_epochs i > 0
      then Inr COMPLETE_BELOW_MATERIAL_GAIN
      else Inr FAIL_BELOW_MATERIAL_GAIN)"

section \<open>Specifications\<close>

record AutomaticMissionSpec =
  am_explorer_config_path :: string
  am_bootstrap_route :: "(string \<times> string \<times> string) list"
  am_scan_startup_timeout_s :: pyfloat
  am_bootstrap_action_timeout_s :: pyfloat
  am_navigation_timeout_s :: pyfloat
  am_navigate_text :: string
  am_patrol_text :: string

record RecoveryBackUpSpec =
  bu_distance_m :: pyfloat
  bu_speed_mps :: pyfloat
  bu_timeout_s :: pyfloat
  bu_minimum_displacement_m :: pyfloat

definition recovery_backup_spec :: "RecoveryBackUpSpec \<Rightarrow> RecoveryBackUpSpec result" where
  "recovery_backup_spec s =
     (if \<not> list_all isfinite
           [bu_distance_m s, bu_speed_mps s, bu_timeout_s s, bu_minimum_displacement_m s]
      then Inl (ValueError ''recovery backup values must be finite'')
      else if \<not> (0 < bu_distance_m s \<and> bu_distance_m s \<le> Fin 0.5)
      then Inl (ValueError ''recovery backup distance must be in (0, 0.50]'')
      else if \<not> (0 < bu_speed_mps s \<and> bu_speed_mps s \<le> Fin 0.2)
      then Inl (ValueError ''recovery backup speed must be in (0, 0.20]'')
      else if \<not> (0 < bu_minimum_displacement_m s \<and> bu_minimum_displacement_m s \<le> bu_distance_m s)
      then Inl (ValueError (''minimum recovery displacement must be positive and no ''
             @ ''greater than backup distance''))
      else if bu_timeout_s s < flt_div (bu_distance_m s) (bu_speed_mps s) + 1
      then Inl (ValueError ''recovery backup timeout must include travel time and margin'')
      else Inr s)"

record UnknownWorldMissionSpec =
  uw_explorer_config_path :: string
  uw_scan_startup_timeout_s :: pyfloat
  uw_exploration_timeout_s :: pyfloat
  uw_action_timeout_s :: pyfloat
  uw_navigation_timeout_s :: pyfloat
  uw_initial_scan_text :: string
  uw_recovery_scan_text :: string
  uw_recovery_backup :: RecoveryBackUpSpec
  uw_max_recovery_attempts :: int
  uw_minimum_epoch_map_gain_cells :: int
  uw_minimum_epoch_map_gain_ratio :: pyfloat
  uw_map_settle_s :: pyfloat
  uw_navigation_goal_count :: int
  uw_navigation_goal_seed :: int
  uw_navigation_goal_minimum_separation_m :: pyfloat
  uw_navigation_goal_clearance_m :: pyfloat
  uw_saturation_policy :: SaturationPolicy
  uw_return_to_start_spec :: ReturnToStartSpec
  uw_return_to_start_timeout_s :: pyfloat
  uw_return_map_settle_s :: pyfloat
  uw_final_confirmation_timeout_s :: pyfloat

definition unknown_world_mission_spec ::
  "UnknownWorldMissionSpec \<Rightarrow> UnknownWorldMissionSpec result" where
  "unknown_world_mission_spec s =
     (if \<not> isfinite (uw_scan_startup_timeout_s s) \<or> uw_scan_startup_timeout_s s \<le> 0
      then Inl (ValueError ''scan startup timeout must be positive'')
      else if \<not> list_all (\<lambda>value. isfinite value \<and> value > 0)
           [uw_exploration_timeout_s s, uw_action_timeout_s s, uw_navigation_timeout_s s,
            uw_return_to_start_timeout_s s, uw_final_confirmation_timeout_s s]
      then Inl (ValueError ''unknown-world mission timeouts must be positive'')
      else if uw_max_recovery_attempts s < 0
      then Inl (ValueError ''max recovery attempts must be non-negative'')
      else if uw_minimum_epoch_map_gain_cells s < 0
      then Inl (ValueError ''minimum epoch map gain cells must be non-negative'')
      else if \<not> isfinite (uw_minimum_epoch_map_gain_ratio s)
         \<or> \<not> (0 < uw_minimum_epoch_map_gain_ratio s \<and> uw_minimum_epoch_map_gain_ratio s \<le> 1)
      then Inl (ValueError ''minimum epoch map gain ratio must be in (0, 1]'')
      else if \<not> isfinite (uw_map_settle_s s) \<or> uw_map_settle_s s < 0
      then Inl (ValueError ''map settle time must be finite and non-negative'')
      else if \<not> isfinite (uw_return_map_settle_s s) \<or> uw_return_map_settle_s s < 0
      then Inl (ValueError ''return map settle time must be finite and non-negative'')
      else if uw_navigation_goal_count s \<le> 0
      then Inl (ValueError ''navigation goal count must be positive'')
      else if uw_navigation_goal_minimum_separation_m s < 0
      then Inl (ValueError ''goal separation must be non-negative'')
      else if uw_navigation_goal_clearance_m s < 0
      then Inl (ValueError ''goal clearance must be non-negative'')
      else if strip (uw_initial_scan_text s) = '''' \<or> strip (uw_recovery_scan_text s) = ''''
      then Inl (ValueError ''unknown-world scan actions must be non-empty'')
      else Inr s)"

section \<open>Properties of the recovery decision\<close>

lemma decide_epoch_recovery_budget:
  "decide_epoch_recovery i = Inr d \<Longrightarrow> d \<in> {ADVANCE_EPOCH, RUN_STALL_CONFIRMATION_EPOCH} \<Longrightarrow>
     0 < er_recovery_attempts_remaining i"
  by (auto simp: decide_epoch_recovery_def split: if_splits)

lemma decide_epoch_recovery_final:
  "decide_epoch_recovery i = Inr RUN_FINAL_CONFIRMATION_EPOCH \<Longrightarrow> \<not> er_final_confirmation_used i"
  by (auto simp: decide_epoch_recovery_def split: if_splits)

text \<open>Progress that allows another full epoch: the map grew by the absolute and the relative
  threshold, or the robot verifiably moved away from a spot it could not explore from.\<close>

definition recovery_progress :: "EpochRecoveryInput \<Rightarrow> bool" where
  "recovery_progress i \<longleftrightarrow> map_growth_is_significant i \<or> relocation_verified i"

text \<open>A recovery never overspends and never completes on progress. A further epoch is allowed
  only with recovery budget left, and without progress only to confirm a stall. The final
  confirmation is allowed only once and only without budget. Completion and the saturation
  assessment need spent recoveries, no available frontier, no active goal and no progress.\<close>

lemma epoch_recovery_sound:
  assumes "decide_epoch_recovery i = Inr d"
  shows "case d of
      ADVANCE_EPOCH \<Rightarrow> 0 < er_recovery_attempts_remaining i \<and> recovery_progress i
    | RUN_STALL_CONFIRMATION_EPOCH \<Rightarrow>
        0 < er_recovery_attempts_remaining i \<and> \<not> recovery_progress i \<and> counters_are_terminal i
    | ASSESS_STALL_SATURATION \<Rightarrow>
        er_recovery_attempts_remaining i = 0 \<and> 0 < er_completed_recovery_epochs i
        \<and> \<not> recovery_progress i \<and> counters_are_terminal i
    | RUN_FINAL_CONFIRMATION_EPOCH \<Rightarrow>
        er_recovery_attempts_remaining i = 0 \<and> 0 < er_completed_recovery_epochs i
        \<and> map_growth_is_significant i \<and> counters_are_terminal i \<and> \<not> er_final_confirmation_used i
    | COMPLETE_BELOW_MATERIAL_GAIN \<Rightarrow>
        er_recovery_attempts_remaining i = 0 \<and> 0 < er_completed_recovery_epochs i
        \<and> \<not> recovery_progress i \<and> counters_are_terminal i
    | FAIL_BELOW_MATERIAL_GAIN \<Rightarrow> \<not> recovery_progress i
    | FAIL_BUDGET_EXHAUSTED \<Rightarrow> er_recovery_attempts_remaining i = 0 \<and> recovery_progress i"
  using assms by (auto simp: decide_epoch_recovery_def recovery_progress_def split: if_splits)

definition example_recovery :: EpochRecoveryInput where
  "example_recovery =
     \<lparr>er_recovery_reason = ''recovery_required:frontier_attempts_exhausted'',
      er_map_gain_cells = 3, er_minimum_gain_cells = 40, er_recovery_attempts_remaining = 0,
      er_available_frontier_count = 0, er_active_goal_count = 0, er_blacklisted_frontier_count = 1,
      er_detected_frontier_count = 2, er_map_gain_ratio = Fin (1 / 1000),
      er_minimum_gain_ratio = Fin (1 / 100), er_completed_recovery_epochs = 2,
      er_final_confirmation_used = False, er_recovery_displacement_m = None,
      er_minimum_recovery_displacement_m = None\<rparr>"

end
