(* ===== verification/Mapping_Evidence.thy ===== *)
theory Mapping_Evidence
  imports Prelude
begin

text \<open>
  The evidence of \<open>mapping_evidence.py\<close>. First the frontier telemetry, then the ledger of the
  sampled navigation goals (\<open>NavigationGoalLedger\<close>), then the tracker of map, odometry and explorer
  observations (\<open>MappingEvidenceTracker\<close>). Every method runs under its lock and is one function
  here. A ledger method that raises leaves the ledger as it was, so its result is the new ledger or
  the exception. The clock readings of a method are its last arguments.
\<close>

section \<open>Frontier telemetry\<close>

record FrontierTelemetry =
  ft_status :: string
  ft_detected_frontier_count :: int
  ft_available_frontier_count :: int
  ft_blacklisted_frontier_count :: int
  ft_active_goal_count :: int
  ft_active_goal_id :: string
  ft_accepted_goal_count :: int
  ft_succeeded_goal_count :: int
  ft_aborted_goal_count :: int
  ft_canceled_goal_count :: int
  ft_rejected_goal_count :: int
  ft_last_goal_terminal :: string
  ft_completion_reason :: string

definition default_telemetry :: FrontierTelemetry where
  "default_telemetry =
     \<lparr>ft_status = '''', ft_detected_frontier_count = 0, ft_available_frontier_count = 0,
      ft_blacklisted_frontier_count = 0, ft_active_goal_count = 0, ft_active_goal_id = '''',
      ft_accepted_goal_count = 0, ft_succeeded_goal_count = 0, ft_aborted_goal_count = 0,
      ft_canceled_goal_count = 0, ft_rejected_goal_count = 0, ft_last_goal_terminal = '''',
      ft_completion_reason = ''''\<rparr>"

definition telemetry_counters :: "FrontierTelemetry \<Rightarrow> int list" where
  "telemetry_counters t =
     [ft_detected_frontier_count t, ft_available_frontier_count t, ft_blacklisted_frontier_count t,
      ft_active_goal_count t, ft_accepted_goal_count t, ft_succeeded_goal_count t,
      ft_aborted_goal_count t, ft_canceled_goal_count t, ft_rejected_goal_count t]"

definition frontier_telemetry :: "FrontierTelemetry \<Rightarrow> FrontierTelemetry result" where
  "frontier_telemetry t =
     (if list_ex (\<lambda>value. value < 0) (telemetry_counters t)
      then Inl (ValueError ''frontier telemetry counters must be non-negative'') else Inr t)"

section \<open>The ledger of navigation goals\<close>

datatype NavigationGoalStatus =
  UNSPECIFIED | PLANNED | REQUESTED | ACCEPTED | EXECUTING | SUCCEEDED | REJECTED | ABORTED
  | CANCELED | TIMED_OUT

definition TERMINAL_NAVIGATION_STATUSES :: "NavigationGoalStatus list" where
  "TERMINAL_NAVIGATION_STATUSES = [SUCCEEDED, REJECTED, ABORTED, CANCELED, TIMED_OUT]"

record NavigationGoalEvidence =
  ng_sequence :: int
  ng_goal_xy :: "pyfloat \<times> pyfloat"
  ng_status :: NavigationGoalStatus
  ng_started_at_ns :: int
  ng_finished_at_ns :: int
  ng_nav2_status :: int
  ng_nav2_error_code :: int
  ng_plan_count :: int
  ng_max_unknown_cell_count :: int
  ng_max_occupied_cell_count :: int
  ng_max_outside_map_cell_count :: int
  ng_detail :: string

definition navigation_goal_evidence :: "int \<Rightarrow> pyfloat \<times> pyfloat \<Rightarrow> NavigationGoalEvidence" where
  "navigation_goal_evidence sequence goal =
     \<lparr>ng_sequence = sequence, ng_goal_xy = goal, ng_status = PLANNED, ng_started_at_ns = 0,
      ng_finished_at_ns = 0, ng_nav2_status = 0, ng_nav2_error_code = 0, ng_plan_count = 0,
      ng_max_unknown_cell_count = 0, ng_max_occupied_cell_count = 0,
      ng_max_outside_map_cell_count = 0, ng_detail = ''''\<rparr>"

definition all_plans_known_free :: "NavigationGoalEvidence \<Rightarrow> bool" where
  "all_plans_known_free g \<longleftrightarrow>
     ng_plan_count g > 0 \<and> ng_max_unknown_cell_count g = 0 \<and> ng_max_occupied_cell_count g = 0
     \<and> ng_max_outside_map_cell_count g = 0"

definition status_terminal :: "NavigationGoalStatus \<Rightarrow> bool" where
  "status_terminal st \<longleftrightarrow> st \<in> set TERMINAL_NAVIGATION_STATUSES"

record NavigationGoalLedger =
  led_mission_sequence :: int
  led_records :: "NavigationGoalEvidence list"

definition ledger_init :: NavigationGoalLedger where
  "ledger_init = \<lparr>led_mission_sequence = 0, led_records = []\<rparr>"

definition ledger_reset :: "int \<Rightarrow> NavigationGoalLedger \<Rightarrow> NavigationGoalLedger result" where
  "ledger_reset mission_sequence l =
     (if mission_sequence \<le> 0 then Inl (ValueError ''mission sequence must be positive'')
      else Inr (l\<lparr>led_mission_sequence := mission_sequence, led_records := []\<rparr>))"

definition ledger_plan ::
  "(pyfloat \<times> pyfloat) list \<Rightarrow> NavigationGoalLedger \<Rightarrow> NavigationGoalLedger result" where
  "ledger_plan goals l =
     (let records = map (\<lambda>(index, goal). navigation_goal_evidence (int index) goal)
        (enumerate 1 goals)
      in if records = [] then Inl (ValueError ''at least one navigation goal is required'')
         else Inr (l\<lparr>led_records := records\<rparr>))"

definition ledger_index :: "int \<Rightarrow> NavigationGoalLedger \<Rightarrow> nat result" where
  "ledger_index sequence l =
     (let index = sequence - 1
      in if index < 0 \<or> index \<ge> int (length (led_records l)) then Inl (IndexError sequence)
         else Inr (nat index))"

definition ledger_transition ::
  "int \<Rightarrow> NavigationGoalStatus \<Rightarrow> int \<Rightarrow> int \<Rightarrow> int \<Rightarrow> string \<Rightarrow> NavigationGoalLedger
     \<Rightarrow> NavigationGoalLedger result" where
  "ledger_transition sequence status timestamp_ns nav2_status nav2_error_code detail l =
     (if timestamp_ns < 0
      then Inl (ValueError ''navigation evidence timestamp must be non-negative'')
      else case ledger_index sequence l of
        Inl e \<Rightarrow> Inl e
      | Inr index \<Rightarrow>
          (let current = led_records l ! index
           in if status_terminal (ng_status current)
              then Inl (ValueError (''navigation goal '' @ show_int sequence @ '' is already terminal''))
              else
                (let started_at_ns =
                       (if status = REQUESTED \<and> ng_started_at_ns current = 0 then timestamp_ns
                        else ng_started_at_ns current);
                     finished_at_ns = (if status_terminal status then timestamp_ns else 0)
                 in Inr (l\<lparr>led_records := (led_records l)[index := current\<lparr>
                      ng_status := status, ng_started_at_ns := started_at_ns,
                      ng_finished_at_ns := finished_at_ns, ng_nav2_status := nav2_status,
                      ng_nav2_error_code := nav2_error_code, ng_detail := detail\<rparr>]\<rparr>))))"

definition ledger_record_plan ::
  "int \<Rightarrow> int \<Rightarrow> int \<Rightarrow> int \<Rightarrow> NavigationGoalLedger \<Rightarrow> NavigationGoalLedger result" where
  "ledger_record_plan sequence unknown_cell_count occupied_cell_count outside_map_cell_count l =
     (if list_ex (\<lambda>value. value < 0)
           [unknown_cell_count, occupied_cell_count, outside_map_cell_count]
      then Inl (ValueError ''path occupancy counts must be non-negative'')
      else case ledger_index sequence l of
        Inl e \<Rightarrow> Inl e
      | Inr index \<Rightarrow>
          (let current = led_records l ! index
           in Inr (l\<lparr>led_records := (led_records l)[index := current\<lparr>
                ng_plan_count := ng_plan_count current + 1,
                ng_max_unknown_cell_count :=
                  max (ng_max_unknown_cell_count current) unknown_cell_count,
                ng_max_occupied_cell_count :=
                  max (ng_max_occupied_cell_count current) occupied_cell_count,
                ng_max_outside_map_cell_count :=
                  max (ng_max_outside_map_cell_count current) outside_map_cell_count\<rparr>]\<rparr>)))"

definition ledger_active_sequence :: "NavigationGoalLedger \<Rightarrow> int option result" where
  "ledger_active_sequence l =
     (let active = map ng_sequence
        (filter (\<lambda>item. ng_status item \<in> {REQUESTED, ACCEPTED, EXECUTING}) (led_records l))
      in if length active > 1
         then Inl (RuntimeError ''sampled navigation goals must execute serially'')
         else if active \<noteq> [] then Inr (Some (active ! 0)) else Inr None)"

definition ledger_get :: "int \<Rightarrow> NavigationGoalLedger \<Rightarrow> NavigationGoalEvidence result" where
  "ledger_get sequence l =
     (case ledger_index sequence l of Inl e \<Rightarrow> Inl e | Inr index \<Rightarrow> Inr (led_records l ! index))"

definition ledger_active :: "NavigationGoalLedger \<Rightarrow> NavigationGoalEvidence option result" where
  "ledger_active l =
     (case ledger_active_sequence l of
        Inl e \<Rightarrow> Inl e
      | Inr None \<Rightarrow> Inr None
      | Inr (Some sequence) \<Rightarrow>
          (case ledger_get sequence l of Inl e \<Rightarrow> Inl e | Inr g \<Rightarrow> Inr (Some g)))"

definition ledger_is_terminal :: "int \<Rightarrow> NavigationGoalLedger \<Rightarrow> bool result" where
  "ledger_is_terminal sequence l =
     (case ledger_get sequence l of Inl e \<Rightarrow> Inl e | Inr g \<Rightarrow> Inr (status_terminal (ng_status g)))"

definition ledger_snapshot :: "NavigationGoalLedger \<Rightarrow> NavigationGoalEvidence list" where
  "ledger_snapshot l = led_records l"

text \<open>The calls that change a ledger once its goals are planned, as one step function. A call that
  raises changes nothing.\<close>

datatype ledger_call =
    Transition int NavigationGoalStatus int int int string
  | RecordPlan int int int int

fun ledger_call_result :: "ledger_call \<Rightarrow> NavigationGoalLedger \<Rightarrow> NavigationGoalLedger result" where
  "ledger_call_result (Transition sequence st ts nav2 err detail) l =
     ledger_transition sequence st ts nav2 err detail l"
| "ledger_call_result (RecordPlan sequence u oc out) l = ledger_record_plan sequence u oc out l"

definition ledger_step :: "ledger_call \<Rightarrow> NavigationGoalLedger \<Rightarrow> NavigationGoalLedger" where
  "ledger_step c l = (case ledger_call_result c l of Inl _ \<Rightarrow> l | Inr l' \<Rightarrow> l')"

section \<open>The tracker of mapping evidence\<close>

record MapStats =
  ms_known_cells :: int
  ms_occupied_cells :: int

record ActionTotals =
  tot_accepted_goal_count :: int
  tot_succeeded_goal_count :: int
  tot_aborted_goal_count :: int
  tot_canceled_goal_count :: int
  tot_rejected_goal_count :: int

definition zero_totals :: ActionTotals where
  "zero_totals = \<lparr>tot_accepted_goal_count = 0, tot_succeeded_goal_count = 0,
     tot_aborted_goal_count = 0, tot_canceled_goal_count = 0, tot_rejected_goal_count = 0\<rparr>"

record MappingEvidenceTracker =
  mt_min_growth_cells :: int
  mt_scan_ready :: bool
  mt_map_stats :: "MapStats option"
  mt_best_known_map_cells :: int
  mt_last_map_growth_at :: pyfloat
  mt_last_frontier_activity_at :: pyfloat
  mt_exploration_completion_reason :: string
  mt_mapping_path_m :: pyfloat
  mt_mapping_last_position :: "(pyfloat \<times> pyfloat) option"
  mt_latest_odom_xy :: "(pyfloat \<times> pyfloat) option"
  mt_odom_generation :: int
  mt_record_mapping_path :: bool
  mt_explore_status :: string
  mt_frontier_telemetry :: FrontierTelemetry
  mt_frontier_action_totals :: ActionTotals

definition evidence_init :: "int \<Rightarrow> pyfloat \<Rightarrow> pyfloat \<Rightarrow> MappingEvidenceTracker result" where
  "evidence_init min_growth_cells now1 now2 =
     (if min_growth_cells < 0 then Inl (ValueError ''min_growth_cells must be non-negative'')
      else Inr
        \<lparr>mt_min_growth_cells = min_growth_cells, mt_scan_ready = False, mt_map_stats = None,
         mt_best_known_map_cells = 0, mt_last_map_growth_at = now1,
         mt_last_frontier_activity_at = now2, mt_exploration_completion_reason = '''',
         mt_mapping_path_m = 0, mt_mapping_last_position = None, mt_latest_odom_xy = None,
         mt_odom_generation = 0, mt_record_mapping_path = False, mt_explore_status = '''',
         mt_frontier_telemetry = default_telemetry, mt_frontier_action_totals = zero_totals\<rparr>)"

fun count_cells :: "int list \<Rightarrow> int \<Rightarrow> int \<Rightarrow> int \<times> int" where
  "count_cells [] known_cells occupied_cells = (known_cells, occupied_cells)"
| "count_cells (value # values) known_cells occupied_cells =
     count_cells values (if value \<ge> 0 then known_cells + 1 else known_cells)
       (if value \<ge> 65 then occupied_cells + 1 else occupied_cells)"

definition record_map :: "int list \<Rightarrow> pyfloat \<Rightarrow> MappingEvidenceTracker \<Rightarrow> MappingEvidenceTracker" where
  "record_map values now t =
     (let (known_cells, occupied_cells) = count_cells values 0 0;
          t = t\<lparr>mt_map_stats := Some \<lparr>ms_known_cells = known_cells,
                 ms_occupied_cells = occupied_cells\<rparr>\<rparr>
      in if known_cells \<ge> mt_best_known_map_cells t + mt_min_growth_cells t
         then t\<lparr>mt_best_known_map_cells := known_cells, mt_last_map_growth_at := now\<rparr>
         else t)"

definition mark_scan_ready :: "MappingEvidenceTracker \<Rightarrow> MappingEvidenceTracker" where
  "mark_scan_ready t = t\<lparr>mt_scan_ready := True\<rparr>"

definition record_odom :: "pyfloat \<Rightarrow> pyfloat \<Rightarrow> MappingEvidenceTracker \<Rightarrow> MappingEvidenceTracker" where
  "record_odom x y t =
     (let t = t\<lparr>mt_latest_odom_xy := Some (x, y), mt_odom_generation := mt_odom_generation t + 1\<rparr>
      in if \<not> mt_record_mapping_path t then t
         else
           (let previous = mt_mapping_last_position t;
                t = t\<lparr>mt_mapping_last_position := Some (x, y)\<rparr>
            in case previous of
                 None \<Rightarrow> t
               | Some (px, py) \<Rightarrow>
                   (let step = hypot (x - px) (y - py)
                    in if Fin 0.001 \<le> step \<and> step \<le> Fin 0.5
                       then t\<lparr>mt_mapping_path_m := mt_mapping_path_m t + step\<rparr>
                       else t)))"

definition record_frontier_telemetry ::
  "FrontierTelemetry \<Rightarrow> pyfloat \<Rightarrow> MappingEvidenceTracker \<Rightarrow> MappingEvidenceTracker" where
  "record_frontier_telemetry telemetry now t =
     (let t = (if telemetry \<noteq> mt_frontier_telemetry t
               then t\<lparr>mt_last_frontier_activity_at := now\<rparr> else t)
      in t\<lparr>mt_frontier_telemetry := telemetry, mt_explore_status := ft_status telemetry\<rparr>)"

definition record_explore_status ::
  "string \<Rightarrow> pyfloat \<Rightarrow> MappingEvidenceTracker \<Rightarrow> MappingEvidenceTracker" where
  "record_explore_status status now t =
     record_frontier_telemetry (default_telemetry\<lparr>ft_status := status\<rparr>) now t"

definition begin_mapping_path :: "MappingEvidenceTracker \<Rightarrow> MappingEvidenceTracker" where
  "begin_mapping_path t =
     t\<lparr>mt_mapping_path_m := 0, mt_mapping_last_position := None, mt_record_mapping_path := True\<rparr>"

definition finish_mapping_path :: "MappingEvidenceTracker \<Rightarrow> MappingEvidenceTracker" where
  "finish_mapping_path t = t\<lparr>mt_record_mapping_path := False\<rparr>"

definition resume_mapping_path :: "MappingEvidenceTracker \<Rightarrow> MappingEvidenceTracker" where
  "resume_mapping_path t =
     t\<lparr>mt_mapping_last_position := None, mt_record_mapping_path := True\<rparr>"

definition add_totals :: "FrontierTelemetry \<Rightarrow> ActionTotals \<Rightarrow> ActionTotals" where
  "add_totals c a =
     \<lparr>tot_accepted_goal_count = tot_accepted_goal_count a + ft_accepted_goal_count c,
      tot_succeeded_goal_count = tot_succeeded_goal_count a + ft_succeeded_goal_count c,
      tot_aborted_goal_count = tot_aborted_goal_count a + ft_aborted_goal_count c,
      tot_canceled_goal_count = tot_canceled_goal_count a + ft_canceled_goal_count c,
      tot_rejected_goal_count = tot_rejected_goal_count a + ft_rejected_goal_count c\<rparr>"

definition reset_exploration ::
  "bool \<Rightarrow> pyfloat \<Rightarrow> pyfloat \<Rightarrow> MappingEvidenceTracker \<Rightarrow> MappingEvidenceTracker" where
  "reset_exploration preserve_action_totals now1 now2 t =
     t\<lparr>mt_frontier_action_totals :=
         (if preserve_action_totals
          then add_totals (mt_frontier_telemetry t) (mt_frontier_action_totals t)
          else zero_totals),
       mt_explore_status := '''', mt_best_known_map_cells := 0, mt_last_map_growth_at := now1,
       mt_last_frontier_activity_at := now2, mt_exploration_completion_reason := '''',
       mt_frontier_telemetry := default_telemetry\<rparr>"

definition set_completion_reason :: "string \<Rightarrow> MappingEvidenceTracker \<Rightarrow> MappingEvidenceTracker" where
  "set_completion_reason reason t = t\<lparr>mt_exploration_completion_reason := reason\<rparr>"

record MappingEvidenceSnapshot =
  me_map_stats :: "MapStats option"
  me_best_known_map_cells :: int
  me_last_map_growth_at :: pyfloat
  me_last_frontier_activity_at :: pyfloat
  me_exploration_completion_reason :: string
  me_mapping_path_m :: pyfloat
  me_latest_odom_xy :: "(pyfloat \<times> pyfloat) option"
  me_odom_generation :: int
  me_explore_status :: string
  me_frontier_telemetry :: FrontierTelemetry

definition with_totals :: "ActionTotals \<Rightarrow> FrontierTelemetry \<Rightarrow> FrontierTelemetry" where
  "with_totals a c =
     c\<lparr>ft_accepted_goal_count := ft_accepted_goal_count c + tot_accepted_goal_count a,
       ft_succeeded_goal_count := ft_succeeded_goal_count c + tot_succeeded_goal_count a,
       ft_aborted_goal_count := ft_aborted_goal_count c + tot_aborted_goal_count a,
       ft_canceled_goal_count := ft_canceled_goal_count c + tot_canceled_goal_count a,
       ft_rejected_goal_count := ft_rejected_goal_count c + tot_rejected_goal_count a\<rparr>"

definition evidence_snapshot :: "MappingEvidenceTracker \<Rightarrow> MappingEvidenceSnapshot result" where
  "evidence_snapshot t =
     (case frontier_telemetry (with_totals (mt_frontier_action_totals t) (mt_frontier_telemetry t)) of
        Inl e \<Rightarrow> Inl e
      | Inr telemetry \<Rightarrow> Inr
          \<lparr>me_map_stats = mt_map_stats t, me_best_known_map_cells = mt_best_known_map_cells t,
           me_last_map_growth_at = mt_last_map_growth_at t,
           me_last_frontier_activity_at = mt_last_frontier_activity_at t,
           me_exploration_completion_reason = mt_exploration_completion_reason t,
           me_mapping_path_m = mt_mapping_path_m t, me_latest_odom_xy = mt_latest_odom_xy t,
           me_odom_generation = mt_odom_generation t, me_explore_status = mt_explore_status t,
           me_frontier_telemetry = telemetry\<rparr>)"

text \<open>The calls of the ROS callbacks and of the executor on one tracker.\<close>

datatype evidence_call =
    RecordMap "int list" pyfloat
  | MarkScanReady
  | RecordOdom pyfloat pyfloat
  | RecordFrontierTelemetry FrontierTelemetry pyfloat
  | RecordExploreStatus string pyfloat
  | BeginMappingPath
  | FinishMappingPath
  | ResumeMappingPath
  | ResetExploration bool pyfloat pyfloat
  | SetCompletionReason string

fun evidence_step :: "evidence_call \<Rightarrow> MappingEvidenceTracker \<Rightarrow> MappingEvidenceTracker" where
  "evidence_step (RecordMap values now) t = record_map values now t"
| "evidence_step MarkScanReady t = mark_scan_ready t"
| "evidence_step (RecordOdom x y) t = record_odom x y t"
| "evidence_step (RecordFrontierTelemetry telemetry now) t =
     record_frontier_telemetry telemetry now t"
| "evidence_step (RecordExploreStatus status now) t = record_explore_status status now t"
| "evidence_step BeginMappingPath t = begin_mapping_path t"
| "evidence_step FinishMappingPath t = finish_mapping_path t"
| "evidence_step ResumeMappingPath t = resume_mapping_path t"
| "evidence_step (ResetExploration preserve now1 now2) t = reset_exploration preserve now1 now2 t"
| "evidence_step (SetCompletionReason reason) t = set_completion_reason reason t"

section \<open>What the ledger promises\<close>

text \<open>A store of records whose entries only evolve: the contract by which the navigation
  transaction reads the ledger while callbacks write to it.\<close>

locale evolving_store =
  fixes step :: "'c \<Rightarrow> 'l \<Rightarrow> 'l"
    and entries :: "'l \<Rightarrow> 'g list"
    and evolves :: "'g \<Rightarrow> 'g \<Rightarrow> bool"
  assumes evolves_refl: "evolves g g"
    and evolves_trans: "evolves g h \<Longrightarrow> evolves h k \<Longrightarrow> evolves g k"
    and step_evolves: "list_all2 evolves (entries l) (entries (step c l))"
begin

lemma run_evolves: "list_all2 evolves (entries l) (entries (run step cs l))"
proof (induction cs arbitrary: l)
  case Nil
  then show ?case by (simp add: list_all2_refl evolves_refl)
next
  case (Cons c cs)
  have "list_all2 evolves (entries l) (entries (run step cs (step c l)))"
    by (rule list_all2_trans [OF _ step_evolves Cons.IH]) (rule evolves_trans)
  then show ?case by simp
qed

lemma run_entry:
  assumes "i < length (entries l)"
  shows "i < length (entries (run step cs l)) \<and> evolves (entries l ! i) (entries (run step cs l) ! i)"
  using run_evolves [of l cs] assms by (auto simp: list_all2_conv_all_nth)

end

definition goal_evolves :: "NavigationGoalEvidence \<Rightarrow> NavigationGoalEvidence \<Rightarrow> bool" where
  "goal_evolves g h \<longleftrightarrow>
     ng_sequence h = ng_sequence g \<and> ng_goal_xy h = ng_goal_xy g
     \<and> ng_plan_count g \<le> ng_plan_count h
     \<and> ng_max_unknown_cell_count g \<le> ng_max_unknown_cell_count h
     \<and> ng_max_occupied_cell_count g \<le> ng_max_occupied_cell_count h
     \<and> ng_max_outside_map_cell_count g \<le> ng_max_outside_map_cell_count h
     \<and> (ng_started_at_ns g \<noteq> 0 \<longrightarrow> ng_started_at_ns h = ng_started_at_ns g)
     \<and> (status_terminal (ng_status g) \<longrightarrow>
          ng_status h = ng_status g \<and> ng_finished_at_ns h = ng_finished_at_ns g
          \<and> ng_started_at_ns h = ng_started_at_ns g
          \<and> ng_nav2_status h = ng_nav2_status g \<and> ng_nav2_error_code h = ng_nav2_error_code g
          \<and> ng_detail h = ng_detail g)"

lemma goal_evolves_refl [simp]: "goal_evolves g g"
  by (simp add: goal_evolves_def)

lemma goal_evolves_trans: "goal_evolves g h \<Longrightarrow> goal_evolves h k \<Longrightarrow> goal_evolves g k"
  unfolding goal_evolves_def by (elim conjE, intro conjI) (auto simp del: One_nat_def)

lemma ledger_index_Inr: "ledger_index sequence l = Inr i \<Longrightarrow>
    i < length (led_records l) \<and> sequence = int i + 1"
  by (auto simp: ledger_index_def Let_def split: if_splits)

lemma ledger_index_at [simp]: "i < length (led_records l) \<Longrightarrow> ledger_index (int i + 1) l = Inr i"
  by (simp add: ledger_index_def Let_def)

lemma list_all2_update_evolves:
  "(\<And>x. P x x) \<Longrightarrow> P (xs ! i) y \<Longrightarrow> list_all2 P xs (xs[i := y])"
  by (auto simp: list_all2_conv_all_nth nth_update_if)

lemma ledger_transition_evolves:
  "ledger_transition sequence st ts nav2 err detail l = Inr l' \<Longrightarrow>
     list_all2 goal_evolves (led_records l) (led_records l')"
  by (auto simp: ledger_transition_def Let_def goal_evolves_def split: sum.splits if_splits
      intro!: list_all2_update_evolves)

lemma ledger_record_plan_evolves:
  "ledger_record_plan sequence u oc out l = Inr l' \<Longrightarrow>
     list_all2 goal_evolves (led_records l) (led_records l')"
  by (auto simp: ledger_record_plan_def Let_def goal_evolves_def split: sum.splits if_splits
      intro!: list_all2_update_evolves)

lemma ledger_step_evolves:
  "list_all2 goal_evolves (led_records l) (led_records (ledger_step c l))"
  by (cases c) (auto simp: ledger_step_def list_all2_refl split: sum.splits
      dest: ledger_transition_evolves ledger_record_plan_evolves)

interpretation goal_ledger: evolving_store ledger_step led_records goal_evolves
  by unfold_locales (auto intro: goal_evolves_trans ledger_step_evolves)

lemma ledger_step_length [simp]: "length (led_records (ledger_step c l)) = length (led_records l)"
  using list_all2_lengthD [OF ledger_step_evolves [of l c]] by simp

lemma ledger_run_length [simp]:
  "length (led_records (run ledger_step cs l)) = length (led_records l)"
  by (induction cs arbitrary: l) auto

text \<open>The plans a run of calls records for one goal.\<close>

fun plans_for :: "int \<Rightarrow> ledger_call list \<Rightarrow> (int \<times> int \<times> int) list" where
  "plans_for sequence [] = []"
| "plans_for sequence (RecordPlan s u oc out # cs) =
     (if s = sequence \<and> 0 \<le> u \<and> 0 \<le> oc \<and> 0 \<le> out then (u, oc, out) # plans_for sequence cs
      else plans_for sequence cs)"
| "plans_for sequence (Transition _ _ _ _ _ _ # cs) = plans_for sequence cs"

definition plan_evidence :: "NavigationGoalEvidence \<Rightarrow> int \<times> int \<times> int \<times> int" where
  "plan_evidence g = (ng_plan_count g, ng_max_unknown_cell_count g, ng_max_occupied_cell_count g,
     ng_max_outside_map_cell_count g)"

fun add_plan :: "int \<times> int \<times> int \<Rightarrow> int \<times> int \<times> int \<times> int \<Rightarrow> int \<times> int \<times> int \<times> int" where
  "add_plan (u, oc, out) (n, mu, mo, mx) = (n + 1, max mu u, max mo oc, max mx out)"

lemma plan_evidence_transition:
  "plan_evidence (led_records (ledger_step (Transition s st ts n e d) l) ! i)
     = plan_evidence (led_records l ! i)"
  by (simp add: ledger_step_def ledger_transition_def Let_def plan_evidence_def nth_update_if
      split: sum.splits)

lemma plan_evidence_record_plan:
  assumes "i < length (led_records l)"
  shows "plan_evidence (led_records (ledger_step (RecordPlan s u oc out) l) ! i)
     = (if s = int i + 1 \<and> 0 \<le> u \<and> 0 \<le> oc \<and> 0 \<le> out
        then add_plan (u, oc, out) (plan_evidence (led_records l ! i))
        else plan_evidence (led_records l ! i))"
  using assms
  by (auto simp: ledger_step_def ledger_record_plan_def Let_def plan_evidence_def nth_update_if
      split: sum.splits dest: ledger_index_Inr)

lemma plan_evidence_run:
  "i < length (led_records l) \<Longrightarrow>
     plan_evidence (led_records (run ledger_step cs l) ! i)
       = fold add_plan (plans_for (int i + 1) cs) (plan_evidence (led_records l ! i))"
proof (induction cs arbitrary: l)
  case Nil
  then show ?case by simp
next
  case (Cons c cs)
  then show ?case
    by (cases c) (simp_all add: plan_evidence_transition plan_evidence_record_plan)
qed

lemma fold_add_plan_free:
  fixes n mu mo mx :: int
  assumes "0 \<le> n" "0 \<le> mu" "0 \<le> mo" "0 \<le> mx" "\<forall>(u, oc, out) \<in> set ps. 0 \<le> u \<and> 0 \<le> oc \<and> 0 \<le> out"
    and "fold add_plan ps (n, mu, mo, mx) = (n', mu', mo', mx')"
  shows "0 < n' \<and> mu' = 0 \<and> mo' = 0 \<and> mx' = 0 \<longleftrightarrow>
    (0 < n \<or> ps \<noteq> []) \<and> mu = 0 \<and> mo = 0 \<and> mx = 0 \<and> (\<forall>p \<in> set ps. p = (0, 0, 0))"
  using assms
proof (induction ps arbitrary: n mu mo mx)
  case Nil
  then show ?case by auto
next
  case (Cons p ps)
  obtain u oc out where p: "p = (u, oc, out)" by (cases p) auto
  have "0 < n' \<and> mu' = 0 \<and> mo' = 0 \<and> mx' = 0 \<longleftrightarrow>
    (0 < n + 1 \<or> ps \<noteq> []) \<and> max mu u = 0 \<and> max mo oc = 0 \<and> max mx out = 0
    \<and> (\<forall>p \<in> set ps. p = (0, 0, 0))"
    using Cons.prems p by (intro Cons.IH) auto
  then show ?case using Cons.prems p by auto
qed

lemma plans_for_nonneg: "\<forall>(u, oc, out) \<in> set (plans_for s cs). 0 \<le> u \<and> 0 \<le> oc \<and> 0 \<le> out"
  by (induction s cs rule: plans_for.induct) auto

lemma ledger_plan_records:
  assumes "ledger_plan goals l = Inr l0"
  shows "length (led_records l0) = length goals"
    and "i < length goals \<Longrightarrow> led_records l0 ! i = navigation_goal_evidence (int i + 1) (goals ! i)"
  using assms by (auto simp: ledger_plan_def Let_def nth_enumerate_eq add.commute split: if_splits)

lemma ledger_get_Inr:
  "ledger_get s l = Inr g \<Longrightarrow>
     \<exists>i. i < length (led_records l) \<and> s = int i + 1 \<and> g = led_records l ! i"
  by (auto simp: ledger_get_def split: sum.splits dest: ledger_index_Inr)

text \<open>C34. Known-free evidence is exact. After the goals are planned, whatever calls follow, a goal
  is reported as planned through known free space only when at least one valid plan was recorded
  for it and every valid plan recorded for it had no unknown, occupied or outside cell. One unsafe
  replanning is never forgotten.\<close>

theorem known_free_is_exact:
  assumes planned: "ledger_plan goals l = Inr l0"
    and got: "ledger_get s (run ledger_step cs l0) = Inr g"
  shows "all_plans_known_free g \<longleftrightarrow>
    plans_for s cs \<noteq> [] \<and> (\<forall>p \<in> set (plans_for s cs). p = (0, 0, 0))"
proof -
  obtain i where i: "i < length (led_records l0)" "s = int i + 1"
    "g = led_records (run ledger_step cs l0) ! i"
    using ledger_get_Inr [OF got] by auto
  have start: "plan_evidence (led_records l0 ! i) = (0, 0, 0, 0)"
    using i(1) ledger_plan_records [OF planned]
    by (simp add: plan_evidence_def navigation_goal_evidence_def)
  have "fold add_plan (plans_for s cs) (0, 0, 0, 0) = plan_evidence g"
    using plan_evidence_run [OF i(1), of cs] i start by simp
  from fold_add_plan_free [OF _ _ _ _ plans_for_nonneg this [unfolded plan_evidence_def]]
  show ?thesis by (simp add: all_plans_known_free_def)
qed

text \<open>Terminal goals are frozen. Through every run of ledger calls the goals keep their number,
  identity and position, the recorded cell maxima never shrink, and once a goal is terminal its
  status, its times, its Nav2 codes and its detail never change again.\<close>

lemma terminal_goals_are_frozen:
  assumes got: "ledger_get s l = Inr g"
  shows "\<exists>h. ledger_get s (run ledger_step cs l) = Inr h \<and> goal_evolves g h
    \<and> (status_terminal (ng_status g) \<longrightarrow>
         ledger_is_terminal s (run ledger_step cs l) = Inr True \<and> ng_status h = ng_status g)"
proof -
  obtain i where i: "i < length (led_records l)" "s = int i + 1" "g = led_records l ! i"
    using ledger_get_Inr [OF got] by auto
  have "ledger_get s (run ledger_step cs l) = Inr (led_records (run ledger_step cs l) ! i)"
    using i by (simp add: ledger_get_def)
  moreover have "goal_evolves g (led_records (run ledger_step cs l) ! i)"
    using goal_ledger.run_entry [OF i(1)] i by simp
  ultimately show ?thesis by (auto simp: ledger_is_terminal_def goal_evolves_def)
qed

definition example_ledger :: NavigationGoalLedger where
  "example_ledger = \<lparr>led_mission_sequence = 1,
     led_records = [navigation_goal_evidence 1 (Fin 1, Fin 2), navigation_goal_evidence 2 (Fin 3, Fin 4)]\<rparr>"

definition example_goal_calls :: "ledger_call list" where
  "example_goal_calls = [Transition 1 REQUESTED 5 0 0 '''', RecordPlan 1 0 0 0,
     RecordPlan 1 3 0 0, RecordPlan 1 0 0 0, Transition 1 SUCCEEDED 9 4 0 ''ok'',
     Transition 1 ABORTED 10 6 1 ''late'']"

lemmas ledger_defs = ledger_step_def ledger_transition_def ledger_record_plan_def ledger_index_def
  ledger_get_def Let_def navigation_goal_evidence_def status_terminal_def
  TERMINAL_NAVIGATION_STATUSES_def

theorem known_free_is_exact_witness:
  "ledger_plan [(Fin 1, Fin 2), (Fin 3, Fin 4)] \<lparr>led_mission_sequence = 1, led_records = []\<rparr>
     = Inr example_ledger
   \<and> (\<exists>g. ledger_get 1 (run ledger_step example_goal_calls example_ledger) = Inr g
        \<and> \<not> all_plans_known_free g)"
proof -
  have p: "ledger_plan [(Fin 1, Fin 2), (Fin 3, Fin 4)] \<lparr>led_mission_sequence = 1, led_records = []\<rparr>
     = Inr example_ledger"
    by (simp add: ledger_plan_def example_ledger_def Let_def)
  have "\<exists>g. ledger_get 1 (run ledger_step example_goal_calls example_ledger) = Inr g"
    by (simp add: example_ledger_def ledger_get_def ledger_index_def Let_def)
  then obtain g where g: "ledger_get 1 (run ledger_step example_goal_calls example_ledger) = Inr g"
    by blast
  have "\<not> all_plans_known_free g"
    using known_free_is_exact [OF p g] by (simp add: example_goal_calls_def)
  with p g show ?thesis by blast
qed

section \<open>What the tracker promises\<close>

text \<open>The mapping path stays a finite length, whatever odometry arrives.\<close>

definition path_bounded :: "MappingEvidenceTracker \<Rightarrow> bool" where
  "path_bounded t \<longleftrightarrow> (\<exists>r. mt_mapping_path_m t = Fin r \<and> 0 \<le> r
     \<and> r \<le> 0.5 * real_of_int (mt_odom_generation t)) \<and> 0 \<le> mt_odom_generation t"

lemma flt_between_fin: "Fin a \<le> x \<Longrightarrow> x \<le> Fin b \<Longrightarrow> \<exists>r. x = Fin r \<and> a \<le> r \<and> r \<le> b"
  by (cases x) auto

lemma record_odom_path:
  "mt_odom_generation (record_odom x y t) = mt_odom_generation t + 1"
  "mt_mapping_path_m (record_odom x y t) = mt_mapping_path_m t
   \<or> (mt_record_mapping_path t \<and> (\<exists>r. 0.001 \<le> r \<and> r \<le> 0.5
        \<and> mt_mapping_path_m (record_odom x y t) = mt_mapping_path_m t + Fin r))"
  by (auto simp: record_odom_def Let_def split: option.splits dest!: flt_between_fin)

lemma record_odom_path_bounded: "path_bounded t \<Longrightarrow> path_bounded (record_odom x y t)"
  using record_odom_path(2) [of x y t] by (auto simp: path_bounded_def record_odom_path(1))

lemma evidence_step_path_bounded: "path_bounded t \<Longrightarrow> path_bounded (evidence_step c t)"
  by (cases c) (auto simp: record_odom_path_bounded, auto simp: path_bounded_def record_map_def
      mark_scan_ready_def record_frontier_telemetry_def record_explore_status_def
      begin_mapping_path_def finish_mapping_path_def resume_mapping_path_def reset_exploration_def
      set_completion_reason_def Let_def zero_fin split: prod.splits)

interpretation mapping_path: invariant_system evidence_step path_bounded
  by unfold_locales (rule evidence_step_path_bounded)

text \<open>The mapping path is a real distance. Whatever odometry arrives, not-a-number and infinite
  coordinates included, the recorded mapping path is a finite non-negative length of at most half a
  metre per odometry sample: a simulator reset or a localization jump never enters it. Samples that
  arrive between a pause and the resumption add nothing.\<close>

lemma mapping_path_is_real_distance:
  assumes "evidence_init growth now1 now2 = Inr t0"
  shows "path_bounded (run evidence_step cs t0)
    \<and> mt_mapping_path_m (run evidence_step
         (FinishMappingPath # map (\<lambda>(x, y). RecordOdom x y) samples @ [ResumeMappingPath])
         (run evidence_step cs t0))
       = mt_mapping_path_m (run evidence_step cs t0)"
proof
  have "path_bounded t0"
    using assms by (auto simp: evidence_init_def path_bounded_def zero_fin split: if_splits)
  then show "path_bounded (run evidence_step cs t0)" by (rule mapping_path.run_inv)
  have paused: "mt_mapping_path_m (run evidence_step (map (\<lambda>(x, y). RecordOdom x y) ps) t)
      = mt_mapping_path_m t" if "\<not> mt_record_mapping_path t" for t ps
    using that
    by (induction ps arbitrary: t) (auto simp: record_odom_def Let_def split: prod.splits)
  show "mt_mapping_path_m (run evidence_step
         (FinishMappingPath # map (\<lambda>(x, y). RecordOdom x y) samples @ [ResumeMappingPath])
         (run evidence_step cs t0))
       = mt_mapping_path_m (run evidence_step cs t0)"
    by (simp add: resume_mapping_path_def finish_mapping_path_def paused)
qed

definition example_evidence :: MappingEvidenceTracker where
  "example_evidence =
     \<lparr>mt_min_growth_cells = 5, mt_scan_ready = False, mt_map_stats = None,
      mt_best_known_map_cells = 0, mt_last_map_growth_at = Fin 0,
      mt_last_frontier_activity_at = Fin 0, mt_exploration_completion_reason = '''',
      mt_mapping_path_m = 0, mt_mapping_last_position = None, mt_latest_odom_xy = None,
      mt_odom_generation = 0, mt_record_mapping_path = False, mt_explore_status = '''',
      mt_frontier_telemetry = default_telemetry, mt_frontier_action_totals = zero_totals\<rparr>"

lemma example_evidence_init: "evidence_init 5 (Fin 0) (Fin 0) = Inr example_evidence"
  by (simp add: evidence_init_def example_evidence_def)

text \<open>The last report of every run of the explorer: a reset that keeps the totals ends a run.\<close>

fun last_reports :: "evidence_call list \<Rightarrow> FrontierTelemetry \<Rightarrow> FrontierTelemetry list" where
  "last_reports [] cur = [cur]"
| "last_reports (RecordFrontierTelemetry telemetry _ # cs) cur = last_reports cs telemetry"
| "last_reports (RecordExploreStatus status _ # cs) cur =
     last_reports cs (default_telemetry\<lparr>ft_status := status\<rparr>)"
| "last_reports (ResetExploration _ _ _ # cs) cur = cur # last_reports cs default_telemetry"
| "last_reports (_ # cs) cur = last_reports cs cur"

definition keeps_totals :: "evidence_call \<Rightarrow> bool" where
  "keeps_totals c \<longleftrightarrow> (case c of ResetExploration preserve _ _ \<Rightarrow> preserve | _ \<Rightarrow> True)"

definition valid_report :: "evidence_call \<Rightarrow> bool" where
  "valid_report c \<longleftrightarrow>
     (case c of RecordFrontierTelemetry telemetry _ \<Rightarrow> \<not> is_error (frontier_telemetry telemetry)
      | _ \<Rightarrow> True)"

definition action_counters :: "(FrontierTelemetry \<Rightarrow> int) list" where
  "action_counters = [ft_accepted_goal_count, ft_succeeded_goal_count, ft_aborted_goal_count,
     ft_canceled_goal_count, ft_rejected_goal_count]"

lemmas evidence_step_defs = record_map_def mark_scan_ready_def record_odom_def
  record_frontier_telemetry_def record_explore_status_def begin_mapping_path_def
  finish_mapping_path_def resume_mapping_path_def reset_exploration_def set_completion_reason_def
  Let_def

definition reported_total :: "(FrontierTelemetry \<Rightarrow> int) \<Rightarrow> MappingEvidenceTracker \<Rightarrow> int" where
  "reported_total c t = c (with_totals (mt_frontier_action_totals t) (mt_frontier_telemetry t))"

lemma action_counter_laws:
  assumes "c \<in> set action_counters"
  shows "c default_telemetry = 0" "c (default_telemetry\<lparr>ft_status := s\<rparr>) = 0"
    "c (with_totals (add_totals cur a) default_telemetry) = c (with_totals a cur)"
    "c (with_totals a new) = c (with_totals a cur) - c cur + c new"
  using assms
  by (auto simp: action_counters_def default_telemetry_def add_totals_def with_totals_def)

lemma evidence_step_other:
  assumes "\<forall>telemetry now. call \<noteq> RecordFrontierTelemetry telemetry now"
    "\<forall>status now. call \<noteq> RecordExploreStatus status now"
    "\<forall>preserve now1 now2. call \<noteq> ResetExploration preserve now1 now2"
  shows "mt_frontier_telemetry (evidence_step call t) = mt_frontier_telemetry t"
    "mt_frontier_action_totals (evidence_step call t) = mt_frontier_action_totals t"
    "last_reports (call # cs) cur = last_reports cs cur"
  using assms by (cases call; simp add: evidence_step_defs split: prod.splits option.splits)+

lemma reported_total_run:
  assumes "c \<in> set action_counters" "list_all keeps_totals cs"
  shows "reported_total c (run evidence_step cs t)
    = reported_total c t - c (mt_frontier_telemetry t)
      + (\<Sum>r \<leftarrow> last_reports cs (mt_frontier_telemetry t). c r)"
  using assms(2)
proof (induction cs arbitrary: t)
  case Nil
  then show ?case by simp
next
  case (Cons call cs)
  have IH: "reported_total c (run evidence_step cs (evidence_step call t))
    = reported_total c (evidence_step call t) - c (mt_frontier_telemetry (evidence_step call t))
      + (\<Sum>r \<leftarrow> last_reports cs (mt_frontier_telemetry (evidence_step call t)). c r)"
    using Cons by simp
  note laws = action_counter_laws [OF assms(1)]
  consider (tel) telemetry now where "call = RecordFrontierTelemetry telemetry now"
    | (status) status now where "call = RecordExploreStatus status now"
    | (reset) preserve now1 now2 where "call = ResetExploration preserve now1 now2"
    | (other) "\<forall>telemetry now. call \<noteq> RecordFrontierTelemetry telemetry now"
        "\<forall>status now. call \<noteq> RecordExploreStatus status now"
        "\<forall>preserve now1 now2. call \<noteq> ResetExploration preserve now1 now2"
    by (cases call) auto
  then show ?case
  proof cases
    case tel
    then show ?thesis
      using IH laws(4) [of "mt_frontier_action_totals t" telemetry "mt_frontier_telemetry t"]
      by (simp add: reported_total_def record_frontier_telemetry_def Let_def)
  next
    case status
    then show ?thesis
      using IH laws(4) [of "mt_frontier_action_totals t" "default_telemetry\<lparr>ft_status := status\<rparr>"
          "mt_frontier_telemetry t"]
      by (simp add: reported_total_def record_explore_status_def record_frontier_telemetry_def Let_def)
  next
    case reset
    then have preserve using Cons.prems by (simp add: keeps_totals_def)
    then show ?thesis
      using IH reset laws(1,3) by (simp add: reported_total_def reset_exploration_def)
  next
    case other
    note other' = evidence_step_other [OF other]
    show ?thesis using IH by (simp add: reported_total_def other')
  qed
qed

definition tracker_counts_ok :: "MappingEvidenceTracker \<Rightarrow> bool" where
  "tracker_counts_ok t \<longleftrightarrow> list_all (\<lambda>v. 0 \<le> v) (telemetry_counters (mt_frontier_telemetry t))
     \<and> (let a = mt_frontier_action_totals t in 0 \<le> tot_accepted_goal_count a
        \<and> 0 \<le> tot_succeeded_goal_count a \<and> 0 \<le> tot_aborted_goal_count a
        \<and> 0 \<le> tot_canceled_goal_count a \<and> 0 \<le> tot_rejected_goal_count a)"

lemma evidence_step_counts_ok:
  assumes "tracker_counts_ok t" "valid_report call"
  shows "tracker_counts_ok (evidence_step call t)"
  using assms
  by (cases call) (auto simp: tracker_counts_ok_def evidence_step_defs telemetry_counters_def
      default_telemetry_def add_totals_def zero_totals_def valid_report_def frontier_telemetry_def
      split: prod.splits option.splits if_splits)

lemma evidence_run_counts_ok:
  "tracker_counts_ok t \<Longrightarrow> list_all valid_report cs \<Longrightarrow> tracker_counts_ok (run evidence_step cs t)"
  by (induction cs arbitrary: t) (auto intro: evidence_step_counts_ok)

lemma counts_ok_snapshot:
  "tracker_counts_ok t \<Longrightarrow> \<exists>snap. evidence_snapshot t = Inr snap
     \<and> me_frontier_telemetry snap
         = with_totals (mt_frontier_action_totals t) (mt_frontier_telemetry t)"
  by (auto simp: tracker_counts_ok_def evidence_snapshot_def frontier_telemetry_def
      telemetry_counters_def with_totals_def Let_def)

text \<open>Goal counts survive explorer restarts. The explorer restarts with zeroed counters at each
  recovery. As long as no reset drops the totals, the snapshot succeeds and each of its five goal
  counters is the sum of the counter in the last report of every explorer run, whatever other
  observations arrive in between.\<close>

lemma goal_counts_survive_restarts:
  assumes "evidence_init growth now1 now2 = Inr t0" "list_all keeps_totals cs"
    "list_all valid_report cs" "counter \<in> set action_counters"
  shows "\<exists>snap. evidence_snapshot (run evidence_step cs t0) = Inr snap
    \<and> counter (me_frontier_telemetry snap)
       = (\<Sum>r \<leftarrow> last_reports cs default_telemetry. counter r)"
proof -
  have t0: "mt_frontier_telemetry t0 = default_telemetry" "tracker_counts_ok t0"
    "reported_total counter t0 = 0"
    using assms(1,4)
    by (auto simp: evidence_init_def tracker_counts_ok_def telemetry_counters_def
        default_telemetry_def zero_totals_def reported_total_def with_totals_def
        action_counters_def split: if_splits)
  have "reported_total counter (run evidence_step cs t0)
      = (\<Sum>r \<leftarrow> last_reports cs default_telemetry. counter r)"
    using reported_total_run [OF assms(4,2), of t0] t0 action_counter_laws(1) [OF assms(4)] by simp
  then show ?thesis
    using counts_ok_snapshot [OF evidence_run_counts_ok [OF t0(2) assms(3)]]
    by (auto simp: reported_total_def)
qed

end
