(* ===== verification/Unicode_Text.thy ===== *)
theory Unicode_Text
  imports Prelude
begin

text \<open>
  Texts as lists of Unicode code points, since the phrases of the program are Chinese, and what the
  code uses of \<open>str\<close>: white space, \<open>strip\<close>, \<open>lower\<close>, \<open>startswith\<close>, \<open>in\<close> and \<open>find\<close>.
\<close>

type_synonym ustr = "nat list"

text \<open>White space, as \<open>str.strip\<close> removes it and \<open>\s\<close> matches it.\<close>

definition is_uspace :: "nat \<Rightarrow> bool" where
  "is_uspace c \<longleftrightarrow> (0x09 \<le> c \<and> c \<le> 0x0D) \<or> (0x1C \<le> c \<and> c \<le> 0x20) \<or> c = 0x85 \<or> c = 0xA0
     \<or> c = 0x1680 \<or> (0x2000 \<le> c \<and> c \<le> 0x200A) \<or> c = 0x2028 \<or> c = 0x2029 \<or> c = 0x202F
     \<or> c = 0x205F \<or> c = 0x3000"

text \<open>\<open>str.lower\<close> on the letters A to Z; no phrase of the program holds another cased letter,
  so the other cased letters of Unicode never decide a match.\<close>

definition ulower :: "nat \<Rightarrow> nat" where
  "ulower c = (if 65 \<le> c \<and> c \<le> 90 then c + 32 else c)"

definition ustrip :: "ustr \<Rightarrow> ustr" where
  "ustrip s = rev (dropWhile is_uspace (rev (dropWhile is_uspace s)))"

fun starts_with :: "ustr \<Rightarrow> ustr \<Rightarrow> bool" where
  "starts_with [] t = True"
| "starts_with (c # p) [] = False"
| "starts_with (c # p) (d # t) = (c = d \<and> starts_with p t)"

fun contains :: "ustr \<Rightarrow> ustr \<Rightarrow> bool" where
  "contains p [] = (p = [])"
| "contains p (c # cs) = (starts_with p (c # cs) \<or> contains p cs)"

definition contains_any :: "ustr list \<Rightarrow> ustr \<Rightarrow> bool" where
  "contains_any ps t \<longleftrightarrow> list_ex (\<lambda>p. contains p t) ps"

text \<open>\<open>str.find\<close>; \<open>None\<close> is -1.\<close>

fun find_sub :: "ustr \<Rightarrow> ustr \<Rightarrow> nat option" where
  "find_sub p t =
     (if starts_with p t then Some 0
      else case t of [] \<Rightarrow> None | c # cs \<Rightarrow> map_option Suc (find_sub p cs))"

declare find_sub.simps [simp del]

text \<open>The code points of an ASCII text.\<close>

definition codes :: "string \<Rightarrow> ustr" where
  "codes s = map of_char s"

section \<open>Finding\<close>

lemma ulower_idem [simp]: "ulower (ulower c) = ulower c"
  by (simp add: ulower_def)

lemma starts_with_iff: "starts_with p t \<longleftrightarrow> (\<exists>r. t = p @ r)"
  by (induction p t rule: starts_with.induct) auto

lemma contains_iff: "contains p t \<longleftrightarrow> (\<exists>pre post. t = pre @ p @ post)"
proof (induction t)
  case Nil
  then show ?case by auto
next
  case (Cons c t)
  have "(\<exists>pre post. c # t = pre @ p @ post) \<longleftrightarrow>
      (\<exists>post. c # t = p @ post) \<or> (\<exists>pre post. t = pre @ p @ post)"
    by (metis (no_types, lifting) append_Cons append_Nil list.inject neq_Nil_conv)
  with Cons.IH show ?case by (simp add: starts_with_iff)
qed

lemma find_sub_Some:
  "find_sub p t = Some i \<Longrightarrow> (\<exists>r. t = take i t @ p @ r) \<and> i \<le> length t \<and>
     (\<forall>j < i. \<not> starts_with p (drop j t))"
proof (induction p t arbitrary: i rule: find_sub.induct)
  case (1 p t)
  show ?case
  proof (cases "starts_with p t")
    case True
    then have "i = 0" using "1.prems" by (simp add: find_sub.simps [of p t])
    then show ?thesis using True by (auto simp: starts_with_iff)
  next
    case False
    then obtain c cs k where t: "t = c # cs" "find_sub p cs = Some k" "i = Suc k"
      using "1.prems" by (auto simp: find_sub.simps [of p t] split: list.splits)
    have ih: "(\<exists>r. cs = take k cs @ p @ r) \<and> k \<le> length cs \<and> (\<forall>j < k. \<not> starts_with p (drop j cs))"
      using "1.IH" [OF False t(1) t(2)] .
    have "\<not> starts_with p (drop j t)" if "j < i" for j
      using that False ih t by (cases j) auto
    then show ?thesis using ih t by auto
  qed
qed

lemma all_le_Suc: "(\<forall>j \<le> Suc n. P j) \<longleftrightarrow> P 0 \<and> (\<forall>j \<le> n. P (Suc j))"
  by (auto, case_tac j) auto

lemma find_sub_None: "find_sub p t = None \<longleftrightarrow> (\<forall>j \<le> length t. \<not> starts_with p (drop j t))"
proof (induction p t rule: find_sub.induct)
  case (1 p t)
  show ?case
  proof (cases "starts_with p t")
    case True
    then show ?thesis by (auto simp: find_sub.simps [of p t] intro!: exI [of _ 0])
  next
    case False
    show ?thesis
    proof (cases t)
      case Nil
      then show ?thesis using False by (simp add: find_sub.simps [of p "[]"])
    next
      case (Cons c cs)
      have "find_sub p t = None \<longleftrightarrow> find_sub p cs = None"
        using False Cons by (simp add: find_sub.simps [of p "c # cs"])
      also have "\<dots> \<longleftrightarrow> (\<forall>j \<le> length cs. \<not> starts_with p (drop j cs))" using "1.IH" [OF False Cons] .
      also have "\<dots> \<longleftrightarrow> (\<forall>j \<le> length t. \<not> starts_with p (drop j t))"
        using False Cons all_le_Suc [of "length cs" "\<lambda>j. \<not> starts_with p (drop j t)"] by simp
      finally show ?thesis .
    qed
  qed
qed

text \<open>The position found is the first one.\<close>

lemma find_sub_eqI:
  assumes "starts_with p (drop i t)" "i \<le> length t" "\<And>j. j < i \<Longrightarrow> \<not> starts_with p (drop j t)"
  shows "find_sub p t = Some i"
proof (cases "find_sub p t")
  case None
  then show ?thesis using assms(1,2) by (auto simp: find_sub_None)
next
  case (Some k)
  then have k: "\<exists>r. t = take k t @ p @ r" "k \<le> length t" "\<forall>j < k. \<not> starts_with p (drop j t)"
    using find_sub_Some by blast+
  then have "drop k t = p @ r \<Longrightarrow> starts_with p (drop k t)" for r by (auto simp: starts_with_iff)
  moreover have "\<exists>r. drop k t = p @ r" using k(1,2) by (metis append_eq_conv_conj append_take_drop_id)
  ultimately have "starts_with p (drop k t)" by blast
  then show ?thesis using Some assms k(3) by (metis linorder_neqE_nat)
qed

end
