(* ===== verification/Showcase_Session.thy ===== *)
theory Showcase_Session
  imports Unicode_Text
begin

text \<open>
  \<open>showcase_session.py\<close>: the phases of a mapping session, which commands a phase admits, the
  parser for spoken system commands and the rule that ends an exploration in a known world. Texts
  are lists of Unicode code points, since the phrases are Chinese.
\<close>

section \<open>Data\<close>

datatype SessionCommand =
    SAVE_MAP | START_NAVIGATION | SAVE_AND_START_NAVIGATION | STOP_SESSION | RUN_AUTOMATIC_MISSION

datatype SessionPhase =
    STOPPED | STARTING_MAPPING | MAPPING | SAVING_MAP | MAP_SAVED | SWITCHING_TO_NAVIGATION
  | STARTING_NAVIGATION | NAVIGATING | FAILED | STOPPING | AUTOMATIC_MAPPING
  | AUTOMATIC_NAVIGATING | MISSION_COMPLETED | QUIESCING

record SessionSnapshot =
  sess_phase :: SessionPhase
  sess_map_saved :: bool
  sess_map_yaml_path :: string
  sess_detail :: string

section \<open>Spoken commands\<close>

text \<open>White space and the punctuation the pattern names.\<close>

definition is_separator :: "nat \<Rightarrow> bool" where
  "is_separator c \<longleftrightarrow> is_uspace c \<or> c \<in> set [0xFF0C, 0x3002, 0xFF01, 0xFF1F, 0x0021, 0x003F,
     0x3001, 0x002C, 0xFF1B, 0x003B, 0xFF1A, 0x003A]"

definition normalize_session_text :: "ustr \<Rightarrow> ustr" where
  "normalize_session_text t = map ulower (filter (\<lambda>c. \<not> is_separator c) t)"

definition TRUNCATED_AUTOMATIC_MISSION_FINALS :: "ustr set" where
  "TRUNCATED_AUTOMATIC_MISSION_FINALS = {[0x5F00, 0x59CB, 0x81EA, 0x52A8]}"

definition CANCEL_PHRASES :: "ustr list" where
  "CANCEL_PHRASES = [
     [0x505C, 0x4E0B],
     [0x6025, 0x505C],
     [0x505C, 0x6B62, 0x81EA, 0x52A8, 0x4EFB, 0x52A1],
     [0x53D6, 0x6D88, 0x81EA, 0x52A8, 0x4EFB, 0x52A1]]"

definition AUTOMATIC_MISSION_PHRASES :: "ustr list" where
  "AUTOMATIC_MISSION_PHRASES = [
     [0x5F00, 0x59CB, 0x81EA, 0x52A8, 0x5DE1, 0x68C0, 0x5EFA, 0x56FE],
     [0x5F00, 0x59CB, 0x81EA, 0x52A8, 0x5EFA, 0x56FE],
     [0x81EA, 0x52A8, 0x5EFA, 0x56FE, 0x5E76, 0x5BFC, 0x822A],
     [0x81EA, 0x52A8, 0x5DE1, 0x68C0, 0x5EFA, 0x56FE],
     [0x5F00, 0x59CB, 0x81EA, 0x4E3B, 0x5EFA, 0x56FE]]"

definition SAVE_AND_NAVIGATE_PHRASES :: "ustr list" where
  "SAVE_AND_NAVIGATE_PHRASES = [
     [0x4FDD, 0x5B58, 0x5730, 0x56FE, 0x5E76, 0x5F00, 0x59CB, 0x5BFC, 0x822A],
     [0x4FDD, 0x5B58, 0x5730, 0x56FE, 0x7136, 0x540E, 0x5F00, 0x59CB, 0x5BFC, 0x822A],
     [0x4FDD, 0x5B58, 0x5E76, 0x5F00, 0x59CB, 0x5BFC, 0x822A],
     [0x5B58, 0x56FE, 0x5E76, 0x5F00, 0x59CB, 0x5BFC, 0x822A]]"

definition NAVIGATION_PHRASES :: "ustr list" where
  "NAVIGATION_PHRASES = [
     [0x5F00, 0x59CB, 0x5BFC, 0x822A],
     [0x8FDB, 0x5165, 0x5BFC, 0x822A, 0x6A21, 0x5F0F],
     [0x5207, 0x6362, 0x5230, 0x5BFC, 0x822A],
     [0x5207, 0x6362, 0x5BFC, 0x822A, 0x6A21, 0x5F0F]]"

definition SAVE_MAP_PHRASES :: "ustr list" where
  "SAVE_MAP_PHRASES = [
     [0x4FDD, 0x5B58, 0x5730, 0x56FE],
     [0x4FDD, 0x5B58, 0x5F53, 0x524D, 0x5730, 0x56FE],
     [0x5B58, 0x56FE]]"

definition STOP_SESSION_PHRASES :: "ustr list" where
  "STOP_SESSION_PHRASES = [
     [0x7ED3, 0x675F, 0x5EFA, 0x56FE, 0x6F14, 0x793A],
     [0x9000, 0x51FA, 0x5EFA, 0x56FE, 0x6F14, 0x793A],
     [0x505C, 0x6B62, 0x5EFA, 0x56FE, 0x4F1A, 0x8BDD],
     [0x505C, 0x6B62, 0x81EA, 0x52A8, 0x4EFB, 0x52A1],
     [0x53D6, 0x6D88, 0x81EA, 0x52A8, 0x4EFB, 0x52A1]]"

definition is_truncated_automatic_mission_text :: "ustr \<Rightarrow> bool" where
  "is_truncated_automatic_mission_text t \<longleftrightarrow>
     normalize_session_text t \<in> TRUNCATED_AUTOMATIC_MISSION_FINALS"

definition is_automatic_mission_cancel_text :: "ustr \<Rightarrow> bool" where
  "is_automatic_mission_cancel_text t \<longleftrightarrow> contains_any CANCEL_PHRASES (normalize_session_text t)"

definition parse_session_command :: "ustr \<Rightarrow> SessionCommand option" where
  "parse_session_command t =
     (let normalized = normalize_session_text t
      in if is_truncated_automatic_mission_text normalized
            \<or> contains_any AUTOMATIC_MISSION_PHRASES normalized
         then Some RUN_AUTOMATIC_MISSION
         else if contains_any SAVE_AND_NAVIGATE_PHRASES normalized
         then Some SAVE_AND_START_NAVIGATION
         else if contains_any NAVIGATION_PHRASES normalized then Some START_NAVIGATION
         else if contains_any SAVE_MAP_PHRASES normalized then Some SAVE_MAP
         else if contains_any STOP_SESSION_PHRASES normalized then Some STOP_SESSION
         else None)"

section \<open>Bootstrap route\<close>

text \<open>A YAML value: a scalar with the text \<open>str\<close> gives for it, a list or a mapping. The text of
  a list or a mapping is the argument \<open>text_of\<close>.\<close>

datatype yaml = YScalar ustr | YList "yaml list" | YMap "(string \<times> yaml) list"

fun yaml_str :: "(yaml \<Rightarrow> ustr) \<Rightarrow> yaml \<Rightarrow> ustr" where
  "yaml_str text_of (YScalar t) = t"
| "yaml_str text_of v = text_of v"

definition yaml_get :: "(string \<times> yaml) list \<Rightarrow> string \<Rightarrow> yaml \<Rightarrow> yaml" where
  "yaml_get m k d = (case map_of m k of None \<Rightarrow> d | Some v \<Rightarrow> v)"

definition U_MOVE :: ustr where "U_MOVE = [109, 111, 118, 101]"
definition U_TURN :: ustr where "U_TURN = [116, 117, 114, 110]"

fun parse_route_steps ::
  "(yaml \<Rightarrow> ustr) \<Rightarrow> int \<Rightarrow> yaml list \<Rightarrow> (ustr \<times> ustr \<times> ustr) list result" where
  "parse_route_steps text_of i [] = Inr []"
| "parse_route_steps text_of i (YMap m # rest) =
     (let text = ustrip (yaml_str text_of (yaml_get m ''text'' (YScalar [])));
          action = ustrip (yaml_str text_of (yaml_get m ''action'' (YScalar [])));
          label = ustrip (yaml_str text_of (yaml_get m ''label'' (YScalar text)))
      in if text = [] \<or> label = []
         then Inl (ValueError (''bootstrap_route['' @ show_int i @ ''] requires label/text''))
         else if action \<notin> {U_MOVE, U_TURN}
         then Inl (ValueError (''bootstrap_route['' @ show_int i @ ''].action must be move/turn''))
         else (case parse_route_steps text_of (i + 1) rest of
             Inl e \<Rightarrow> Inl e
           | Inr route \<Rightarrow> Inr ((label, text, action) # route)))"
| "parse_route_steps text_of i (_ # rest) =
     Inl (ValueError (''bootstrap_route['' @ show_int i @ ''] must be a mapping''))"

definition parse_mapping_bootstrap_route ::
  "(yaml \<Rightarrow> ustr) \<Rightarrow> (string \<times> yaml) list \<Rightarrow> (ustr \<times> ustr \<times> ustr) list result" where
  "parse_mapping_bootstrap_route text_of config =
     (case yaml_get config ''bootstrap_route'' (YList []) of
        YList steps \<Rightarrow> parse_route_steps text_of 0 steps
      | _ \<Rightarrow> Inl (ValueError ''automatic_exploration.bootstrap_route must be a list''))"

section \<open>End of a known-world exploration\<close>

record CompletionInput =
  ci_status :: string
  ci_completion_status :: string
  ci_elapsed_s :: pyfloat
  ci_min_runtime_s :: pyfloat
  ci_known_cells :: int
  ci_occupied_cells :: int
  ci_min_known_cells :: int
  ci_min_occupied_cells :: int
  ci_mapping_path_m :: pyfloat
  ci_min_mapping_path_m :: pyfloat
  ci_seconds_since_map_growth :: pyfloat
  ci_stable_map_s :: pyfloat
  ci_time_budget_reached :: bool

definition exploration_completion_reason :: "CompletionInput \<Rightarrow> string option" where
  "exploration_completion_reason i =
     (if ci_elapsed_s i < ci_min_runtime_s i then None
      else
        let acceptance_ready = ci_known_cells i \<ge> ci_min_known_cells i
              \<and> ci_occupied_cells i \<ge> ci_min_occupied_cells i
              \<and> ci_mapping_path_m i \<ge> ci_min_mapping_path_m i
        in if ci_status i = ci_completion_status i \<and> acceptance_ready then Some ''no_frontiers''
           else if acceptance_ready \<and> ci_seconds_since_map_growth i \<ge> ci_stable_map_s i
           then Some ''coverage_plateau''
           else if acceptance_ready \<and> ci_time_budget_reached i then Some ''time_budget_coverage''
           else None)"

section \<open>Phases\<close>

definition session_init :: SessionSnapshot where
  "session_init = \<lparr>sess_phase = STOPPED, sess_map_saved = False, sess_map_yaml_path = [],
     sess_detail = []\<rparr>"

definition transition ::
  "SessionPhase \<Rightarrow> string \<Rightarrow> bool option \<Rightarrow> string option \<Rightarrow> SessionSnapshot \<Rightarrow> SessionSnapshot" where
  "transition phase detail map_saved map_yaml_path previous =
     \<lparr>sess_phase = phase,
      sess_map_saved = (case map_saved of None \<Rightarrow> sess_map_saved previous | Some b \<Rightarrow> b),
      sess_map_yaml_path =
        (case map_yaml_path of None \<Rightarrow> sess_map_yaml_path previous | Some p \<Rightarrow> p),
      sess_detail = detail\<rparr>"

fun phase_name :: "SessionPhase \<Rightarrow> string" where
  "phase_name STOPPED = ''stopped''"
| "phase_name STARTING_MAPPING = ''starting_mapping''"
| "phase_name MAPPING = ''mapping''"
| "phase_name SAVING_MAP = ''saving_map''"
| "phase_name MAP_SAVED = ''map_saved''"
| "phase_name SWITCHING_TO_NAVIGATION = ''switching_to_navigation''"
| "phase_name STARTING_NAVIGATION = ''starting_navigation''"
| "phase_name NAVIGATING = ''navigating''"
| "phase_name FAILED = ''failed''"
| "phase_name STOPPING = ''stopping''"
| "phase_name AUTOMATIC_MAPPING = ''automatic_mapping''"
| "phase_name AUTOMATIC_NAVIGATING = ''automatic_navigating''"
| "phase_name MISSION_COMPLETED = ''mission_completed''"
| "phase_name QUIESCING = ''quiescing''"

definition busy_phases :: "SessionPhase set" where
  "busy_phases = {STARTING_MAPPING, SAVING_MAP, SWITCHING_TO_NAVIGATION, STARTING_NAVIGATION,
     STOPPING, AUTOMATIC_MAPPING, AUTOMATIC_NAVIGATING, QUIESCING}"

definition validate :: "SessionCommand \<Rightarrow> SessionSnapshot \<Rightarrow> bool \<times> string" where
  "validate command snap =
     (let phase = sess_phase snap
      in if phase \<in> busy_phases then (False, ''session busy in phase='' @ phase_name phase)
         else if command = RUN_AUTOMATIC_MISSION \<and> phase \<noteq> MAPPING
         then (False, ''automatic mission can only start while mapping is ready'')
         else if command \<in> {SAVE_MAP, SAVE_AND_START_NAVIGATION} \<and> phase \<notin> {MAPPING, MAP_SAVED}
         then (False, ''map can only be saved while mapping is active'')
         else if command = START_NAVIGATION \<and> phase \<in> {NAVIGATING, MISSION_COMPLETED}
         then (True, ''navigation already active'')
         else if command = START_NAVIGATION \<and> (phase \<noteq> MAP_SAVED \<or> \<not> sess_map_saved snap)
         then (False, ''save the map before starting navigation'')
         else if command = STOP_SESSION \<and> phase = STOPPED then (True, ''session already stopped'')
         else (True, ''accepted''))"

text \<open>What the action guard can audit about a route entry.\<close>

fun auditable :: "ustr \<times> ustr \<times> ustr \<Rightarrow> bool" where
  "auditable (label, text, action) \<longleftrightarrow> label \<noteq> [] \<and> text \<noteq> [] \<and> action \<in> {U_MOVE, U_TURN}"

section \<open>Lemmas\<close>

lemma ulower_separator [simp]: "is_separator (ulower c) \<longleftrightarrow> is_separator c"
  by (auto simp: ulower_def is_separator_def is_uspace_def)

lemma normalize_idem [simp]: "normalize_session_text (normalize_session_text t) = normalize_session_text t"
  by (simp add: normalize_session_text_def filter_map comp_def)

lemma normalize_filter [simp]:
  "normalize_session_text (filter (\<lambda>c. \<not> is_separator c) t) = normalize_session_text t"
  by (simp add: normalize_session_text_def)

lemma parse_route_steps_sound:
  "parse_route_steps text_of i steps = Inr route \<Longrightarrow>
     length route = length steps \<and> list_all auditable route"
  by (induction text_of i steps arbitrary: route rule: parse_route_steps.induct)
    (auto simp: Let_def split: if_splits sum.splits)

lemmas parse_evaluation = parse_session_command_def is_automatic_mission_cancel_text_def
  normalize_session_text_def is_truncated_automatic_mission_text_def contains_any_def
  is_separator_def is_uspace_def ulower_def TRUNCATED_AUTOMATIC_MISSION_FINALS_def
  CANCEL_PHRASES_def AUTOMATIC_MISSION_PHRASES_def SAVE_AND_NAVIGATE_PHRASES_def
  NAVIGATION_PHRASES_def SAVE_MAP_PHRASES_def STOP_SESSION_PHRASES_def

section \<open>Properties\<close>

text \<open>Which commands a phase admits: no command in a phase where the session is already moving
  or switching; an automatic mission only while mapping; a map is saved only while mapping or after
  saving; navigation starts only from a saved map, or is already active; the session can be stopped
  in every other phase.\<close>

lemma validate_admits:
  "fst (validate command snap) \<longleftrightarrow>
     sess_phase snap \<notin> busy_phases
     \<and> (case command of
          RUN_AUTOMATIC_MISSION \<Rightarrow> sess_phase snap = MAPPING
        | SAVE_MAP \<Rightarrow> sess_phase snap \<in> {MAPPING, MAP_SAVED}
        | SAVE_AND_START_NAVIGATION \<Rightarrow> sess_phase snap \<in> {MAPPING, MAP_SAVED}
        | START_NAVIGATION \<Rightarrow> sess_phase snap \<in> {NAVIGATING, MISSION_COMPLETED}
            \<or> (sess_phase snap = MAP_SAVED \<and> sess_map_saved snap)
        | STOP_SESSION \<Rightarrow> True)"
  by (cases command) (auto simp: validate_def Let_def)

text \<open>Separators do not matter to the command parser: white space and punctuation inserted
  anywhere in an utterance change neither the command nor the cancel decision; a recognised command
  always comes from a listed phrase that occurs in the normalised text (or the one known truncated
  text).\<close>

lemma parse_session_command_sound:
  "parse_session_command (filter (\<lambda>c. \<not> is_separator c) t) = parse_session_command t
   \<and> is_automatic_mission_cancel_text (filter (\<lambda>c. \<not> is_separator c) t)
       = is_automatic_mission_cancel_text t
   \<and> (\<forall>c. parse_session_command t = Some c \<longrightarrow>
        normalize_session_text t \<in> TRUNCATED_AUTOMATIC_MISSION_FINALS
        \<or> (\<exists>phrase pre post. normalize_session_text t = pre @ phrase @ post
             \<and> phrase \<in> set (case c of
                   RUN_AUTOMATIC_MISSION \<Rightarrow> AUTOMATIC_MISSION_PHRASES
                 | SAVE_AND_START_NAVIGATION \<Rightarrow> SAVE_AND_NAVIGATE_PHRASES
                 | START_NAVIGATION \<Rightarrow> NAVIGATION_PHRASES
                 | SAVE_MAP \<Rightarrow> SAVE_MAP_PHRASES
                 | STOP_SESSION \<Rightarrow> STOP_SESSION_PHRASES)))"
proof (intro conjI allI impI)
  show "parse_session_command (filter (\<lambda>c. \<not> is_separator c) t) = parse_session_command t"
    by (simp add: parse_session_command_def)
  show "is_automatic_mission_cancel_text (filter (\<lambda>c. \<not> is_separator c) t)
      = is_automatic_mission_cancel_text t"
    by (simp add: is_automatic_mission_cancel_text_def)
next
  fix c assume "parse_session_command t = Some c"
  then show "normalize_session_text t \<in> TRUNCATED_AUTOMATIC_MISSION_FINALS
        \<or> (\<exists>phrase pre post. normalize_session_text t = pre @ phrase @ post
             \<and> phrase \<in> set (case c of
                   RUN_AUTOMATIC_MISSION \<Rightarrow> AUTOMATIC_MISSION_PHRASES
                 | SAVE_AND_START_NAVIGATION \<Rightarrow> SAVE_AND_NAVIGATE_PHRASES
                 | START_NAVIGATION \<Rightarrow> NAVIGATION_PHRASES
                 | SAVE_MAP \<Rightarrow> SAVE_MAP_PHRASES
                 | STOP_SESSION \<Rightarrow> STOP_SESSION_PHRASES))"
    by (auto simp: parse_session_command_def Let_def is_truncated_automatic_mission_text_def
        contains_any_def list_ex_iff contains_iff split: if_splits)
qed


text \<open>A bootstrap route that parses holds one entry per configured step, each with a non-empty
  label and text and with an action that the guard can audit, move or turn.\<close>

lemma bootstrap_route_audited:
  assumes "parse_mapping_bootstrap_route text_of config = Inr route"
  shows "(\<exists>steps. yaml_get config ''bootstrap_route'' (YList []) = YList steps
            \<and> length route = length steps)
     \<and> list_all auditable route"
  using assms parse_route_steps_sound
  by (fastforce simp: parse_mapping_bootstrap_route_def split: yaml.splits)


text \<open>An exploration of a known world ends only after the minimum run time and with the required
  known cells, occupied cells and mapping path.\<close>

lemma completion_needs_coverage:
  assumes "exploration_completion_reason i = Some reason"
  shows "\<not> ci_elapsed_s i < ci_min_runtime_s i
     \<and> ci_min_known_cells i \<le> ci_known_cells i
     \<and> ci_min_occupied_cells i \<le> ci_occupied_cells i
     \<and> ci_min_mapping_path_m i \<le> ci_mapping_path_m i
     \<and> (ci_status i = ci_completion_status i
        \<or> ci_stable_map_s i \<le> ci_seconds_since_map_growth i \<or> ci_time_budget_reached i)"
  using assms by (auto simp: exploration_completion_reason_def Let_def split: if_splits)

end
