(* ===== verification/Frontier_Monitor.thy ===== *)
theory Frontier_Monitor
  imports Mapping_Evidence Showcase_Session
begin

text \<open>
  The exploration policy of \<open>frontier_monitor.py\<close>: the decision table \<open>decide_exploration\<close>, the
  reasons of the known-world and unknown-world modes and the waiting loop. One pass of the loop is
  a \<open>poll\<close>: the clock readings, the cancel flag, the evidence snapshot and the explorer health that
  the pass reads. The poll whose clock has reached the deadline supplies the readings of the final
  evaluation. The result pairs the effects of the monitor with its return value or exception;
  \<open>None\<close> is a loop that is still waiting when the polls end.
\<close>

section \<open>The decision table\<close>

datatype ExplorationDecision = EX_CONTINUE | EX_RECOVER | EX_COMPLETE | EX_FAIL

record ExplorationObservation =
  eo_native_completion_reported :: bool
  eo_reachable_frontier_count :: int
  eo_active_goal_count :: int
  eo_blacklisted_frontier_count :: int
  eo_plateau_detected :: bool
  eo_time_budget_reached :: bool
  eo_recovery_attempts_remaining :: int
  eo_map_quiet_s :: pyfloat
  eo_required_quiet_s :: pyfloat
  eo_frontier_idle_s :: pyfloat
  eo_required_frontier_idle_s :: pyfloat

definition decide_exploration :: "ExplorationObservation \<Rightarrow> ExplorationDecision result" where
  "decide_exploration ob =
     (if list_ex (\<lambda>value. value < 0)
           [eo_reachable_frontier_count ob, eo_active_goal_count ob,
            eo_blacklisted_frontier_count ob, eo_recovery_attempts_remaining ob]
      then Inl (ValueError ''exploration counters must be non-negative'')
      else if list_ex (\<lambda>value. \<not> isfinite value \<or> value < 0)
           [eo_map_quiet_s ob, eo_required_quiet_s ob, eo_frontier_idle_s ob,
            eo_required_frontier_idle_s ob]
      then Inl (ValueError ''exploration quiet windows must be non-negative'')
      else if eo_active_goal_count ob > 0
      then Inr (if eo_time_budget_reached ob then EX_FAIL else EX_CONTINUE)
      else if eo_reachable_frontier_count ob > 0 then
        (if eo_time_budget_reached ob then Inr EX_FAIL
         else if eo_plateau_detected ob
              \<and> eo_frontier_idle_s ob \<ge> eo_required_frontier_idle_s ob
         then Inr (if eo_recovery_attempts_remaining ob > 0 then EX_RECOVER else EX_FAIL)
         else Inr EX_CONTINUE)
      else if eo_blacklisted_frontier_count ob > 0 then
        (if eo_frontier_idle_s ob < eo_required_frontier_idle_s ob then Inr EX_CONTINUE
         else Inr (if eo_recovery_attempts_remaining ob > 0 then EX_RECOVER else EX_FAIL))
      else if eo_native_completion_reported ob then
        (if eo_map_quiet_s ob \<ge> eo_required_quiet_s ob then Inr EX_COMPLETE else Inr EX_CONTINUE)
      else if eo_time_budget_reached ob then Inr EX_FAIL
      else if eo_plateau_detected ob
      then Inr (if eo_recovery_attempts_remaining ob > 0 then EX_RECOVER else EX_FAIL)
      else Inr EX_CONTINUE)"

section \<open>Reasons\<close>

record FrontierMonitorConfig =
  fm_timeout_s :: pyfloat
  fm_min_runtime_s :: pyfloat
  fm_stable_map_s :: pyfloat
  fm_completion_status :: string
  fm_min_known_cells :: int
  fm_min_occupied_cells :: int
  fm_min_mapping_path_m :: pyfloat
  fm_frontier_idle_grace_s :: pyfloat
  fm_policy_mode :: string
  fm_status_available :: bool
  fm_dry_run :: bool
  fm_dry_run_delay_s :: pyfloat

definition frontier_monitor_config :: "FrontierMonitorConfig \<Rightarrow> FrontierMonitorConfig result" where
  "frontier_monitor_config c =
     (if \<not> isfinite (fm_frontier_idle_grace_s c) \<or> fm_frontier_idle_grace_s c < 0
      then Inl (ValueError ''frontier_idle_grace_s must be finite and non-negative'')
      else Inr c)"

definition stats_known :: "MappingEvidenceSnapshot \<Rightarrow> int" where
  "stats_known snap = (case me_map_stats snap of None \<Rightarrow> 0 | Some st \<Rightarrow> ms_known_cells st)"

definition stats_occupied :: "MappingEvidenceSnapshot \<Rightarrow> int" where
  "stats_occupied snap = (case me_map_stats snap of None \<Rightarrow> 0 | Some st \<Rightarrow> ms_occupied_cells st)"

definition reject_premature_explorer_completion ::
  "FrontierMonitorConfig \<Rightarrow> MappingEvidenceSnapshot \<Rightarrow> pyfloat \<Rightarrow> unit result" where
  "reject_premature_explorer_completion c snap elapsed_s =
     (if me_explore_status snap \<noteq> fm_completion_status c \<or> elapsed_s < fm_min_runtime_s c
      then Inr ()
      else if stats_known snap < fm_min_known_cells c
      then Inl (RuntimeError ''frontier exploration ended before known-cell threshold'')
      else if stats_occupied snap < fm_min_occupied_cells c
      then Inl (RuntimeError ''frontier exploration ended before occupied-cell threshold'')
      else if me_mapping_path_m snap < fm_min_mapping_path_m c
      then Inl (RuntimeError
             (''frontier exploration ended before mapping-path threshold (''
              @ show_fixed 2 (me_mapping_path_m snap) @ ''m < ''
              @ show_fixed 2 (fm_min_mapping_path_m c) @ ''m)''))
      else Inr ())"

definition terminal_count :: "FrontierTelemetry \<Rightarrow> int" where
  "terminal_count t =
     ft_succeeded_goal_count t + ft_aborted_goal_count t + ft_canceled_goal_count t"

definition exploration_observation ::
  "FrontierMonitorConfig \<Rightarrow> MappingEvidenceSnapshot \<Rightarrow> bool \<Rightarrow> int \<Rightarrow> pyfloat \<Rightarrow> pyfloat
     \<Rightarrow> ExplorationObservation" where
  "exploration_observation c snap time_budget_reached recovery_attempts_remaining map_quiet_s now2 =
     (let t = me_frontier_telemetry snap
      in \<lparr>eo_native_completion_reported =
            (ft_status t = fm_completion_status c \<and> ft_completion_reason t = ''no_frontiers''),
          eo_reachable_frontier_count = ft_available_frontier_count t,
          eo_active_goal_count = ft_active_goal_count t,
          eo_blacklisted_frontier_count = ft_blacklisted_frontier_count t,
          eo_plateau_detected = (map_quiet_s \<ge> fm_stable_map_s c),
          eo_time_budget_reached = time_budget_reached,
          eo_recovery_attempts_remaining = recovery_attempts_remaining,
          eo_map_quiet_s = map_quiet_s,
          eo_required_quiet_s = fm_stable_map_s c,
          eo_frontier_idle_s = pymax 0 (now2 - me_last_frontier_activity_at snap),
          eo_required_frontier_idle_s = fm_frontier_idle_grace_s c\<rparr>)"

text \<open>The clock is read at most twice: \<open>now1\<close> for the quiet map, \<open>now2\<close> for the idle frontier.\<close>

definition unknown_world_reason ::
  "FrontierMonitorConfig \<Rightarrow> MappingEvidenceSnapshot \<Rightarrow> pyfloat \<Rightarrow> bool \<Rightarrow> int
     \<Rightarrow> pyfloat \<Rightarrow> pyfloat \<Rightarrow> string option result" where
  "unknown_world_reason c snap elapsed_s time_budget_reached recovery_attempts_remaining now1 now2 =
     (let t = me_frontier_telemetry snap;
          map_quiet_s = pymax 0 (now1 - me_last_map_growth_at snap)
      in
      if ft_status t = ''exploration_blocked''
         \<and> ft_completion_reason t = ''no_clearance_safe_frontier_approach'' then
        (if ft_detected_frontier_count t \<le> 0 \<or> ft_available_frontier_count t \<noteq> 0
            \<or> ft_blacklisted_frontier_count t \<noteq> 0
         then Inl (RuntimeError (''invalid no-clearance telemetry: detected=''
                @ show_int (ft_detected_frontier_count t) @ '' available=''
                @ show_int (ft_available_frontier_count t) @ '' blacklisted=''
                @ show_int (ft_blacklisted_frontier_count t)))
         else if ft_active_goal_count t > 0 then Inr None
         else if ft_accepted_goal_count t \<noteq> terminal_count t
         then Inl (RuntimeError
                (''no-clearance recovery refused: Action ledger is not drained accepted=''
                 @ show_int (ft_accepted_goal_count t) @ '' terminal='' @ show_int (terminal_count t)))
         else Inr (Some ''recovery_required:no_clearance_safe_frontier_approach''))
      else if ft_completion_reason t = ''frontier_attempts_exhausted_recoverable'' then
        (if ft_status t \<noteq> ''exploration_blocked'' \<or> ft_detected_frontier_count t \<le> 0
            \<or> ft_available_frontier_count t \<noteq> 0
            \<or> ft_blacklisted_frontier_count t > ft_detected_frontier_count t
         then Inl (RuntimeError (''invalid attempt-exhaustion telemetry: status='' @ ft_status t
                @ '' detected='' @ show_int (ft_detected_frontier_count t) @ '' available=''
                @ show_int (ft_available_frontier_count t) @ '' blacklisted=''
                @ show_int (ft_blacklisted_frontier_count t)))
         else if ft_active_goal_count t > 0 then Inr None
         else if ft_accepted_goal_count t \<noteq> terminal_count t
         then Inl (RuntimeError
                (''attempt-exhaustion recovery refused: Action ledger is not drained accepted=''
                 @ show_int (ft_accepted_goal_count t) @ '' terminal='' @ show_int (terminal_count t)))
         else if time_budget_reached then Inr (Some ''assessment_required:time_budget'')
         else if map_quiet_s < fm_stable_map_s c then Inr None
         else Inr (Some ''recovery_required:frontier_attempts_exhausted''))
      else if elapsed_s < fm_min_runtime_s c then Inr None
      else if ft_status t = ''exploration_blocked''
         \<and> ft_completion_reason t = ''frontier_progress_stalled_recoverable'' then
        (if ft_active_goal_count t > 0 then Inr None
         else if ft_accepted_goal_count t \<noteq> terminal_count t
         then Inl (RuntimeError
                (''frontier progress recovery refused: Action ledger is not drained accepted=''
                 @ show_int (ft_accepted_goal_count t) @ '' terminal='' @ show_int (terminal_count t)))
         else Inr (Some ''recovery_required:frontier_progress_stalled''))
      else if time_budget_reached then Inr (Some ''assessment_required:time_budget'')
      else
        (case decide_exploration
                (exploration_observation c snap time_budget_reached recovery_attempts_remaining
                   map_quiet_s now2) of
           Inl e \<Rightarrow> Inl e
         | Inr EX_CONTINUE \<Rightarrow> Inr None
         | Inr EX_COMPLETE \<Rightarrow> Inr (Some ''no_reachable_frontiers'')
         | Inr EX_RECOVER \<Rightarrow>
             (if ft_blacklisted_frontier_count t > 0
              then Inr (Some ''recovery_required:blacklisted_frontiers'')
              else Inr (Some ''recovery_required:reachable_frontiers_stalled''))
         | Inr EX_FAIL \<Rightarrow>
             Inl (RuntimeError (''frontier recovery exhausted: available=''
                @ show_int (ft_available_frontier_count t) @ '' active=''
                @ show_int (ft_active_goal_count t) @ '' blacklisted=''
                @ show_int (ft_blacklisted_frontier_count t)))))"

definition completion_reason ::
  "FrontierMonitorConfig \<Rightarrow> MappingEvidenceSnapshot \<Rightarrow> pyfloat \<Rightarrow> bool \<Rightarrow> int
     \<Rightarrow> pyfloat \<Rightarrow> pyfloat \<Rightarrow> string option result" where
  "completion_reason c snap elapsed_s time_budget_reached recovery_attempts_remaining now1 now2 =
     (if fm_policy_mode c = ''unknown_world''
      then unknown_world_reason c snap elapsed_s time_budget_reached recovery_attempts_remaining
             now1 now2
      else if fm_policy_mode c \<noteq> ''known_world''
      then Inl (ValueError (''unsupported frontier policy mode: '' @ fm_policy_mode c))
      else Inr (exploration_completion_reason
        \<lparr>ci_status = me_explore_status snap, ci_completion_status = fm_completion_status c,
         ci_elapsed_s = elapsed_s, ci_min_runtime_s = fm_min_runtime_s c,
         ci_known_cells = stats_known snap, ci_occupied_cells = stats_occupied snap,
         ci_min_known_cells = fm_min_known_cells c,
         ci_min_occupied_cells = fm_min_occupied_cells c,
         ci_mapping_path_m = me_mapping_path_m snap,
         ci_min_mapping_path_m = fm_min_mapping_path_m c,
         ci_seconds_since_map_growth = now1 - me_last_map_growth_at snap,
         ci_stable_map_s = fm_stable_map_s c, ci_time_budget_reached = time_budget_reached\<rparr>))"

section \<open>Waiting\<close>

datatype monitor_effect =
    CancelMotion
  | LogInfo string
  | StoreCompletionReason string

type_synonym monitor_outcome = "monitor_effect list \<times> string result"

record poll =
  poll_now_check :: pyfloat
  poll_canceled :: bool
  poll_now_elapsed :: pyfloat
  poll_snapshot :: MappingEvidenceSnapshot
  poll_now1 :: pyfloat
  poll_now2 :: pyfloat
  poll_exited :: "bool \<times> int option"

definition monitor_complete :: "MappingEvidenceSnapshot \<Rightarrow> string \<Rightarrow> monitor_outcome" where
  "monitor_complete snap reason =
     ([StoreCompletionReason reason,
       LogInfo (''frontier exploration complete reason='' @ reason
         @ '': known='' @ show_int (stats_known snap)
         @ '' occupied='' @ show_int (stats_occupied snap)
         @ '' path='' @ show_fixed 2 (me_mapping_path_m snap) @ ''m'')], Inr reason)"

text \<open>What both evaluations of a reason do with it: a request to the caller is passed on, any
  other reason completes the exploration.\<close>

definition deliver_reason :: "MappingEvidenceSnapshot \<Rightarrow> string \<Rightarrow> monitor_outcome" where
  "deliver_reason snap reason =
     (if startswith ''recovery_required:'' reason \<or> startswith ''assessment_required:'' reason
      then ([LogInfo reason], Inr reason)
      else monitor_complete snap reason)"

definition raise_if_canceled :: "bool \<Rightarrow> monitor_outcome option" where
  "raise_if_canceled canceled =
     (if \<not> canceled then None
      else Some ([CancelMotion], Inl (AutomaticMissionCancelled ''automatic mission canceled'')))"

definition show_code :: "int option \<Rightarrow> string" where
  "show_code code = (case code of None \<Rightarrow> ''None'' | Some n \<Rightarrow> show_int n)"

definition final_evaluation :: "FrontierMonitorConfig \<Rightarrow> pyfloat \<Rightarrow> int \<Rightarrow> poll \<Rightarrow> monitor_outcome" where
  "final_evaluation c started_at remaining p =
     (case completion_reason c (poll_snapshot p) (poll_now_elapsed p - started_at) True remaining
             (poll_now1 p) (poll_now2 p) of
        Inl e \<Rightarrow> ([], Inl e)
      | Inr (Some reason) \<Rightarrow> deliver_reason (poll_snapshot p) reason
      | Inr None \<Rightarrow>
          ([], Inl (TimeoutError (''frontier exploration did not complete before timeout known=''
             @ show_int (stats_known (poll_snapshot p)) @ '' occupied=''
             @ show_int (stats_occupied (poll_snapshot p)) @ '' path=''
             @ show_fixed 2 (me_mapping_path_m (poll_snapshot p)) @ ''m''))))"

fun monitor_loop ::
  "FrontierMonitorConfig \<Rightarrow> pyfloat \<Rightarrow> pyfloat \<Rightarrow> int \<Rightarrow> poll list \<Rightarrow> monitor_outcome option" where
  "monitor_loop c started_at deadline remaining [] = None"
| "monitor_loop c started_at deadline remaining (p # ps) =
     (if \<not> poll_now_check p < deadline then Some (final_evaluation c started_at remaining p)
      else case raise_if_canceled (poll_canceled p) of
        Some out \<Rightarrow> Some out
      | None \<Rightarrow>
          (let elapsed = poll_now_elapsed p - started_at
           in case reject_premature_explorer_completion c (poll_snapshot p) elapsed of
                Inl e \<Rightarrow> Some ([], Inl e)
              | Inr _ \<Rightarrow>
                  (case completion_reason c (poll_snapshot p) elapsed False remaining
                          (poll_now1 p) (poll_now2 p) of
                     Inl e \<Rightarrow> Some ([], Inl e)
                   | Inr (Some reason) \<Rightarrow> Some (deliver_reason (poll_snapshot p) reason)
                   | Inr None \<Rightarrow>
                       (if fst (poll_exited p)
                        then Some ([], Inl (RuntimeError
                               (''frontier explorer exited unexpectedly code=''
                                @ show_code (snd (poll_exited p)))))
                        else monitor_loop c started_at deadline remaining ps))))"

fun wait_dry_run :: "pyfloat \<Rightarrow> poll list \<Rightarrow> monitor_outcome option" where
  "wait_dry_run deadline [] = None"
| "wait_dry_run deadline (p # ps) =
     (if \<not> poll_now_check p < deadline then Some ([], Inr ''dry_run'')
      else case raise_if_canceled (poll_canceled p) of
        Some out \<Rightarrow> Some out
      | None \<Rightarrow> wait_dry_run deadline ps)"

definition monitor_deadline ::
  "FrontierMonitorConfig \<Rightarrow> pyfloat \<Rightarrow> pyfloat option \<Rightarrow> pyfloat" where
  "monitor_deadline c started_at deadline_monotonic =
     (let local_deadline = started_at + fm_timeout_s c
      in case deadline_monotonic of
           None \<Rightarrow> local_deadline
         | Some d \<Rightarrow> pymin local_deadline d)"

definition monitor_wait ::
  "FrontierMonitorConfig \<Rightarrow> int \<Rightarrow> pyfloat option \<Rightarrow> pyfloat \<Rightarrow> poll list \<Rightarrow> monitor_outcome option" where
  "monitor_wait c recovery_attempts_remaining deadline_monotonic started_at polls =
     (if fm_dry_run c then wait_dry_run (started_at + fm_dry_run_delay_s c) polls
      else if \<not> fm_status_available c
      then Some ([], Inl (RuntimeError (''explore_lite_msgs is unavailable; run ''
             @ ''bash scripts/setup_frontier_exploration.sh'')))
      else monitor_loop c started_at (monitor_deadline c started_at deadline_monotonic)
             recovery_attempts_remaining polls)"

section \<open>The decision table read backwards\<close>

lemma decide_complete:
  assumes "decide_exploration ob = Inr EX_COMPLETE"
  shows "eo_active_goal_count ob = 0" "eo_reachable_frontier_count ob = 0"
    "eo_blacklisted_frontier_count ob = 0" "eo_native_completion_reported ob"
    "eo_required_quiet_s ob \<le> eo_map_quiet_s ob"
  using assms by (auto simp: decide_exploration_def split: if_splits)

lemma decide_recover:
  assumes "decide_exploration ob = Inr EX_RECOVER"
  shows "eo_active_goal_count ob = 0" "0 < eo_recovery_attempts_remaining ob"
    "eo_blacklisted_frontier_count ob > 0 \<and> eo_reachable_frontier_count ob = 0
       \<or> eo_plateau_detected ob \<and> \<not> eo_time_budget_reached ob"
  using assms by (auto simp: decide_exploration_def split: if_splits)

section \<open>Outcomes of waiting\<close>

definition typed_recovery_reasons :: "string set" where
  "typed_recovery_reasons =
     {''recovery_required:no_clearance_safe_frontier_approach'',
      ''recovery_required:frontier_attempts_exhausted'',
      ''recovery_required:frontier_progress_stalled''}"

definition policy_recovery_reasons :: "string set" where
  "policy_recovery_reasons =
     {''recovery_required:blacklisted_frontiers'', ''recovery_required:reachable_frontiers_stalled''}"

text \<open>The evidence that each reason of the unknown-world mode stands for.\<close>

definition reason_justified ::
  "FrontierMonitorConfig \<Rightarrow> MappingEvidenceSnapshot \<Rightarrow> pyfloat \<Rightarrow> bool \<Rightarrow> int \<Rightarrow> pyfloat \<Rightarrow> string \<Rightarrow> bool"
  where
  "reason_justified c snap elapsed_s budget remaining now1 reason \<longleftrightarrow>
     (let t = me_frontier_telemetry snap
      in (reason = ''no_reachable_frontiers'' \<and> \<not> budget \<and> \<not> elapsed_s < fm_min_runtime_s c
          \<and> ft_status t = fm_completion_status c \<and> ft_completion_reason t = ''no_frontiers''
          \<and> ft_active_goal_count t = 0 \<and> ft_available_frontier_count t = 0
          \<and> ft_blacklisted_frontier_count t = 0
          \<and> fm_stable_map_s c \<le> pymax 0 (now1 - me_last_map_growth_at snap))
       \<or> (reason \<in> typed_recovery_reasons \<and> \<not> ft_active_goal_count t > 0
          \<and> ft_accepted_goal_count t = terminal_count t)
       \<or> (reason \<in> policy_recovery_reasons \<and> ft_active_goal_count t = 0 \<and> remaining > 0
          \<and> \<not> budget \<and> \<not> elapsed_s < fm_min_runtime_s c)
       \<or> (reason = ''assessment_required:time_budget'' \<and> budget))"

lemma observation_complete:
  assumes "decide_exploration (exploration_observation c snap budget remaining quiet now2)
    = Inr EX_COMPLETE"
  shows "ft_status (me_frontier_telemetry snap) = fm_completion_status c
    \<and> ft_completion_reason (me_frontier_telemetry snap) = ''no_frontiers''
    \<and> ft_active_goal_count (me_frontier_telemetry snap) = 0
    \<and> ft_available_frontier_count (me_frontier_telemetry snap) = 0
    \<and> ft_blacklisted_frontier_count (me_frontier_telemetry snap) = 0 \<and> fm_stable_map_s c \<le> quiet"
  using decide_complete [OF assms] by (simp add: exploration_observation_def Let_def)

lemma observation_recover:
  assumes "decide_exploration (exploration_observation c snap budget remaining quiet now2)
    = Inr EX_RECOVER"
  shows "ft_active_goal_count (me_frontier_telemetry snap) = 0 \<and> 0 < remaining"
  using decide_recover [OF assms] by (simp add: exploration_observation_def Let_def)

lemma unknown_world_reason_justified:
  assumes "unknown_world_reason c snap elapsed_s budget remaining now1 now2 = Inr (Some reason)"
  shows "reason_justified c snap elapsed_s budget remaining now1 reason"
proof -
  note [simp] = reason_justified_def typed_recovery_reasons_def policy_recovery_reasons_def
    observation_complete observation_recover
  show ?thesis
    using assms
    by (simp add: unknown_world_reason_def Let_def
        split: if_splits sum.splits ExplorationDecision.splits)
qed

lemma deliver_reason_effects:
  assumes "reason_justified c snap elapsed_s budget remaining now1 reason"
  shows "snd (deliver_reason sn reason) = Inr reason"
    "StoreCompletionReason r \<in> set (fst (deliver_reason sn reason)) \<longleftrightarrow>
       r = reason \<and> reason = ''no_reachable_frontiers''"
    "CancelMotion \<notin> set (fst (deliver_reason sn reason))"
proof -
  have r: "reason = ''no_reachable_frontiers'' \<or> reason = ''assessment_required:time_budget''
      \<or> reason \<in> typed_recovery_reasons \<or> reason \<in> policy_recovery_reasons"
    using assms unfolding reason_justified_def Let_def by blast
  have "startswith ''recovery_required:'' reason \<or> startswith ''assessment_required:'' reason
      \<longleftrightarrow> reason \<noteq> ''no_reachable_frontiers''"
    using r unfolding typed_recovery_reasons_def policy_recovery_reasons_def insert_iff empty_iff
    by (elim disjE; simp add: startswith_def)
  then show "snd (deliver_reason sn reason) = Inr reason"
    "StoreCompletionReason r \<in> set (fst (deliver_reason sn reason)) \<longleftrightarrow>
       r = reason \<and> reason = ''no_reachable_frontiers''"
    "CancelMotion \<notin> set (fst (deliver_reason sn reason))"
    by (auto simp: deliver_reason_def monitor_complete_def)
qed

lemma deliver_reason_Inr: "snd (deliver_reason sn reason) = Inr reason"
  by (simp add: deliver_reason_def monitor_complete_def)

text \<open>A delivered reason was computed from one poll, which was not canceled unless it was the final
  evaluation.\<close>

lemma monitor_loop_reason:
  assumes "monitor_loop c started_at deadline remaining polls = Some (effs, Inr reason)"
  shows "\<exists>p \<in> set polls. (effs, Inr reason) = deliver_reason (poll_snapshot p) reason
    \<and> completion_reason c (poll_snapshot p) (poll_now_elapsed p - started_at)
        (\<not> poll_now_check p < deadline) remaining (poll_now1 p) (poll_now2 p) = Inr (Some reason)
    \<and> (poll_now_check p < deadline \<longrightarrow> \<not> poll_canceled p)"
  using assms
proof (induction polls)
  case Nil
  then show ?case by simp
next
  case (Cons p ps)
  show ?case
  proof (cases "monitor_loop c started_at deadline remaining ps = Some (effs, Inr reason)")
    case True
    then show ?thesis using Cons.IH by auto
  next
    case False
    then show ?thesis
      using Cons.prems deliver_reason_Inr
      by (auto simp: final_evaluation_def raise_if_canceled_def Let_def
          split: if_splits sum.splits option.splits prod.splits)
        (metis deliver_reason_Inr snd_conv sum.inject(2))+
  qed
qed

lemma monitor_wait_reason:
  assumes "monitor_wait c remaining deadline_monotonic started_at polls = Some (effs, Inr reason)"
    "\<not> fm_dry_run c"
  shows "\<exists>p \<in> set polls. (effs, Inr reason) = deliver_reason (poll_snapshot p) reason
    \<and> completion_reason c (poll_snapshot p) (poll_now_elapsed p - started_at)
        (\<not> poll_now_check p < monitor_deadline c started_at deadline_monotonic) remaining
        (poll_now1 p) (poll_now2 p) = Inr (Some reason)
    \<and> (poll_now_check p < monitor_deadline c started_at deadline_monotonic \<longrightarrow> \<not> poll_canceled p)"
  using assms by (intro monitor_loop_reason) (auto simp: monitor_wait_def split: if_splits)

text \<open>C33. In an unknown world every outcome of waiting is backed by the evidence of one poll.
  Exploration is reported as complete only with the explorer's own completion, no active goal, no
  reachable and no blacklisted frontier, a map that has been quiet for the configured time and the
  minimum run time over, before the deadline and without a cancellation. A typed recovery is
  requested only with no active goal and a drained Action ledger, a policy recovery only with
  recovery budget left, and a saturation assessment only at the deadline. Only a completion is
  stored as the completion reason.\<close>

theorem wait_outcome_justified:
  assumes "monitor_wait c remaining deadline_monotonic started_at polls = Some (effs, Inr reason)"
    "\<not> fm_dry_run c" "fm_policy_mode c = ''unknown_world''"
  shows "\<exists>p \<in> set polls.
      reason_justified c (poll_snapshot p) (poll_now_elapsed p - started_at)
        (\<not> poll_now_check p < monitor_deadline c started_at deadline_monotonic) remaining
        (poll_now1 p) reason
    \<and> (poll_now_check p < monitor_deadline c started_at deadline_monotonic \<longrightarrow> \<not> poll_canceled p)
    \<and> (\<forall>r. StoreCompletionReason r \<in> set effs \<longleftrightarrow> r = reason \<and> reason = ''no_reachable_frontiers'')
    \<and> CancelMotion \<notin> set effs"
proof -
  obtain p where p: "p \<in> set polls" "(effs, Inr reason) = deliver_reason (poll_snapshot p) reason"
    "unknown_world_reason c (poll_snapshot p) (poll_now_elapsed p - started_at)
        (\<not> poll_now_check p < monitor_deadline c started_at deadline_monotonic) remaining
        (poll_now1 p) (poll_now2 p) = Inr (Some reason)"
    "poll_now_check p < monitor_deadline c started_at deadline_monotonic \<longrightarrow> \<not> poll_canceled p"
    using monitor_wait_reason [OF assms(1,2)] assms(3) by (auto simp: completion_reason_def)
  note j = unknown_world_reason_justified [OF p(3)]
  have effs: "effs = fst (deliver_reason (poll_snapshot p) reason)" using p(2) by (metis fst_conv)
  show ?thesis
    unfolding effs using deliver_reason_effects(2,3) [OF j] j p(4) by (intro bexI [OF _ p(1)]) simp
qed

text \<open>In a known world the monitor completes only with coverage. Waiting returns a reason only
  when some poll shows the minimum run time over and at least the configured known cells, occupied
  cells and mapping path, together with the explorer's completion, a stable map or the deadline.\<close>

lemma known_world_needs_coverage:
  assumes "monitor_wait c remaining deadline_monotonic started_at polls = Some (effs, Inr reason)"
    "\<not> fm_dry_run c" "fm_policy_mode c = ''known_world''"
  shows "\<exists>p \<in> set polls. let snap = poll_snapshot p in
      \<not> poll_now_elapsed p - started_at < fm_min_runtime_s c
    \<and> fm_min_known_cells c \<le> stats_known snap \<and> fm_min_occupied_cells c \<le> stats_occupied snap
    \<and> fm_min_mapping_path_m c \<le> me_mapping_path_m snap
    \<and> (me_explore_status snap = fm_completion_status c
       \<or> fm_stable_map_s c \<le> poll_now1 p - me_last_map_growth_at snap
       \<or> \<not> poll_now_check p < monitor_deadline c started_at deadline_monotonic)"
proof -
  obtain p where p: "p \<in> set polls"
    "completion_reason c (poll_snapshot p) (poll_now_elapsed p - started_at)
        (\<not> poll_now_check p < monitor_deadline c started_at deadline_monotonic) remaining
        (poll_now1 p) (poll_now2 p) = Inr (Some reason)"
    using monitor_wait_reason [OF assms(1,2)] by blast
  then show ?thesis
    using assms(3)
    by (intro bexI [OF _ p(1)])
      (auto simp: completion_reason_def Let_def dest!: completion_needs_coverage)
qed

text \<open>A cancellation is raised exactly after the STOP, and then the STOP is the only effect.\<close>

definition cancel_consistent :: "monitor_outcome \<Rightarrow> bool" where
  "cancel_consistent out \<longleftrightarrow>
     (CancelMotion \<in> set (fst out) \<longleftrightarrow>
        snd out = Inl (AutomaticMissionCancelled ''automatic mission canceled''))
     \<and> (CancelMotion \<in> set (fst out) \<longrightarrow> fst out = [CancelMotion])"

lemma deliver_reason_cancel_consistent: "cancel_consistent (deliver_reason snap reason)"
  by (simp add: cancel_consistent_def deliver_reason_def monitor_complete_def)

lemma decide_exploration_not_canceled: "decide_exploration ob \<noteq> Inl (AutomaticMissionCancelled m)"
  by (simp add: decide_exploration_def)

lemma unknown_world_not_canceled:
  "unknown_world_reason c snap e b remaining n1 n2 \<noteq> Inl (AutomaticMissionCancelled m)"
proof -
  define d where "d = decide_exploration (exploration_observation c snap b remaining
        (pymax 0 (n1 - me_last_map_growth_at snap)) n2)"
  have "d \<noteq> Inl (AutomaticMissionCancelled m)"
    unfolding d_def by (rule decide_exploration_not_canceled)
  then show ?thesis
    unfolding unknown_world_reason_def Let_def d_def [symmetric]
    by (cases d) (simp_all split: ExplorationDecision.split)
qed

lemma completion_reason_error_consistent:
  "completion_reason c snap e b remaining n1 n2 = Inl x \<Longrightarrow> cancel_consistent ([], Inl x)"
  using unknown_world_not_canceled [of c snap e b remaining n1 n2]
  by (auto simp: cancel_consistent_def completion_reason_def split: if_splits)

lemma reject_error_consistent:
  "reject_premature_explorer_completion c snap e = Inl x \<Longrightarrow> cancel_consistent ([], Inl x)"
  by (auto simp: cancel_consistent_def reject_premature_explorer_completion_def split: if_splits)

lemma final_evaluation_cancel_consistent: "cancel_consistent (final_evaluation c s remaining p)"
  by (auto simp: final_evaluation_def deliver_reason_cancel_consistent
      completion_reason_error_consistent split: sum.split option.split)
    (simp add: cancel_consistent_def)

lemma monitor_loop_cancel_consistent:
  "monitor_loop c started_at deadline remaining polls = Some out \<Longrightarrow> cancel_consistent out"
proof (induction polls)
  case (Cons p ps)
  note consistent = deliver_reason_cancel_consistent completion_reason_error_consistent
    reject_error_consistent final_evaluation_cancel_consistent
  have "cancel_consistent ([], Inl (RuntimeError m))"
    "cancel_consistent ([CancelMotion], Inl (AutomaticMissionCancelled ''automatic mission canceled''))"
    for m by (simp_all add: cancel_consistent_def)
  then show ?case
    using Cons consistent
    by (auto simp: raise_if_canceled_def Let_def split: if_splits sum.splits option.splits)
qed simp

lemma monitor_loop_returns:
  "p \<in> set polls \<Longrightarrow> \<not> poll_now_check p < deadline \<Longrightarrow>
     \<exists>out. monitor_loop c started_at deadline remaining polls = Some out"
  by (induction polls) (auto split: option.split sum.split simp: Let_def)

text \<open>Waiting is bounded and stops the robot on cancellation. As soon as one poll finds the clock
  at the deadline the wait returns or raises. It raises the cancellation exactly when it has sent
  the STOP, and then it has done nothing else.\<close>

lemma monitor_wait_bounded:
  assumes "p \<in> set polls" "\<not> poll_now_check p < monitor_deadline c started_at deadline_monotonic"
    "\<not> fm_dry_run c"
  shows "\<exists>out. monitor_wait c remaining deadline_monotonic started_at polls = Some out
    \<and> cancel_consistent out"
proof (cases "fm_status_available c")
  case True
  then show ?thesis
    using monitor_loop_returns [OF assms(1,2)] assms(3) monitor_loop_cancel_consistent
    by (simp add: monitor_wait_def) blast
next
  case False
  then show ?thesis using assms(3) by (simp add: monitor_wait_def cancel_consistent_def)
qed

definition example_snapshot :: MappingEvidenceSnapshot where
  "example_snapshot =
     \<lparr>me_map_stats = Some \<lparr>ms_known_cells = 400, ms_occupied_cells = 50\<rparr>,
      me_best_known_map_cells = 400, me_last_map_growth_at = Fin 20,
      me_last_frontier_activity_at = Fin 50, me_exploration_completion_reason = '''',
      me_mapping_path_m = Fin 12, me_latest_odom_xy = None, me_odom_generation = 0,
      me_explore_status = ''exploration_complete'',
      me_frontier_telemetry = default_telemetry\<lparr>ft_status := ''exploration_complete'',
        ft_completion_reason := ''no_frontiers''\<rparr>\<rparr>"

definition example_monitor :: FrontierMonitorConfig where
  "example_monitor =
     \<lparr>fm_timeout_s = Fin 600, fm_min_runtime_s = Fin 60, fm_stable_map_s = Fin 30,
      fm_completion_status = ''exploration_complete'', fm_min_known_cells = 300,
      fm_min_occupied_cells = 20, fm_min_mapping_path_m = Fin 5, fm_frontier_idle_grace_s = Fin 10,
      fm_policy_mode = ''unknown_world'', fm_status_available = True, fm_dry_run = False,
      fm_dry_run_delay_s = Fin 0\<rparr>"

definition example_poll :: "real \<Rightarrow> poll" where
  "example_poll now =
     \<lparr>poll_now_check = Fin now, poll_canceled = False, poll_now_elapsed = Fin now,
      poll_snapshot = example_snapshot, poll_now1 = Fin now, poll_now2 = Fin now,
      poll_exited = (False, None)\<rparr>"

lemmas monitor_examples = example_snapshot_def example_monitor_def example_poll_def
  default_telemetry_def

lemmas monitor_eval = monitor_wait_def monitor_deadline_def raise_if_canceled_def
  reject_premature_explorer_completion_def stats_known_def stats_occupied_def
  completion_reason_def unknown_world_reason_def exploration_observation_def
  decide_exploration_def deliver_reason_def monitor_complete_def startswith_def
  exploration_completion_reason_def Let_def zero_fin

lemma example_monitor_wait:
  "monitor_wait example_monitor 1 None (Fin 0) [example_poll 10, example_poll 100]
     = Some (monitor_complete example_snapshot ''no_reachable_frontiers'')"
  by (simp add: monitor_examples monitor_eval)

theorem wait_outcome_justified_witness:
  "\<exists>p effs. p \<in> set [example_poll 10, example_poll 100]
     \<and> monitor_wait example_monitor 1 None (Fin 0) [example_poll 10, example_poll 100]
         = Some (effs, Inr ''no_reachable_frontiers'')
     \<and> \<not> poll_canceled p"
proof -
  have w: "monitor_wait example_monitor 1 None (Fin 0) [example_poll 10, example_poll 100]
      = Some (fst (monitor_complete example_snapshot ''no_reachable_frontiers''), Inr ''no_reachable_frontiers'')"
    by (simp add: example_monitor_wait monitor_complete_def)
  have d: "poll_now_check p < monitor_deadline example_monitor (Fin 0) None"
    if "p \<in> set [example_poll 10, example_poll 100]" for p
    using that by (auto simp: monitor_examples monitor_deadline_def Let_def)
  from wait_outcome_justified [OF w] d show ?thesis
    using w by (simp add: example_monitor_def) blast
qed

end
