(* ===== verification/Effects.thy ===== *)
theory Effects
  imports Prelude
begin

text \<open>
  Effectful code. A procedure takes a world and gives a value or an exception together with the new
  world, or \<open>None\<close> when it does not return. \<open>triple\<close> states partial correctness with one condition
  for the normal and one for the exceptional exit; \<open>returns\<close> states that a procedure returns. The
  rules are collected in \<open>triple_rules\<close> and \<open>returns_rules\<close>, which carry the proofs of the mission
  and navigation transactions.
\<close>

named_theorems triple_rules \<open>partial correctness of procedures\<close>
named_theorems returns_rules \<open>procedures that return\<close>

type_synonym ('w, 'a) proc = "'w \<Rightarrow> ('a result \<times> 'w) option"

section \<open>Procedures\<close>

definition ret :: "'a \<Rightarrow> ('w, 'a) proc" where
  "ret x w = Some (Inr x, w)"

definition raise :: "exn \<Rightarrow> ('w, 'a) proc" where
  "raise e w = Some (Inl e, w)"

definition bind :: "('w, 'a) proc \<Rightarrow> ('a \<Rightarrow> ('w, 'b) proc) \<Rightarrow> ('w, 'b) proc" where
  "bind m k w =
     (case m w of
        None \<Rightarrow> None
      | Some (Inl e, w') \<Rightarrow> Some (Inl e, w')
      | Some (Inr x, w') \<Rightarrow> k x w')"

definition catch :: "('w, 'a) proc \<Rightarrow> (exn \<Rightarrow> ('w, 'a) proc) \<Rightarrow> ('w, 'a) proc" where
  "catch m h w =
     (case m w of
        None \<Rightarrow> None
      | Some (Inl e, w') \<Rightarrow> h e w'
      | Some (Inr x, w') \<Rightarrow> Some (Inr x, w'))"

text \<open>\<open>try: m finally: f\<close>. An exception of the finalizer replaces the outcome of the body.\<close>

definition ensure :: "('w, 'a) proc \<Rightarrow> ('w, unit) proc \<Rightarrow> ('w, 'a) proc" where
  "ensure m f w =
     (case m w of
        None \<Rightarrow> None
      | Some (r, w') \<Rightarrow>
          (case f w' of
             None \<Rightarrow> None
           | Some (Inl e, w'') \<Rightarrow> Some (Inl e, w'')
           | Some (Inr _, w'') \<Rightarrow> Some (r, w'')))"

definition lift_result :: "'a result \<Rightarrow> ('w, 'a) proc" where
  "lift_result r w = Some (r, w)"

definition modify :: "('w \<Rightarrow> 'w) \<Rightarrow> ('w, unit) proc" where
  "modify f w = Some (Inr (), f w)"

definition query :: "('w \<Rightarrow> 'a \<times> 'w) \<Rightarrow> ('w, 'a) proc" where
  "query f w = (case f w of (x, w') \<Rightarrow> Some (Inr x, w'))"

definition guard :: "bool \<Rightarrow> exn \<Rightarrow> ('w, unit) proc" where
  "guard ok e = (if ok then ret () else raise e)"

definition skip :: "('w, unit) proc" where
  "skip = ret ()"

definition andthen :: "('w, unit) proc \<Rightarrow> ('w, 'b) proc \<Rightarrow> ('w, 'b) proc" where
  "andthen m k = bind m (\<lambda>_. k)"

fun each :: "('a \<Rightarrow> ('w, unit) proc) \<Rightarrow> 'a list \<Rightarrow> ('w, unit) proc" where
  "each f [] = skip"
| "each f (x # xs) = andthen (f x) (each f xs)"

text \<open>The outcome of a procedure as a value: the body of a \<open>try\<close> whose handlers are written as a case
  distinction.\<close>

definition attempt :: "('w, 'a) proc \<Rightarrow> ('w, 'a result) proc" where
  "attempt m w = (case m w of None \<Rightarrow> None | Some (r, w') \<Rightarrow> Some (Inr r, w'))"

text \<open>A loop: the body is repeated until it gives a value or raises.\<close>

partial_function (option) repeat_until ::
  "('w \<Rightarrow> ('a option result \<times> 'w) option) \<Rightarrow> 'w \<Rightarrow> ('a result \<times> 'w) option" where
  "repeat_until m w =
     (case m w of
        None \<Rightarrow> None
      | Some (r, w') \<Rightarrow>
          (case r of
             Inl e \<Rightarrow> Some (Inl e, w')
           | Inr (Some x) \<Rightarrow> Some (Inr x, w')
           | Inr None \<Rightarrow> repeat_until m w'))"

text \<open>A block of statements.\<close>

fun seqs :: "('w, unit) proc list \<Rightarrow> ('w, unit) proc" where
  "seqs [] = skip"
| "seqs [m] = m"
| "seqs (m # n # ms) = andthen m (seqs (n # ms))"

lemmas proc_defs = ret_def raise_def bind_def catch_def ensure_def lift_result_def modify_def
  query_def guard_def skip_def andthen_def

section \<open>Partial correctness\<close>

definition triple ::
  "('w \<Rightarrow> bool) \<Rightarrow> ('w, 'a) proc \<Rightarrow> ('a \<Rightarrow> 'w \<Rightarrow> bool) \<Rightarrow> (exn \<Rightarrow> 'w \<Rightarrow> bool) \<Rightarrow> bool" where
  "triple P m Q R \<longleftrightarrow>
     (\<forall>w. P w \<longrightarrow>
        (case m w of
           None \<Rightarrow> True
         | Some (Inl e, w') \<Rightarrow> R e w'
         | Some (Inr x, w') \<Rightarrow> Q x w'))"

lemma triple_normal: "triple P m Q R \<Longrightarrow> P w \<Longrightarrow> m w = Some (Inr x, w') \<Longrightarrow> Q x w'"
  unfolding triple_def by (drule spec [of _ w]) simp

lemma triple_error: "triple P m Q R \<Longrightarrow> P w \<Longrightarrow> m w = Some (Inl e, w') \<Longrightarrow> R e w'"
  unfolding triple_def by (drule spec [of _ w]) simp

lemma triple_weaken:
  "triple P m Q R \<Longrightarrow> (\<And>w. P' w \<Longrightarrow> P w) \<Longrightarrow> (\<And>x w. Q x w \<Longrightarrow> Q' x w) \<Longrightarrow>
     (\<And>e w. R e w \<Longrightarrow> R' e w) \<Longrightarrow> triple P' m Q' R'"
  unfolding triple_def by (fastforce split: option.splits sum.splits)

lemma triple_pre: "triple P m Q R \<Longrightarrow> (\<And>w. P' w \<Longrightarrow> P w) \<Longrightarrow> triple P' m Q R"
  by (rule triple_weaken)

lemma triple_ret [triple_rules]: "triple (Q x) (ret x) Q R"
  by (simp add: triple_def ret_def)

lemma triple_raise [triple_rules]: "triple (R e) (raise e) Q R"
  by (simp add: triple_def raise_def)

lemma triple_skip [triple_rules]: "triple (Q ()) skip Q R"
  by (simp add: triple_def skip_def ret_def)

lemma triple_guard [triple_rules]: "triple (\<lambda>w. if ok then Q () w else R e w) (guard ok e) Q R"
  by (simp add: triple_def guard_def ret_def raise_def)

lemma triple_modify [triple_rules]: "triple (\<lambda>w. Q () (f w)) (modify f) Q R"
  by (simp add: triple_def modify_def)

lemma triple_query [triple_rules]: "triple (\<lambda>w. Q (fst (f w)) (snd (f w))) (query f) Q R"
  by (auto simp: triple_def query_def split: prod.splits)

lemma triple_lift_result [triple_rules]:
  "triple (\<lambda>w. case r of Inl e \<Rightarrow> R e w | Inr x \<Rightarrow> Q x w) (lift_result r) Q R"
  by (auto simp: triple_def lift_result_def split: sum.splits)

lemma triple_bind [triple_rules]:
  assumes "triple P m M R" "\<And>x. triple (M x) (k x) Q R"
  shows "triple P (bind m k) Q R"
  using assms unfolding triple_def bind_def
  by (fastforce split: option.splits sum.splits prod.splits)

lemma triple_andthen [triple_rules]:
  "triple P m (\<lambda>_. M) R \<Longrightarrow> triple M k Q R \<Longrightarrow> triple P (andthen m k) Q R"
  unfolding andthen_def by (rule triple_bind)

lemma triple_catch [triple_rules]:
  assumes "triple P m Q M" "\<And>e. triple (M e) (h e) Q R"
  shows "triple P (catch m h) Q R"
  using assms unfolding triple_def catch_def
  by (fastforce split: option.splits sum.splits prod.splits)

lemma triple_ensure [triple_rules]:
  assumes "triple P m M N" "\<And>x. triple (M x) f (\<lambda>_. Q x) R" "\<And>e. triple (N e) f (\<lambda>_. R e) R"
  shows "triple P (ensure m f) Q R"
  unfolding triple_def
proof (intro allI impI)
  fix w assume w: "P w"
  show "case ensure m f w of None \<Rightarrow> True | Some (Inl e, w') \<Rightarrow> R e w' | Some (Inr x, w') \<Rightarrow> Q x w'"
  proof (cases "m w")
    case (Some rw)
    then obtain r w1 where mw: "m w = Some (r, w1)" by (cases rw) auto
    show ?thesis
    proof (cases r)
      case (Inl e)
      then have "N e w1" using triple_error [OF assms(1) w] mw by simp
      then show ?thesis
        using mw Inl triple_normal [OF assms(3)] triple_error [OF assms(3)]
        by (auto simp: ensure_def split: option.splits sum.splits)
    next
      case (Inr x)
      then have "M x w1" using triple_normal [OF assms(1) w] mw by simp
      then show ?thesis
        using mw Inr triple_normal [OF assms(2)] triple_error [OF assms(2)]
        by (auto simp: ensure_def split: option.splits sum.splits)
    qed
  qed (simp add: ensure_def)
qed

lemma triple_if [triple_rules]:
  "(b \<Longrightarrow> triple P m Q R) \<Longrightarrow> (\<not> b \<Longrightarrow> triple P' n Q R) \<Longrightarrow>
     triple (\<lambda>w. if b then P w else P' w) (if b then m else n) Q R"
  by simp

lemma triple_attempt [triple_rules]:
  assumes "triple P m (\<lambda>x. Q (Inr x)) (\<lambda>e. Q (Inl e))"
  shows "triple P (attempt m) Q R"
  unfolding triple_def
proof (intro allI impI)
  fix w assume "P w"
  then show "case attempt m w of None \<Rightarrow> True | Some (Inl e, w') \<Rightarrow> R e w' | Some (Inr x, w') \<Rightarrow> Q x w'"
    using triple_normal [OF assms] triple_error [OF assms]
    by (auto simp: attempt_def split: option.split) (metis sum.exhaust)
qed

definition pass_ok ::
  "('w \<Rightarrow> bool) \<Rightarrow> ('a \<Rightarrow> 'w \<Rightarrow> bool) \<Rightarrow> (exn \<Rightarrow> 'w \<Rightarrow> bool) \<Rightarrow> ('w, 'a option) proc \<Rightarrow> bool" where
  "pass_ok I Q R m \<longleftrightarrow> triple I m (\<lambda>r w. case r of None \<Rightarrow> I w | Some x \<Rightarrow> Q x w) R"

lemma repeat_until_outcome:
  fixes m :: "('w, 'a option) proc"
  shows "repeat_until m w = Some y \<Longrightarrow> pass_ok I Q R m \<longrightarrow> I w \<longrightarrow>
     (case fst y of Inl e \<Rightarrow> R e (snd y) | Inr x \<Rightarrow> Q x (snd y))"
proof (rule repeat_until.raw_induct [of "\<lambda>m w y. pass_ok I Q R m \<longrightarrow> I w \<longrightarrow>
     (case fst y of Inl e \<Rightarrow> R e (snd y) | Inr x \<Rightarrow> Q x (snd y))"])
  fix rep and m :: "('w, 'a option) proc" and w and y :: "'a result \<times> 'w"
  assume IH: "\<And>m w y. rep m w = Some y \<Longrightarrow>
      pass_ok I Q R m \<longrightarrow> I w \<longrightarrow> (case fst y of Inl e \<Rightarrow> R e (snd y) | Inr x \<Rightarrow> Q x (snd y))"
    and step: "(case m w of None \<Rightarrow> None
      | Some (r, w') \<Rightarrow>
          (case r of Inl e \<Rightarrow> Some (Inl e, w') | Inr None \<Rightarrow> rep m w' | Inr (Some x) \<Rightarrow> Some (Inr x, w')))
      = Some y"
  show "pass_ok I Q R m \<longrightarrow> I w \<longrightarrow> (case fst y of Inl e \<Rightarrow> R e (snd y) | Inr x \<Rightarrow> Q x (snd y))"
  proof (intro impI)
    assume ok: "pass_ok I Q R m" and I: "I w"
    obtain r w' where m: "m w = Some (r, w')" using step by (cases "m w") auto
    note ok' = ok [unfolded pass_ok_def]
    show "case fst y of Inl e \<Rightarrow> R e (snd y) | Inr x \<Rightarrow> Q x (snd y)"
    proof (cases r)
      case (Inl e)
      then show ?thesis using triple_error [OF ok' I] m step by auto
    next
      case (Inr c)
      have "case c of None \<Rightarrow> I w' | Some x \<Rightarrow> Q x w'" using triple_normal [OF ok' I] m Inr by simp
      then show ?thesis using IH ok m step Inr by (cases c) auto
    qed
  qed
qed

lemma triple_repeat_until:
  assumes "triple I m (\<lambda>r w. case r of None \<Rightarrow> I w | Some x \<Rightarrow> Q x w) R"
  shows "triple I (repeat_until m) Q R"
  unfolding triple_def
proof (intro allI impI)
  fix w assume "I w"
  then show "case repeat_until m w of None \<Rightarrow> True | Some (Inl e, w') \<Rightarrow> R e w'
      | Some (Inr x, w') \<Rightarrow> Q x w'"
    using repeat_until_outcome [of m w _ I Q R] assms
    by (auto simp: pass_ok_def split: option.split sum.split)
qed

lemma triple_each:
  "(\<And>x. x \<in> set xs \<Longrightarrow> triple P (f x) (\<lambda>_. P) R) \<Longrightarrow> triple P (each f xs) (\<lambda>_. P) R"
  by (induction xs) (auto intro: triple_skip triple_andthen)

section \<open>Returning\<close>

definition returns :: "('w \<Rightarrow> bool) \<Rightarrow> ('w, 'a) proc \<Rightarrow> bool" where
  "returns P m \<longleftrightarrow> (\<forall>w. P w \<longrightarrow> (\<exists>r w'. m w = Some (r, w') \<and> P w'))"

lemma returnsD: "returns P m \<Longrightarrow> P w \<Longrightarrow> \<exists>r w'. m w = Some (r, w') \<and> P w'"
  by (auto simp: returns_def)

lemma returns_basic [returns_rules]:
  "returns P (ret x)" "returns P (raise e)" "returns P skip" "returns P (guard ok e)"
  "returns P (lift_result r)"
  by (auto simp: returns_def proc_defs)

lemma returns_modify [returns_rules]: "(\<And>w. P w \<Longrightarrow> P (f w)) \<Longrightarrow> returns P (modify f)"
  by (auto simp: returns_def proc_defs)

lemma returns_query [returns_rules]: "(\<And>w. P w \<Longrightarrow> P (snd (f w))) \<Longrightarrow> returns P (query f)"
  by (auto simp: returns_def query_def split: prod.split) (metis prod.exhaust_sel snd_conv)

lemma returns_bind [returns_rules]:
  assumes "returns P m" "\<And>x. returns P (k x)"
  shows "returns P (bind m k)"
  unfolding returns_def
proof (intro allI impI)
  fix w assume "P w"
  then obtain r w1 where "m w = Some (r, w1)" "P w1" using assms(1) by (auto simp: returns_def)
  then show "\<exists>r w'. bind m k w = Some (r, w') \<and> P w'"
    using assms(2) by (cases r) (auto simp: bind_def returns_def)
qed

lemma returns_andthen [returns_rules]: "returns P m \<Longrightarrow> returns P k \<Longrightarrow> returns P (andthen m k)"
  unfolding andthen_def by (rule returns_bind)

lemma returns_catch [returns_rules]:
  assumes "returns P m" "\<And>e. returns P (h e)"
  shows "returns P (catch m h)"
  unfolding returns_def
proof (intro allI impI)
  fix w assume "P w"
  then obtain r w1 where "m w = Some (r, w1)" "P w1" using assms(1) by (auto simp: returns_def)
  then show "\<exists>r w'. catch m h w = Some (r, w') \<and> P w'"
    using assms(2) by (cases r) (auto simp: catch_def returns_def)
qed

lemma returns_ensure [returns_rules]:
  assumes "returns P m" "returns P f"
  shows "returns P (ensure m f)"
  unfolding returns_def
proof (intro allI impI)
  fix w assume "P w"
  then obtain r w1 where 1: "m w = Some (r, w1)" "P w1" using assms(1) by (auto simp: returns_def)
  then obtain s w2 where "f w1 = Some (s, w2)" "P w2" using assms(2) by (auto simp: returns_def)
  then show "\<exists>r w'. ensure m f w = Some (r, w') \<and> P w'"
    using 1 by (cases s) (auto simp: ensure_def)
qed

lemma returns_attempt [returns_rules]: "returns P m \<Longrightarrow> returns P (attempt m)"
  by (fastforce simp: returns_def attempt_def)

text \<open>A loop returns when every pass that goes on brings a measure down.\<close>

lemma returns_repeat_until:
  fixes f :: "'w \<Rightarrow> nat"
  assumes "\<And>w. P w \<Longrightarrow> \<exists>r w'. m w = Some (r, w') \<and> P w' \<and> (r = Inr None \<longrightarrow> f w' < f w)"
  shows "returns P (repeat_until m)"
proof -
  have "P w \<longrightarrow> (\<exists>r w'. repeat_until m w = Some (r, w') \<and> P w')" for w
  proof (induction "f w" arbitrary: w rule: less_induct)
    case less
    show ?case
    proof
      assume "P w"
      then obtain r w' where m: "m w = Some (r, w')" "P w'" "r = Inr None \<longrightarrow> f w' < f w"
        using assms by blast
      show "\<exists>r w'. repeat_until m w = Some (r, w') \<and> P w'"
      proof (cases "r = Inr None")
        case True
        then have "\<exists>r w''. repeat_until m w' = Some (r, w'') \<and> P w''" using less m by blast
        then show ?thesis using m True by (simp add: repeat_until.simps [of m w])
      next
        case False
        then show ?thesis
          using m by (auto simp: repeat_until.simps [of m w] split: sum.split option.split)
      qed
    qed
  qed
  then show ?thesis by (simp add: returns_def)
qed

lemma returns_if [returns_rules]:
  "(b \<Longrightarrow> returns P m) \<Longrightarrow> (\<not> b \<Longrightarrow> returns P n) \<Longrightarrow> returns P (if b then m else n)"
  by simp

lemma returns_each [returns_rules]:
  "(\<And>x. x \<in> set xs \<Longrightarrow> returns P (f x)) \<Longrightarrow> returns P (each f xs)"
  by (induction xs) (auto intro: returns_rules)

section \<open>Values\<close>

text \<open>Every value a procedure returns satisfies a predicate, whatever the world.\<close>

named_theorems yields_rules \<open>values returned by procedures\<close>

definition yields :: "('a \<Rightarrow> bool) \<Rightarrow> ('w, 'a) proc \<Rightarrow> bool" where
  "yields V m \<longleftrightarrow> (\<forall>w x w'. m w = Some (Inr x, w') \<longrightarrow> V x)"

lemma yieldsD: "yields V m \<Longrightarrow> m w = Some (Inr x, w') \<Longrightarrow> V x"
  by (auto simp: yields_def)

lemma yields_ret [yields_rules]: "V x \<Longrightarrow> yields V (ret x)"
  by (simp add: yields_def ret_def)

lemma yields_raise [yields_rules]: "yields V (raise e)"
  by (simp add: yields_def raise_def)

lemma yields_lift_result: "(\<And>x. r = Inr x \<Longrightarrow> V x) \<Longrightarrow> yields V (lift_result r)"
  by (simp add: yields_def lift_result_def)

lemma yields_bind [yields_rules]: "(\<And>x. yields V (k x)) \<Longrightarrow> yields V (bind m k)"
  unfolding yields_def bind_def by (fastforce split: option.splits sum.splits)

lemma yields_bind_value: "yields U m \<Longrightarrow> (\<And>x. U x \<Longrightarrow> yields V (k x)) \<Longrightarrow> yields V (bind m k)"
  unfolding yields_def bind_def by (fastforce split: option.splits sum.splits)

lemma yields_andthen [yields_rules]: "yields V k \<Longrightarrow> yields V (andthen m k)"
  unfolding andthen_def by (rule yields_bind)

lemma yields_guard: "(ok \<Longrightarrow> yields V k) \<Longrightarrow> yields V (andthen (guard ok e) k)"
  by (auto simp: yields_def proc_defs)

lemma yields_if [yields_rules]:
  "(b \<Longrightarrow> yields V m) \<Longrightarrow> (\<not> b \<Longrightarrow> yields V n) \<Longrightarrow> yields V (if b then m else n)"
  by simp

end
