(* ===== verification/Mission_Executor.thy ===== *)
theory Mission_Executor
  imports Mission_Policy Frontier_Monitor Effects
begin

text \<open>
  The mission transactions of \<open>mission_executor.py\<close>: the two waiting loops, the automatic mission
  with its fixed bootstrap route and the unknown-world mission with its bounded recovery. The ROS
  runtime and the explorer process are a \<open>mission_port\<close>, a record of functions on the environment
  and the shared evidence tracker, which callbacks update while a call is under way. Every port call
  is appended to the trace of the world with whether it returned. An exception note of the code is
  a trace entry.
\<close>

section \<open>Port and world\<close>

text \<open>Calls of the executor are made for the user's request or for an internal request whose
  \<open>canceled\<close> flag is never set.\<close>

datatype requester = UserRequest | InternalRequest string

datatype mission_call =
    C_transition SessionPhase string
  | C_feedback real
  | C_run_agent_action string string pyfloat
  | C_start_explorer string
  | C_stop_explorer
  | C_wait_for_frontier "(int \<times> pyfloat) option"
  | C_quiesce_frontier requester pyfloat
  | C_stop_motion_and_wait requester pyfloat
  | C_run_recovery_backup pyfloat pyfloat pyfloat
  | C_capture_mapping_start_pose pyfloat
  | C_run_mapping_return_goal PlanarPose ReturnToStartSpec pyfloat
  | C_record_mapping_completion string "SaturationRuntimeEvidence option"
      "SaturationAssessment option" ReturnToStartEvidence
  | C_save_map
  | C_start_navigation
  | C_wait_navigation_ready
  | C_select_mapped_navigation_goals int int pyfloat pyfloat pyfloat
  | C_run_navigation_goal int "pyfloat \<times> pyfloat" pyfloat
  | C_note string exn

type_synonym 'e env = "'e \<times> MappingEvidenceTracker"

text \<open>The calls without a reply share one field; \<open>mp_pass\<close> is a timed wait on the condition or
  event, after which the caller looks again.\<close>

record 'e mission_port =
  mp_dry_run :: bool
  mp_clock :: "'e env \<Rightarrow> pyfloat \<times> 'e env"
  mp_canceled :: "'e env \<Rightarrow> bool \<times> 'e env"
  mp_pass :: "pyfloat \<Rightarrow> 'e env \<Rightarrow> 'e env"
  mp_command :: "mission_call \<Rightarrow> 'e env \<Rightarrow> unit result \<times> 'e env"
  mp_wait_for_frontier :: "(int \<times> pyfloat) option \<Rightarrow> 'e env \<Rightarrow> string result \<times> 'e env"
  mp_quiesce_frontier :: "requester \<Rightarrow> pyfloat \<Rightarrow> 'e env \<Rightarrow> FrontierTelemetry result \<times> 'e env"
  mp_run_recovery_backup ::
    "pyfloat \<Rightarrow> pyfloat \<Rightarrow> pyfloat \<Rightarrow> 'e env \<Rightarrow> pyfloat result \<times> 'e env"
  mp_capture_mapping_start_pose :: "pyfloat \<Rightarrow> 'e env \<Rightarrow> PlanarPose result \<times> 'e env"
  mp_run_mapping_return_goal ::
    "PlanarPose \<Rightarrow> ReturnToStartSpec \<Rightarrow> pyfloat \<Rightarrow> 'e env
       \<Rightarrow> ReturnToStartEvidence result \<times> 'e env"
  mp_select_mapped_navigation_goals ::
    "int \<Rightarrow> int \<Rightarrow> pyfloat \<Rightarrow> pyfloat \<Rightarrow> pyfloat \<Rightarrow> 'e env
       \<Rightarrow> (pyfloat \<times> pyfloat) list result \<times> 'e env"

record 'e mission_world =
  mw_env :: "'e env"
  mw_trace :: "(mission_call \<times> bool) list"

type_synonym ('e, 'a) mission = "('e mission_world, 'a) proc"

definition perform ::
  "mission_call \<Rightarrow> ('e env \<Rightarrow> 'a result \<times> 'e env) \<Rightarrow> ('e, 'a) mission" where
  "perform c f w =
     (case f (mw_env w) of (r, env') \<Rightarrow>
        Some (r, w\<lparr>mw_env := env', mw_trace := mw_trace w @ [(c, \<not> is_error r)]\<rparr>))"

definition command :: "'e mission_port \<Rightarrow> mission_call \<Rightarrow> ('e, unit) mission" where
  "command p c = perform c (mp_command p c)"

definition read_env :: "('e env \<Rightarrow> 'a \<times> 'e env) \<Rightarrow> ('e, 'a) mission" where
  "read_env f = query (\<lambda>w. case f (mw_env w) of (x, env') \<Rightarrow> (x, w\<lparr>mw_env := env'\<rparr>))"

definition now :: "'e mission_port \<Rightarrow> ('e, pyfloat) mission" where
  "now p = read_env (mp_clock p)"

definition request_canceled :: "'e mission_port \<Rightarrow> ('e, bool) mission" where
  "request_canceled p = read_env (mp_canceled p)"

definition on_evidence ::
  "(MappingEvidenceTracker \<Rightarrow> MappingEvidenceTracker) \<Rightarrow> ('e, unit) mission" where
  "on_evidence f = modify (\<lambda>w. w\<lparr>mw_env := map_prod id f (mw_env w)\<rparr>)"

definition take_snapshot :: "('e, MappingEvidenceSnapshot) mission" where
  "take_snapshot w = lift_result (evidence_snapshot (snd (mw_env w))) w"

definition reset_evidence :: "'e mission_port \<Rightarrow> bool \<Rightarrow> ('e, unit) mission" where
  "reset_evidence p preserve =
     bind (now p) (\<lambda>now1. bind (now p) (\<lambda>now2.
       on_evidence (reset_exploration preserve now1 now2)))"

definition add_note :: "string \<Rightarrow> exn \<Rightarrow> ('e, unit) mission" where
  "add_note stage e = modify (\<lambda>w. w\<lparr>mw_trace := mw_trace w @ [(C_note stage e, True)]\<rparr>)"

definition raise_if_mission_canceled :: "'e mission_port \<Rightarrow> string \<Rightarrow> ('e, unit) mission" where
  "raise_if_mission_canceled p text =
     bind (request_canceled p) (\<lambda>canceled. guard (\<not> canceled) (AutomaticMissionCancelled text))"

section \<open>Waiting loops\<close>

partial_function (option) required_event_loop ::
  "'e mission_port \<Rightarrow> pyfloat \<Rightarrow> pyfloat \<Rightarrow> 'e env \<Rightarrow> (bool result \<times> 'e env) option" where
  "required_event_loop p deadline poll_s env =
     (case mp_canceled p env of (canceled, env1) \<Rightarrow>
        if canceled
        then Some (Inl (AutomaticMissionCancelled ''automatic mission canceled''), env1)
        else case mp_clock p env1 of (t, env2) \<Rightarrow>
          if deadline - t \<le> 0 then Some (Inr (mt_scan_ready (snd env2)), env2)
          else (let env3 = mp_pass p (pymin poll_s (deadline - t)) env2
                in if mt_scan_ready (snd env3) then Some (Inr True, env3)
                   else required_event_loop p deadline poll_s env3))"

definition on_env :: "('e env \<Rightarrow> ('a result \<times> 'e env) option) \<Rightarrow> ('e, 'a) mission" where
  "on_env f w =
     (case f (mw_env w) of None \<Rightarrow> None | Some (r, env') \<Rightarrow> Some (r, w\<lparr>mw_env := env'\<rparr>))"

definition wait_for_required_event :: "'e mission_port \<Rightarrow> pyfloat \<Rightarrow> ('e, bool) mission" where
  "wait_for_required_event p timeout_s =
     bind (now p) (\<lambda>t. on_env (required_event_loop p (t + pymax 0 timeout_s) (Fin 0.05)))"

partial_function (option) map_quiet_loop ::
  "'e mission_port \<Rightarrow> pyfloat \<Rightarrow> pyfloat \<Rightarrow> 'e env
     \<Rightarrow> (MappingEvidenceSnapshot result \<times> 'e env) option" where
  "map_quiet_loop p deadline quiet_s env =
     (case mp_canceled p env of (canceled, env1) \<Rightarrow>
        if canceled
        then Some (Inl (AutomaticMissionCancelled ''automatic mission canceled''), env1)
        else case evidence_snapshot (snd env1) of
          Inl e \<Rightarrow> Some (Inl e, env1)
        | Inr snap \<Rightarrow>
            (case mp_clock p env1 of (t, env2) \<Rightarrow>
               (let quiet_remaining_s = me_last_map_growth_at snap + quiet_s - t;
                    budget_remaining_s = deadline - t
                in if quiet_remaining_s \<le> 0 then Some (Inr snap, env2)
                   else if budget_remaining_s \<le> 0
                   then Some (Inl (TimeoutError ''map did not settle before confirmation deadline''),
                          env2)
                   else map_quiet_loop p deadline quiet_s
                          (mp_pass p (pymin (pymin (Fin 0.1) quiet_remaining_s) budget_remaining_s)
                             env2))))"

definition wait_for_map_quiet ::
  "'e mission_port \<Rightarrow> UnknownWorldMissionSpec \<Rightarrow> pyfloat \<Rightarrow> pyfloat option
     \<Rightarrow> ('e, MappingEvidenceSnapshot) mission" where
  "wait_for_map_quiet p spec deadline_monotonic required_quiet_s =
     on_env (map_quiet_loop p deadline_monotonic
       (case required_quiet_s of None \<Rightarrow> uw_map_settle_s spec | Some q \<Rightarrow> q))"

section \<open>The automatic mission\<close>

definition bootstrap_step ::
  "'e mission_port \<Rightarrow> AutomaticMissionSpec \<Rightarrow> nat \<Rightarrow> nat \<times> string \<times> string \<times> string
     \<Rightarrow> ('e, unit) mission" where
  "bootstrap_step p spec route_size step =
     (case step of (index, label, text, expected_action) \<Rightarrow>
        seqs
         [raise_if_mission_canceled p ''automatic mission canceled'',
          command p (C_transition AUTOMATIC_MAPPING
            (''bootstrap '' @ show_nat (index + 1) @ ''/'' @ show_nat route_size @ '': '' @ label)),
          command p (C_run_agent_action text expected_action (am_bootstrap_action_timeout_s spec)),
          command p (C_feedback (0.05 + 0.25 * real (index + 1) / real route_size))])"

definition reason_or_unknown :: "MappingEvidenceSnapshot \<Rightarrow> string" where
  "reason_or_unknown snap =
     (if me_exploration_completion_reason snap = '''' then ''unknown''
      else me_exploration_completion_reason snap)"

text \<open>Waiting for the explorer in the automatic mission: on failure the Action ledger is drained
  first, an error of that is noted, and the explorer is stopped on every path.\<close>

definition automatic_frontier :: "'e mission_port \<Rightarrow> AutomaticMissionSpec \<Rightarrow> ('e, unit) mission" where
  "automatic_frontier p spec =
     ensure
       (catch
         (bind (perform (C_wait_for_frontier None) (mp_wait_for_frontier p None)) (\<lambda>_. skip))
         (\<lambda>primary_error.
            andthen
              (catch
                (bind
                  (perform
                    (C_quiesce_frontier (InternalRequest ''automatic_frontier_quiescence'')
                      (am_bootstrap_action_timeout_s spec))
                    (mp_quiesce_frontier p (InternalRequest ''automatic_frontier_quiescence'')
                      (am_bootstrap_action_timeout_s spec)))
                  (\<lambda>_. skip))
                (\<lambda>cleanup_error. add_note ''frontier ledger quiescence failed'' cleanup_error))
              (raise primary_error)))
       (command p C_stop_explorer)"

definition automatic_run_transaction ::
  "'e mission_port \<Rightarrow> AutomaticMissionSpec \<Rightarrow> ('e, unit) mission" where
  "automatic_run_transaction p spec =
     andthen (seqs
      [command p (C_transition AUTOMATIC_MAPPING ''automatic mapping bootstrap running''),
       command p (C_feedback 0.03),
       (if mp_dry_run p then skip
        else bind (wait_for_required_event p (am_scan_startup_timeout_s spec)) (\<lambda>ready.
               guard ready (TimeoutError ''mapping scan did not become ready before bootstrap''))),
       each (bootstrap_step p spec (max 1 (length (am_bootstrap_route spec))))
         (enumerate 0 (am_bootstrap_route spec)),
       command p (C_transition AUTOMATIC_MAPPING ''frontier exploration running''),
       reset_evidence p False,
       command p (C_start_explorer (am_explorer_config_path spec)),
       automatic_frontier p spec])
     (bind take_snapshot (\<lambda>snapshot. seqs
      [command p (C_transition MAPPING
         (''frontier exploration complete reason='' @ reason_or_unknown snapshot
          @ '' known='' @ show_int (stats_known snapshot)
          @ '' occupied='' @ show_int (stats_occupied snapshot)
          @ '' path='' @ show_fixed 2 (me_mapping_path_m snapshot) @ ''m'')),
       command p (C_feedback 0.5),
       command p C_save_map,
       raise_if_mission_canceled p ''automatic mission canceled'',
       command p C_start_navigation,
       command p C_wait_navigation_ready,
       command p (C_transition AUTOMATIC_NAVIGATING ''automatic semantic navigation running''),
       command p (C_feedback 0.82),
       command p (C_run_agent_action (am_navigate_text spec) ''navigate_to''
         (am_navigation_timeout_s spec)),
       command p (C_feedback 0.9),
       command p (C_run_agent_action (am_patrol_text spec) ''follow_waypoints''
         (am_navigation_timeout_s spec)),
       command p (C_transition MISSION_COMPLETED
         (''automatic mapping and navigation mission completed exploration_reason=''
          @ reason_or_unknown snapshot)),
       command p (C_feedback 1)]))"

definition automatic_run :: "'e mission_port \<Rightarrow> AutomaticMissionSpec \<Rightarrow> ('e, unit) mission" where
  "automatic_run p spec =
     andthen (on_evidence begin_mapping_path)
       (ensure (automatic_run_transaction p spec) (on_evidence finish_mapping_path))"

section \<open>The unknown-world mission\<close>

record ExplorationRunOutcome =
  xo_completion_reason :: string
  xo_saturation_evidence :: "SaturationRuntimeEvidence option"
  xo_saturation_assessment :: "SaturationAssessment option"

definition plain_outcome :: "string \<Rightarrow> ExplorationRunOutcome" where
  "plain_outcome reason =
     \<lparr>xo_completion_reason = reason, xo_saturation_evidence = None,
      xo_saturation_assessment = None\<rparr>"

text \<open>The variables of the epoch loop, and what one pass of it decides: another pass or the end.\<close>

record epoch_state =
  es_remaining :: int
  es_tracker :: SaturationEvidenceTracker
  es_epoch_id :: int
  es_final_confirmation_active :: bool
  es_final_confirmation_deadline :: "pyfloat option"

datatype epoch_result = NextEpoch epoch_state | ExplorationDone ExplorationRunOutcome

definition cleanup_failed_frontier_epoch ::
  "'e mission_port \<Rightarrow> UnknownWorldMissionSpec \<Rightarrow> bool \<Rightarrow> ('e, unit) mission" where
  "cleanup_failed_frontier_epoch p spec stop_explorer =
     andthen
       (if stop_explorer then
          andthen
            (catch
              (bind
                (perform
                  (C_quiesce_frontier (InternalRequest ''frontier_failure_quiescence'')
                    (uw_action_timeout_s spec))
                  (mp_quiesce_frontier p (InternalRequest ''frontier_failure_quiescence'')
                    (uw_action_timeout_s spec)))
                (\<lambda>_. skip))
              (\<lambda>cleanup_error. add_note ''frontier ledger quiescence failed'' cleanup_error))
            (catch (command p C_stop_explorer)
              (\<lambda>cleanup_error. add_note ''explorer cleanup failed'' cleanup_error))
        else skip)
       (catch
         (command p (C_stop_motion_and_wait (InternalRequest ''frontier_failure_cleanup'')
           (uw_action_timeout_s spec)))
         (\<lambda>cleanup_error. add_note ''typed stop failed'' cleanup_error))"

definition observe_saturation_tracker ::
  "SaturationEvidenceTracker \<Rightarrow> ('e, SaturationEvidenceTracker) mission" where
  "observe_saturation_tracker tracker =
     bind take_snapshot (\<lambda>snapshot.
       let (r, tracker') = tracker_observe (stats_known snapshot)
             (terminal_count (me_frontier_telemetry snapshot)) (me_mapping_path_m snapshot) tracker
       in bind (lift_result r) (\<lambda>_. ret tracker'))"

definition on_tracker ::
  "(SaturationEvidenceTracker \<Rightarrow> 'a result \<times> SaturationEvidenceTracker)
     \<Rightarrow> SaturationEvidenceTracker \<Rightarrow> ('e, SaturationEvidenceTracker) mission" where
  "on_tracker f tracker = (let (r, tracker') = f tracker in bind (lift_result r) (\<lambda>_. ret tracker'))"

definition stop_motion :: "'e mission_port \<Rightarrow> UnknownWorldMissionSpec \<Rightarrow> ('e, unit) mission" where
  "stop_motion p spec = command p (C_stop_motion_and_wait UserRequest (uw_action_timeout_s spec))"

definition recovery_scan :: "'e mission_port \<Rightarrow> UnknownWorldMissionSpec \<Rightarrow> ('e, unit) mission" where
  "recovery_scan p spec =
     command p (C_run_agent_action (uw_recovery_scan_text spec) ''turn'' (uw_action_timeout_s spec))"

text \<open>\<open>time.monotonic() + max(map_settle_s, action_timeout_s)\<close> as the hard deadline of a settle.\<close>

definition settle ::
  "'e mission_port \<Rightarrow> UnknownWorldMissionSpec \<Rightarrow> pyfloat option
     \<Rightarrow> ('e, MappingEvidenceSnapshot) mission" where
  "settle p spec required_quiet_s =
     bind (now p) (\<lambda>t.
       wait_for_map_quiet p spec (t + pymax (uw_map_settle_s spec) (uw_action_timeout_s spec))
         required_quiet_s)"

fun trigger_value :: "SaturationTrigger \<Rightarrow> string" where
  "trigger_value TIME_BUDGET = ''time_budget''"
| "trigger_value REPEATED_REACHABLE_STALL = ''repeated_reachable_stall''"

definition finalize_saturation_assessment ::
  "'e mission_port \<Rightarrow> UnknownWorldMissionSpec \<Rightarrow> SaturationEvidenceTracker \<Rightarrow> FrontierTelemetry
     \<Rightarrow> int \<Rightarrow> SaturationTrigger \<Rightarrow> MappingEvidenceSnapshot \<Rightarrow> string
     \<Rightarrow> ('e, ExplorationRunOutcome) mission" where
  "finalize_saturation_assessment p spec tracker telemetry remaining trigger settled
       terminal_reason =
     (let pending_goal_count =
            max 0 (ft_accepted_goal_count telemetry - terminal_count telemetry)
      in andthen (stop_motion p spec)
        (bind (now p) (\<lambda>t.
         bind (lift_result (check_runtime_evidence
           \<lparr>ev_history = tracker_snapshot tracker, ev_trigger = trigger,
            ev_recovery_attempts_remaining = remaining,
            ev_residual_available_frontiers = ft_available_frontier_count telemetry,
            ev_active_goal_count = ft_active_goal_count telemetry,
            ev_pending_goal_count = pending_goal_count,
            ev_map_quiet_s = pymax 0 (t - me_last_map_growth_at settled),
            ev_typed_stop_confirmed = True, ev_typed_stop_after_final_probe = True,
            ev_final_stop_age_s = Some 0\<rparr>)) (\<lambda>runtime_evidence.
         let assessment =
               assess_bounded_frontier_saturation runtime_evidence (uw_saturation_policy spec)
         in andthen
             (guard (assessment_complete assessment)
               (RuntimeError (''bounded saturation evidence is insufficient trigger=''
                  @ trigger_value trigger @ '': ''
                  @ join '','' (assess_unmet_requirements assessment))))
            (andthen (on_evidence (set_completion_reason terminal_reason))
            (andthen
              (command p (C_transition AUTOMATIC_MAPPING
                (''bounded frontier saturation accepted trigger='' @ trigger_value trigger
                 @ '' residual='' @ show_int (ft_available_frontier_count telemetry)
                 @ '' epochs='' @ show_nat (length (hist_epochs (ev_history runtime_evidence))))))
              (ret \<lparr>xo_completion_reason = terminal_reason,
                    xo_saturation_evidence = Some runtime_evidence,
                    xo_saturation_assessment = Some assessment\<rparr>)))))))"

definition assess_time_budget_saturation ::
  "'e mission_port \<Rightarrow> UnknownWorldMissionSpec \<Rightarrow> SaturationEvidenceTracker \<Rightarrow> FrontierTelemetry
     \<Rightarrow> int \<Rightarrow> ('e, ExplorationRunOutcome) mission" where
  "assess_time_budget_saturation p spec tracker telemetry remaining =
     andthen (stop_motion p spec)
    (andthen (on_evidence finish_mapping_path)
    (bind (on_tracker (begin_final_probe TIME_BUDGET) tracker) (\<lambda>tracker.
     andthen (recovery_scan p spec)
    (bind (settle p spec (Some (required_map_quiet_s (uw_saturation_policy spec)))) (\<lambda>settled.
     bind (observe_saturation_tracker tracker) (\<lambda>tracker.
     bind (on_tracker finish_final_probe tracker) (\<lambda>tracker.
       finalize_saturation_assessment p spec tracker telemetry remaining TIME_BUDGET settled
         ''time_budget_exhausted''))))))) "

section \<open>One epoch of exploration\<close>

text \<open>The first half of a pass: announce and start the explorer, wait for it with the deadline of
  the phase, and close the epoch. A failed wait is cleaned up before it is raised again.\<close>

definition run_explorer_epoch ::
  "'e mission_port \<Rightarrow> UnknownWorldMissionSpec \<Rightarrow> pyfloat \<Rightarrow> epoch_state
     \<Rightarrow> ('e, string \<times> SaturationEvidenceTracker) mission" where
  "run_explorer_epoch p spec exploration_deadline s =
     andthen (command p (C_transition AUTOMATIC_MAPPING
       ((if es_final_confirmation_active s then ''frontier final confirmation running ''
         else ''frontier exploration running '')
        @ ''recovery_budget='' @ show_int (es_remaining s))))
    (bind (observe_saturation_tracker (es_tracker s)) (\<lambda>tracker.
     bind (on_tracker (begin_epoch (es_epoch_id s + 1)) tracker) (\<lambda>tracker.
     andthen (command p (C_start_explorer (uw_explorer_config_path spec)))
    (bind
      (let args = Some (es_remaining s,
             (case es_final_confirmation_deadline s of
                Some d \<Rightarrow> if es_final_confirmation_active s then d else exploration_deadline
              | None \<Rightarrow> exploration_deadline))
       in catch (perform (C_wait_for_frontier args) (mp_wait_for_frontier p args))
            (\<lambda>primary_error.
               andthen (cleanup_failed_frontier_epoch p spec True) (raise primary_error)))
      (\<lambda>outcome.
     bind (observe_saturation_tracker tracker) (\<lambda>tracker.
     bind (on_tracker finish_epoch tracker) (\<lambda>tracker. ret (outcome, tracker))))))))"

definition stop_explorer_or_cleanup ::
  "'e mission_port \<Rightarrow> UnknownWorldMissionSpec \<Rightarrow> ('e, unit) mission" where
  "stop_explorer_or_cleanup p spec =
     catch (command p C_stop_explorer)
       (\<lambda>primary_error. andthen (cleanup_failed_frontier_epoch p spec False) (raise primary_error))"

text \<open>The explorer's totals and the mapping path go on into the next epoch.\<close>

definition continue_exploration :: "'e mission_port \<Rightarrow> ('e, unit) mission" where
  "continue_exploration p = andthen (reset_evidence p True) (on_evidence resume_mapping_path)"

text \<open>The time budget was reached: drain the ledger, stop the explorer, and either assess the
  saturation or, once per mission, gather one more epoch of evidence.\<close>

definition time_budget_branch ::
  "'e mission_port \<Rightarrow> UnknownWorldMissionSpec \<Rightarrow> SaturationEvidenceTracker \<Rightarrow> epoch_state
     \<Rightarrow> ('e, epoch_result) mission" where
  "time_budget_branch p spec tracker s =
     bind (perform (C_quiesce_frontier UserRequest (uw_action_timeout_s spec))
            (mp_quiesce_frontier p UserRequest (uw_action_timeout_s spec))) (\<lambda>telemetry.
     andthen (stop_explorer_or_cleanup p spec)
    (let recent_low_yield_epochs =
           consecutive_low_yield_epoch_count (tracker_snapshot tracker) (uw_saturation_policy spec)
     in
     if \<not> es_final_confirmation_active s
        \<and> recent_low_yield_epochs < minimum_low_yield_epochs (uw_saturation_policy spec)
     then
       andthen (stop_motion p spec)
      (andthen (recovery_scan p spec)
      (bind (settle p spec None) (\<lambda>_.
       bind (observe_saturation_tracker tracker) (\<lambda>tracker.
       bind (now p) (\<lambda>t.
       andthen (command p (C_transition AUTOMATIC_MAPPING
         (''time budget reached before consecutive low-yield evidence; starting one bounded ''
          @ ''confirmation epoch observed='' @ show_int recent_low_yield_epochs @ '' required=''
          @ show_int (minimum_low_yield_epochs (uw_saturation_policy spec)))))
      (andthen (continue_exploration p)
        (ret (NextEpoch \<lparr>es_remaining = es_remaining s, es_tracker = tracker,
           es_epoch_id = es_epoch_id s + 1, es_final_confirmation_active = True,
           es_final_confirmation_deadline = Some (t + uw_final_confirmation_timeout_s spec)\<rparr>))))))))
     else
       bind (assess_time_budget_saturation p spec tracker telemetry (es_remaining s))
         (\<lambda>out. ret (ExplorationDone out))))"

definition final_confirmation_branch ::
  "'e mission_port \<Rightarrow> UnknownWorldMissionSpec \<Rightarrow> string \<Rightarrow> ('e, epoch_result) mission" where
  "final_confirmation_branch p spec outcome =
     (let terminal_reason = ''frontier_attempts_exhausted_after_final_confirmation''
      in andthen (seqs
           [on_evidence finish_mapping_path,
            guard (outcome = ''recovery_required:frontier_attempts_exhausted'')
              (RuntimeError (''final frontier confirmation did not converge: reason='' @ outcome)),
            stop_motion p spec,
            raise_if_mission_canceled p ''automatic mission canceled during final confirmation''])
         (bind take_snapshot (\<lambda>snapshot.
          andthen (on_evidence (set_completion_reason terminal_reason))
         (andthen
           (command p (C_transition AUTOMATIC_MAPPING
             (''final frontier confirmation completed accepted=''
              @ show_int (ft_accepted_goal_count (me_frontier_telemetry snapshot)) @ '' terminal=''
              @ show_int (terminal_count (me_frontier_telemetry snapshot)))))
           (ret (ExplorationDone (plain_outcome terminal_reason)))))))"

definition stall_probe_active ::
  "UnknownWorldMissionSpec \<Rightarrow> string \<Rightarrow> int \<Rightarrow> FrontierTelemetry \<Rightarrow> bool" where
  "stall_probe_active spec outcome remaining telemetry \<longleftrightarrow>
     outcome = ''recovery_required:reachable_frontiers_stalled'' \<and> remaining = 0
     \<and> uw_max_recovery_attempts spec - remaining > 0
     \<and> ft_available_frontier_count telemetry = 0 \<and> ft_active_goal_count telemetry = 0"

text \<open>The relocation of a recovery: only for the two relocation reasons and only with budget.\<close>

definition recovery_relocation ::
  "'e mission_port \<Rightarrow> UnknownWorldMissionSpec \<Rightarrow> string \<Rightarrow> int \<Rightarrow> ('e, pyfloat option) mission" where
  "recovery_relocation p spec outcome remaining =
     (if outcome \<in> set RELOCATION_RECOVERY_REASONS \<and> remaining > 0 then
        (let b = uw_recovery_backup spec
         in bind (perform (C_run_recovery_backup (bu_distance_m b) (bu_speed_mps b) (bu_timeout_s b))
                   (mp_run_recovery_backup p (bu_distance_m b) (bu_speed_mps b) (bu_timeout_s b)))
           (\<lambda>displacement.
              andthen (raise_if_mission_canceled p
                 ''automatic mission canceled during recovery backup'')
                (ret (Some displacement))))
      else ret None)"

definition recovery_input ::
  "UnknownWorldMissionSpec \<Rightarrow> epoch_state \<Rightarrow> string \<Rightarrow> FrontierTelemetry \<Rightarrow> int \<Rightarrow> int
     \<Rightarrow> pyfloat option \<Rightarrow> EpochRecoveryInput" where
  "recovery_input spec s outcome telemetry start_cells end_cells displacement =
     (let map_gain_cells = max 0 (end_cells - start_cells)
      in \<lparr>er_recovery_reason = outcome, er_map_gain_cells = map_gain_cells,
          er_minimum_gain_cells = uw_minimum_epoch_map_gain_cells spec,
          er_recovery_attempts_remaining = es_remaining s,
          er_available_frontier_count = ft_available_frontier_count telemetry,
          er_active_goal_count = ft_active_goal_count telemetry,
          er_blacklisted_frontier_count = ft_blacklisted_frontier_count telemetry,
          er_detected_frontier_count = ft_detected_frontier_count telemetry,
          er_map_gain_ratio = Fin (real_of_int map_gain_cells / real_of_int (max start_cells 1)),
          er_minimum_gain_ratio = uw_minimum_epoch_map_gain_ratio spec,
          er_completed_recovery_epochs = uw_max_recovery_attempts spec - es_remaining s,
          er_final_confirmation_used = es_final_confirmation_active s,
          er_recovery_displacement_m = displacement,
          er_minimum_recovery_displacement_m =
            (case displacement of None \<Rightarrow> None
             | Some _ \<Rightarrow> Some (bu_minimum_displacement_m (uw_recovery_backup spec)))\<rparr>)"

fun decision_value :: "EpochRecoveryDecision \<Rightarrow> string" where
  "decision_value ADVANCE_EPOCH = ''advance_epoch''"
| "decision_value RUN_STALL_CONFIRMATION_EPOCH = ''run_stall_confirmation_epoch''"
| "decision_value ASSESS_STALL_SATURATION = ''assess_stall_saturation''"
| "decision_value RUN_FINAL_CONFIRMATION_EPOCH = ''run_final_confirmation_epoch''"
| "decision_value COMPLETE_BELOW_MATERIAL_GAIN = ''complete_below_material_gain''"
| "decision_value FAIL_BELOW_MATERIAL_GAIN = ''fail_below_material_gain''"
| "decision_value FAIL_BUDGET_EXHAUSTED = ''fail_budget_exhausted''"

definition decision_detail ::
  "UnknownWorldMissionSpec \<Rightarrow> epoch_state \<Rightarrow> string \<Rightarrow> FrontierTelemetry \<Rightarrow> int \<Rightarrow> int
     \<Rightarrow> pyfloat option \<Rightarrow> EpochRecoveryDecision \<Rightarrow> string" where
  "decision_detail spec s outcome telemetry start_cells end_cells displacement decision =
     ''frontier epoch recovery evaluated reason='' @ outcome
     @ '' known_before='' @ show_int start_cells @ '' known_after='' @ show_int end_cells
     @ '' gain='' @ show_int (max 0 (end_cells - start_cells))
     @ '' threshold='' @ show_int (uw_minimum_epoch_map_gain_cells spec)
     @ '' gain_ratio='' @ show_fixed 6
         (Fin (real_of_int (max 0 (end_cells - start_cells)) / real_of_int (max start_cells 1)))
     @ '' ratio_threshold='' @ show_fixed 6 (uw_minimum_epoch_map_gain_ratio spec)
     @ '' detected='' @ show_int (ft_detected_frontier_count telemetry)
     @ '' available='' @ show_int (ft_available_frontier_count telemetry)
     @ '' active='' @ show_int (ft_active_goal_count telemetry)
     @ '' blacklisted='' @ show_int (ft_blacklisted_frontier_count telemetry)
     @ '' displacement=''
     @ (case displacement of None \<Rightarrow> ''none'' | Some m \<Rightarrow> show_fixed 3 m)
     @ '' completed_recoveries='' @ show_int (uw_max_recovery_attempts spec - es_remaining s)
     @ '' decision='' @ decision_value decision"

text \<open>What the executor does with the decision.\<close>

definition apply_recovery_decision ::
  "'e mission_port \<Rightarrow> UnknownWorldMissionSpec \<Rightarrow> epoch_state \<Rightarrow> SaturationEvidenceTracker
     \<Rightarrow> FrontierTelemetry \<Rightarrow> MappingEvidenceSnapshot \<Rightarrow> bool \<Rightarrow> string \<Rightarrow> EpochRecoveryDecision
     \<Rightarrow> ('e, epoch_result) mission" where
  "apply_recovery_decision p spec s tracker telemetry settled probe detail decision =
     (case decision of
        COMPLETE_BELOW_MATERIAL_GAIN \<Rightarrow>
          andthen (on_evidence
              (set_completion_reason ''frontier_attempts_exhausted_below_material_gain''))
            (ret (ExplorationDone
              (plain_outcome ''frontier_attempts_exhausted_below_material_gain'')))
      | ASSESS_STALL_SATURATION \<Rightarrow>
          andthen (guard probe
              (RuntimeError ''stall saturation assessment has no final probe''))
            (bind (finalize_saturation_assessment p spec tracker telemetry (es_remaining s)
                REPEATED_REACHABLE_STALL settled ''reachable_frontiers_stalled_bounded_saturation'')
              (\<lambda>out. ret (ExplorationDone out)))
      | RUN_FINAL_CONFIRMATION_EPOCH \<Rightarrow>
          bind (now p) (\<lambda>t.
            andthen (continue_exploration p)
              (ret (NextEpoch \<lparr>es_remaining = es_remaining s, es_tracker = tracker,
                 es_epoch_id = es_epoch_id s + 1, es_final_confirmation_active = True,
                 es_final_confirmation_deadline =
                   Some (t + uw_final_confirmation_timeout_s spec)\<rparr>)))
      | FAIL_BELOW_MATERIAL_GAIN \<Rightarrow>
          raise (RuntimeError (''frontier recovery stayed below material map gain: '' @ detail
            @ '' available='' @ show_int (ft_available_frontier_count telemetry)
            @ '' active='' @ show_int (ft_active_goal_count telemetry)
            @ '' blacklisted='' @ show_int (ft_blacklisted_frontier_count telemetry)))
      | FAIL_BUDGET_EXHAUSTED \<Rightarrow>
          raise (RuntimeError
            (''frontier recovery found material map growth but recovery budget is exhausted: ''
             @ detail))
      | _ \<Rightarrow>
          andthen (continue_exploration p)
            (ret (NextEpoch (s\<lparr>es_remaining := es_remaining s - 1, es_tracker := tracker,
               es_epoch_id := es_epoch_id s + 1\<rparr>))))"

text \<open>A recovery: stop, look for a cancellation, relocate or not, scan, wait for a quiet map, and
  decide by the gain.\<close>

definition recovery_branch ::
  "'e mission_port \<Rightarrow> UnknownWorldMissionSpec \<Rightarrow> string \<Rightarrow> SaturationEvidenceTracker \<Rightarrow> epoch_state
     \<Rightarrow> ('e, epoch_result) mission" where
  "recovery_branch p spec outcome tracker s =
     andthen (seqs
      [on_evidence finish_mapping_path,
       command p (C_transition AUTOMATIC_MAPPING
         (''sensor-driven exploration recovery reason='' @ outcome @ '' remaining=''
          @ show_int (es_remaining s))),
       stop_motion p spec,
       raise_if_mission_canceled p ''automatic mission canceled''])
    (bind take_snapshot (\<lambda>recovery_snapshot.
     let telemetry = me_frontier_telemetry recovery_snapshot;
         start_cells = stats_known recovery_snapshot;
         probe = stall_probe_active spec outcome (es_remaining s) telemetry
     in
     bind (if probe then on_tracker (begin_final_probe REPEATED_REACHABLE_STALL) tracker
           else ret tracker) (\<lambda>tracker.
     bind (recovery_relocation p spec outcome (es_remaining s)) (\<lambda>displacement.
     andthen (recovery_scan p spec)
    (bind (settle p spec
            (if probe then Some (required_map_quiet_s (uw_saturation_policy spec)) else None))
      (\<lambda>settled.
     bind (if probe
           then bind (observe_saturation_tracker tracker) (on_tracker finish_final_probe)
           else ret tracker) (\<lambda>tracker.
     bind (lift_result (decide_epoch_recovery
            (recovery_input spec s outcome telemetry start_cells (stats_known settled) displacement)))
      (\<lambda>decision.
     let detail = decision_detail spec s outcome telemetry start_cells (stats_known settled)
           displacement decision
     in andthen (command p (C_transition AUTOMATIC_MAPPING detail))
          (apply_recovery_decision p spec s tracker telemetry settled probe detail decision))))))))) "

text \<open>One pass of the loop.\<close>

definition explore_epoch ::
  "'e mission_port \<Rightarrow> UnknownWorldMissionSpec \<Rightarrow> pyfloat \<Rightarrow> epoch_state
     \<Rightarrow> ('e, epoch_result) mission" where
  "explore_epoch p spec exploration_deadline s =
     bind (run_explorer_epoch p spec exploration_deadline s) (\<lambda>(outcome, tracker).
       if outcome = ''assessment_required:time_budget'' then time_budget_branch p spec tracker s
       else
         andthen (stop_explorer_or_cleanup p spec)
          (if es_final_confirmation_active s \<and> startswith ''recovery_required:'' outcome
           then final_confirmation_branch p spec outcome
           else if \<not> startswith ''recovery_required:'' outcome
           then andthen (on_evidence (set_completion_reason outcome))
                  (ret (ExplorationDone (plain_outcome outcome)))
           else recovery_branch p spec outcome tracker s))"

section \<open>The epoch loop ends\<close>

text \<open>What is left to spend: the recoveries, and the one final confirmation.\<close>

definition epoch_budget :: "epoch_state \<Rightarrow> nat" where
  "epoch_budget s = nat (es_remaining s) + (if es_final_confirmation_active s then 0 else 1)"

definition spends :: "epoch_state \<Rightarrow> epoch_result \<Rightarrow> bool" where
  "spends s r \<longleftrightarrow> (case r of NextEpoch s' \<Rightarrow> epoch_budget s' < epoch_budget s
     | ExplorationDone _ \<Rightarrow> True)"

lemma spends_done [simp]: "spends s (ExplorationDone out)"
  by (simp add: spends_def)

lemma apply_recovery_decision_spends:
  assumes "decide_epoch_recovery (recovery_input spec s outcome telemetry a b displacement)
      = Inr decision" "\<not> es_final_confirmation_active s"
  shows "yields (spends s) (apply_recovery_decision p spec s tracker telemetry settled probe detail
    decision)"
proof -
  have "0 < es_remaining s" if "decision \<in> {ADVANCE_EPOCH, RUN_STALL_CONFIRMATION_EPOCH}"
    using decide_epoch_recovery_budget [OF assms(1) that] by (simp add: recovery_input_def Let_def)
  then show ?thesis
    using assms(2) unfolding apply_recovery_decision_def
    by (cases decision) (auto intro!: yields_rules simp: spends_def epoch_budget_def)
qed

lemma recovery_branch_spends:
  "\<not> es_final_confirmation_active s \<Longrightarrow> yields (spends s) (recovery_branch p spec outcome tracker s)"
  unfolding recovery_branch_def Let_def
  by (intro yields_rules yields_bind_value [where U = "\<lambda>d. decide_epoch_recovery _ = Inr d"]
      yields_lift_result apply_recovery_decision_spends) auto

lemma time_budget_branch_spends: "yields (spends s) (time_budget_branch p spec tracker s)"
  unfolding time_budget_branch_def Let_def
  by (intro yields_rules) (auto simp: spends_def epoch_budget_def)

lemma final_confirmation_branch_spends: "yields (spends s) (final_confirmation_branch p spec outcome)"
  unfolding final_confirmation_branch_def Let_def by (intro yields_rules) simp

lemma explore_epoch_spends: "yields (spends s) (explore_epoch p spec deadline s)"
  unfolding explore_epoch_def
  by (intro yields_rules)
    (auto split: prod.split intro!: yields_rules time_budget_branch_spends
      final_confirmation_branch_spends recovery_branch_spends)

function explore_loop ::
  "'e mission_port \<Rightarrow> UnknownWorldMissionSpec \<Rightarrow> pyfloat \<Rightarrow> epoch_state
     \<Rightarrow> ('e, ExplorationRunOutcome) mission" where
  "explore_loop p spec exploration_deadline s w =
     (case explore_epoch p spec exploration_deadline s w of
        None \<Rightarrow> None
      | Some (Inl e, w') \<Rightarrow> Some (Inl e, w')
      | Some (Inr (ExplorationDone out), w') \<Rightarrow> Some (Inr out, w')
      | Some (Inr (NextEpoch s'), w') \<Rightarrow> explore_loop p spec exploration_deadline s' w')"
  by pat_completeness auto

termination
proof (relation "measure (\<lambda>(p, spec, d, s, w). epoch_budget s)", goal_cases)
  case (2 p spec d s w a b x x')
  then show ?case using yieldsD [OF explore_epoch_spends] by (fastforce simp: spends_def)
qed simp

declare explore_loop.simps [simp del]

definition explore_with_bounded_recovery ::
  "'e mission_port \<Rightarrow> UnknownWorldMissionSpec \<Rightarrow> ('e, ExplorationRunOutcome) mission" where
  "explore_with_bounded_recovery p spec =
     bind (now p) (\<lambda>t.
       explore_loop p spec (t + uw_exploration_timeout_s spec)
         \<lparr>es_remaining = uw_max_recovery_attempts spec, es_tracker = tracker_init, es_epoch_id = 0,
          es_final_confirmation_active = False, es_final_confirmation_deadline = None\<rparr>)"

section \<open>The whole unknown-world mission\<close>

definition navigation_goal_step ::
  "'e mission_port \<Rightarrow> UnknownWorldMissionSpec \<Rightarrow> nat \<Rightarrow> nat \<times> pyfloat \<times> pyfloat \<Rightarrow> ('e, unit) mission" where
  "navigation_goal_step p spec n step =
     (case step of (index, goal) \<Rightarrow> seqs
        [raise_if_mission_canceled p ''automatic mission canceled'',
         command p (C_run_navigation_goal (int index) goal (uw_navigation_timeout_s spec)),
         command p (C_feedback (0.65 + 0.3 * real index / real n))])"

definition select_goals ::
  "'e mission_port \<Rightarrow> UnknownWorldMissionSpec \<Rightarrow> ('e, (pyfloat \<times> pyfloat) list) mission" where
  "select_goals p spec =
     perform
       (C_select_mapped_navigation_goals (uw_navigation_goal_count spec)
         (uw_navigation_goal_seed spec) (uw_navigation_goal_minimum_separation_m spec)
         (uw_navigation_goal_clearance_m spec) (uw_action_timeout_s spec))
       (mp_select_mapped_navigation_goals p (uw_navigation_goal_count spec)
         (uw_navigation_goal_seed spec) (uw_navigation_goal_minimum_separation_m spec)
         (uw_navigation_goal_clearance_m spec) (uw_action_timeout_s spec))"

text \<open>From the first message to the end of the exploration.\<close>

definition mission_mapping ::
  "'e mission_port \<Rightarrow> UnknownWorldMissionSpec \<Rightarrow> ('e, PlanarPose \<times> ExplorationRunOutcome) mission" where
  "mission_mapping p spec =
     andthen (seqs
      [command p (C_transition AUTOMATIC_MAPPING ''unknown-world sensor initialization''),
       command p (C_feedback 0.03),
       (if mp_dry_run p then skip
        else bind (wait_for_required_event p (uw_scan_startup_timeout_s spec)) (\<lambda>ready.
               guard ready (TimeoutError ''mapping scan did not become ready'')))])
    (bind (perform (C_capture_mapping_start_pose (uw_action_timeout_s spec))
            (mp_capture_mapping_start_pose p (uw_action_timeout_s spec))) (\<lambda>mapping_start_pose.
     andthen (seqs
      [command p (C_run_agent_action (uw_initial_scan_text spec) ''turn'' (uw_action_timeout_s spec)),
       reset_evidence p False,
       on_evidence begin_mapping_path])
    (bind (explore_with_bounded_recovery p spec) (\<lambda>exploration.
       ret (mapping_start_pose, exploration)))))"

text \<open>The return to the start, the settling of the map, its recording and saving.\<close>

definition mission_return_and_save ::
  "'e mission_port \<Rightarrow> UnknownWorldMissionSpec \<Rightarrow> PlanarPose \<Rightarrow> ExplorationRunOutcome
     \<Rightarrow> ('e, unit) mission" where
  "mission_return_and_save p spec mapping_start_pose exploration =
     bind take_snapshot (\<lambda>snapshot.
     andthen (seqs
      [command p (C_transition MAPPING
         (''unknown-world exploration complete reason='' @ xo_completion_reason exploration
          @ '' known='' @ show_int (stats_known snapshot)
          @ '' occupied='' @ show_int (stats_occupied snapshot)
          @ '' path='' @ show_fixed 2 (me_mapping_path_m snapshot) @ ''m'')),
       command p (C_feedback 0.55),
       on_evidence finish_mapping_path,
       command p (C_transition AUTOMATIC_MAPPING
         ''returning to dynamically captured mapping start pose'')])
    (bind (perform
            (C_run_mapping_return_goal mapping_start_pose (uw_return_to_start_spec spec)
              (uw_return_to_start_timeout_s spec))
            (mp_run_mapping_return_goal p mapping_start_pose (uw_return_to_start_spec spec)
              (uw_return_to_start_timeout_s spec))) (\<lambda>return_evidence.
     bind (now p) (\<lambda>t.
     bind (wait_for_map_quiet p spec
            (t + pymax (uw_return_map_settle_s spec) (uw_action_timeout_s spec))
            (Some (uw_return_map_settle_s spec))) (\<lambda>_. seqs
      [command p (C_record_mapping_completion (xo_completion_reason exploration)
         (xo_saturation_evidence exploration) (xo_saturation_assessment exploration)
         return_evidence),
       command p C_save_map,
       raise_if_mission_canceled p ''automatic mission canceled''])))))"

definition mission_navigation ::
  "'e mission_port \<Rightarrow> UnknownWorldMissionSpec \<Rightarrow> string \<Rightarrow> ('e, unit) mission" where
  "mission_navigation p spec outcome =
     andthen (command p C_start_navigation)
    (andthen (command p C_wait_navigation_ready)
    (bind (select_goals p spec) (\<lambda>goals. seqs
      [guard (int (length goals) = uw_navigation_goal_count spec)
         (RuntimeError ''mapped goal sampler returned an unexpected goal count''),
       command p (C_transition AUTOMATIC_NAVIGATING
         (''navigating '' @ show_nat (length goals) @ '' dynamically sampled goals'')),
       each (navigation_goal_step p spec (length goals)) (enumerate 1 goals),
       command p (C_transition MISSION_COMPLETED
         (''unknown-world mapping and navigation completed exploration_reason='' @ outcome
          @ '' sampled_goals='' @ show_nat (length goals))),
       command p (C_feedback 1)])))"

definition unknown_run_transaction ::
  "'e mission_port \<Rightarrow> UnknownWorldMissionSpec \<Rightarrow> ('e, unit) mission" where
  "unknown_run_transaction p spec =
     bind (mission_mapping p spec) (\<lambda>(mapping_start_pose, exploration).
       andthen (mission_return_and_save p spec mapping_start_pose exploration)
         (mission_navigation p spec (xo_completion_reason exploration)))"

definition unknown_run :: "'e mission_port \<Rightarrow> UnknownWorldMissionSpec \<Rightarrow> ('e, unit) mission" where
  "unknown_run p spec =
     ensure (unknown_run_transaction p spec) (on_evidence finish_mapping_path)"

end
