(* ===== verification/Mission_Safety.thy ===== *)
theory Mission_Safety
  imports Mission_Executor
begin

text \<open>
  Properties of the mission transactions: that they return when the clock advances, how often the
  explorer is started, that no recovery motion is commanded beside a running explorer, what a
  completed mission has done and in which order, and what happens on failures.
\<close>

section \<open>Which calls a procedure makes\<close>

named_theorems calls_rules \<open>the calls a procedure may make\<close>

definition calls_only :: "(mission_call \<Rightarrow> bool) \<Rightarrow> ('e, 'a) mission \<Rightarrow> bool" where
  "calls_only A m \<longleftrightarrow> (\<forall>w r w'. m w = Some (r, w') \<longrightarrow>
     (\<exists>es. mw_trace w' = mw_trace w @ es \<and> (\<forall>e \<in> set es. A (fst e))))"

lemma calls_onlyD:
  "calls_only A m \<Longrightarrow> m w = Some (r, w') \<Longrightarrow>
     \<exists>es. mw_trace w' = mw_trace w @ es \<and> (\<forall>e \<in> set es. A (fst e))"
  by (auto simp: calls_only_def)

lemma calls_only_quiet:
  "(\<And>w r w'. m w = Some (r, w') \<Longrightarrow> mw_trace w' = mw_trace w) \<Longrightarrow> calls_only A m"
  by (auto simp: calls_only_def)

lemma calls_only_basic [calls_rules]:
  "calls_only A (ret x)" "calls_only A (raise e)" "calls_only A skip" "calls_only A (guard b e)"
  "calls_only A (lift_result r)" "calls_only A (read_env f)" "calls_only A (on_evidence g)"
  "calls_only A take_snapshot" "calls_only A (on_env h)"
  by (rule calls_only_quiet; auto simp: proc_defs read_env_def on_evidence_def take_snapshot_def
      on_env_def split: prod.splits option.splits if_splits)+

lemma calls_only_perform [calls_rules]: "A c \<Longrightarrow> calls_only A (perform c f)"
  by (auto simp: calls_only_def perform_def split: prod.splits)

lemma calls_only_command [calls_rules]: "A c \<Longrightarrow> calls_only A (command p c)"
  unfolding command_def by (rule calls_only_perform)

lemma calls_only_add_note [calls_rules]: "A (C_note stage e) \<Longrightarrow> calls_only A (add_note stage e)"
  by (auto simp: calls_only_def add_note_def modify_def)

lemma calls_only_bind [calls_rules]:
  assumes "calls_only A m" "\<And>x. calls_only A (k x)"
  shows "calls_only A (bind m k)"
  unfolding calls_only_def
proof (intro allI impI)
  fix w r w' assume "bind m k w = Some (r, w')"
  then consider e where "m w = Some (Inl e, w')" | x w1 where "m w = Some (Inr x, w1)"
    "k x w1 = Some (r, w')"
    by (auto simp: bind_def split: option.splits sum.splits)
  then show "\<exists>es. mw_trace w' = mw_trace w @ es \<and> (\<forall>e \<in> set es. A (fst e))"
  proof cases
    case 1
    then show ?thesis using calls_onlyD [OF assms(1)] by blast
  next
    case 2
    then obtain es fs where "mw_trace w1 = mw_trace w @ es" "\<forall>e \<in> set es. A (fst e)"
      "mw_trace w' = mw_trace w1 @ fs" "\<forall>e \<in> set fs. A (fst e)"
      using calls_onlyD [OF assms(1)] calls_onlyD [OF assms(2)] by metis
    then show ?thesis by (intro exI [of _ "es @ fs"]) auto
  qed
qed

lemma calls_only_andthen [calls_rules]:
  "calls_only A m \<Longrightarrow> calls_only A k \<Longrightarrow> calls_only A (andthen m k)"
  unfolding andthen_def by (rule calls_only_bind)

lemma calls_only_catch [calls_rules]:
  assumes "calls_only A m" "\<And>e. calls_only A (h e)"
  shows "calls_only A (catch m h)"
  unfolding calls_only_def
proof (intro allI impI)
  fix w r w' assume "catch m h w = Some (r, w')"
  then consider x where "m w = Some (Inr x, w')" | e w1 where "m w = Some (Inl e, w1)"
    "h e w1 = Some (r, w')"
    by (auto simp: catch_def split: option.splits sum.splits)
  then show "\<exists>es. mw_trace w' = mw_trace w @ es \<and> (\<forall>e \<in> set es. A (fst e))"
  proof cases
    case 1
    then show ?thesis using calls_onlyD [OF assms(1)] by blast
  next
    case 2
    then obtain es fs where "mw_trace w1 = mw_trace w @ es" "\<forall>e \<in> set es. A (fst e)"
      "mw_trace w' = mw_trace w1 @ fs" "\<forall>e \<in> set fs. A (fst e)"
      using calls_onlyD [OF assms(1)] calls_onlyD [OF assms(2)] by metis
    then show ?thesis by (intro exI [of _ "es @ fs"]) auto
  qed
qed

lemma calls_only_if [calls_rules]:
  "(b \<Longrightarrow> calls_only A m) \<Longrightarrow> (\<not> b \<Longrightarrow> calls_only A n) \<Longrightarrow> calls_only A (if b then m else n)"
  by simp

lemma calls_only_seqs [calls_rules]:
  "(\<And>m. m \<in> set ms \<Longrightarrow> calls_only A m) \<Longrightarrow> calls_only A (seqs ms)"
  by (induction ms rule: seqs.induct) (auto intro: calls_rules)

lemma calls_only_weaken: "calls_only A m \<Longrightarrow> (\<And>c. A c \<Longrightarrow> B c) \<Longrightarrow> calls_only B m"
  unfolding calls_only_def by blast

section \<open>The calls of the exploration\<close>

definition is_start :: "mission_call \<Rightarrow> bool" where
  "is_start c \<longleftrightarrow> (case c of C_start_explorer _ \<Rightarrow> True | _ \<Rightarrow> False)"

text \<open>The calls an exploration may make; the mission around it makes the others.\<close>

definition exploration_call :: "mission_call \<Rightarrow> bool" where
  "exploration_call c \<longleftrightarrow>
     (case c of
        C_transition _ _ \<Rightarrow> True | C_run_agent_action _ _ _ \<Rightarrow> True | C_start_explorer _ \<Rightarrow> True
      | C_stop_explorer \<Rightarrow> True | C_wait_for_frontier _ \<Rightarrow> True | C_quiesce_frontier _ _ \<Rightarrow> True
      | C_stop_motion_and_wait _ _ \<Rightarrow> True | C_run_recovery_backup _ _ _ \<Rightarrow> True
      | C_note _ _ \<Rightarrow> True | _ \<Rightarrow> False)"

definition recovery_call :: "mission_call \<Rightarrow> bool" where
  "recovery_call c \<longleftrightarrow> exploration_call c \<and> \<not> is_start c"

lemma recovery_call_simps [simp]:
  "recovery_call (C_transition ph d)" "recovery_call (C_run_agent_action a b t)"
  "recovery_call C_stop_explorer" "recovery_call (C_wait_for_frontier args)"
  "recovery_call (C_quiesce_frontier r t)" "recovery_call (C_stop_motion_and_wait r t)"
  "recovery_call (C_run_recovery_backup x y t)" "recovery_call (C_note st e)"
  by (simp_all add: recovery_call_def exploration_call_def is_start_def)

lemma exploration_call_start [simp]: "exploration_call (C_start_explorer path)"
  by (simp add: exploration_call_def)

lemmas step_defs = now_def request_canceled_def reset_evidence_def raise_if_mission_canceled_def
  stop_motion_def recovery_scan_def settle_def wait_for_map_quiet_def continue_exploration_def
  wait_for_required_event_def

lemma calls_on_tracker [calls_rules]: "calls_only A (on_tracker f tracker)"
  unfolding on_tracker_def Let_def by (auto split: prod.split intro: calls_rules)

lemma calls_observe [calls_rules]: "calls_only A (observe_saturation_tracker tracker)"
  unfolding observe_saturation_tracker_def Let_def by (auto split: prod.split intro!: calls_rules)

lemma calls_cleanup [calls_rules]:
  "calls_only recovery_call (cleanup_failed_frontier_epoch p spec b)"
  unfolding cleanup_failed_frontier_epoch_def by (intro calls_rules) simp_all

lemma calls_stop_explorer_or_cleanup [calls_rules]:
  "calls_only recovery_call (stop_explorer_or_cleanup p spec)"
  unfolding stop_explorer_or_cleanup_def by (intro calls_rules) simp_all

lemma calls_finalize [calls_rules]:
  "calls_only recovery_call
     (finalize_saturation_assessment p spec tracker telemetry remaining trigger settled reason)"
  unfolding finalize_saturation_assessment_def step_defs Let_def by (intro calls_rules) simp_all

lemma calls_assess_time_budget [calls_rules]:
  "calls_only recovery_call (assess_time_budget_saturation p spec tracker telemetry remaining)"
  unfolding assess_time_budget_saturation_def step_defs by (intro calls_rules) simp_all

lemma calls_time_budget_branch [calls_rules]:
  "calls_only recovery_call (time_budget_branch p spec tracker s)"
  unfolding time_budget_branch_def step_defs Let_def by (intro calls_rules) simp_all

lemma calls_final_confirmation_branch [calls_rules]:
  "calls_only recovery_call (final_confirmation_branch p spec outcome)"
  unfolding final_confirmation_branch_def step_defs Let_def
  by (intro calls_rules) (auto intro!: calls_rules)

lemma calls_apply_recovery_decision [calls_rules]:
  "calls_only recovery_call
     (apply_recovery_decision p spec s tracker telemetry settled probe detail decision)"
  unfolding apply_recovery_decision_def step_defs
  by (cases decision) (auto intro!: calls_rules)

lemma calls_recovery_branch [calls_rules]:
  "calls_only recovery_call (recovery_branch p spec outcome tracker s)"
  unfolding recovery_branch_def recovery_relocation_def step_defs Let_def
  by (intro calls_rules) (auto intro!: calls_rules)

section \<open>How often the explorer is started\<close>

definition explorer_starts :: "'e mission_world \<Rightarrow> nat" where
  "explorer_starts w = length (filter (\<lambda>e. is_start (fst e)) (mw_trace w))"

definition start_cost :: "nat \<Rightarrow> ('e, 'a) mission \<Rightarrow> bool" where
  "start_cost n m \<longleftrightarrow>
     (\<forall>w r w'. m w = Some (r, w') \<longrightarrow> explorer_starts w' \<le> explorer_starts w + n)"

lemma start_costD: "start_cost n m \<Longrightarrow> m w = Some (r, w') \<Longrightarrow> explorer_starts w' \<le> explorer_starts w + n"
  by (auto simp: start_cost_def)

lemma start_cost_no_start: "calls_only (\<lambda>c. \<not> is_start c) m \<Longrightarrow> start_cost 0 m"
  unfolding start_cost_def explorer_starts_def
  by (auto dest!: calls_onlyD simp: filter_empty_conv)

lemma start_cost_recovery: "calls_only recovery_call m \<Longrightarrow> start_cost 0 m"
  by (rule start_cost_no_start, erule calls_only_weaken) (simp add: recovery_call_def)

lemma start_cost_command: "start_cost 1 (command p c)"
  by (auto simp: start_cost_def command_def perform_def explorer_starts_def split: prod.splits)

lemma start_cost_bind:
  assumes "start_cost a m" "\<And>x. start_cost b (k x)"
  shows "start_cost (a + b) (bind m k)"
  unfolding start_cost_def
proof (intro allI impI)
  fix w r w' assume "bind m k w = Some (r, w')"
  then consider e where "m w = Some (Inl e, w')" | x w1 where "m w = Some (Inr x, w1)"
    "k x w1 = Some (r, w')"
    by (auto simp: bind_def split: option.splits sum.splits)
  then show "explorer_starts w' \<le> explorer_starts w + (a + b)"
    using start_costD [OF assms(1), of w] start_costD [OF assms(2)] by cases fastforce+
qed

lemma start_cost_andthen: "start_cost a m \<Longrightarrow> start_cost b k \<Longrightarrow> start_cost (a + b) (andthen m k)"
  unfolding andthen_def by (rule start_cost_bind)

lemma start_cost_quiet_then: "calls_only recovery_call m \<Longrightarrow> (\<And>x. start_cost b (k x)) \<Longrightarrow>
    start_cost b (bind m k)"
  using start_cost_bind [OF start_cost_recovery] by fastforce

lemma start_cost_then_quiet: "start_cost a m \<Longrightarrow> (\<And>x. calls_only recovery_call (k x)) \<Longrightarrow>
    start_cost a (bind m k)"
  using start_cost_bind [OF _ start_cost_recovery] by fastforce

lemma run_explorer_epoch_cost: "start_cost 1 (run_explorer_epoch p spec deadline s)"
  unfolding run_explorer_epoch_def andthen_def Let_def
  by (intro start_cost_quiet_then start_cost_then_quiet start_cost_command calls_rules) simp_all

lemma explore_epoch_cost: "start_cost 1 (explore_epoch p spec deadline s)"
  unfolding explore_epoch_def
  by (intro start_cost_then_quiet run_explorer_epoch_cost)
    (auto split: prod.split intro!: calls_rules)

lemma explore_loop_cost: "start_cost (epoch_budget s + 1) (explore_loop p spec deadline s)"
  unfolding start_cost_def
proof (intro allI impI)
  fix w r w' assume "explore_loop p spec deadline s w = Some (r, w')"
  then show "explorer_starts w' \<le> explorer_starts w + (epoch_budget s + 1)"
  proof (induction p spec deadline s w arbitrary: r w' rule: explore_loop.induct)
    case (1 p spec deadline s w)
    note step = start_costD [OF explore_epoch_cost, of p spec deadline s w]
    show ?case
    proof (cases "\<exists>s1 w1. explore_epoch p spec deadline s w = Some (Inr (NextEpoch s1), w1)")
      case True
      then obtain s1 w1 where e: "explore_epoch p spec deadline s w = Some (Inr (NextEpoch s1), w1)"
        by blast
      have "explore_loop p spec deadline s1 w1 = Some (r, w')"
        using "1.prems" e by (simp add: explore_loop.simps [of p spec deadline s w])
      then have "explorer_starts w' \<le> explorer_starts w1 + (epoch_budget s1 + 1)"
        using "1.IH" e by blast
      moreover have "epoch_budget s1 < epoch_budget s"
        using yieldsD [OF explore_epoch_spends e] by (simp add: spends_def)
      ultimately show ?thesis using step [OF e] by linarith
    next
      case False
      then obtain r1 where "explore_epoch p spec deadline s w = Some (r1, w')"
        using "1.prems" by (auto simp: explore_loop.simps [of p spec deadline s w]
            split: option.splits sum.splits epoch_result.splits)
      then show ?thesis using step by fastforce
    qed
  qed
qed

section \<open>The transactions return\<close>

text \<open>What the transactions rely on of the clock: it gives finite readings that never go back, and
  a timed wait takes some time.\<close>

definition clock_progress :: "'e mission_port \<Rightarrow> ('e env \<Rightarrow> real) \<Rightarrow> real \<Rightarrow> bool" where
  "clock_progress p time delta \<longleftrightarrow> 0 < delta \<and>
     (\<forall>env. fst (mp_clock p env) = Fin (time env) \<and> time env \<le> time (snd (mp_clock p env))
        \<and> time env \<le> time (snd (mp_canceled p env))
        \<and> (\<forall>t. time env + delta \<le> time (mp_pass p t env)))"

definition ticks_left :: "real \<Rightarrow> real \<Rightarrow> real \<Rightarrow> nat" where
  "ticks_left deadline delta t = nat \<lceil>(deadline - t) / delta\<rceil>"

lemma ticks_left_less:
  assumes "0 < delta" "t < deadline" "t + delta \<le> t'"
  shows "ticks_left deadline delta t' < ticks_left deadline delta t"
proof -
  have "(deadline - t') / delta \<le> (deadline - t) / delta - 1"
    using assms divide_right_mono [of "deadline - t'" "deadline - t - delta" delta]
    by (simp add: diff_divide_distrib)
  then have "\<lceil>(deadline - t') / delta\<rceil> \<le> \<lceil>(deadline - t) / delta\<rceil> - 1" by linarith
  moreover have "0 < (deadline - t) / delta" using assms by simp
  then have "0 < \<lceil>(deadline - t) / delta\<rceil>" by linarith
  ultimately show ?thesis by (simp add: ticks_left_def)
qed

lemma clock_progressD:
  assumes "clock_progress p time delta" "mp_canceled p env = (c, env1)" "mp_clock p env1 = (t, env2)"
  shows "t = Fin (time env1)" "time env \<le> time env1" "0 < delta"
    "time env + delta \<le> time (mp_pass p x env2)"
proof -
  have all: "fst (mp_clock p e) = Fin (time e)" "time e \<le> time (snd (mp_clock p e))"
    "time e \<le> time (snd (mp_canceled p e))" "time e + delta \<le> time (mp_pass p x e)" for e x
    using assms(1) unfolding clock_progress_def by blast+
  show "t = Fin (time env1)" using all(1) [of env1] assms(3) by simp
  show 1: "time env \<le> time env1" using all(3) [of env] assms(2) by simp
  show "0 < delta" using assms(1) by (simp add: clock_progress_def)
  show "time env + delta \<le> time (mp_pass p x env2)"
    using all(2) [of env1] all(4) [of env2 x] 1 assms(3) by simp
qed

lemma map_quiet_loop_returns:
  assumes "clock_progress p time delta"
  shows "\<exists>r env'. map_quiet_loop p (Fin deadline) quiet_s env = Some (r, env')"
proof (induction "ticks_left deadline delta (time env)" arbitrary: env rule: less_induct)
  case less
  obtain canceled env1 where c: "mp_canceled p env = (canceled, env1)" by (cases "mp_canceled p env")
  obtain t env2 where t: "mp_clock p env1 = (t, env2)" by (cases "mp_clock p env1")
  note mono = clock_progressD [OF assms c t]
  have IH: "\<exists>r env'. map_quiet_loop p (Fin deadline) quiet_s (mp_pass p x env2) = Some (r, env')"
    if "time env1 < deadline" for x
    using mono that by (intro less ticks_left_less) auto
  show ?case
    unfolding map_quiet_loop.simps [of p "Fin deadline" quiet_s env]
    using IH by (auto simp: c t mono(1) Let_def zero_fin split: sum.splits)
qed

lemma required_event_loop_returns:
  assumes "clock_progress p time delta"
  shows "\<exists>r env'. required_event_loop p (Fin deadline) poll_s env = Some (r, env')"
proof (induction "ticks_left deadline delta (time env)" arbitrary: env rule: less_induct)
  case less
  obtain canceled env1 where c: "mp_canceled p env = (canceled, env1)" by (cases "mp_canceled p env")
  obtain t env2 where t: "mp_clock p env1 = (t, env2)" by (cases "mp_clock p env1")
  note mono = clock_progressD [OF assms c t]
  have IH: "\<exists>r env'. required_event_loop p (Fin deadline) poll_s (mp_pass p x env2) = Some (r, env')"
    if "time env1 < deadline" for x
    using mono that by (intro less ticks_left_less) auto
  show ?case
    unfolding required_event_loop.simps [of p "Fin deadline" poll_s env]
    using IH by (auto simp: c t mono(1) Let_def zero_fin)
qed

definition any_world :: "'w \<Rightarrow> bool" where
  "any_world _ \<longleftrightarrow> True"

lemma returns_port [returns_rules]:
  "returns any_world (perform c f)" "returns any_world (command p c')"
  "returns any_world (read_env g)" "returns any_world (on_evidence h)"
  "returns any_world take_snapshot" "returns any_world (add_note stage e)"
  by (auto simp: returns_def any_world_def perform_def command_def read_env_def query_def
      on_evidence_def take_snapshot_def add_note_def modify_def lift_result_def split: prod.split)

lemma returns_seqs [returns_rules]:
  "(\<And>m. m \<in> set ms \<Longrightarrow> returns P m) \<Longrightarrow> returns P (seqs ms)"
  by (induction ms rule: seqs.induct) (auto intro: returns_rules)

lemma returns_on_tracker [returns_rules]: "returns any_world (on_tracker f tracker)"
  unfolding on_tracker_def Let_def by (auto split: prod.split intro: returns_rules)

lemma returns_observe [returns_rules]: "returns any_world (observe_saturation_tracker tracker)"
  unfolding observe_saturation_tracker_def Let_def
  by (intro returns_rules) (auto split: prod.split intro!: returns_rules)

text \<open>The finite budgets that a checked specification has.\<close>

definition finite_budgets :: "UnknownWorldMissionSpec \<Rightarrow> bool" where
  "finite_budgets spec \<longleftrightarrow>
     list_all isfinite [uw_scan_startup_timeout_s spec, uw_exploration_timeout_s spec,
       uw_action_timeout_s spec, uw_map_settle_s spec, uw_return_map_settle_s spec]
     \<and> 0 \<le> uw_max_recovery_attempts spec"

lemma checked_spec_finite: "unknown_world_mission_spec spec = Inr spec' \<Longrightarrow> finite_budgets spec"
  by (auto simp: unknown_world_mission_spec_def finite_budgets_def split: if_splits)

lemma pymax_finite: "isfinite a \<Longrightarrow> isfinite b \<Longrightarrow> isfinite (pymax a b)"
  by (simp add: pymax_def)

lemma returns_now_bind:
  fixes p :: "'a mission_port"
  assumes "clock_progress p time delta" "\<And>t. returns any_world (k (Fin t))"
  shows "returns any_world (bind (now p) k)"
  unfolding returns_def
proof (intro allI impI)
  fix w :: "'a mission_world"
  obtain t env where "mp_clock p (mw_env w) = (Fin t, env)"
    using assms(1) unfolding clock_progress_def by (metis prod.exhaust_sel)
  then have "now p w = Some (Inr (Fin t), w\<lparr>mw_env := env\<rparr>)"
    by (simp add: now_def read_env_def query_def)
  then show "\<exists>r w'. bind (now p) k w = Some (r, w') \<and> any_world w'"
    using returnsD [OF assms(2)] by (simp add: bind_def any_world_def)
qed

lemma returns_on_env:
  "(\<And>env. \<exists>r env'. f env = Some (r, env')) \<Longrightarrow> returns any_world (on_env f)"
  unfolding returns_def on_env_def any_world_def
  by (auto split: option.split)

lemma returns_wait_for_map_quiet:
  assumes "clock_progress p time delta" "isfinite budget"
  shows "returns any_world (bind (now p) (\<lambda>t. wait_for_map_quiet p spec (t + budget) q))"
proof -
  obtain b where "budget = Fin b" using assms(2) by blast
  then show ?thesis
    unfolding wait_for_map_quiet_def
    by (simp, intro returns_now_bind [OF assms(1)] returns_on_env, simp only: flt_fin(3))
      (rule map_quiet_loop_returns [OF assms(1)])
qed

lemma returns_settle:
  assumes "clock_progress p time delta" "finite_budgets spec"
  shows "returns any_world (settle p spec q)"
  unfolding settle_def using assms
  by (intro returns_wait_for_map_quiet [OF assms(1)] pymax_finite) (auto simp: finite_budgets_def)

lemma returns_wait_for_required_event:
  assumes "clock_progress p time delta" "isfinite timeout_s"
  shows "returns any_world (wait_for_required_event p timeout_s)"
proof -
  obtain b where "pymax 0 timeout_s = Fin b"
    using pymax_finite [of 0 timeout_s] assms(2) by (auto simp: zero_fin isfinite_iff)
  then show ?thesis
    unfolding wait_for_required_event_def
    by (simp, intro returns_now_bind [OF assms(1)] returns_on_env, simp only: flt_fin(3))
      (rule required_event_loop_returns [OF assms(1)])
qed

lemmas simple_steps = now_def request_canceled_def reset_evidence_def
  raise_if_mission_canceled_def stop_motion_def recovery_scan_def continue_exploration_def

lemma returns_cleanup [returns_rules]: "returns any_world (cleanup_failed_frontier_epoch p spec b)"
  unfolding cleanup_failed_frontier_epoch_def by (intro returns_rules)

lemma returns_stop_explorer_or_cleanup [returns_rules]:
  "returns any_world (stop_explorer_or_cleanup p spec)"
  unfolding stop_explorer_or_cleanup_def by (intro returns_rules)

lemma returns_run_explorer_epoch [returns_rules]:
  "returns any_world (run_explorer_epoch p spec deadline s)"
  unfolding run_explorer_epoch_def Let_def by (intro returns_rules)

lemma returns_finalize [returns_rules]:
  "returns any_world
     (finalize_saturation_assessment p spec tracker telemetry remaining trigger settled reason)"
  unfolding finalize_saturation_assessment_def simple_steps Let_def by (intro returns_rules)

lemma returns_explore_epoch:
  assumes "clock_progress p time delta" "finite_budgets spec"
  shows "returns any_world (explore_epoch p spec deadline s)"
proof -
  note settle = returns_settle [OF assms]
  have budget: "returns any_world (time_budget_branch p spec tracker s)" for tracker
    unfolding time_budget_branch_def assess_time_budget_saturation_def simple_steps Let_def
    by (intro returns_rules settle)
  have final: "returns any_world (final_confirmation_branch p spec outcome)" for outcome
    unfolding final_confirmation_branch_def simple_steps Let_def
    by (intro returns_rules) (auto intro!: returns_rules)
  have "returns any_world (apply_recovery_decision p spec s tracker telemetry settled probe d dec)"
    for tracker telemetry settled probe d dec
    unfolding apply_recovery_decision_def simple_steps by (cases dec) (auto intro!: returns_rules)
  then have recovery: "returns any_world (recovery_branch p spec outcome tracker s)" for outcome tracker
    unfolding recovery_branch_def recovery_relocation_def simple_steps Let_def
    by (intro returns_rules settle) (auto intro!: returns_rules)
  show ?thesis
    unfolding explore_epoch_def
    by (intro returns_rules) (auto split: prod.split intro!: returns_rules budget final recovery)
qed

lemma explore_loop_returns:
  assumes "clock_progress p time delta" "finite_budgets spec"
  shows "\<exists>r w'. explore_loop p spec deadline s w = Some (r, w')"
  using assms
proof (induction p spec deadline s w rule: explore_loop.induct)
  case (1 p spec deadline s w)
  obtain r w1 where e: "explore_epoch p spec deadline s w = Some (r, w1)"
    using returnsD [OF returns_explore_epoch [OF "1.prems", of deadline s], of w]
    by (auto simp: any_world_def)
  then show ?case
    using "1.IH" [OF e] "1.prems"
    by (cases r) (auto simp: explore_loop.simps [of p spec deadline s w] split: epoch_result.split)
qed

lemma explore_with_bounded_recovery_returns:
  assumes "clock_progress p time delta" "finite_budgets spec"
  shows "returns any_world (explore_with_bounded_recovery p spec)"
proof -
  have "returns any_world (explore_loop p spec d s)" for d s
    using explore_loop_returns [OF assms] by (auto simp: returns_def any_world_def)
  then show ?thesis
    unfolding explore_with_bounded_recovery_def now_def by (intro returns_rules)
qed

lemma explore_with_bounded_recovery_cost:
  assumes "0 \<le> uw_max_recovery_attempts spec"
  shows "start_cost (nat (uw_max_recovery_attempts spec) + 2) (explore_with_bounded_recovery p spec)"
proof -
  have "start_cost (nat (uw_max_recovery_attempts spec) + 2) (explore_loop p spec d
     \<lparr>es_remaining = uw_max_recovery_attempts spec, es_tracker = tracker_init, es_epoch_id = 0,
      es_final_confirmation_active = False, es_final_confirmation_deadline = None\<rparr>)" for d
    using explore_loop_cost [of "\<lparr>es_remaining = uw_max_recovery_attempts spec,
      es_tracker = tracker_init, es_epoch_id = 0, es_final_confirmation_active = False,
      es_final_confirmation_deadline = None\<rparr>" p spec d] by (simp add: epoch_budget_def)
  then show ?thesis
    unfolding explore_with_bounded_recovery_def now_def by (intro start_cost_quiet_then calls_rules)
qed

lemma is_start_simps [simp]:
  "\<not> is_start (C_transition ph d)" "\<not> is_start (C_feedback x)" "\<not> is_start (C_run_agent_action a b t)"
  "\<not> is_start (C_capture_mapping_start_pose t)" "\<not> is_start (C_run_mapping_return_goal ps rs t)"
  "\<not> is_start (C_record_mapping_completion r ev asm rt)" "\<not> is_start C_save_map"
  "\<not> is_start C_start_navigation" "\<not> is_start C_wait_navigation_ready"
  "\<not> is_start (C_select_mapped_navigation_goals n sd sep cl t)"
  "\<not> is_start (C_run_navigation_goal i g t)"
  by (simp_all add: is_start_def)

lemma calls_only_each [calls_rules]:
  "(\<And>x. x \<in> set xs \<Longrightarrow> calls_only A (f x)) \<Longrightarrow> calls_only A (each f xs)"
  by (induction xs) (auto intro: calls_rules)

lemma calls_after_exploration:
  "calls_only (\<lambda>c. \<not> is_start c) (mission_return_and_save p spec pose out)"
  "calls_only (\<lambda>c. \<not> is_start c) (mission_navigation p spec reason)"
  unfolding mission_return_and_save_def mission_navigation_def select_goals_def step_defs
    navigation_goal_step_def
  by (intro calls_rules; auto intro!: calls_rules)+

lemma unknown_run_transaction_cost:
  assumes "0 \<le> uw_max_recovery_attempts spec"
  shows "start_cost (nat (uw_max_recovery_attempts spec) + 2) (unknown_run_transaction p spec)"
proof -
  have quiet: "start_cost 0 (ret x)" for x :: 'b by (intro start_cost_no_start calls_rules)
  have before: "start_cost 0 (seqs
      [command p (C_transition AUTOMATIC_MAPPING ''unknown-world sensor initialization''),
       command p (C_feedback 0.03),
       (if mp_dry_run p then skip
        else bind (wait_for_required_event p (uw_scan_startup_timeout_s spec)) (\<lambda>ready.
               guard ready (TimeoutError ''mapping scan did not become ready'')))])"
    "start_cost 0 (seqs
      [command p (C_run_agent_action (uw_initial_scan_text spec) ''turn'' (uw_action_timeout_s spec)),
       reset_evidence p False, on_evidence begin_mapping_path])"
    "start_cost 0 (perform (C_capture_mapping_start_pose t) f)" for t f
    unfolding step_defs by (rule start_cost_no_start; intro calls_rules; auto intro!: calls_rules)+
  have mapping: "start_cost (0 + (0 + (0 + (nat (uw_max_recovery_attempts spec) + 2 + 0))))
      (mission_mapping p spec)"
    unfolding mission_mapping_def
    by (intro start_cost_bind start_cost_andthen before quiet
        explore_with_bounded_recovery_cost [OF assms])
  have "start_cost 0 (andthen (mission_return_and_save p spec pose out)
      (mission_navigation p spec (xo_completion_reason out)))" for pose out
    by (intro start_cost_no_start calls_rules calls_after_exploration)
  then have "start_cost (0 + (0 + (0 + (nat (uw_max_recovery_attempts spec) + 2 + 0))) + 0)
      (unknown_run_transaction p spec)"
    unfolding unknown_run_transaction_def
    by (intro start_cost_bind mapping) (auto split: prod.split)
  then show ?thesis by simp
qed

lemma unknown_run_transaction_returns:
  assumes "clock_progress p time delta" "finite_budgets spec"
  shows "returns any_world (unknown_run_transaction p spec)"
proof -
  have quiet: "returns any_world (bind (now p) (\<lambda>t. bind (wait_for_map_quiet p spec
      (t + pymax (uw_return_map_settle_s spec) (uw_action_timeout_s spec)) q) k))"
    if "\<And>x. returns any_world (k x)" for k q
  proof -
    have "bind (now p) (\<lambda>t. bind (wait_for_map_quiet p spec
        (t + pymax (uw_return_map_settle_s spec) (uw_action_timeout_s spec)) q) k)
      = bind (bind (now p) (\<lambda>t. wait_for_map_quiet p spec
        (t + pymax (uw_return_map_settle_s spec) (uw_action_timeout_s spec)) q)) k"
      by (auto simp: bind_def split: option.split sum.split prod.split)
    then show ?thesis
      using assms that by (auto intro!: returns_bind returns_wait_for_map_quiet [OF assms(1)]
          pymax_finite simp: finite_budgets_def)
  qed
  have event: "returns any_world (wait_for_required_event p (uw_scan_startup_timeout_s spec))"
    using assms by (intro returns_wait_for_required_event [OF assms(1)]) (simp add: finite_budgets_def)
  have "returns any_world (mission_mapping p spec)"
    unfolding mission_mapping_def simple_steps
    by (intro returns_rules explore_with_bounded_recovery_returns [OF assms])
      (auto intro!: returns_rules event)
  moreover have "returns any_world (mission_return_and_save p spec pose out)" for pose out
    unfolding mission_return_and_save_def
    by (intro returns_rules quiet) (auto simp: simple_steps intro!: returns_rules)
  moreover have "returns any_world (mission_navigation p spec reason)" for reason
    unfolding mission_navigation_def select_goals_def navigation_goal_step_def simple_steps
    by (intro returns_rules) (auto split: prod.split intro!: returns_rules)
  ultimately show ?thesis
    unfolding unknown_run_transaction_def
    by (intro returns_rules) (auto split: prod.split intro!: returns_rules)
qed

text \<open>C27. An unknown-world mission always ends. With a checked specification and a clock that
  advances while the code waits, the mission returns or raises, it has started the explorer at most
  twice more often than the recovery attempts it is allowed, and it no longer records the mapping
  path.\<close>

theorem unknown_mission_ends:
  fixes w :: "'e mission_world"
  assumes "clock_progress p time delta" "unknown_world_mission_spec spec = Inr spec'"
  shows "\<exists>r w'. unknown_run p spec w = Some (r, w')
    \<and> int (explorer_starts w') \<le> int (explorer_starts w) + uw_max_recovery_attempts spec + 2
    \<and> \<not> mt_record_mapping_path (snd (mw_env w'))"
proof -
  note fin = checked_spec_finite [OF assms(2)]
  obtain r w1 where t: "unknown_run_transaction p spec w = Some (r, w1)"
    using returnsD [OF unknown_run_transaction_returns [OF assms(1) fin], of w]
    by (auto simp: any_world_def)
  have max: "0 \<le> uw_max_recovery_attempts spec" using fin by (simp add: finite_budgets_def)
  have starts: "explorer_starts w1 \<le> explorer_starts w + (nat (uw_max_recovery_attempts spec) + 2)"
    by (rule start_costD [OF unknown_run_transaction_cost [OF max] t])
  have "unknown_run p spec w
      = Some (r, w1\<lparr>mw_env := map_prod id finish_mapping_path (mw_env w1)\<rparr>)"
    by (simp add: unknown_run_def ensure_def t on_evidence_def modify_def)
  then show ?thesis
    using starts max by (auto simp: explorer_starts_def finish_mapping_path_def)
qed

section \<open>No motion beside a running explorer\<close>

text \<open>The motion state a trace leads to: whether the explorer runs, and whether a STOP has succeeded
  since the explorer was last started. A start counts even when it raises, a stop only when it
  returns. A scan or a backup needs a stopped explorer and a STOP, a navigation goal a stopped
  explorer; \<open>None\<close> records a violation.\<close>

fun motion_step :: "mission_call \<times> bool \<Rightarrow> (bool \<times> bool) option \<Rightarrow> (bool \<times> bool) option" where
  "motion_step e None = None"
| "motion_step (C_start_explorer path, ok) (Some (runs, halted)) = Some (True, False)"
| "motion_step (C_stop_explorer, ok) (Some (runs, halted)) = Some (runs \<and> \<not> ok, halted)"
| "motion_step (C_stop_motion_and_wait r t, ok) (Some (runs, halted)) = Some (runs, halted \<or> ok)"
| "motion_step (C_run_agent_action a b t, ok) (Some (runs, halted)) =
     (if runs \<or> \<not> halted then None else Some (runs, halted))"
| "motion_step (C_run_recovery_backup d s t, ok) (Some (runs, halted)) =
     (if runs \<or> \<not> halted then None else Some (runs, halted))"
| "motion_step (C_run_mapping_return_goal ps sp t, ok) (Some (runs, halted)) =
     (if runs then None else Some (runs, halted))"
| "motion_step (C_run_navigation_goal i g t, ok) (Some (runs, halted)) =
     (if runs then None else Some (runs, halted))"
| "motion_step e (Some st) = Some st"

definition motion_state :: "(mission_call \<times> bool) list \<Rightarrow> (bool \<times> bool) option" where
  "motion_state trace = fold motion_step trace (Some (False, True))"

lemma motion_state_append: "motion_state (xs @ [e]) = motion_step e (motion_state xs)"
  by (simp add: motion_state_def)

text \<open>Levels of safety of a world: no violation so far; the explorer stopped; and a STOP since.\<close>

datatype level = Safe | Idle | Parked

fun holds :: "level \<Rightarrow> 'e mission_world \<Rightarrow> bool" where
  "holds Safe w \<longleftrightarrow> motion_state (mw_trace w) \<noteq> None"
| "holds Idle w \<longleftrightarrow> (\<exists>h. motion_state (mw_trace w) = Some (False, h))"
| "holds Parked w \<longleftrightarrow> motion_state (mw_trace w) = Some (False, True)"

fun at_least :: "level \<Rightarrow> level \<Rightarrow> bool" where
  "at_least Safe b \<longleftrightarrow> b = Safe"
| "at_least Idle b \<longleftrightarrow> b \<noteq> Parked"
| "at_least Parked b \<longleftrightarrow> True"

lemma holds_at_least: "at_least a b \<Longrightarrow> holds a w \<Longrightarrow> holds b w"
  by (cases a; cases b) auto

lemma holds_safe: "holds a w \<Longrightarrow> holds Safe w"
  by (cases a) auto

declare holds.simps [simp del]

definition stage :: "level \<Rightarrow> ('e, 'a) mission \<Rightarrow> level \<Rightarrow> bool" where
  "stage a m b \<longleftrightarrow> triple (holds a) m (\<lambda>_. holds b) (\<lambda>_. holds Safe)"

lemma stageD:
  assumes "stage a m b" "holds a w" "m w = Some (r, w')"
  shows "holds Safe w'" "\<not> is_error r \<Longrightarrow> holds b w'"
proof -
  note t = assms(1) [unfolded stage_def]
  show "holds Safe w'"
    using triple_error [OF t assms(2)] triple_normal [OF t assms(2)] assms(3) holds_safe
    by (cases r) auto
  show "\<not> is_error r \<Longrightarrow> holds b w'"
    using triple_normal [OF t assms(2)] assms(3) by (cases r) auto
qed

lemma stage_weaken: "stage a m b \<Longrightarrow> at_least a' a \<Longrightarrow> at_least b b' \<Longrightarrow> stage a' m b'"
  unfolding stage_def by (erule triple_weaken) (auto intro: holds_at_least)

named_theorems stage_rules \<open>motion safety of procedures\<close>

lemma stage_ret [stage_rules]: "at_least a b \<Longrightarrow> stage a (ret x) b"
  unfolding stage_def by (rule triple_pre [OF triple_ret]) (rule holds_at_least)

lemma stage_raise [stage_rules]: "stage a (raise e) b"
  unfolding stage_def by (rule triple_pre [OF triple_raise]) (rule holds_safe)

lemma stage_bind [stage_rules]: "stage a m b \<Longrightarrow> (\<And>x. stage b (k x) c) \<Longrightarrow> stage a (bind m k) c"
  unfolding stage_def by (rule triple_bind)

lemma stage_andthen [stage_rules]: "stage a m b \<Longrightarrow> stage b k c \<Longrightarrow> stage a (andthen m k) c"
  unfolding andthen_def by (rule stage_bind)

lemma stage_catch:
  "triple (holds a) m (\<lambda>_. holds b) (\<lambda>_. holds c) \<Longrightarrow> (\<And>e. stage c (h e) b) \<Longrightarrow>
     stage a (catch m h) b"
  unfolding stage_def by (rule triple_catch)

lemma stage_if [stage_rules]:
  "(b \<Longrightarrow> stage a m c) \<Longrightarrow> (\<not> b \<Longrightarrow> stage a n c) \<Longrightarrow> stage a (if b then m else n) c"
  by simp

text \<open>Calls that leave the motion state alone, and calls that never violate it.\<close>

definition neutral_call :: "mission_call \<Rightarrow> bool" where
  "neutral_call c \<longleftrightarrow> (\<forall>ok st. motion_step (c, ok) (Some st) = Some st)"

definition harmless_call :: "mission_call \<Rightarrow> bool" where
  "harmless_call c \<longleftrightarrow> (\<forall>ok st. motion_step (c, ok) (Some st) \<noteq> None)"

lemma neutral_call_simps [simp]:
  "neutral_call (C_transition ph d)" "neutral_call (C_feedback x)"
  "neutral_call (C_wait_for_frontier args)" "neutral_call (C_quiesce_frontier r t)"
  "neutral_call (C_note st e)" "neutral_call (C_capture_mapping_start_pose t)"
  "neutral_call (C_record_mapping_completion rs ev asm rt)" "neutral_call C_save_map"
  "neutral_call C_start_navigation" "neutral_call C_wait_navigation_ready"
  "neutral_call (C_select_mapped_navigation_goals n sd sep cl t)"
  by (simp_all add: neutral_call_def)

lemma neutral_harmless: "neutral_call c \<Longrightarrow> harmless_call c"
  by (auto simp: neutral_call_def harmless_call_def)

lemma harmless_call_simps [simp]:
  "harmless_call (C_start_explorer path)" "harmless_call C_stop_explorer"
  "harmless_call (C_stop_motion_and_wait r t)"
  by (auto simp: harmless_call_def)

lemma neutral_trace:
  "\<forall>e \<in> set es. neutral_call (fst e) \<Longrightarrow> fold motion_step es (Some st) = Some st"
  by (induction es) (auto simp: neutral_call_def simp del: split_paired_All)

lemma harmless_trace:
  "\<forall>e \<in> set es. harmless_call (fst e) \<Longrightarrow> fold motion_step es (Some st) \<noteq> None"
  by (induction es arbitrary: st) (auto simp: harmless_call_def, metis option.exhaust)

lemma neutral_keeps: "calls_only neutral_call m \<Longrightarrow> m w = Some (r, w') \<Longrightarrow> holds a w \<Longrightarrow> holds a w'"
  using holds_safe [of a w]
  by (cases a) (auto dest!: calls_onlyD simp: motion_state_def neutral_trace holds.simps)

lemma triple_neutral:
  "calls_only neutral_call m \<Longrightarrow> triple (holds a) m (\<lambda>_. holds a) (\<lambda>_. holds a)"
  unfolding triple_def by (auto split: option.split sum.split dest: neutral_keeps)

lemma stage_neutral: "calls_only neutral_call m \<Longrightarrow> stage a m a"
  unfolding stage_def
  by (rule triple_weaken [OF triple_neutral [where a = a]]) (auto intro: holds_safe)

lemma stage_harmless: "calls_only harmless_call m \<Longrightarrow> stage Safe m Safe"
  unfolding stage_def triple_def
  by (auto split: option.split sum.split dest!: calls_onlyD simp: motion_state_def holds.simps)
    (metis harmless_trace option.exhaust surj_pair)+

text \<open>The stages of the executor's steps.\<close>

lemma triple_command_step:
  "triple (\<lambda>w. \<forall>ok. Q (motion_step (c, ok) (motion_state (mw_trace w))) ok) (command p c)
     (\<lambda>_ w. Q (motion_state (mw_trace w)) True) (\<lambda>_ w. Q (motion_state (mw_trace w)) False)"
  by (auto simp: triple_def command_def perform_def motion_state_append split: prod.split sum.split)

lemma stage_command:
  assumes "\<And>w :: 'e mission_world. holds a w \<Longrightarrow> \<exists>st. motion_state (mw_trace w) = Some st
    \<and> motion_step (c, True) (Some st) \<in> B \<and> motion_step (c, False) (Some st) \<noteq> None"
    and "\<And>w :: 'e mission_world. motion_state (mw_trace w) \<in> B \<Longrightarrow> holds b w"
  shows "stage a (command p c :: ('e, unit) mission) b"
  unfolding stage_def
  by (rule triple_weaken [OF triple_command_step
        [where Q = "\<lambda>st ok. if ok then st \<in> B else st \<noteq> None"]])
    (use assms in \<open>auto simp: holds.simps split: if_splits dest!: assms(1)\<close>)

lemma stage_stop_motion [stage_rules]:
  "stage Parked (stop_motion p spec) Parked" "stage Idle (stop_motion p spec) Parked"
  unfolding stop_motion_def
  by (rule stage_command [where B = "{Some (False, True)}"]; auto simp: holds.simps)+

lemma stage_recovery_scan [stage_rules]: "stage Parked (recovery_scan p spec) Parked"
  unfolding recovery_scan_def
  by (rule stage_command [where B = "{Some (False, True)}"]) (auto simp: holds.simps)

lemma stage_backup: "stage Parked (perform (C_run_recovery_backup d s t) f) Parked"
  by (auto simp: stage_def triple_def perform_def holds.simps motion_state_append
      split: prod.split sum.split)

lemma stage_steps [stage_rules]:
  "stage a (on_evidence f) a" "stage a take_snapshot a" "stage a (observe_saturation_tracker t) a"
  "stage a (on_tracker g t) a" "stage a (lift_result r) a" "stage a (now p) a"
  "stage a (raise_if_mission_canceled p text) a" "stage a (settle p spec q) a"
  "stage a (continue_exploration p) a" "stage a (guard ok e) a" "stage a skip a"
  "stage a (reset_evidence p b) a" "stage a (wait_for_required_event p tm) a"
  unfolding step_defs by (rule stage_neutral; intro calls_rules)+

lemma stage_neutral_command [stage_rules]: "neutral_call c \<Longrightarrow> stage a (command p c) a"
  by (intro stage_neutral calls_rules)

lemma stage_neutral_perform [stage_rules]: "neutral_call c \<Longrightarrow> stage a (perform c f) a"
  by (intro stage_neutral calls_rules)

lemma stage_relocation [stage_rules]: "stage Parked (recovery_relocation p spec outcome n) Parked"
  unfolding recovery_relocation_def Let_def by (rule stage_backup stage_rules | simp)+

lemma stage_stop_explorer_or_cleanup [stage_rules]:
  "stage Safe (stop_explorer_or_cleanup p spec) Idle"
  unfolding stop_explorer_or_cleanup_def
proof (rule stage_catch [where c = Safe])
  have "stage Safe (command p C_stop_explorer) Idle"
    by (rule stage_command [where B = "{Some (False, True), Some (False, False)}"])
      (auto simp: holds.simps)
  then show "triple (holds Safe) (command p C_stop_explorer) (\<lambda>_. holds Idle) (\<lambda>_. holds Safe)"
    by (simp add: stage_def)
  show "stage Safe (andthen (cleanup_failed_frontier_epoch p spec False) (raise e)) Idle" for e
    unfolding cleanup_failed_frontier_epoch_def
    by (intro stage_andthen [OF stage_harmless] stage_raise calls_rules)
      (auto intro: neutral_harmless)
qed

lemma stage_run_explorer_epoch [stage_rules]:
  "stage Safe (run_explorer_epoch p spec deadline s) Safe"
  unfolding run_explorer_epoch_def cleanup_failed_frontier_epoch_def Let_def
  by (intro stage_harmless calls_rules) (auto intro: neutral_harmless)

lemma stage_finalize [stage_rules]:
  "stage Parked
     (finalize_saturation_assessment p spec tracker telemetry remaining trigger settled reason) Parked"
  unfolding finalize_saturation_assessment_def Let_def by (rule stage_rules | simp)+

lemma stage_assess_time_budget [stage_rules]:
  "stage Idle (assess_time_budget_saturation p spec tracker telemetry remaining) Parked"
  unfolding assess_time_budget_saturation_def by (rule stage_rules | simp)+

lemma stage_time_budget_branch [stage_rules]: "stage Safe (time_budget_branch p spec tracker s) Idle"
  unfolding time_budget_branch_def Let_def by (rule stage_rules | simp)+

lemma stage_final_confirmation_branch [stage_rules]:
  "stage Idle (final_confirmation_branch p spec outcome) Idle"
  unfolding final_confirmation_branch_def Let_def seqs.simps by (rule stage_rules | simp)+

lemma stage_apply_recovery_decision [stage_rules]:
  "stage Parked
     (apply_recovery_decision p spec s tracker telemetry settled probe detail decision) Idle"
  unfolding apply_recovery_decision_def
  by (cases decision; simp; (rule stage_rules | simp)+)

lemma stage_recovery_branch [stage_rules]:
  "stage Idle (recovery_branch p spec outcome tracker s) Idle"
  unfolding recovery_branch_def Let_def seqs.simps by (rule stage_rules | simp)+

lemma stage_explore_epoch [stage_rules]: "stage Safe (explore_epoch p spec deadline s) Idle"
  unfolding explore_epoch_def
  by (rule stage_bind [OF stage_run_explorer_epoch], split prod.split, intro allI impI)
    (rule stage_rules | simp)+

lemma triple_explore_loop:
  assumes "\<And>s. triple P (explore_epoch p spec d s) (\<lambda>_. Q) R" "\<And>w. Q w \<Longrightarrow> P w"
  shows "triple P (explore_loop p spec d s) (\<lambda>_. Q) R"
proof -
  have "explore_loop p spec d s w = Some (r, w') \<Longrightarrow> P w \<Longrightarrow>
      (case r of Inl e \<Rightarrow> R e w' | Inr _ \<Rightarrow> Q w')" for w r w'
    using assms(1)
  proof (induction p spec d s w arbitrary: r w' rule: explore_loop.induct)
    case (1 p spec d s w)
    obtain r1 w1 where e: "explore_epoch p spec d s w = Some (r1, w1)"
      using "1.prems"(1) by (auto simp: explore_loop.simps [of p spec d s w] split: option.splits)
    note t = "1.prems"(3) [of s]
    show ?case
    proof (cases "\<exists>s1. r1 = Inr (NextEpoch s1)")
      case True
      then obtain s1 where s1: "r1 = Inr (NextEpoch s1)" by blast
      have "explore_loop p spec d s1 w1 = Some (r, w')"
        using "1.prems"(1) e s1 by (simp add: explore_loop.simps [of p spec d s w])
      moreover have "P w1" using triple_normal [OF t "1.prems"(2)] e s1 assms(2) by simp
      ultimately show ?thesis using "1.IH" [OF e refl s1 refl] "1.prems"(3) by simp
    next
      case False
      then show ?thesis
        using "1.prems"(1) e triple_normal [OF t "1.prems"(2)] triple_error [OF t "1.prems"(2)]
        by (auto simp: explore_loop.simps [of p spec d s w] split: sum.splits epoch_result.splits)
    qed
  qed
  then show ?thesis
    unfolding triple_def by (auto split: option.split sum.split)
qed

lemma stage_explore_loop [stage_rules]: "stage Safe (explore_loop p spec deadline s) Idle"
  using stage_explore_epoch holds_safe unfolding stage_def by (rule triple_explore_loop)

lemma stage_navigation_goal:
  "stage Idle (command p (C_run_navigation_goal i g t)) Idle"
  "stage Idle (perform (C_run_mapping_return_goal ps sp t) f) Idle"
  by (auto simp: stage_def triple_def command_def perform_def holds.simps motion_state_append
      split: prod.split sum.split)

lemma stage_initial_scan: "stage Parked (command p (C_run_agent_action text action t)) Parked"
  by (rule stage_command [where B = "{Some (False, True)}"]) (auto simp: holds.simps)

lemma at_least_Safe [simp]: "at_least a Safe"
  by (cases a) auto

lemma at_least_refl [simp]: "at_least a a"
  by (cases a) auto

lemma stage_explore [stage_rules]: "stage a (explore_with_bounded_recovery p spec) Idle"
proof -
  have "stage a (explore_loop p spec d s) Idle" for d s
    by (rule stage_weaken [OF stage_explore_loop]) simp_all
  then show ?thesis
    unfolding explore_with_bounded_recovery_def by (rule stage_bind [OF stage_steps(6)])
qed

lemma stage_each:
  "(\<And>x. x \<in> set xs \<Longrightarrow> stage a (f x) a) \<Longrightarrow> stage a (each f xs) a"
  by (induction xs) (auto intro: stage_steps(11) stage_andthen)

lemma stage_mission_mapping: "stage Parked (mission_mapping p spec) Idle"
  unfolding mission_mapping_def seqs.simps
  by (rule stage_initial_scan stage_rules | simp)+

lemma stage_wait_for_map_quiet: "stage a (wait_for_map_quiet p spec d q) a"
  unfolding wait_for_map_quiet_def by (intro stage_neutral calls_rules)

lemma stage_mission_return_and_save: "stage Idle (mission_return_and_save p spec pose out) Idle"
  unfolding mission_return_and_save_def seqs.simps
  by (rule stage_navigation_goal stage_wait_for_map_quiet stage_rules | simp)+

lemma stage_mission_navigation: "stage Idle (mission_navigation p spec reason) Idle"
proof -
  have goal: "stage Idle (navigation_goal_step p spec n x) Idle" for n x
    unfolding navigation_goal_step_def seqs.simps
    by (split prod.split, intro allI impI) (rule stage_navigation_goal stage_rules | simp)+
  show ?thesis
    unfolding mission_navigation_def select_goals_def seqs.simps
    by (rule stage_each stage_rules goal | simp)+
qed

lemma stage_unknown_run_transaction: "stage Parked (unknown_run_transaction p spec) Idle"
  unfolding unknown_run_transaction_def
  by (rule stage_bind [OF stage_mission_mapping], split prod.split, intro allI impI)
    (rule stage_andthen stage_mission_return_and_save stage_mission_navigation)+

lemma unknown_run_split:
  fixes w :: "'e mission_world"
  assumes "unknown_run p spec w = Some (r, w')"
  obtains w1 where "unknown_run_transaction p spec w = Some (r, w1)" "mw_trace w' = mw_trace w1"
  using assms by (auto simp: unknown_run_def ensure_def on_evidence_def modify_def
      split: option.splits)


section \<open>What a completed mission has done\<close>

definition milestone :: "mission_call \<Rightarrow> bool" where
  "milestone c \<longleftrightarrow>
     (case c of
        C_capture_mapping_start_pose _ \<Rightarrow> True | C_run_mapping_return_goal _ _ _ \<Rightarrow> True
      | C_record_mapping_completion _ _ _ _ \<Rightarrow> True | C_save_map \<Rightarrow> True
      | C_start_navigation \<Rightarrow> True | C_wait_navigation_ready \<Rightarrow> True
      | C_select_mapped_navigation_goals _ _ _ _ _ \<Rightarrow> True | C_run_navigation_goal _ _ _ \<Rightarrow> True
      | _ \<Rightarrow> False)"

definition milestones :: "(mission_call \<times> bool) list \<Rightarrow> (mission_call \<times> bool) list" where
  "milestones = filter (\<lambda>e. milestone (fst e))"

lemma milestones_append [simp]: "milestones (xs @ ys) = milestones xs @ milestones ys"
  by (simp add: milestones_def)

text \<open>A procedure passes milestones when it adds exactly them before it returns.\<close>

definition passes :: "('e, 'a) mission \<Rightarrow> ('a \<Rightarrow> (mission_call \<times> bool) list \<Rightarrow> bool) \<Rightarrow> bool" where
  "passes m M \<longleftrightarrow> (\<forall>w x w'. m w = Some (Inr x, w') \<longrightarrow>
     (\<exists>es. milestones (mw_trace w') = milestones (mw_trace w) @ es \<and> M x es))"

lemma passesD:
  "passes m M \<Longrightarrow> m w = Some (Inr x, w') \<Longrightarrow>
     \<exists>es. milestones (mw_trace w') = milestones (mw_trace w) @ es \<and> M x es"
  by (auto simp: passes_def)

lemma passes_none: "calls_only (\<lambda>c. \<not> milestone c) m \<Longrightarrow> passes m (\<lambda>_ es. es = [])"
  unfolding passes_def by (auto dest!: calls_onlyD simp: milestones_def filter_empty_conv)

lemma passes_perform:
  "milestone c \<Longrightarrow> passes (perform c f) (\<lambda>_ es. es = [(c, True)])"
  by (auto simp: passes_def perform_def milestones_def split: prod.splits)

lemma passes_command: "milestone c \<Longrightarrow> passes (command p c) (\<lambda>_ es. es = [(c, True)])"
  unfolding command_def by (rule passes_perform)

lemma passes_bind:
  assumes "passes m M" "\<And>x. passes (k x) (N x)"
    "\<And>x y es fs. M x es \<Longrightarrow> N x y fs \<Longrightarrow> L y (es @ fs)"
  shows "passes (bind m k) L"
  unfolding passes_def
proof (intro allI impI)
  fix w y w' assume "bind m k w = Some (Inr y, w')"
  then obtain x w1 where "m w = Some (Inr x, w1)" "k x w1 = Some (Inr y, w')"
    by (auto simp: bind_def split: option.splits sum.splits)
  then show "\<exists>es. milestones (mw_trace w') = milestones (mw_trace w) @ es \<and> L y es"
    using passesD [OF assms(1)] passesD [OF assms(2)] assms(3) by fastforce
qed

lemma passes_skip_first:
  "calls_only (\<lambda>c. \<not> milestone c) m \<Longrightarrow> (\<And>x. passes (k x) L) \<Longrightarrow> passes (bind m k) L"
  by (rule passes_bind [OF passes_none]) auto

lemma passes_skip_last:
  "passes m (\<lambda>_. L) \<Longrightarrow> (\<And>x. calls_only (\<lambda>c. \<not> milestone c) (k x)) \<Longrightarrow>
     passes (bind m k) (\<lambda>_. L)"
  by (rule passes_bind [where N = "\<lambda>_ _ es. es = []"]) (auto intro: passes_none)

lemma milestone_simps [simp]:
  "milestone (C_capture_mapping_start_pose t)" "milestone (C_run_mapping_return_goal ps sp t)"
  "milestone (C_record_mapping_completion r ev asm rt)" "milestone C_save_map"
  "milestone C_start_navigation" "milestone C_wait_navigation_ready"
  "milestone (C_select_mapped_navigation_goals n sd sep cl t)" "milestone (C_run_navigation_goal i g t)"
  "\<not> milestone (C_transition ph d)" "\<not> milestone (C_feedback x)"
  "\<not> milestone (C_start_explorer path)" "\<not> milestone (C_wait_for_frontier args)"
  "\<not> milestone (C_run_agent_action text act t)" "\<not> milestone (C_note stg e)"
  "\<not> milestone (C_quiesce_frontier rq t)" "\<not> milestone C_stop_explorer"
  "\<not> milestone (C_stop_motion_and_wait rq t)"
  by (simp_all add: milestone_def)

lemma recovery_call_not_milestone: "recovery_call c \<Longrightarrow> \<not> milestone c"
  by (cases c) (auto simp: recovery_call_def exploration_call_def milestone_def)

lemma calls_explore_loop:
  assumes "\<And>s. calls_only A (explore_epoch p spec d s)"
  shows "calls_only A (explore_loop p spec d s)"
proof -
  have "explore_loop p spec d s w = Some (r, w') \<Longrightarrow>
      \<exists>es. mw_trace w' = mw_trace w @ es \<and> (\<forall>e \<in> set es. A (fst e))" for w r w'
    using assms
  proof (induction p spec d s w arbitrary: r w' rule: explore_loop.induct)
    case (1 p spec d s w)
    obtain r1 w1 where e: "explore_epoch p spec d s w = Some (r1, w1)"
      using "1.prems"(1) by (auto simp: explore_loop.simps [of p spec d s w] split: option.splits)
    obtain es where es: "mw_trace w1 = mw_trace w @ es" "\<forall>e \<in> set es. A (fst e)"
      using calls_onlyD [OF "1.prems"(2) e] by blast
    consider s1 where "r1 = Inr (NextEpoch s1)" | "w' = w1"
      using "1.prems"(1) e by (auto simp: explore_loop.simps [of p spec d s w]
          split: sum.splits epoch_result.splits)
    then show ?case
    proof cases
      case 1
      then have "explore_loop p spec d s1 w1 = Some (r, w')"
        using "1.prems"(1) e by (simp add: explore_loop.simps [of p spec d s w])
      then obtain fs where "mw_trace w' = mw_trace w1 @ fs" "\<forall>e \<in> set fs. A (fst e)"
        using "1.IH" [OF e] "1.prems"(2) 1 by blast
      then show ?thesis using es by (intro exI [of _ "es @ fs"]) auto
    qed (use es in blast)
  qed
  then show ?thesis by (auto simp: calls_only_def)
qed

lemma explore_epoch_no_milestone: "calls_only (\<lambda>c. \<not> milestone c) (explore_epoch p spec d s)"
  unfolding explore_epoch_def run_explorer_epoch_def cleanup_failed_frontier_epoch_def Let_def
  by (intro calls_rules)
    (auto split: prod.split intro!: calls_rules
      calls_only_weaken [OF calls_time_budget_branch recovery_call_not_milestone]
      calls_only_weaken [OF calls_stop_explorer_or_cleanup recovery_call_not_milestone]
      calls_only_weaken [OF calls_final_confirmation_branch recovery_call_not_milestone]
      calls_only_weaken [OF calls_recovery_branch recovery_call_not_milestone])

lemma explore_no_milestone: "calls_only (\<lambda>c. \<not> milestone c) (explore_with_bounded_recovery p spec)"
  unfolding explore_with_bounded_recovery_def now_def
  by (intro calls_rules calls_explore_loop explore_epoch_no_milestone)

lemma mission_mapping_milestones:
  "passes (mission_mapping p spec)
     (\<lambda>_ es. es = [(C_capture_mapping_start_pose (uw_action_timeout_s spec), True)])"
  unfolding mission_mapping_def andthen_def step_defs seqs.simps
  by (intro passes_skip_first passes_skip_last passes_perform calls_rules explore_no_milestone)
    (auto intro!: calls_rules)

lemma mission_return_and_save_milestones:
  "passes (mission_return_and_save p spec pose out)
     (\<lambda>_ es. \<exists>ev. es =
        [(C_run_mapping_return_goal pose (uw_return_to_start_spec spec)
            (uw_return_to_start_timeout_s spec), True),
         (C_record_mapping_completion (xo_completion_reason out) (xo_saturation_evidence out)
            (xo_saturation_assessment out) ev, True),
         (C_save_map, True)])"
proof -
  have last: "passes (seqs [command p a, command p b, raise_if_mission_canceled p why])
      (\<lambda>_ es. es = [(a, True), (b, True)])" if "milestone a" "milestone b" for a b why
    unfolding seqs.simps andthen_def raise_if_mission_canceled_def request_canceled_def
    by (rule passes_bind [OF passes_command passes_skip_last [OF passes_command]])
      (auto intro!: calls_rules that)
  show ?thesis
    unfolding mission_return_and_save_def andthen_def now_def wait_for_map_quiet_def
    by (intro passes_skip_first calls_rules
        passes_bind [OF passes_perform passes_skip_first [OF _ passes_skip_first [OF _ last]]])
      (auto intro!: calls_rules)
qed

lemma each_goals_milestones:
  "passes (each (navigation_goal_step p spec n) xs)
     (\<lambda>_ es. es = map (\<lambda>(i, g). (C_run_navigation_goal (int i) g (uw_navigation_timeout_s spec), True)) xs)"
proof (induction xs)
  case Nil
  show ?case by (auto simp: passes_def skip_def ret_def)
next
  case (Cons x xs)
  obtain i g where x: "x = (i, g)" by (cases x)
  have "passes (navigation_goal_step p spec n x)
      (\<lambda>_ es. es = [(C_run_navigation_goal (int i) g (uw_navigation_timeout_s spec), True)])"
    unfolding navigation_goal_step_def x prod.case seqs.simps andthen_def
      raise_if_mission_canceled_def request_canceled_def
    by (intro passes_skip_first passes_skip_last passes_command calls_rules) simp_all
  from passes_bind [OF this Cons.IH] show ?case by (simp add: x andthen_def)
qed

lemma mission_navigation_milestones:
  "passes (mission_navigation p spec reason)
     (\<lambda>_ es. \<exists>goals. int (length goals) = uw_navigation_goal_count spec \<and> es =
        [(C_start_navigation, True), (C_wait_navigation_ready, True),
         (C_select_mapped_navigation_goals (uw_navigation_goal_count spec)
            (uw_navigation_goal_seed spec) (uw_navigation_goal_minimum_separation_m spec)
            (uw_navigation_goal_clearance_m spec) (uw_action_timeout_s spec), True)]
        @ map (\<lambda>(i, g). (C_run_navigation_goal (int i) g (uw_navigation_timeout_s spec), True))
            (enumerate 1 goals))"
proof -
  have goals: "passes (seqs
      [guard ok e, command p a, each (navigation_goal_step p spec n) xs, command p b, command p c])
      (\<lambda>_ es. ok \<and> es =
         map (\<lambda>(i, g). (C_run_navigation_goal (int i) g (uw_navigation_timeout_s spec), True)) xs)"
    if "\<not> milestone a" "\<not> milestone b" "\<not> milestone c" for ok e a b c n xs
  proof (cases ok)
    case True
    then show ?thesis
      unfolding seqs.simps andthen_def
      by (intro passes_skip_first passes_skip_last calls_rules)
        (use that each_goals_milestones in simp_all)
  next
    case False
    then show ?thesis by (simp add: passes_def proc_defs)
  qed
  show ?thesis
    unfolding mission_navigation_def select_goals_def andthen_def
    by (rule passes_bind [OF passes_command passes_bind [OF passes_command
          passes_bind [OF passes_perform goals]]]) auto
qed

section \<open>How an exploration may end\<close>

text \<open>What the outcome of an exploration stands for: a reason of the frontier monitor, one of the
  two exhaustion reasons, or a saturation whose assessment is complete for checked evidence.\<close>

definition outcome_backed :: "UnknownWorldMissionSpec \<Rightarrow> ExplorationRunOutcome \<Rightarrow> bool" where
  "outcome_backed spec out \<longleftrightarrow>
     (case (xo_saturation_evidence out, xo_saturation_assessment out) of
        (Some ev, Some asm) \<Rightarrow>
          check_runtime_evidence ev = Inr ev
          \<and> asm = assess_bounded_frontier_saturation ev (uw_saturation_policy spec)
          \<and> assessment_complete asm
          \<and> xo_completion_reason out \<in>
              {''time_budget_exhausted'', ''reachable_frontiers_stalled_bounded_saturation''}
      | (None, None) \<Rightarrow>
          xo_completion_reason out \<in>
              {''frontier_attempts_exhausted_below_material_gain'',
               ''frontier_attempts_exhausted_after_final_confirmation''}
          \<or> (\<not> startswith ''recovery_required:'' (xo_completion_reason out)
             \<and> xo_completion_reason out \<noteq> ''assessment_required:time_budget'')
      | _ \<Rightarrow> False)"

definition result_backed :: "UnknownWorldMissionSpec \<Rightarrow> epoch_result \<Rightarrow> bool" where
  "result_backed spec r \<longleftrightarrow>
     (case r of NextEpoch _ \<Rightarrow> True | ExplorationDone out \<Rightarrow> outcome_backed spec out)"

lemma check_runtime_evidence_id: "check_runtime_evidence e = Inr e' \<Longrightarrow> e' = e"
  by (auto simp: check_runtime_evidence_def split: if_splits)

lemma finalize_backed:
  assumes "reason \<in> {''time_budget_exhausted'', ''reachable_frontiers_stalled_bounded_saturation''}"
  shows "yields (outcome_backed spec)
    (finalize_saturation_assessment p spec tracker telemetry remaining trigger settled reason)"
  unfolding finalize_saturation_assessment_def Let_def
  by (intro yields_andthen yields_bind
      yields_bind_value [where U = "\<lambda>ev. check_runtime_evidence ev = Inr ev"] yields_lift_result
      yields_guard yields_ret)
    (use assms in \<open>auto simp: outcome_backed_def dest: check_runtime_evidence_id\<close>)

lemma assess_time_budget_backed:
  "yields (outcome_backed spec) (assess_time_budget_saturation p spec tracker telemetry remaining)"
  unfolding assess_time_budget_saturation_def
  by (intro yields_rules finalize_backed) simp

lemma plain_outcome_backed [simp]:
  "outcome_backed spec (plain_outcome reason) \<longleftrightarrow>
     reason \<in> {''frontier_attempts_exhausted_below_material_gain'',
       ''frontier_attempts_exhausted_after_final_confirmation''}
     \<or> (\<not> startswith ''recovery_required:'' reason \<and> reason \<noteq> ''assessment_required:time_budget'')"
  by (simp add: outcome_backed_def plain_outcome_def)

lemma apply_recovery_decision_backed:
  "yields (result_backed spec)
     (apply_recovery_decision p spec s tracker telemetry settled probe detail decision)"
  unfolding apply_recovery_decision_def
  by (cases decision; simp; intro yields_rules yields_bind_value [OF finalize_backed];
      simp add: result_backed_def)

lemma explore_epoch_backed: "yields (result_backed spec) (explore_epoch p spec d s)"
proof -
  have budget: "yields (result_backed spec) (time_budget_branch p spec tracker s)" for tracker
    unfolding time_budget_branch_def Let_def
    by (intro yields_bind yields_andthen yields_if
        yields_bind_value [OF assess_time_budget_backed] yields_ret) (simp_all add: result_backed_def)
  have final: "yields (result_backed spec) (final_confirmation_branch p spec outcome)" for outcome
    unfolding final_confirmation_branch_def Let_def
    by (intro yields_rules) (simp add: result_backed_def)
  have recovery: "yields (result_backed spec) (recovery_branch p spec outcome tracker s)"
    for outcome tracker
    unfolding recovery_branch_def Let_def by (intro yields_rules apply_recovery_decision_backed)
  show ?thesis
    unfolding explore_epoch_def
    by (rule yields_bind, split prod.split, intro allI impI yields_if yields_andthen budget final
        recovery yields_ret) (simp add: result_backed_def)
qed

lemma explore_backed:
  fixes w :: "'e mission_world"
  assumes "explore_with_bounded_recovery p spec w = Some (Inr out, w')"
  shows "outcome_backed spec out"
proof -
  have "explore_loop p spec d s w = Some (Inr out, w') \<Longrightarrow> outcome_backed spec out" for d s w
  proof (induction p spec d s w rule: explore_loop.induct)
    case (1 p spec d s w)
    obtain r w1 where e: "explore_epoch p spec d s w = Some (Inr r, w1)"
      using "1.prems" by (auto simp: explore_loop.simps [of p spec d s w]
          split: option.splits sum.splits)
    show ?case
      using "1.prems" "1.IH" [OF e] e yieldsD [OF explore_epoch_backed e]
      by (auto simp: explore_loop.simps [of p spec d s w] result_backed_def
          split: epoch_result.splits)
  qed
  then show ?thesis
    using assms by (auto simp: explore_with_bounded_recovery_def bind_def
        split: option.splits sum.splits)
qed


section \<open>Failures\<close>

definition failed_wait :: "mission_call \<times> bool \<Rightarrow> bool" where
  "failed_wait e \<longleftrightarrow> (case fst e of C_wait_for_frontier _ \<Rightarrow> \<not> snd e | _ \<Rightarrow> False)"

definition is_note :: "mission_call \<times> bool \<Rightarrow> bool" where
  "is_note e \<longleftrightarrow> (case fst e of C_note _ _ \<Rightarrow> True | _ \<Rightarrow> False)"

definition no_failed_wait :: "'e mission_world \<Rightarrow> bool" where
  "no_failed_wait w \<longleftrightarrow> (\<forall>e \<in> set (mw_trace w). \<not> failed_wait e)"

text \<open>The trace ends with a failed wait and the three calls of the cleanup, in this order and with
  nothing but notes beside them.\<close>

definition cleaned_up :: "UnknownWorldMissionSpec \<Rightarrow> 'e mission_world \<Rightarrow> bool" where
  "cleaned_up spec w \<longleftrightarrow>
     (\<exists>before args rest ok1 ok2 ok3. mw_trace w = before @ (C_wait_for_frontier args, False) # rest
        \<and> filter (\<lambda>e. \<not> is_note e) rest =
            [(C_quiesce_frontier (InternalRequest ''frontier_failure_quiescence'')
                (uw_action_timeout_s spec), ok1),
             (C_stop_explorer, ok2),
             (C_stop_motion_and_wait (InternalRequest ''frontier_failure_cleanup'')
                (uw_action_timeout_s spec), ok3)])"

definition cleans :: "UnknownWorldMissionSpec \<Rightarrow> ('e, 'a) mission \<Rightarrow> bool" where
  "cleans spec m \<longleftrightarrow>
     triple no_failed_wait m (\<lambda>_. no_failed_wait) (\<lambda>_ w. no_failed_wait w \<or> cleaned_up spec w)"

lemma cleans_bind: "cleans spec m \<Longrightarrow> (\<And>x. cleans spec (k x)) \<Longrightarrow> cleans spec (bind m k)"
  unfolding cleans_def by (rule triple_bind)

lemma cleans_andthen: "cleans spec m \<Longrightarrow> cleans spec k \<Longrightarrow> cleans spec (andthen m k)"
  unfolding cleans_def by (rule triple_andthen)

definition not_wait :: "mission_call \<Rightarrow> bool" where
  "not_wait c \<longleftrightarrow> (case c of C_wait_for_frontier _ \<Rightarrow> False | _ \<Rightarrow> True)"

lemma not_wait_not_failed: "not_wait (fst e) \<Longrightarrow> \<not> failed_wait e"
  by (auto simp: not_wait_def failed_wait_def split: mission_call.splits)

lemma cleans_calls: "calls_only not_wait m \<Longrightarrow> cleans spec m"
proof -
  assume m: "calls_only not_wait m"
  have "no_failed_wait w'" if "m w = Some (r, w')" "no_failed_wait w" for w r w'
    using calls_onlyD [OF m that(1)] that(2) unfolding no_failed_wait_def
    by (metis Un_iff not_wait_not_failed set_append)
  then show ?thesis
    unfolding cleans_def triple_def by (auto split: option.split sum.split)
qed

lemma cleanup_trace:
  fixes w :: "'e mission_world"
  assumes "cleanup_failed_frontier_epoch p spec True w = Some (r, w')"
  shows "\<exists>rest ok1 ok2 ok3. mw_trace w' = mw_trace w @ rest
    \<and> filter (\<lambda>e. \<not> is_note e) rest =
            [(C_quiesce_frontier (InternalRequest ''frontier_failure_quiescence'')
                (uw_action_timeout_s spec), ok1),
             (C_stop_explorer, ok2),
             (C_stop_motion_and_wait (InternalRequest ''frontier_failure_cleanup'')
                (uw_action_timeout_s spec), ok3)]"
  using assms
  by (auto simp: cleanup_failed_frontier_epoch_def andthen_def bind_def catch_def command_def
      perform_def skip_def ret_def add_note_def modify_def is_note_def
      split: prod.splits sum.splits option.splits)

lemma cleans_wait:
  "cleans spec (catch (perform (C_wait_for_frontier args) f)
     (\<lambda>e. andthen (cleanup_failed_frontier_epoch p spec True) (raise e)))"
  unfolding cleans_def triple_def
proof (intro allI impI)
  fix w :: "'a mission_world" assume w: "no_failed_wait w"
  obtain r env where f: "f (mw_env w) = (r, env)" by (cases "f (mw_env w)")
  show "case catch (perform (C_wait_for_frontier args) f)
      (\<lambda>e. andthen (cleanup_failed_frontier_epoch p spec True) (raise e)) w of None \<Rightarrow> True
    | Some (Inl e, w') \<Rightarrow> no_failed_wait w' \<or> cleaned_up spec w' | Some (Inr x, w') \<Rightarrow> no_failed_wait w'"
  proof (cases r)
    case (Inr x)
    then show ?thesis
      using w f by (auto simp: catch_def perform_def no_failed_wait_def failed_wait_def)
  next
    case (Inl e)
    define w1 where "w1 = w\<lparr>mw_env := env,
      mw_trace := mw_trace w @ [(C_wait_for_frontier args, False)]\<rparr>"
    have c: "catch (perform (C_wait_for_frontier args) f)
        (\<lambda>e. andthen (cleanup_failed_frontier_epoch p spec True) (raise e)) w
      = andthen (cleanup_failed_frontier_epoch p spec True) (raise e) w1"
      using f Inl by (simp add: catch_def perform_def w1_def)
    show ?thesis
    proof (cases "cleanup_failed_frontier_epoch p spec True w1")
      case None
      then show ?thesis unfolding c by (simp add: andthen_def bind_def)
    next
      case (Some rw)
      then obtain r2 w2 where s: "cleanup_failed_frontier_epoch p spec True w1 = Some (r2, w2)"
        by (cases rw) auto
      have "cleaned_up spec w2"
        using cleanup_trace [OF s] unfolding cleaned_up_def w1_def by fastforce
      then show ?thesis
        unfolding c using s by (cases r2) (simp_all add: andthen_def bind_def raise_def)
    qed
  qed
qed

lemma not_wait_simps [simp]:
  "not_wait (C_transition ph d)" "not_wait (C_feedback x)" "not_wait (C_run_agent_action a b t)"
  "not_wait (C_start_explorer path)" "not_wait C_stop_explorer" "not_wait (C_quiesce_frontier rq t)"
  "not_wait (C_stop_motion_and_wait rq t)" "not_wait (C_run_recovery_backup y z t)"
  "not_wait (C_note st e)" "not_wait (C_capture_mapping_start_pose t)"
  "not_wait (C_run_mapping_return_goal ps sp t)"
  "not_wait (C_record_mapping_completion rs ev asm rt)" "not_wait C_save_map"
  "not_wait C_start_navigation" "not_wait C_wait_navigation_ready"
  "not_wait (C_select_mapped_navigation_goals n sd sep cl t)" "not_wait (C_run_navigation_goal i g t)"
  by (simp_all add: not_wait_def)

lemma not_wait_parts:
  "calls_only not_wait (stop_explorer_or_cleanup p spec)"
  "calls_only not_wait (time_budget_branch p spec tracker s)"
  "calls_only not_wait (final_confirmation_branch p spec outcome)"
  "calls_only not_wait (recovery_branch p spec outcome tracker s)"
  "calls_only not_wait (mission_return_and_save p spec pose out)"
  "calls_only not_wait (mission_navigation p spec reason)"
proof -
  show 1: "calls_only not_wait (stop_explorer_or_cleanup p spec)"
    unfolding stop_explorer_or_cleanup_def cleanup_failed_frontier_epoch_def
    by (intro calls_rules) simp_all
  have 2: "calls_only not_wait (finalize_saturation_assessment p spec tracker telemetry n trigger st rs)"
    for tracker telemetry n trigger st rs
    unfolding finalize_saturation_assessment_def step_defs Let_def by (intro calls_rules) simp_all
  show "calls_only not_wait (time_budget_branch p spec tracker s)"
    unfolding time_budget_branch_def assess_time_budget_saturation_def step_defs Let_def
    by (intro calls_rules 1 2) simp_all
  show "calls_only not_wait (final_confirmation_branch p spec outcome)"
    unfolding final_confirmation_branch_def step_defs Let_def
    by (intro calls_rules) (auto intro!: calls_rules)
  have "calls_only not_wait (apply_recovery_decision p spec s tracker telemetry st probe d dec)"
    for tracker telemetry st probe d dec
    unfolding apply_recovery_decision_def step_defs by (cases dec) (auto intro!: calls_rules 2)
  then show "calls_only not_wait (recovery_branch p spec outcome tracker s)"
    unfolding recovery_branch_def recovery_relocation_def step_defs Let_def
    by (intro calls_rules) (auto intro!: calls_rules)
  show "calls_only not_wait (mission_return_and_save p spec pose out)"
    "calls_only not_wait (mission_navigation p spec reason)"
    unfolding mission_return_and_save_def mission_navigation_def select_goals_def step_defs
      navigation_goal_step_def
    by (intro calls_rules; auto intro!: calls_rules)+
qed

lemma cleans_explore_epoch: "cleans spec (explore_epoch p spec d s)"
proof -
  have "cleans spec (run_explorer_epoch p spec d s)"
    unfolding run_explorer_epoch_def Let_def
    by (intro cleans_bind cleans_andthen cleans_wait cleans_calls calls_rules) simp_all
  then show ?thesis
    unfolding explore_epoch_def
    by (rule cleans_bind, split prod.split, intro allI impI cleans_calls calls_rules not_wait_parts)
qed

lemma cleans_unknown_run_transaction: "cleans spec (unknown_run_transaction p spec)"
proof -
  have loop: "cleans spec (explore_loop p spec d s)" for d s
    using cleans_explore_epoch unfolding cleans_def by (rule triple_explore_loop)
  have "cleans spec (explore_with_bounded_recovery p spec)"
    unfolding explore_with_bounded_recovery_def now_def
    by (rule cleans_bind [OF cleans_calls loop]) (rule calls_rules)
  then have "cleans spec (mission_mapping p spec)"
    unfolding mission_mapping_def step_defs
    by (intro cleans_bind cleans_andthen cleans_calls [of "ret _"] calls_rules)
      (auto intro!: cleans_calls calls_rules)
  then show ?thesis
    unfolding unknown_run_transaction_def
    by (rule cleans_bind, split prod.split, intro allI impI cleans_calls calls_rules not_wait_parts)
qed

text \<open>C32. A failed wait for the explorer is cleaned up before the mission ends. When the wait for
  the frontier raises in an unknown-world mission, the mission raises, and after the failed wait it
  has only drained the explorer's ledger, stopped the explorer and stopped the robot, in this order,
  each attempted even when the one before failed and each on an internal request that the user's
  cancellation cannot suppress.\<close>

theorem failed_wait_is_cleaned_up:
  fixes w :: "'e mission_world"
  assumes "mw_trace w = []" "unknown_run p spec w = Some (r, w')"
    "(C_wait_for_frontier args, False) \<in> set (mw_trace w')"
  shows "is_error r \<and> cleaned_up spec w'"
proof -
  obtain w1 where w1: "unknown_run_transaction p spec w = Some (r, w1)" "mw_trace w' = mw_trace w1"
    using unknown_run_split [OF assms(2)] by blast
  have start: "no_failed_wait w" using assms(1) by (simp add: no_failed_wait_def)
  have failed: "\<not> no_failed_wait w1"
    using assms(3) w1(2) unfolding no_failed_wait_def failed_wait_def by force
  note t = cleans_unknown_run_transaction [unfolded cleans_def, of p spec]
  have "is_error r \<and> cleaned_up spec w1"
    using triple_normal [OF t start] triple_error [OF t start] w1(1) failed by (cases r) auto
  then show ?thesis using w1(2) by (simp add: cleaned_up_def)
qed


section \<open>The automatic mission\<close>

text \<open>An explorer that was started and not asked to stop since.\<close>

definition left_step :: "mission_call \<times> bool \<Rightarrow> bool \<Rightarrow> bool" where
  "left_step e running =
     (case fst e of C_start_explorer _ \<Rightarrow> snd e | C_stop_explorer \<Rightarrow> False | _ \<Rightarrow> running)"

definition explorer_left :: "(mission_call \<times> bool) list \<Rightarrow> bool" where
  "explorer_left trace = fold left_step trace False"

definition explorer_call :: "mission_call \<Rightarrow> bool" where
  "explorer_call c \<longleftrightarrow> (case c of C_start_explorer _ \<Rightarrow> True | C_stop_explorer \<Rightarrow> True | _ \<Rightarrow> False)"

lemma explorer_call_simps [simp]:
  "\<not> explorer_call (C_transition ph d)" "\<not> explorer_call (C_feedback x)"
  "\<not> explorer_call (C_run_agent_action a b t)" "\<not> explorer_call C_save_map"
  "\<not> explorer_call C_start_navigation" "\<not> explorer_call C_wait_navigation_ready"
  by (simp_all add: explorer_call_def)

lemma left_neutral: "\<forall>e \<in> set es. \<not> explorer_call (fst e) \<Longrightarrow> fold left_step es b = b"
  by (induction es arbitrary: b) (auto simp: left_step_def explorer_call_def split: mission_call.splits)

definition stopped :: "'e mission_world \<Rightarrow> bool" where
  "stopped w \<longleftrightarrow> \<not> explorer_left (mw_trace w)"

lemma stopped_neutral:
  assumes "calls_only (\<lambda>c. \<not> explorer_call c) m"
  shows "triple stopped m (\<lambda>_. stopped) (\<lambda>_. stopped)"
proof -
  have "stopped w'" if "m w = Some (r, w')" "stopped w" for w r w'
    using calls_onlyD [OF assms that(1)] that(2) left_neutral
    by (auto simp: stopped_def explorer_left_def)
  then show ?thesis unfolding triple_def by (auto split: option.split sum.split)
qed

lemma stop_explorer_stops: "triple any_world (command p C_stop_explorer) (\<lambda>_. stopped) (\<lambda>_. stopped)"
  by (auto simp: triple_def command_def perform_def stopped_def explorer_left_def left_step_def
      split: prod.split sum.split)

lemma start_explorer_left:
  "triple any_world (command p (C_start_explorer path)) (\<lambda>_. any_world) (\<lambda>_. stopped)"
  by (auto simp: triple_def command_def perform_def stopped_def explorer_left_def left_step_def
      any_world_def split: prod.split sum.split)

lemma triple_any: "triple P m (\<lambda>_. any_world) (\<lambda>_. any_world)"
  by (auto simp: triple_def any_world_def split: option.split sum.split)

lemma automatic_frontier_stops:
  "triple any_world (automatic_frontier p spec) (\<lambda>_. stopped) (\<lambda>_. stopped)"
  unfolding automatic_frontier_def
  by (rule triple_ensure [OF triple_any]) (rule stop_explorer_stops)+

lemma automatic_transaction_stops:
  "triple stopped (automatic_run_transaction p spec) (\<lambda>_. stopped) (\<lambda>_. stopped)"
proof -
  have quiet: "calls_only (\<lambda>c. \<not> explorer_call c) (bootstrap_step p spec n x)" for n x
    unfolding bootstrap_step_def step_defs
    by (split prod.split, intro allI impI calls_rules) (auto intro!: calls_rules)
  have after: "triple stopped (bind take_snapshot k) (\<lambda>_. stopped) (\<lambda>_. stopped)"
    if "\<And>x. calls_only (\<lambda>c. \<not> explorer_call c) (k x)" for k :: "_ \<Rightarrow> ('a, unit) mission"
    by (intro stopped_neutral calls_rules that)
  have pre: "triple stopped k Q (\<lambda>_. stopped) \<Longrightarrow> calls_only (\<lambda>c. \<not> explorer_call c) m
      \<Longrightarrow> triple stopped (andthen m k) Q (\<lambda>_. stopped)" for k Q and m :: "('a, unit) mission"
    by (rule triple_andthen [OF stopped_neutral])
  have start: "triple stopped (command p (C_start_explorer path)) (\<lambda>_. any_world) (\<lambda>_. stopped)"
    for path using start_explorer_left unfolding triple_def any_world_def by blast
  show ?thesis
    unfolding automatic_run_transaction_def seqs.simps
    by (rule triple_andthen [OF _ after], rule pre, rule pre, rule pre, rule pre, rule pre, rule pre,
        rule triple_andthen [OF start], rule automatic_frontier_stops)
      (auto simp: step_defs intro!: calls_rules quiet)
qed

lemma automatic_transaction_returns:
  assumes "clock_progress p time delta" "isfinite (am_scan_startup_timeout_s spec)"
  shows "returns any_world (automatic_run_transaction p spec)"
proof -
  note event = returns_wait_for_required_event [OF assms]
  have "returns any_world (automatic_frontier p spec)"
    unfolding automatic_frontier_def by (intro returns_rules)
  moreover have "returns any_world (bootstrap_step p spec n x)" for n x
    unfolding bootstrap_step_def simple_steps
    by (split prod.split, intro allI impI returns_rules) (auto intro!: returns_rules)
  ultimately show ?thesis
    unfolding automatic_run_transaction_def
    by (intro returns_rules) (auto simp: simple_steps intro!: returns_rules event)
qed

text \<open>The automatic mission always ends and cleans up after itself. With a finite startup
  timeout and a clock that advances while the code waits, the mission returns or raises; whichever
  it does, an explorer that it started has been asked to stop since, and the mapping path is no
  longer recorded.\<close>

lemma automatic_mission_cleans_up:
  fixes w :: "'e mission_world"
  assumes "clock_progress p time delta" "isfinite (am_scan_startup_timeout_s spec)"
    "mw_trace w = []"
  shows "\<exists>r w'. automatic_run p spec w = Some (r, w') \<and> \<not> explorer_left (mw_trace w')
    \<and> \<not> mt_record_mapping_path (snd (mw_env w'))"
proof -
  define w0 where "w0 = w\<lparr>mw_env := map_prod id begin_mapping_path (mw_env w)\<rparr>"
  obtain r w1 where t: "automatic_run_transaction p spec w0 = Some (r, w1)"
    using returnsD [OF automatic_transaction_returns [OF assms(1,2)], of w0]
    by (auto simp: any_world_def)
  have "stopped w0" using assms(3) by (simp add: w0_def stopped_def explorer_left_def)
  then have "stopped w1"
    using triple_normal [OF automatic_transaction_stops] triple_error [OF automatic_transaction_stops]
      t by (cases r) blast+
  moreover have "automatic_run p spec w
      = Some (r, w1\<lparr>mw_env := map_prod id finish_mapping_path (mw_env w1)\<rparr>)"
    using t by (simp add: automatic_run_def andthen_def bind_def on_evidence_def modify_def
        ensure_def w0_def)
  ultimately show ?thesis by (auto simp: stopped_def finish_mapping_path_def)
qed

text \<open>C35. When draining the explorer fails at the time budget, nothing is cleaned up. If the
  exploration has run into its time budget and the ledger cannot be drained, the mission raises at
  once: the failed draining is its last call, neither the explorer nor the robot is asked to stop.\<close>

theorem budget_quiesce_failure_skips_cleanup:
  fixes w :: "'e mission_world"
  assumes "run_explorer_epoch p spec d s w
      = Some (Inr (''assessment_required:time_budget'', tracker), w1)"
    "mp_quiesce_frontier p UserRequest (uw_action_timeout_s spec) (mw_env w1) = (Inl e, env2)"
  shows "explore_loop p spec d s w = Some (Inl e, w1\<lparr>mw_env := env2,
      mw_trace := mw_trace w1 @ [(C_quiesce_frontier UserRequest (uw_action_timeout_s spec), False)]\<rparr>)"
  using assms
  by (simp add: explore_loop.simps explore_epoch_def bind_def time_budget_branch_def perform_def)

section \<open>A mission step by step\<close>

text \<open>Evaluation of a procedure from an environment with a known part of the trace: it ends with
  the result and the environment, it forgets no trace entry, and it adds at least the given ones.\<close>

definition goes ::
  "'e env \<Rightarrow> ('e, 'a) mission \<Rightarrow> 'a result \<Rightarrow> 'e env \<Rightarrow> (mission_call \<times> bool) set \<Rightarrow> bool" where
  "goes env m r env' added \<longleftrightarrow>
     (\<forall>tr. \<exists>tr'. m \<lparr>mw_env = env, mw_trace = tr\<rparr> = Some (r, \<lparr>mw_env = env', mw_trace = tr'\<rparr>)
        \<and> set tr \<union> added \<subseteq> set tr')"

named_theorems goes_rules \<open>evaluation of procedures\<close>

lemma goes_basic [goes_rules]:
  "goes env (ret x) (Inr x) env {}" "goes env (raise e) (Inl e) env {}"
  "goes env skip (Inr ()) env {}" "goes env (lift_result r) r env {}"
  "goes env (guard True e) (Inr ()) env {}"
  "goes env (on_evidence f) (Inr ()) (fst env, f (snd env)) {}"
  "goes env take_snapshot (evidence_snapshot (snd env)) env {}"
  by (auto simp: goes_def proc_defs on_evidence_def take_snapshot_def map_prod_def
      split: prod.split)

lemma goes_perform [goes_rules]:
  "f env = (r, env') \<Longrightarrow> goes env (perform c f) r env' {(c, \<not> is_error r)}"
  by (auto simp: goes_def perform_def)

lemma goes_command [goes_rules]:
  "mp_command p c env = (r, env') \<Longrightarrow> goes env (command p c) r env' {(c, \<not> is_error r)}"
  unfolding command_def by (rule goes_perform)

lemma goes_read [goes_rules]: "f env = (x, env') \<Longrightarrow> goes env (read_env f) (Inr x) env' {}"
  by (auto simp: goes_def read_env_def query_def)

lemma goes_on_env [goes_rules]: "f env = Some (r, env') \<Longrightarrow> goes env (on_env f) r env' {}"
  by (auto simp: goes_def on_env_def)

lemma goes_bind [goes_rules]:
  assumes "goes env m (Inr x) env1 A" "goes env1 (k x) r env' B"
  shows "goes env (bind m k) r env' (A \<union> B)"
  unfolding goes_def
proof
  fix tr
  obtain tr1 where 1: "m \<lparr>mw_env = env, mw_trace = tr\<rparr> = Some (Inr x, \<lparr>mw_env = env1, mw_trace = tr1\<rparr>)"
    "set tr \<union> A \<subseteq> set tr1" using assms(1) unfolding goes_def by blast
  obtain tr2 where 2: "k x \<lparr>mw_env = env1, mw_trace = tr1\<rparr> = Some (r, \<lparr>mw_env = env', mw_trace = tr2\<rparr>)"
    "set tr1 \<union> B \<subseteq> set tr2" using assms(2) unfolding goes_def by blast
  show "\<exists>tr'. bind m k \<lparr>mw_env = env, mw_trace = tr\<rparr> = Some (r, \<lparr>mw_env = env', mw_trace = tr'\<rparr>)
      \<and> set tr \<union> (A \<union> B) \<subseteq> set tr'"
    using 1 2 by (intro exI [of _ tr2]) (auto simp: bind_def)
qed

lemma goes_through:
  "goes env m r env' A \<Longrightarrow> (\<And>w w'. m w = Some (r, w') \<Longrightarrow> n w = Some (r', w')) \<Longrightarrow>
     goes env n r' env' A"
  unfolding goes_def by blast

lemma goes_bind_error: "goes env m (Inl e) env' A \<Longrightarrow> goes env (bind m k) (Inl e) env' A"
  by (erule goes_through) (simp add: bind_def)

lemma goes_andthen [goes_rules]:
  "goes env m (Inr ()) env1 A \<Longrightarrow> goes env1 k r env' B \<Longrightarrow> goes env (andthen m k) r env' (A \<union> B)"
  unfolding andthen_def by (rule goes_bind)

lemma goes_andthen_error:
  "goes env m (Inl e) env' A \<Longrightarrow> goes env (andthen m k) (Inl e) env' A"
  unfolding andthen_def by (rule goes_bind_error)

lemma goes_catch_ok: "goes env m (Inr x) env' A \<Longrightarrow> goes env (catch m h) (Inr x) env' A"
  by (erule goes_through) (simp add: catch_def)

lemma goes_catch_error:
  assumes "goes env m (Inl e) env1 A" "goes env1 (h e) r env' B"
  shows "goes env (catch m h) r env' (A \<union> B)"
  unfolding goes_def
proof
  fix tr
  obtain tr1 where 1: "m \<lparr>mw_env = env, mw_trace = tr\<rparr> = Some (Inl e, \<lparr>mw_env = env1, mw_trace = tr1\<rparr>)"
    "set tr \<union> A \<subseteq> set tr1" using assms(1) unfolding goes_def by blast
  obtain tr2 where 2: "h e \<lparr>mw_env = env1, mw_trace = tr1\<rparr> = Some (r, \<lparr>mw_env = env', mw_trace = tr2\<rparr>)"
    "set tr1 \<union> B \<subseteq> set tr2" using assms(2) unfolding goes_def by blast
  show "\<exists>tr'. catch m h \<lparr>mw_env = env, mw_trace = tr\<rparr> = Some (r, \<lparr>mw_env = env', mw_trace = tr'\<rparr>)
      \<and> set tr \<union> (A \<union> B) \<subseteq> set tr'"
    using 1 2 by (intro exI [of _ tr2]) (auto simp: catch_def)
qed

lemma goes_explore_loop:
  "goes env (explore_epoch p spec d s) (Inr (ExplorationDone out)) env' A \<Longrightarrow>
     goes env (explore_loop p spec d s) (Inr out) env' A"
  "goes env (explore_epoch p spec d s) (Inl e) env' A \<Longrightarrow>
     goes env (explore_loop p spec d s) (Inl e) env' A"
  by (erule goes_through, simp add: explore_loop.simps)+

lemma goes_weaken: "goes env m r env' A \<Longrightarrow> B \<subseteq> A \<Longrightarrow> goes env m r env' B"
  unfolding goes_def by (meson Un_mono order_refl order_trans)

definition demo_spec :: UnknownWorldMissionSpec where
  "demo_spec =
     \<lparr>uw_explorer_config_path = ''explore.yaml'', uw_scan_startup_timeout_s = Fin 30,
      uw_exploration_timeout_s = Fin 900, uw_action_timeout_s = Fin 30,
      uw_navigation_timeout_s = Fin 120, uw_initial_scan_text = ''scan'',
      uw_recovery_scan_text = ''scan'',
      uw_recovery_backup = \<lparr>bu_distance_m = Fin 0.3, bu_speed_mps = Fin 0.1, bu_timeout_s = Fin 10,
        bu_minimum_displacement_m = Fin 0.1\<rparr>,
      uw_max_recovery_attempts = 2, uw_minimum_epoch_map_gain_cells = 40,
      uw_minimum_epoch_map_gain_ratio = Fin 0.01, uw_map_settle_s = Fin 5,
      uw_navigation_goal_count = 2, uw_navigation_goal_seed = 7,
      uw_navigation_goal_minimum_separation_m = Fin 1, uw_navigation_goal_clearance_m = Fin 0.3,
      uw_saturation_policy = default_policy, uw_return_to_start_spec = default_return_spec,
      uw_return_to_start_timeout_s = Fin 180, uw_return_map_settle_s = Fin 15,
      uw_final_confirmation_timeout_s = Fin 240\<rparr>"

definition demo_port :: "string result \<Rightarrow> FrontierTelemetry result \<Rightarrow> real mission_port" where
  "demo_port outcome quiesced =
     \<lparr>mp_dry_run = True, mp_clock = (\<lambda>(t, ev). (Fin t, (t + 50, ev))), mp_canceled = (\<lambda>env. (False, env)),
      mp_pass = (\<lambda>_ (t, ev). (t + 1, ev)), mp_command = (\<lambda>_ env. (Inr (), env)),
      mp_wait_for_frontier = (\<lambda>_ env. (outcome, env)),
      mp_quiesce_frontier = (\<lambda>_ _ env. (quiesced, env)),
      mp_run_recovery_backup = (\<lambda>_ _ _ env. (Inr (Fin 0.2), env)),
      mp_capture_mapping_start_pose = (\<lambda>_ env. (Inr (rte_start_pose example_return), env)),
      mp_run_mapping_return_goal = (\<lambda>_ _ _ env. (Inr example_return, env)),
      mp_select_mapped_navigation_goals =
        (\<lambda>_ _ _ _ _ env. (Inr [(Fin 1, Fin 0), (Fin 0, Fin 2)], env))\<rparr>"

lemma demo_port_simps [simp]:
  "mp_dry_run (demo_port outcome quiesced)"
  "mp_clock (demo_port outcome quiesced) (t, ev) = (Fin t, (t + 50, ev))"
  "mp_canceled (demo_port outcome quiesced) env = (False, env)"
  "mp_pass (demo_port outcome quiesced) x (t, ev) = (t + 1, ev)"
  "mp_command (demo_port outcome quiesced) c env = (Inr (), env)"
  "mp_wait_for_frontier (demo_port outcome quiesced) args env = (outcome, env)"
  "mp_quiesce_frontier (demo_port outcome quiesced) rq x env = (quiesced, env)"
  "mp_capture_mapping_start_pose (demo_port outcome quiesced) x env
     = (Inr (rte_start_pose example_return), env)"
  "mp_run_mapping_return_goal (demo_port outcome quiesced) pose sp x env = (Inr example_return, env)"
  "mp_select_mapped_navigation_goals (demo_port outcome quiesced) n sd sep cl x env
     = (Inr [(Fin 1, Fin 0), (Fin 0, Fin 2)], env)"
  by (simp_all add: demo_port_def)

lemma demo_spec_checked: "unknown_world_mission_spec demo_spec = Inr demo_spec"
  by (simp add: unknown_world_mission_spec_def demo_spec_def zero_fin one_fin strip_def is_space_def)

lemma demo_clock: "clock_progress (demo_port outcome quiesced) fst 1"
  by (auto simp: clock_progress_def)

text \<open>Evidence without a map, a path or any goal, and counters that have seen nothing.\<close>

definition blank_evidence :: "MappingEvidenceTracker \<Rightarrow> bool" where
  "blank_evidence ev \<longleftrightarrow> mt_map_stats ev = None \<and> mt_mapping_path_m ev = Fin 0
     \<and> mt_frontier_telemetry ev = default_telemetry \<and> mt_frontier_action_totals ev = zero_totals"

definition blank_tracker :: "SaturationEvidenceTracker \<Rightarrow> bool" where
  "blank_tracker tr \<longleftrightarrow> trk_counters tr
     = \<lparr>peak_known_cells = 0, terminal_goal_count = 0, counters_path_m = Fin 0\<rparr>"

lemma blank_snapshot:
  "blank_evidence ev \<Longrightarrow> evidence_snapshot ev = Inr
     \<lparr>me_map_stats = None, me_best_known_map_cells = mt_best_known_map_cells ev,
      me_last_map_growth_at = mt_last_map_growth_at ev,
      me_last_frontier_activity_at = mt_last_frontier_activity_at ev,
      me_exploration_completion_reason = mt_exploration_completion_reason ev,
      me_mapping_path_m = Fin 0, me_latest_odom_xy = mt_latest_odom_xy ev,
      me_odom_generation = mt_odom_generation ev, me_explore_status = mt_explore_status ev,
      me_frontier_telemetry = default_telemetry\<rparr>"
  by (simp add: blank_evidence_def evidence_snapshot_def frontier_telemetry_def with_totals_def
      telemetry_counters_def default_telemetry_def zero_totals_def)

lemma goes_take_snapshot:
  "blank_evidence ev \<Longrightarrow> goes (t, ev) take_snapshot (Inr
     \<lparr>me_map_stats = None, me_best_known_map_cells = mt_best_known_map_cells ev,
      me_last_map_growth_at = mt_last_map_growth_at ev,
      me_last_frontier_activity_at = mt_last_frontier_activity_at ev,
      me_exploration_completion_reason = mt_exploration_completion_reason ev,
      me_mapping_path_m = Fin 0, me_latest_odom_xy = mt_latest_odom_xy ev,
      me_odom_generation = mt_odom_generation ev, me_explore_status = mt_explore_status ev,
      me_frontier_telemetry = default_telemetry\<rparr>) (t, ev) {}"
  using goes_basic(7) [of "(t, ev)"] by (simp add: blank_snapshot)

lemma goes_observe:
  assumes "blank_evidence ev" "blank_tracker tr"
  shows "goes (t, ev) (observe_saturation_tracker tr) (Inr tr) (t, ev) {}"
proof -
  have "tracker_observe 0 0 (Fin 0) tr = (Inr (), tr)"
    using assms(2) by (cases tr) (simp add: tracker_observe_def exploration_counters_def
        blank_tracker_def zero_fin)
  then show ?thesis
    using assms(1) by (simp add: goes_def observe_saturation_tracker_def bind_def take_snapshot_def
        lift_result_def ret_def blank_snapshot stats_known_def terminal_count_def
        default_telemetry_def)
qed

lemma goes_on_tracker: "f tr = (Inr x, tr') \<Longrightarrow> goes env (on_tracker f tr) (Inr tr') env {}"
  unfolding on_tracker_def using goes_bind [OF goes_basic(4) goes_basic(1)] by fastforce


definition demo_tracker1 :: SaturationEvidenceTracker where
  "demo_tracker1 = tracker_init\<lparr>trk_active_epoch := Some (1, trk_counters tracker_init)\<rparr>"

definition demo_tracker2 :: SaturationEvidenceTracker where
  "demo_tracker2 = tracker_init\<lparr>trk_epochs := [\<lparr>epoch_id = 1, epoch_start = trk_counters tracker_init,
     epoch_end = trk_counters tracker_init\<rparr>]\<rparr>"

lemma demo_trackers:
  "blank_tracker tracker_init" "blank_tracker demo_tracker1"
  "begin_epoch 1 tracker_init = (Inr (), demo_tracker1)"
  "finish_epoch demo_tracker1 = (Inr \<lparr>epoch_id = 1, epoch_start = trk_counters tracker_init,
     epoch_end = trk_counters tracker_init\<rparr>, demo_tracker2)"
  by (simp_all add: blank_tracker_def tracker_init_def demo_tracker1_def demo_tracker2_def
      begin_epoch_def finish_epoch_def exploration_epoch_evidence_def)

definition demo_state :: epoch_state where
  "demo_state = \<lparr>es_remaining = 2, es_tracker = tracker_init, es_epoch_id = 0,
     es_final_confirmation_active = False, es_final_confirmation_deadline = None\<rparr>"

lemma demo_explorer_epoch:
  assumes "blank_evidence ev"
  shows "\<exists>A. goes (t, ev)
    (run_explorer_epoch (demo_port (Inr outcome) quiesced) demo_spec (Fin d) demo_state)
    (Inr (outcome, demo_tracker2)) (t, ev) A"
  unfolding run_explorer_epoch_def demo_state_def epoch_state.select_convs Let_def
  by (rule exI, rule goes_andthen, rule goes_command, simp, rule goes_bind,
      rule goes_observe [OF assms demo_trackers(1)], rule goes_bind, rule goes_on_tracker,
      simp only: add_0 demo_trackers(3), rule goes_andthen, rule goes_command, simp, rule goes_bind,
      rule goes_catch_ok, rule goes_perform, simp, rule goes_bind,
      rule goes_observe [OF assms demo_trackers(2)], rule goes_bind, rule goes_on_tracker,
      rule demo_trackers(4), rule goes_basic(1))


lemma blank_updates:
  "blank_evidence ev \<Longrightarrow> blank_evidence (set_completion_reason r ev)"
  "blank_evidence ev \<Longrightarrow> blank_evidence (finish_mapping_path ev)"
  "blank_evidence ev \<Longrightarrow> blank_evidence (begin_mapping_path ev)"
  "mt_map_stats ev = None \<Longrightarrow> mt_mapping_path_m ev = Fin 0 \<Longrightarrow>
     blank_evidence (reset_exploration False a b ev)"
  by (simp_all add: blank_evidence_def set_completion_reason_def finish_mapping_path_def
      begin_mapping_path_def reset_exploration_def zero_fin)

abbreviation demo_ok :: "real mission_port" where
  "demo_ok \<equiv> demo_port (Inr ''no_reachable_frontiers'') (Inr default_telemetry)"

lemma goes_now: "goes (t, ev) (now (demo_port outcome q)) (Inr (Fin t)) (t + 50, ev) {}"
  unfolding now_def by (rule goes_read) simp

lemma goes_not_canceled:
  "goes (t, ev) (raise_if_mission_canceled (demo_port outcome q) why) (Inr ()) (t, ev) {}"
  by (simp add: goes_def raise_if_mission_canceled_def request_canceled_def read_env_def query_def
      bind_def guard_def ret_def)

lemma goes_on_evidence: "goes (t, ev) (on_evidence f) (Inr ()) (t, f ev) {}"
  using goes_basic(6) [of "(t, ev)"] by simp

lemma demo_bounded:
  assumes "goes (t + 50, ev) (explore_loop (demo_port out q) demo_spec (Fin (t + 900)) demo_state)
    r env' A"
  shows "goes (t, ev) (explore_with_bounded_recovery (demo_port out q) demo_spec) r env' ({} \<union> A)"
  unfolding explore_with_bounded_recovery_def
  by (rule goes_bind [OF goes_now]) (use assms in \<open>simp add: demo_spec_def demo_state_def\<close>)

lemma demo_explore:
  assumes "blank_evidence ev"
  shows "\<exists>A. goes (t, ev) (explore_with_bounded_recovery demo_ok demo_spec)
    (Inr (plain_outcome ''no_reachable_frontiers''))
    (t + 50, set_completion_reason ''no_reachable_frontiers'' ev) A"
proof -
  obtain A where A: "goes (t + 50, ev)
      (run_explorer_epoch demo_ok demo_spec (Fin (t + 900)) demo_state)
      (Inr (''no_reachable_frontiers'', demo_tracker2)) (t + 50, ev) A"
    using demo_explorer_epoch [OF assms] by blast
  have "\<exists>B. goes (t + 50, ev) (explore_epoch demo_ok demo_spec (Fin (t + 900)) demo_state)
      (Inr (ExplorationDone (plain_outcome ''no_reachable_frontiers'')))
      (t + 50, set_completion_reason ''no_reachable_frontiers'' ev) B"
    unfolding explore_epoch_def
    by (rule exI, rule goes_bind [OF A], simp add: startswith_def, rule goes_andthen,
        unfold stop_explorer_or_cleanup_def, rule goes_catch_ok, rule goes_command, simp,
        rule goes_andthen, rule goes_on_evidence, rule goes_basic(1))
  then obtain B where B: "goes (t + 50, ev)
      (explore_loop demo_ok demo_spec (Fin (t + 900)) demo_state)
      (Inr (plain_outcome ''no_reachable_frontiers''))
      (t + 50, set_completion_reason ''no_reachable_frontiers'' ev) B"
    using goes_explore_loop(1) by blast
  show ?thesis by (rule exI, rule demo_bounded [OF B])
qed

lemma demo_quiet:
  assumes "blank_evidence ev" "mt_last_map_growth_at ev = Fin g" "g + q \<le> t"
  shows "\<exists>snap. map_quiet_loop (demo_port outcome quiesced) (Fin d) (Fin q) (t, ev)
    = Some (Inr snap, (t + 50, ev))"
  using assms by (simp add: map_quiet_loop.simps [of _ "Fin d"] blank_snapshot Let_def zero_fin)

lemma demo_mapping:
  assumes "mt_map_stats ev = None"
  shows "\<exists>A ev'. goes (100, ev) (mission_mapping demo_ok demo_spec)
    (Inr (rte_start_pose example_return, plain_outcome ''no_reachable_frontiers'')) (250, ev') A
    \<and> blank_evidence ev' \<and> mt_last_map_growth_at ev' = Fin 100"
proof -
  define ev1 where "ev1 = begin_mapping_path (reset_exploration False (Fin 100) (Fin 150) ev)"
  have blank: "blank_evidence ev1"
    using assms by (simp add: ev1_def blank_evidence_def begin_mapping_path_def
        reset_exploration_def zero_fin)
  obtain A where A: "goes (200, ev1) (explore_with_bounded_recovery demo_ok demo_spec)
      (Inr (plain_outcome ''no_reachable_frontiers''))
      (200 + 50, set_completion_reason ''no_reachable_frontiers'' ev1) A"
    using demo_explore [OF blank] by blast
  have reset: "goes (100, ev) (seqs
      [command demo_ok (C_run_agent_action a b x), reset_evidence demo_ok False,
       on_evidence begin_mapping_path]) (Inr ()) (200, ev1)
      ({(C_run_agent_action a b x, True)} \<union> ({} \<union> ({} \<union> {}) \<union> {}))" for a b x
  proof -
    have r: "goes (100, ev) (reset_evidence demo_ok False) (Inr ())
        (200, reset_exploration False (Fin 100) (Fin 150) ev) ({} \<union> ({} \<union> {}))"
      unfolding reset_evidence_def
      using goes_bind [OF goes_now [of 100 ev] goes_bind [OF goes_now [of "100 + 50" ev]
          goes_on_evidence]] by simp
    have c: "goes (100, ev) (command demo_ok (C_run_agent_action a b x)) (Inr ()) (100, ev)
        {(C_run_agent_action a b x, True)}"
      using goes_command [of demo_ok "C_run_agent_action a b x" "(100, ev)" "Inr ()"] by simp
    show ?thesis
      unfolding seqs.simps ev1_def by (rule goes_andthen [OF c goes_andthen [OF r goes_on_evidence]])
  qed
  have "\<exists>B. goes (100, ev) (mission_mapping demo_ok demo_spec)
    (Inr (rte_start_pose example_return, plain_outcome ''no_reachable_frontiers''))
    (200 + 50, set_completion_reason ''no_reachable_frontiers'' ev1) B"
    unfolding mission_mapping_def seqs.simps
    by (rule exI, rule goes_andthen, rule goes_andthen, rule goes_command, simp, rule goes_andthen,
        rule goes_command, simp, simp, rule goes_basic(3), rule goes_bind, rule goes_perform, simp,
        rule goes_andthen, rule reset [unfolded seqs.simps], rule goes_bind [OF A],
        rule goes_basic(1))
  moreover have "mt_last_map_growth_at (set_completion_reason ''no_reachable_frontiers'' ev1) = Fin 100"
    by (simp add: ev1_def set_completion_reason_def begin_mapping_path_def reset_exploration_def)
  ultimately show ?thesis using blank_updates(1) [OF blank] by auto
qed

lemma demo_return_and_save:
  assumes "blank_evidence ev" "mt_last_map_growth_at ev = Fin 100"
  shows "\<exists>A ev'. goes (250, ev) (mission_return_and_save demo_ok demo_spec pose out) (Inr ()) (350, ev') A"
proof -
  obtain snap where q: "map_quiet_loop demo_ok (Fin 280) (Fin 15) (300, finish_mapping_path ev)
      = Some (Inr snap, (350, finish_mapping_path ev))"
    using demo_quiet [of "finish_mapping_path ev" 100 15 300 "Inr ''no_reachable_frontiers''"
        "Inr default_telemetry" 280] blank_updates(2) [OF assms(1)] assms(2)
    by (auto simp: finish_mapping_path_def)
  have s: "uw_return_map_settle_s demo_spec = Fin 15" "uw_action_timeout_s demo_spec = Fin 30"
    by (simp_all add: demo_spec_def)
  have quiet: "goes (300, finish_mapping_path ev) (wait_for_map_quiet demo_ok demo_spec
      (Fin 250 + pymax (Fin 15) (Fin 30)) (Some (Fin 15))) (Inr snap) (350, finish_mapping_path ev) {}"
    unfolding wait_for_map_quiet_def by (rule goes_on_env) (simp add: q)
  have now: "goes (250, finish_mapping_path ev) (now demo_ok) (Inr (Fin 250))
      (300, finish_mapping_path ev) {}" using goes_now [of 250] by simp
  have "\<exists>A. goes (250, ev) (mission_return_and_save demo_ok demo_spec pose out) (Inr ())
      (350, finish_mapping_path ev) A"
    unfolding mission_return_and_save_def seqs.simps s
    by (rule exI, rule goes_bind [OF goes_take_snapshot [OF assms(1)]], rule goes_andthen,
        rule goes_andthen, rule goes_command, simp, rule goes_andthen, rule goes_command, simp,
        rule goes_andthen, rule goes_on_evidence, rule goes_command, simp, rule goes_bind,
        rule goes_perform, simp, rule goes_bind [OF now], rule goes_bind [OF quiet],
        rule goes_andthen, rule goes_command, simp, rule goes_andthen, rule goes_command, simp,
        rule goes_not_canceled)
  then show ?thesis by blast
qed

lemma demo_navigation: "\<exists>A. goes (t, ev) (mission_navigation demo_ok demo_spec reason) (Inr ()) (t, ev) A"
proof -
  have count: "int (length [(Fin 1, Fin 0), (Fin 0, Fin 2)]) = uw_navigation_goal_count demo_spec"
    by (simp add: demo_spec_def)
  have step: "\<exists>A. goes (t, ev) (navigation_goal_step demo_ok demo_spec n (i, g)) (Inr ()) (t, ev) A"
    for n i g
    unfolding navigation_goal_step_def prod.case seqs.simps
    by (rule exI, rule goes_andthen, rule goes_not_canceled, rule goes_andthen, rule goes_command,
        simp, rule goes_command, simp)
  obtain A1 where 1: "goes (t, ev) (navigation_goal_step demo_ok demo_spec (Suc (Suc 0))
      (Suc 0, (Fin 1, Fin 0))) (Inr ()) (t, ev) A1" using step by blast
  obtain A2 where 2: "goes (t, ev) (navigation_goal_step demo_ok demo_spec (Suc (Suc 0))
      (Suc (Suc 0), (Fin 0, Fin 2))) (Inr ()) (t, ev) A2" using step by blast
  have g: "guard (int (length [(Fin 1, Fin 0), (Fin 0, Fin 2)]) = uw_navigation_goal_count demo_spec) e
      = guard True e" for e using count by simp
  show ?thesis
    unfolding mission_navigation_def select_goals_def
    by (rule exI, rule goes_andthen, rule goes_command, simp, rule goes_andthen, rule goes_command,
        simp, rule goes_bind, rule goes_perform, simp, unfold seqs.simps g, rule goes_andthen,
        rule goes_basic(5), rule goes_andthen, rule goes_command, simp, rule goes_andthen, simp,
        rule goes_andthen [OF 1], rule goes_andthen [OF 2], rule goes_basic(3), rule goes_andthen,
        rule goes_command, simp, rule goes_command, simp)
qed

definition demo_world :: "real mission_world" where
  "demo_world = \<lparr>mw_env = (100, example_evidence), mw_trace = []\<rparr>"

lemma demo_run: "\<exists>w'. unknown_run demo_ok demo_spec demo_world = Some (Inr (), w')"
proof -
  obtain A ev1 where 1: "goes (100, example_evidence) (mission_mapping demo_ok demo_spec)
    (Inr (rte_start_pose example_return, plain_outcome ''no_reachable_frontiers'')) (250, ev1) A"
    "blank_evidence ev1" "mt_last_map_growth_at ev1 = Fin 100"
    using demo_mapping [of example_evidence] by (auto simp: example_evidence_def)
  obtain B ev2 where 2: "goes (250, ev1) (mission_return_and_save demo_ok demo_spec
      (rte_start_pose example_return) (plain_outcome ''no_reachable_frontiers'')) (Inr ()) (350, ev2) B"
    using demo_return_and_save [OF 1(2,3)] by blast
  obtain C where 3: "goes (350, ev2) (mission_navigation demo_ok demo_spec
      (xo_completion_reason (plain_outcome ''no_reachable_frontiers''))) (Inr ()) (350, ev2) C"
    using demo_navigation by blast
  have "goes (100, example_evidence) (unknown_run_transaction demo_ok demo_spec) (Inr ())
      (350, ev2) (A \<union> (B \<union> C))"
    unfolding unknown_run_transaction_def
    by (rule goes_bind [OF 1(1)]) (use goes_andthen [OF 2 3] in simp)
  then obtain tr where "unknown_run_transaction demo_ok demo_spec demo_world
      = Some (Inr (), \<lparr>mw_env = (350, ev2), mw_trace = tr\<rparr>)"
    unfolding goes_def demo_world_def by blast
  then show ?thesis by (simp add: unknown_run_def ensure_def on_evidence_def modify_def)
qed
definition demo_blank :: "real mission_world" where
  "demo_blank = \<lparr>mw_env = (0, example_evidence), mw_trace = []\<rparr>"

abbreviation demo_lost :: "real mission_port" where
  "demo_lost \<equiv> demo_port (Inl (RuntimeError ''lost'')) (Inr default_telemetry)"

lemma demo_cleanup:
  "\<exists>A. goes env (cleanup_failed_frontier_epoch demo_lost demo_spec True) (Inr ()) env A"
  unfolding cleanup_failed_frontier_epoch_def if_True
  by (rule exI, rule goes_andthen, rule goes_andthen, rule goes_catch_ok, rule goes_bind,
      rule goes_perform, simp, rule goes_basic(3), rule goes_catch_ok, rule goes_command, simp,
      rule goes_catch_ok, rule goes_command, simp)

lemma demo_lost_explore:
  assumes "blank_evidence ev"
  shows "\<exists>A. goes (t, ev) (explore_loop demo_lost demo_spec (Fin d) demo_state)
    (Inl (RuntimeError ''lost'')) (t, ev) A \<and> (C_wait_for_frontier (Some (2, Fin d)), False) \<in> A"
proof -
  let ?args = "Some (2, Fin d)"
  obtain C where c: "goes (t, ev) (cleanup_failed_frontier_epoch demo_lost demo_spec True)
      (Inr ()) (t, ev) C" using demo_cleanup by blast
  have wait: "goes (t, ev) (perform (C_wait_for_frontier ?args) (mp_wait_for_frontier demo_lost ?args))
      (Inl (RuntimeError ''lost'')) (t, ev) {(C_wait_for_frontier ?args, False)}"
    using goes_perform [of "mp_wait_for_frontier demo_lost ?args" "(t, ev)"
        "Inl (RuntimeError ''lost'')" "(t, ev)" "C_wait_for_frontier ?args"] by simp
  have "\<exists>A. goes (t, ev) (run_explorer_epoch demo_lost demo_spec (Fin d) demo_state)
      (Inl (RuntimeError ''lost'')) (t, ev) (A \<union> {(C_wait_for_frontier ?args, False)})"
    unfolding run_explorer_epoch_def demo_state_def epoch_state.select_convs Let_def option.case
    by (rule exI, rule goes_weaken, rule goes_andthen, rule goes_command, simp, rule goes_bind,
        rule goes_observe [OF assms demo_trackers(1)], rule goes_bind, rule goes_on_tracker,
        simp only: add_0 demo_trackers(3), rule goes_andthen, rule goes_command, simp,
        rule goes_bind_error, rule goes_catch_error [OF wait], rule goes_andthen [OF c],
        rule goes_basic(2)) auto
  then obtain A where "goes (t, ev) (explore_epoch demo_lost demo_spec (Fin d) demo_state)
      (Inl (RuntimeError ''lost'')) (t, ev) (A \<union> {(C_wait_for_frontier ?args, False)})"
    unfolding explore_epoch_def using goes_bind_error by blast
  then show ?thesis using goes_explore_loop(2) by blast
qed

lemma demo_failed_run:
  "\<exists>w' args. unknown_run demo_lost demo_spec demo_world = Some (Inl (RuntimeError ''lost''), w')
    \<and> (C_wait_for_frontier args, False) \<in> set (mw_trace w')"
proof -
  define ev1 where "ev1 = begin_mapping_path (reset_exploration False (Fin 100) (Fin 150) example_evidence)"
  have blank: "blank_evidence ev1"
    by (simp add: ev1_def blank_evidence_def begin_mapping_path_def reset_exploration_def zero_fin
        example_evidence_def)
  obtain A where A: "goes (250, ev1) (explore_loop demo_lost demo_spec (Fin 1100) demo_state)
      (Inl (RuntimeError ''lost'')) (250, ev1) A" "(C_wait_for_frontier (Some (2, Fin 1100)), False) \<in> A"
    using demo_lost_explore [OF blank] by blast
  have explore: "goes (200, ev1) (explore_with_bounded_recovery demo_lost demo_spec)
      (Inl (RuntimeError ''lost'')) (250, ev1) ({} \<union> A)"
    using demo_bounded [of 200 ev1] A(1) by simp
  have reset: "goes (100, example_evidence) (reset_evidence demo_lost False) (Inr ())
        (200, reset_exploration False (Fin 100) (Fin 150) example_evidence) ({} \<union> ({} \<union> {}))"
    unfolding reset_evidence_def
    using goes_bind [OF goes_now [of 100] goes_bind [OF goes_now [of "100 + 50"] goes_on_evidence]]
    by simp
  have "\<exists>B. goes (100, example_evidence) (mission_mapping demo_lost demo_spec)
      (Inl (RuntimeError ''lost'')) (250, ev1) (B \<union> A)"
    unfolding mission_mapping_def seqs.simps ev1_def
    by (rule exI, rule goes_weaken, rule goes_andthen, rule goes_andthen, rule goes_command, simp,
        rule goes_andthen, rule goes_command, simp, simp, rule goes_basic(3), rule goes_bind,
        rule goes_perform, simp, rule goes_andthen, rule goes_andthen, rule goes_command, simp,
        rule goes_andthen [OF reset], rule goes_on_evidence, rule goes_bind_error,
        rule explore [unfolded ev1_def]) auto
  then obtain B where "goes (100, example_evidence) (unknown_run_transaction demo_lost demo_spec)
      (Inl (RuntimeError ''lost'')) (250, ev1) (B \<union> A)"
    unfolding unknown_run_transaction_def using goes_bind_error by blast
  then obtain tr where "unknown_run_transaction demo_lost demo_spec demo_world
      = Some (Inl (RuntimeError ''lost''), \<lparr>mw_env = (250, ev1), mw_trace = tr\<rparr>)" "A \<subseteq> set tr"
    unfolding goes_def demo_world_def by blast
  then show ?thesis using A(2)
    by (auto simp: unknown_run_def ensure_def on_evidence_def modify_def)
qed

section \<open>Witnesses\<close>

theorem unknown_mission_ends_witness:
  "\<exists>r w'. unknown_run demo_ok demo_spec demo_world = Some (r, w') \<and> explorer_starts w' \<le> 4
    \<and> \<not> mt_record_mapping_path (snd (mw_env w'))"
  using unknown_mission_ends [OF demo_clock demo_spec_checked,
      of "Inr ''no_reachable_frontiers''" "Inr default_telemetry" demo_world]
  by (auto simp: demo_world_def explorer_starts_def demo_spec_def)



definition demo_automatic :: AutomaticMissionSpec where
  "demo_automatic =
     \<lparr>am_explorer_config_path = ''explore.yaml'', am_bootstrap_route = [(''a'', ''go'', ''move'')],
      am_scan_startup_timeout_s = Fin 30, am_bootstrap_action_timeout_s = Fin 30,
      am_navigation_timeout_s = Fin 120, am_navigate_text = ''home'', am_patrol_text = ''patrol''\<rparr>"

theorem budget_quiesce_failure_skips_cleanup_witness:
  "\<exists>w1 w2. run_explorer_epoch
        (demo_port (Inr ''assessment_required:time_budget'') (Inl (TimeoutError ''drain'')))
        demo_spec (Fin 900) demo_state demo_blank
        = Some (Inr (''assessment_required:time_budget'', demo_tracker2), w1)
    \<and> explore_loop (demo_port (Inr ''assessment_required:time_budget'') (Inl (TimeoutError ''drain'')))
        demo_spec (Fin 900) demo_state demo_blank = Some (Inl (TimeoutError ''drain''), w2)
    \<and> last (mw_trace w2) = (C_quiesce_frontier UserRequest (Fin 30), False)"
proof -
  let ?p = "demo_port (Inr ''assessment_required:time_budget'') (Inl (TimeoutError ''drain''))"
  have "blank_evidence example_evidence"
    by (simp add: blank_evidence_def example_evidence_def zero_fin)
  then obtain w1 where w1: "run_explorer_epoch ?p demo_spec (Fin 900) demo_state demo_blank
      = Some (Inr (''assessment_required:time_budget'', demo_tracker2), w1)"
    using demo_explorer_epoch unfolding goes_def demo_blank_def by blast
  from budget_quiesce_failure_skips_cleanup [OF w1, of "TimeoutError ''drain''" "mw_env w1"] w1
  show ?thesis by (simp add: demo_spec_def)
qed

theorem failed_wait_is_cleaned_up_witness:
  "\<exists>r w'. unknown_run (demo_port (Inl (RuntimeError ''lost'')) (Inr default_telemetry)) demo_spec
      demo_world = Some (r, w') \<and> is_error r \<and> cleaned_up demo_spec w'"
proof -
  obtain w' args where w': "unknown_run (demo_port (Inl (RuntimeError ''lost''))
      (Inr default_telemetry)) demo_spec demo_world = Some (Inl (RuntimeError ''lost''), w')"
    "(C_wait_for_frontier args, False) \<in> set (mw_trace w')"
    using demo_failed_run by blast
  have "mw_trace demo_world = []" by (simp add: demo_world_def)
  from failed_wait_is_cleaned_up [OF this w'] w' show ?thesis by blast
qed

end
