(* ===== verification/Goal_Sampler.thy ===== *)
theory Goal_Sampler
  imports Prelude "HOL-Library.FSet" "HOL-Library.Multiset" "HOL-Library.Product_Lexorder"
begin

text \<open>
  The goal sampler of \<open>mapped_goal_sampler.py\<close>: the occupancy grid, the inspection of a planned
  path, the clearance around a goal, the search of the free component around the robot and the
  farthest-first ranking. A \<open>frozenset\<close> of cells is an \<open>fset\<close>; pairs of integers are ordered
  lexicographically, as tuples are. \<open>random.Random(seed).shuffle\<close> is the argument \<open>shuffle\<close>, of which
  only is used that it permutes its list.
\<close>

type_synonym Cell = "int \<times> int"
type_synonym Point2D = "pyfloat \<times> pyfloat"

section \<open>The grid\<close>

record OccupancySnapshot =
  occ_width :: int
  occ_height :: int
  occ_resolution_m :: pyfloat
  occ_origin_xy :: Point2D
  occ_cells :: "int list"

definition occupancy_snapshot :: "OccupancySnapshot \<Rightarrow> OccupancySnapshot result" where
  "occupancy_snapshot s =
     (if occ_width s \<le> 0 \<or> occ_height s \<le> 0
      then Inl (ValueError ''occupancy dimensions must be positive'')
      else if occ_resolution_m s \<le> 0
      then Inl (ValueError ''occupancy resolution must be positive'')
      else if int (length (occ_cells s)) \<noteq> occ_width s * occ_height s
      then Inl (ValueError ''occupancy cell count does not match dimensions'')
      else Inr s)"

fun occ_value :: "OccupancySnapshot \<Rightarrow> Cell \<Rightarrow> int result" where
  "occ_value s (column, row) = py_index (occ_cells s) (row * occ_width s + column)"

fun occ_contains :: "OccupancySnapshot \<Rightarrow> Cell \<Rightarrow> bool" where
  "occ_contains s (column, row) \<longleftrightarrow>
     0 \<le> column \<and> column < occ_width s \<and> 0 \<le> row \<and> row < occ_height s"

definition world_to_cell :: "OccupancySnapshot \<Rightarrow> Point2D \<Rightarrow> Cell option result" where
  "world_to_cell s point =
     rbind (py_floor (flt_div (fst point - fst (occ_origin_xy s)) (occ_resolution_m s))) (\<lambda>column.
     rbind (py_floor (flt_div (snd point - snd (occ_origin_xy s)) (occ_resolution_m s))) (\<lambda>row.
     Inr (if occ_contains s (column, row) then Some (column, row) else None)))"

fun cell_center :: "OccupancySnapshot \<Rightarrow> Cell \<Rightarrow> Point2D" where
  "cell_center s (column, row) =
     (fst (occ_origin_xy s) + flt_mul (Fin (real_of_int column + 0.5)) (occ_resolution_m s),
      snd (occ_origin_xy s) + flt_mul (Fin (real_of_int row + 0.5)) (occ_resolution_m s))"

text \<open>\<open>snapshot.value(cell) == 0\<close>; a cell outside the data, where the access raises, is not free.
  On a cell of a checked grid the access never raises (\<open>value_of_contained\<close>).\<close>

definition is_free :: "OccupancySnapshot \<Rightarrow> Cell \<Rightarrow> bool" where
  "is_free s cell \<longleftrightarrow> occ_value s cell = Inr 0"

section \<open>Inspection of a path\<close>

record PathOccupancyStats =
  po_sample_count :: int
  po_unknown_cell_count :: int
  po_occupied_cell_count :: int
  po_outside_map_cell_count :: int

definition known_free :: "PathOccupancyStats \<Rightarrow> bool" where
  "known_free st \<longleftrightarrow> 0 < po_sample_count st \<and> po_unknown_cell_count st = 0
     \<and> po_occupied_cell_count st = 0 \<and> po_outside_map_cell_count st = 0"

definition math_dist :: "Point2D \<Rightarrow> Point2D \<Rightarrow> pyfloat" where
  "math_dist a b = hypot (fst a - fst b) (snd a - snd b)"

text \<open>The samples a segment adds: its interior divided into steps of at most half a cell, and its
  end.\<close>

definition interpolate :: "pyfloat \<Rightarrow> pyfloat \<Rightarrow> int \<Rightarrow> int \<Rightarrow> pyfloat" where
  "interpolate a b index steps =
     a + flt_div (flt_mul (b - a) (Fin (real_of_int index))) (Fin (real_of_int steps))"

definition segment_samples :: "pyfloat \<Rightarrow> Point2D \<times> Point2D \<Rightarrow> Point2D list result" where
  "segment_samples maximum_step_m segment =
     (case segment of (start, stop) \<Rightarrow>
        rbind (py_ceil (flt_div (math_dist start stop) maximum_step_m)) (\<lambda>n.
          let steps = max 1 n
          in Inr (map (\<lambda>index. (interpolate (fst start) (fst stop) index steps,
                                interpolate (snd start) (snd stop) index steps)) [1..steps])))"

definition dense_path :: "OccupancySnapshot \<Rightarrow> Point2D list \<Rightarrow> Point2D list result" where
  "dense_path s points =
     rbind (rmap (segment_samples (flt_mul (occ_resolution_m s) (Fin 0.5))) (zip points (tl points)))
       (\<lambda>segments. Inr (hd points # concat segments))"

fun count_samples ::
  "OccupancySnapshot \<Rightarrow> Point2D list \<Rightarrow> int \<Rightarrow> int \<Rightarrow> int \<Rightarrow> (int \<times> int \<times> int) result" where
  "count_samples s [] unknown occupied outside = Inr (unknown, occupied, outside)"
| "count_samples s (point # points) unknown occupied outside =
     rbind (world_to_cell s point) (\<lambda>found.
       case found of
         None \<Rightarrow> count_samples s points unknown occupied (outside + 1)
       | Some cell \<Rightarrow> rbind (occ_value s cell) (\<lambda>v.
           if v < 0 then count_samples s points (unknown + 1) occupied outside
           else if v \<noteq> 0 then count_samples s points unknown (occupied + 1) outside
           else count_samples s points unknown occupied outside))"

definition inspect_path_occupancy ::
  "OccupancySnapshot \<Rightarrow> Point2D list \<Rightarrow> PathOccupancyStats result" where
  "inspect_path_occupancy s points =
     (if points = [] then Inl (ValueError ''navigation path must contain at least one point'')
      else rbind (dense_path s points) (\<lambda>dense.
        rbind (count_samples s dense 0 0 0) (\<lambda>(unknown, occupied, outside).
          Inr \<lparr>po_sample_count = int (length dense), po_unknown_cell_count = unknown,
               po_occupied_cell_count = occupied, po_outside_map_cell_count = outside\<rparr>)))"

section \<open>Clearance\<close>

text \<open>The distance from the centre of a cell to the edge of the cell \<open>(dx, dy)\<close> away.\<close>

definition edge_distance :: "pyfloat \<Rightarrow> int \<Rightarrow> int \<Rightarrow> pyfloat" where
  "edge_distance resolution_m dx dy =
     hypot (pymax 0 (flt_mul (Fin (real_of_int \<bar>dx\<bar> - 0.5)) resolution_m))
           (pymax 0 (flt_mul (Fin (real_of_int \<bar>dy\<bar> - 0.5)) resolution_m))"

definition clearance_tolerance :: "pyfloat \<Rightarrow> pyfloat" where
  "clearance_tolerance resolution_m =
     pymax (Fin (1 / 10 ^ 12)) (flt_mul resolution_m (Fin (1 / 10 ^ 9)))"

definition clearance_offsets :: "pyfloat \<Rightarrow> pyfloat \<Rightarrow> Cell list result" where
  "clearance_offsets resolution_m clearance_m =
     (if \<not> isfinite clearance_m \<or> clearance_m < 0
      then Inl (ValueError ''clearance must be non-negative'')
      else rbind (py_ceil (flt_div clearance_m resolution_m + Fin 0.5)) (\<lambda>radius.
        Inr [(column_delta, row_delta). row_delta \<leftarrow> [- radius..radius],
               column_delta \<leftarrow> [- radius..radius],
               edge_distance resolution_m column_delta row_delta
                 \<le> clearance_m + clearance_tolerance resolution_m]))"

definition grid_cells :: "OccupancySnapshot \<Rightarrow> Cell list" where
  "grid_cells s =
     [(column, row). row \<leftarrow> [0..occ_height s - 1], column \<leftarrow> [0..occ_width s - 1]]"

definition safe_free_cells :: "OccupancySnapshot \<Rightarrow> pyfloat \<Rightarrow> Cell fset result" where
  "safe_free_cells s clearance_m =
     rbind (clearance_offsets (occ_resolution_m s) clearance_m) (\<lambda>offsets.
       Inr (fset_of_list (filter (\<lambda>(column, row).
         is_free s (column, row)
         \<and> list_all (\<lambda>(dx, dy). occ_contains s (column + dx, row + dy)
             \<and> is_free s (column + dx, row + dy)) offsets) (grid_cells s))))"

section \<open>The free component of the robot\<close>

fun visit_neighbor ::
  "Cell fset \<Rightarrow> Cell \<Rightarrow> Cell list \<times> Cell fset \<Rightarrow> Cell list \<times> Cell fset" where
  "visit_neighbor safe neighbor (queue, joined) =
     (if neighbor |\<in>| safe \<and> neighbor |\<notin>| joined
      then (queue @ [neighbor], finsert neighbor joined) else (queue, joined))"

fun neighbors :: "Cell \<Rightarrow> Cell list" where
  "neighbors (column, row) =
     [(column - 1, row), (column + 1, row), (column, row - 1), (column, row + 1)]"

text \<open>A visit only adds cells of the component that were not joined yet, and queues each.\<close>

lemma visit_neighbors_measure:
  "fold (visit_neighbor safe) ns (queue, joined) = (queue', joined') \<Longrightarrow>
     length queue' + fcard (safe |-| joined') = length queue + fcard (safe |-| joined)"
proof (induction ns arbitrary: queue joined)
  case (Cons n ns)
  have "fcard (safe |-| finsert n joined) + 1 = fcard (safe |-| joined)"
    if "n |\<in>| safe" "n |\<notin>| joined"
  proof -
    have "safe |-| joined = finsert n (safe |-| finsert n joined)" using that by auto
    then have "fcard (safe |-| joined) = fcard (finsert n (safe |-| finsert n joined))" by simp
    then show ?thesis by (simp add: fcard_finsert_disjoint)
  qed
  note added = this
  show ?case
  proof (cases "n |\<in>| safe \<and> n |\<notin>| joined")
    case True
    then show ?thesis using added Cons.IH [of "queue @ [n]" "finsert n joined"] Cons.prems by simp
  next
    case False
    then have "visit_neighbor safe n (queue, joined) = (queue, joined)" by simp
    then show ?thesis using Cons.IH [of queue joined] Cons.prems by (simp del: visit_neighbor.simps)
  qed
qed simp

function component_loop :: "Cell fset \<Rightarrow> Cell list \<Rightarrow> Cell fset \<Rightarrow> Cell fset" where
  "component_loop safe [] joined = joined"
| "component_loop safe (cell # queue) joined =
     (case fold (visit_neighbor safe) (neighbors cell) (queue, joined) of
        (queue', joined') \<Rightarrow> component_loop safe queue' joined')"
  by pat_completeness auto
termination
proof (relation "measure (\<lambda>(safe, queue, joined). length queue + fcard (safe |-| joined))")
  fix safe joined joined' :: "Cell fset" and cell :: Cell and queue queue' :: "Cell list"
  assume "(queue', joined') = fold (visit_neighbor safe) (neighbors cell) (queue, joined)"
  then have "length queue' + fcard (safe |-| joined') = length queue + fcard (safe |-| joined)"
    by (metis visit_neighbors_measure)
  then show "((safe, queue', joined'), safe, cell # queue, joined)
      \<in> measure (\<lambda>(safe, queue, joined). length queue + fcard (safe |-| joined))"
    by (simp only: in_measure prod.case length_Cons)
qed simp

definition connected_component :: "Cell \<Rightarrow> Cell fset \<Rightarrow> Cell fset" where
  "connected_component start safe = component_loop safe [start] {|start|}"

section \<open>Ranking\<close>

text \<open>Python's \<open>max\<close> and \<open>min\<close> over a sequence keep the first of several best elements.\<close>

fun max_by :: "('a \<Rightarrow> pyfloat) \<Rightarrow> 'a \<Rightarrow> 'a list \<Rightarrow> 'a" where
  "max_by key best [] = best"
| "max_by key best (x # xs) = max_by key (if key best < key x then x else best) xs"

fun min_of :: "pyfloat list \<Rightarrow> pyfloat" where
  "min_of [] = PosInf"
| "min_of (x # xs) = fold (\<lambda>y m. pymin m y) xs x"

definition anchor_distance :: "Point2D list \<Rightarrow> Point2D \<Rightarrow> pyfloat" where
  "anchor_distance anchors point = min_of (map (math_dist point) anchors)"

lemma max_by_mem: "max_by key b xs \<in> insert b (set xs)"
  by (induction key b xs rule: max_by.induct) auto

function rank_loop ::
  "pyfloat \<Rightarrow> nat \<Rightarrow> Point2D list \<Rightarrow> Point2D list \<Rightarrow> Point2D list \<Rightarrow> Point2D list" where
  "rank_loop minimum_separation_m candidate_limit [] selected anchors = selected"
| "rank_loop minimum_separation_m candidate_limit (p # ps) selected anchors =
     (if length selected < candidate_limit then
        let best = max_by (anchor_distance anchors) p ps;
            distance = (if selected \<noteq> [] then min_of (map (math_dist best) selected) else PosInf)
        in if distance + Fin (1 / 10 ^ 12) < minimum_separation_m then selected
           else rank_loop minimum_separation_m candidate_limit (remove1 best (p # ps))
                  (selected @ [best]) (anchors @ [best])
      else selected)"
  by pat_completeness auto
termination
proof (relation "measure (\<lambda>(_, _, remaining, _, _). length remaining)")
  fix sep :: pyfloat and limit :: nat and p ps selected anchors best
  assume "best = max_by (anchor_distance anchors) p ps"
  then have "best \<in> set (p # ps)" using max_by_mem by fastforce
  then have "length (remove1 best (p # ps)) < length (p # ps)" by (simp only: length_remove1) simp
  then show "((sep, limit, remove1 best (p # ps), selected @ [best], anchors @ [best]),
      sep, limit, p # ps, selected, anchors) \<in> measure (\<lambda>(_, _, remaining, _, _). length remaining)"
    by simp
qed simp

definition rank_farthest_goals ::
  "(int \<Rightarrow> Point2D list \<Rightarrow> Point2D list) \<Rightarrow> Point2D list \<Rightarrow> Point2D \<Rightarrow> nat \<Rightarrow> int \<Rightarrow> pyfloat
     \<Rightarrow> Point2D list" where
  "rank_farthest_goals shuffle candidates start_xy candidate_limit seed minimum_separation_m =
     rank_loop minimum_separation_m candidate_limit (shuffle seed candidates) [] [start_xy]"

definition free_cells :: "OccupancySnapshot \<Rightarrow> Cell fset" where
  "free_cells s = fset_of_list (filter (is_free s) (grid_cells s))"

definition rank_mapped_goal_candidates ::
  "(int \<Rightarrow> Point2D list \<Rightarrow> Point2D list) \<Rightarrow> OccupancySnapshot \<Rightarrow> Point2D \<Rightarrow> int \<Rightarrow> pyfloat \<Rightarrow> pyfloat
     \<Rightarrow> int \<Rightarrow> Point2D list result" where
  "rank_mapped_goal_candidates shuffle s start_xy seed minimum_separation_m clearance_m
       candidate_limit =
     (if candidate_limit \<le> 0 then Inl (ValueError ''candidate limit must be positive'')
      else if \<not> isfinite minimum_separation_m \<or> minimum_separation_m < 0
      then Inl (ValueError ''minimum separation must be non-negative'')
      else rbind (world_to_cell s start_xy) (\<lambda>found.
        case found of
          None \<Rightarrow> Inl (GoalSamplingError ''robot start is not in known free space'')
        | Some start \<Rightarrow>
            if \<not> is_free s start
            then Inl (GoalSamplingError ''robot start is not in known free space'')
            else
              let reachable = connected_component start (free_cells s)
              in rbind (safe_free_cells s clearance_m) (\<lambda>goal_safe.
                   let candidates = map (cell_center s)
                         (filter (\<lambda>cell. cell \<noteq> start)
                           (sorted_list_of_fset (reachable |\<inter>| goal_safe)))
                   in Inr (rank_farthest_goals shuffle candidates start_xy (nat candidate_limit) seed
                        minimum_separation_m))))"

section \<open>The search finds exactly the reachable cells\<close>

text \<open>One step of a robot that moves between side-by-side cells and stays on \<open>safe\<close> ones.\<close>

definition free_step :: "Cell fset \<Rightarrow> Cell \<Rightarrow> Cell \<Rightarrow> bool" where
  "free_step safe a b \<longleftrightarrow> b |\<in>| safe \<and> b \<in> set (neighbors a)"

lemma visit_neighbors_result:
  "fold (visit_neighbor safe) ns (queue, joined) = (queue', joined') \<Longrightarrow>
     fset joined' = fset joined \<union> {n \<in> set ns. n |\<in>| safe}
     \<and> set queue' = set queue \<union> (fset joined' - fset joined)"
proof (induction ns arbitrary: queue joined)
  case (Cons n ns)
  show ?case
  proof (cases "n |\<in>| safe \<and> n |\<notin>| joined")
    case True
    then show ?thesis using Cons.IH [of "queue @ [n]" "finsert n joined"] Cons.prems by auto
  next
    case False
    then have "visit_neighbor safe n (queue, joined) = (queue, joined)" by simp
    then show ?thesis
      using Cons.IH [of queue joined] Cons.prems False by (auto simp del: visit_neighbor.simps)
  qed
qed simp

text \<open>The queue holds the cells whose neighbours are still to be visited.\<close>

definition search_inv :: "Cell fset \<Rightarrow> Cell \<Rightarrow> Cell list \<Rightarrow> Cell fset \<Rightarrow> bool" where
  "search_inv safe start queue joined \<longleftrightarrow>
     start |\<in>| joined \<and> set queue \<subseteq> fset joined
     \<and> (\<forall>c. c |\<in>| joined \<longrightarrow> (free_step safe)\<^sup>*\<^sup>* start c)
     \<and> (\<forall>a b. a |\<in>| joined \<and> a \<notin> set queue \<and> free_step safe a b \<longrightarrow> b |\<in>| joined)"

lemma search_inv_step:
  assumes "search_inv safe start (cell # queue) joined"
    "fold (visit_neighbor safe) (neighbors cell) (queue, joined) = (queue', joined')"
  shows "search_inv safe start queue' joined'"
proof -
  note r = visit_neighbors_result [OF assms(2)]
  have cell: "(free_step safe)\<^sup>*\<^sup>* start cell" "cell |\<in>| joined"
    using assms(1) unfolding search_inv_def by (metis list.set_intros(1) subsetD)+
  have "(free_step safe)\<^sup>*\<^sup>* start c" if "c |\<in>| joined'" for c
  proof (cases "c |\<in>| joined")
    case False
    then have "free_step safe cell c" using r that by (auto simp: free_step_def)
    with cell(1) show ?thesis by (rule rtranclp.rtrancl_into_rtrancl)
  next
    case True
    then show ?thesis using assms(1) unfolding search_inv_def by blast
  qed
  moreover have "b |\<in>| joined'" if "a |\<in>| joined'" "a \<notin> set queue'" "free_step safe a b" for a b
  proof (cases "a = cell")
    case True
    then show ?thesis using r that(3) by (auto simp: free_step_def)
  next
    case False
    then have "a |\<in>| joined" "a \<notin> set (cell # queue)" using r that by auto
    then have "b |\<in>| joined" using assms(1) that(3) unfolding search_inv_def by blast
    then show ?thesis using r by auto
  qed
  moreover have "start |\<in>| joined'" "set queue' \<subseteq> fset joined'"
    using r assms(1) unfolding search_inv_def by auto
  ultimately show ?thesis unfolding search_inv_def by blast
qed

lemma component_loop_inv:
  "search_inv safe start queue joined \<Longrightarrow> search_inv safe start [] (component_loop safe queue joined)"
proof (induction safe queue joined rule: component_loop.induct)
  case (2 safe cell queue joined)
  then show ?case by (auto dest: search_inv_step split: prod.split)
qed simp

text \<open>C31. The search around the robot finds exactly the cells it can drive to. A cell is in the
  component of the start exactly when a chain of side-by-side safe cells leads to it, whatever the
  order in which the queue visits them.\<close>

theorem connected_component_exact:
  "c |\<in>| connected_component start safe \<longleftrightarrow> (free_step safe)\<^sup>*\<^sup>* start c"
proof -
  have inv: "search_inv safe start [] (connected_component start safe)"
    unfolding connected_component_def
    by (rule component_loop_inv) (auto simp: search_inv_def)
  have "c |\<in>| connected_component start safe" if "(free_step safe)\<^sup>*\<^sup>* start c"
    using that by (induction rule: rtranclp_induct) (use inv in \<open>auto simp: search_inv_def\<close>)
  then show ?thesis using inv unfolding search_inv_def by blast
qed

section \<open>Cells and points\<close>

lemma value_of_contained:
  assumes "occupancy_snapshot s = Inr s'" "occ_contains s (column, row)"
  shows "\<exists>v. occ_value s (column, row) = Inr v"
proof -
  have w: "int (length (occ_cells s)) = occ_width s * occ_height s"
    using assms(1) by (auto simp: occupancy_snapshot_def split: if_splits)
  have "row * occ_width s + column < (row + 1) * occ_width s"
    using assms(2) by (simp add: algebra_simps)
  also have "\<dots> \<le> occ_height s * occ_width s"
    using assms(2) by (intro mult_right_mono) auto
  finally show ?thesis using assms(2) w by (auto simp: py_index_def mult.commute)
qed

text \<open>A map whose origin and resolution are finite.\<close>

definition finite_map_frame :: "OccupancySnapshot \<Rightarrow> bool" where
  "finite_map_frame s \<longleftrightarrow> isfinite (occ_resolution_m s) \<and> isfinite (fst (occ_origin_xy s))
     \<and> isfinite (snd (occ_origin_xy s))"

lemma finite_map_frameE:
  assumes "finite_map_frame s" "occupancy_snapshot s = Inr s'"
  obtains r ox oy where "occ_resolution_m s = Fin r" "occ_origin_xy s = (Fin ox, Fin oy)" "0 < r"
  using assms
  by (cases "occ_origin_xy s"; cases "fst (occ_origin_xy s)"; cases "snd (occ_origin_xy s)";
      cases "occ_resolution_m s")
    (auto simp: finite_map_frame_def occupancy_snapshot_def zero_fin split: if_splits)

text \<open>Cells and world points convert back and forth: the centre of a cell of the map lies in
  that cell.\<close>

lemma cell_center_roundtrip:
  assumes "occupancy_snapshot s = Inr s'" "finite_map_frame s" "occ_contains s cell"
  shows "world_to_cell s (cell_center s cell) = Inr (Some cell)"
proof -
  obtain r ox oy where f: "occ_resolution_m s = Fin r" "occ_origin_xy s = (Fin ox, Fin oy)" "0 < r"
    using finite_map_frameE [OF assms(2,1)] .
  have "\<lfloor>((o' + (real_of_int k + 0.5) * r) - o') / r\<rfloor> = k" for o' k
    using f(3) by (simp add: floor_unique)
  then show ?thesis
    using f assms(3) by (cases cell) (simp add: world_to_cell_def)
qed

section \<open>Clearance\<close>

definition edge_length :: "real \<Rightarrow> int \<Rightarrow> int \<Rightarrow> real" where
  "edge_length r dx dy =
     sqrt ((max 0 ((real_of_int \<bar>dx\<bar> - 1 / 2) * r)) ^ 2 + (max 0 ((real_of_int \<bar>dy\<bar> - 1 / 2) * r)) ^ 2)"

lemma edge_distance_fin [simp]: "edge_distance (Fin r) dx dy = Fin (edge_length r dx dy)"
  by (simp add: edge_distance_def edge_length_def zero_fin)

lemma clearance_tolerance_fin [simp]:
  "clearance_tolerance (Fin r) = Fin (max (1 / 10 ^ 12) (r / 10 ^ 9))"
  by (simp add: clearance_tolerance_def)

lemma edge_length_ge:
  "(real_of_int \<bar>dx\<bar> - 1 / 2) * r \<le> edge_length r dx dy" "(real_of_int \<bar>dy\<bar> - 1 / 2) * r \<le> edge_length r dx dy"
  unfolding edge_length_def
  by (rule order_trans [OF max.cobounded2 [of _ 0]], rule real_le_rsqrt, simp)+

text \<open>A cell outside the enumerated square is farther away than the clearance.\<close>

lemma far_cell_clear:
  assumes "(real_of_int \<bar>d\<bar> - 1 / 2) * r \<le> c + max (1 / 10 ^ 12) (r / 10 ^ 9)" "1 / 10 ^ 12 < r"
  shows "\<bar>d\<bar> \<le> \<lceil>c / r + 1 / 2\<rceil>"
proof -
  have "0 < r" using assms(2) by (smt (verit) divide_pos_pos zero_less_power)
  have "(real_of_int \<bar>d\<bar> - 1 / 2) * r < c + r"
    using assms \<open>0 < r\<close> by (simp add: max_def split: if_splits)
  then have "real_of_int \<bar>d\<bar> - 1 / 2 < (c + r) / r" using \<open>0 < r\<close> by (simp add: pos_less_divide_eq)
  also have "\<dots> = c / r + 1" using \<open>0 < r\<close> by (simp add: add_divide_distrib)
  finally show ?thesis by linarith
qed

lemma clearance_offsets_complete:
  assumes "0 \<le> c" "1 / 10 ^ 12 < r"
  obtains offsets where "clearance_offsets (Fin r) (Fin c) = Inr offsets"
    "\<And>dx dy. (dx, dy) \<in> set offsets \<longleftrightarrow>
       edge_distance (Fin r) dx dy \<le> Fin c + clearance_tolerance (Fin r)"
proof -
  let ?radius = "\<lceil>c / r + 1 / 2\<rceil>"
  have square: "\<bar>dx\<bar> \<le> ?radius \<and> \<bar>dy\<bar> \<le> ?radius"
    if "edge_length r dx dy \<le> c + max (1 / 10 ^ 12) (r / 10 ^ 9)" for dx dy
    using far_cell_clear [OF order_trans [OF edge_length_ge(1) that] assms(2)]
      far_cell_clear [OF order_trans [OF edge_length_ge(2) that] assms(2)] by simp
  show ?thesis
    by (rule that) (use assms(1) square in
      \<open>auto simp: clearance_offsets_def zero_fin abs_le_iff simp flip: minus_le_iff\<close>)
qed

lemma grid_cells_iff: "cell \<in> set (grid_cells s) \<longleftrightarrow> occ_contains s cell"
proof (cases cell)
  case (Pair column row)
  show ?thesis
    unfolding Pair grid_cells_def by (auto intro!: bexI [of _ row] image_eqI [of _ _ column])
qed

text \<open>A safe cell is a free cell of the map around which every cell within the clearance is a free
  cell of the map.\<close>

definition clear_around :: "OccupancySnapshot \<Rightarrow> pyfloat \<Rightarrow> Cell \<Rightarrow> bool" where
  "clear_around s clearance_m cell \<longleftrightarrow>
     (\<forall>dx dy. edge_distance (occ_resolution_m s) dx dy
          \<le> clearance_m + clearance_tolerance (occ_resolution_m s)
        \<longrightarrow> occ_contains s (fst cell + dx, snd cell + dy) \<and> is_free s (fst cell + dx, snd cell + dy))"

lemma safe_free_cells_exact:
  assumes "safe_free_cells s clearance_m = Inr safe" "occ_resolution_m s = Fin r" "1 / 10 ^ 12 < r"
  shows "cell |\<in>| safe \<longleftrightarrow> occ_contains s cell \<and> is_free s cell \<and> clear_around s clearance_m cell"
proof -
  obtain c where c: "clearance_m = Fin c" "0 \<le> c"
    using assms(1,2) by (cases clearance_m)
      (auto simp: safe_free_cells_def clearance_offsets_def zero_fin rbind_Inr_iff split: if_splits)
  obtain offsets where o: "clearance_offsets (Fin r) (Fin c) = Inr offsets"
    "\<And>dx dy. (dx, dy) \<in> set offsets \<longleftrightarrow>
       edge_distance (Fin r) dx dy \<le> Fin c + clearance_tolerance (Fin r)"
    using clearance_offsets_complete [OF c(2) assms(3)] by blast
  have "cell |\<in>| safe \<longleftrightarrow> occ_contains s cell \<and> is_free s cell
      \<and> (\<forall>(dx, dy) \<in> set offsets. occ_contains s (fst cell + dx, snd cell + dy)
           \<and> is_free s (fst cell + dx, snd cell + dy))"
    using assms(1) o(1) unfolding safe_free_cells_def assms(2) c(1)
    by (cases cell) (auto simp: fset_of_list_elem grid_cells_iff list_all_iff)
  then show ?thesis unfolding clear_around_def assms(2) c(1) o(2) [symmetric] by auto
qed

section \<open>Ranking\<close>

definition finite_point :: "Point2D \<Rightarrow> bool" where
  "finite_point p \<longleftrightarrow> isfinite (fst p) \<and> isfinite (snd p)"

lemma math_dist_finite: "finite_point a \<Longrightarrow> finite_point b \<Longrightarrow> isfinite (math_dist a b)"
  by (auto simp: finite_point_def math_dist_def isfinite_iff)

lemma fold_pymin:
  assumes "isfinite x" "\<forall>y \<in> set xs. isfinite y"
  shows "isfinite (fold (\<lambda>y m. pymin m y) xs x) \<and> (\<forall>y \<in> insert x (set xs). fold (\<lambda>y m. pymin m y) xs x \<le> y)"
  using assms
proof (induction xs arbitrary: x)
  case (Cons y ys)
  obtain a b where ab: "x = Fin a" "y = Fin b" using Cons.prems by (auto simp: isfinite_iff)
  have "isfinite (pymin x y)" "pymin x y \<le> x" "pymin x y \<le> y" by (simp_all add: ab)
  then show ?case using Cons.IH [of "pymin x y"] Cons.prems(2) by (auto intro: flt_le_trans)
qed (auto simp: isfinite_iff)

lemma min_of_finite:
  assumes "\<forall>x \<in> set xs. isfinite x"
  shows "xs \<noteq> [] \<Longrightarrow> isfinite (min_of xs)" "x \<in> set xs \<Longrightarrow> min_of xs \<le> x"
proof -
  show "isfinite (min_of xs)" if "xs \<noteq> []"
    using that assms fold_pymin by (cases xs) simp_all
  show "min_of xs \<le> x" if "x \<in> set xs"
  proof (cases xs)
    case (Cons y ys)
    then show ?thesis using that assms fold_pymin [of y ys] by (cases "x = y") simp_all
  qed (use that in simp)
qed

lemma anchor_distance_finite:
  "anchors \<noteq> [] \<Longrightarrow> \<forall>a \<in> set anchors. finite_point a \<Longrightarrow> finite_point p \<Longrightarrow>
     isfinite (anchor_distance anchors p)"
  unfolding anchor_distance_def by (rule min_of_finite(1)) (auto intro: math_dist_finite)

lemma max_by_best:
  assumes "\<forall>x \<in> insert b (set xs). isfinite (key x)"
  shows "\<forall>x \<in> insert b (set xs). key x \<le> key (max_by key b xs)"
  using assms
proof (induction xs arbitrary: b)
  case (Cons x xs)
  let ?m = "if key b < key x then x else b"
  have "key b \<le> key ?m" "key x \<le> key ?m"
    using Cons.prems by (auto simp: isfinite_iff split: if_splits)
  then show ?case using Cons.IH [of ?m] Cons.prems by (auto intro: flt_le_trans split: if_splits)
qed (auto simp: isfinite_iff)

text \<open>What a run of the ranking loop adds: distinct candidates up to the limit, each far enough from
  the goals chosen before it and no candidate farther from all anchors than it.\<close>

definition well_chosen ::
  "pyfloat \<Rightarrow> Point2D list \<Rightarrow> Point2D list \<Rightarrow> Point2D list \<Rightarrow> Point2D list \<Rightarrow> bool" where
  "well_chosen sep remaining selected anchors new \<longleftrightarrow>
     (\<forall>k < length new.
        \<not> min_of (map (math_dist (new ! k)) (selected @ take k new)) + Fin (1 / 10 ^ 12) < sep
      \<and> (\<forall>p \<in> set remaining - set (take k new).
           anchor_distance (anchors @ take k new) p
             \<le> anchor_distance (anchors @ take k new) (new ! k)))"

lemma well_chosen_Cons:
  assumes "\<not> min_of (map (math_dist best) selected) + Fin (1 / 10 ^ 12) < sep"
    "\<forall>p \<in> set remaining. anchor_distance anchors p \<le> anchor_distance anchors best"
    "well_chosen sep (remove1 best remaining) (selected @ [best]) (anchors @ [best]) new"
  shows "well_chosen sep remaining selected anchors (best # new)"
  unfolding well_chosen_def
proof (intro allI impI)
  fix k assume k: "k < length (best # new)"
  show "\<not> min_of (map (math_dist ((best # new) ! k)) (selected @ take k (best # new)))
        + Fin (1 / 10 ^ 12) < sep
      \<and> (\<forall>p \<in> set remaining - set (take k (best # new)).
           anchor_distance (anchors @ take k (best # new)) p
             \<le> anchor_distance (anchors @ take k (best # new)) ((best # new) ! k))"
  proof (cases k)
    case 0
    then show ?thesis using assms(1,2) by simp
  next
    case (Suc j)
    moreover have "set remaining - set (take k (best # new)) \<subseteq> set (remove1 best remaining) - set (take j new)"
      using Suc by (auto simp: in_set_remove1)
    ultimately show ?thesis using assms(3) k unfolding well_chosen_def by auto
  qed
qed

lemma rank_loop_spec:
  assumes "anchors \<noteq> []" "\<forall>p \<in> set (remaining @ anchors). finite_point p"
  shows "\<exists>new. rank_loop sep limit remaining selected anchors = selected @ new
    \<and> mset new \<subseteq># mset remaining \<and> (new = [] \<or> length (selected @ new) \<le> limit)
    \<and> well_chosen sep remaining selected anchors new"
  using assms
proof (induction sep limit remaining selected anchors rule: rank_loop.induct)
  case (2 sep limit p ps selected anchors)
  define best where "best = max_by (anchor_distance anchors) p ps"
  define dist where "dist = (if selected \<noteq> [] then min_of (map (math_dist best) selected) else PosInf)"
  have dist: "dist = min_of (map (math_dist best) selected)" by (simp add: dist_def)
  show ?case
  proof (cases "length selected < limit \<and> \<not> dist + Fin (1 / 10 ^ 12) < sep")
    case False
    then have "rank_loop sep limit (p # ps) selected anchors = selected"
      by (auto simp: Let_def simp flip: best_def dist_def)
    then show ?thesis by (auto simp: well_chosen_def)
  next
    case True
    have mem: "best \<in> set (p # ps)" using max_by_mem [of "anchor_distance anchors" p ps]
      by (simp add: best_def)
    have fin: "finite_point q" if "q \<in> set (p # ps) \<union> set anchors" for q using "2.prems"(2) that by auto
    have "\<forall>q \<in> insert p (set ps). isfinite (anchor_distance anchors q)"
      using "2.prems"(1) fin by (intro ballI anchor_distance_finite) auto
    from max_by_best [OF this]
    have farthest: "\<forall>q \<in> set (p # ps). anchor_distance anchors q \<le> anchor_distance anchors best"
      by (simp add: best_def)
    have later: "\<forall>q \<in> set (remove1 best (p # ps) @ anchors @ [best]). finite_point q"
      using fin mem set_remove1_subset [of best "p # ps"] by (metis (no_types, lifting) Un_iff
          empty_iff empty_set set_ConsD set_append subsetD)
    obtain new where new: "rank_loop sep limit (remove1 best (p # ps)) (selected @ [best]) (anchors @ [best])
        = (selected @ [best]) @ new" "mset new \<subseteq># mset (remove1 best (p # ps))"
      "new = [] \<or> length ((selected @ [best]) @ new) \<le> limit"
      "well_chosen sep (remove1 best (p # ps)) (selected @ [best]) (anchors @ [best]) new"
      using "2.IH" [OF _ best_def dist_def _ _ later] True by blast
    show ?thesis
    proof (intro exI [of _ "best # new"] conjI)
      show "rank_loop sep limit (p # ps) selected anchors = selected @ best # new"
        using True new(1) by (simp add: Let_def del: remove1.simps flip: best_def dist_def)
      show "mset (best # new) \<subseteq># mset (p # ps)"
        using new(2) mem by (metis insert_subset_eq_iff mset.simps(2) mset_remove1 set_mset_mset)
      show "well_chosen sep (p # ps) selected anchors (best # new)"
        using True new(4) farthest by (intro well_chosen_Cons) (simp_all add: dist)
      show "best # new = [] \<or> length (selected @ best # new) \<le> limit" using new(3) True by auto
    qed
  qed
qed (simp add: well_chosen_def)

section \<open>Goals are reachable, clear and apart\<close>

text \<open>A step between side-by-side free cells of the map.\<close>

definition drives :: "OccupancySnapshot \<Rightarrow> Cell \<Rightarrow> Cell \<Rightarrow> bool" where
  "drives s a b \<longleftrightarrow> occ_contains s b \<and> is_free s b \<and> b \<in> set (neighbors a)"

lemma free_step_drives: "free_step (free_cells s) = drives s"
  by (intro ext) (auto simp: free_step_def drives_def free_cells_def fset_of_list_elem grid_cells_iff)

definition goal_cells :: "OccupancySnapshot \<Rightarrow> Cell \<Rightarrow> Cell fset \<Rightarrow> Cell list" where
  "goal_cells s start goal_safe =
     filter (\<lambda>cell. cell \<noteq> start) (sorted_list_of_fset
       (connected_component start (free_cells s) |\<inter>| goal_safe))"

lemma ranked_goals_cases:
  assumes "rank_mapped_goal_candidates shuffle s start_xy seed sep clearance_m limit = Inr goals"
  obtains start goal_safe m where "world_to_cell s start_xy = Inr (Some start)" "is_free s start"
    "safe_free_cells s clearance_m = Inr goal_safe" "sep = Fin m" "0 \<le> m" "0 < limit"
    "goals = rank_loop sep (nat limit) (shuffle seed (map (cell_center s) (goal_cells s start goal_safe)))
       [] [start_xy]"
proof -
  have sep: "\<not> (\<not> isfinite sep \<or> sep < 0)" and limit: "0 < limit"
    and run: "rbind (world_to_cell s start_xy) (\<lambda>found. case found of
          None \<Rightarrow> Inl (GoalSamplingError ''robot start is not in known free space'')
        | Some start \<Rightarrow>
            if \<not> is_free s start
            then Inl (GoalSamplingError ''robot start is not in known free space'')
            else rbind (safe_free_cells s clearance_m) (\<lambda>goal_safe.
              Inr (rank_loop sep (nat limit)
                (shuffle seed (map (cell_center s) (goal_cells s start goal_safe))) [] [start_xy])))
      = Inr goals"
    using assms unfolding rank_mapped_goal_candidates_def rank_farthest_goals_def goal_cells_def Let_def
    by (simp_all split: if_splits)
  obtain m where "sep = Fin m" "0 \<le> m" using sep by (cases sep) (auto simp: zero_fin)
  moreover obtain start where "world_to_cell s start_xy = Inr (Some start)" "is_free s start"
    "rbind (safe_free_cells s clearance_m) (\<lambda>goal_safe. Inr (rank_loop sep (nat limit)
        (shuffle seed (map (cell_center s) (goal_cells s start goal_safe))) [] [start_xy])) = Inr goals"
    using run unfolding rbind_Inr_iff [of "world_to_cell s start_xy"]
    by (elim exE conjE) (auto split: option.splits if_splits)
  moreover from this obtain goal_safe where "safe_free_cells s clearance_m = Inr goal_safe"
    by (cases "safe_free_cells s clearance_m") auto
  ultimately show ?thesis using limit that by simp
qed

lemma cell_center_finite: "finite_map_frame s \<Longrightarrow> finite_point (cell_center s cell)"
  by (cases cell) (auto simp: finite_map_frame_def finite_point_def isfinite_iff)

lemma cell_center_inj:
  assumes "occupancy_snapshot s = Inr s'" "finite_map_frame s"
  shows "inj_on (cell_center s) {cell. occ_contains s cell}"
proof (rule inj_onI)
  fix a b assume ab: "a \<in> {cell. occ_contains s cell}" "b \<in> {cell. occ_contains s cell}"
    "cell_center s a = cell_center s b"
  then have "Inr (Some a) = (Inr (Some b) :: Cell option result)"
    using cell_center_roundtrip [OF assms] by (metis mem_Collect_eq)
  then show "a = b" by simp
qed

lemma goal_cells_spec:
  assumes "cell \<in> set (goal_cells s start goal_safe)" "safe_free_cells s clearance_m = Inr goal_safe"
    "occ_resolution_m s = Fin r" "1 / 10 ^ 12 < r"
  shows "occ_contains s cell" "(drives s)\<^sup>*\<^sup>* start cell" "cell \<noteq> start"
    "clear_around s clearance_m cell"
  using assms(1) safe_free_cells_exact [OF assms(2-4), of cell]
  by (auto simp: goal_cells_def connected_component_exact free_step_drives)

lemma distinct_submset:
  assumes "mset xs \<subseteq># mset ys" "distinct ys"
  shows "distinct xs"
proof -
  obtain zs where "mset ys = mset (xs @ zs)"
    using assms(1) ex_mset [of "mset ys - mset xs"] by (metis mset_append subset_mset.add_diff_inverse)
  then have "distinct (xs @ zs)" using assms(2) by (metis mset_eq_imp_distinct_iff)
  then show ?thesis by simp
qed

lemma math_dist_sym: "finite_point a \<Longrightarrow> finite_point b \<Longrightarrow> math_dist a b = math_dist b a"
  by (cases a; cases b) (auto simp: finite_point_def math_dist_def isfinite_iff power2_commute)

lemma well_chosen_apart:
  assumes "well_chosen (Fin m) remaining [] anchors goals" "i < j" "j < length goals"
    "\<forall>g \<in> set goals. finite_point g"
  shows "Fin m \<le> math_dist (goals ! i) (goals ! j) + Fin (1 / 10 ^ 12)"
proof -
  let ?d = "map (math_dist (goals ! j)) (take j goals)"
  have fin: "\<forall>x \<in> set ?d. isfinite x"
    using assms(3,4) by (auto dest: in_set_takeD intro!: math_dist_finite)
  have mem: "math_dist (goals ! j) (goals ! i) \<in> set ?d"
    using assms(2,3) by (auto simp: in_set_conv_nth intro!: imageI exI [of _ i])
  have eq: "math_dist (goals ! i) (goals ! j) = math_dist (goals ! j) (goals ! i)"
    using assms(2-4) by (intro math_dist_sym) auto
  obtain a b where ab: "min_of ?d = Fin a" "math_dist (goals ! j) (goals ! i) = Fin b"
    using min_of_finite(1) [OF fin] fin mem by (metis empty_iff empty_set isfinite_iff)
  have "a \<le> b" using min_of_finite(2) [OF fin mem] ab by simp
  moreover have "\<not> min_of ?d + Fin (1 / 10 ^ 12) < Fin m"
    using assms(1,3) unfolding well_chosen_def by simp
  ultimately show ?thesis unfolding eq using ab by simp
qed

lemma ranked_goals_spec:
  assumes "rank_mapped_goal_candidates shuffle s start_xy seed sep clearance_m limit = Inr goals"
    "occupancy_snapshot s = Inr s'" "finite_map_frame s" "finite_point start_xy"
    "\<And>xs. mset (shuffle seed xs) = mset xs"
  obtains start goal_safe m where "world_to_cell s start_xy = Inr (Some start)" "is_free s start"
    "safe_free_cells s clearance_m = Inr goal_safe" "sep = Fin m" "int (length goals) \<le> limit"
    "mset goals \<subseteq># mset (map (cell_center s) (goal_cells s start goal_safe))"
    "well_chosen sep (map (cell_center s) (goal_cells s start goal_safe)) [] [start_xy] goals"
proof -
  obtain start goal_safe m where c: "world_to_cell s start_xy = Inr (Some start)" "is_free s start"
    "safe_free_cells s clearance_m = Inr goal_safe" "sep = Fin m" "0 < limit"
    "goals = rank_loop sep (nat limit) (shuffle seed (map (cell_center s) (goal_cells s start goal_safe)))
       [] [start_xy]"
    using ranked_goals_cases [OF assms(1)] by metis
  let ?cands = "map (cell_center s) (goal_cells s start goal_safe)"
  have sets: "set (shuffle seed ?cands) = set ?cands" using assms(5) by (metis set_mset_mset)
  have "\<forall>p \<in> set (shuffle seed ?cands @ [start_xy]). finite_point p"
    using cell_center_finite [OF assms(3)] assms(4) by (simp only: set_append sets) auto
  then obtain new where n: "goals = [] @ new" "mset new \<subseteq># mset (shuffle seed ?cands)"
    "new = [] \<or> length ([] @ new) \<le> nat limit" "well_chosen sep (shuffle seed ?cands) [] [start_xy] new"
    using rank_loop_spec [of "[start_xy]" "shuffle seed ?cands" sep "nat limit" "[]"] c(6) by auto
  show ?thesis
    by (rule that [OF c(1-4)]) (use n c(5) assms(5) in \<open>auto simp: well_chosen_def sets simp del: set_map\<close>)
qed

text \<open>C30. Sampled goals are safe to drive to. Whatever the shuffle does, every goal the sampler returns
  is the centre of a cell of the current map that the robot can reach over free cells from where it
  stands, with every cell within the required clearance free and inside the map; the goals are
  distinct, at most as many as asked for, and at least the minimum separation apart.\<close>

theorem ranked_goals_are_safe:
  assumes "rank_mapped_goal_candidates shuffle s start_xy seed sep clearance_m limit = Inr goals"
    "occupancy_snapshot s = Inr s'" "finite_map_frame s" "Fin (1 / 10 ^ 12) < occ_resolution_m s"
    "finite_point start_xy" "\<And>xs. mset (shuffle seed xs) = mset xs"
  shows "\<exists>start. world_to_cell s start_xy = Inr (Some start) \<and> is_free s start
      \<and> (\<forall>g \<in> set goals. \<exists>cell. g = cell_center s cell \<and> world_to_cell s g = Inr (Some cell)
           \<and> (drives s)\<^sup>*\<^sup>* start cell \<and> cell \<noteq> start \<and> clear_around s clearance_m cell)
      \<and> distinct goals \<and> int (length goals) \<le> limit
      \<and> (\<forall>i j. i < j \<and> j < length goals \<longrightarrow>
           sep \<le> math_dist (goals ! i) (goals ! j) + Fin (1 / 10 ^ 12))"
proof -
  obtain start goal_safe m where c: "world_to_cell s start_xy = Inr (Some start)" "is_free s start"
    "safe_free_cells s clearance_m = Inr goal_safe" "sep = Fin m" "int (length goals) \<le> limit"
    "mset goals \<subseteq># mset (map (cell_center s) (goal_cells s start goal_safe))"
    "well_chosen sep (map (cell_center s) (goal_cells s start goal_safe)) [] [start_xy] goals"
    using ranked_goals_spec [OF assms(1,2,3,5,6)] by metis
  obtain r where r: "occ_resolution_m s = Fin r" "1 / 10 ^ 12 < r"
    using assms(3,4) by (auto simp: finite_map_frame_def isfinite_iff)
  note cell = goal_cells_spec [OF _ c(3) r]
  have "distinct (map (cell_center s) (goal_cells s start goal_safe))"
    unfolding distinct_map
  proof
    show "inj_on (cell_center s) (set (goal_cells s start goal_safe))"
      by (rule inj_on_subset [OF cell_center_inj [OF assms(2,3)]]) (use cell(1) in blast)
  qed (simp add: goal_cells_def sorted_list_of_fset.rep_eq)
  then have "distinct goals" by (rule distinct_submset [OF c(6)])
  have goal: "\<exists>cell. g = cell_center s cell \<and> world_to_cell s g = Inr (Some cell)
      \<and> (drives s)\<^sup>*\<^sup>* start cell \<and> cell \<noteq> start \<and> clear_around s clearance_m cell"
    if "g \<in> set goals" for g
  proof -
    have "g \<in> set (map (cell_center s) (goal_cells s start goal_safe))"
      using that c(6) by (meson mset_subset_eqD set_mset_mset in_multiset_in_set)
    then obtain x where x: "x \<in> set (goal_cells s start goal_safe)" "g = cell_center s x" by auto
    show ?thesis
      using x cell [OF x(1)] cell_center_roundtrip [OF assms(2,3)] by blast
  qed
  moreover have "\<forall>g \<in> set goals. finite_point g"
    using goal cell_center_finite [OF assms(3)] by blast
  ultimately show ?thesis
    using c \<open>distinct goals\<close> well_chosen_apart by (intro exI [of _ start]) blast
qed

section \<open>Inspected paths\<close>

text \<open>The point of a segment at parameter \<open>t\<close>, and the points of a path.\<close>

definition between :: "Point2D \<Rightarrow> Point2D \<Rightarrow> real \<Rightarrow> Point2D" where
  "between a b t = (fst a + flt_mul (Fin t) (fst b - fst a), snd a + flt_mul (Fin t) (snd b - snd a))"

definition on_path :: "Point2D list \<Rightarrow> Point2D \<Rightarrow> bool" where
  "on_path points q \<longleftrightarrow> q = hd points
     \<or> (\<exists>(a, b) \<in> set (zip points (tl points)). \<exists>t. 0 \<le> t \<and> t \<le> 1 \<and> q = between a b t)"

lemma interpolate_between:
  assumes "finite_point a" "finite_point b" "0 < steps"
  shows "(interpolate (fst a) (fst b) index steps, interpolate (snd a) (snd b) index steps)
     = between a b (real_of_int index / real_of_int steps)"
  using assms by (auto simp: finite_point_def isfinite_iff interpolate_def between_def)

lemma between_dist:
  assumes "a = (Fin ax, Fin ay)" "b = (Fin bx, Fin by)"
  shows "math_dist (between a b t) (between a b u)
    = Fin (\<bar>t - u\<bar> * sqrt ((ax - bx) ^ 2 + (ay - by) ^ 2))"
proof -
  have "(ax + t * (bx - ax) - (ax + u * (bx - ax))) ^ 2 + (ay + t * (by - ay) - (ay + u * (by - ay))) ^ 2
      = (t - u) ^ 2 * ((ax - bx) ^ 2 + (ay - by) ^ 2)"
    by (simp add: power2_eq_square algebra_simps)
  then show ?thesis using assms by (simp add: math_dist_def between_def real_sqrt_mult)
qed

lemma between_ends: "finite_point a \<Longrightarrow> finite_point b \<Longrightarrow> between a b 0 = a \<and> between a b 1 = b"
  by (cases a; cases b) (auto simp: between_def finite_point_def isfinite_iff)

text \<open>The samples of a segment end with its end, and with its start they leave no gap.\<close>

lemma segment_samples_cover:
  assumes "finite_point a" "finite_point b" "0 < r"
  shows "\<exists>samples. segment_samples (Fin (r / 2)) (a, b) = Inr samples \<and> b \<in> set samples
    \<and> (\<forall>q \<in> set samples. \<exists>t. q = between a b t)
    \<and> (\<forall>t. 0 \<le> t \<and> t \<le> 1 \<longrightarrow> (\<exists>p \<in> insert a (set samples). math_dist p (between a b t) \<le> Fin (r / 4)))"
proof -
  obtain ax ay bx "by" where ab: "a = (Fin ax, Fin ay)" "b = (Fin bx, Fin by)"
    using assms(1,2) by (cases a; cases b) (auto simp: finite_point_def isfinite_iff)
  define L where "L = sqrt ((ax - bx) ^ 2 + (ay - by) ^ 2)"
  define n where "n = max 1 \<lceil>L / (r / 2)\<rceil>"
  have n: "0 < n" "L / (r / 2) \<le> real_of_int n" by (auto simp: n_def) linarith
  have step: "L \<le> real_of_int n * (r / 2)" using n(2) assms(3) by (simp add: pos_divide_le_eq)
  let ?samples = "map (\<lambda>index. between a b (real_of_int index / real_of_int n)) [1..n]"
  have "py_ceil (flt_div (math_dist a b) (Fin (r / 2))) = Inr \<lceil>L / (r / 2)\<rceil>"
    by (simp add: ab math_dist_def L_def)
  then have "segment_samples (Fin (r / 2)) (a, b) = Inr ?samples"
    using interpolate_between [OF assms(1,2) n(1)]
    unfolding segment_samples_def prod.case Let_def
    by (simp only: rbind_simps n_def [symmetric])
  moreover have "b \<in> set ?samples"
    using between_ends [OF assms(1,2)] n(1) by (auto intro!: image_eqI [of _ _ n])
  moreover have "\<exists>p \<in> insert a (set ?samples). math_dist p (between a b t) \<le> Fin (r / 4)"
    if "0 \<le> t" "t \<le> 1" for t
  proof -
    define k where "k = round (t * real_of_int n)"
    have k: "\<bar>real_of_int k - t * real_of_int n\<bar> \<le> 1 / 2"
      unfolding k_def using of_int_round_abs_le by blast
    have tn: "0 \<le> t * real_of_int n" "t * real_of_int n \<le> real_of_int n"
      using that n(1) by (simp_all add: mult_left_le_one_le)
    have "0 \<le> k" "k \<le> n" using k tn by linarith+
    have "\<bar>real_of_int k / real_of_int n - t\<bar> * real_of_int n \<le> 1 / 2"
      using k n(1) by (simp add: abs_mult_pos left_diff_distrib)
    then have "\<bar>real_of_int k / real_of_int n - t\<bar> * real_of_int n * (r / 2) \<le> 1 / 2 * (r / 2)"
      using assms(3) by (intro mult_right_mono) auto
    moreover have "\<bar>real_of_int k / real_of_int n - t\<bar> * L
        \<le> \<bar>real_of_int k / real_of_int n - t\<bar> * (real_of_int n * (r / 2))"
      by (intro mult_left_mono step) simp
    ultimately have "math_dist (between a b (real_of_int k / real_of_int n)) (between a b t) \<le> Fin (r / 4)"
      using between_dist [OF ab] by (simp add: L_def algebra_simps)
    moreover have "between a b (real_of_int k / real_of_int n) \<in> insert a (set ?samples)"
      using between_ends [OF assms(1,2)] \<open>0 \<le> k\<close> \<open>k \<le> n\<close> by (cases "k = 0") auto
    ultimately show ?thesis by blast
  qed
  ultimately show ?thesis by (intro exI [of _ ?samples]) auto
qed

lemma between_finite: "finite_point a \<Longrightarrow> finite_point b \<Longrightarrow> finite_point (between a b t)"
  by (auto simp: between_def finite_point_def isfinite_iff)

lemma zip_tl_finite:
  "\<forall>p \<in> set points. finite_point p \<Longrightarrow> (a, b) \<in> set (zip points (tl points)) \<Longrightarrow>
     finite_point a \<and> finite_point b"
  by (metis list.set_sel(2) set_zip_leftD set_zip_rightD tl_Nil)

text \<open>The samples of all segments: every corner is a sample, and every point of the path has a
  sample within a quarter of a cell.\<close>

lemma zip_tl_start:
  "(a, b) \<in> set (zip points (tl points)) \<Longrightarrow> a = hd points \<or> (\<exists>c. (c, a) \<in> set (zip points (tl points)))"
proof (induction points)
  case (Cons p ps)
  then show ?case by (cases ps) auto
qed simp

lemma dense_path_cover:
  assumes "points \<noteq> []" "\<forall>p \<in> set points. finite_point p" "occ_resolution_m s = Fin r" "0 < r"
  shows "\<exists>dense. dense_path s points = Inr dense \<and> dense \<noteq> [] \<and> (\<forall>q \<in> set dense. finite_point q)
    \<and> (\<forall>q. on_path points q \<longrightarrow> (\<exists>p \<in> set dense. math_dist p q \<le> Fin (r / 4)))"
proof -
  let ?segs = "zip points (tl points)"
  define samples where "samples seg = (SOME xs. segment_samples (Fin (r / 2)) seg = Inr xs)" for seg
  have one: "segment_samples (Fin (r / 2)) seg = Inr (samples seg)" if "seg \<in> set ?segs" for seg
  proof -
    have "\<exists>xs. segment_samples (Fin (r / 2)) seg = Inr xs"
      using segment_samples_cover zip_tl_finite [OF assms(2)] that assms(4) by (cases seg) blast
    then show ?thesis unfolding samples_def by (rule someI_ex)
  qed
  have seg: "b \<in> set (samples (a, b)) \<and> (\<forall>q \<in> set (samples (a, b)). finite_point q)
      \<and> (\<forall>t. 0 \<le> t \<and> t \<le> 1 \<longrightarrow> (\<exists>p \<in> insert a (set (samples (a, b))).
           math_dist p (between a b t) \<le> Fin (r / 4)))"
    if "(a, b) \<in> set ?segs" for a b
  proof -
    have f: "finite_point a" "finite_point b" using zip_tl_finite [OF assms(2) that] by auto
    show ?thesis
      using segment_samples_cover [OF f assms(4)] one [OF that] between_finite [OF f] by auto
  qed
  let ?dense = "hd points # concat (map samples ?segs)"
  have start: "a \<in> set ?dense" if "(a, b) \<in> set ?segs" for a b
  proof (cases "a = hd points")
    case False
    then have "\<exists>c. (c, a) \<in> set ?segs" using zip_tl_start [OF that] by blast
    then obtain c where "(c, a) \<in> set ?segs" by blast
    then have "a \<in> \<Union> (set ` samples ` set ?segs)" using seg by blast
    then show ?thesis by simp
  qed simp
  have "dense_path s points = Inr ?dense"
    using rmap_Inr [of ?segs "segment_samples (Fin (r / 2))" samples] one
    by (simp add: dense_path_def assms(3))
  moreover have "\<forall>q \<in> set ?dense. finite_point q" using seg assms(1,2) by auto
  moreover have "\<exists>p \<in> set ?dense. math_dist p q \<le> Fin (r / 4)" if "on_path points q" for q
  proof (cases "q = hd points")
    case True
    have "finite_point (hd points)" using assms(1,2) by simp
    then have "math_dist (hd points) q \<le> Fin (r / 4)"
      using True assms(4) by (auto simp: math_dist_def finite_point_def isfinite_iff)
    then show ?thesis by auto
  next
    case False
    then obtain a b t where q: "(a, b) \<in> set ?segs" "0 \<le> t" "t \<le> 1" "q = between a b t"
      using \<open>on_path points q\<close> by (auto simp: on_path_def)
    then obtain p where p: "p \<in> insert a (set (samples (a, b)))" "math_dist p q \<le> Fin (r / 4)"
      using seg [OF q(1)] by blast
    have "p \<in> set ?dense" using p(1) start [OF q(1)] q(1) by auto
    then show ?thesis using p(2) by blast
  qed
  ultimately show ?thesis by blast
qed

lemma world_to_cell_finite:
  assumes "finite_point q" "finite_map_frame s" "occupancy_snapshot s = Inr s'"
  shows "\<exists>found. world_to_cell s q = Inr found \<and> (\<forall>cell. found = Some cell \<longrightarrow> occ_contains s cell)"
proof -
  obtain r ox oy where "occ_resolution_m s = Fin r" "occ_origin_xy s = (Fin ox, Fin oy)"
    using finite_map_frameE [OF assms(2,3)] by metis
  then show ?thesis using assms(1) by (auto simp: finite_point_def isfinite_iff world_to_cell_def)
qed

definition sample_free :: "OccupancySnapshot \<Rightarrow> Point2D \<Rightarrow> bool" where
  "sample_free s q \<longleftrightarrow> (\<exists>cell. world_to_cell s q = Inr (Some cell) \<and> is_free s cell)"

lemma count_samples_spec:
  assumes "\<forall>q \<in> set qs. finite_point q" "finite_map_frame s" "occupancy_snapshot s = Inr s'"
  shows "\<exists>u' o' x'. count_samples s qs u occ x = Inr (u', o', x') \<and> u \<le> u' \<and> occ \<le> o' \<and> x \<le> x'
    \<and> (u' = u \<and> o' = occ \<and> x' = x \<longleftrightarrow> list_all (sample_free s) qs)"
  using assms(1)
proof (induction qs arbitrary: u occ x)
  case (Cons q qs)
  obtain found where f: "world_to_cell s q = Inr found" "\<forall>cell. found = Some cell \<longrightarrow> occ_contains s cell"
    using world_to_cell_finite [OF _ assms(2,3), of q] Cons.prems by (metis list.set_intros(1))
  have IH: "\<exists>u' o' x'. count_samples s qs u occ x = Inr (u', o', x') \<and> u \<le> u' \<and> occ \<le> o' \<and> x \<le> x'
    \<and> (u' = u \<and> o' = occ \<and> x' = x \<longleftrightarrow> list_all (sample_free s) qs)" for u occ x
    using Cons by simp
  show ?case
  proof (cases found)
    case None
    then show ?thesis using f(1) IH [of u occ "x + 1"] by (auto simp: sample_free_def)
  next
    case (Some cell)
    then obtain v where v: "occ_value s cell = Inr v"
      using value_of_contained [OF assms(3)] f(2) by (cases cell) blast
    have "sample_free s q \<longleftrightarrow> v = 0" using f(1) Some v by (simp add: sample_free_def is_free_def)
    then show ?thesis
      using f(1) Some v IH [of "u + 1" occ x] IH [of u "occ + 1" x] IH [of u occ x]
      by (cases "v < 0"; cases "v = 0") auto
  qed
qed simp

text \<open>A path counts as known free only when it is. The inspection of a finite, non-empty path
  succeeds; it calls the path known free exactly when every sample lies in a free cell of the map;
  and the samples leave no gap: every point of the path is within a quarter of a cell of one.\<close>

lemma path_inspection_exact:
  assumes "occupancy_snapshot s = Inr s'" "finite_map_frame s" "points \<noteq> []"
    "\<forall>p \<in> set points. finite_point p"
  shows "\<exists>stats dense. inspect_path_occupancy s points = Inr stats \<and> dense_path s points = Inr dense
    \<and> (known_free stats \<longleftrightarrow> (\<forall>q \<in> set dense. sample_free s q))
    \<and> (\<forall>q. on_path points q \<longrightarrow>
         (\<exists>p \<in> set dense. math_dist p q \<le> flt_mul (occ_resolution_m s) (Fin (1 / 4))))"
proof -
  obtain r ox oy where r: "occ_resolution_m s = Fin r" "0 < r"
    using finite_map_frameE [OF assms(2,1)] by metis
  obtain dense where d: "dense_path s points = Inr dense" "dense \<noteq> []" "\<forall>q \<in> set dense. finite_point q"
    "\<forall>q. on_path points q \<longrightarrow> (\<exists>p \<in> set dense. math_dist p q \<le> Fin (r / 4))"
    using dense_path_cover [OF assms(3,4) r] by blast
  obtain u occ x where c: "count_samples s dense 0 0 0 = Inr (u, occ, x)"
    "u = 0 \<and> occ = 0 \<and> x = 0 \<longleftrightarrow> list_all (sample_free s) dense"
    using count_samples_spec [OF d(3) assms(2,1)] by blast
  let ?stats = "\<lparr>po_sample_count = int (length dense), po_unknown_cell_count = u,
      po_occupied_cell_count = occ, po_outside_map_cell_count = x\<rparr>"
  have "inspect_path_occupancy s points = Inr ?stats"
    using assms(3) d(1) c(1) by (simp add: inspect_path_occupancy_def)
  moreover have "known_free ?stats \<longleftrightarrow> (\<forall>q \<in> set dense. sample_free s q)"
    using c(2) d(2) by (simp add: known_free_def list_all_iff)
  ultimately show ?thesis using d(1,4) r(1) by (intro exI [of _ ?stats] exI [of _ dense]) simp
qed

lemma rank_loop_keeps: "\<exists>new. rank_loop sep limit remaining selected anchors = selected @ new"
proof (induction sep limit remaining selected anchors rule: rank_loop.induct)
  case (2 sep limit p ps selected anchors)
  show ?case
    using "2.IH" [OF _ refl refl] unfolding rank_loop.simps Let_def
    by (cases "length selected < limit") (simp_all only: if_True if_False append_assoc, force+)
qed simp

lemma rank_loop_picks_one:
  assumes "0 < limit"
  shows "rank_loop (Fin m) limit (p # ps) [] anchors \<noteq> []"
proof -
  have "\<exists>best rest. rank_loop (Fin m) limit (p # ps) [] anchors
      = rank_loop (Fin m) limit rest [best] (anchors @ [best])"
    unfolding rank_loop.simps(2) Let_def using assms by (auto simp only: list.size append.simps
        if_True simp_thms plus_pyfloat_def flt_add.simps flt_inf if_False)
  then show ?thesis using rank_loop_keeps by (metis append_is_Nil_conv not_Cons_self2)
qed

section \<open>A small map\<close>

text \<open>Four by three cells of half a metre: free but for the last column.\<close>

definition small_map :: OccupancySnapshot where
  "small_map = \<lparr>occ_width = 4, occ_height = 3, occ_resolution_m = Fin (1 / 2),
     occ_origin_xy = (Fin 0, Fin 0), occ_cells = [0, 0, 0, 100, 0, 0, 0, 100, 0, 0, 0, - 1]\<rparr>"

lemma small_map_checked: "occupancy_snapshot small_map = Inr small_map" "finite_map_frame small_map"
  by (simp_all add: occupancy_snapshot_def small_map_def finite_map_frame_def zero_fin)

lemma small_map_safe: "\<exists>safe. safe_free_cells small_map (Fin 0) = Inr safe \<and> (1, 0) |\<in>| safe"
proof -
  obtain safe where safe: "safe_free_cells small_map (Fin 0) = Inr safe"
    by (simp add: safe_free_cells_def clearance_offsets_def small_map_def zero_fin)
  have zero: "dx = 0 \<and> dy = 0"
    if "edge_distance (occ_resolution_m small_map) dx dy
      \<le> Fin 0 + clearance_tolerance (occ_resolution_m small_map)" for dx dy
  proof -
    have d: "(real_of_int \<bar>d\<bar> - 1 / 2) * (1 / 2) \<le> max (1 / 10 ^ 12) (1 / 2 / 10 ^ 9) \<Longrightarrow> d = 0" for d :: int
      by simp
    show ?thesis
      using that d [OF order_trans [OF edge_length_ge(1)]] d [OF order_trans [OF edge_length_ge(2)]]
      by (simp add: small_map_def)
  qed
  have "clear_around small_map (Fin 0) (1, 0)"
    unfolding clear_around_def
    by (intro allI impI, drule zero) (simp add: small_map_def is_free_def py_index_def)
  then have "(1, 0) |\<in>| safe"
    using safe_free_cells_exact [OF safe, of "1 / 2"]
    by (simp add: small_map_def is_free_def py_index_def)
  then show ?thesis using safe by blast
qed

theorem ranked_goals_are_safe_witness:
  "\<exists>goals. rank_mapped_goal_candidates (\<lambda>_ xs. rev xs) small_map (Fin (1 / 4), Fin (1 / 4)) 7 (Fin 1)
      (Fin 0) 2 = Inr goals \<and> goals \<noteq> [] \<and> distinct goals \<and> length goals \<le> 2"
proof -
  let ?start = "(Fin (1 / 4), Fin (1 / 4))"
  obtain safe where safe: "safe_free_cells small_map (Fin 0) = Inr safe" "(1, 0) |\<in>| safe"
    using small_map_safe by blast
  have cell: "world_to_cell small_map ?start = Inr (Some (0, 0))" "is_free small_map (0, 0)"
    by (simp_all add: world_to_cell_def small_map_def is_free_def py_index_def)
  define cands where "cands = map (cell_center small_map) (goal_cells small_map (0, 0) safe)"
  have "drives small_map (0, 0) (1, 0)"
    by (simp add: drives_def small_map_def is_free_def py_index_def)
  then have "(1, 0) \<in> set (goal_cells small_map (0, 0) safe)"
    using safe(2) by (auto simp: goal_cells_def connected_component_exact free_step_drives)
  then have "cands \<noteq> []" by (auto simp: cands_def)
  then obtain p ps where ps: "rev cands = p # ps" by (cases "rev cands") auto
  define goals where "goals = rank_loop (Fin 1) 2 (rev cands) [] [?start]"
  have run: "rank_mapped_goal_candidates (\<lambda>_ xs. rev xs) small_map ?start 7 (Fin 1) (Fin 0) 2 = Inr goals"
    using cell safe(1)
    by (simp add: rank_mapped_goal_candidates_def rank_farthest_goals_def goals_def cands_def
        goal_cells_def zero_fin)
  have "goals \<noteq> []" unfolding goals_def ps by (rule rank_loop_picks_one) simp
  moreover have "finite_point ?start" by (simp add: finite_point_def)
  moreover have "Fin (1 / 10 ^ 12) < occ_resolution_m small_map" by (simp add: small_map_def)
  ultimately show ?thesis
    using ranked_goals_are_safe [OF run small_map_checked] run by auto
qed

end
