(* ===== verification/Nav2_Transaction.thy ===== *)
theory Nav2_Transaction
  imports Effects Mapping_Evidence Mapping_Return
begin

text \<open>
  The safety transaction around a Nav2 motion of \<open>nav2_motion_transaction.py\<close>. The runtime with its
  futures and goal handles is a \<open>nav_port\<close>, a record of functions on the environment and the shared
  goal ledger, which plan callbacks update while a call is under way; futures and handles are
  numbers. Every call that may raise gives a result. The clock and the sleep do not raise. Each call
  appends an event with what it returned to the trace of the world. \<open>str\<close> of a coordinate pair is a
  function of the port.
\<close>

section \<open>Data\<close>

datatype ActionStatus =
  AS_UNKNOWN | AS_ACCEPTED | AS_EXECUTING | AS_CANCELING | AS_SUCCEEDED | AS_CANCELED | AS_ABORTED

fun status_int :: "ActionStatus \<Rightarrow> int" where
  "status_int AS_UNKNOWN = 0"
| "status_int AS_ACCEPTED = 1"
| "status_int AS_EXECUTING = 2"
| "status_int AS_CANCELING = 3"
| "status_int AS_SUCCEEDED = 4"
| "status_int AS_CANCELED = 5"
| "status_int AS_ABORTED = 6"

text \<open>\<open>ActionStatus(n)\<close>; \<open>None\<close> is the \<open>ValueError\<close> of a number without a member.\<close>

definition action_status :: "int \<Rightarrow> ActionStatus option" where
  "action_status n =
     find (\<lambda>st. status_int st = n)
       [AS_UNKNOWN, AS_ACCEPTED, AS_EXECUTING, AS_CANCELING, AS_SUCCEEDED, AS_CANCELED, AS_ABORTED]"

definition TERMINAL_STATUSES :: "ActionStatus list" where
  "TERMINAL_STATUSES = [AS_SUCCEEDED, AS_CANCELED, AS_ABORTED]"

datatype Nav2ActionKind = NAVIGATE_TO_POSE_KIND | BACK_UP_KIND

datatype MotionIntent =
    SampledNavigate int "pyfloat \<times> pyfloat"
  | MappingReturn PlanarPose
  | RecoveryBackup pyfloat pyfloat pyfloat

definition motion_intent :: "MotionIntent \<Rightarrow> MotionIntent result" where
  "motion_intent i =
     (case i of
        SampledNavigate sequence goal_xy \<Rightarrow>
          if sequence \<le> 0 then Inl (ValueError ''sampled navigation sequence must be positive'')
          else if \<not> (isfinite (fst goal_xy) \<and> isfinite (snd goal_xy))
          then Inl (ValueError ''sampled navigation goal must be finite'')
          else Inr i
      | MappingReturn _ \<Rightarrow> Inr i
      | RecoveryBackup distance_m speed_mps time_allowance_s \<Rightarrow>
          if list_all (\<lambda>value. isfinite value \<and> 0 < value) [distance_m, speed_mps, time_allowance_s]
          then Inr i else Inl (ValueError ''Nav2 backup values must be finite and positive''))"

datatype RuntimeGoal =
    NavigateGoal string pyfloat pyfloat pyfloat
  | BackupGoal pyfloat pyfloat pyfloat

record ActionTerminal =
  at_status :: int
  at_error_code :: int
  at_error_message :: string

text \<open>What a result future gives: nothing, an object that is no \<open>ActionTerminal\<close>, or one whose
  numbers are read by \<open>int(...)\<close>, which may raise.\<close>

datatype raw_terminal =
    RawNone
  | RawInvalid
  | RawTerminal "int result" "int result" string

datatype nav_event =
    NE_wait_server Nav2ActionKind pyfloat
  | NE_started string bool
  | NE_send RuntimeGoal bool
  | NE_response "nat option result"
  | NE_accepted "bool result"
  | NE_result_future bool
  | NE_cancel bool
  | NE_stop pyfloat bool
  | NE_result "raw_terminal result"
  | NE_terminal string bool
  | NE_stage_stop bool
  | NE_publish bool
  | NE_note string

section \<open>The port and the world\<close>

type_synonym 'e nav_env = "'e \<times> NavigationGoalLedger"

record 'e nav_port =
  np_monotonic :: "'e nav_env \<Rightarrow> pyfloat \<times> 'e nav_env"
  np_sleep :: "pyfloat \<Rightarrow> 'e nav_env \<Rightarrow> 'e nav_env"
  np_is_cancelled :: "'e nav_env \<Rightarrow> bool result \<times> 'e nav_env"
  np_evidence_timestamp_ns :: "'e nav_env \<Rightarrow> int result \<times> 'e nav_env"
  np_wait_for_server :: "Nav2ActionKind \<Rightarrow> pyfloat \<Rightarrow> 'e nav_env \<Rightarrow> bool result \<times> 'e nav_env"
  np_send_goal :: "RuntimeGoal \<Rightarrow> 'e nav_env \<Rightarrow> nat result \<times> 'e nav_env"
  np_response_done :: "nat \<Rightarrow> 'e nav_env \<Rightarrow> bool result \<times> 'e nav_env"
  np_response_result :: "nat \<Rightarrow> 'e nav_env \<Rightarrow> nat option result \<times> 'e nav_env"
  np_accepted :: "nat \<Rightarrow> 'e nav_env \<Rightarrow> bool result \<times> 'e nav_env"
  np_get_result_async :: "nat \<Rightarrow> 'e nav_env \<Rightarrow> nat result \<times> 'e nav_env"
  np_cancel_goal_async :: "nat \<Rightarrow> 'e nav_env \<Rightarrow> unit result \<times> 'e nav_env"
  np_result_done :: "nat \<Rightarrow> 'e nav_env \<Rightarrow> bool result \<times> 'e nav_env"
  np_result :: "nat \<Rightarrow> 'e nav_env \<Rightarrow> raw_terminal result \<times> 'e nav_env"
  np_force_priority_stop :: "pyfloat \<Rightarrow> 'e nav_env \<Rightarrow> unit result \<times> 'e nav_env"
  np_stop_navigation_stage :: "'e nav_env \<Rightarrow> unit result \<times> 'e nav_env"
  np_nav2_goal_started :: "string \<Rightarrow> 'e nav_env \<Rightarrow> unit result \<times> 'e nav_env"
  np_nav2_goal_terminal :: "string \<Rightarrow> 'e nav_env \<Rightarrow> unit result \<times> 'e nav_env"
  np_navigation_evidence_changed :: "'e nav_env \<Rightarrow> unit result \<times> 'e nav_env"
  np_show_xy :: "pyfloat \<times> pyfloat \<Rightarrow> string"

record Nav2MotionTransaction =
  tx_safety_timeout_s :: pyfloat
  tx_poll_interval_s :: pyfloat
  tx_late_plan_drain_s :: pyfloat

definition transaction_init :: "Nav2MotionTransaction \<Rightarrow> Nav2MotionTransaction result" where
  "transaction_init c =
     (if \<not> list_all (\<lambda>value. isfinite value \<and> 0 < value) [tx_safety_timeout_s c, tx_poll_interval_s c]
      then Inl (ValueError ''Nav2 transaction timeouts must be finite and positive'')
      else if \<not> isfinite (tx_late_plan_drain_s c) \<or> tx_late_plan_drain_s c < 0
      then Inl (ValueError ''late navigation plan drain must be finite and non-negative'')
      else Inr c)"

record 'e nav_world =
  nw_env :: "'e nav_env"
  nw_token_sequence :: int
  nw_locked :: bool
  nw_trace :: "nav_event list"

type_synonym ('e, 'a) nav = "('e nav_world, 'a) proc"

text \<open>A call of the port, and one that leaves an event.\<close>

definition nav_read :: "('e nav_env \<Rightarrow> 'a result \<times> 'e nav_env) \<Rightarrow> ('e, 'a) nav" where
  "nav_read f w = (case f (nw_env w) of (r, env') \<Rightarrow> Some (r, w\<lparr>nw_env := env'\<rparr>))"

definition nav_call ::
  "('a result \<Rightarrow> nav_event) \<Rightarrow> ('e nav_env \<Rightarrow> 'a result \<times> 'e nav_env) \<Rightarrow> ('e, 'a) nav" where
  "nav_call event f w =
     (case f (nw_env w) of (r, env') \<Rightarrow>
        Some (r, w\<lparr>nw_env := env', nw_trace := nw_trace w @ [event r]\<rparr>))"

definition succeeded :: "'a result \<Rightarrow> bool" where
  "succeeded r \<longleftrightarrow> \<not> is_error r"

definition monotonic :: "'e nav_port \<Rightarrow> ('e, pyfloat) nav" where
  "monotonic p = nav_read (\<lambda>env. case np_monotonic p env of (t, env') \<Rightarrow> (Inr t, env'))"

definition sleep :: "'e nav_port \<Rightarrow> pyfloat \<Rightarrow> ('e, unit) nav" where
  "sleep p seconds = nav_read (\<lambda>env. (Inr (), np_sleep p seconds env))"

definition is_cancelled :: "'e nav_port \<Rightarrow> ('e, bool) nav" where
  "is_cancelled p = nav_read (np_is_cancelled p)"

definition wait_for_server :: "'e nav_port \<Rightarrow> Nav2ActionKind \<Rightarrow> pyfloat \<Rightarrow> ('e, bool) nav" where
  "wait_for_server p kind timeout_s =
     nav_call (\<lambda>_. NE_wait_server kind timeout_s) (np_wait_for_server p kind timeout_s)"

definition send_goal :: "'e nav_port \<Rightarrow> RuntimeGoal \<Rightarrow> ('e, nat) nav" where
  "send_goal p goal = nav_call (\<lambda>r. NE_send goal (succeeded r)) (np_send_goal p goal)"

definition response_result :: "'e nav_port \<Rightarrow> nat \<Rightarrow> ('e, nat option) nav" where
  "response_result p response = nav_call NE_response (np_response_result p response)"

definition handle_accepted :: "'e nav_port \<Rightarrow> nat \<Rightarrow> ('e, bool) nav" where
  "handle_accepted p handle = nav_call NE_accepted (np_accepted p handle)"

definition get_result_async :: "'e nav_port \<Rightarrow> nat \<Rightarrow> ('e, nat) nav" where
  "get_result_async p handle =
     nav_call (\<lambda>r. NE_result_future (succeeded r)) (np_get_result_async p handle)"

definition cancel_goal_async :: "'e nav_port \<Rightarrow> nat \<Rightarrow> ('e, unit) nav" where
  "cancel_goal_async p handle = nav_call (\<lambda>r. NE_cancel (succeeded r)) (np_cancel_goal_async p handle)"

definition force_priority_stop :: "'e nav_port \<Rightarrow> pyfloat \<Rightarrow> ('e, unit) nav" where
  "force_priority_stop p timeout_s =
     nav_call (\<lambda>r. NE_stop timeout_s (succeeded r)) (np_force_priority_stop p timeout_s)"

definition future_result :: "'e nav_port \<Rightarrow> nat \<Rightarrow> ('e, raw_terminal) nav" where
  "future_result p fut = nav_call NE_result (np_result p fut)"

definition stop_navigation_stage :: "'e nav_port \<Rightarrow> ('e, unit) nav" where
  "stop_navigation_stage p = nav_call (\<lambda>r. NE_stage_stop (succeeded r)) (np_stop_navigation_stage p)"

definition goal_started :: "'e nav_port \<Rightarrow> string \<Rightarrow> ('e, unit) nav" where
  "goal_started p token =
     nav_call (\<lambda>r. NE_started token (succeeded r)) (np_nav2_goal_started p token)"

definition goal_terminal :: "'e nav_port \<Rightarrow> string \<Rightarrow> ('e, unit) nav" where
  "goal_terminal p token =
     nav_call (\<lambda>r. NE_terminal token (succeeded r)) (np_nav2_goal_terminal p token)"

definition publish_evidence :: "'e nav_port \<Rightarrow> ('e, unit) nav" where
  "publish_evidence p = nav_call (\<lambda>r. NE_publish (succeeded r)) (np_navigation_evidence_changed p)"

definition nav_note :: "string \<Rightarrow> ('e, unit) nav" where
  "nav_note text' = modify (\<lambda>w. w\<lparr>nw_trace := nw_trace w @ [NE_note text']\<rparr>)"

text \<open>Reading and changing the ledger.\<close>

definition from_ledger :: "(NavigationGoalLedger \<Rightarrow> 'a result) \<Rightarrow> ('e, 'a) nav" where
  "from_ledger f = nav_read (\<lambda>(e, l). (f l, (e, l)))"

definition on_ledger :: "(NavigationGoalLedger \<Rightarrow> NavigationGoalLedger result) \<Rightarrow> ('e, unit) nav" where
  "on_ledger f = nav_read (\<lambda>(e, l). case f l of Inl x \<Rightarrow> (Inl x, (e, l)) | Inr l' \<Rightarrow> (Inr (), (e, l')))"

section \<open>Messages and goals of an intent\<close>

fun goal_for_intent :: "MotionIntent \<Rightarrow> Nav2ActionKind \<times> RuntimeGoal \<times> string" where
  "goal_for_intent (SampledNavigate sequence goal_xy) =
     (NAVIGATE_TO_POSE_KIND, NavigateGoal ''map'' (fst goal_xy) (snd goal_xy) 0,
      ''sampled-'' @ show_int sequence)"
| "goal_for_intent (MappingReturn pose) =
     (NAVIGATE_TO_POSE_KIND, NavigateGoal (pose_frame_id pose) (pose_x pose) (pose_y pose) (pose_yaw pose),
      ''mapping-return'')"
| "goal_for_intent (RecoveryBackup distance_m speed_mps time_allowance_s) =
     (BACK_UP_KIND, BackupGoal distance_m speed_mps time_allowance_s, ''backup'')"

fun server_unavailable_message :: "MotionIntent \<Rightarrow> string" where
  "server_unavailable_message (RecoveryBackup _ _ _) = ''Nav2 BackUp Action server unavailable''"
| "server_unavailable_message (MappingReturn _) =
     ''NavigateToPose Action server unavailable for return''"
| "server_unavailable_message (SampledNavigate _ _) = ''NavigateToPose Action server unavailable''"

fun response_read_reason :: "'e nav_port \<Rightarrow> MotionIntent \<Rightarrow> string" where
  "response_read_reason p (RecoveryBackup _ _ _) = ''cannot read Nav2 BackUp goal response''"
| "response_read_reason p (MappingReturn _) = ''cannot read mapping return goal response''"
| "response_read_reason p (SampledNavigate _ goal_xy) =
     ''cannot read navigation goal response for '' @ np_show_xy p goal_xy"

fun pending_reason :: "'e nav_port \<Rightarrow> MotionIntent \<Rightarrow> bool \<Rightarrow> string" where
  "pending_reason p (RecoveryBackup _ _ _) canceled =
     (if canceled then ''automatic mission canceled during recovery backup''
      else ''Nav2 BackUp goal response timeout'')"
| "pending_reason p (MappingReturn _) canceled =
     (if canceled then ''automatic mission canceled before return goal response''
      else ''mapping return goal response timeout'')"
| "pending_reason p (SampledNavigate _ goal_xy) canceled =
     (if canceled then ''automatic mission canceled before goal response''
      else ''navigation goal response timeout: '' @ np_show_xy p goal_xy)"

fun active_cancel_reason :: "MotionIntent \<Rightarrow> string" where
  "active_cancel_reason (RecoveryBackup _ _ _) = ''automatic mission canceled during recovery backup''"
| "active_cancel_reason (MappingReturn _) = ''automatic mission canceled during mapping return''"
| "active_cancel_reason (SampledNavigate _ _) = ''automatic mission canceled during navigation''"

fun active_timeout_reason :: "'e nav_port \<Rightarrow> MotionIntent \<Rightarrow> string" where
  "active_timeout_reason p (RecoveryBackup _ _ _) = ''Nav2 BackUp result timeout''"
| "active_timeout_reason p (MappingReturn _) = ''mapping return goal result timeout''"
| "active_timeout_reason p (SampledNavigate _ goal_xy) =
     ''navigation goal result timeout: '' @ np_show_xy p goal_xy"

fun rejected_message :: "'e nav_port \<Rightarrow> MotionIntent \<Rightarrow> string" where
  "rejected_message p (RecoveryBackup _ _ _) = ''Nav2 BackUp goal rejected''"
| "rejected_message p (MappingReturn _) = ''mapping return goal rejected''"
| "rejected_message p (SampledNavigate _ goal_xy) =
     ''navigation goal rejected: '' @ np_show_xy p goal_xy"

fun missing_result_future_reason :: "'e nav_port \<Rightarrow> MotionIntent \<Rightarrow> exn \<Rightarrow> string" where
  "missing_result_future_reason p (RecoveryBackup _ _ _) e =
     ''cannot get Nav2 BackUp result future: '' @ exn_text e"
| "missing_result_future_reason p (MappingReturn _) e =
     ''cannot get mapping return result future: '' @ exn_text e"
| "missing_result_future_reason p (SampledNavigate _ goal_xy) e =
     ''cannot get Nav2 result future for goal '' @ np_show_xy p goal_xy @ '': '' @ exn_text e"

fun invalid_terminal_reason :: "MotionIntent \<Rightarrow> string \<Rightarrow> string" where
  "invalid_terminal_reason (RecoveryBackup _ _ _) err = ''invalid Nav2 BackUp terminal result: '' @ err"
| "invalid_terminal_reason (MappingReturn _) err = ''invalid mapping return terminal: '' @ err"
| "invalid_terminal_reason (SampledNavigate _ _) err =
     ''invalid NavigateToPose terminal result: '' @ err"

section \<open>Terminal evidence\<close>

definition terminal_succeeded :: "ActionTerminal \<Rightarrow> bool" where
  "terminal_succeeded t \<longleftrightarrow> at_status t = status_int AS_SUCCEEDED \<and> at_error_code t = 0"

text \<open>The checks that turn what a future gave into a terminal, or into the text of the error.\<close>

definition check_terminal :: "raw_terminal \<Rightarrow> string + ActionTerminal" where
  "check_terminal raw =
     (case raw of
        RawNone \<Rightarrow> Inl ''Nav2 result future returned no terminal''
      | RawInvalid \<Rightarrow> Inl ''Nav2 result future returned invalid terminal payload''
      | RawTerminal status error_code message \<Rightarrow>
          (case status of
             Inl e \<Rightarrow> Inl (''Nav2 terminal status is unreadable: '' @ exn_text e)
           | Inr n \<Rightarrow>
               (case action_status n of
                  None \<Rightarrow> Inl (''Nav2 terminal status is unreadable: '' @ show_int n
                            @ '' is not a valid ActionStatus'')
                | Some st \<Rightarrow>
                    if st \<notin> set TERMINAL_STATUSES
                    then Inl (''Nav2 terminal has non-terminal status: '' @ show_int n)
                    else (case error_code of
                            Inl e \<Rightarrow> Inl (''Nav2 terminal error code is unreadable: '' @ exn_text e)
                          | Inr code \<Rightarrow>
                              Inr \<lparr>at_status = n, at_error_code = code, at_error_message = message\<rparr>))))"

definition read_terminal :: "'e nav_port \<Rightarrow> nat option \<Rightarrow> ('e, string + ActionTerminal) nav" where
  "read_terminal p result_future =
     (case result_future of
        None \<Rightarrow> ret (Inl ''Nav2 result future unavailable'')
      | Some fut \<Rightarrow>
          bind (attempt (nav_read (np_result_done p fut))) (\<lambda>done'.
            case done' of
              Inl e \<Rightarrow> ret (Inl (''Nav2 result readiness check failed: '' @ exn_text e))
            | Inr False \<Rightarrow> ret (Inl ''Nav2 goal did not reach terminal after cancel'')
            | Inr True \<Rightarrow>
                bind (attempt (future_result p fut)) (\<lambda>raw.
                  case raw of
                    Inl e \<Rightarrow> ret (Inl (''Nav2 result read failed: '' @ exn_text e))
                  | Inr raw \<Rightarrow> ret (check_terminal raw))))"

section \<open>Cleanup\<close>

text \<open>The messages of failed cleanup steps.\<close>

definition failure_note :: "string \<Rightarrow> 'a result \<Rightarrow> string list" where
  "failure_note label r = (case r of Inl e \<Rightarrow> [label @ exn_text e] | Inr _ \<Rightarrow> [])"

definition terminal_triple :: "ActionTerminal option \<Rightarrow> (int \<times> int \<times> string) option" where
  "terminal_triple t =
     map_option (\<lambda>t. (at_status t, at_error_code t, at_error_message t)) t"

definition fail_safety ::
  "'e nav_port \<Rightarrow> string \<Rightarrow> string list \<Rightarrow> ActionTerminal option \<Rightarrow> ('e, 'a) nav" where
  "fail_safety p reason cleanup_errors terminal =
     bind (attempt (stop_navigation_stage p)) (\<lambda>r.
       let shutdown_detail =
             (case r of Inr _ \<Rightarrow> ''navigation stage stopped by fail-safe''
              | Inl e \<Rightarrow> ''navigation stage stop failed: '' @ exn_text e)
       in raise (Nav2SafetyFailure
            (reason @ ''; navigation safety cleanup failed: ''
             @ join ''; '' (cleanup_errors @ [shutdown_detail]))
            (terminal_triple terminal)))"

definition new_cleanup_deadline :: "'e nav_port \<Rightarrow> Nav2MotionTransaction \<Rightarrow> ('e, pyfloat) nav" where
  "new_cleanup_deadline p c = bind (monotonic p) (\<lambda>t. ret (t + tx_safety_timeout_s c))"

definition remaining_cleanup_s :: "'e nav_port \<Rightarrow> pyfloat \<Rightarrow> ('e, pyfloat) nav" where
  "remaining_cleanup_s p cleanup_deadline =
     bind (monotonic p) (\<lambda>t. ret (pymax 0 (cleanup_deadline - t)))"

definition finish_quiescence ::
  "'e nav_port \<Rightarrow> string \<Rightarrow> string \<Rightarrow> ActionTerminal option \<Rightarrow> ('e, unit) nav" where
  "finish_quiescence p token reason terminal =
     bind (attempt (goal_terminal p token)) (\<lambda>r.
       case r of
         Inr _ \<Rightarrow> skip
       | Inl e \<Rightarrow>
           fail_safety p reason [''Nav2 quiescence terminal update failed: '' @ exn_text e] terminal)"

definition fail_unknown_goal_safely ::
  "'e nav_port \<Rightarrow> string \<Rightarrow> string list \<Rightarrow> pyfloat \<Rightarrow> ('e, 'a) nav" where
  "fail_unknown_goal_safely p reason cleanup_errors cleanup_deadline =
     bind (remaining_cleanup_s p cleanup_deadline) (\<lambda>timeout_s.
     bind (attempt (force_priority_stop p timeout_s)) (\<lambda>r.
       fail_safety p reason (cleanup_errors @ failure_note ''typed stop failed: '' r) None))"

text \<open>A failure before any cleanup budget exists opens one.\<close>

definition fail_unknown_goal_now ::
  "'e nav_port \<Rightarrow> Nav2MotionTransaction \<Rightarrow> string \<Rightarrow> string list \<Rightarrow> ('e, 'a) nav" where
  "fail_unknown_goal_now p c reason cleanup_errors =
     bind (new_cleanup_deadline p c) (fail_unknown_goal_safely p reason cleanup_errors)"

definition response_done ::
  "'e nav_port \<Rightarrow> Nav2MotionTransaction \<Rightarrow> nat \<Rightarrow> string \<Rightarrow> pyfloat option \<Rightarrow> ('e, bool) nav" where
  "response_done p c response reason cleanup_deadline =
     bind (attempt (nav_read (np_response_done p response))) (\<lambda>r.
       case r of
         Inr done' \<Rightarrow> ret done'
       | Inl e \<Rightarrow>
           (let errors = [''Nav2 goal response readiness check failed: '' @ exn_text e]
            in case cleanup_deadline of
                 None \<Rightarrow> fail_unknown_goal_now p c reason errors
               | Some deadline \<Rightarrow> fail_unknown_goal_safely p reason errors deadline))"

definition result_done :: "'e nav_port \<Rightarrow> nat \<Rightarrow> ('e, bool) nav" where
  "result_done p result_future =
     bind (attempt (nav_read (np_result_done p result_future))) (\<lambda>r.
       case r of Inl _ \<Rightarrow> ret True | Inr done' \<Rightarrow> ret done')"

text \<open>The pause of a cleanup loop.\<close>

definition cleanup_pause :: "'e nav_port \<Rightarrow> Nav2MotionTransaction \<Rightarrow> pyfloat \<Rightarrow> ('e, unit) nav" where
  "cleanup_pause p c cleanup_deadline =
     bind (remaining_cleanup_s p cleanup_deadline) (\<lambda>remaining.
       sleep p (pymin (tx_poll_interval_s c) remaining))"

definition await_terminal_pass ::
  "'e nav_port \<Rightarrow> Nav2MotionTransaction \<Rightarrow> nat \<Rightarrow> pyfloat \<Rightarrow> ('e, unit option) nav" where
  "await_terminal_pass p c fut cleanup_deadline =
     bind (monotonic p) (\<lambda>t.
       if t < cleanup_deadline then
         bind (result_done p fut) (\<lambda>done'.
           if done' then ret (Some ())
           else andthen (cleanup_pause p c cleanup_deadline) (ret None))
       else ret (Some ()))"

definition cancel_stop_and_prove_terminal ::
  "'e nav_port \<Rightarrow> Nav2MotionTransaction \<Rightarrow> nat \<Rightarrow> nat option \<Rightarrow> string \<Rightarrow> string \<Rightarrow> pyfloat
     \<Rightarrow> ('e, ActionTerminal) nav" where
  "cancel_stop_and_prove_terminal p c handle result_future reason token cleanup_deadline =
     bind (attempt (cancel_goal_async p handle)) (\<lambda>canceled.
     bind (remaining_cleanup_s p cleanup_deadline) (\<lambda>timeout_s.
     bind (attempt (force_priority_stop p timeout_s)) (\<lambda>stopped.
     let errors = failure_note ''cancel request failed: '' canceled
                  @ failure_note ''typed stop failed: '' stopped
     in
     andthen (case result_future of
                None \<Rightarrow> skip
              | Some fut \<Rightarrow> repeat_until (await_terminal_pass p c fut cleanup_deadline))
     (bind (read_terminal p result_future) (\<lambda>outcome.
        case outcome of
          Inl terminal_error \<Rightarrow> fail_safety p reason (errors @ [terminal_error]) None
        | Inr terminal \<Rightarrow>
            bind (attempt (goal_terminal p token)) (\<lambda>closed.
              let errors = errors @ failure_note ''Nav2 quiescence terminal update failed: '' closed
              in if errors \<noteq> [] then fail_safety p reason errors (Some terminal)
                 else ret terminal))))))"

text \<open>The same with a budget that starts now.\<close>

definition cancel_stop_and_prove_terminal_now ::
  "'e nav_port \<Rightarrow> Nav2MotionTransaction \<Rightarrow> nat \<Rightarrow> nat option \<Rightarrow> string \<Rightarrow> string
     \<Rightarrow> ('e, ActionTerminal) nav" where
  "cancel_stop_and_prove_terminal_now p c handle result_future reason token =
     bind (new_cleanup_deadline p c)
       (cancel_stop_and_prove_terminal p c handle result_future reason token)"

definition pending_pass ::
  "'e nav_port \<Rightarrow> Nav2MotionTransaction \<Rightarrow> nat \<Rightarrow> string \<Rightarrow> pyfloat \<Rightarrow> ('e, unit option) nav" where
  "pending_pass p c response reason cleanup_deadline =
     bind (response_done p c response reason (Some cleanup_deadline)) (\<lambda>done'.
       if done' then ret (Some ())
       else bind (monotonic p) (\<lambda>t.
         if t < cleanup_deadline
         then andthen (cleanup_pause p c cleanup_deadline) (ret None)
         else ret (Some ())))"

definition resolve_pending_goal_safely ::
  "'e nav_port \<Rightarrow> Nav2MotionTransaction \<Rightarrow> nat \<Rightarrow> string \<Rightarrow> string \<Rightarrow> pyfloat
     \<Rightarrow> ('e, ActionTerminal option) nav" where
  "resolve_pending_goal_safely p c response reason token cleanup_deadline =
     andthen (repeat_until (pending_pass p c response reason cleanup_deadline))
    (bind (response_done p c response reason (Some cleanup_deadline)) (\<lambda>done'.
     if \<not> done' then
       fail_unknown_goal_safely p reason
         [''Nav2 goal response did not arrive within safety budget''] cleanup_deadline
     else
     bind (attempt (response_result p response)) (\<lambda>r.
     case r of
       Inl e \<Rightarrow> fail_unknown_goal_safely p reason
                  [''Nav2 goal response failed: '' @ exn_text e] cleanup_deadline
     | Inr None \<Rightarrow> andthen (finish_quiescence p token reason None) (ret None)
     | Inr (Some handle) \<Rightarrow>
         bind (attempt (handle_accepted p handle)) (\<lambda>a.
           case a of
             Inl e \<Rightarrow> fail_unknown_goal_safely p reason
                        [''Nav2 goal acceptance is unreadable: '' @ exn_text e] cleanup_deadline
           | Inr False \<Rightarrow> andthen (finish_quiescence p token reason None) (ret None)
           | Inr True \<Rightarrow>
               bind (attempt (get_result_async p handle)) (\<lambda>fut.
                 bind (case fut of
                         Inr f \<Rightarrow> cancel_stop_and_prove_terminal p c handle (Some f) reason token
                                    cleanup_deadline
                       | Inl e \<Rightarrow> cancel_stop_and_prove_terminal p c handle None
                                    (reason @ ''; cannot get Nav2 result future: '' @ exn_text e)
                                    token cleanup_deadline)
                   (\<lambda>terminal. ret (Some terminal)))))))"

section \<open>Ledger evidence\<close>

definition transition_sampled ::
  "'e nav_port \<Rightarrow> int \<Rightarrow> NavigationGoalStatus \<Rightarrow> int \<Rightarrow> int \<Rightarrow> string \<Rightarrow> ('e, unit) nav" where
  "transition_sampled p sequence status nav2_status nav2_error_code detail =
     bind (nav_read (np_evidence_timestamp_ns p)) (\<lambda>timestamp_ns.
     andthen (on_ledger (ledger_transition sequence status timestamp_ns nav2_status nav2_error_code
         detail))
       (publish_evidence p))"

definition transition_sampled_if_open ::
  "'e nav_port \<Rightarrow> int \<Rightarrow> NavigationGoalStatus \<Rightarrow> int \<Rightarrow> int \<Rightarrow> string \<Rightarrow> ('e, unit) nav" where
  "transition_sampled_if_open p sequence status nav2_status nav2_error_code detail =
     bind (from_ledger (ledger_is_terminal sequence)) (\<lambda>terminal.
       if terminal then skip
       else transition_sampled p sequence status nav2_status nav2_error_code detail)"

definition transition_sampled_preserving ::
  "'e nav_port \<Rightarrow> int \<Rightarrow> NavigationGoalStatus \<Rightarrow> int \<Rightarrow> int \<Rightarrow> string \<Rightarrow> ('e, unit) nav" where
  "transition_sampled_preserving p sequence status nav2_status nav2_error_code detail =
     catch (transition_sampled_if_open p sequence status nav2_status nav2_error_code detail)
       (\<lambda>e. nav_note (''cannot publish sampled navigation failure evidence: '' @ exn_text e))"

text \<open>\<open>if isinstance(intent, SampledNavigate): _transition_sampled_preserving(...)\<close> and then
  \<open>raise primary\<close>.\<close>

definition fail_with_evidence ::
  "'e nav_port \<Rightarrow> MotionIntent \<Rightarrow> NavigationGoalStatus \<Rightarrow> ActionTerminal \<Rightarrow> string \<Rightarrow> exn
     \<Rightarrow> ('e, 'a) nav" where
  "fail_with_evidence p intent status terminal reason primary =
     andthen (case intent of
         SampledNavigate sequence _ \<Rightarrow>
           transition_sampled_preserving p sequence status (at_status terminal)
             (at_error_code terminal) reason
       | _ \<Rightarrow> skip)
       (raise primary)"

text \<open>Cancel, stop, prove the terminal, record it and raise: the exit of every branch that gives up
  on an accepted goal.\<close>

definition abandon_goal ::
  "'e nav_port \<Rightarrow> Nav2MotionTransaction \<Rightarrow> MotionIntent \<Rightarrow> nat \<Rightarrow> nat \<Rightarrow> string
     \<Rightarrow> NavigationGoalStatus \<Rightarrow> string \<Rightarrow> exn \<Rightarrow> ('e, 'a) nav" where
  "abandon_goal p c intent handle fut token status reason primary =
     bind (cancel_stop_and_prove_terminal_now p c handle (Some fut) reason token) (\<lambda>terminal.
       fail_with_evidence p intent status terminal reason primary)"

definition fail_accepted_sampled_safely ::
  "'e nav_port \<Rightarrow> Nav2MotionTransaction \<Rightarrow> MotionIntent \<Rightarrow> nat \<Rightarrow> nat \<Rightarrow> string \<Rightarrow> string
     \<Rightarrow> ('e, 'a) nav" where
  "fail_accepted_sampled_safely p c intent handle fut reason token =
     abandon_goal p c intent handle fut token ABORTED reason (Nav2MotionFailed reason)"

section \<open>One motion\<close>

text \<open>The checks before a goal is sent.\<close>

definition motion_preflight ::
  "'e nav_port \<Rightarrow> MotionIntent \<Rightarrow> pyfloat \<Rightarrow> ('e, unit) nav" where
  "motion_preflight p intent deadline_monotonic =
     (case goal_for_intent intent of (kind, goal, token_label) \<Rightarrow>
       bind (monotonic p) (\<lambda>t.
       let remaining = pymax 0 (deadline_monotonic - t) in
       bind (is_cancelled p) (\<lambda>canceled.
       if canceled then raise (AutomaticMissionCancelled (pending_reason p intent True))
       else if remaining \<le> 0 then raise (TimeoutError (pending_reason p intent False))
       else
       bind (wait_for_server p kind
              (pymin (if kind = BACK_UP_KIND then Fin 5 else Fin 10) remaining)) (\<lambda>available.
       if \<not> available then raise (TimeoutError (server_unavailable_message intent))
       else
       bind (is_cancelled p) (\<lambda>canceled.
       if canceled then raise (AutomaticMissionCancelled (pending_reason p intent True))
       else
       bind (monotonic p) (\<lambda>t.
         guard (\<not> deadline_monotonic \<le> t) (TimeoutError (pending_reason p intent False))))))))"

definition begin_quiescence :: "'e nav_port \<Rightarrow> string \<Rightarrow> ('e, string) nav" where
  "begin_quiescence p label =
     bind (query (\<lambda>w. (nw_token_sequence w + 1,
                       w\<lparr>nw_token_sequence := nw_token_sequence w + 1\<rparr>))) (\<lambda>n.
     let token = label @ '':'' @ show_int n
     in andthen (goal_started p token) (ret token))"

definition dispatch_goal ::
  "'e nav_port \<Rightarrow> Nav2MotionTransaction \<Rightarrow> MotionIntent \<Rightarrow> RuntimeGoal \<Rightarrow> ('e, nat) nav" where
  "dispatch_goal p c intent goal =
     bind (attempt (send_goal p goal)) (\<lambda>r.
       case r of
         Inr response \<Rightarrow> ret response
       | Inl e \<Rightarrow> fail_unknown_goal_now p c (response_read_reason p intent)
                    [''Nav2 goal dispatch failed: '' @ exn_text e])"

text \<open>Giving up while the response is pending: the late handle is resolved first.\<close>

definition abandon_pending ::
  "'e nav_port \<Rightarrow> Nav2MotionTransaction \<Rightarrow> MotionIntent \<Rightarrow> nat \<Rightarrow> string \<Rightarrow> NavigationGoalStatus
     \<Rightarrow> string \<Rightarrow> exn \<Rightarrow> ('e, 'a) nav" where
  "abandon_pending p c intent response token status reason primary =
     bind (new_cleanup_deadline p c) (\<lambda>cleanup_deadline.
     bind (resolve_pending_goal_safely p c response reason token cleanup_deadline) (\<lambda>terminal.
       case terminal of
         None \<Rightarrow> raise primary
       | Some t \<Rightarrow> fail_with_evidence p intent status t reason primary))"

definition response_pass ::
  "'e nav_port \<Rightarrow> Nav2MotionTransaction \<Rightarrow> MotionIntent \<Rightarrow> pyfloat \<Rightarrow> nat \<Rightarrow> string
     \<Rightarrow> ('e, unit option) nav" where
  "response_pass p c intent deadline_monotonic response token =
     bind (response_done p c response (response_read_reason p intent) None) (\<lambda>done'.
     if done' then ret (Some ())
     else
     bind (attempt (is_cancelled p)) (\<lambda>r.
     case r of
       Inl e \<Rightarrow>
         (let reason = ''cannot evaluate mission cancellation while waiting for Nav2 goal response: ''
                       @ exn_text e
          in abandon_pending p c intent response token ABORTED reason (Nav2MotionFailed reason))
     | Inr canceled \<Rightarrow>
         bind (monotonic p) (\<lambda>t.
         if canceled \<or> deadline_monotonic \<le> t then
           (let reason = pending_reason p intent canceled
            in abandon_pending p c intent response token (if canceled then CANCELED else TIMED_OUT)
                 reason
                 (if canceled then AutomaticMissionCancelled reason else TimeoutError reason))
         else andthen (sleep p (tx_poll_interval_s c)) (ret None))))"

definition read_accepted_handle ::
  "'e nav_port \<Rightarrow> Nav2MotionTransaction \<Rightarrow> MotionIntent \<Rightarrow> nat \<Rightarrow> string \<Rightarrow> ('e, nat) nav" where
  "read_accepted_handle p c intent response token =
     (let rejected = andthen (finish_quiescence p token (rejected_message p intent) None)
                       (raise (Nav2GoalRejected (rejected_message p intent)))
      in bind (attempt (response_result p response)) (\<lambda>r.
         case r of
           Inl e \<Rightarrow> fail_unknown_goal_now p c (response_read_reason p intent)
                      [''Nav2 goal response failed: '' @ exn_text e]
         | Inr None \<Rightarrow> rejected
         | Inr (Some handle) \<Rightarrow>
             bind (attempt (handle_accepted p handle)) (\<lambda>a.
               case a of
                 Inl e \<Rightarrow> fail_unknown_goal_now p c (response_read_reason p intent)
                            [''Nav2 goal acceptance is unreadable: '' @ exn_text e]
               | Inr False \<Rightarrow> rejected
               | Inr True \<Rightarrow> ret handle)))"

definition open_result_future ::
  "'e nav_port \<Rightarrow> Nav2MotionTransaction \<Rightarrow> MotionIntent \<Rightarrow> nat \<Rightarrow> string \<Rightarrow> ('e, nat) nav" where
  "open_result_future p c intent handle token =
     bind (attempt (get_result_async p handle)) (\<lambda>r.
       case r of
         Inr fut \<Rightarrow> ret fut
       | Inl e \<Rightarrow>
           (let reason = missing_result_future_reason p intent e
            in bind (cancel_stop_and_prove_terminal_now p c handle None reason token)
                 (\<lambda>_. raise (Nav2MotionFailed reason))))"

definition record_acceptance ::
  "'e nav_port \<Rightarrow> Nav2MotionTransaction \<Rightarrow> MotionIntent \<Rightarrow> nat \<Rightarrow> nat \<Rightarrow> string \<Rightarrow> ('e, unit) nav" where
  "record_acceptance p c intent handle fut token =
     (case intent of
        SampledNavigate sequence _ \<Rightarrow>
          catch (andthen
              (transition_sampled p sequence ACCEPTED (status_int AS_ACCEPTED) 0
                 ''NavigateToPose accepted'')
              (transition_sampled p sequence EXECUTING (status_int AS_EXECUTING) 0
                 ''NavigateToPose executing''))
            (\<lambda>e. fail_accepted_sampled_safely p c intent handle fut
               (''cannot record sampled navigation acceptance: '' @ exn_text e) token)
      | _ \<Rightarrow> skip)"

definition audit_running_plan ::
  "'e nav_port \<Rightarrow> Nav2MotionTransaction \<Rightarrow> MotionIntent \<Rightarrow> nat \<Rightarrow> nat \<Rightarrow> string \<Rightarrow> ('e, unit) nav" where
  "audit_running_plan p c intent handle fut token =
     (case intent of
        SampledNavigate sequence _ \<Rightarrow>
          bind (attempt (from_ledger (ledger_get sequence))) (\<lambda>r.
            case r of
              Inl e \<Rightarrow> fail_accepted_sampled_safely p c intent handle fut
                 (''cannot audit sampled navigation ledger after acceptance: '' @ exn_text e) token
            | Inr g \<Rightarrow>
                if ng_plan_count g > 0 \<and> \<not> all_plans_known_free g then
                  (let reason = ''unsafe runtime navigation plan for goal '' @ show_int sequence
                   in abandon_goal p c intent handle fut token ABORTED reason
                        (Nav2MotionFailed reason))
                else skip)
      | _ \<Rightarrow> skip)"

definition motion_pass ::
  "'e nav_port \<Rightarrow> Nav2MotionTransaction \<Rightarrow> MotionIntent \<Rightarrow> pyfloat \<Rightarrow> nat \<Rightarrow> nat \<Rightarrow> string
     \<Rightarrow> ('e, unit option) nav" where
  "motion_pass p c intent deadline_monotonic handle fut token =
     bind (result_done p fut) (\<lambda>done'.
     if done' then ret (Some ())
     else
     bind (attempt (is_cancelled p)) (\<lambda>r.
     case r of
       Inl e \<Rightarrow>
         (let reason = ''cannot evaluate mission cancellation during Nav2 motion: '' @ exn_text e
          in abandon_goal p c intent handle fut token ABORTED reason (Nav2MotionFailed reason))
     | Inr canceled \<Rightarrow>
         if canceled then
           (let reason = active_cancel_reason intent
            in abandon_goal p c intent handle fut token CANCELED reason
                 (AutomaticMissionCancelled reason))
         else
         andthen (audit_running_plan p c intent handle fut token)
        (bind (monotonic p) (\<lambda>t.
         if deadline_monotonic \<le> t then
           (let reason = active_timeout_reason p intent
            in abandon_goal p c intent handle fut token TIMED_OUT reason (TimeoutError reason))
         else andthen (sleep p (tx_poll_interval_s c)) (ret None)))))"

text \<open>After the result: an unreadable terminal is cancelled, and a sampled goal waits for late plans
  and must have been planned over free cells only.\<close>

definition drain_late_plans ::
  "'e nav_port \<Rightarrow> Nav2MotionTransaction \<Rightarrow> pyfloat \<Rightarrow> ('e, unit) nav" where
  "drain_late_plans p c deadline_monotonic =
     bind (monotonic p) (\<lambda>t.
       let drain_s = pymin (tx_late_plan_drain_s c) (pymax 0 (deadline_monotonic - t))
       in if 0 < drain_s then sleep p drain_s else skip)"

definition audit_final_plan ::
  "'e nav_port \<Rightarrow> Nav2MotionTransaction \<Rightarrow> MotionIntent \<Rightarrow> pyfloat \<Rightarrow> nat \<Rightarrow> nat \<Rightarrow> string
     \<Rightarrow> ('e, unit) nav" where
  "audit_final_plan p c intent deadline_monotonic handle fut token =
     (case intent of
        SampledNavigate sequence _ \<Rightarrow>
          andthen (drain_late_plans p c deadline_monotonic)
         (bind (attempt (from_ledger (ledger_get sequence))) (\<lambda>r.
            case r of
              Inl e \<Rightarrow> fail_accepted_sampled_safely p c intent handle fut
                 (''cannot audit sampled navigation ledger after terminal: '' @ exn_text e) token
            | Inr g \<Rightarrow>
                if ng_plan_count g = 0 \<or> \<not> all_plans_known_free g then
                  (let reason = ''unsafe or missing runtime plan for goal '' @ show_int sequence
                   in abandon_goal p c intent handle fut token ABORTED reason
                        (Nav2MotionFailed reason))
                else skip))
      | _ \<Rightarrow> skip)"

definition finish_motion ::
  "'e nav_port \<Rightarrow> Nav2MotionTransaction \<Rightarrow> MotionIntent \<Rightarrow> pyfloat \<Rightarrow> nat \<Rightarrow> nat \<Rightarrow> string
     \<Rightarrow> ('e, ActionTerminal) nav" where
  "finish_motion p c intent deadline_monotonic handle fut token =
     bind (read_terminal p (Some fut)) (\<lambda>outcome.
     case outcome of
       Inl terminal_error \<Rightarrow>
         (let reason = invalid_terminal_reason intent terminal_error
          in abandon_goal p c intent handle fut token ABORTED reason (Nav2MotionFailed reason))
     | Inr terminal \<Rightarrow>
         andthen (audit_final_plan p c intent deadline_monotonic handle fut token)
        (andthen (finish_quiescence p token (''cannot close Nav2 transaction '' @ token) (Some terminal))
           (ret terminal)))"

definition execute_motion ::
  "'e nav_port \<Rightarrow> Nav2MotionTransaction \<Rightarrow> MotionIntent \<Rightarrow> pyfloat \<Rightarrow> ('e, ActionTerminal) nav" where
  "execute_motion p c intent deadline_monotonic =
     (case goal_for_intent intent of (kind, goal, token_label) \<Rightarrow>
       andthen (motion_preflight p intent deadline_monotonic)
      (bind (begin_quiescence p token_label) (\<lambda>token.
       bind (dispatch_goal p c intent goal) (\<lambda>response.
       andthen (repeat_until (response_pass p c intent deadline_monotonic response token))
      (bind (read_accepted_handle p c intent response token) (\<lambda>handle.
       bind (open_result_future p c intent handle token) (\<lambda>fut.
       andthen (record_acceptance p c intent handle fut token)
      (andthen (repeat_until (motion_pass p c intent deadline_monotonic handle fut token))
        (finish_motion p c intent deadline_monotonic handle fut token)))))))))"

section \<open>The transaction\<close>

definition record_success ::
  "'e nav_port \<Rightarrow> int \<Rightarrow> ActionTerminal \<Rightarrow> ('e, unit) nav" where
  "record_success p sequence terminal =
     transition_sampled p sequence SUCCEEDED (at_status terminal) (at_error_code terminal)
       ''NavigateToPose succeeded''"

definition sampled_body ::
  "'e nav_port \<Rightarrow> Nav2MotionTransaction \<Rightarrow> int \<Rightarrow> pyfloat \<times> pyfloat \<Rightarrow> pyfloat \<Rightarrow> ('e, unit) nav" where
  "sampled_body p c sequence goal_xy deadline_monotonic =
     bind (execute_motion p c (SampledNavigate sequence goal_xy) deadline_monotonic) (\<lambda>terminal.
       if terminal_succeeded terminal then record_success p sequence terminal
       else
         andthen (transition_sampled_preserving p sequence
             (if at_status terminal = status_int AS_CANCELED then CANCELED else ABORTED)
             (at_status terminal) (at_error_code terminal)
             (''NavigateToPose failed status='' @ show_int (at_status terminal)
              @ '' error='' @ show_int (at_error_code terminal)))
           (raise (Nav2MotionFailed (''navigation goal failed: goal='' @ np_show_xy p goal_xy
              @ '' status='' @ show_int (at_status terminal)
              @ '' error='' @ show_int (at_error_code terminal)))))"

text \<open>The status and the Nav2 codes under which an exception is recorded.\<close>

fun failure_evidence :: "exn \<Rightarrow> NavigationGoalStatus \<times> int \<times> int \<times> string" where
  "failure_evidence (AutomaticMissionCancelled m) = (CANCELED, 0, 0, ''mission canceled during navigation'')"
| "failure_evidence (Nav2GoalRejected m) = (REJECTED, 0, 0, m)"
| "failure_evidence (TimeoutError m) = (TIMED_OUT, 0, 0, m)"
| "failure_evidence (Nav2SafetyFailure m (Some (st, code, _))) = (ABORTED, st, code, m)"
| "failure_evidence e = (ABORTED, status_int AS_UNKNOWN, 0, exn_text e)"

definition execute_sampled ::
  "'e nav_port \<Rightarrow> Nav2MotionTransaction \<Rightarrow> int \<Rightarrow> pyfloat \<times> pyfloat \<Rightarrow> pyfloat \<Rightarrow> ('e, unit) nav" where
  "execute_sampled p c sequence goal_xy deadline_monotonic =
     bind (from_ledger (ledger_get sequence)) (\<lambda>record'.
     andthen (guard (ng_goal_xy record' = goal_xy)
        (ValueError ''sampled navigation intent does not match planned ledger goal''))
    (andthen (guard (ng_status record' = REQUESTED)
        (ValueError ''sampled navigation goal must be REQUESTED before execution''))
      (catch (sampled_body p c sequence goal_xy deadline_monotonic) (\<lambda>e.
         case failure_evidence e of (status, nav2_status, nav2_error_code, detail) \<Rightarrow>
           andthen (transition_sampled_preserving p sequence status nav2_status nav2_error_code detail)
             (raise e)))))"

definition require_success :: "ActionTerminal \<Rightarrow> string \<Rightarrow> ('e, unit) nav" where
  "require_success terminal label =
     guard (terminal_succeeded terminal)
       (Nav2MotionFailed (label @ '' NavigateToPose failed: status='' @ show_int (at_status terminal)
          @ '' error='' @ show_int (at_error_code terminal)))"

definition execute_backup ::
  "'e nav_port \<Rightarrow> Nav2MotionTransaction \<Rightarrow> MotionIntent \<Rightarrow> pyfloat \<Rightarrow> ('e, unit) nav" where
  "execute_backup p c intent deadline_monotonic =
     bind (execute_motion p c intent deadline_monotonic) (\<lambda>terminal.
       if terminal_succeeded terminal then skip
       else
         (let reason = ''Nav2 BackUp failed: status='' @ show_int (at_status terminal)
                @ '' error='' @ show_int (at_error_code terminal)
                @ '' message='' @ (if at_error_message terminal = [] then ''unknown''
                                   else at_error_message terminal)
          in bind (attempt (force_priority_stop p (tx_safety_timeout_s c))) (\<lambda>r.
               case r of
                 Inl e \<Rightarrow> fail_safety p reason [''typed stop failed: '' @ exn_text e] (Some terminal)
               | Inr _ \<Rightarrow> raise (Nav2MotionFailed reason))))"

definition set_locked :: "bool \<Rightarrow> ('e, unit) nav" where
  "set_locked b = modify (\<lambda>w. w\<lparr>nw_locked := b\<rparr>)"

definition execute ::
  "'e nav_port \<Rightarrow> Nav2MotionTransaction \<Rightarrow> MotionIntent \<Rightarrow> pyfloat \<Rightarrow> ('e, unit) nav" where
  "execute p c intent deadline_monotonic =
     andthen (guard (isfinite deadline_monotonic)
        (ValueError ''Nav2 motion deadline must be finite''))
    (bind (query (\<lambda>w. (nw_locked w, w))) (\<lambda>busy.
     if busy then raise (Nav2TransactionBusy ''another Nav2 motion transaction is active'')
     else
     andthen (set_locked True)
      (ensure
        (case intent of
           SampledNavigate sequence goal_xy \<Rightarrow>
             execute_sampled p c sequence goal_xy deadline_monotonic
         | MappingReturn _ \<Rightarrow>
             bind (execute_motion p c intent deadline_monotonic) (\<lambda>terminal.
               require_success terminal ''mapping return'')
         | RecoveryBackup _ _ _ \<Rightarrow> execute_backup p c intent deadline_monotonic)
        (set_locked False))))"

end
