(* ===== verification/Nav2_Safety.thy ===== *)
theory Nav2_Safety
  imports Nav2_Transaction
begin

text \<open>
  Safety of the Nav2 transaction. An audit follows the events of a trace: whether a goal may still
  move the robot, whether a STOP was attempted since it was sent, which quiescence token is open and
  whether the fail-safe has stopped the navigation stage. The rules in \<open>audited_rules\<close> carry it
  through the procedures.
\<close>

section \<open>The audit of a trace\<close>

record motion_audit =
  ma_live :: bool
  ma_stop :: bool
  ma_open :: "string option"
  ma_failsafe :: bool
  ma_result :: "ActionTerminal option"
  ma_sound :: bool

definition audit_start :: motion_audit where
  "audit_start = \<lparr>ma_live = False, ma_stop = False, ma_open = None, ma_failsafe = False,
     ma_result = None, ma_sound = True\<rparr>"

text \<open>A goal is live from its sending until it is known to be rejected or a terminal result is read.
  It is unsound to send a second goal beside a live one or while a token is open, to close a token
  that is not open or whose goal is live, and to stop the stage beside a live goal without having
  tried a STOP.\<close>

fun audit_step :: "nav_event \<Rightarrow> motion_audit \<Rightarrow> motion_audit" where
  "audit_step (NE_started token ok) a =
     (if ok then a\<lparr>ma_open := Some token, ma_sound := ma_sound a \<and> ma_open a = None\<rparr> else a)"
| "audit_step (NE_send goal ok) a =
     a\<lparr>ma_live := True, ma_stop := False, ma_result := None,
       ma_sound := ma_sound a \<and> \<not> ma_live a \<and> ma_open a \<noteq> None\<rparr>"
| "audit_step (NE_response r) a = (if r = Inr None then a\<lparr>ma_live := False\<rparr> else a)"
| "audit_step (NE_accepted r) a = (if r = Inr False then a\<lparr>ma_live := False\<rparr> else a)"
| "audit_step (NE_result r) a =
     (case r of
        Inl _ \<Rightarrow> a
      | Inr raw \<Rightarrow>
          (case check_terminal raw of
             Inl _ \<Rightarrow> a
           | Inr t \<Rightarrow> a\<lparr>ma_live := False, ma_result := Some t\<rparr>))"
| "audit_step (NE_stop timeout_s ok) a = a\<lparr>ma_stop := True\<rparr>"
| "audit_step (NE_terminal token ok) a =
     a\<lparr>ma_open := (if ok then None else ma_open a),
       ma_sound := ma_sound a \<and> \<not> ma_live a \<and> ma_open a = Some token\<rparr>"
| "audit_step (NE_stage_stop ok) a =
     a\<lparr>ma_failsafe := True, ma_sound := ma_sound a \<and> (ma_live a \<longrightarrow> ma_stop a)\<rparr>"
| "audit_step _ a = a"

definition audit :: "nav_event list \<Rightarrow> motion_audit" where
  "audit trace = fold audit_step trace audit_start"

lemma audit_snoc [simp]: "audit (trace @ [e]) = audit_step e (audit trace)"
  by (simp add: audit_def)

definition on_trace :: "(motion_audit \<Rightarrow> bool) \<Rightarrow> 'e nav_world \<Rightarrow> bool" where
  "on_trace A w \<longleftrightarrow> A (audit (nw_trace w))"

text \<open>What must hold whenever the transaction is over.\<close>

definition settled :: "motion_audit \<Rightarrow> bool" where
  "settled a \<longleftrightarrow> ma_sound a \<and> (ma_live a \<longrightarrow> ma_failsafe a \<and> ma_stop a)
     \<and> (ma_open a \<noteq> None \<longrightarrow> ma_failsafe a)"

definition tracked :: "string \<Rightarrow> motion_audit \<Rightarrow> bool" where
  "tracked token a \<longleftrightarrow> ma_sound a \<and> ma_open a = Some token \<and> \<not> ma_failsafe a"

definition closed :: "motion_audit \<Rightarrow> bool" where
  "closed a \<longleftrightarrow> ma_sound a \<and> \<not> ma_live a \<and> ma_open a = None \<and> \<not> ma_failsafe a"

lemmas audit_preds = settled_def tracked_def closed_def

lemma closed_settled [simp]: "closed a \<Longrightarrow> settled a"
  by (simp add: audit_preds)

section \<open>Procedures under audit\<close>

named_theorems audited_rules \<open>procedures under audit\<close>
named_theorems quiet_rules \<open>procedures that the audit does not notice\<close>

text \<open>From \<open>A\<close> the procedure reaches \<open>B\<close>, or raises with the goal settled.\<close>

definition audited ::
  "(motion_audit \<Rightarrow> bool) \<Rightarrow> ('e, 'a) nav \<Rightarrow> ('a \<Rightarrow> motion_audit \<Rightarrow> bool) \<Rightarrow> bool" where
  "audited A m B \<longleftrightarrow> triple (on_trace A) m (\<lambda>x. on_trace (B x)) (\<lambda>_. on_trace settled)"

definition quiet :: "('e, 'a) nav \<Rightarrow> bool" where
  "quiet m \<longleftrightarrow> (\<forall>w r w'. m w = Some (r, w') \<longrightarrow> audit (nw_trace w') = audit (nw_trace w))"

lemma audited_pre: "audited A m B \<Longrightarrow> (\<And>a. A' a \<Longrightarrow> A a) \<Longrightarrow> audited A' m B"
  unfolding audited_def on_trace_def by (erule triple_weaken) auto

lemma audited_post: "audited A m B \<Longrightarrow> (\<And>x a. B x a \<Longrightarrow> B' x a) \<Longrightarrow> audited A m B'"
  unfolding audited_def on_trace_def by (erule triple_weaken) auto

lemma audited_bind [audited_rules]:
  "audited A m M \<Longrightarrow> (\<And>x. audited (M x) (k x) B) \<Longrightarrow> audited A (bind m k) B"
  unfolding audited_def by (rule triple_bind)

lemma audited_andthen [audited_rules]:
  "audited A m (\<lambda>_. M) \<Longrightarrow> audited M k B \<Longrightarrow> audited A (andthen m k) B"
  unfolding andthen_def by (rule audited_bind)

lemma audited_repeat:
  "audited I m (\<lambda>r a. case r of None \<Rightarrow> I a | Some x \<Rightarrow> B x a) \<Longrightarrow> audited I (repeat_until m) B"
  unfolding audited_def
  by (rule triple_repeat_until, erule triple_weaken) (auto simp: on_trace_def split: option.splits)

lemma audited_ret: "(\<And>a. A a \<Longrightarrow> B x a) \<Longrightarrow> audited A (ret x) B"
  by (simp add: audited_def triple_def ret_def on_trace_def)

lemma audited_raise: "(\<And>a. A a \<Longrightarrow> settled a) \<Longrightarrow> audited A (raise e) B"
  by (simp add: audited_def triple_def raise_def on_trace_def)

lemma audited_call:
  "(\<And>x a. A a \<Longrightarrow> B x (audit_step (event (Inr x)) a)) \<Longrightarrow>
   (\<And>e a. A a \<Longrightarrow> settled (audit_step (event (Inl e)) a)) \<Longrightarrow> audited A (nav_call event f) B"
  by (auto simp: audited_def triple_def nav_call_def on_trace_def split: prod.split sum.split)

lemma audited_attempt_call:
  "(\<And>r a. A a \<Longrightarrow> B r (audit_step (event r) a)) \<Longrightarrow> audited A (attempt (nav_call event f)) B"
  by (auto simp: audited_def triple_def attempt_def nav_call_def on_trace_def split: prod.split)

lemma quietD: "quiet m \<Longrightarrow> m w = Some (r, w') \<Longrightarrow> audit (nw_trace w') = audit (nw_trace w)"
  by (auto simp: quiet_def)

lemma audited_quiet: "quiet m \<Longrightarrow> (\<And>a. A a \<Longrightarrow> settled a) \<Longrightarrow> audited A m (\<lambda>_. A)"
  by (auto simp: audited_def triple_def on_trace_def quietD split: option.split sum.split)

lemma audited_attempt_quiet: "quiet m \<Longrightarrow> audited A (attempt m) (\<lambda>_. A)"
  by (auto simp: audited_def triple_def attempt_def on_trace_def quietD split: option.split)

lemma audited_catch_quiet:
  "quiet m \<Longrightarrow> (\<And>e. audited A (h e) (\<lambda>_. A)) \<Longrightarrow> audited A (catch m h) (\<lambda>_. A)"
  unfolding audited_def
  by (rule triple_catch [where M = "\<lambda>_. on_trace A"])
    (auto simp: triple_def on_trace_def quietD split: option.split sum.split)

lemma quiet_read [quiet_rules]: "quiet (nav_read f)"
  by (auto simp: quiet_def nav_read_def split: prod.splits)

lemma quiet_basic [quiet_rules]: "quiet (ret x)" "quiet (raise e)" "quiet skip" "quiet (guard b e)"
  by (auto simp: quiet_def proc_defs split: if_splits)

lemma quiet_note [quiet_rules]: "quiet (nav_note t)"
  by (auto simp: quiet_def nav_note_def modify_def)

lemma quiet_publish [quiet_rules]: "quiet (publish_evidence p)"
  by (auto simp: quiet_def publish_evidence_def nav_call_def split: prod.splits)

lemma quiet_bind [quiet_rules]: "quiet m \<Longrightarrow> (\<And>x. quiet (k x)) \<Longrightarrow> quiet (bind m k)"
  unfolding quiet_def bind_def by (fastforce split: option.splits sum.splits)

lemma quiet_andthen [quiet_rules]: "quiet m \<Longrightarrow> quiet k \<Longrightarrow> quiet (andthen m k)"
  unfolding andthen_def by (rule quiet_bind)

lemma quiet_catch [quiet_rules]: "quiet m \<Longrightarrow> (\<And>e. quiet (h e)) \<Longrightarrow> quiet (catch m h)"
  unfolding quiet_def catch_def by (fastforce split: option.splits sum.splits)

lemma quiet_if [quiet_rules]: "(b \<Longrightarrow> quiet m) \<Longrightarrow> (\<not> b \<Longrightarrow> quiet n) \<Longrightarrow> quiet (if b then m else n)"
  by simp


text \<open>The clock, the sleep and what is built from them never raise.\<close>

definition calm :: "('e, 'a) nav \<Rightarrow> bool" where
  "calm m \<longleftrightarrow> quiet m \<and> (\<forall>w e w'. m w \<noteq> Some (Inl e, w'))"

lemma audited_calm [audited_rules]: "calm m \<Longrightarrow> audited A m (\<lambda>_. A)"
  by (auto simp: calm_def audited_def triple_def on_trace_def quietD split: option.split sum.split)

named_theorems calm_rules \<open>procedures that neither raise nor leave an event\<close>

lemma calm_clock [calm_rules]: "calm (monotonic p)" "calm (sleep p s)" "calm (ret x)" "calm skip"
  by (auto simp: calm_def quiet_def monotonic_def sleep_def nav_read_def ret_def skip_def
      split: prod.splits)

lemma calm_bind [calm_rules]: "calm m \<Longrightarrow> (\<And>x. calm (k x)) \<Longrightarrow> calm (bind m k)"
  unfolding calm_def
  by (intro conjI quiet_bind) (auto simp: bind_def split: option.splits sum.splits)

lemma calm_cases [calm_rules]:
  "(\<And>e. calm (f e)) \<Longrightarrow> (\<And>x. calm (g x)) \<Longrightarrow> calm (case r of Inl e \<Rightarrow> f e | Inr x \<Rightarrow> g x)"
  "calm m \<Longrightarrow> calm n \<Longrightarrow> calm (if b then m else n)"
  by (auto split: sum.split)

lemma calm_attempt_read [calm_rules]: "calm (attempt (nav_read f))"
  by (auto simp: calm_def quiet_def attempt_def nav_read_def split: prod.splits option.splits)

lemma calm_steps [calm_rules]:
  "calm (new_cleanup_deadline p c)" "calm (remaining_cleanup_s p d)" "calm (cleanup_pause p c d)"
  "calm (result_done p fut)" "calm (drain_late_plans p c d)" "calm (attempt (is_cancelled p))"
  unfolding new_cleanup_deadline_def remaining_cleanup_s_def cleanup_pause_def result_done_def
    drain_late_plans_def is_cancelled_def Let_def
  by (rule calm_rules | intro calm_rules)+

section \<open>Cleanup settles the goal\<close>

lemma audited_case_sum [audited_rules]:
  "(\<And>e. r = Inl e \<Longrightarrow> audited A (f e) B) \<Longrightarrow> (\<And>x. r = Inr x \<Longrightarrow> audited A (g x) B) \<Longrightarrow>
     audited A (case r of Inl e \<Rightarrow> f e | Inr x \<Rightarrow> g x) B"
  by (cases r) auto

lemma audited_case_option [audited_rules]:
  "(x = None \<Longrightarrow> audited A m B) \<Longrightarrow> (\<And>y. x = Some y \<Longrightarrow> audited A (k y) B) \<Longrightarrow>
     audited A (case x of None \<Rightarrow> m | Some y \<Rightarrow> k y) B"
  by (cases x) auto

lemma audited_if [audited_rules]:
  "(b \<Longrightarrow> audited A m B) \<Longrightarrow> (\<not> b \<Longrightarrow> audited A n B) \<Longrightarrow> audited A (if b then m else n) B"
  by simp

lemma audited_case_bool [audited_rules]:
  "(b \<Longrightarrow> audited A m B) \<Longrightarrow> (\<not> b \<Longrightarrow> audited A n B) \<Longrightarrow> audited A (case b of True \<Rightarrow> m | False \<Rightarrow> n) B"
  by (cases b) auto

text \<open>The fail-safe: enough is that a live goal has seen a STOP.\<close>

lemma audited_fail_safety:
  "(\<And>a. A a \<Longrightarrow> ma_sound a \<and> (ma_live a \<longrightarrow> ma_stop a)) \<Longrightarrow>
     audited A (fail_safety p reason errors t) B"
  unfolding fail_safety_def stop_navigation_stage_def Let_def
  by (rule audited_bind, rule audited_attempt_call [where B = "\<lambda>_. settled"], simp add: settled_def,
      rule audited_raise)

lemma audited_fail_unknown:
  assumes "\<And>a. A a \<Longrightarrow> ma_sound a"
  shows "audited A (fail_unknown_goal_safely p reason errors deadline) B"
  unfolding fail_unknown_goal_safely_def force_priority_stop_def
  by (rule audited_bind, rule audited_calm, rule calm_rules, rule audited_bind,
      rule audited_attempt_call [where B = "\<lambda>_ a. ma_sound a \<and> ma_stop a"])
    (auto dest: assms intro: audited_fail_safety)

lemma audited_fail_unknown_now:
  assumes "\<And>a. A a \<Longrightarrow> ma_sound a"
  shows "audited A (fail_unknown_goal_now p c reason errors) B"
  unfolding fail_unknown_goal_now_def
  by (rule audited_bind, rule audited_calm, rule calm_rules, rule audited_fail_unknown, rule assms)

lemma audited_finish_quiescence:
  "audited (\<lambda>a. tracked token a \<and> \<not> ma_live a \<and> ma_result a = t') (finish_quiescence p token reason t)
     (\<lambda>_ a. closed a \<and> ma_result a = t')"
  unfolding finish_quiescence_def goal_terminal_def
  by (rule audited_bind, rule audited_attempt_call [where B = "\<lambda>r a. if succeeded r then closed a \<and> ma_result a = t'
        else ma_sound a \<and> \<not> ma_live a"], simp add: audit_preds succeeded_def, rule audited_case_sum)
    (auto simp: succeeded_def skip_def intro!: audited_ret intro: audited_fail_safety)

lemma audited_response_done:
  assumes "\<And>a. A a \<Longrightarrow> ma_sound a"
  shows "audited A (response_done p c response reason d) (\<lambda>_. A)"
  unfolding response_done_def Let_def
  by (rule audited_bind, rule audited_calm, rule calm_rules, rule audited_case_sum,
      rule audited_case_option)
    (auto intro: assms audited_ret audited_fail_unknown audited_fail_unknown_now)

lemma audited_read_terminal:
  fixes token :: string and s :: bool
  defines "A \<equiv> \<lambda>a. tracked token a \<and> (s \<longrightarrow> ma_stop a)"
  shows "audited A (read_terminal p fut)
     (\<lambda>out a. A a \<and> (\<forall>t. out = Inr t \<longrightarrow> \<not> ma_live a \<and> ma_result a = Some t))"
proof -
  have call: "audited A (attempt (future_result p f))
      (\<lambda>r a. A a \<and> (\<forall>raw t. r = Inr raw \<and> check_terminal raw = Inr t \<longrightarrow>
         \<not> ma_live a \<and> ma_result a = Some t))" for f
    unfolding future_result_def
    by (rule audited_attempt_call) (auto simp: A_def tracked_def split: sum.split)
  show ?thesis
    unfolding read_terminal_def
    by (rule audited_case_option, rule audited_ret, simp, rule audited_bind, rule audited_calm,
        rule calm_rules, rule audited_case_sum, rule audited_ret, simp, rule audited_case_bool,
        rule audited_bind, rule call, rule audited_case_sum)
      (auto intro!: audited_ret)
qed

lemma audited_skip: "audited A skip (\<lambda>_. A)"
  by (rule audited_calm) (rule calm_rules)

lemma audited_await_terminal:
  "audited A (repeat_until (await_terminal_pass p c fut d)) (\<lambda>_. A)"
proof (rule audited_repeat)
  show "audited A (await_terminal_pass p c fut d) (\<lambda>r a. case r of None \<Rightarrow> A a | Some x \<Rightarrow> A a)"
    unfolding await_terminal_pass_def
    by (rule audited_bind, rule audited_calm, rule calm_rules, rule audited_if, rule audited_bind,
        rule audited_calm, rule calm_rules, rule audited_if, rule audited_ret, simp,
        rule audited_andthen, rule audited_calm, rule calm_rules, rule audited_ret, simp,
        rule audited_ret, simp)
qed

text \<open>Cancel and STOP are tried, and the goal is closed with a terminal or the fail-safe acts.\<close>

lemma audited_cancel_stop:
  "audited (tracked token) (cancel_stop_and_prove_terminal p c handle fut reason token d)
     (\<lambda>_. closed)"
proof -
  have cancel: "audited (tracked token) (attempt (cancel_goal_async p handle)) (\<lambda>_. tracked token)"
    unfolding cancel_goal_async_def by (rule audited_attempt_call) (simp add: tracked_def)
  have stop: "audited (tracked token) (attempt (force_priority_stop p s))
      (\<lambda>_ a. tracked token a \<and> ma_stop a)" for s
    unfolding force_priority_stop_def by (rule audited_attempt_call) (simp add: tracked_def)
  let ?stopped = "\<lambda>a. tracked token a \<and> ma_stop a"
  have await: "audited ?stopped (case fut of None \<Rightarrow> skip
      | Some f \<Rightarrow> repeat_until (await_terminal_pass p c f d)) (\<lambda>_. ?stopped)"
    by (rule audited_case_option) (rule audited_skip audited_await_terminal)+
  note read = audited_read_terminal [where s = True, simplified]
  have close: "audited (\<lambda>a. tracked token a \<and> \<not> ma_live a) (attempt (goal_terminal p token))
      (\<lambda>r a. ma_sound a \<and> \<not> ma_live a \<and> (succeeded r \<longrightarrow> closed a))"
    unfolding goal_terminal_def by (rule audited_attempt_call) (simp add: audit_preds)
  show ?thesis
    unfolding cancel_stop_and_prove_terminal_def Let_def
    by (rule audited_bind [OF cancel], rule audited_bind, rule audited_calm, rule calm_rules,
        rule audited_bind [OF stop], rule audited_andthen [OF await], rule audited_bind [OF read],
        rule audited_case_sum, rule audited_fail_safety, simp add: tracked_def, rule audited_bind,
        rule audited_pre [OF close], simp, rule audited_if, rule audited_fail_safety, simp,
        rule audited_ret)
      (auto simp: failure_note_def succeeded_def split: sum.splits)
qed

lemma audited_cancel_stop_now:
  "audited (tracked token) (cancel_stop_and_prove_terminal_now p c handle fut reason token)
     (\<lambda>_. closed)"
  unfolding cancel_stop_and_prove_terminal_now_def
  by (rule audited_bind, rule audited_calm, rule calm_rules, rule audited_cancel_stop)

lemma tracked_sound: "tracked token a \<Longrightarrow> ma_sound a"
  by (simp add: tracked_def)

text \<open>What the answers about a handle tell.\<close>

lemma audited_response_result:
  "audited (tracked token) (attempt (response_result p response))
     (\<lambda>r a. tracked token a \<and> (r = Inr None \<longrightarrow> \<not> ma_live a))"
  unfolding response_result_def by (rule audited_attempt_call) (auto simp: tracked_def)

lemma audited_accepted:
  "audited (tracked token) (attempt (handle_accepted p handle))
     (\<lambda>r a. tracked token a \<and> (r = Inr False \<longrightarrow> \<not> ma_live a))"
  unfolding handle_accepted_def by (rule audited_attempt_call) (auto simp: tracked_def)

lemma audited_result_future:
  "audited (tracked token) (attempt (get_result_async p handle)) (\<lambda>_. tracked token)"
  unfolding get_result_async_def by (rule audited_attempt_call) (auto simp: tracked_def)

lemma audited_finish_rejected:
  "audited (\<lambda>a. tracked token a \<and> \<not> ma_live a) (finish_quiescence p token reason t) (\<lambda>_. closed)"
proof -
  have "audited (\<lambda>a. tracked token a \<and> \<not> ma_live a \<and> ma_result a = t') (finish_quiescence p token reason t)
      (\<lambda>_. closed)" for t'
    by (rule audited_post [OF audited_finish_quiescence]) simp
  then show ?thesis by (auto simp: audited_def triple_def on_trace_def)
qed

lemma audited_pending_loop:
  "audited (tracked token) (repeat_until (pending_pass p c response reason d)) (\<lambda>_. tracked token)"
proof (rule audited_repeat)
  show "audited (tracked token) (pending_pass p c response reason d)
      (\<lambda>r a. case r of None \<Rightarrow> tracked token a | Some x \<Rightarrow> tracked token a)"
    unfolding pending_pass_def
    by (rule audited_bind, rule audited_response_done, rule tracked_sound, assumption,
        rule audited_if, rule audited_ret, simp, rule audited_bind, rule audited_calm,
        rule calm_rules, rule audited_if, rule audited_andthen, rule audited_calm, rule calm_rules)
      (rule audited_ret, simp)+
qed

lemma audited_resolve_pending:
  "audited (tracked token) (resolve_pending_goal_safely p c response reason token d) (\<lambda>_. closed)"
proof -
  have rejected: "audited (\<lambda>a. tracked token a \<and> \<not> ma_live a)
      (andthen (finish_quiescence p token reason None) (ret None)) (\<lambda>_. closed)"
    by (rule audited_andthen [OF audited_finish_rejected]) (rule audited_ret)
  show ?thesis
    unfolding resolve_pending_goal_safely_def
    by (rule audited_andthen [OF audited_pending_loop], rule audited_bind,
        rule audited_response_done, rule tracked_sound, assumption, rule audited_if,
        rule audited_fail_unknown, rule tracked_sound, assumption,
        rule audited_bind [OF audited_response_result], rule audited_case_sum,
        rule audited_fail_unknown, simp add: tracked_def, rule audited_case_option,
        rule audited_pre [OF rejected], simp, rule audited_bind, rule audited_pre [OF audited_accepted],
        simp, rule audited_case_sum, rule audited_fail_unknown, simp add: tracked_def,
        rule audited_case_bool, rule audited_bind, rule audited_pre [OF audited_result_future], simp,
        rule audited_bind, rule audited_case_sum, rule audited_cancel_stop, rule audited_cancel_stop,
        rule audited_ret, assumption, rule audited_pre [OF rejected], simp)
qed

section \<open>A motion under audit\<close>

lemma quiet_ledger [quiet_rules]:
  "quiet (transition_sampled p sequence st n code d)" "quiet (from_ledger f)" "quiet (is_cancelled p)"
  "quiet (transition_sampled_if_open p sequence st n code d)"
  "quiet (transition_sampled_preserving p sequence st n code d)"
  unfolding transition_sampled_preserving_def transition_sampled_if_open_def transition_sampled_def
    from_ledger_def on_ledger_def is_cancelled_def
  by (rule quiet_rules | intro quiet_rules)+

lemma audited_fail_with_evidence:
  assumes "\<And>a. A a \<Longrightarrow> settled a"
  shows "audited A (fail_with_evidence p intent st t reason e) B"
  unfolding fail_with_evidence_def
  by (rule audited_andthen [OF audited_quiet [where A = A] audited_raise])
    (auto split: MotionIntent.split intro: quiet_rules assms)

lemma audited_abandon_goal:
  "audited (tracked token) (abandon_goal p c intent handle fut token st reason e) B"
  unfolding abandon_goal_def
  by (rule audited_bind [OF audited_cancel_stop_now], rule audited_fail_with_evidence) simp

lemma audited_fail_accepted:
  "audited (tracked token) (fail_accepted_sampled_safely p c intent handle fut reason token) B"
  unfolding fail_accepted_sampled_safely_def by (rule audited_abandon_goal)

lemma audited_abandon_pending:
  "audited (tracked token) (abandon_pending p c intent response token st reason e) B"
  unfolding abandon_pending_def
  by (rule audited_bind, rule audited_calm, rule calm_rules,
      rule audited_bind [OF audited_resolve_pending], rule audited_case_option, rule audited_raise,
      simp, rule audited_fail_with_evidence, simp)

lemma audited_preflight: "audited closed (motion_preflight p intent d) (\<lambda>_. closed)"
  unfolding motion_preflight_def guard_def Let_def wait_for_server_def
  by (cases "goal_for_intent intent", simp only: prod.case, rule audited_bind, rule audited_calm,
      rule calm_rules, rule audited_bind, rule audited_quiet, rule quiet_rules, simp, rule audited_if,
      rule audited_raise, simp, rule audited_if, rule audited_raise, simp, rule audited_bind,
      rule audited_call [where B = "\<lambda>_. closed"], simp, simp, rule audited_if, rule audited_raise, simp,
      rule audited_bind, rule audited_quiet, rule quiet_rules, simp, rule audited_if,
      rule audited_raise, simp, rule audited_bind, rule audited_calm, rule calm_rules,
      rule audited_if, rule audited_ret, simp, rule audited_raise, simp)

lemma audited_begin: "audited closed (begin_quiescence p label) (\<lambda>token a. tracked token a \<and> \<not> ma_live a)"
proof -
  have 1: "audited closed (query (\<lambda>w. (nw_token_sequence w + 1, w\<lparr>nw_token_sequence := nw_token_sequence w + 1\<rparr>)))
      (\<lambda>_. closed)"
    by (auto simp: audited_def triple_def query_def on_trace_def)
  have 2: "audited closed (goal_started p token) (\<lambda>_ a. tracked token a \<and> \<not> ma_live a)" for token
    unfolding goal_started_def by (rule audited_call) (auto simp: audit_preds succeeded_def)
  show ?thesis
    unfolding begin_quiescence_def Let_def
    by (rule audited_bind [OF 1], rule audited_andthen [OF 2], rule audited_ret)
qed

lemma audited_dispatch:
  "audited (\<lambda>a. tracked token a \<and> \<not> ma_live a) (dispatch_goal p c intent goal) (\<lambda>_. tracked token)"
proof -
  have "audited (\<lambda>a. tracked token a \<and> \<not> ma_live a) (attempt (send_goal p goal)) (\<lambda>_. tracked token)"
    unfolding send_goal_def by (rule audited_attempt_call) (auto simp: tracked_def)
  then show ?thesis
    unfolding dispatch_goal_def
    by (rule audited_bind) (rule audited_case_sum, rule audited_fail_unknown_now, rule tracked_sound,
        assumption, rule audited_ret)
qed

lemma audited_response_loop:
  "audited (tracked token) (repeat_until (response_pass p c intent d response token)) (\<lambda>_. tracked token)"
proof (rule audited_repeat)
  show "audited (tracked token) (response_pass p c intent d response token)
      (\<lambda>r a. case r of None \<Rightarrow> tracked token a | Some x \<Rightarrow> tracked token a)"
    unfolding response_pass_def Let_def
    by (rule audited_bind, rule audited_response_done, rule tracked_sound, assumption,
        rule audited_if, rule audited_ret, simp, rule audited_bind, rule audited_calm,
        rule calm_rules, rule audited_case_sum, rule audited_abandon_pending, rule audited_bind,
        rule audited_calm, rule calm_rules, rule audited_if, rule audited_abandon_pending,
        rule audited_andthen, rule audited_calm, rule calm_rules, rule audited_ret, simp)
qed

lemma audited_read_handle:
  "audited (tracked token) (read_accepted_handle p c intent response token) (\<lambda>_. tracked token)"
proof -
  have rejected: "audited (\<lambda>a. tracked token a \<and> \<not> ma_live a)
      (andthen (finish_quiescence p token why None) (raise e)) B" for why e B
    by (rule audited_andthen [OF audited_finish_rejected], rule audited_raise) simp
  show ?thesis
    unfolding read_accepted_handle_def Let_def
    by (rule audited_bind [OF audited_response_result], rule audited_case_sum,
        rule audited_fail_unknown_now, simp add: tracked_def, rule audited_case_option,
        rule audited_pre [OF rejected], simp, rule audited_bind, rule audited_pre [OF audited_accepted],
        simp, rule audited_case_sum, rule audited_fail_unknown_now, simp add: tracked_def,
        rule audited_case_bool, rule audited_ret, simp, rule audited_pre [OF rejected], simp)
qed

lemma audited_open_future:
  "audited (tracked token) (open_result_future p c intent handle token) (\<lambda>_. tracked token)"
  unfolding open_result_future_def Let_def
  by (rule audited_bind [OF audited_result_future], rule audited_case_sum,
      rule audited_bind [OF audited_cancel_stop_now], rule audited_raise, simp, rule audited_ret)

lemma audited_record_acceptance:
  "audited (tracked token) (record_acceptance p c intent handle fut token) (\<lambda>_. tracked token)"
  unfolding record_acceptance_def
  by (cases intent) (auto intro!: audited_catch_quiet quiet_rules audited_fail_accepted audited_skip)

lemma audited_running_plan:
  "audited (tracked token) (audit_running_plan p c intent handle fut token) (\<lambda>_. tracked token)"
  unfolding audit_running_plan_def Let_def
  by (cases intent) (auto intro!: audited_bind audited_attempt_quiet quiet_rules audited_case_sum
      audited_if audited_fail_accepted audited_abandon_goal audited_skip)

lemma audited_motion_loop:
  "audited (tracked token) (repeat_until (motion_pass p c intent d handle fut token)) (\<lambda>_. tracked token)"
proof (rule audited_repeat)
  show "audited (tracked token) (motion_pass p c intent d handle fut token)
      (\<lambda>r a. case r of None \<Rightarrow> tracked token a | Some x \<Rightarrow> tracked token a)"
    unfolding motion_pass_def Let_def
    by (rule audited_bind, rule audited_calm, rule calm_rules, rule audited_if, rule audited_ret,
        simp, rule audited_bind, rule audited_calm, rule calm_rules, rule audited_case_sum,
        rule audited_abandon_goal, rule audited_if, rule audited_abandon_goal,
        rule audited_andthen [OF audited_running_plan], rule audited_bind, rule audited_calm,
        rule calm_rules, rule audited_if, rule audited_abandon_goal, rule audited_andthen,
        rule audited_calm, rule calm_rules, rule audited_ret, simp)
qed

lemma audited_final_plan:
  assumes "\<And>a. A a \<Longrightarrow> tracked token a"
  shows "audited A (audit_final_plan p c intent d handle fut token) (\<lambda>_. A)"
proof (cases intent)
  case (SampledNavigate sequence xy)
  show ?thesis
    unfolding audit_final_plan_def SampledNavigate MotionIntent.case Let_def
    by (rule audited_andthen, rule audited_calm, rule calm_rules, rule audited_bind,
        rule audited_attempt_quiet, rule quiet_rules, rule audited_case_sum,
        rule audited_pre [OF audited_fail_accepted assms], assumption, rule audited_if,
        rule audited_pre [OF audited_abandon_goal assms], assumption, rule audited_skip)
qed (simp_all add: audit_final_plan_def audited_skip)

text \<open>A motion that returns has read the terminal it returns and closed its token.\<close>

lemma audited_finish_motion:
  "audited (tracked token) (finish_motion p c intent d handle fut token)
     (\<lambda>t a. closed a \<and> ma_result a = Some t)"
proof -
  note read = audited_read_terminal [where s = False, simplified]
  have finish: "audited (\<lambda>a. tracked token a \<and> \<not> ma_live a \<and> ma_result a = Some t)
      (andthen (audit_final_plan p c intent d handle fut token)
        (andthen (finish_quiescence p token why (Some t)) (ret t)))
      (\<lambda>t a. closed a \<and> ma_result a = Some t)" for why t
    by (rule audited_andthen, rule audited_final_plan, simp,
        rule audited_andthen [OF audited_finish_quiescence], rule audited_ret)
  show ?thesis
    unfolding finish_motion_def Let_def
    by (rule audited_bind [OF read], rule audited_case_sum,
        rule audited_pre [OF audited_abandon_goal], simp, rule audited_pre [OF finish], simp)
qed

lemma audited_execute_motion:
  "audited closed (execute_motion p c intent d) (\<lambda>t a. closed a \<and> ma_result a = Some t)"
  unfolding execute_motion_def
  by (cases "goal_for_intent intent", simp only: prod.case, rule audited_andthen [OF audited_preflight],
      rule audited_bind [OF audited_begin], rule audited_bind [OF audited_dispatch],
      rule audited_andthen [OF audited_response_loop], rule audited_bind [OF audited_read_handle],
      rule audited_bind [OF audited_open_future], rule audited_andthen [OF audited_record_acceptance],
      rule audited_andthen [OF audited_motion_loop], rule audited_finish_motion)

section \<open>The transaction under audit\<close>

definition proved_success :: "motion_audit \<Rightarrow> bool" where
  "proved_success a \<longleftrightarrow> closed a \<and> (\<exists>t. ma_result a = Some t \<and> terminal_succeeded t)"

lemma audited_sampled:
  "audited closed (execute_sampled p c sequence xy d) (\<lambda>_. proved_success)"
proof -
  let ?done = "\<lambda>t a. closed a \<and> ma_result a = Some t"
  have body: "audited closed (sampled_body p c sequence xy d) (\<lambda>_. proved_success)"
    unfolding sampled_body_def record_success_def
    by (rule audited_bind [OF audited_execute_motion], rule audited_if,
        rule audited_post [OF audited_quiet], rule quiet_rules, simp, simp add: proved_success_def,
        rule audited_andthen [OF audited_quiet audited_raise], rule quiet_rules) simp_all
  have handler: "audited settled (case failure_evidence e of (st, n, code, detail) \<Rightarrow>
      andthen (transition_sampled_preserving p sequence st n code detail) (raise e)) B" for e B
    by (cases "failure_evidence e", simp only: prod.case,
        rule audited_andthen [OF audited_quiet audited_raise]) (rule quiet_rules, simp_all)
  have "audited closed (catch (sampled_body p c sequence xy d) (\<lambda>e. case failure_evidence e of
      (st, n, code, detail) \<Rightarrow>
        andthen (transition_sampled_preserving p sequence st n code detail) (raise e)))
      (\<lambda>_. proved_success)"
    using body handler unfolding audited_def by (rule triple_catch)
  then show ?thesis
    unfolding execute_sampled_def
    by (intro audited_bind [OF audited_quiet [OF quiet_ledger(2)]]
        audited_andthen [OF audited_quiet [OF quiet_basic(4)]]) simp_all
qed

lemma audited_backup:
  "audited closed (execute_backup p c intent d) (\<lambda>_. proved_success)"
proof -
  have stop: "audited (\<lambda>a. closed a \<and> ma_result a = Some t) (attempt (force_priority_stop p s)) (\<lambda>_. closed)"
    for s t
    unfolding force_priority_stop_def by (rule audited_attempt_call) (simp add: closed_def)
  show ?thesis
    unfolding execute_backup_def Let_def
    by (rule audited_bind [OF audited_execute_motion], rule audited_if,
        rule audited_post [OF audited_skip], simp add: proved_success_def,
        rule audited_bind [OF stop], rule audited_case_sum, rule audited_fail_safety,
        simp add: closed_def, rule audited_raise, simp)
qed

lemma audited_mapping_return:
  "audited closed (bind (execute_motion p c intent d) (\<lambda>t. require_success t label)) (\<lambda>_. proved_success)"
  unfolding require_success_def guard_def
  by (rule audited_bind [OF audited_execute_motion], rule audited_if, rule audited_ret,
      auto simp: proved_success_def intro!: audited_raise)

lemma audited_set_locked: "audited A (set_locked b) (\<lambda>_. A)"
  by (auto simp: audited_def triple_def set_locked_def modify_def on_trace_def)

lemma audited_ensure:
  assumes "audited A m B" "\<And>C. audited C f (\<lambda>_. C)"
  shows "audited A (ensure m f) B"
  using assms unfolding audited_def by (intro triple_ensure)

lemma audited_execute: "audited closed (execute p c intent d) (\<lambda>_. proved_success)"
proof -
  have body: "audited closed (case intent of
      SampledNavigate sequence xy \<Rightarrow> execute_sampled p c sequence xy d
    | MappingReturn _ \<Rightarrow> bind (execute_motion p c intent d) (\<lambda>t. require_success t ''mapping return'')
    | RecoveryBackup _ _ _ \<Rightarrow> execute_backup p c intent d) (\<lambda>_. proved_success)"
    by (cases intent) (simp_all add: audited_sampled audited_mapping_return audited_backup)
  have busy: "audited closed (query (\<lambda>w. (nw_locked w, w))) (\<lambda>_. closed)"
    by (auto simp: audited_def triple_def query_def on_trace_def)
  show ?thesis
    unfolding execute_def
    by (rule audited_andthen [OF audited_quiet], rule quiet_rules, simp, rule audited_bind [OF busy],
        rule audited_if, rule audited_raise, simp, rule audited_andthen [OF audited_set_locked],
        rule audited_ensure [OF body audited_set_locked])
qed


section \<open>A runtime that answers at once\<close>

text \<open>Goals are accepted and end with the given status; time passes only in the clock readings and
  the sleeps; every call advances the clock by a tenth of a second.\<close>

definition prompt_port :: "int \<Rightarrow> real nav_port" where
  "prompt_port status =
     \<lparr>np_monotonic = (\<lambda>(t, l). (Fin t, (t + 1 / 10, l))), np_sleep = (\<lambda>s (t, l). (case s of Fin r \<Rightarrow> t + max 0 r | _ \<Rightarrow> t, l)),
      np_is_cancelled = (\<lambda>env. (Inr False, env)), np_evidence_timestamp_ns = (\<lambda>env. (Inr 5, env)),
      np_wait_for_server = (\<lambda>_ _ env. (Inr True, env)), np_send_goal = (\<lambda>_ env. (Inr 1, env)),
      np_response_done = (\<lambda>_ env. (Inr True, env)), np_response_result = (\<lambda>_ env. (Inr (Some 2), env)),
      np_accepted = (\<lambda>_ env. (Inr True, env)), np_get_result_async = (\<lambda>_ env. (Inr 3, env)),
      np_cancel_goal_async = (\<lambda>_ env. (Inr (), env)), np_result_done = (\<lambda>_ env. (Inr True, env)),
      np_result = (\<lambda>_ env. (Inr (RawTerminal (Inr status) (Inr 0) ''''), env)),
      np_force_priority_stop = (\<lambda>_ env. (Inr (), env)),
      np_stop_navigation_stage = (\<lambda>env. (Inr (), env)),
      np_nav2_goal_started = (\<lambda>_ env. (Inr (), env)), np_nav2_goal_terminal = (\<lambda>_ env. (Inr (), env)),
      np_navigation_evidence_changed = (\<lambda>env. (Inr (), env)), np_show_xy = (\<lambda>_. ''xy'')\<rparr>"

definition prompt_config :: Nav2MotionTransaction where
  "prompt_config = \<lparr>tx_safety_timeout_s = Fin 10, tx_poll_interval_s = Fin 0.05,
     tx_late_plan_drain_s = Fin 0.3\<rparr>"

definition prompt_world :: "real nav_world" where
  "prompt_world = \<lparr>nw_env = (0, ledger_init), nw_token_sequence = 0, nw_locked = False, nw_trace = []\<rparr>"

lemmas nav_eval = execute_def execute_backup_def execute_motion_def motion_preflight_def
  begin_quiescence_def dispatch_goal_def response_pass_def read_accepted_handle_def
  open_result_future_def record_acceptance_def motion_pass_def finish_motion_def audit_final_plan_def
  read_terminal_def finish_quiescence_def response_done_def result_done_def repeat_until.simps
  monotonic_def sleep_def is_cancelled_def wait_for_server_def send_goal_def response_result_def
  handle_accepted_def get_result_async_def future_result_def goal_started_def goal_terminal_def
  force_priority_stop_def nav_read_def nav_call_def set_locked_def proc_defs attempt_def
  check_terminal_def action_status_def TERMINAL_STATUSES_def terminal_succeeded_def Let_def zero_fin

lemma prompt_backup:
  "\<exists>w'. execute (prompt_port 4) prompt_config (RecoveryBackup (Fin 0.3) (Fin 0.1) (Fin 5)) (Fin 20)
     prompt_world = Some (Inr (), w')"
  by (simp add: nav_eval prompt_port_def prompt_config_def prompt_world_def)


end
