(* ===== verification/Nav2_Progress.thy ===== *)
theory Nav2_Progress
  imports Nav2_Safety
begin

text \<open>
  The Nav2 transaction ends: every waiting loop of \<open>Nav2_Transaction\<close> reads the clock once per round and
  sleeps before the next, so that a deadline bounds the rounds. The only thing asked of the runtime is
  a clock with finite readings that no call turns back, and a sleep that lasts as long as it was
  asked to.
\<close>

section \<open>The transaction ends\<close>

text \<open>What the transaction relies on of the clock: it gives finite readings, no call made in a waiting
  loop turns it back and a sleep takes at least the time it was asked to take.\<close>

definition advances :: "('e \<Rightarrow> real) \<Rightarrow> ('e nav_env \<Rightarrow> 'a \<times> 'e nav_env) \<Rightarrow> bool" where
  "advances time f \<longleftrightarrow> (\<forall>env. time (fst env) \<le> time (fst (snd (f env))))"

definition nav_progress :: "'e nav_port \<Rightarrow> ('e \<Rightarrow> real) \<Rightarrow> bool" where
  "nav_progress p time \<longleftrightarrow>
     (\<forall>env. fst (np_monotonic p env) = Fin (time (fst env))) \<and> advances time (np_monotonic p)
     \<and> (\<forall>s env. time (fst env) + max 0 s \<le> time (fst (np_sleep p (Fin s) env)))
     \<and> advances time (np_is_cancelled p) \<and> (\<forall>n. advances time (np_response_done p n))
     \<and> (\<forall>n. advances time (np_result_done p n))"

text \<open>A procedure from a time on, and what its passes guarantee.\<close>

definition since :: "('e \<Rightarrow> real) \<Rightarrow> real \<Rightarrow> 'e nav_world \<Rightarrow> bool" where
  "since time t w \<longleftrightarrow> t \<le> time (fst (nw_env w))"

definition later :: "('e \<Rightarrow> real) \<Rightarrow> ('e, 'a) nav \<Rightarrow> bool" where
  "later time m \<longleftrightarrow> (\<forall>t. triple (since time t) m (\<lambda>_. since time t) (\<lambda>_ _. True))"

text \<open>What a call of the port does to the world, read off the function of the port.\<close>

lemma triple_read:
  "(\<And>w. P w \<Longrightarrow> (case fst (f (nw_env w)) of Inl e \<Rightarrow> R e (w\<lparr>nw_env := snd (f (nw_env w))\<rparr>)
      | Inr x \<Rightarrow> Q x (w\<lparr>nw_env := snd (f (nw_env w))\<rparr>))) \<Longrightarrow> triple P (nav_read f) Q R"
  unfolding triple_def nav_read_def by (fastforce simp: case_prod_beta split: sum.split)

lemma since_advance: "advances time f \<Longrightarrow> since time t w \<Longrightarrow> since time t (w\<lparr>nw_env := snd (f (nw_env w))\<rparr>)"
  unfolding advances_def since_def by (drule spec [of _ "nw_env w"]) simp

lemma later_read:
  assumes "advances time f"
  shows "later time (nav_read f)" "later time (attempt (nav_read f))"
  unfolding later_def
  by (auto intro!: triple_read triple_attempt since_advance assms split: sum.split)

definition moves_on :: "('e \<Rightarrow> real) \<Rightarrow> real \<Rightarrow> real \<Rightarrow> ('e, 'a option) nav \<Rightarrow> bool" where
  "moves_on time deadline delta m \<longleftrightarrow> returns (\<lambda>_. True) m
     \<and> (\<forall>t. triple (since time t) m (\<lambda>r w. r = None \<longrightarrow> t < deadline \<and> since time (min (t + delta) deadline) w)
          (\<lambda>_ _. True))"

definition ticks :: "real \<Rightarrow> real \<Rightarrow> real \<Rightarrow> nat" where
  "ticks deadline delta t = nat \<lceil>(deadline - t) / delta\<rceil>"

lemma ticks_less:
  assumes "0 < delta" "t < deadline" "min (t + delta) deadline \<le> t'"
  shows "ticks deadline delta t' < ticks deadline delta t"
proof -
  have pos: "0 < \<lceil>(deadline - t) / delta\<rceil>" using assms by simp
  show ?thesis
  proof (cases "deadline \<le> t'")
    case True
    then have "(deadline - t') / delta \<le> 0" using assms(1) by (simp add: divide_nonpos_pos)
    then show ?thesis using pos by (simp add: ticks_def)
  next
    case False
    then have "(deadline - t') / delta \<le> (deadline - t - delta) / delta"
      using assms by (intro divide_right_mono) auto
    also have "\<dots> = (deadline - t) / delta - 1" using assms(1) by (simp add: diff_divide_distrib)
    finally have "\<lceil>(deadline - t') / delta\<rceil> \<le> \<lceil>(deadline - t) / delta\<rceil> - 1" by linarith
    then show ?thesis using pos by (simp add: ticks_def)
  qed
qed

lemma returns_loop:
  assumes "moves_on time deadline delta m" "0 < delta"
  shows "returns (\<lambda>_. True) (repeat_until m)"
proof (rule returns_repeat_until [where f = "\<lambda>w. ticks deadline delta (time (fst (nw_env w)))"])
  fix w :: "'a nav_world"
  obtain r w' where r: "m w = Some (r, w')"
    using assms(1) returnsD [of "\<lambda>_. True" m w] unfolding moves_on_def by blast
  have tr: "triple (since time t) m (\<lambda>r w. r = None \<longrightarrow> t < deadline \<and> since time (min (t + delta) deadline) w)
      (\<lambda>_ _. True)" for t using assms(1) unfolding moves_on_def by blast
  have "ticks deadline delta (time (fst (nw_env w'))) < ticks deadline delta (time (fst (nw_env w)))"
    if "r = Inr None"
    using triple_normal [OF tr [of "time (fst (nw_env w))"], of w None w'] r that assms(2)
    by (intro ticks_less) (auto simp: since_def)
  then show "\<exists>r w'. m w = Some (r, w') \<and> True \<and> (r = Inr None \<longrightarrow>
      ticks deadline delta (time (fst (nw_env w'))) < ticks deadline delta (time (fst (nw_env w))))"
    using r by blast
qed


lemma later_bind: "later time m \<Longrightarrow> (\<And>x. later time (k x)) \<Longrightarrow> later time (bind m k)"
  unfolding later_def by (blast intro: triple_bind)

lemma later_ret: "later time (ret x)" "later time skip"
  unfolding later_def by (auto intro: triple_ret triple_skip)

text \<open>A procedure that never returns normally.\<close>

abbreviation gives_up :: "('w, 'a) proc \<Rightarrow> bool" where
  "gives_up m \<equiv> yields (\<lambda>_. False) m"

lemma gives_up_triple: "gives_up m \<Longrightarrow> triple P m Q (\<lambda>_ _. True)"
  unfolding triple_def yields_def by (auto split: option.split sum.split)

lemma gives_up_later: "gives_up m \<Longrightarrow> later time m"
  unfolding later_def using gives_up_triple by blast

lemma gives_up_fail_safety: "gives_up (fail_safety p reason errors t)"
  unfolding fail_safety_def Let_def by (intro yields_bind yields_raise)

lemma gives_up_fail_unknown:
  "gives_up (fail_unknown_goal_safely p reason errors d)" "gives_up (fail_unknown_goal_now p c reason errors)"
  unfolding fail_unknown_goal_now_def fail_unknown_goal_safely_def
  by (intro yields_bind gives_up_fail_safety)+

lemma gives_up_evidence: "gives_up (fail_with_evidence p intent st t reason e)"
  unfolding fail_with_evidence_def by (intro yields_andthen yields_raise)

lemma gives_up_abandon:
  "gives_up (abandon_goal p c intent handle fut token st reason e)"
  "gives_up (abandon_pending p c intent response token st reason e)"
  "gives_up (fail_accepted_sampled_safely p c intent handle fut reason token)"
  unfolding abandon_goal_def abandon_pending_def fail_accepted_sampled_safely_def
  by (auto intro!: yields_bind yields_raise gives_up_evidence split: option.split)

text \<open>The tail of a waiting loop: beyond the deadline it stops, before it it sleeps.\<close>

lemma clock_triple:
  assumes "nav_progress p time"
  shows "triple (since time T) (monotonic p) (\<lambda>t w. \<exists>s. t = Fin s \<and> T \<le> s \<and> since time s w) R"
proof -
  have clock: "fst (np_monotonic p env) = Fin (time (fst env))"
      "time (fst env) \<le> time (fst (snd (np_monotonic p env)))"
    for env using assms unfolding nav_progress_def advances_def by blast+
  show ?thesis
    unfolding monotonic_def by (rule triple_read) (auto simp: case_prod_beta since_def clock)
qed

lemma sleep_triple:
  assumes "nav_progress p time"
  shows "triple (since time T) (sleep p (Fin s)) (\<lambda>_. since time (T + max 0 s)) R"
proof -
  have "time (fst env) + max 0 s \<le> time (fst (np_sleep p (Fin s) env))" for env
    using assms unfolding nav_progress_def by blast
  then show ?thesis
    unfolding sleep_def
    by (intro triple_read) (simp add: since_def, erule order_trans [OF add_right_mono])
qed

lemma later_clock:
  assumes "nav_progress p time"
  shows "later time (monotonic p)" "later time (attempt (is_cancelled p))"
    "later time (result_done p fut)" "later time (response_done p c response reason d)"
    "later time (remaining_cleanup_s p d')"
proof -
  have adv: "advances time (np_is_cancelled p)" "advances time (np_response_done p n)"
      "advances time (np_result_done p n)" for n
    using assms unfolding nav_progress_def by blast+
  show mono: "later time (monotonic p)"
    unfolding later_def
    by (intro allI, rule triple_weaken [OF clock_triple [OF assms]]) (auto simp: since_def)
  show "later time (attempt (is_cancelled p))" unfolding is_cancelled_def by (intro later_read adv)
  show "later time (result_done p fut)"
    unfolding result_done_def by (intro later_bind later_read adv) (auto intro: later_ret split: sum.split)
  show "later time (response_done p c response reason d)"
    unfolding response_done_def Let_def
    by (intro later_bind later_read adv)
      (auto intro: later_ret gives_up_later gives_up_fail_unknown split: sum.split option.split)
  show "later time (remaining_cleanup_s p d')"
    unfolding remaining_cleanup_s_def by (intro later_bind later_ret mono)
qed

lemma later_triple: "later time m \<Longrightarrow> triple (since time T) m (\<lambda>_. since time T) (\<lambda>_ _. True)"
  by (simp add: later_def)

text \<open>One round of a waiting loop, from the clock reading on.\<close>

definition round_from :: "('e \<Rightarrow> real) \<Rightarrow> real \<Rightarrow> real \<Rightarrow> real \<Rightarrow> ('e, 'a option) nav \<Rightarrow> bool" where
  "round_from time deadline delta T m \<longleftrightarrow>
     triple (since time T) m (\<lambda>r w. r = None \<longrightarrow> T < deadline \<and> since time (min (T + delta) deadline) w) (\<lambda>_ _. True)"

lemma round_after:
  "later time m \<Longrightarrow> (\<And>x. round_from time d delta T (k x)) \<Longrightarrow> round_from time d delta T (bind m k)"
  unfolding round_from_def by (rule triple_bind [OF later_triple])

lemma round_stops: "yields (\<lambda>r. r \<noteq> None) m \<Longrightarrow> round_from time d delta T m"
  unfolding round_from_def triple_def yields_def by (auto split: option.split sum.split)

lemma round_clock:
  assumes "nav_progress p time"
    and "\<And>s. s < d \<Longrightarrow> T \<le> s \<Longrightarrow> round_from time d delta s (k (Fin s))"
    and "\<And>s. d \<le> s \<Longrightarrow> yields (\<lambda>r. r \<noteq> None) (k (Fin s))"
  shows "round_from time d delta T (bind (monotonic p) k)"
  unfolding round_from_def
proof (rule triple_bind [OF clock_triple [OF assms(1)]])
  fix t
  have "triple (since time s) (k (Fin s)) (\<lambda>r w. r = None \<longrightarrow> T < d \<and> since time (min (T + delta) d) w) (\<lambda>_ _. True)"
    if "T \<le> s" for s
  proof (cases "s < d")
    case True
    then show ?thesis
      using assms(2) [OF True that] that unfolding round_from_def
      by (elim triple_weaken) (auto simp: since_def)
  next
    case False
    then show ?thesis
      using assms(3) [of s] unfolding triple_def yields_def by (auto split: option.split sum.split)
  qed
  then show "triple (\<lambda>w. \<exists>s. t = Fin s \<and> T \<le> s \<and> since time s w) (k t)
      (\<lambda>r w. r = None \<longrightarrow> T < d \<and> since time (min (T + delta) d) w) (\<lambda>_ _. True)"
    unfolding triple_def by blast
qed

lemma round_sleep:
  assumes "nav_progress p time" "0 < delta" "T < d"
  shows "round_from time d delta T (andthen (sleep p (Fin delta)) (ret None))"
  unfolding round_from_def
  by (rule triple_andthen [OF sleep_triple [OF assms(1)]])
    (use assms(2,3) in \<open>auto simp: triple_def ret_def since_def\<close>)

lemma round_pause:
  assumes "nav_progress p time" "0 < delta" "tx_poll_interval_s c = Fin delta" "T < d"
  shows "round_from time d delta T (andthen (cleanup_pause p c (Fin d)) (ret None))"
proof -
  have "triple (since time T) (cleanup_pause p c (Fin d)) (\<lambda>_. since time (min (T + delta) d)) R" for R
    unfolding cleanup_pause_def
  proof (rule triple_bind)
    show "triple (since time T) (remaining_cleanup_s p (Fin d))
        (\<lambda>r w. \<exists>s. r = Fin (max 0 (d - s)) \<and> T \<le> s \<and> since time s w) R"
      unfolding remaining_cleanup_s_def
      by (rule triple_bind [OF clock_triple [OF assms(1)]])
        (clarsimp simp: triple_def ret_def zero_fin, blast)
  next
    fix r
    have "triple (since time s) (sleep p (pymin (Fin delta) (Fin (max 0 (d - s)))))
        (\<lambda>_. since time (min (T + delta) d)) R" if "T \<le> s" for s
      unfolding pymin_fin
      by (rule triple_weaken [OF sleep_triple [OF assms(1)]])
        (use assms(2) that in \<open>auto simp: since_def\<close>)
    then show "triple (\<lambda>w. \<exists>s. r = Fin (max 0 (d - s)) \<and> T \<le> s \<and> since time s w)
        (sleep p (pymin (tx_poll_interval_s c) r)) (\<lambda>_. since time (min (T + delta) d)) R"
      unfolding assms(3) triple_def by blast
  qed
  then show ?thesis
    unfolding round_from_def
    by (rule triple_andthen) (use assms(4) in \<open>auto simp: triple_def ret_def\<close>)
qed

section \<open>The loops\<close>

lemma moves_onI:
  "returns (\<lambda>_. True) m \<Longrightarrow> (\<And>T. round_from time d delta T m) \<Longrightarrow> moves_on time d delta m"
  by (simp add: moves_on_def round_from_def)

lemma total_read [returns_rules]: "returns (\<lambda>_. True) (nav_read f)"
  by (auto simp: returns_def nav_read_def split: prod.split)

lemma total_call [returns_rules]: "returns (\<lambda>_. True) (nav_call event f)"
  by (auto simp: returns_def nav_call_def split: prod.split)

lemma total_case_sum [returns_rules]:
  "(\<And>e. r = Inl e \<Longrightarrow> returns P (f e)) \<Longrightarrow> (\<And>x. r = Inr x \<Longrightarrow> returns P (g x)) \<Longrightarrow>
     returns P (case r of Inl e \<Rightarrow> f e | Inr x \<Rightarrow> g x)"
  by (cases r) auto

lemma total_case_option [returns_rules]:
  "(x = None \<Longrightarrow> returns P m) \<Longrightarrow> (\<And>y. x = Some y \<Longrightarrow> returns P (k y)) \<Longrightarrow>
     returns P (case x of None \<Rightarrow> m | Some y \<Rightarrow> k y)"
  by (cases x) auto

lemma total_case_bool [returns_rules]:
  "returns P m \<Longrightarrow> returns P n \<Longrightarrow> returns P (case b of True \<Rightarrow> m | False \<Rightarrow> n)"
  by (cases b) auto

lemma total_case_prod [returns_rules]:
  "(\<And>x y. returns P (f x y)) \<Longrightarrow> returns P (case z of (x, y) \<Rightarrow> f x y)"
  by (cases z) auto

lemma total_case_intent [returns_rules]:
  "(\<And>n xy. returns P (f n xy)) \<Longrightarrow> (\<And>pose. returns P (g pose)) \<Longrightarrow> (\<And>a b c. returns P (h a b c)) \<Longrightarrow>
     returns P (case intent of SampledNavigate n xy \<Rightarrow> f n xy | MappingReturn pose \<Rightarrow> g pose
       | RecoveryBackup a b c \<Rightarrow> h a b c)"
  by (cases intent) auto

lemmas port_defs = monotonic_def sleep_def is_cancelled_def wait_for_server_def send_goal_def
  response_result_def handle_accepted_def get_result_async_def cancel_goal_async_def
  force_priority_stop_def future_result_def stop_navigation_stage_def goal_started_def
  goal_terminal_def publish_evidence_def from_ledger_def on_ledger_def

lemma total_port [returns_rules]:
  "returns (\<lambda>_. True) (monotonic p)" "returns (\<lambda>_. True) (sleep p s)"
  "returns (\<lambda>_. True) (is_cancelled p)" "returns (\<lambda>_. True) (wait_for_server p kind s)"
  "returns (\<lambda>_. True) (send_goal p goal)" "returns (\<lambda>_. True) (response_result p n)"
  "returns (\<lambda>_. True) (handle_accepted p n)" "returns (\<lambda>_. True) (get_result_async p n)"
  "returns (\<lambda>_. True) (cancel_goal_async p n)" "returns (\<lambda>_. True) (force_priority_stop p s)"
  "returns (\<lambda>_. True) (future_result p n)" "returns (\<lambda>_. True) (stop_navigation_stage p)"
  "returns (\<lambda>_. True) (goal_started p token)" "returns (\<lambda>_. True) (goal_terminal p token)"
  "returns (\<lambda>_. True) (publish_evidence p)" "returns (\<lambda>_. True) (from_ledger g)"
  "returns (\<lambda>_. True) (on_ledger h)" "returns (\<lambda>_. True) (nav_note t)"
  "returns (\<lambda>_. True) (set_locked b)"
  unfolding port_defs nav_note_def set_locked_def by (intro returns_rules TrueI)+

lemma total_fail_safety [returns_rules]: "returns (\<lambda>_. True) (fail_safety p reason errors t)"
  unfolding fail_safety_def Let_def by (intro returns_rules TrueI)

lemma total_new_cleanup_deadline [returns_rules]: "returns (\<lambda>_. True) (new_cleanup_deadline p c)"
  unfolding new_cleanup_deadline_def Let_def by (intro returns_rules TrueI)

lemma total_remaining_cleanup_s [returns_rules]: "returns (\<lambda>_. True) (remaining_cleanup_s p d)"
  unfolding remaining_cleanup_s_def Let_def by (intro returns_rules TrueI)

lemma total_cleanup_pause [returns_rules]: "returns (\<lambda>_. True) (cleanup_pause p c d)"
  unfolding cleanup_pause_def Let_def by (intro returns_rules TrueI)

lemma total_fail_unknown_goal_safely [returns_rules]: "returns (\<lambda>_. True) (fail_unknown_goal_safely p reason errors d)"
  unfolding fail_unknown_goal_safely_def Let_def by (intro returns_rules TrueI)

lemma total_fail_unknown_goal_now [returns_rules]: "returns (\<lambda>_. True) (fail_unknown_goal_now p c reason errors)"
  unfolding fail_unknown_goal_now_def Let_def by (intro returns_rules TrueI)

lemma total_finish_quiescence [returns_rules]: "returns (\<lambda>_. True) (finish_quiescence p token reason t)"
  unfolding finish_quiescence_def Let_def by (intro returns_rules TrueI)

lemma total_response_done [returns_rules]: "returns (\<lambda>_. True) (response_done p c n reason d')"
  unfolding response_done_def Let_def by (intro returns_rules TrueI)

lemma total_result_done [returns_rules]: "returns (\<lambda>_. True) (result_done p n)"
  unfolding result_done_def Let_def by (intro returns_rules TrueI)

lemma total_read_terminal [returns_rules]: "returns (\<lambda>_. True) (read_terminal p fut)"
  unfolding read_terminal_def Let_def by (intro returns_rules TrueI)

lemma total_transition_sampled [returns_rules]: "returns (\<lambda>_. True) (transition_sampled p sequence st n' code detail)"
  unfolding transition_sampled_def Let_def by (intro returns_rules TrueI)

lemma total_transition_sampled_preserving [returns_rules]: "returns (\<lambda>_. True) (transition_sampled_preserving p sequence st n' code detail)"
  unfolding transition_sampled_preserving_def transition_sampled_if_open_def Let_def by (intro returns_rules TrueI)

lemma total_fail_with_evidence [returns_rules]: "returns (\<lambda>_. True) (fail_with_evidence p intent st term reason e)"
  unfolding fail_with_evidence_def Let_def by (intro returns_rules TrueI)

lemma total_drain_late_plans [returns_rules]: "returns (\<lambda>_. True) (drain_late_plans p c d)"
  unfolding drain_late_plans_def Let_def by (intro returns_rules TrueI)

lemma total_bind_value:
  assumes "returns P m" "yields U m" "\<And>x. U x \<Longrightarrow> returns P (k x)"
  shows "returns P (bind m k)"
  unfolding returns_def
proof (intro allI impI)
  fix w assume "P w"
  then obtain r w1 where m: "m w = Some (r, w1)" "P w1" using returnsD [OF assms(1)] by blast
  show "\<exists>r w'. bind m k w = Some (r, w') \<and> P w'"
  proof (cases r)
    case (Inr x)
    then have "U x" using m(1) yieldsD [OF assms(2)] by blast
    then show ?thesis using assms(3) [THEN returnsD, OF _ m(2)] m(1) Inr by (simp add: bind_def)
  qed (use m in \<open>simp add: bind_def\<close>)
qed

text \<open>A budget of the cleanup is finite.\<close>

lemma cleanup_deadline_real:
  assumes "nav_progress p time" "isfinite (tx_safety_timeout_s c)"
  shows "yields isfinite (new_cleanup_deadline p c)"
proof -
  have "yields isfinite (monotonic p)"
    unfolding yields_def isfinite_iff
    using triple_normal [OF clock_triple [OF assms(1)]] by (fastforce simp: since_def)
  then show ?thesis
    unfolding new_cleanup_deadline_def
    by (rule yields_bind_value) (use assms(2) in \<open>auto simp: isfinite_iff intro: yields_ret\<close>)
qed


lemma moves_on_await:
  assumes "nav_progress p time" and poll: "0 < delta" "tx_poll_interval_s c = Fin delta"
  shows "moves_on time d delta (await_terminal_pass p c fut (Fin d))"
  unfolding await_terminal_pass_def
proof (rule moves_onI)
  show "returns (\<lambda>_. True) (bind (monotonic p) (\<lambda>t. if t < Fin d then bind (result_done p fut)
      (\<lambda>done'. if done' then ret (Some ()) else andthen (cleanup_pause p c (Fin d)) (ret None))
      else ret (Some ())))" by (intro returns_rules)
qed (rule round_clock [OF assms(1)], simp, rule round_after [OF later_clock(3) [OF assms(1)]],
    auto intro: round_stops yields_ret round_pause [OF assms])

lemma moves_on_pending:
  assumes "nav_progress p time" and poll: "0 < delta" "tx_poll_interval_s c = Fin delta"
  shows "moves_on time d delta (pending_pass p c response reason (Fin d))"
  unfolding pending_pass_def
proof (rule moves_onI)
  show "returns (\<lambda>_. True) (bind (response_done p c response reason (Some (Fin d))) (\<lambda>done'.
      if done' then ret (Some ()) else bind (monotonic p) (\<lambda>t.
        if t < Fin d then andthen (cleanup_pause p c (Fin d)) (ret None) else ret (Some ()))))"
    by (intro returns_rules)
next
  fix T
  have "round_from time d delta T (bind (monotonic p) (\<lambda>t.
      if t < Fin d then andthen (cleanup_pause p c (Fin d)) (ret None) else ret (Some ())))"
    by (rule round_clock [OF assms(1)]) (auto intro: yields_ret round_pause [OF assms])
  then show "round_from time d delta T (bind (response_done p c response reason (Some (Fin d)))
      (\<lambda>done'. if done' then ret (Some ()) else bind (monotonic p) (\<lambda>t.
        if t < Fin d then andthen (cleanup_pause p c (Fin d)) (ret None) else ret (Some ()))))"
    by (intro round_after [OF later_clock(4) [OF assms(1)]]) (auto intro: round_stops yields_ret)
qed

text \<open>The cleanup ends.\<close>

definition timed_config :: "Nav2MotionTransaction \<Rightarrow> bool" where
  "timed_config c \<longleftrightarrow> isfinite (tx_safety_timeout_s c) \<and> (\<exists>delta > 0. tx_poll_interval_s c = Fin delta)"

lemma timed_configE:
  assumes "timed_config c"
  obtains delta where "0 < delta" "tx_poll_interval_s c = Fin delta" "isfinite (tx_safety_timeout_s c)"
  using assms by (auto simp: timed_config_def)

lemma total_cancel_stop:
  assumes "nav_progress p time" "timed_config c" "isfinite d"
  shows "returns (\<lambda>_. True) (cancel_stop_and_prove_terminal p c handle fut reason token d)"
proof -
  obtain s where d: "d = Fin s" using assms(3) by (auto simp: isfinite_iff)
  obtain delta where poll: "0 < delta" "tx_poll_interval_s c = Fin delta"
    using assms(2) by (rule timed_configE)
  have loop [returns_rules]: "returns (\<lambda>_. True) (repeat_until (await_terminal_pass p c f d))" for f
    unfolding d by (rule returns_loop [OF moves_on_await [OF assms(1) poll] poll(1)])
  show ?thesis
    unfolding cancel_stop_and_prove_terminal_def Let_def by (intro returns_rules loop)
qed

lemma total_resolve_pending:
  assumes "nav_progress p time" "timed_config c" "isfinite d"
  shows "returns (\<lambda>_. True) (resolve_pending_goal_safely p c response reason token d)"
proof -
  obtain s where d: "d = Fin s" using assms(3) by (auto simp: isfinite_iff)
  obtain delta where poll: "0 < delta" "tx_poll_interval_s c = Fin delta"
    using assms(2) by (rule timed_configE)
  have loop: "returns (\<lambda>_. True) (repeat_until (pending_pass p c response reason d))"
    unfolding d by (rule returns_loop [OF moves_on_pending [OF assms(1) poll] poll(1)])
  show ?thesis
    unfolding resolve_pending_goal_safely_def
    by (intro returns_rules loop total_cancel_stop [OF assms])
qed

lemma timed_configD: "timed_config c \<Longrightarrow> isfinite (tx_safety_timeout_s c)"
  by (simp add: timed_config_def)

lemma total_cleanup:
  assumes "nav_progress p time" "timed_config c"
  shows "returns (\<lambda>_. True) (cancel_stop_and_prove_terminal_now p c handle fut reason token)"
    and "returns (\<lambda>_. True) (abandon_pending p c intent response token st reason e)"
proof -
  note budget = total_bind_value [OF total_new_cleanup_deadline cleanup_deadline_real [OF assms(1) timed_configD [OF assms(2)]]]
  show "returns (\<lambda>_. True) (cancel_stop_and_prove_terminal_now p c handle fut reason token)"
    unfolding cancel_stop_and_prove_terminal_now_def by (intro budget total_cancel_stop [OF assms])
  show "returns (\<lambda>_. True) (abandon_pending p c intent response token st reason e)"
    unfolding abandon_pending_def
    by (rule budget) (intro returns_rules total_resolve_pending [OF assms])
qed

lemma total_abandon_goal:
  assumes "nav_progress p time" "timed_config c"
  shows "returns (\<lambda>_. True) (abandon_goal p c intent handle fut' token st reason e)"
    and "returns (\<lambda>_. True) (fail_accepted_sampled_safely p c intent handle fut' reason token)"
  unfolding fail_accepted_sampled_safely_def abandon_goal_def
  by (intro returns_rules total_cleanup [OF assms])+


lemma total_running_plan:
  assumes "nav_progress p time" "timed_config c"
  shows "returns (\<lambda>_. True) (audit_running_plan p c intent handle fut token)"
    and "returns (\<lambda>_. True) (audit_final_plan p c intent d handle fut token)"
    and "returns (\<lambda>_. True) (record_acceptance p c intent handle fut token)"
  unfolding audit_running_plan_def audit_final_plan_def record_acceptance_def Let_def
  by (intro returns_rules total_abandon_goal [OF assms])+

lemma later_case_intent:
  "(\<And>n xy. later time (f n xy)) \<Longrightarrow> (\<And>pose. later time (g pose)) \<Longrightarrow> (\<And>a b c. later time (h a b c)) \<Longrightarrow>
     later time (case intent of SampledNavigate n xy \<Rightarrow> f n xy | MappingReturn pose \<Rightarrow> g pose
       | RecoveryBackup a b c \<Rightarrow> h a b c)"
  by (cases intent) auto

lemma later_running_plan: "later time (audit_running_plan p c intent handle fut token)"
proof -
  have read: "later time (attempt (from_ledger g))" for g
    unfolding from_ledger_def by (rule later_read) (auto simp: advances_def)
  have branch: "later time (case r of Inl e \<Rightarrow> fail_accepted_sampled_safely p c intent handle fut (f e) token
      | Inr g \<Rightarrow> if b g then abandon_goal p c intent handle fut token ABORTED why e' else skip)"
    for r f b why e'
    by (auto intro: later_ret gives_up_later gives_up_abandon split: sum.split)
  show ?thesis
    unfolding audit_running_plan_def Let_def
    by (rule later_case_intent) (intro later_bind read branch later_ret)+
qed

lemma yields_mono: "yields U m \<Longrightarrow> (\<And>x. U x \<Longrightarrow> V x) \<Longrightarrow> yields V m"
  by (auto simp: yields_def)

lemma round_if:
  "(b \<Longrightarrow> round_from time d delta T m) \<Longrightarrow> (\<not> b \<Longrightarrow> round_from time d delta T n) \<Longrightarrow>
     round_from time d delta T (if b then m else n)"
  by simp

lemma round_case_sum:
  "(\<And>e. round_from time d delta T (f e)) \<Longrightarrow> (\<And>x. round_from time d delta T (g x)) \<Longrightarrow>
     round_from time d delta T (case r of Inl e \<Rightarrow> f e | Inr x \<Rightarrow> g x)"
  by (cases r) auto

lemma moves_on_response:
  assumes "nav_progress p time" "timed_config c" and poll: "0 < delta" "tx_poll_interval_s c = Fin delta"
  shows "moves_on time d delta (response_pass p c intent (Fin d) response token)"
proof (rule moves_onI)
  show "returns (\<lambda>_. True) (response_pass p c intent (Fin d) response token)"
    unfolding response_pass_def Let_def by (intro returns_rules total_cleanup [OF assms(1,2)])
next
  fix T
  have tail: "round_from time d delta T (bind (monotonic p) (\<lambda>t. if b \<or> Fin d \<le> t
      then abandon_pending p c intent response token st reason e
      else andthen (sleep p (Fin delta)) (ret None)))" for b st reason e
    by (rule round_clock [OF assms(1)])
      (auto intro: round_sleep [OF assms(1) poll(1)] round_stops yields_mono [OF gives_up_abandon(2)])
  show "round_from time d delta T (response_pass p c intent (Fin d) response token)"
    unfolding response_pass_def Let_def
    by (rule round_after [OF later_clock(4) [OF assms(1)]], rule round_if, rule round_stops,
        rule yields_ret, simp, rule round_after [OF later_clock(2) [OF assms(1)]],
        rule round_case_sum, rule round_stops, rule yields_mono [OF gives_up_abandon(2)], simp,
        simp only: poll, rule tail)
qed

lemma moves_on_motion:
  assumes "nav_progress p time" "timed_config c" and poll: "0 < delta" "tx_poll_interval_s c = Fin delta"
  shows "moves_on time d delta (motion_pass p c intent (Fin d) handle fut token)"
proof (rule moves_onI)
  show "returns (\<lambda>_. True) (motion_pass p c intent (Fin d) handle fut token)"
    unfolding motion_pass_def Let_def
    by (intro returns_rules total_abandon_goal [OF assms(1,2)] total_running_plan [OF assms(1,2)])
next
  fix T
  have tail: "round_from time d delta T (bind (monotonic p) (\<lambda>t. if Fin d \<le> t
      then abandon_goal p c intent handle fut token st reason e
      else andthen (sleep p (Fin delta)) (ret None)))" for st reason e
    by (rule round_clock [OF assms(1)])
      (auto intro: round_sleep [OF assms(1) poll(1)] yields_mono [OF gives_up_abandon(1)])
  show "round_from time d delta T (motion_pass p c intent (Fin d) handle fut token)"
    unfolding motion_pass_def Let_def andthen_def [of "audit_running_plan p c intent handle fut token"]
    by (rule round_after [OF later_clock(3) [OF assms(1)]], rule round_if, rule round_stops,
        rule yields_ret, simp, rule round_after [OF later_clock(2) [OF assms(1)]],
        rule round_case_sum, rule round_stops, rule yields_mono [OF gives_up_abandon(1)], simp,
        rule round_if, rule round_stops, rule yields_mono [OF gives_up_abandon(1)], simp,
        rule round_after [OF later_running_plan], simp only: poll, rule tail)
qed


section \<open>The whole transaction\<close>

lemma total_execute_motion:
  assumes "nav_progress p time" "timed_config c"
  shows "returns (\<lambda>_. True) (execute_motion p c intent (Fin d))"
proof -
  obtain delta where poll: "0 < delta" "tx_poll_interval_s c = Fin delta"
    using assms(2) by (rule timed_configE)
  note loops = returns_loop [OF moves_on_response [OF assms poll] poll(1)]
    returns_loop [OF moves_on_motion [OF assms poll] poll(1)]
  have "returns (\<lambda>_. True) (finish_motion p c intent (Fin d) handle fut token)" for handle fut token
    unfolding finish_motion_def Let_def
    by (intro returns_rules total_abandon_goal [OF assms] total_running_plan [OF assms])
  moreover have "returns (\<lambda>_. True) (motion_preflight p intent (Fin d))"
    unfolding motion_preflight_def Let_def by (intro returns_rules)
  moreover have "returns (\<lambda>_. True) (begin_quiescence p label)" for label
    unfolding begin_quiescence_def Let_def by (intro returns_rules TrueI)
  moreover have "returns (\<lambda>_. True) (read_accepted_handle p c intent response token)" for response token
    unfolding read_accepted_handle_def Let_def by (intro returns_rules)
  moreover have "returns (\<lambda>_. True) (open_result_future p c intent handle token)" for handle token
    unfolding open_result_future_def Let_def by (intro returns_rules total_cleanup [OF assms])
  moreover have "returns (\<lambda>_. True) (dispatch_goal p c intent goal)" for goal
    unfolding dispatch_goal_def by (intro returns_rules)
  ultimately show ?thesis
    unfolding execute_motion_def by (intro returns_rules loops total_running_plan [OF assms])
qed

lemma total_intents:
  assumes "nav_progress p time" "timed_config c"
  shows "returns (\<lambda>_. True) (execute_sampled p c sequence xy (Fin d))"
    and "returns (\<lambda>_. True) (execute_backup p c intent (Fin d))"
  unfolding execute_sampled_def sampled_body_def record_success_def execute_backup_def Let_def
  by (intro returns_rules total_execute_motion [OF assms])+

lemma transaction_timed: "transaction_init c = Inr c \<Longrightarrow> timed_config c"
  by (cases "tx_poll_interval_s c")
    (auto simp: transaction_init_def timed_config_def zero_fin split: if_splits)

text \<open>C29. The transaction ends. With the timeouts the constructor accepts, a clock with finite readings
  which no call turns back, and a sleep that lasts at least as long as it was asked to, every motion returns or raises: neither the wait for the goal response, nor the wait for the result, nor
  the waits of the cleanup go on for ever, whatever else the runtime answers.\<close>

theorem transaction_always_ends:
  assumes "nav_progress p time" "transaction_init c = Inr c"
  shows "\<exists>r w'. execute p c intent deadline_monotonic w = Some (r, w')"
proof (cases deadline_monotonic)
  case (Fin d)
  note real = transaction_timed [OF assms(2)]
  have "returns (\<lambda>_. True) (execute p c intent (Fin d))"
    unfolding execute_def require_success_def
    by (intro returns_rules TrueI total_execute_motion [OF assms(1) real]
        total_intents [OF assms(1) real])
  from returnsD [OF this, of w] show ?thesis unfolding Fin by blast
qed (simp_all add: execute_def proc_defs)

lemma prompt_progress: "nav_progress (prompt_port status) id"
  by (auto simp: nav_progress_def advances_def prompt_port_def)

theorem transaction_always_ends_witness:
  "nav_progress (prompt_port 6) id \<and> transaction_init prompt_config = Inr prompt_config
   \<and> (\<exists>r w'. execute (prompt_port 6) prompt_config (RecoveryBackup (Fin 0.3) (Fin 0.1) (Fin 5)) (Fin 20) prompt_world = Some (r, w'))"
proof -
  have init: "transaction_init prompt_config = Inr prompt_config"
    by (simp add: transaction_init_def prompt_config_def zero_fin)
  show ?thesis using transaction_always_ends [OF prompt_progress init] prompt_progress init by blast
qed

end
