(* ===== verification/Nav2_Evidence.thy ===== *)
theory Nav2_Evidence
  imports Nav2_Progress
begin

text \<open>
  What the goal ledger shows of a sampled navigation: a call of the runtime may let plan callbacks
  record plans, and nothing else touches the ledger behind the transaction.
\<close>

section \<open>The runtime and the ledger\<close>

fun is_plan_call :: "ledger_call \<Rightarrow> bool" where
  "is_plan_call (RecordPlan _ _ _ _) = True"
| "is_plan_call _ = False"

definition plans_only :: "NavigationGoalLedger \<Rightarrow> NavigationGoalLedger \<Rightarrow> bool" where
  "plans_only l l' \<longleftrightarrow> (\<exists>cs. list_all is_plan_call cs \<and> l' = run ledger_step cs l)"

definition ledger_safe :: "('e nav_env \<Rightarrow> 'a \<times> 'e nav_env) \<Rightarrow> bool" where
  "ledger_safe f \<longleftrightarrow> (\<forall>env. plans_only (snd env) (snd (snd (f env))))"

definition ledger_port :: "'e nav_port \<Rightarrow> bool" where
  "ledger_port p \<longleftrightarrow>
     ledger_safe (np_monotonic p) \<and> (\<forall>s. ledger_safe (\<lambda>env. ((), np_sleep p s env)))
     \<and> ledger_safe (np_is_cancelled p) \<and> ledger_safe (np_evidence_timestamp_ns p)
     \<and> (\<forall>kind s. ledger_safe (np_wait_for_server p kind s)) \<and> (\<forall>goal. ledger_safe (np_send_goal p goal))
     \<and> (\<forall>n. ledger_safe (np_response_done p n)) \<and> (\<forall>n. ledger_safe (np_response_result p n))
     \<and> (\<forall>n. ledger_safe (np_accepted p n)) \<and> (\<forall>n. ledger_safe (np_get_result_async p n))
     \<and> (\<forall>n. ledger_safe (np_cancel_goal_async p n)) \<and> (\<forall>n. ledger_safe (np_result_done p n))
     \<and> (\<forall>n. ledger_safe (np_result p n)) \<and> (\<forall>s. ledger_safe (np_force_priority_stop p s))
     \<and> ledger_safe (np_stop_navigation_stage p) \<and> (\<forall>t. ledger_safe (np_nav2_goal_started p t))
     \<and> (\<forall>t. ledger_safe (np_nav2_goal_terminal p t)) \<and> ledger_safe (np_navigation_evidence_changed p)"

text \<open>The evidence clock answers with a time that is not negative.\<close>

definition stamping_port :: "'e nav_port \<Rightarrow> bool" where
  "stamping_port p \<longleftrightarrow> (\<forall>env. \<exists>n \<ge> 0. fst (np_evidence_timestamp_ns p env) = Inr n)"

definition goal_status :: "int \<Rightarrow> NavigationGoalLedger \<Rightarrow> NavigationGoalStatus option" where
  "goal_status s l = (case ledger_get s l of Inl _ \<Rightarrow> None | Inr g \<Rightarrow> Some (ng_status g))"

lemma plan_step_status: "is_plan_call c \<Longrightarrow> goal_status s (ledger_step c l) = goal_status s l"
  by (cases c) (auto simp: ledger_step_def ledger_record_plan_def goal_status_def ledger_get_def
      ledger_index_def Let_def nth_update_if split: sum.splits)

lemma plans_only_status: "plans_only l l' \<Longrightarrow> goal_status s l' = goal_status s l"
proof -
  have "list_all is_plan_call cs \<Longrightarrow> goal_status s (run ledger_step cs l) = goal_status s l" for cs
    by (induction cs arbitrary: l) (simp_all add: plan_step_status)
  then show "plans_only l l' \<Longrightarrow> goal_status s l' = goal_status s l" by (auto simp: plans_only_def)
qed

lemma transition_status:
  assumes "ledger_transition s st ts n code detail l = Inr l'"
  shows "goal_status s l' = Some st"
  using assms
  by (auto simp: ledger_transition_def goal_status_def ledger_get_def ledger_index_def Let_def
      split: sum.splits if_splits)

lemma transition_accepted:
  assumes "goal_status s l = Some st0" "\<not> status_terminal st0" "0 \<le> ts"
  shows "\<exists>l'. ledger_transition s st ts n code detail l = Inr l'"
  using assms
  by (auto simp: ledger_transition_def goal_status_def ledger_get_def Let_def split: sum.splits)

section \<open>Procedures that keep a property of the status\<close>

named_theorems keeps_rules \<open>procedures that keep the status of the goal within a set\<close>

definition status_in :: "int \<Rightarrow> NavigationGoalStatus set \<Rightarrow> 'e nav_world \<Rightarrow> bool" where
  "status_in s S w \<longleftrightarrow> (\<exists>st \<in> S. goal_status s (snd (nw_env w)) = Some st)"

definition keeps :: "int \<Rightarrow> NavigationGoalStatus set \<Rightarrow> ('e, 'a) nav \<Rightarrow> bool" where
  "keeps s S m \<longleftrightarrow> triple (status_in s S) m (\<lambda>_. status_in s S) (\<lambda>_. status_in s S)"

lemma status_in_safe:
  assumes "ledger_safe f" "f (nw_env w) = (r, env)"
  shows "status_in s S (w\<lparr>nw_env := env\<rparr>) \<longleftrightarrow> status_in s S w"
proof -
  have "plans_only (snd (nw_env w)) (snd (snd (f (nw_env w))))" using assms(1) by (simp only: ledger_safe_def)
  then have "plans_only (snd (nw_env w)) (snd env)" using assms(2) by simp
  from plans_only_status [OF this] show ?thesis by (simp add: status_in_def)
qed

lemma status_in_trace [simp]:
  "status_in s S (w\<lparr>nw_trace := t\<rparr>) \<longleftrightarrow> status_in s S w"
  "status_in s S (w\<lparr>nw_locked := b\<rparr>) \<longleftrightarrow> status_in s S w"
  "status_in s S (w\<lparr>nw_token_sequence := n\<rparr>) \<longleftrightarrow> status_in s S w"
  by (simp_all add: status_in_def)

lemma keeps_read: "ledger_safe f \<Longrightarrow> keeps s S (nav_read f)"
  by (auto simp: keeps_def triple_def nav_read_def status_in_safe split: prod.split sum.split)

lemma keeps_call: "ledger_safe f \<Longrightarrow> keeps s S (nav_call event f)"
  unfolding keeps_def triple_def nav_call_def
  by (auto simp: status_in_safe split: prod.split sum.split)

lemma keeps_basic [keeps_rules]:
  "keeps s S (ret x)" "keeps s S (raise e)" "keeps s S skip" "keeps s S (guard b e)"
  "keeps s S (nav_note t)" "keeps s S (set_locked b)" "keeps s S (from_ledger g)"
  by (auto simp: keeps_def triple_def proc_defs nav_note_def set_locked_def from_ledger_def nav_read_def
      status_in_def split: prod.split sum.split)

lemma keeps_bind [keeps_rules]: "keeps s S m \<Longrightarrow> (\<And>x. keeps s S (k x)) \<Longrightarrow> keeps s S (bind m k)"
  unfolding keeps_def by (rule triple_bind)

lemma keeps_andthen [keeps_rules]: "keeps s S m \<Longrightarrow> keeps s S k \<Longrightarrow> keeps s S (andthen m k)"
  unfolding keeps_def by (rule triple_andthen)

lemma keeps_catch [keeps_rules]: "keeps s S m \<Longrightarrow> (\<And>e. keeps s S (h e)) \<Longrightarrow> keeps s S (catch m h)"
  unfolding keeps_def by (rule triple_catch)

lemma keeps_attempt [keeps_rules]: "keeps s S m \<Longrightarrow> keeps s S (attempt m)"
  unfolding keeps_def by (rule triple_attempt)

lemma keeps_repeat [keeps_rules]: "keeps s S m \<Longrightarrow> keeps s S (repeat_until m)"
  unfolding keeps_def by (rule triple_repeat_until, erule triple_weaken) (auto split: option.split)

lemma keeps_cases [keeps_rules]:
  "(\<And>e. keeps s S (f e)) \<Longrightarrow> (\<And>x. keeps s S (g x)) \<Longrightarrow> keeps s S (case r of Inl e \<Rightarrow> f e | Inr x \<Rightarrow> g x)"
  "keeps s S m \<Longrightarrow> (\<And>y. keeps s S (k y)) \<Longrightarrow> keeps s S (case o' of None \<Rightarrow> m | Some y \<Rightarrow> k y)"
  "keeps s S m \<Longrightarrow> keeps s S n \<Longrightarrow> keeps s S (if b then m else n)"
  "keeps s S m \<Longrightarrow> keeps s S n \<Longrightarrow> keeps s S (case b of True \<Rightarrow> m | False \<Rightarrow> n)"
  by (auto split: sum.split option.split bool.split)


lemma keeps_port:
  assumes "ledger_port p"
  shows "keeps s S (monotonic p)" "keeps s S (sleep p x)" "keeps s S (is_cancelled p)"
    "keeps s S (wait_for_server p kind x)" "keeps s S (send_goal p goal)"
    "keeps s S (response_result p n)" "keeps s S (handle_accepted p n)"
    "keeps s S (get_result_async p n)" "keeps s S (cancel_goal_async p n)"
    "keeps s S (force_priority_stop p x)" "keeps s S (future_result p n)"
    "keeps s S (stop_navigation_stage p)" "keeps s S (goal_started p token)"
    "keeps s S (goal_terminal p token)" "keeps s S (publish_evidence p)"
    "keeps s S (nav_read (np_response_done p n))" "keeps s S (nav_read (np_result_done p n))"
    "keeps s S (nav_read (np_evidence_timestamp_ns p))"
proof -
  have "ledger_safe (\<lambda>env. case np_monotonic p env of (t, env') \<Rightarrow> (Inr t :: pyfloat result, env'))"
    using assms unfolding ledger_port_def ledger_safe_def by (auto simp: case_prod_beta)
  moreover have "ledger_safe (\<lambda>env. (Inr () :: unit result, np_sleep p x env))"
    using assms unfolding ledger_port_def ledger_safe_def by auto
  ultimately show "keeps s S (monotonic p)" "keeps s S (sleep p x)"
    unfolding monotonic_def sleep_def by (simp_all add: keeps_read)
qed (use assms in \<open>simp_all add: port_defs ledger_port_def keeps_read keeps_call\<close>)

lemma keeps_transition:
  assumes "ledger_port p" "st \<in> S"
  shows "keeps s S (transition_sampled p s st n code detail)"
proof -
  have "keeps s S (on_ledger (ledger_transition s st ts n code detail))" for ts
    using assms(2) transition_status [of s st ts n code detail]
    by (auto simp: keeps_def triple_def on_ledger_def nav_read_def status_in_def split: prod.split sum.split)
  then show ?thesis
    unfolding transition_sampled_def by (intro keeps_rules keeps_port [OF assms(1)])
qed

lemma keeps_preserving:
  assumes "ledger_port p" "st \<in> S"
  shows "keeps s S (transition_sampled_preserving p s st n code detail)"
  unfolding transition_sampled_preserving_def transition_sampled_if_open_def
  by (intro keeps_rules keeps_transition [OF assms])

lemma keeps_fail_safety:
  assumes "ledger_port p"
  shows "keeps s S (fail_safety p reason errors t)"
  unfolding fail_safety_def Let_def
  by (intro keeps_rules keeps_port [OF assms])+

lemma keeps_clock:
  assumes "ledger_port p"
  shows "keeps s S (new_cleanup_deadline p c)"
    and "keeps s S (remaining_cleanup_s p d)"
    and "keeps s S (cleanup_pause p c d)"
    and "keeps s S (result_done p n)"
    and "keeps s S (drain_late_plans p c d)"
  unfolding new_cleanup_deadline_def remaining_cleanup_s_def cleanup_pause_def result_done_def drain_late_plans_def Let_def
  by (intro keeps_rules keeps_port [OF assms])+

lemma keeps_quiescence:
  assumes "ledger_port p"
  shows "keeps s S (finish_quiescence p token reason t)"
  unfolding finish_quiescence_def begin_quiescence_def Let_def
  by (intro keeps_rules keeps_port [OF assms] keeps_fail_safety [OF assms])+

lemma keeps_fail_unknown:
  assumes "ledger_port p"
  shows "keeps s S (fail_unknown_goal_safely p reason errors d)"
    and "keeps s S (fail_unknown_goal_now p c reason errors)"
  unfolding fail_unknown_goal_now_def fail_unknown_goal_safely_def
  by (intro keeps_rules keeps_port [OF assms] keeps_fail_safety [OF assms] keeps_clock [OF assms])+

lemma keeps_response_done:
  assumes "ledger_port p"
  shows "keeps s S (response_done p c n reason d')"
  unfolding response_done_def Let_def
  by (intro keeps_rules keeps_port [OF assms] keeps_fail_unknown [OF assms])+

lemma keeps_read_terminal:
  assumes "ledger_port p"
  shows "keeps s S (read_terminal p fut)"
  unfolding read_terminal_def
  by (intro keeps_rules keeps_port [OF assms])+

lemma keeps_loops:
  assumes "ledger_port p"
  shows "keeps s S (await_terminal_pass p c n d)"
    and "keeps s S (pending_pass p c response reason d)"
  unfolding await_terminal_pass_def pending_pass_def
  by (intro keeps_rules keeps_port [OF assms] keeps_clock [OF assms] keeps_response_done [OF assms])+

lemma keeps_cancel_stop:
  assumes "ledger_port p"
  shows "keeps s S (cancel_stop_and_prove_terminal p c handle fut reason token d)"
    and "keeps s S (cancel_stop_and_prove_terminal_now p c handle fut reason token)"
  unfolding cancel_stop_and_prove_terminal_now_def cancel_stop_and_prove_terminal_def Let_def
  by (intro keeps_rules keeps_port [OF assms] keeps_clock [OF assms] keeps_loops [OF assms] keeps_read_terminal [OF assms] keeps_fail_safety [OF assms])+

lemma keeps_resolve:
  assumes "ledger_port p"
  shows "keeps s S (resolve_pending_goal_safely p c response reason token d)"
  unfolding resolve_pending_goal_safely_def
  by (intro keeps_rules keeps_port [OF assms] keeps_loops [OF assms] keeps_response_done [OF assms] keeps_fail_unknown [OF assms] keeps_quiescence [OF assms] keeps_cancel_stop [OF assms])+


section \<open>A motion never marks its goal as succeeded\<close>

abbreviation unsucceeded :: "int \<Rightarrow> ('e, 'a) nav \<Rightarrow> bool" where
  "unsucceeded s m \<equiv> keeps s (- {SUCCEEDED}) m"

lemma unsucceeded_abandon:
  assumes "ledger_port p" "st \<noteq> SUCCEEDED"
  shows "unsucceeded s (abandon_goal p c (SampledNavigate s xy) handle fut token st reason e)"
    and "unsucceeded s (abandon_pending p c (SampledNavigate s xy) response token st reason e)"
  unfolding abandon_goal_def abandon_pending_def fail_with_evidence_def MotionIntent.case
  using assms(2)
  by (intro keeps_rules keeps_clock [OF assms(1)] keeps_cancel_stop [OF assms(1)]
      keeps_resolve [OF assms(1)] keeps_preserving [OF assms(1)] ComplI, simp)+

lemma unsucceeded_audit:
  assumes "ledger_port p"
  shows "unsucceeded s (audit_running_plan p c (SampledNavigate s xy) handle fut token)"
    and "unsucceeded s (audit_final_plan p c (SampledNavigate s xy) d handle fut token)"
    and "unsucceeded s (record_acceptance p c (SampledNavigate s xy) handle fut token)"
  unfolding audit_running_plan_def audit_final_plan_def record_acceptance_def
    fail_accepted_sampled_safely_def MotionIntent.case Let_def
  by (intro keeps_rules keeps_clock [OF assms] unsucceeded_abandon [OF assms]
      keeps_transition [OF assms], simp_all)+

lemma unsucceeded_motion:
  assumes "ledger_port p"
  shows "unsucceeded s (execute_motion p c (SampledNavigate s xy) d)"
proof -
  let ?i = "SampledNavigate s xy"
  note parts = keeps_port [OF assms] keeps_clock [OF assms] keeps_response_done [OF assms]
    keeps_fail_unknown [OF assms] keeps_quiescence [OF assms] keeps_read_terminal [OF assms]
    keeps_cancel_stop [OF assms] unsucceeded_abandon [OF assms] unsucceeded_audit [OF assms]
  have "unsucceeded s (motion_preflight p ?i d)"
    unfolding motion_preflight_def Let_def goal_for_intent.simps prod.case
    by (intro keeps_rules parts)
  moreover have "unsucceeded s (begin_quiescence p label)" for label
  proof -
    have "unsucceeded s (query (\<lambda>w. (nw_token_sequence w + 1, w\<lparr>nw_token_sequence := nw_token_sequence w + 1\<rparr>)))"
      by (simp add: keeps_def triple_def query_def)
    then show ?thesis unfolding begin_quiescence_def Let_def by (intro keeps_rules parts)
  qed
  moreover have "unsucceeded s (dispatch_goal p c ?i goal)" for goal
    unfolding dispatch_goal_def by (intro keeps_rules parts)
  moreover have "unsucceeded s (response_pass p c ?i d response token)" for response token
    unfolding response_pass_def Let_def by (intro keeps_rules parts, simp_all)
  moreover have "unsucceeded s (read_accepted_handle p c ?i response token)" for response token
    unfolding read_accepted_handle_def Let_def by (intro keeps_rules parts)
  moreover have "unsucceeded s (open_result_future p c ?i handle token)" for handle token
    unfolding open_result_future_def Let_def by (intro keeps_rules parts)
  moreover have "unsucceeded s (motion_pass p c ?i d handle fut token)" for handle fut token
    unfolding motion_pass_def Let_def by (intro keeps_rules parts, simp_all)
  moreover have "unsucceeded s (finish_motion p c ?i d handle fut token)" for handle fut token
    unfolding finish_motion_def Let_def by (intro keeps_rules parts, simp_all)
  ultimately show ?thesis
    unfolding execute_motion_def goal_for_intent.simps prod.case by (intro keeps_rules parts)
qed

section \<open>The ledger after a sampled navigation\<close>

text \<open>Succeeded only with the audited proof of it.\<close>

definition honest :: "int \<Rightarrow> 'e nav_world \<Rightarrow> bool" where
  "honest s w \<longleftrightarrow> (\<exists>st. goal_status s (snd (nw_env w)) = Some st
     \<and> (st = SUCCEEDED \<longrightarrow> on_trace proved_success w))"

lemma honest_cases:
  "honest s w \<longleftrightarrow> status_in s (- {SUCCEEDED}) w \<or> status_in s {SUCCEEDED} w \<and> on_trace proved_success w"
  by (auto simp: honest_def status_in_def)

lemma triple_conj:
  "triple P m Q R \<Longrightarrow> triple P' m Q' R' \<Longrightarrow>
     triple (\<lambda>w. P w \<and> P' w) m (\<lambda>x w. Q x w \<and> Q' x w) (\<lambda>e w. R e w \<and> R' e w)"
  unfolding triple_def by (auto split: option.splits sum.splits)

lemma triple_quiet: "quiet m \<Longrightarrow> triple (on_trace A) m (\<lambda>_. on_trace A) (\<lambda>_. on_trace A)"
  by (auto simp: triple_def on_trace_def quietD split: option.split sum.split)

lemma transition_marks:
  assumes "ledger_port p"
  shows "triple (\<lambda>_. True) (transition_sampled p s st n code detail) (\<lambda>_. status_in s {st}) (\<lambda>_ _. True)"
  unfolding transition_sampled_def
proof (rule triple_bind [where M = "\<lambda>_ _. True"], simp add: triple_def split: option.split sum.split,
    rule triple_andthen)
  fix ts
  show "triple (\<lambda>_. True) (on_ledger (ledger_transition s st ts n code detail))
      (\<lambda>_. status_in s {st}) (\<lambda>_ _. True)"
    using transition_status [of s st ts n code detail]
    by (auto simp: triple_def on_ledger_def nav_read_def status_in_def split: prod.split sum.split)
  show "triple (status_in s {st}) (publish_evidence p) (\<lambda>_. status_in s {st}) (\<lambda>_ _. True)"
    using keeps_port(15) [OF assms, of s "{st}"] unfolding keeps_def by (rule triple_weaken) auto
qed

text \<open>On an open goal the transition is taken, whether or not it can be published.\<close>

lemma stamp_triple:
  assumes "ledger_port p" "stamping_port p"
  shows "triple (status_in s S) (nav_read (np_evidence_timestamp_ns p)) (\<lambda>ts w. 0 \<le> ts \<and> status_in s S w) R"
proof (rule triple_read)
  fix w :: "'a nav_world" assume "status_in s S w"
  moreover have "ledger_safe (np_evidence_timestamp_ns p)" using assms(1) by (simp add: ledger_port_def)
  moreover obtain ts where "0 \<le> ts" "fst (np_evidence_timestamp_ns p (nw_env w)) = Inr ts"
    using assms(2) unfolding stamping_port_def by blast
  ultimately show "case fst (np_evidence_timestamp_ns p (nw_env w)) of
      Inl e \<Rightarrow> R e (w\<lparr>nw_env := snd (np_evidence_timestamp_ns p (nw_env w))\<rparr>)
    | Inr ts \<Rightarrow> 0 \<le> ts \<and> status_in s S (w\<lparr>nw_env := snd (np_evidence_timestamp_ns p (nw_env w))\<rparr>)"
    by (simp add: status_in_safe [OF _ prod.collapse [symmetric]])
qed

lemma on_ledger_closes:
  "triple (\<lambda>w. 0 \<le> ts \<and> status_in s {st. \<not> status_terminal st} w)
     (on_ledger (ledger_transition s st ts n code detail)) (\<lambda>_. status_in s {st}) R"
  unfolding on_ledger_def
proof (rule triple_read)
  fix w :: "'a nav_world" assume w: "0 \<le> ts \<and> status_in s {st. \<not> status_terminal st} w"
  obtain e l where env: "nw_env w = (e, l)" by (cases "nw_env w")
  then obtain st0 where st0: "goal_status s l = Some st0" "\<not> status_terminal st0" "0 \<le> ts"
    using w by (auto simp: status_in_def)
  obtain l' where l': "ledger_transition s st ts n code detail l = Inr l'"
    using transition_accepted [OF st0] by blast
  show "case fst (case nw_env w of (e, l) \<Rightarrow> case ledger_transition s st ts n code detail l of
        Inl x \<Rightarrow> (Inl x, e, l) | Inr l' \<Rightarrow> (Inr (), e, l')) of
      Inl x \<Rightarrow> R x (w\<lparr>nw_env := snd (case nw_env w of (e, l) \<Rightarrow> case ledger_transition s st ts n code detail l of
        Inl x \<Rightarrow> (Inl x, e, l) | Inr l' \<Rightarrow> (Inr (), e, l'))\<rparr>)
    | Inr u \<Rightarrow> status_in s {st} (w\<lparr>nw_env := snd (case nw_env w of (e, l) \<Rightarrow>
        case ledger_transition s st ts n code detail l of
        Inl x \<Rightarrow> (Inl x, e, l) | Inr l' \<Rightarrow> (Inr (), e, l'))\<rparr>)"
    using transition_status [OF l'] by (simp add: env l' status_in_def)
qed

lemma transition_closes:
  assumes "ledger_port p" "stamping_port p"
  shows "triple (status_in s {st. \<not> status_terminal st}) (transition_sampled p s st n code detail)
     (\<lambda>_. status_in s {st}) (\<lambda>_. status_in s {st})"
  unfolding transition_sampled_def
  by (rule triple_bind [OF stamp_triple [OF assms]], rule triple_andthen [OF on_ledger_closes])
    (rule keeps_port(15) [OF assms(1), unfolded keeps_def])

lemma preserving_closes:
  assumes "ledger_port p" "stamping_port p" "status_terminal st" "st \<noteq> SUCCEEDED"
  shows "triple (honest s) (transition_sampled_preserving p s st n code detail)
     (\<lambda>_ w. honest s w \<and> status_in s {st. status_terminal st} w) R"
proof -
  let ?post = "\<lambda>w. honest s w \<and> status_in s {st. status_terminal st} w"
  have mark: "?post w" if "status_in s {st} w" for w :: "'a nav_world"
    using that assms(3,4) by (auto simp: honest_def status_in_def)
  have test: "triple (honest s) (from_ledger (ledger_is_terminal s))
      (\<lambda>b w. if b then ?post w else status_in s {st. \<not> status_terminal st} w) (\<lambda>_. ?post)"
    by (auto simp: triple_def from_ledger_def nav_read_def ledger_is_terminal_def honest_def status_in_def
        goal_status_def on_trace_def split: prod.split sum.split)
  have "triple (honest s) (transition_sampled_if_open p s st n code detail) (\<lambda>_. ?post) (\<lambda>_. ?post)"
    unfolding transition_sampled_if_open_def
  proof (rule triple_bind [OF test])
    fix b
    have "triple (status_in s {st. \<not> status_terminal st}) (transition_sampled p s st n code detail)
        (\<lambda>_. ?post) (\<lambda>_. ?post)"
      by (rule triple_weaken [OF transition_closes [OF assms(1,2)]]) (use mark in blast)+
    then show "triple (\<lambda>w. if b then ?post w else status_in s {st. \<not> status_terminal st} w)
        (if b then skip else transition_sampled p s st n code detail) (\<lambda>_. ?post) (\<lambda>_. ?post)"
      by (cases b) (auto intro: triple_skip)
  qed
  moreover have "triple ?post (nav_note t) (\<lambda>_. ?post) R" for t
    by (auto simp: triple_def nav_note_def modify_def honest_def on_trace_def)
  ultimately show ?thesis
    unfolding transition_sampled_preserving_def by (rule triple_catch)
qed

lemma failure_evidence_terminal:
  "failure_evidence e = (st, rest) \<Longrightarrow> status_terminal st \<and> st \<noteq> SUCCEEDED"
  by (cases e rule: failure_evidence.cases) (auto simp: status_terminal_def TERMINAL_NAVIGATION_STATUSES_def)

lemma sampled_body_honest:
  assumes "ledger_port p"
  shows "triple (\<lambda>w. on_trace closed w \<and> status_in s (- {SUCCEEDED}) w) (sampled_body p c s xy d)
     (\<lambda>_ w. on_trace proved_success w \<and> status_in s {SUCCEEDED} w) (\<lambda>_. honest s)"
proof -
  let ?proved = "\<lambda>w. on_trace proved_success w \<and> status_in s UNIV w"
  have motion: "triple (\<lambda>w. on_trace closed w \<and> status_in s (- {SUCCEEDED}) w)
      (execute_motion p c (SampledNavigate s xy) d)
      (\<lambda>t w. on_trace (\<lambda>a. closed a \<and> ma_result a = Some t) w \<and> status_in s (- {SUCCEEDED}) w)
      (\<lambda>_. honest s)"
    by (rule triple_weaken [OF triple_conj [OF audited_execute_motion [unfolded audited_def]
          unsucceeded_motion [OF assms, unfolded keeps_def]]]) (auto simp: honest_cases)
  have success: "triple ?proved (record_success p s t)
      (\<lambda>_ w. on_trace proved_success w \<and> status_in s {SUCCEEDED} w) (\<lambda>_. honest s)" for t
  proof -
    have "triple ?proved (record_success p s t) (\<lambda>_. ?proved) (\<lambda>_. ?proved)"
      unfolding record_success_def
      by (rule triple_conj [OF triple_quiet keeps_transition [OF assms, unfolded keeps_def]])
        (simp_all add: quiet_ledger)
    moreover have "triple (\<lambda>_. True) (record_success p s t) (\<lambda>_. status_in s {SUCCEEDED}) (\<lambda>_ _. True)"
      unfolding record_success_def by (rule transition_marks [OF assms])
    ultimately show ?thesis
      by (rule triple_weaken [OF triple_conj]) (auto simp: honest_def status_in_def)
  qed
  have failure: "triple (status_in s (- {SUCCEEDED})) (andthen (transition_sampled_preserving p s st n code detail)
      (raise e)) Q (\<lambda>_. honest s)" if "st \<noteq> SUCCEEDED" for st n code detail e Q
    by (rule triple_andthen [where M = "honest s"], rule triple_weaken [OF keeps_preserving [OF assms, of st "- {SUCCEEDED}",
          unfolded keeps_def]])
      (use that in \<open>auto simp: triple_def raise_def honest_cases\<close>)
  show ?thesis
    unfolding sampled_body_def
  proof (rule triple_bind [OF motion])
    fix t
    show "triple (\<lambda>w. on_trace (\<lambda>a. closed a \<and> ma_result a = Some t) w \<and> status_in s (- {SUCCEEDED}) w)
      (if terminal_succeeded t then record_success p s t
       else andthen (transition_sampled_preserving p s
             (if at_status t = status_int AS_CANCELED then CANCELED else ABORTED) (at_status t)
             (at_error_code t) (''NavigateToPose failed status='' @ show_int (at_status t)
              @ '' error='' @ show_int (at_error_code t)))
           (raise (Nav2MotionFailed (''navigation goal failed: goal='' @ np_show_xy p xy
              @ '' status='' @ show_int (at_status t) @ '' error='' @ show_int (at_error_code t)))))
      (\<lambda>_ w. on_trace proved_success w \<and> status_in s {SUCCEEDED} w) (\<lambda>_. honest s)"
    proof (cases "terminal_succeeded t")
      case True
      then show ?thesis
        by (simp only: if_True, intro triple_pre [OF success])
          (auto simp: on_trace_def proved_success_def status_in_def)
    next
      case False
      then show ?thesis by (simp only: if_False, intro triple_pre [OF failure]) auto
    qed
  qed
qed

lemma sampled_outcome:
  assumes "ledger_port p" "stamping_port p" "ledger_get s (snd (nw_env w)) = Inr g"
    and "ng_status g = REQUESTED" "ng_goal_xy g = xy" "on_trace closed w"
    and "execute_sampled p c s xy d w = Some (r, w')"
  shows "honest s w' \<and> status_in s {st. status_terminal st} w'
    \<and> (\<not> is_error r \<longrightarrow> status_in s {SUCCEEDED} w')"
proof -
  let ?handler = "\<lambda>e. case failure_evidence e of (st, n, code, detail) \<Rightarrow>
      andthen (transition_sampled_preserving p s st n code detail) (raise e)"
  let ?post = "\<lambda>w. honest s w \<and> status_in s {st. status_terminal st} w"
  obtain a l where env: "nw_env w = (a, l)" by (cases "nw_env w")
  have same: "w\<lparr>nw_env := (a, l)\<rparr> = w" by (simp flip: env)
  have run: "execute_sampled p c s xy d w = catch (sampled_body p c s xy d) ?handler w"
    using assms(3-5)
    by (simp add: env same execute_sampled_def from_ledger_def nav_read_def proc_defs)
  have "triple (honest s) (?handler e) Q (\<lambda>_. ?post)" for e Q
  proof (cases "failure_evidence e")
    case (fields st n code detail)
    then show ?thesis
      using preserving_closes [OF assms(1,2)] failure_evidence_terminal [of e st]
      by (simp only: prod.case, intro triple_andthen) (auto intro: triple_raise)
  qed
  from triple_catch [OF sampled_body_honest [OF assms(1)] this]
  have out: "triple (\<lambda>w. on_trace closed w \<and> status_in s (- {SUCCEEDED}) w)
      (catch (sampled_body p c s xy d) ?handler)
      (\<lambda>_ w. on_trace proved_success w \<and> status_in s {SUCCEEDED} w) (\<lambda>_. ?post)" .
  have "on_trace closed w \<and> status_in s (- {SUCCEEDED}) w"
    using assms(3,4,6) by (simp add: status_in_def goal_status_def)
  moreover have "catch (sampled_body p c s xy d) ?handler w = Some (r, w')" using assms(7) run by simp
  moreover have "status_terminal SUCCEEDED"
    by (simp add: status_terminal_def TERMINAL_NAVIGATION_STATUSES_def)
  ultimately show ?thesis
    using triple_normal [OF out] triple_error [OF out]
    by (cases r) (fastforce simp: honest_def status_in_def)+
qed


text \<open>C28. A sampled navigation always ends with its verdict in the ledger. When the goal is planned and
  requested and the runtime only lets plans be recorded meanwhile, then the transaction ends, its goal
  has a terminal status in the ledger, a normal return means SUCCEEDED, and SUCCEEDED is only ever
  written for a goal whose successful terminal was read and whose token was closed without any
  fail-safe: no failure is recorded as a success and no goal is left open.\<close>

theorem sampled_goal_ends_terminal:
  fixes w :: "'e nav_world"
  assumes "nav_progress p time" "transaction_init c = Inr c" "ledger_port p" "stamping_port p"
    and "ledger_get s (snd (nw_env w)) = Inr g" "ng_status g = REQUESTED" "ng_goal_xy g = goal_xy"
    and "nw_trace w = []" "\<not> nw_locked w" "isfinite deadline_monotonic"
  shows "\<exists>r w' h. execute p c (SampledNavigate s goal_xy) deadline_monotonic w = Some (r, w')
    \<and> ledger_get s (snd (nw_env w')) = Inr h \<and> status_terminal (ng_status h)
    \<and> (\<not> is_error r \<longrightarrow> ng_status h = SUCCEEDED)
    \<and> (ng_status h = SUCCEEDED \<longrightarrow> proved_success (audit (nw_trace w')))"
proof -
  let ?w = "w\<lparr>nw_locked := True\<rparr>"
  obtain d where d: "deadline_monotonic = Fin d" using assms(10) by (auto simp: isfinite_iff)
  have "returns (\<lambda>_. True) (execute_sampled p c s goal_xy (Fin d))"
    by (rule total_intents [OF assms(1) transaction_timed [OF assms(2)]])
  from returnsD [OF this, of ?w] obtain r w1 where
    run: "execute_sampled p c s goal_xy (Fin d) ?w = Some (r, w1)" by blast
  have "on_trace closed ?w"
    using assms(8) by (simp add: on_trace_def audit_def audit_start_def closed_def)
  from sampled_outcome [OF assms(3,4) _ assms(6,7) this run] assms(5)
  have out: "honest s w1 \<and> status_in s {st. status_terminal st} w1
      \<and> (\<not> is_error r \<longrightarrow> status_in s {SUCCEEDED} w1)" by simp
  have "execute p c (SampledNavigate s goal_xy) deadline_monotonic w = Some (r, w1\<lparr>nw_locked := False\<rparr>)"
    using run assms(9) by (cases r) (simp_all add: execute_def d set_locked_def proc_defs)
  then show ?thesis
    using out
    by (cases "ledger_get s (snd (nw_env w1))")
      (auto simp: honest_def status_in_def goal_status_def on_trace_def)
qed

definition requested_goal :: NavigationGoalEvidence where
  "requested_goal = (navigation_goal_evidence 1 (Fin 1, Fin 2))\<lparr>ng_status := REQUESTED, ng_plan_count := 1\<rparr>"

definition requested_world :: "real nav_world" where
  "requested_world = prompt_world\<lparr>nw_env := (0, \<lparr>led_mission_sequence = 1, led_records = [requested_goal]\<rparr>)\<rparr>"

lemma plans_only_refl [simp]: "plans_only l l"
  unfolding plans_only_def by (rule exI [of _ "[]"]) simp

lemma prompt_ledger: "ledger_port (prompt_port status)" "stamping_port (prompt_port status)"
  by (auto simp: ledger_port_def ledger_safe_def stamping_port_def prompt_port_def)

theorem sampled_goal_ends_terminal_witness:
  "\<exists>r w' h. execute (prompt_port 4) prompt_config (SampledNavigate 1 (Fin 1, Fin 2)) (Fin 20) requested_world
       = Some (r, w')
     \<and> ledger_get 1 (snd (nw_env w')) = Inr h \<and> status_terminal (ng_status h)"
proof -
  have "transaction_init prompt_config = Inr prompt_config"
    by (simp add: transaction_init_def prompt_config_def zero_fin)
  moreover have "ledger_get 1 (snd (nw_env requested_world)) = Inr requested_goal"
    by (simp add: requested_world_def ledger_get_def ledger_index_def)
  moreover have "ng_status requested_goal = REQUESTED" "ng_goal_xy requested_goal = (Fin 1, Fin 2)"
    by (simp_all add: requested_goal_def navigation_goal_evidence_def)
  moreover have "nw_trace requested_world = []" "\<not> nw_locked requested_world"
    by (simp_all add: requested_world_def prompt_world_def)
  ultimately show ?thesis
    using sampled_goal_ends_terminal [OF prompt_progress _ prompt_ledger, of prompt_config 1 requested_world
        requested_goal "(Fin 1, Fin 2)" "Fin 20" 4] by auto
qed

end
