(* ===== verification/Replay_Core.thy ===== *)
theory Replay_Core
  imports Prelude
begin

text \<open>
  Timing, frames and planar poses of the dataset replay, \<open>replay_core.py\<close>. The poses are finite. The
  dictionary of the last stamp per stream is a map; a message stamp is the record of the four
  attributes the code looks for, each of them absent or a number.
\<close>

section \<open>Planar poses\<close>

record Pose2 =
  p2_x :: real
  p2_y :: real
  p2_yaw :: real

definition wrap_angle :: "real \<Rightarrow> real" where
  "wrap_angle angle = atan2 (sin angle) (cos angle)"

definition yaw_from_quaternion :: "real \<Rightarrow> real \<Rightarrow> real \<Rightarrow> real \<Rightarrow> real" where
  "yaw_from_quaternion x y z w =
     (let sin_yaw = 2 * (w * z + x * y); cos_yaw = 1 - 2 * (y * y + z * z)
      in atan2 sin_yaw cos_yaw)"

definition compose_pose :: "Pose2 \<Rightarrow> Pose2 \<Rightarrow> Pose2" where
  "compose_pose parent_to_child child_to_base =
     (let cosine = cos (p2_yaw parent_to_child); sine = sin (p2_yaw parent_to_child)
      in \<lparr>p2_x = p2_x parent_to_child + cosine * p2_x child_to_base - sine * p2_y child_to_base,
          p2_y = p2_y parent_to_child + sine * p2_x child_to_base + cosine * p2_y child_to_base,
          p2_yaw = wrap_angle (p2_yaw parent_to_child + p2_yaw child_to_base)\<rparr>)"

section \<open>Frames\<close>

text \<open>\<open>str.strip\<close> with a set of characters, \<open>str.lstrip\<close> with one, and \<open>str.replace\<close> of a character.\<close>

definition strip_chars :: "char set \<Rightarrow> string \<Rightarrow> string" where
  "strip_chars cs s = rev (dropWhile (\<lambda>c. c \<in> cs) (rev (dropWhile (\<lambda>c. c \<in> cs) s)))"

definition lstrip_char :: "char \<Rightarrow> string \<Rightarrow> string" where
  "lstrip_char c s = dropWhile (\<lambda>d. d = c) s"

definition replace_char :: "char \<Rightarrow> char \<Rightarrow> string \<Rightarrow> string" where
  "replace_char c d s = map (\<lambda>x. if x = c then d else x) s"

record FrameMapper =
  fm_prefix :: string
  fm_known :: "(string \<times> string) list"

definition frame_mapper :: "string \<Rightarrow> FrameMapper result" where
  "frame_mapper prefix =
     (let clean = strip_chars {CHR ''/'', CHR ''_''} prefix
      in if clean = [] then Inl (ValueError ''frame prefix must not be empty'')
         else Inr \<lparr>fm_prefix = clean,
           fm_known = [(''base_odom'', clean @ ''_odom''), (''odom'', clean @ ''_odom''),
             (''base_link'', clean @ ''_base_link''), (''laser'', clean @ ''_laser'')]\<rparr>)"

definition map_frame :: "FrameMapper \<Rightarrow> string \<Rightarrow> string" where
  "map_frame fm frame =
     (let clean = lstrip_char (CHR ''/'') (strip frame)
      in if clean = [] then []
         else case map_of (fm_known fm) clean of
             Some known \<Rightarrow> known
           | None \<Rightarrow>
               if startswith (fm_prefix fm @ ''_'') clean then clean
               else fm_prefix fm @ ''_'' @ replace_char (CHR ''/'') (CHR ''_'') clean)"

section \<open>Duplicate stamps\<close>

type_synonym TimestampDeduplicator = "string \<rightharpoonup> int"

definition accept_stamp :: "string \<Rightarrow> int \<Rightarrow> TimestampDeduplicator \<Rightarrow> bool \<times> TimestampDeduplicator" where
  "accept_stamp stream stamp_ns last_by_stream =
     (case last_by_stream stream of
        Some previous \<Rightarrow>
          if stamp_ns \<le> previous then (False, last_by_stream)
          else (True, last_by_stream(stream \<mapsto> stamp_ns))
      | None \<Rightarrow> (True, last_by_stream(stream \<mapsto> stamp_ns)))"

section \<open>The timeline\<close>

record ReplayTimeline =
  tl_rate :: pyfloat
  tl_max_wall_gap_s :: pyfloat
  tl_last_bag_ns :: "int option"
  tl_last_clock_ns :: "int option"

definition replay_timeline :: "pyfloat \<Rightarrow> pyfloat \<Rightarrow> ReplayTimeline result" where
  "replay_timeline rate max_wall_gap_s =
     (if rate \<le> 0 then Inl (ValueError ''replay rate must be positive'')
      else if max_wall_gap_s \<le> 0 then Inl (ValueError ''max_wall_gap_s must be positive'')
      else Inr \<lparr>tl_rate = rate, tl_max_wall_gap_s = max_wall_gap_s, tl_last_bag_ns = None,
                tl_last_clock_ns = None\<rparr>)"

text \<open>\<open>previous or value\<close>: no previous value and zero are both replaced.\<close>

definition last_or :: "int option \<Rightarrow> int \<Rightarrow> int" where
  "last_or previous value = (case previous of None \<Rightarrow> value | Some n \<Rightarrow> if n = 0 then value else n)"

definition advance :: "int \<Rightarrow> ReplayTimeline \<Rightarrow> (int \<times> pyfloat) \<times> ReplayTimeline" where
  "advance bag_stamp_ns t =
     (let clock_ns = (case tl_last_clock_ns t of None \<Rightarrow> bag_stamp_ns | Some n \<Rightarrow> max bag_stamp_ns n);
          wall_delay_s =
            (case tl_last_bag_ns t of
               None \<Rightarrow> 0
             | Some n \<Rightarrow>
                 (let bag_delta_s = pymax 0 (Fin (real_of_int (bag_stamp_ns - n) / 10 ^ 9))
                  in pymin (tl_max_wall_gap_s t) (flt_div bag_delta_s (tl_rate t))))
      in ((clock_ns, wall_delay_s),
          t\<lparr>tl_last_bag_ns := Some (max bag_stamp_ns (last_or (tl_last_bag_ns t) bag_stamp_ns)),
             tl_last_clock_ns := Some clock_ns\<rparr>))"

section \<open>Stamps\<close>

record stamp =
  st_sec :: "int option"
  st_secs :: "int option"
  st_nanosec :: "int option"
  st_nsecs :: "int option"

definition getattr_or :: "int option \<Rightarrow> int option \<Rightarrow> int option" where
  "getattr_or attr other = (case attr of None \<Rightarrow> other | Some v \<Rightarrow> Some v)"

definition stamp_to_ns :: "stamp \<Rightarrow> int \<Rightarrow> int" where
  "stamp_to_ns st fallback_ns =
     (case (getattr_or (st_sec st) (st_secs st), getattr_or (st_nanosec st) (st_nsecs st)) of
        (Some seconds, Some nanoseconds) \<Rightarrow> seconds * 1000000000 + nanoseconds
      | _ \<Rightarrow> fallback_ns)"

section \<open>Correctness of poses and frames\<close>

lemma wrap_angle_range:
  "- pi < wrap_angle a \<and> wrap_angle a \<le> pi \<and> sin (wrap_angle a) = sin a \<and> cos (wrap_angle a) = cos a"
proof -
  obtain k :: int where k: "- pi < a + 2 * pi * real_of_int k" "a + 2 * pi * real_of_int k \<le> pi"
    using angle_representative [of a] by blast
  define e where "e = a + 2 * pi * real_of_int k"
  have "sin e = sin a" "cos e = cos a"
    unfolding e_def by (simp_all add: sin_add cos_add sin_int_2pin cos_int_2pin)
  moreover from this have "wrap_angle a = e"
    using atan2_sin_cos [of e] k unfolding wrap_angle_def e_def by simp
  ultimately show ?thesis using k by (simp add: e_def)
qed

lemma wrap_angle_cong: "sin a = sin b \<Longrightarrow> cos a = cos b \<Longrightarrow> wrap_angle a = wrap_angle b"
  by (simp add: wrap_angle_def)

lemma wrap_angle_add: "wrap_angle (wrap_angle a + b) = wrap_angle (a + b)"
  by (rule wrap_angle_cong) (simp_all add: sin_add cos_add wrap_angle_range)

lemma compose_pose_assoc:
  "compose_pose (compose_pose a b) c = compose_pose a (compose_pose b c)"
  using wrap_angle_add [of "p2_yaw a + p2_yaw b" "p2_yaw c"]
    wrap_angle_add [of "p2_yaw b + p2_yaw c" "p2_yaw a"]
  by (simp add: compose_pose_def Let_def sin_add cos_add wrap_angle_range algebra_simps)

text \<open>The yaw of a rotation about the vertical axis.\<close>

lemma yaw_roundtrip: "yaw_from_quaternion 0 0 (sin (t / 2)) (cos (t / 2)) = wrap_angle t"
proof -
  have "2 * (cos (t / 2) * sin (t / 2)) = sin t" using sin_double [of "t / 2"] by simp
  moreover have "1 - 2 * (sin (t / 2) * sin (t / 2)) = cos t"
    using cos_double_sin [of "t / 2"] by (simp add: power2_eq_square)
  ultimately show ?thesis by (simp add: yaw_from_quaternion_def wrap_angle_def)
qed

lemma frames_isolated:
  assumes "frame_mapper prefix = Inr fm"
  shows "map_frame fm frame = [] \<or> startswith (fm_prefix fm @ ''_'') (map_frame fm frame)"
  using assms
  by (auto simp: frame_mapper_def map_frame_def Let_def startswith_def split: if_splits option.splits)

lemma stamp_roundtrip:
  assumes "getattr_or (st_sec st) (st_secs st) = Some s" "getattr_or (st_nanosec st) (st_nsecs st) = Some n"
    and "0 \<le> n" "n < 1000000000"
  shows "stamp_to_ns st fallback_ns div 1000000000 = s \<and> stamp_to_ns st fallback_ns mod 1000000000 = n"
  using assms by (simp add: stamp_to_ns_def)

section \<open>Only new maxima are accepted\<close>

fun accept_all :: "(string \<times> int) list \<Rightarrow> TimestampDeduplicator \<Rightarrow> bool list" where
  "accept_all [] d = []"
| "accept_all ((stream, stamp_ns) # xs) d =
     (case accept_stamp stream stamp_ns d of (ok, d') \<Rightarrow> ok # accept_all xs d')"

text \<open>The specification remembers every observation made so far.\<close>

fun new_maxima :: "(string \<times> int) list \<Rightarrow> (string \<times> int) list \<Rightarrow> bool list" where
  "new_maxima seen [] = []"
| "new_maxima seen ((stream, n) # xs) =
     list_all (\<lambda>(stream', n'). stream' = stream \<longrightarrow> n' < n) seen # new_maxima ((stream, n) # seen) xs"

definition remembers :: "TimestampDeduplicator \<Rightarrow> (string \<times> int) list \<Rightarrow> bool" where
  "remembers d seen \<longleftrightarrow>
     (\<forall>stream. case d stream of
        None \<Rightarrow> \<forall>n. (stream, n) \<notin> set seen
      | Some m \<Rightarrow> (stream, m) \<in> set seen \<and> (\<forall>n. (stream, n) \<in> set seen \<longrightarrow> n \<le> m))"

lemma remembers_accept:
  assumes "remembers d seen"
  shows "fst (accept_stamp stream n d) \<longleftrightarrow> list_all (\<lambda>(stream', n'). stream' = stream \<longrightarrow> n' < n) seen"
    and "remembers (snd (accept_stamp stream n d)) ((stream, n) # seen)"
proof -
  have d: "case d stream of None \<Rightarrow> \<forall>n. (stream, n) \<notin> set seen
      | Some m \<Rightarrow> (stream, m) \<in> set seen \<and> (\<forall>n. (stream, n) \<in> set seen \<longrightarrow> n \<le> m)"
    using assms unfolding remembers_def by blast
  show "fst (accept_stamp stream n d) \<longleftrightarrow> list_all (\<lambda>(stream', n'). stream' = stream \<longrightarrow> n' < n) seen"
  proof (cases "d stream")
    case (Some m)
    then have m: "(stream, m) \<in> set seen" "\<And>k. (stream, k) \<in> set seen \<Longrightarrow> k \<le> m" using d by auto
    have "n \<le> m \<Longrightarrow> \<not> list_all (\<lambda>(stream', n'). stream' = stream \<longrightarrow> n' < n) seen"
      using m(1) unfolding list_all_iff by fastforce
    moreover have "\<not> n \<le> m \<Longrightarrow> list_all (\<lambda>(stream', n'). stream' = stream \<longrightarrow> n' < n) seen"
      using m(2) unfolding list_all_iff by fastforce
    ultimately show ?thesis using Some by (auto simp: accept_stamp_def)
  qed (use d in \<open>auto simp: accept_stamp_def list_all_iff\<close>)
  show "remembers (snd (accept_stamp stream n d)) ((stream, n) # seen)"
    using assms d
    by (cases "d stream") (fastforce simp: accept_stamp_def remembers_def split: option.splits if_splits)+
qed

text \<open>Exactly the new maxima pass. In every interleaving of streams a stamp is accepted when, and
  only when, it is later than every stamp seen before on its own stream, accepted or not: one number
  per stream is enough memory to decide it.\<close>

lemma accepted_stamps_are_new_maxima:
  "accept_all observations Map.empty = new_maxima [] observations"
proof -
  have "remembers d seen \<Longrightarrow> accept_all observations d = new_maxima seen observations" for d seen
  proof (induction observations arbitrary: d seen)
    case (Cons x xs)
    obtain stream n where x: "x = (stream, n)" by (cases x)
    show ?case
      using remembers_accept [OF Cons.prems, of stream n] Cons.IH
      by (simp add: x case_prod_beta)
  qed simp
  then show ?thesis by (simp add: remembers_def)
qed

section \<open>The replay is paced\<close>

fun replay :: "int list \<Rightarrow> ReplayTimeline \<Rightarrow> (int \<times> pyfloat) list" where
  "replay [] t = []"
| "replay (n # ns) t = (case advance n t of (out, t') \<Rightarrow> out # replay ns t')"

fun running_max :: "int \<Rightarrow> int list \<Rightarrow> int list" where
  "running_max m [] = []"
| "running_max m (n # ns) = max m n # running_max (max m n) ns"

text \<open>The timeline once a stamp was seen: both memories hold the largest stamp.\<close>

definition at_stamp :: "real \<Rightarrow> real \<Rightarrow> int \<Rightarrow> ReplayTimeline \<Rightarrow> bool" where
  "at_stamp rate gap m t \<longleftrightarrow> t = \<lparr>tl_rate = Fin rate, tl_max_wall_gap_s = Fin gap,
     tl_last_bag_ns = Some m, tl_last_clock_ns = Some m\<rparr>"

lemma advance_at_stamp:
  assumes "at_stamp rate gap m t" "0 < rate" "0 < gap" "0 \<le> m" "0 \<le> n"
  shows "\<exists>r t'. advance n t = ((max m n, Fin r), t') \<and> 0 \<le> r \<and> r \<le> gap
    \<and> r \<le> real_of_int (max m n - m) / 10 ^ 9 / rate \<and> at_stamp rate gap (max m n) t'"
proof -
  let ?d = "real_of_int (max m n - m) / 10 ^ 9"
  have delta: "max 0 (real_of_int (n - m) / 10 ^ 9) = ?d" by (auto simp: max_def)
  have "fst (advance n t) = (max m n, Fin (min gap (?d / rate)))"
    using assms(1)
    by (simp only: delta [symmetric]) (simp add: at_stamp_def advance_def Let_def zero_fin max.commute)
  moreover have "at_stamp rate gap (max m n) (snd (advance n t))"
    using assms(1,4,5) by (simp add: at_stamp_def advance_def Let_def last_or_def max.commute)
  moreover have "0 \<le> ?d / rate" using assms(2) by simp
  ultimately show ?thesis using assms(3)
    by (intro exI [of _ "min gap (?d / rate)"] exI [of _ "snd (advance n t)"])
      (auto simp: prod_eq_iff)
qed

lemma replay_from:
  assumes "0 < rate" "0 < gap"
  shows "at_stamp rate gap m t \<Longrightarrow> 0 \<le> m \<Longrightarrow> list_all (\<lambda>n. 0 \<le> n) ns \<Longrightarrow>
    \<exists>delays. replay ns t = zip (running_max m ns) (map Fin delays) \<and> length delays = length ns
      \<and> list_all (\<lambda>r. 0 \<le> r \<and> r \<le> gap) delays
      \<and> sum_list delays \<le> real_of_int (fold max ns m - m) / 10 ^ 9 / rate"
proof (induction ns arbitrary: m t)
  case Nil
  then show ?case by simp
next
  case (Cons n ns)
  obtain r t' where step: "advance n t = ((max m n, Fin r), t')" "0 \<le> r" "r \<le> gap"
      "r \<le> real_of_int (max m n - m) / 10 ^ 9 / rate" "at_stamp rate gap (max m n) t'"
    using advance_at_stamp [OF Cons.prems(1) assms Cons.prems(2), of n] Cons.prems(3) by auto
  have le_max: "0 \<le> max m n" using Cons.prems(2) by simp
  obtain delays where rest: "replay ns t' = zip (running_max (max m n) ns) (map Fin delays)"
      "length delays = length ns" "list_all (\<lambda>r. 0 \<le> r \<and> r \<le> gap) delays"
      "sum_list delays \<le> real_of_int (fold max ns (max m n) - max m n) / 10 ^ 9 / rate"
    using Cons.IH [OF step(5) le_max] Cons.prems(3) by auto
  have "r + sum_list delays \<le> real_of_int (max m n - m) / 10 ^ 9 / rate
      + real_of_int (fold max ns (max m n) - max m n) / 10 ^ 9 / rate"
    using step(4) rest(4) by linarith
  also have "\<dots> = real_of_int (fold max ns (max m n) - m) / 10 ^ 9 / rate"
    by (simp add: add_divide_distrib [symmetric])
  finally show ?case
    using step(1-3) rest(1-3) by (intro exI [of _ "r # delays"]) (simp add: max.commute)
qed

text \<open>The replay is paced. For every bag whose stamps are not negative, however they are ordered, the
  published clock is the largest stamp so far and never jumps back, every wall delay lies between
  zero and the largest gap allowed, and all delays together take no longer than the time the bag
  spans divided by the rate: a stamp written out of order is never waited for twice.\<close>

lemma replay_is_paced:
  assumes "replay_timeline (Fin rate) (Fin gap) = Inr t" "list_all (\<lambda>n. 0 \<le> n) (n # ns)"
  shows "\<exists>delays. replay (n # ns) t = zip (n # running_max n ns) (map Fin delays)
    \<and> length delays = Suc (length ns) \<and> sorted (map fst (replay (n # ns) t))
    \<and> list_all (\<lambda>r. 0 \<le> r \<and> r \<le> gap) delays
    \<and> sum_list delays \<le> real_of_int (fold max ns n - n) / 10 ^ 9 / rate"
proof -
  have pos: "0 < rate" "0 < gap"
    and t: "t = \<lparr>tl_rate = Fin rate, tl_max_wall_gap_s = Fin gap, tl_last_bag_ns = None,
      tl_last_clock_ns = None\<rparr>"
    using assms(1) by (auto simp: replay_timeline_def zero_fin split: if_splits)
  obtain t' where first: "advance n t = ((n, Fin 0), t')" "at_stamp rate gap n t'"
    by (simp add: t advance_def Let_def at_stamp_def last_or_def zero_fin)
  obtain delays where rest: "replay ns t' = zip (running_max n ns) (map Fin delays)"
      "length delays = length ns" "list_all (\<lambda>r. 0 \<le> r \<and> r \<le> gap) delays"
      "sum_list delays \<le> real_of_int (fold max ns n - n) / 10 ^ 9 / rate"
    using replay_from [OF pos first(2), of ns] assms(2) by auto
  have len: "length (running_max m ms) = length ms" for m ms
    by (induction ms arbitrary: m) auto
  have bound: "\<forall>x \<in> set (running_max m ms). m \<le> x" for m ms
    by (induction ms arbitrary: m) (auto, force)
  have "sorted (running_max m ms)" for m ms
    by (induction ms arbitrary: m) (auto dest: bound [rule_format])
  then have "sorted (map fst (replay (n # ns) t))"
    using first(1) rest(1,2) bound len by (simp add: map_fst_zip)
  then show ?thesis
    using first(1) rest pos(2) by (intro exI [of _ "0 # delays"]) simp
qed

end
