(* ===== verification/Stream_Protocol.thy ===== *)
theory Stream_Protocol
  imports Unicode_Text
begin

text \<open>
  The tagged protocol of a streamed model answer: \<open>protocol.py\<close> with the incremental parser and the
  sentence chunker, and \<open>streaming_turn.py\<close> with the turn around them. \<open>json.loads\<close> is an argument
  that gives a value or the text of its \<open>ValueError\<close>, and so are the two rules of the command
  fallback. The callbacks of a turn are the events of its log.
\<close>

section \<open>Data\<close>

text \<open>JSON values as \<open>json.loads\<close> gives them; the keys of an object are distinct.\<close>

datatype json =
    JNull
  | JBool bool
  | JInt int
  | JFloat pyfloat
  | JString ustr
  | JList "json list"
  | JObject "(ustr \<times> json) list"

text \<open>The truth value of a JSON value, and \<open>str(v or "")\<close> of a value that may be missing; \<open>py_str\<close> is \<open>str\<close> of a
  value that is no text.\<close>

fun falsy :: "json \<Rightarrow> bool" where
  "falsy JNull = True"
| "falsy (JBool b) = (\<not> b)"
| "falsy (JInt n) = (n = 0)"
| "falsy (JFloat x) = (x = Fin 0)"
| "falsy (JString t) = (t = [])"
| "falsy (JList xs) = (xs = [])"
| "falsy (JObject kvs) = (kvs = [])"

definition restore_text :: "(json \<Rightarrow> ustr) \<Rightarrow> json option \<Rightarrow> ustr" where
  "restore_text py_str v =
     (case v of
        None \<Rightarrow> []
      | Some v \<Rightarrow> if falsy v then [] else (case v of JString t \<Rightarrow> t | _ \<Rightarrow> py_str v))"

record ActionCommand =
  ac_name :: ustr
  ac_arguments :: "(ustr \<times> json) list"
  ac_request_id :: ustr
  ac_priority :: bool

definition action_command :: "ustr \<Rightarrow> (ustr \<times> json) list \<Rightarrow> ActionCommand" where
  "action_command name arguments =
     \<lparr>ac_name = name, ac_arguments = arguments, ac_request_id = [], ac_priority = False\<rparr>"

record ProtocolEvents =
  pe_speech :: "ustr list"
  pe_actions :: "ActionCommand list"
  pe_errors :: "ustr list"

definition no_events :: ProtocolEvents where
  "no_events = \<lparr>pe_speech = [], pe_actions = [], pe_errors = []\<rparr>"

definition add_events :: "ProtocolEvents \<Rightarrow> ProtocolEvents \<Rightarrow> ProtocolEvents" where
  "add_events a b =
     \<lparr>pe_speech = pe_speech a @ pe_speech b, pe_actions = pe_actions a @ pe_actions b,
      pe_errors = pe_errors a @ pe_errors b\<rparr>"

datatype parser_state = OUTSIDE | IN_SPEECH | IN_ACTION

record TaggedStreamParser =
  tp_buffer :: ustr
  tp_state :: parser_state

definition SPEECH_OPEN :: ustr where "SPEECH_OPEN = codes ''<speech>''"
definition SPEECH_CLOSE :: ustr where "SPEECH_CLOSE = codes ''</speech>''"
definition ACTION_OPEN :: ustr where "ACTION_OPEN = codes ''<action>''"
definition ACTION_CLOSE :: ustr where "ACTION_CLOSE = codes ''</action>''"

definition parser_init :: TaggedStreamParser where
  "parser_init = \<lparr>tp_buffer = [], tp_state = OUTSIDE\<rparr>"

section \<open>The parser\<close>

text \<open>The earlier of the two opening tags; a tie cannot happen, and \<open>min\<close> would take the speech.\<close>

definition enter_next_tag :: "ustr \<Rightarrow> (parser_state \<times> ustr) option" where
  "enter_next_tag buffer =
     (case (find_sub SPEECH_OPEN buffer, find_sub ACTION_OPEN buffer) of
        (None, None) \<Rightarrow> None
      | (Some i, None) \<Rightarrow> Some (IN_SPEECH, drop (i + length SPEECH_OPEN) buffer)
      | (None, Some j) \<Rightarrow> Some (IN_ACTION, drop (j + length ACTION_OPEN) buffer)
      | (Some i, Some j) \<Rightarrow>
          if i \<le> j then Some (IN_SPEECH, drop (i + length SPEECH_OPEN) buffer)
          else Some (IN_ACTION, drop (j + length ACTION_OPEN) buffer))"

text \<open>\<open>buffer[-keep:]\<close> once the buffer is longer.\<close>

definition keep_last :: "nat \<Rightarrow> ustr \<Rightarrow> ustr" where
  "keep_last keep buffer = (if length buffer > keep then drop (length buffer - keep) buffer else buffer)"

definition open_keep :: nat where
  "open_keep = max (length SPEECH_OPEN) (length ACTION_OPEN) - 1"

text \<open>The items of an action block in order: the commands before the first bad one stay.\<close>

fun collect_actions :: "json list \<Rightarrow> ActionCommand list \<times> ustr option" where
  "collect_actions [] = ([], None)"
| "collect_actions (item # items) =
     (case item of
        JObject entries \<Rightarrow>
          (case map_of entries (codes ''name'') of
             Some (JString name) \<Rightarrow>
               (case map_of entries (codes ''arguments'') of
                  None \<Rightarrow>
                    (case collect_actions items of (acts, err) \<Rightarrow> (action_command name [] # acts, err))
                | Some (JObject arguments) \<Rightarrow>
                    (case collect_actions items of (acts, err) \<Rightarrow>
                       (action_command name arguments # acts, err))
                | Some _ \<Rightarrow> ([], Some (codes ''action arguments must be an object'')))
           | _ \<Rightarrow> ([], Some (codes ''action requires a string name'')))
      | _ \<Rightarrow> ([], Some (codes ''action requires a string name'')))"

definition action_items :: "json \<Rightarrow> json list" where
  "action_items payload = (case payload of JList items \<Rightarrow> items | _ \<Rightarrow> [payload])"

definition action_events :: "(ustr \<Rightarrow> ustr + json) \<Rightarrow> ustr \<Rightarrow> ProtocolEvents" where
  "action_events loads raw =
     (case loads raw of
        Inl err \<Rightarrow> no_events\<lparr>pe_errors := [codes ''invalid action: '' @ err]\<rparr>
      | Inr payload \<Rightarrow>
          (case collect_actions (action_items payload) of
             (acts, None) \<Rightarrow> no_events\<lparr>pe_actions := acts\<rparr>
           | (acts, Some err) \<Rightarrow>
               no_events\<lparr>pe_actions := acts, pe_errors := [codes ''invalid action: '' @ err]\<rparr>))"

text \<open>The loop of \<open>feed\<close>. Every round that goes on has taken a tag off the buffer.\<close>

lemma tag_lengths [simp]:
  "length SPEECH_OPEN = 8" "length ACTION_OPEN = 8" "length SPEECH_CLOSE = 9" "length ACTION_CLOSE = 9"
  by (simp_all add: SPEECH_OPEN_def ACTION_OPEN_def SPEECH_CLOSE_def ACTION_CLOSE_def codes_def)

lemma enter_next_tag_shrinks:
  "enter_next_tag buffer = Some (st, rest) \<Longrightarrow> buffer \<noteq> [] \<Longrightarrow> length rest < length buffer"
  by (auto simp: enter_next_tag_def split: option.splits if_splits)

function consume ::
  "(ustr \<Rightarrow> ustr + json) \<Rightarrow> parser_state \<Rightarrow> ustr \<Rightarrow> ProtocolEvents \<times> parser_state \<times> ustr" where
  "consume loads st buffer =
     (if buffer = [] then (no_events, st, [])
      else case st of
        OUTSIDE \<Rightarrow>
          (case enter_next_tag buffer of
             Some (st', rest) \<Rightarrow> consume loads st' rest
           | None \<Rightarrow> (no_events, OUTSIDE, keep_last open_keep buffer))
      | IN_SPEECH \<Rightarrow>
          (case find_sub SPEECH_CLOSE buffer of
             Some index \<Rightarrow>
               (case consume loads OUTSIDE (drop (index + length SPEECH_CLOSE) buffer) of
                  (ev, st', rest) \<Rightarrow>
                    (add_events
                       (if index = 0 then no_events else no_events\<lparr>pe_speech := [take index buffer]\<rparr>) ev,
                     st', rest))
           | None \<Rightarrow>
               (let safe = length buffer + 1 - length SPEECH_CLOSE
                in if safe > 0
                   then (no_events\<lparr>pe_speech := [take safe buffer]\<rparr>, IN_SPEECH, drop safe buffer)
                   else (no_events, IN_SPEECH, buffer)))
      | IN_ACTION \<Rightarrow>
          (case find_sub ACTION_CLOSE buffer of
             None \<Rightarrow> (no_events, IN_ACTION, buffer)
           | Some index \<Rightarrow>
               (case consume loads OUTSIDE (drop (index + length ACTION_CLOSE) buffer) of
                  (ev, st', rest) \<Rightarrow>
                    (add_events (action_events loads (ustrip (take index buffer))) ev, st', rest))))"
  by pat_completeness auto

termination
  by (relation "measure (\<lambda>(loads, st, buffer). length buffer)") (auto dest: enter_next_tag_shrinks)

declare consume.simps [simp del]

definition feed ::
  "(ustr \<Rightarrow> ustr + json) \<Rightarrow> ustr \<Rightarrow> TaggedStreamParser \<Rightarrow> ProtocolEvents \<times> TaggedStreamParser" where
  "feed loads chunk p =
     (case consume loads (tp_state p) (tp_buffer p @ chunk) of
        (ev, st, rest) \<Rightarrow> (ev, p\<lparr>tp_buffer := rest, tp_state := st\<rparr>))"

definition finish ::
  "(ustr \<Rightarrow> ustr + json) \<Rightarrow> TaggedStreamParser \<Rightarrow> ProtocolEvents \<times> TaggedStreamParser" where
  "finish loads p =
     (case feed loads [] p of
        (ev, p') \<Rightarrow>
          (if tp_state p' \<noteq> OUTSIDE \<or> ustrip (tp_buffer p') \<noteq> []
           then ev\<lparr>pe_errors := pe_errors ev @ [codes ''incomplete tagged response'']\<rparr> else ev, p'))"

section \<open>Finding in a growing text\<close>

lemma starts_with_take: "starts_with p t \<longleftrightarrow> take (length p) t = p"
  unfolding starts_with_iff by (metis append_eq_conv_conj append_take_drop_id)

lemma starts_with_length: "starts_with p t \<Longrightarrow> length p \<le> length t"
  by (auto simp: starts_with_iff)

lemma starts_with_append:
  "j + length p \<le> length t \<Longrightarrow> starts_with p (drop j (t @ x)) \<longleftrightarrow> starts_with p (drop j t)"
  by (simp add: starts_with_take)

lemma find_sub_starts: "find_sub p t = Some i \<Longrightarrow> starts_with p (drop i t) \<and> i + length p \<le> length t"
proof -
  assume "find_sub p t = Some i"
  then obtain r where t: "t = take i t @ p @ r" "i \<le> length t" using find_sub_Some by blast
  then have "drop i t = p @ r" by (metis append_eq_conv_conj length_take min.absorb2)
  moreover from this have "length t - i = length p + length r" by (metis length_append length_drop)
  ultimately show ?thesis using t(2) by (auto simp: starts_with_iff)
qed

lemma find_sub_append:
  assumes "find_sub p t = Some i"
  shows "find_sub p (t @ x) = Some i"
proof (rule find_sub_eqI)
  have i: "starts_with p (drop i t)" "i + length p \<le> length t" using find_sub_starts [OF assms] by auto
  then show "starts_with p (drop i (t @ x))" by (simp add: starts_with_append del: drop_append)
  show "i \<le> length (t @ x)" using i by simp
  fix j assume "j < i"
  then have "\<not> starts_with p (drop j t)" using find_sub_Some [OF assms] by blast
  then show "\<not> starts_with p (drop j (t @ x))"
    using \<open>j < i\<close> i by (simp add: starts_with_append del: drop_append)
qed

lemma find_sub_skip:
  "(\<And>j. j < k \<Longrightarrow> \<not> starts_with p (drop j t)) \<Longrightarrow> k \<le> length t \<Longrightarrow>
     find_sub p t = map_option (\<lambda>i. k + i) (find_sub p (drop k t))"
proof (induction k arbitrary: t)
  case 0
  then show ?case by (simp add: option.map_ident)
next
  case (Suc k)
  then obtain c cs where t: "t = c # cs" by (cases t) auto
  have "\<not> starts_with p t" using Suc.prems(1) [of 0] by simp
  then have "find_sub p t = map_option Suc (find_sub p cs)" by (simp add: find_sub.simps [of p "c # cs"] t)
  also have "find_sub p cs = map_option (\<lambda>i. k + i) (find_sub p (drop k cs))"
    using Suc.prems(1) [of "Suc _"] Suc.prems(2) t by (intro Suc.IH) auto
  finally show ?case by (simp add: t option.map_comp comp_def)
qed

text \<open>When nothing was found, a later match starts in the last characters.\<close>

lemma find_sub_boundary:
  assumes "find_sub p t = None" "k + length p \<le> length t + 1" "k \<le> length t"
  shows "find_sub p (t @ x) = map_option (\<lambda>i. k + i) (find_sub p (drop k t @ x))"
proof -
  have "\<not> starts_with p (drop j (t @ x))" if "j < k" for j
    using that assms by (simp add: starts_with_append find_sub_None del: drop_append)
  from find_sub_skip [OF this] assms(3) show ?thesis by simp
qed

section \<open>Tags and chunks\<close>

lemma enter_next_tag_append:
  assumes "enter_next_tag t = Some (st, rest)"
  shows "enter_next_tag (t @ x) = Some (st, rest @ x)"
proof -
  have late: "length t < i + 8" if "find_sub p t = None" "find_sub p (t @ x) = Some i" "length p = 8" for p i
  proof (rule ccontr)
    assume "\<not> length t < i + 8"
    then have "starts_with p (drop i t)"
      using find_sub_starts [OF that(2)] that(3) by (simp add: starts_with_append del: drop_append)
    then show False using that(1) \<open>\<not> length t < i + 8\<close> by (auto simp: find_sub_None)
  qed
  have early: "i + 8 \<le> length t" if "find_sub p t = Some i" "length p = 8" for p i
    using find_sub_starts [OF that(1)] that(2) by simp
  show ?thesis
  proof (cases "find_sub SPEECH_OPEN t"; cases "find_sub ACTION_OPEN t")
    assume "find_sub SPEECH_OPEN t = None" "find_sub ACTION_OPEN t = None"
    then show ?thesis using assms by (simp add: enter_next_tag_def)
  next
    fix j assume a: "find_sub SPEECH_OPEN t = None" "find_sub ACTION_OPEN t = Some j"
    then have "j < i" if "find_sub SPEECH_OPEN (t @ x) = Some i" for i
      using late [OF a(1) that] early [OF a(2)] by simp
    then show ?thesis
      using a assms early [OF a(2)] find_sub_append [OF a(2), of x]
      by (cases "find_sub SPEECH_OPEN (t @ x)") (auto simp: enter_next_tag_def)
  next
    fix i assume a: "find_sub SPEECH_OPEN t = Some i" "find_sub ACTION_OPEN t = None"
    then have "i < j" if "find_sub ACTION_OPEN (t @ x) = Some j" for j
      using late [OF a(2) that] early [OF a(1)] by simp
    then show ?thesis
      using a assms early [OF a(1)] find_sub_append [OF a(1), of x]
      by (cases "find_sub ACTION_OPEN (t @ x)") (auto simp: enter_next_tag_def)
  next
    fix i j assume a: "find_sub SPEECH_OPEN t = Some i" "find_sub ACTION_OPEN t = Some j"
    then show ?thesis
      using assms early [OF a(1)] early [OF a(2)] find_sub_append [OF a(1), of x] find_sub_append [OF a(2), of x]
      by (auto simp: enter_next_tag_def split: if_splits)
  qed
qed

lemma enter_next_tag_None:
  "enter_next_tag t = None \<longleftrightarrow> find_sub SPEECH_OPEN t = None \<and> find_sub ACTION_OPEN t = None"
  by (auto simp: enter_next_tag_def split: option.splits if_splits)

lemma open_keep [simp]: "open_keep = 7"
  by (simp add: open_keep_def)

text \<open>What is kept outside is enough for every tag that is still to come.\<close>

lemma enter_next_tag_kept:
  assumes "enter_next_tag t = None"
  shows "enter_next_tag (t @ x) = enter_next_tag (keep_last open_keep t @ x)"
proof (cases "length t > 7")
  case True
  define k where "k = length t - 7"
  have k: "k + 8 \<le> length t + 1" "k \<le> length t" using True by (simp_all add: k_def)
  have none: "find_sub SPEECH_OPEN t = None" "find_sub ACTION_OPEN t = None"
    using assms by (simp_all add: enter_next_tag_None)
  have kept: "keep_last open_keep t = drop k t" using True by (simp add: keep_last_def k_def)
  have "find_sub SPEECH_OPEN (t @ x) = map_option (\<lambda>i. k + i) (find_sub SPEECH_OPEN (drop k t @ x))"
    "find_sub ACTION_OPEN (t @ x) = map_option (\<lambda>i. k + i) (find_sub ACTION_OPEN (drop k t @ x))"
    using find_sub_boundary [OF none(1), of k x] find_sub_boundary [OF none(2), of k x] k by auto
  moreover have "drop (k + i + 8) (t @ x) = drop (i + 8) (drop k t @ x)" for i
    using k(2) by (simp add: ac_simps)
  ultimately show ?thesis
    unfolding kept enter_next_tag_def by (simp split: option.split)
qed (simp add: keep_last_def)

lemma keep_last_append: "keep_last n (keep_last n t @ x) = keep_last n (t @ x)"
  by (auto simp: keep_last_def add.commute)

section \<open>Chunks do not matter\<close>

text \<open>Two streams of events that say the same, in possibly other pieces of speech.\<close>

definition same_events :: "ProtocolEvents \<Rightarrow> ProtocolEvents \<Rightarrow> bool" where
  "same_events a b \<longleftrightarrow> concat (pe_speech a) = concat (pe_speech b) \<and> pe_actions a = pe_actions b
     \<and> pe_errors a = pe_errors b"

lemma add_events_simps [simp]:
  "pe_speech (add_events a b) = pe_speech a @ pe_speech b"
  "pe_actions (add_events a b) = pe_actions a @ pe_actions b"
  "pe_errors (add_events a b) = pe_errors a @ pe_errors b"
  "pe_speech no_events = []" "pe_actions no_events = []" "pe_errors no_events = []"
  by (simp_all add: add_events_def no_events_def)

lemma same_events_refl [simp]: "same_events a a"
  by (simp add: same_events_def)

lemma consume_outside_kept:
  assumes "enter_next_tag t = None" "t \<noteq> []"
  shows "consume loads OUTSIDE (t @ x) = consume loads OUTSIDE (keep_last open_keep t @ x)"
proof -
  have "keep_last open_keep t \<noteq> []" using assms(2) by (cases t) (auto simp: keep_last_def)
  then show ?thesis
    using assms enter_next_tag_kept [OF assms(1), of x] keep_last_append [of open_keep t x]
    by (subst (1 2) consume.simps) (simp split: option.split)
qed

text \<open>The same for the last characters of a speech that may begin its closing tag.\<close>

lemma consume_speech_kept:
  assumes "find_sub SPEECH_CLOSE (u @ v) = None" "length v = 8" "u \<noteq> []"
    and "consume loads IN_SPEECH (v @ x) = (ev, st, rest)"
  shows "\<exists>ev'. consume loads IN_SPEECH (u @ v @ x) = (ev', st, rest)
    \<and> same_events ev' (add_events (no_events\<lparr>pe_speech := [u]\<rparr>) ev)"
proof -
  have find: "find_sub SPEECH_CLOSE (u @ v @ x)
      = map_option (\<lambda>i. length u + i) (find_sub SPEECH_CLOSE (v @ x))"
    using find_sub_boundary [OF assms(1), of "length u" x] assms(2) by simp
  have ne: "v @ x \<noteq> []" using assms(2) by auto
  show ?thesis
  proof (cases "find_sub SPEECH_CLOSE (v @ x)")
    case None
    then have "consume loads IN_SPEECH (u @ v @ x)
        = (no_events\<lparr>pe_speech := [u @ take (length x) (v @ x)]\<rparr>, IN_SPEECH, drop (length x) (v @ x))"
      using find assms(2,3) by (subst consume.simps) (simp add: Let_def)
    moreover have "rest = drop (length x) (v @ x)" "st = IN_SPEECH"
        "same_events (no_events\<lparr>pe_speech := [u @ take (length x) (v @ x)]\<rparr>)
          (add_events (no_events\<lparr>pe_speech := [u]\<rparr>) ev)"
      using assms(2,4) None ne
      by (subst (asm) consume.simps; auto simp: Let_def same_events_def split: if_splits)+
    ultimately show ?thesis by blast
  next
    case (Some i)
    then show ?thesis
      using assms(3,4) find ne
      by (subst consume.simps, subst (asm) consume.simps)
        (auto simp: same_events_def split: prod.splits if_splits)
  qed
qed

lemma consume_append:
  "consume loads st t = (ev1, st1, t1) \<Longrightarrow> consume loads st1 (t1 @ x) = (ev2, st2, t2) \<Longrightarrow>
     \<exists>ev. consume loads st (t @ x) = (ev, st2, t2) \<and> same_events ev (add_events ev1 ev2)"
proof (induction loads st t arbitrary: ev1 st1 t1 rule: consume.induct)
  case (1 loads st t)
  show ?case
  proof (cases "t = []")
    case True
    then show ?thesis using "1.prems" by (auto simp: consume.simps [of loads st "[]"] same_events_def)
  next
    case ne: False
    note first = "1.prems"(1) [unfolded consume.simps [of loads st t]]
    note whole = consume.simps [of loads st "t @ x"]
    show ?thesis
    proof (cases st)
      case OUTSIDE
      show ?thesis
      proof (cases "enter_next_tag t")
        case None
        then show ?thesis
          using first ne OUTSIDE "1.prems"(2) consume_outside_kept [OF None ne, of loads x]
          by (auto simp: same_events_def)
      next
        case (Some z)
        obtain st' rest where z: "z = (st', rest)" by (cases z)
        have "consume loads st' rest = (ev1, st1, t1)" using first ne OUTSIDE Some z by simp
        from "1.IH"(1) [OF ne OUTSIDE Some z [symmetric] this "1.prems"(2)]
        show ?thesis using enter_next_tag_append [of t st' rest x] Some z ne OUTSIDE whole by simp
      qed
    next
      case IN_SPEECH
      show ?thesis
      proof (cases "find_sub SPEECH_CLOSE t")
        case None
        show ?thesis
        proof (cases "length t \<le> 8")
          case True
          then show ?thesis
            using first ne IN_SPEECH None "1.prems"(2) by (auto simp: Let_def same_events_def)
        next
          case False
          define k where "k = length t + 1 - 9"
          have k: "0 < k" "length (drop k t) = 8" "take k t \<noteq> []" using False by (auto simp: k_def)
          have "ev1 = no_events\<lparr>pe_speech := [take k t]\<rparr>" "st1 = IN_SPEECH" "t1 = drop k t"
            using first ne IN_SPEECH None False by (auto simp: Let_def k_def)
          then show ?thesis
            using consume_speech_kept [of "take k t" "drop k t" loads x ev2 st2 t2] None k "1.prems"(2) IN_SPEECH
            by (simp flip: append_assoc)
        qed
      next
        case (Some i)
        have len: "i + 9 \<le> length t" using find_sub_starts [OF Some] by simp
        obtain ev' where ev': "consume loads OUTSIDE (drop (i + 9) t) = (ev', st1, t1)"
            "ev1 = add_events (if i = 0 then no_events else no_events\<lparr>pe_speech := [take i t]\<rparr>) ev'"
          using first ne IN_SPEECH Some by (auto split: prod.splits)
        from "1.IH"(2) [OF ne IN_SPEECH Some] ev'(1) "1.prems"(2)
        obtain ev where "consume loads OUTSIDE (drop (i + 9) t @ x) = (ev, st2, t2)"
            "same_events ev (add_events ev' ev2)" by auto
        then show ?thesis
          using find_sub_append [OF Some, of x] whole ne IN_SPEECH len ev'(2)
          by (auto simp: same_events_def)
      qed
    next
      case IN_ACTION
      show ?thesis
      proof (cases "find_sub ACTION_CLOSE t")
        case None
        then show ?thesis using first ne IN_ACTION "1.prems"(2) by (auto simp: same_events_def)
      next
        case (Some i)
        have len: "i + 9 \<le> length t" using find_sub_starts [OF Some] by simp
        obtain ev' where ev': "consume loads OUTSIDE (drop (i + 9) t) = (ev', st1, t1)"
            "ev1 = add_events (action_events loads (ustrip (take i t))) ev'"
          using first ne IN_ACTION Some by (auto split: prod.splits)
        from "1.IH"(3) [OF ne IN_ACTION Some] ev'(1) "1.prems"(2)
        obtain ev where "consume loads OUTSIDE (drop (i + 9) t @ x) = (ev, st2, t2)"
            "same_events ev (add_events ev' ev2)" by auto
        then show ?thesis
          using find_sub_append [OF Some, of x] whole ne IN_ACTION len ev'(2)
          by (auto simp: same_events_def)
      qed
    qed
  qed
qed

text \<open>A whole answer, chunk by chunk.\<close>

fun feed_all ::
  "(ustr \<Rightarrow> ustr + json) \<Rightarrow> ustr list \<Rightarrow> TaggedStreamParser \<Rightarrow> ProtocolEvents \<times> TaggedStreamParser" where
  "feed_all loads [] p = (no_events, p)"
| "feed_all loads (chunk # chunks) p =
     (case feed loads chunk p of (ev, p') \<Rightarrow>
        (case feed_all loads chunks p' of (ev', p'') \<Rightarrow> (add_events ev ev', p'')))"

lemma chunking_irrelevant:
  "same_events (fst (feed_all loads chunks parser_init)) (fst (feed loads (concat chunks) parser_init))
   \<and> snd (feed_all loads chunks parser_init) = snd (feed loads (concat chunks) parser_init)"
proof -
  have step: "same_events (add_events ev (fst (feed_all loads cs p))) (fst (feed loads (t @ concat cs) q))
      \<and> snd (feed_all loads cs p) = snd (feed loads (t @ concat cs) q)"
    if "feed loads t q = (ev, p)" for q p ev t cs
    using that
  proof (induction cs arbitrary: t ev p)
    case Nil
    then show ?case by (simp add: same_events_def)
  next
    case (Cons c cs)
    obtain ev2 p2 where c: "feed loads c p = (ev2, p2)" by (cases "feed loads c p")
    obtain ev1 st1 t1 where f: "consume loads (tp_state q) (tp_buffer q @ t) = (ev1, st1, t1)"
      by (cases "consume loads (tp_state q) (tp_buffer q @ t)")
    obtain ev3 st3 t3 where g: "consume loads st1 (t1 @ c) = (ev3, st3, t3)"
      by (cases "consume loads st1 (t1 @ c)")
    from consume_append [OF f g] obtain e where
      e: "consume loads (tp_state q) ((tp_buffer q @ t) @ c) = (e, st3, t3)" "same_events e (add_events ev1 ev3)"
      by blast
    have "feed loads (t @ c) q = (e, p2)" "ev = ev1" "ev2 = ev3"
      using Cons.prems c f g e(1) by (auto simp: feed_def)
    from Cons.IH [OF this(1)] this(2,3) e(2) show ?case
      using c by (auto simp: same_events_def case_prod_beta)
  qed
  have "feed loads [] parser_init = (no_events, parser_init)"
    by (simp add: feed_def parser_init_def consume.simps)
  from step [OF this, of chunks] show ?thesis by (simp add: same_events_def)
qed

text \<open>C15. How the model's answer is cut into tokens does not matter. For every way to split a text into
  chunks, feeding the chunks one by one gives the same speech, the same actions in the same order and
  the same errors as feeding the text at once, and leaves the parser in the same state; no tag is
  missed or made up at a chunk boundary, whatever the JSON reader does.\<close>

theorem parsing_ignores_chunking:
  "same_events (fst (feed_all loads chunks parser_init)) (fst (feed loads (concat chunks) parser_init))
   \<and> snd (feed_all loads chunks parser_init) = snd (feed loads (concat chunks) parser_init)"
  by (rule chunking_irrelevant)

section \<open>Printing and parsing an answer\<close>

datatype segment = Say ustr | Do ustr

fun print_segment :: "segment \<Rightarrow> ustr" where
  "print_segment (Say t) = SPEECH_OPEN @ t @ SPEECH_CLOSE"
| "print_segment (Do raw) = ACTION_OPEN @ raw @ ACTION_CLOSE"

fun printable :: "segment \<Rightarrow> bool" where
  "printable (Say t) = (\<not> contains SPEECH_CLOSE t)"
| "printable (Do raw) = (\<not> contains ACTION_CLOSE raw)"

fun segment_events :: "(ustr \<Rightarrow> ustr + json) \<Rightarrow> segment \<Rightarrow> ProtocolEvents" where
  "segment_events loads (Say t) = no_events\<lparr>pe_speech := [t]\<rparr>"
| "segment_events loads (Do raw) = action_events loads (ustrip raw)"

lemma contains_at: "contains p t \<longleftrightarrow> (\<exists>j \<le> length t. starts_with p (drop j t))"
proof (induction p t rule: contains.induct)
  case (1 p)
  then show ?case by (cases p) auto
next
  case (2 p c cs)
  then show ?case
    using all_le_Suc [of "length cs" "\<lambda>j. \<not> starts_with p (drop j (c # cs))"] by auto
qed

text \<open>A tag whose first character occurs nowhere else in it is found where it was written.\<close>

lemma find_sub_written:
  assumes "\<not> contains (c # p) t" "c \<notin> set p"
  shows "find_sub (c # p) (t @ (c # p) @ r) = Some (length t)"
proof (rule find_sub_eqI)
  show "starts_with (c # p) (drop (length t) (t @ (c # p) @ r))" by (simp add: starts_with_iff)
  fix j assume j: "j < length t"
  show "\<not> starts_with (c # p) (drop j (t @ (c # p) @ r))"
  proof
    assume s: "starts_with (c # p) (drop j (t @ (c # p) @ r))"
    show False
    proof (cases "j + length (c # p) \<le> length t")
      case True
      then have "starts_with (c # p) (drop j t)" using s by (simp add: starts_with_append del: drop_append)
      then show False using assms(1) j by (auto simp: contains_at)
    next
      case False
      define m where "m = length t - j"
      have m: "0 < m" "m < length (c # p)" using j False by (auto simp: m_def)
      have "drop j (t @ (c # p) @ r) ! m = c" using j by (simp add: m_def nth_append)
      moreover obtain q where "drop j (t @ (c # p) @ r) = (c # p) @ q"
        using s unfolding starts_with_iff by blast
      then have "(c # p) ! m = drop j (t @ (c # p) @ r) ! m" using m by (simp only: nth_append if_True)
      ultimately have "c \<in> set p" using m by (auto simp: nth_Cons' dest!: nth_mem)
      then show False using assms(2) by simp
    qed
  qed
qed simp

lemma tag_shape:
  "\<exists>p. SPEECH_CLOSE = 60 # p \<and> 60 \<notin> set p" "\<exists>p. ACTION_CLOSE = 60 # p \<and> 60 \<notin> set p"
  by (simp_all add: SPEECH_CLOSE_def ACTION_CLOSE_def codes_def of_char_def)

lemma tags_nonempty [simp]:
  "SPEECH_OPEN \<noteq> []" "ACTION_OPEN \<noteq> []" "SPEECH_CLOSE \<noteq> []" "ACTION_CLOSE \<noteq> []"
  by (simp_all flip: length_0_conv)

lemma find_closing:
  "\<not> contains SPEECH_CLOSE t \<Longrightarrow> find_sub SPEECH_CLOSE (t @ SPEECH_CLOSE @ r) = Some (length t)"
  "\<not> contains ACTION_CLOSE t \<Longrightarrow> find_sub ACTION_CLOSE (t @ ACTION_CLOSE @ r) = Some (length t)"
proof -
  obtain p q where "SPEECH_CLOSE = 60 # p" "60 \<notin> set p" "ACTION_CLOSE = 60 # q" "60 \<notin> set q"
    using tag_shape by blast
  then show "\<not> contains SPEECH_CLOSE t \<Longrightarrow> find_sub SPEECH_CLOSE (t @ SPEECH_CLOSE @ r) = Some (length t)"
    "\<not> contains ACTION_CLOSE t \<Longrightarrow> find_sub ACTION_CLOSE (t @ ACTION_CLOSE @ r) = Some (length t)"
    using find_sub_written [of 60 p t r] find_sub_written [of 60 q t r] by auto
qed

lemma enter_speech: "enter_next_tag (SPEECH_OPEN @ t) = Some (IN_SPEECH, t)"
proof -
  have "find_sub SPEECH_OPEN (SPEECH_OPEN @ t) = Some 0" by (rule find_sub_eqI) (auto simp: starts_with_iff)
  then show ?thesis by (simp add: enter_next_tag_def split: option.split)
qed

lemma enter_action: "enter_next_tag (ACTION_OPEN @ t) = Some (IN_ACTION, t)"
proof -
  have a: "find_sub ACTION_OPEN (ACTION_OPEN @ t) = Some 0" by (rule find_sub_eqI) (auto simp: starts_with_iff)
  have "\<not> starts_with SPEECH_OPEN (ACTION_OPEN @ t)"
    by (simp add: SPEECH_OPEN_def ACTION_OPEN_def codes_def of_char_def)
  then have "find_sub SPEECH_OPEN (ACTION_OPEN @ t) \<noteq> Some 0" using find_sub_starts by fastforce
  then show ?thesis using a by (auto simp: enter_next_tag_def split: option.split)
qed

lemma consume_printed:
  "list_all printable segs \<Longrightarrow>
     \<exists>ev. consume loads OUTSIDE (concat (map print_segment segs)) = (ev, OUTSIDE, [])
       \<and> same_events ev (foldr (\<lambda>s. add_events (segment_events loads s)) segs no_events)"
proof (induction segs)
  case Nil
  then show ?case by (simp add: consume.simps)
next
  case (Cons s segs)
  define rest where "rest = concat (map print_segment segs)"
  obtain ev where ev: "consume loads OUTSIDE rest = (ev, OUTSIDE, [])"
      "same_events ev (foldr (\<lambda>s. add_events (segment_events loads s)) segs no_events)"
    using Cons by (auto simp: rest_def)
  show ?case
  proof (cases s)
    case (Say t)
    have "find_sub SPEECH_CLOSE (t @ SPEECH_CLOSE @ rest) = Some (length t)"
      using find_closing(1) Cons.prems Say by simp
    then have "consume loads OUTSIDE (SPEECH_OPEN @ t @ SPEECH_CLOSE @ rest)
        = (add_events (if length t = 0 then no_events else no_events\<lparr>pe_speech := [t]\<rparr>) ev, OUTSIDE, [])"
      using ev(1) enter_speech [of "t @ SPEECH_CLOSE @ rest"]
      by (simp add: consume.simps [of loads OUTSIDE "SPEECH_OPEN @ t @ SPEECH_CLOSE @ rest"]
          consume.simps [of loads IN_SPEECH])
    then show ?thesis using ev(2) Say by (auto simp: rest_def same_events_def)
  next
    case (Do t)
    have "find_sub ACTION_CLOSE (t @ ACTION_CLOSE @ rest) = Some (length t)"
      using find_closing(2) Cons.prems Do by simp
    then have "consume loads OUTSIDE (ACTION_OPEN @ t @ ACTION_CLOSE @ rest)
        = (add_events (action_events loads (ustrip t)) ev, OUTSIDE, [])"
      using ev(1) enter_action [of "t @ ACTION_CLOSE @ rest"]
      by (simp add: consume.simps [of loads OUTSIDE "ACTION_OPEN @ t @ ACTION_CLOSE @ rest"]
          consume.simps [of loads IN_ACTION])
    then show ?thesis using ev(2) Do by (auto simp: rest_def same_events_def)
  qed
qed


text \<open>C16. A well-formed answer is read back exactly. An answer of spoken parts and action blocks, in
  which no part holds its own closing tag, may be cut into chunks in any way: the parser returns the
  spoken text, exactly the commands and errors of the action blocks in their order, and finishes
  outside every tag without any further error.\<close>

theorem printed_answer_roundtrip:
  assumes "list_all printable segs" "concat chunks = concat (map print_segment segs)"
  shows "same_events (fst (feed_all loads chunks parser_init))
       (foldr (\<lambda>s. add_events (segment_events loads s)) segs no_events)
     \<and> finish loads (snd (feed_all loads chunks parser_init)) = (no_events, parser_init)"
proof -
  obtain ev where ev: "consume loads OUTSIDE (concat chunks) = (ev, OUTSIDE, [])"
      "same_events ev (foldr (\<lambda>s. add_events (segment_events loads s)) segs no_events)"
    using consume_printed [OF assms(1), of loads] assms(2) by auto
  then have "feed loads (concat chunks) parser_init = (ev, parser_init)"
    by (simp add: feed_def parser_init_def)
  then have "same_events (fst (feed_all loads chunks parser_init)) ev"
      "snd (feed_all loads chunks parser_init) = parser_init"
    using chunking_irrelevant [of loads chunks] by simp_all
  moreover have "finish loads parser_init = (no_events, parser_init)"
    by (simp add: finish_def feed_def parser_init_def consume.simps ustrip_def)
  ultimately show ?thesis using ev(2) by (simp add: same_events_def)
qed

section \<open>A concrete answer\<close>

definition stop_reader :: "ustr \<Rightarrow> ustr + json" where
  "stop_reader raw = Inr (JObject [(codes ''name'', JString (codes ''stop''))])"

theorem printed_answer_roundtrip_witness:
  "concat (pe_speech (fst (feed_all stop_reader
       [codes ''<speech>ok</spe'', codes ''ech><action>{}</'', codes ''action>''] parser_init))) = codes ''ok''
   \<and> pe_actions (fst (feed_all stop_reader
       [codes ''<speech>ok</spe'', codes ''ech><action>{}</'', codes ''action>''] parser_init))
     = [action_command (codes ''stop'') []]"
proof -
  let ?segs = "[Say (codes ''ok''), Do (codes ''{}'')]"
  have "list_all printable ?segs"
    by (simp add: SPEECH_CLOSE_def ACTION_CLOSE_def codes_def of_char_def)
  moreover have "concat [codes ''<speech>ok</spe'', codes ''ech><action>{}</'', codes ''action>'']
      = concat (map print_segment ?segs)"
    by (simp add: SPEECH_OPEN_def SPEECH_CLOSE_def ACTION_OPEN_def ACTION_CLOSE_def codes_def)
  ultimately show ?thesis
    using printed_answer_roundtrip [of ?segs "[codes ''<speech>ok</spe'', codes ''ech><action>{}</'',
        codes ''action>'']" stop_reader]
    by (simp add: same_events_def action_events_def stop_reader_def action_items_def codes_def of_char_def)
qed

end
