(* ===== verification/Streaming_Turn.thy ===== *)
theory Streaming_Turn
  imports Stream_Protocol
begin

text \<open>
  One streamed turn of the agent: the sentence chunker of \<open>protocol.py\<close> and \<open>streaming_turn.py\<close>. The
  callbacks are events of a log; they do not raise. Which commands a text names by itself and which
  texts forbid the model to act are the arguments \<open>fallback\<close> and \<open>blocks\<close>.
\<close>

section \<open>Sentences\<close>

record SentenceChunker =
  sc_max_chars :: int
  sc_buffer :: ustr

definition BOUNDARIES :: "nat list" where
  "BOUNDARIES = [0x3002, 0xFF01, 0xFF1F, 0x21, 0x3F, 0xFF1B, 0x3B, 0xFF0C, 0x2C, 0x0A]"

fun chunker_feed :: "ustr \<Rightarrow> SentenceChunker \<Rightarrow> ustr list \<times> SentenceChunker" where
  "chunker_feed [] c = ([], c)"
| "chunker_feed (char # text') c =
     (let buffer = sc_buffer c @ [char]
      in if char \<in> set BOUNDARIES \<or> int (length buffer) \<ge> sc_max_chars c
         then (case chunker_feed text' (c\<lparr>sc_buffer := []\<rparr>) of
                 (chunks, c') \<Rightarrow> ((if ustrip buffer = [] then [] else [ustrip buffer]) @ chunks, c'))
         else chunker_feed text' (c\<lparr>sc_buffer := buffer\<rparr>))"

definition chunker_finish :: "SentenceChunker \<Rightarrow> ustr list \<times> SentenceChunker" where
  "chunker_finish c =
     (if ustrip (sc_buffer c) = [] then [] else [ustrip (sc_buffer c)], c\<lparr>sc_buffer := []\<rparr>)"

section \<open>The turn\<close>

datatype turn_event =
    FirstToken
  | SpeechDelta ustr
  | Speakable ustr
  | ProtocolError ustr

record StreamingTurnResult =
  str_assistant_text :: ustr
  str_model_output :: ustr
  str_raw_output :: ustr
  str_actions :: "ActionCommand list"
  str_model_actions :: "ActionCommand list"
  str_protocol_errors :: "ustr list"
  str_action_source :: string

record StreamingTurnRuntime =
  tr_parser :: TaggedStreamParser
  tr_chunker :: SentenceChunker
  tr_first_token :: bool
  tr_speech_parts :: "ustr list"
  tr_model_actions :: "ActionCommand list"
  tr_raw_output_parts :: "ustr list"
  tr_protocol_errors :: "ustr list"
  tr_finished :: bool
  tr_log :: "turn_event list"

definition FORMAT_ERROR_SPEECH :: ustr where
  "FORMAT_ERROR_SPEECH = [0x62B1, 0x6B49, 0xFF0C, 0x56DE, 0x590D, 0x683C, 0x5F0F, 0x89E3, 0x6790,
     0x5931, 0x8D25, 0xFF0C, 0x8BF7, 0x518D, 0x8BF4, 0x4E00, 0x6B21, 0x3002]"

definition turn_init :: "int \<Rightarrow> StreamingTurnRuntime" where
  "turn_init max_chunk_chars =
     \<lparr>tr_parser = parser_init, tr_chunker = \<lparr>sc_max_chars = max_chunk_chars, sc_buffer = []\<rparr>,
      tr_first_token = True, tr_speech_parts = [], tr_model_actions = [], tr_raw_output_parts = [],
      tr_protocol_errors = [], tr_finished = False, tr_log = []\<rparr>"

definition accept_speech :: "ustr \<Rightarrow> StreamingTurnRuntime \<Rightarrow> StreamingTurnRuntime" where
  "accept_speech delta t =
     (case chunker_feed delta (tr_chunker t) of
        (sentences, c) \<Rightarrow>
          t\<lparr>tr_speech_parts := tr_speech_parts t @ [delta], tr_chunker := c,
            tr_log := tr_log t @ SpeechDelta delta # map Speakable sentences\<rparr>)"

definition consume_events :: "ProtocolEvents \<Rightarrow> StreamingTurnRuntime \<Rightarrow> StreamingTurnRuntime" where
  "consume_events events t =
     (let t = fold accept_speech (pe_speech events) t
      in t\<lparr>tr_model_actions := tr_model_actions t @ pe_actions events,
           tr_protocol_errors := tr_protocol_errors t @ pe_errors events,
           tr_log := tr_log t @ map ProtocolError (pe_errors events)\<rparr>)"

definition turn_feed ::
  "(ustr \<Rightarrow> ustr + json) \<Rightarrow> ustr \<Rightarrow> StreamingTurnRuntime \<Rightarrow> StreamingTurnRuntime result" where
  "turn_feed loads token t =
     (if tr_finished t then Inl (RuntimeError ''streaming turn is already finished'')
      else
        (let t = t\<lparr>tr_raw_output_parts := tr_raw_output_parts t @ [token]\<rparr>;
             t = (if tr_first_token t
                  then t\<lparr>tr_first_token := False, tr_log := tr_log t @ [FirstToken]\<rparr> else t)
         in case feed loads token (tr_parser t) of
              (events, parser) \<Rightarrow> Inr (consume_events events (t\<lparr>tr_parser := parser\<rparr>))))"

definition select_actions ::
  "(ustr \<Rightarrow> ActionCommand list) \<Rightarrow> (ustr \<Rightarrow> bool) \<Rightarrow> ustr \<Rightarrow> bool \<Rightarrow> ActionCommand list
     \<Rightarrow> ActionCommand list \<times> string" where
  "select_actions fallback blocks user_text allow_actions model_actions =
     (if \<not> allow_actions then ([], ''context_blocked'')
      else if fallback user_text \<noteq> [] then (fallback user_text, ''deterministic'')
      else if blocks user_text then ([], ''blocked'')
      else if model_actions \<noteq> [] then (model_actions, ''model'')
      else ([], ''none''))"

text \<open>The last events of the parser, the answer to a broken format and the last sentence.\<close>

definition turn_drain :: "(ustr \<Rightarrow> ustr + json) \<Rightarrow> StreamingTurnRuntime \<Rightarrow> StreamingTurnRuntime" where
  "turn_drain loads t =
     (case finish loads (tr_parser t) of
        (events, parser) \<Rightarrow>
          (let t = consume_events events (t\<lparr>tr_finished := True, tr_parser := parser\<rparr>);
               t = (if tr_speech_parts t = [] then accept_speech FORMAT_ERROR_SPEECH t else t)
           in case chunker_finish (tr_chunker t) of
                (sentences, c) \<Rightarrow>
                  t\<lparr>tr_chunker := c, tr_log := tr_log t @ map Speakable sentences\<rparr>))"

definition turn_result ::
  "(ustr \<Rightarrow> ActionCommand list) \<Rightarrow> (ustr \<Rightarrow> bool) \<Rightarrow> ustr \<Rightarrow> bool \<Rightarrow> StreamingTurnRuntime
     \<Rightarrow> StreamingTurnResult" where
  "turn_result fallback blocks user_text allow_actions t =
     (case select_actions fallback blocks user_text allow_actions (tr_model_actions t) of
        (selected, source) \<Rightarrow>
          (let assistant_text = ustrip (concat (tr_speech_parts t));
               raw_output = ustrip (concat (tr_raw_output_parts t))
           in \<lparr>str_assistant_text = assistant_text,
               str_model_output =
                 (if raw_output \<noteq> [] \<and> tr_protocol_errors t = [] then raw_output
                  else SPEECH_OPEN @ assistant_text @ SPEECH_CLOSE),
               str_raw_output = raw_output, str_actions = selected,
               str_model_actions = tr_model_actions t, str_protocol_errors = tr_protocol_errors t,
               str_action_source = source\<rparr>))"

definition turn_finish ::
  "(ustr \<Rightarrow> ustr + json) \<Rightarrow> (ustr \<Rightarrow> ActionCommand list) \<Rightarrow> (ustr \<Rightarrow> bool) \<Rightarrow> ustr \<Rightarrow> bool
     \<Rightarrow> StreamingTurnRuntime \<Rightarrow> (StreamingTurnResult \<times> StreamingTurnRuntime) result" where
  "turn_finish loads fallback blocks user_text allow_actions t =
     (if tr_finished t then Inl (RuntimeError ''streaming turn is already finished'')
      else
        (let t = turn_drain loads t
         in Inr (turn_result fallback blocks user_text allow_actions t, t)))"

section \<open>Sentences are bounded and complete\<close>

definition visible :: "ustr \<Rightarrow> ustr" where
  "visible t = filter (\<lambda>c. \<not> is_uspace c) t"

lemma visible_append [simp]: "visible (a @ b) = visible a @ visible b"
  by (simp add: visible_def)

lemma visible_Cons [simp]:
  "visible (x # t) = (if is_uspace x then visible t else x # visible t)" "visible [] = []"
  by (simp_all add: visible_def)

lemma visible_dropWhile: "visible (dropWhile is_uspace t) = visible t"
  by (induction t) (auto simp: visible_def)

lemma visible_strip [simp]: "visible (ustrip t) = visible t"
proof -
  have "visible (rev t) = rev (visible t)" for t by (simp add: visible_def rev_filter)
  then show ?thesis by (metis ustrip_def visible_dropWhile rev_rev_ident)
qed

lemma ustrip_length: "length (ustrip t) \<le> length t"
  unfolding ustrip_def by (metis length_dropWhile_le length_rev le_trans)

lemma chunker_feed_spec:
  assumes "1 \<le> sc_max_chars c" "chunker_feed t c = (chunks, c')" "int (length (sc_buffer c)) < sc_max_chars c"
  shows "list_all (\<lambda>s. s \<noteq> [] \<and> int (length s) \<le> sc_max_chars c) chunks
    \<and> visible (concat chunks @ sc_buffer c') = visible (sc_buffer c @ t)
    \<and> sc_max_chars c' = sc_max_chars c \<and> int (length (sc_buffer c')) < sc_max_chars c"
  using assms
proof (induction t arbitrary: c chunks)
  case Nil
  then show ?case by simp
next
  case (Cons x t)
  define buffer where "buffer = sc_buffer c @ [x]"
  show ?case
  proof (cases "x \<in> set BOUNDARIES \<or> int (length buffer) \<ge> sc_max_chars c")
    case True
    obtain more where more: "chunker_feed t (c\<lparr>sc_buffer := []\<rparr>) = (more, c')"
        "chunks = (if ustrip buffer = [] then [] else [ustrip buffer]) @ more"
      using Cons.prems(2) True by (auto simp: buffer_def Let_def split: prod.splits)
    have short: "int (length (ustrip buffer)) \<le> sc_max_chars c"
      using ustrip_length [of buffer] Cons.prems(3) by (simp add: buffer_def)
    have "visible buffer = visible (ustrip buffer)" by simp
    then have empty: "ustrip buffer = [] \<Longrightarrow> visible buffer = []" by (simp add: visible_def)
    show ?thesis
      using Cons.IH [of "c\<lparr>sc_buffer := []\<rparr>" more] Cons.prems(1) more short empty
      by (auto simp: buffer_def)
  next
    case False
    then show ?thesis
      using Cons.IH [of "c\<lparr>sc_buffer := buffer\<rparr>" chunks] Cons.prems by (auto simp: buffer_def Let_def)
  qed
qed

section \<open>The turn as a whole\<close>

fun spoken :: "turn_event list \<Rightarrow> ustr list" where
  "spoken [] = []"
| "spoken (Speakable s # es) = s # spoken es"
| "spoken (_ # es) = spoken es"

lemma spoken_append [simp]: "spoken (a @ b) = spoken a @ spoken b"
  by (induction a rule: spoken.induct) auto

lemma spoken_maps [simp]: "spoken (map Speakable ss) = ss" "spoken (map ProtocolError es) = []"
  by (induction ss) (auto, induction es, auto)

text \<open>Everything said so far was spoken in short sentences or is waiting in the buffer.\<close>

definition speech_ok :: "int \<Rightarrow> StreamingTurnRuntime \<Rightarrow> bool" where
  "speech_ok n t \<longleftrightarrow> sc_max_chars (tr_chunker t) = n \<and> int (length (sc_buffer (tr_chunker t))) < n
     \<and> list_all (\<lambda>s. s \<noteq> [] \<and> int (length s) \<le> n) (spoken (tr_log t))
     \<and> visible (concat (spoken (tr_log t)) @ sc_buffer (tr_chunker t)) = visible (concat (tr_speech_parts t))"

lemma accept_speech_ok:
  assumes "speech_ok n t" "1 \<le> n"
  shows "speech_ok n (accept_speech delta t)"
proof -
  obtain ss c where c: "chunker_feed delta (tr_chunker t) = (ss, c)" by (cases "chunker_feed delta (tr_chunker t)")
  from chunker_feed_spec [OF _ c] assms show ?thesis
    by (auto simp: speech_ok_def accept_speech_def c)
qed

lemma accept_speech_simps [simp]:
  "tr_parser (accept_speech delta t) = tr_parser t" "tr_first_token (accept_speech delta t) = tr_first_token t"
  "tr_speech_parts (accept_speech delta t) = tr_speech_parts t @ [delta]"
  "tr_model_actions (accept_speech delta t) = tr_model_actions t"
  "tr_raw_output_parts (accept_speech delta t) = tr_raw_output_parts t"
  "tr_protocol_errors (accept_speech delta t) = tr_protocol_errors t"
  "tr_finished (accept_speech delta t) = tr_finished t"
  by (simp_all add: accept_speech_def split: prod.split)

lemma fold_accept_speech:
  "tr_parser (fold accept_speech ds t) = tr_parser t"
  "tr_speech_parts (fold accept_speech ds t) = tr_speech_parts t @ ds"
  "tr_model_actions (fold accept_speech ds t) = tr_model_actions t"
  "tr_raw_output_parts (fold accept_speech ds t) = tr_raw_output_parts t"
  "tr_protocol_errors (fold accept_speech ds t) = tr_protocol_errors t"
  "tr_finished (fold accept_speech ds t) = tr_finished t"
  by (induction ds arbitrary: t) auto

lemma fold_speech_ok: "speech_ok n t \<Longrightarrow> 1 \<le> n \<Longrightarrow> speech_ok n (fold accept_speech ds t)"
  by (induction ds arbitrary: t) (simp_all add: accept_speech_ok)

lemma consume_events_simps:
  "tr_parser (consume_events ev t) = tr_parser t"
  "tr_speech_parts (consume_events ev t) = tr_speech_parts t @ pe_speech ev"
  "tr_model_actions (consume_events ev t) = tr_model_actions t @ pe_actions ev"
  "tr_raw_output_parts (consume_events ev t) = tr_raw_output_parts t"
  "tr_protocol_errors (consume_events ev t) = tr_protocol_errors t @ pe_errors ev"
  "tr_finished (consume_events ev t) = tr_finished t"
  "speech_ok n t \<Longrightarrow> 1 \<le> n \<Longrightarrow> speech_ok n (consume_events ev t)"
  using fold_speech_ok [of n t "pe_speech ev"]
  by (auto simp: consume_events_def fold_accept_speech Let_def speech_ok_def)

fun turn_feed_all ::
  "(ustr \<Rightarrow> ustr + json) \<Rightarrow> ustr list \<Rightarrow> StreamingTurnRuntime \<Rightarrow> StreamingTurnRuntime result" where
  "turn_feed_all loads [] t = Inr t"
| "turn_feed_all loads (token # tokens) t = rbind (turn_feed loads token t) (turn_feed_all loads tokens)"

text \<open>What a turn has gathered, given the events of the parser.\<close>

definition gathered :: "int \<Rightarrow> ProtocolEvents \<Rightarrow> TaggedStreamParser \<Rightarrow> StreamingTurnRuntime \<Rightarrow> bool" where
  "gathered n ev p t \<longleftrightarrow> speech_ok n t \<and> \<not> tr_finished t \<and> tr_parser t = p
     \<and> tr_speech_parts t = pe_speech ev \<and> tr_model_actions t = pe_actions ev
     \<and> tr_protocol_errors t = pe_errors ev"

lemma turn_feed_gathers:
  assumes "gathered n ev p t" "1 \<le> n" "feed loads token p = (ev', p')"
  shows "\<exists>t'. turn_feed loads token t = Inr t' \<and> gathered n (add_events ev ev') p' t'"
proof -
  have "speech_ok n (t\<lparr>tr_raw_output_parts := a, tr_first_token := b, tr_log := tr_log t @ [FirstToken], tr_parser := p'\<rparr>)"
      "speech_ok n (t\<lparr>tr_raw_output_parts := a, tr_parser := p'\<rparr>)" for a b
    using assms(1) by (auto simp: gathered_def speech_ok_def)
  then show ?thesis
    using assms by (auto simp: gathered_def turn_feed_def Let_def consume_events_simps)
qed

lemma turn_feed_all_gathers:
  "gathered n ev p t \<Longrightarrow> 1 \<le> n \<Longrightarrow>
     \<exists>t'. turn_feed_all loads tokens t = Inr t'
       \<and> gathered n (add_events ev (fst (feed_all loads tokens p))) (snd (feed_all loads tokens p)) t'"
proof (induction tokens arbitrary: ev p t)
  case Nil
  then show ?case by (auto simp: gathered_def)
next
  case (Cons token tokens)
  obtain ev' p' where f: "feed loads token p = (ev', p')" by (cases "feed loads token p")
  obtain t1 where t1: "turn_feed loads token t = Inr t1" "gathered n (add_events ev ev') p' t1"
    using turn_feed_gathers [OF Cons.prems f] by blast
  have assoc: "add_events (add_events a b) c = add_events a (add_events b c)" for a b c
    by (simp add: add_events_def)
  show ?case using Cons.IH [OF t1(2) Cons.prems(2)] t1(1) f by (simp add: case_prod_beta assoc)
qed

text \<open>The closing call of the parser brings nothing but, at most, the complaint about a rest.\<close>

lemma finish_events:
  assumes "feed_all loads tokens parser_init = (ev, p)"
  shows "concat (pe_speech (fst (finish loads p))) = [] \<and> pe_actions (fst (finish loads p)) = []
    \<and> snd (finish loads p) = p"
proof -
  obtain ev1 st t where c: "consume loads OUTSIDE (concat tokens) = (ev1, st, t)"
    by (cases "consume loads OUTSIDE (concat tokens)")
  have p: "p = \<lparr>tp_buffer = t, tp_state = st\<rparr>"
    using chunking_irrelevant [of loads tokens] assms c by (simp add: feed_def parser_init_def)
  obtain ev2 st2 t2 where d: "consume loads st (t @ []) = (ev2, st2, t2)" by (cases "consume loads st (t @ [])")
  from consume_append [OF c d] c have "st2 = st" "t2 = t" "same_events ev1 (add_events ev1 ev2)" by auto
  then show ?thesis using d p by (auto simp: finish_def feed_def same_events_def)
qed


lemma turn_drain_spoken:
  assumes "speech_ok n t" "1 \<le> n" "finish loads (tr_parser t) = (ev, p)"
  shows "tr_model_actions (turn_drain loads t) = tr_model_actions t @ pe_actions ev
    \<and> tr_finished (turn_drain loads t)
    \<and> list_all (\<lambda>s. s \<noteq> [] \<and> int (length s) \<le> n) (spoken (tr_log (turn_drain loads t)))
    \<and> visible (concat (spoken (tr_log (turn_drain loads t))))
        = visible (concat (tr_speech_parts (turn_drain loads t)))"
proof -
  define t1 where "t1 = consume_events ev (t\<lparr>tr_finished := True, tr_parser := p\<rparr>)"
  define t2 where "t2 = (if tr_speech_parts t1 = [] then accept_speech FORMAT_ERROR_SPEECH t1 else t1)"
  obtain ss c where c: "chunker_finish (tr_chunker t2) = (ss, c)" by (cases "chunker_finish (tr_chunker t2)")
  have drain: "turn_drain loads t = t2\<lparr>tr_chunker := c, tr_log := tr_log t2 @ map Speakable ss\<rparr>"
    unfolding turn_drain_def assms(3) prod.case t1_def [symmetric] Let_def t2_def [symmetric] c ..
  have "speech_ok n t1"
    using assms(1) consume_events_simps(7) [OF _ assms(2)] by (auto simp: t1_def speech_ok_def)
  then have ok: "speech_ok n t2" using accept_speech_ok [OF _ assms(2)] by (simp add: t2_def)
  have short: "int (length (ustrip (sc_buffer (tr_chunker t2)))) \<le> n"
    using ok ustrip_length [of "sc_buffer (tr_chunker t2)"] by (simp add: speech_ok_def)
  have blank: "ustrip b = [] \<Longrightarrow> visible b = []" for b using visible_strip [of b] by simp
  have "list_all (\<lambda>s. s \<noteq> [] \<and> int (length s) \<le> n) (spoken (tr_log t2) @ ss)
      \<and> visible (concat (spoken (tr_log t2) @ ss)) = visible (concat (tr_speech_parts t2))"
    using ok c short blank by (auto simp: speech_ok_def chunker_finish_def split: if_splits)
  moreover have "tr_model_actions t2 = tr_model_actions t @ pe_actions ev" "tr_finished t2"
    by (auto simp: t2_def t1_def consume_events_simps)
  ultimately show ?thesis by (simp add: drain)
qed

text \<open>C17. A turn acts only with authority and speaks everything it was told. For every tokenisation of
  the model's answer the turn finishes; it reports as model actions exactly the commands of the closed
  action blocks of the answer; it selects commands only when the context allows actions, and then the
  deterministic ones of the user's text or, when there are none and the text does not forbid it, the
  model's; and the sentences handed to the speech synthesis are non-empty, no longer than the limit
  and carry, up to white space, exactly the reported text. A finished turn accepts nothing more.\<close>

theorem turn_acts_with_authority:
  assumes "1 \<le> max_chars"
  shows "\<exists>t res t'. turn_feed_all loads tokens (turn_init max_chars) = Inr t
     \<and> turn_finish loads fallback blocks user_text allow_actions t = Inr (res, t')
     \<and> str_model_actions res = pe_actions (fst (feed loads (concat tokens) parser_init))
     \<and> (str_actions res \<noteq> [] \<longrightarrow> allow_actions
          \<and> (str_actions res = fallback user_text
             \<or> fallback user_text = [] \<and> \<not> blocks user_text
               \<and> str_actions res = pe_actions (fst (feed loads (concat tokens) parser_init))))
     \<and> list_all (\<lambda>s. s \<noteq> [] \<and> int (length s) \<le> max_chars) (spoken (tr_log t'))
     \<and> visible (concat (spoken (tr_log t'))) = visible (str_assistant_text res)
     \<and> is_error (turn_feed loads token t')
     \<and> is_error (turn_finish loads fallback blocks user_text allow_actions t')"
proof -
  have init: "gathered max_chars no_events parser_init (turn_init max_chars)"
    using assms by (simp add: gathered_def speech_ok_def turn_init_def)
  obtain ev p where all: "feed_all loads tokens parser_init = (ev, p)"
    by (cases "feed_all loads tokens parser_init")
  obtain t where t: "turn_feed_all loads tokens (turn_init max_chars) = Inr t" "gathered max_chars ev p t"
    using turn_feed_all_gathers [OF init assms, of loads tokens] all by (auto simp: gathered_def)
  have acts: "pe_actions ev = pe_actions (fst (feed loads (concat tokens) parser_init))"
    using chunking_irrelevant [of loads tokens] all by (simp add: same_events_def)
  obtain ev2 where fin: "finish loads p = (ev2, p)" "pe_actions ev2 = []"
    using finish_events [OF all] by (cases "finish loads p") auto
  have drained: "tr_model_actions (turn_drain loads t) = pe_actions ev" "tr_finished (turn_drain loads t)"
      "list_all (\<lambda>s. s \<noteq> [] \<and> int (length s) \<le> max_chars) (spoken (tr_log (turn_drain loads t)))"
      "visible (concat (spoken (tr_log (turn_drain loads t)))) = visible (concat (tr_speech_parts (turn_drain loads t)))"
    using turn_drain_spoken [OF _ assms, of t loads] t(2) fin by (auto simp: gathered_def)
  have "turn_finish loads fallback blocks user_text allow_actions t
      = Inr (turn_result fallback blocks user_text allow_actions (turn_drain loads t), turn_drain loads t)"
    using t(2) by (simp add: turn_finish_def gathered_def Let_def)
  moreover have "str_model_actions (turn_result fallback blocks user_text allow_actions (turn_drain loads t)) = pe_actions ev"
      "str_assistant_text (turn_result fallback blocks user_text allow_actions (turn_drain loads t))
         = ustrip (concat (tr_speech_parts (turn_drain loads t)))"
      "str_actions (turn_result fallback blocks user_text allow_actions (turn_drain loads t)) \<noteq> [] \<longrightarrow> allow_actions
        \<and> (str_actions (turn_result fallback blocks user_text allow_actions (turn_drain loads t)) = fallback user_text
           \<or> fallback user_text = [] \<and> \<not> blocks user_text
             \<and> str_actions (turn_result fallback blocks user_text allow_actions (turn_drain loads t)) = pe_actions ev)"
    using drained(1) by (auto simp: turn_result_def select_actions_def Let_def)
  moreover have "is_error (turn_feed loads token (turn_drain loads t))"
      "is_error (turn_finish loads fallback blocks user_text allow_actions (turn_drain loads t))"
    using drained(2) by (simp_all add: turn_feed_def turn_finish_def)
  ultimately show ?thesis using t(1) drained(3,4) acts by auto
qed

theorem turn_acts_with_authority_witness:
  "\<exists>t res t'. turn_feed_all stop_reader [codes ''<action>{}</act'', codes ''ion>''] (turn_init 32) = Inr t
     \<and> turn_finish stop_reader (\<lambda>_. []) (\<lambda>_. False) (codes ''hi'') False t = Inr (res, t')
     \<and> str_actions res = []"
  using turn_acts_with_authority [of 32 stop_reader "[codes ''<action>{}</act'', codes ''ion>'']"
      "\<lambda>_. []" "\<lambda>_. False" "codes ''hi''" False "[]"] by fastforce

text \<open>An action block whose second item is bad is reported as an error, and yet its first command is
  carried out.\<close>

lemma bad_block_still_acts:
  assumes "loads (codes ''x'') = Inr (JList [JObject [(codes ''name'', JString (codes ''move''))], JNull])"
  shows "select_actions (\<lambda>_. []) (\<lambda>_. False) user_text True
      (pe_actions (fst (feed loads (ACTION_OPEN @ codes ''x'' @ ACTION_CLOSE) parser_init)))
        = ([action_command (codes ''move'') []], ''model'')
    \<and> pe_errors (fst (feed loads (ACTION_OPEN @ codes ''x'' @ ACTION_CLOSE) parser_init)) \<noteq> []"
proof -
  have "list_all printable [Do (codes ''x'')]"
    by (simp add: ACTION_CLOSE_def codes_def of_char_def)
  from consume_printed [OF this, of loads] obtain ev where
    "consume loads OUTSIDE (ACTION_OPEN @ codes ''x'' @ ACTION_CLOSE) = (ev, OUTSIDE, [])"
    "same_events ev (segment_events loads (Do (codes ''x'')))"
    by (auto simp: same_events_def)
  moreover have "ustrip (codes ''x'') = codes ''x''" by (simp add: ustrip_def codes_def of_char_def is_uspace_def)
  ultimately show ?thesis
    using assms
    by (simp add: feed_def parser_init_def same_events_def action_events_def action_items_def
        select_actions_def codes_def of_char_def)
qed

end
