(* ===== verification/Voice_Session.thy ===== *)
theory Voice_Session
  imports Stream_Protocol
begin

text \<open>
  Continuous voice control: the wake word gate of \<open>wakeword.py\<close>, the wake provider of
  \<open>wake_provider.py\<close>, the session of \<open>continuous_voice.py\<close> and the retry counter of
  \<open>recognition_retry.py\<close>. The clock is the sequence of its future readings; every call of
  \<open>self._clock()\<close> takes the next one.
\<close>

section \<open>The clock\<close>

type_synonym clock = "nat \<Rightarrow> pyfloat"

definition tick :: "clock \<Rightarrow> pyfloat \<times> clock" where
  "tick clk = (clk 0, \<lambda>n. clk (Suc n))"

section \<open>Wake words\<close>

record WakeWordGate =
  wg_words :: "ustr list"
  wg_enabled :: bool
  wg_active_timeout_s :: pyfloat
  wg_active_until :: pyfloat

text \<open>The distinct triggers, longest first. Among triggers of the same length the program takes the
  order of a set, which is arbitrary.\<close>

definition wake_triggers :: "ustr list \<Rightarrow> ustr list \<Rightarrow> ustr list" where
  "wake_triggers words aliases =
     rev (sort_key length (remdups (map (\<lambda>w. map ulower (ustrip w))
       (filter (\<lambda>w. ustrip w \<noteq> []) (words @ aliases)))))"

definition wake_word_gate ::
  "ustr list \<Rightarrow> ustr list \<Rightarrow> bool \<Rightarrow> pyfloat \<Rightarrow> WakeWordGate" where
  "wake_word_gate words aliases enabled active_timeout_s =
     \<lparr>wg_words = wake_triggers words aliases, wg_enabled = enabled,
      wg_active_timeout_s = active_timeout_s, wg_active_until = 0\<rparr>"

definition REMAINDER_STRIP :: "nat list" where
  "REMAINDER_STRIP = [0x0020, 0xFF0C, 0x002C, 0x3002, 0x002E, 0x0021, 0xFF01, 0x003F, 0xFF1F]"

definition strip_set :: "nat list \<Rightarrow> ustr \<Rightarrow> ustr" where
  "strip_set cs t = rev (dropWhile (\<lambda>c. c \<in> set cs) (rev (dropWhile (\<lambda>c. c \<in> set cs) t)))"

text \<open>The first trigger of the list that occurs, with its position.\<close>

fun find_trigger :: "ustr list \<Rightarrow> ustr \<Rightarrow> (ustr \<times> nat) option" where
  "find_trigger [] lowered = None"
| "find_trigger (word # words) lowered =
     (case find_sub word lowered of
        Some index \<Rightarrow> Some (word, index)
      | None \<Rightarrow> find_trigger words lowered)"

definition gate_process :: "ustr \<Rightarrow> WakeWordGate \<Rightarrow> clock \<Rightarrow> ustr option \<times> WakeWordGate \<times> clock" where
  "gate_process transcript g clk =
     (let t = ustrip transcript
      in if t = [] then (None, g, clk)
         else if \<not> wg_enabled g then (Some t, g, clk)
         else case find_trigger (wg_words g) (map ulower t) of
           Some (word, index) \<Rightarrow>
             (case tick clk of (now, clk) \<Rightarrow>
                let remainder = strip_set REMAINDER_STRIP (take index t @ drop (index + length word) t)
                in (if remainder = [] then None else Some remainder,
                    g\<lparr>wg_active_until := now + wg_active_timeout_s g\<rparr>, clk))
         | None \<Rightarrow>
             (case tick clk of (now, clk) \<Rightarrow>
                if now \<le> wg_active_until g
                then (case tick clk of (now, clk) \<Rightarrow>
                        (Some t, g\<lparr>wg_active_until := now + wg_active_timeout_s g\<rparr>, clk))
                else (None, g, clk)))"

definition gate_active :: "WakeWordGate \<Rightarrow> clock \<Rightarrow> bool \<times> clock" where
  "gate_active g clk = (case tick clk of (now, clk) \<Rightarrow> (now \<le> wg_active_until g, clk))"

definition gate_wake :: "WakeWordGate \<Rightarrow> clock \<Rightarrow> WakeWordGate \<times> clock" where
  "gate_wake g clk =
     (case tick clk of (now, clk) \<Rightarrow> (g\<lparr>wg_active_until := now + wg_active_timeout_s g\<rparr>, clk))"

definition gate_sleep :: "WakeWordGate \<Rightarrow> WakeWordGate" where
  "gate_sleep g = g\<lparr>wg_active_until := 0\<rparr>"

section \<open>The wake provider\<close>

datatype WakeEventKind = WK_WAKE | WK_CONTINUE | WK_REJECTED | WK_SLEEP

record WakeEvent =
  we_kind :: WakeEventKind
  we_provider :: string
  we_transcript :: ustr
  we_command :: "ustr option"

record WakeDecision =
  wd_command :: "ustr option"
  wd_active :: bool
  wd_event :: WakeEvent

definition wake_event :: "WakeEventKind \<Rightarrow> string \<Rightarrow> ustr \<Rightarrow> ustr option \<Rightarrow> WakeEvent" where
  "wake_event kind provider transcript command =
     \<lparr>we_kind = kind, we_provider = provider, we_transcript = transcript, we_command = command\<rparr>"

definition provider_active :: "WakeWordGate \<Rightarrow> clock \<Rightarrow> bool \<times> clock" where
  "provider_active g clk = (if \<not> wg_enabled g then (True, clk) else gate_active g clk)"

definition provider_accept :: "ustr \<Rightarrow> WakeWordGate \<Rightarrow> clock \<Rightarrow> WakeDecision \<times> WakeWordGate \<times> clock" where
  "provider_accept transcript g clk =
     (case provider_active g clk of (was_active, clk) \<Rightarrow>
      case gate_process transcript g clk of (command, g, clk) \<Rightarrow>
      case provider_active g clk of (active, clk) \<Rightarrow>
      let kind = (if command \<noteq> None then (if was_active then WK_CONTINUE else WK_WAKE)
                  else if active \<and> \<not> was_active then WK_WAKE else WK_REJECTED)
      in (\<lparr>wd_command = command, wd_active = active,
           wd_event = wake_event kind ''text'' transcript command\<rparr>, g, clk))"

definition provider_or_external :: "string \<Rightarrow> string" where
  "provider_or_external provider = (if provider = [] then ''external'' else provider)"

section \<open>The session\<close>

definition DEFAULT_SLEEP_WORDS :: "ustr list" where
  "DEFAULT_SLEEP_WORDS = [
     [0x9000, 0x51FA, 0x63A7, 0x5236],
     [0x7ED3, 0x675F, 0x63A7, 0x5236],
     [0x4F11, 0x7720],
     [0x7761, 0x7720],
     [0x5148, 0x8FD9, 0x6837]]"

definition DEFAULT_EXACT_SLEEP_WORDS :: "ustr list" where
  "DEFAULT_EXACT_SLEEP_WORDS = [
     [0x9000, 0x51FA],
     [0x7ED3, 0x675F]]"

definition DEFAULT_PRIORITY_STOP_WORDS :: "ustr list" where
  "DEFAULT_PRIORITY_STOP_WORDS = [
     [0x505C, 0x4E0B],
     [0x505C, 0x6B62],
     [0x6025, 0x505C],
     [0x5239, 0x8F66],
     [0x522B, 0x52A8]]"

definition DEFAULT_FILLER_WORDS :: "ustr list" where
  "DEFAULT_FILLER_WORDS = [
     [0x55EF],
     [0x55EF, 0x55EF],
     [0x554A],
     [0x54E6],
     [0x5662],
     [0x5443],
     [0x989D],
     [0x5514]]"

definition PUNCTUATION_CHARS :: "nat list" where
  "PUNCTUATION_CHARS = [0x0020, 0x0009, 0x000D, 0x000A, 0xFF0C, 0x3002, 0xFF01, 0xFF1F, 0x0021, 0x003F, 0x3001, 0x002C, 0x002E, 0xFF1B, 0x003B, 0xFF1A, 0x003A]"

datatype SessionEventKind = SE_WAKE | SE_COMMAND | SE_REJECTED | SE_SLEEP

record SessionEvent =
  se_kind :: SessionEventKind
  se_session_state :: string
  se_wake_event :: WakeEvent
  se_transcript :: ustr
  se_command :: "ustr option"

record SessionDecision =
  sd_command :: "ustr option"
  sd_accepted :: bool
  sd_reason :: string
  sd_session_active :: bool
  sd_priority_stop :: bool
  sd_event :: SessionEvent

record ContinuousVoiceSession =
  vs_gate :: WakeWordGate
  vs_enabled :: bool
  vs_sleep_words :: "ustr list"
  vs_exact_sleep_words :: "ustr list"
  vs_priority_stop_words :: "ustr list"
  vs_filler_words :: "ustr list"
  vs_duplicate_window_s :: pyfloat
  vs_last_command_text :: ustr
  vs_last_command_at :: pyfloat
  vs_had_active_session :: bool

definition normalize_short_text :: "ustr \<Rightarrow> ustr" where
  "normalize_short_text t = map ulower (filter (\<lambda>c. c \<notin> set PUNCTUATION_CHARS) t)"

definition voice_session :: "WakeWordGate \<Rightarrow> bool \<Rightarrow> pyfloat \<Rightarrow> ContinuousVoiceSession" where
  "voice_session gate enabled duplicate_window_s =
     \<lparr>vs_gate = gate, vs_enabled = enabled, vs_sleep_words = DEFAULT_SLEEP_WORDS,
      vs_exact_sleep_words = map normalize_short_text DEFAULT_EXACT_SLEEP_WORDS,
      vs_priority_stop_words = DEFAULT_PRIORITY_STOP_WORDS,
      vs_filler_words = map normalize_short_text DEFAULT_FILLER_WORDS,
      vs_duplicate_window_s = pymax 0 duplicate_window_s, vs_last_command_text = [],
      vs_last_command_at = 0, vs_had_active_session = False\<rparr>"

definition is_filler :: "ContinuousVoiceSession \<Rightarrow> ustr \<Rightarrow> bool" where
  "is_filler s t \<longleftrightarrow>
     normalize_short_text t \<noteq> [] \<and> normalize_short_text t \<in> set (vs_filler_words s)"

definition is_sleep_command :: "ContinuousVoiceSession \<Rightarrow> ustr \<Rightarrow> bool" where
  "is_sleep_command s t \<longleftrightarrow>
     contains_any (vs_sleep_words s) t
     \<or> normalize_short_text t \<noteq> [] \<and> normalize_short_text t \<in> set (vs_exact_sleep_words s)"

definition is_duplicate_command ::
  "ContinuousVoiceSession \<Rightarrow> ustr \<Rightarrow> clock \<Rightarrow> bool \<times> clock" where
  "is_duplicate_command s command clk =
     (if vs_duplicate_window_s s \<le> 0 then (False, clk)
      else
        (let normalized = normalize_short_text command
         in if normalized = [] \<or> normalized \<noteq> vs_last_command_text s then (False, clk)
            else case tick clk of (now, clk) \<Rightarrow>
              (now - vs_last_command_at s \<le> vs_duplicate_window_s s, clk)))"

definition remember_command ::
  "ustr \<Rightarrow> ContinuousVoiceSession \<Rightarrow> clock \<Rightarrow> ContinuousVoiceSession \<times> clock" where
  "remember_command command s clk =
     (case tick clk of (now, clk) \<Rightarrow>
        (s\<lparr>vs_last_command_text := normalize_short_text command, vs_last_command_at := now\<rparr>, clk))"

definition forget_command :: "ContinuousVoiceSession \<Rightarrow> ContinuousVoiceSession" where
  "forget_command s = s\<lparr>vs_last_command_text := [], vs_last_command_at := 0\<rparr>"

definition session_kind :: "WakeEvent \<Rightarrow> bool \<Rightarrow> SessionEventKind" where
  "session_kind e accepted =
     (if we_kind e = WK_SLEEP then SE_SLEEP
      else if accepted then SE_COMMAND
      else if we_kind e = WK_WAKE then SE_WAKE
      else SE_REJECTED)"

definition decision_from_wake ::
  "WakeDecision \<Rightarrow> bool \<Rightarrow> string \<Rightarrow> ustr option \<Rightarrow> bool \<Rightarrow> SessionDecision" where
  "decision_from_wake w accepted reason command priority_stop =
     \<lparr>sd_command = command, sd_accepted = accepted, sd_reason = reason,
      sd_session_active = wd_active w, sd_priority_stop = priority_stop,
      sd_event = \<lparr>se_kind = session_kind (wd_event w) accepted,
        se_session_state = (if wd_active w then ''awake'' else ''sleeping''),
        se_wake_event = wd_event w, se_transcript = we_transcript (wd_event w),
        se_command = command\<rparr>\<rparr>"

text \<open>A transcript that is refused before the wake provider sees it.\<close>

definition refuse ::
  "string \<Rightarrow> ustr \<Rightarrow> ContinuousVoiceSession \<Rightarrow> clock
     \<Rightarrow> SessionDecision \<times> ContinuousVoiceSession \<times> clock" where
  "refuse reason transcript s clk =
     (case provider_active (vs_gate s) clk of (active, clk) \<Rightarrow>
        (decision_from_wake \<lparr>wd_command = None, wd_active = active,
             wd_event = wake_event WK_REJECTED ''text'' transcript None\<rparr> False reason None False, s, clk))"

definition sleep_session ::
  "ustr \<Rightarrow> ContinuousVoiceSession \<Rightarrow> SessionDecision \<times> ContinuousVoiceSession" where
  "sleep_session transcript s =
     (\<lparr>sd_command = None, sd_accepted = False, sd_reason = ''session_sleep'',
       sd_session_active = False, sd_priority_stop = False,
       sd_event = \<lparr>se_kind = SE_SLEEP, se_session_state = ''sleeping'',
         se_wake_event = wake_event WK_SLEEP ''text'' [] None, se_transcript = transcript,
         se_command = None\<rparr>\<rparr>,
      forget_command (s\<lparr>vs_gate := gate_sleep (vs_gate s), vs_had_active_session := False\<rparr>))"

text \<open>What is done with the decision of the wake provider.\<close>

definition no_command_decision ::
  "WakeDecision \<Rightarrow> ContinuousVoiceSession \<Rightarrow> SessionDecision \<times> ContinuousVoiceSession" where
  "no_command_decision w s =
     (if \<not> wd_active w \<and> vs_had_active_session s
      then (decision_from_wake w False ''session_timeout'' None False,
            forget_command (s\<lparr>vs_had_active_session := False\<rparr>))
      else (decision_from_wake w False
              (if wd_active w then ''session_awake'' else ''wake_word_not_detected'') None False, s))"

definition command_decision ::
  "ustr \<Rightarrow> WakeDecision \<Rightarrow> ContinuousVoiceSession \<Rightarrow> clock
     \<Rightarrow> SessionDecision \<times> ContinuousVoiceSession \<times> clock" where
  "command_decision command w s clk =
     (let priority_stop = contains_any (vs_priority_stop_words s) command
      in if priority_stop
         then (decision_from_wake w True ''accepted'' (Some command) True,
               s\<lparr>vs_had_active_session := wd_active w\<rparr>, clk)
         else case is_duplicate_command s command clk of (duplicate, clk) \<Rightarrow>
           if duplicate
           then (decision_from_wake w False ''duplicate_command'' None False, s, clk)
           else case remember_command command s clk of (s, clk) \<Rightarrow>
             (decision_from_wake w True ''accepted'' (Some command) False,
              s\<lparr>vs_had_active_session := wd_active w\<rparr>, clk))"

definition session_accept ::
  "ustr \<Rightarrow> ContinuousVoiceSession \<Rightarrow> clock \<Rightarrow> SessionDecision \<times> ContinuousVoiceSession \<times> clock" where
  "session_accept transcript s clk =
     (let t = ustrip transcript
      in if t = [] then refuse ''empty'' transcript s clk
         else if is_filler s t then refuse ''filler'' transcript s clk
         else if vs_enabled s \<and> is_sleep_command s t
         then (case sleep_session transcript s of (d, s) \<Rightarrow> (d, s, clk))
         else case provider_accept t (vs_gate s) clk of (w, g, clk) \<Rightarrow>
           (let s = s\<lparr>vs_gate := g\<rparr>;
                s = (if we_kind (wd_event w) = WK_WAKE
                     then forget_command (s\<lparr>vs_had_active_session := True\<rparr>) else s)
            in case wd_command w of
                 None \<Rightarrow> (case no_command_decision w s of (d, s) \<Rightarrow> (d, s, clk))
               | Some command \<Rightarrow> command_decision command w s clk))"

definition external_wake ::
  "string \<Rightarrow> ustr \<Rightarrow> ContinuousVoiceSession \<Rightarrow> clock \<Rightarrow> SessionEvent \<times> ContinuousVoiceSession \<times> clock" where
  "external_wake provider transcript s clk =
     (case gate_wake (vs_gate s) clk of (g, clk) \<Rightarrow>
        (\<lparr>se_kind = SE_WAKE, se_session_state = ''awake'',
          se_wake_event = wake_event WK_WAKE (provider_or_external provider) transcript None,
          se_transcript = transcript, se_command = None\<rparr>,
         forget_command (s\<lparr>vs_gate := g, vs_had_active_session := True\<rparr>), clk))"

definition external_sleep :: "string \<Rightarrow> ContinuousVoiceSession \<Rightarrow> SessionEvent \<times> ContinuousVoiceSession" where
  "external_sleep provider s =
     (\<lparr>se_kind = SE_SLEEP, se_session_state = ''sleeping'',
       se_wake_event = wake_event WK_SLEEP (provider_or_external provider) [] None,
       se_transcript = [], se_command = None\<rparr>,
      forget_command (s\<lparr>vs_gate := gate_sleep (vs_gate s), vs_had_active_session := False\<rparr>))"

section \<open>Retries\<close>

record RecognitionRetryTracker =
  rt_max_attempts :: int
  rt_attempt :: int

definition retry_tracker :: "int \<Rightarrow> RecognitionRetryTracker" where
  "retry_tracker max_attempts = \<lparr>rt_max_attempts = max 1 max_attempts, rt_attempt = 0\<rparr>"

definition retry_failed :: "RecognitionRetryTracker \<Rightarrow> int \<times> RecognitionRetryTracker" where
  "retry_failed r =
     (let attempt = rt_attempt r mod rt_max_attempts r + 1 in (attempt, r\<lparr>rt_attempt := attempt\<rparr>))"

definition retry_succeeded :: "RecognitionRetryTracker \<Rightarrow> RecognitionRetryTracker" where
  "retry_succeeded r = r\<lparr>rt_attempt := 0\<rparr>"

section \<open>Asleep until woken\<close>

datatype voice_op = Hear ustr | ExternalSleep string

fun voice_step :: "voice_op \<Rightarrow> ContinuousVoiceSession \<times> clock \<Rightarrow> SessionDecision option \<times> ContinuousVoiceSession \<times> clock" where
  "voice_step (Hear transcript) (s, clk) =
     (case session_accept transcript s clk of (d, s, clk) \<Rightarrow> (Some d, s, clk))"
| "voice_step (ExternalSleep provider) (s, clk) = (None, snd (external_sleep provider s), clk)"

fun voice_run :: "voice_op list \<Rightarrow> ContinuousVoiceSession \<times> clock \<Rightarrow> SessionDecision list" where
  "voice_run [] w = []"
| "voice_run (op # ops) w =
     (case voice_step op w of (d, w) \<Rightarrow> (case d of None \<Rightarrow> [] | Some d \<Rightarrow> [d]) @ voice_run ops w)"

text \<open>A transcript in which no trigger occurs.\<close>

fun no_trigger :: "ustr list \<Rightarrow> voice_op \<Rightarrow> bool" where
  "no_trigger words (Hear transcript) = (find_trigger words (map ulower (ustrip transcript)) = None)"
| "no_trigger words (ExternalSleep _) = True"

definition asleep :: "ustr list \<Rightarrow> ContinuousVoiceSession \<Rightarrow> bool" where
  "asleep words s \<longleftrightarrow> wg_enabled (vs_gate s) \<and> wg_active_until (vs_gate s) = 0 \<and> wg_words (vs_gate s) = words"

lemma ustrip_idem [simp]: "ustrip (ustrip t) = ustrip t"
proof -
  define a where "a = dropWhile is_uspace t"
  define b where "b = rev (dropWhile is_uspace (rev a))"
  have "a = [] \<or> \<not> is_uspace (hd a)" unfolding a_def by (rule dropWhile_not_hd)
  from dropWhile_rev_dropWhile_id [OF b_def this] have "dropWhile is_uspace b = b"
    by (cases b) auto
  moreover have "dropWhile is_uspace (rev b) = rev b" by (simp add: b_def)
  moreover have "ustrip t = b" by (simp add: ustrip_def a_def b_def)
  ultimately show ?thesis by (simp add: ustrip_def)
qed

lemma asleep_forget [simp]: "asleep words (forget_command s) = asleep words s"
  by (simp add: asleep_def forget_command_def)

lemma asleep_provider:
  assumes "asleep words s" "find_trigger words (map ulower (ustrip t)) = None" "\<forall>n. 0 < clk n"
  shows "\<exists>clk'. provider_accept t (vs_gate s) clk
      = (\<lparr>wd_command = None, wd_active = False, wd_event = wake_event WK_REJECTED ''text'' t None\<rparr>,
         vs_gate s, clk') \<and> (\<forall>n. 0 < clk' n)"
proof -
  have "\<not> clk n \<le> 0" for n using assms(3) flt_not_le_less by blast
  then show ?thesis
    using assms
    by (auto simp: provider_accept_def provider_active_def gate_active_def gate_process_def tick_def
        asleep_def Let_def)
qed

lemma asleep_step:
  assumes "asleep words s" "no_trigger words op" "\<forall>n. 0 < clk n"
    and "voice_step op (s, clk) = (d, s', clk')"
  shows "asleep words s' \<and> (\<forall>n. 0 < clk' n)
    \<and> (\<forall>x. d = Some x \<longrightarrow> \<not> sd_accepted x \<and> sd_command x = None \<and> \<not> sd_session_active x)"
proof (cases op)
  case (ExternalSleep p)
  then show ?thesis
    using assms by (auto simp: external_sleep_def asleep_def forget_command_def gate_sleep_def)
next
  case (Hear t)
  have no: "\<not> clk n \<le> 0" for n using assms(3) flt_not_le_less by blast
  have refused: "\<exists>x clk'. refuse why t s clk = (x, s, clk') \<and> (\<forall>n. 0 < clk' n)
      \<and> \<not> sd_accepted x \<and> sd_command x = None \<and> \<not> sd_session_active x" for why
    using assms(1,3) no
    by (auto simp: refuse_def provider_active_def gate_active_def tick_def asleep_def decision_from_wake_def)
  obtain clk1 where w: "provider_accept (ustrip t) (vs_gate s) clk
      = (\<lparr>wd_command = None, wd_active = False, wd_event = wake_event WK_REJECTED ''text'' (ustrip t) None\<rparr>,
         vs_gate s, clk1)" "\<forall>n. 0 < clk1 n"
    using asleep_provider [OF assms(1) _ assms(3), of "ustrip t"] assms(2) Hear by auto
  have slept: "asleep words (snd (sleep_session t s))" "\<not> sd_accepted (fst (sleep_session t s))"
      "sd_command (fst (sleep_session t s)) = None" "\<not> sd_session_active (fst (sleep_session t s))"
    using assms(1) by (auto simp: sleep_session_def asleep_def forget_command_def gate_sleep_def)
  consider "ustrip t = []" | "ustrip t \<noteq> []" "is_filler s (ustrip t)"
    | "ustrip t \<noteq> []" "\<not> is_filler s (ustrip t)" "vs_enabled s \<and> is_sleep_command s (ustrip t)"
    | "ustrip t \<noteq> []" "\<not> is_filler s (ustrip t)" "\<not> (vs_enabled s \<and> is_sleep_command s (ustrip t))"
    by blast
  then show ?thesis
  proof cases
    case 1
    then show ?thesis using refused [of "''empty''"] assms(1,4) Hear by (auto simp: session_accept_def Let_def)
  next
    case 2
    then show ?thesis using refused [of "''filler''"] assms(1,4) Hear by (auto simp: session_accept_def Let_def)
  next
    case 3
    then show ?thesis
      using slept assms(3,4) Hear by (auto simp: session_accept_def Let_def split: prod.splits)
  next
    case 4
    then show ?thesis
      using w assms(1,4) Hear
      by (auto simp: session_accept_def Let_def wake_event_def no_command_decision_def decision_from_wake_def
          asleep_def forget_command_def split: if_splits)
  qed
qed

text \<open>C25. A sleeping session hears no command. After the session was put to sleep, by a spoken word or
  from outside, and with a clock that reads positive times, no transcript is accepted, gives a command
  or makes the session active until one of them contains a wake word: not even a stop word, a repeated
  command or a text that would have been inside the old window.\<close>

theorem asleep_until_woken:
  assumes "wg_enabled (vs_gate s)" "\<forall>n. 0 < clk n" "list_all (no_trigger (wg_words (vs_gate s))) ops"
  shows "list_all (\<lambda>d. \<not> sd_accepted d \<and> sd_command d = None \<and> \<not> sd_session_active d)
     (voice_run ops (snd (external_sleep provider s), clk))"
proof -
  have "asleep words s \<Longrightarrow> \<forall>n. 0 < clk n \<Longrightarrow> list_all (no_trigger words) ops \<Longrightarrow>
      list_all (\<lambda>d. \<not> sd_accepted d \<and> sd_command d = None \<and> \<not> sd_session_active d) (voice_run ops (s, clk))"
    for words s clk
  proof (induction ops arbitrary: s clk)
    case (Cons op ops)
    obtain d s' clk' where step: "voice_step op (s, clk) = (d, s', clk')" by (cases "voice_step op (s, clk)")
    from asleep_step [OF Cons.prems(1) _ Cons.prems(2) step] Cons.prems(3) Cons.IH [of s' clk']
    show ?case using step by (auto split: option.split)
  qed simp
  moreover have "asleep (wg_words (vs_gate s)) (snd (external_sleep provider s))"
    using assms(1) by (simp add: external_sleep_def asleep_def gate_sleep_def forget_command_def)
  ultimately show ?thesis using assms(2,3) by blast
qed

theorem asleep_until_woken_witness:
  "list_all (\<lambda>d. \<not> sd_accepted d \<and> sd_command d = None \<and> \<not> sd_session_active d)
     (voice_run [Hear [0x505C, 0x4E0B], Hear [0x524D, 0x8FDB]]
       (snd (external_sleep ''button'' (voice_session (wake_word_gate [[0x5C0F, 0x8F66]] [] True (Fin 8)) True (Fin 2))),
        \<lambda>_. Fin 1))"
proof (rule asleep_until_woken)
  have words: "wake_triggers [[0x5C0F, 0x8F66]] [] = [[0x5C0F, 0x8F66]]"
    by (simp add: wake_triggers_def ustrip_def is_uspace_def ulower_def)
  show "wg_enabled (vs_gate (voice_session (wake_word_gate [[0x5C0F, 0x8F66]] [] True (Fin 8)) True (Fin 2)))"
    by (simp add: voice_session_def wake_word_gate_def)
  show "\<forall>n::nat. 0 < Fin 1" by (simp add: flt_simps)
  show "list_all (no_trigger (wg_words (vs_gate (voice_session
      (wake_word_gate [[0x5C0F, 0x8F66]] [] True (Fin 8)) True (Fin 2)))))
      [Hear [0x505C, 0x4E0B], Hear [0x524D, 0x8FDB]]"
    by (simp add: words voice_session_def wake_word_gate_def ustrip_def is_uspace_def ulower_def find_sub.simps)
qed

end
