(* ===== verification/Agent_Control.thy ===== *)
theory Agent_Control
  imports Voice_Session
begin

text \<open>
  The voice control plane of the agent: the command queue of \<open>continuous_voice.py\<close>, the completion
  of short commands of \<open>command_completion.py\<close>, the navigation cancel of \<open>navigation_phrases.py\<close> and
  \<open>agent_control_plane.py\<close> around the voice session. The command normaliser and the language
  understanding are arguments. A call on the queue acts on it at one moment, under its lock.
\<close>

section \<open>The command queue\<close>

type_synonym metadata = "(string \<times> json) list"

record QueuedCommand =
  qc_text :: ustr
  qc_priority_stop :: bool
  qc_created_at :: pyfloat
  qc_context :: metadata

record QueueSnapshot =
  qs_accepted :: bool
  qs_size :: int
  qs_dropped :: int
  qs_reason :: string
  qs_metadata :: metadata

record ContinuousCommandQueue =
  cq_items :: "QueuedCommand list"
  cq_max_size :: int
  cq_max_age_s :: pyfloat

definition command_queue :: "int \<Rightarrow> pyfloat \<Rightarrow> ContinuousCommandQueue" where
  "command_queue max_size max_age_s =
     \<lparr>cq_items = [], cq_max_size = max 1 max_size, cq_max_age_s = pymax 0 max_age_s\<rparr>"

definition queue_size :: "ContinuousCommandQueue \<Rightarrow> int" where
  "queue_size q = int (length (cq_items q))"

text \<open>\<open>clear\<close> takes the items one by one until the queue is empty and counts them.\<close>

fun drain_items :: "QueuedCommand list \<Rightarrow> int" where
  "drain_items [] = 0"
| "drain_items (item # items) = 1 + drain_items items"

definition queue_clear :: "ContinuousCommandQueue \<Rightarrow> int \<times> ContinuousCommandQueue" where
  "queue_clear q = (drain_items (cq_items q), q\<lparr>cq_items := []\<rparr>)"

definition queue_put ::
  "ustr \<Rightarrow> bool \<Rightarrow> metadata option \<Rightarrow> metadata option \<Rightarrow> ContinuousCommandQueue \<Rightarrow> clock
     \<Rightarrow> QueueSnapshot \<times> ContinuousCommandQueue \<times> clock" where
  "queue_put t priority_stop context metadata q clk =
     (let queue_metadata = (case metadata of None \<Rightarrow> [] | Some m \<Rightarrow> m)
      in case tick clk of (now, clk) \<Rightarrow>
        (let item = \<lparr>qc_text = t, qc_priority_stop = priority_stop, qc_created_at = now,
               qc_context = (case context of Some (x # xs) \<Rightarrow> x # xs | _ \<Rightarrow> queue_metadata)\<rparr>
         in case (if priority_stop then queue_clear q else (0, q)) of (dropped, q) \<Rightarrow>
              if queue_size q \<ge> cq_max_size q
              then (\<lparr>qs_accepted = False, qs_size = queue_size q, qs_dropped = dropped,
                     qs_reason = ''queue_full'', qs_metadata = queue_metadata\<rparr>, q, clk)
              else
                (let q = q\<lparr>cq_items := cq_items q @ [item]\<rparr>
                 in (\<lparr>qs_accepted = True, qs_size = queue_size q, qs_dropped = dropped,
                      qs_reason = '''', qs_metadata = queue_metadata\<rparr>, q, clk))))"

definition is_stale :: "ContinuousCommandQueue \<Rightarrow> QueuedCommand \<Rightarrow> clock \<Rightarrow> bool \<times> clock" where
  "is_stale q item clk =
     (if qc_priority_stop item \<or> cq_max_age_s q \<le> 0 then (False, clk)
      else case tick clk of (now, clk) \<Rightarrow> (cq_max_age_s q < now - qc_created_at item, clk))"

text \<open>\<open>get\<close> on the items that are there: the stale ones are reported and skipped. \<open>None\<close> is
  \<open>queue.Empty\<close>.\<close>

fun get_items ::
  "ContinuousCommandQueue \<Rightarrow> QueuedCommand list \<Rightarrow> clock
     \<Rightarrow> QueuedCommand option \<times> QueuedCommand list \<times> QueuedCommand list \<times> clock" where
  "get_items q [] clk = (None, [], [], clk)"
| "get_items q (item # items) clk =
     (case is_stale q item clk of (stale, clk) \<Rightarrow>
        if \<not> stale then (Some item, [], items, clk)
        else case get_items q items clk of (got, expired, rest, clk) \<Rightarrow>
          (got, item # expired, rest, clk))"

definition queue_get ::
  "ContinuousCommandQueue \<Rightarrow> clock
     \<Rightarrow> QueuedCommand option \<times> QueuedCommand list \<times> ContinuousCommandQueue \<times> clock" where
  "queue_get q clk =
     (case get_items q (cq_items q) clk of (got, expired, rest, clk) \<Rightarrow>
        (got, expired, q\<lparr>cq_items := rest\<rparr>, clk))"

section \<open>Queue events\<close>

record CommandQueueEvent =
  ce_event :: string
  ce_source :: string
  ce_text :: ustr
  ce_size :: int
  ce_dropped :: int
  ce_reason :: string
  ce_priority_stop :: bool
  ce_metadata :: metadata

definition queue_event :: "string \<Rightarrow> string \<Rightarrow> ustr \<Rightarrow> QueueSnapshot \<Rightarrow> bool \<Rightarrow> CommandQueueEvent" where
  "queue_event source event t snapshot priority_stop =
     \<lparr>ce_event = (if event = ''enqueue'' \<and> \<not> qs_accepted snapshot then ''rejected'' else event),
      ce_source = source, ce_text = t, ce_size = qs_size snapshot, ce_dropped = qs_dropped snapshot,
      ce_reason = qs_reason snapshot, ce_priority_stop = priority_stop,
      ce_metadata = qs_metadata snapshot\<rparr>"

definition public_metadata :: "metadata \<Rightarrow> metadata" where
  "public_metadata context =
     filter (\<lambda>(key, value). key \<in> {''batch_id'', ''batch_index'', ''batch_size'', ''source_text'',
       ''nlu_intent'', ''nlu_confidence''}) context"

definition queue_expired :: "string \<Rightarrow> QueuedCommand \<Rightarrow> int \<Rightarrow> CommandQueueEvent" where
  "queue_expired source item size' =
     \<lparr>ce_event = ''expired'', ce_source = source, ce_text = qc_text item, ce_size = size',
      ce_dropped = 1, ce_reason = ''stale_command'', ce_priority_stop = qc_priority_stop item,
      ce_metadata = public_metadata (qc_context item)\<rparr>"

section \<open>Completion and navigation cancel\<close>

definition COMPLETIONS :: "(ustr \<times> ustr) list" where
  "COMPLETIONS = [
     ([0x524D, 0x8FDB], [0x524D, 0x8FDB, 0x4E00, 0x79D2]),
     ([0x5411, 0x524D], [0x524D, 0x8FDB, 0x4E00, 0x79D2]),
     ([0x5F80, 0x524D], [0x524D, 0x8FDB, 0x4E00, 0x79D2]),
     ([0x540E, 0x9000], [0x540E, 0x9000, 0x4E00, 0x79D2]),
     ([0x5411, 0x540E], [0x540E, 0x9000, 0x4E00, 0x79D2]),
     ([0x5F80, 0x540E], [0x540E, 0x9000, 0x4E00, 0x79D2]),
     ([0x5DE6, 0x8F6C], [0x5DE6, 0x8F6C, 0x4E5D, 0x5341, 0x5EA6]),
     ([0x5411, 0x5DE6, 0x8F6C], [0x5DE6, 0x8F6C, 0x4E5D, 0x5341, 0x5EA6]),
     ([0x53F3, 0x8F6C], [0x53F3, 0x8F6C, 0x4E5D, 0x5341, 0x5EA6]),
     ([0x5411, 0x53F3, 0x8F6C], [0x53F3, 0x8F6C, 0x4E5D, 0x5341, 0x5EA6])]"

definition is_completion_punctuation :: "nat \<Rightarrow> bool" where
  "is_completion_punctuation c \<longleftrightarrow> is_uspace c \<or> c \<in> set [0xFF0C, 0x3002, 0xFF01, 0xFF1F, 0x0021, 0x003F, 0x3001, 0x002C, 0x002E, 0xFF1B, 0x003B, 0xFF1A, 0x003A]"

definition complete :: "bool \<Rightarrow> ustr \<Rightarrow> ustr \<times> ustr" where
  "complete enabled t =
     (let original = ustrip t
      in if \<not> enabled \<or> original = [] then (original, original)
         else case map_of COMPLETIONS
             (map ulower (filter (\<lambda>c. \<not> is_completion_punctuation c) original)) of
           None \<Rightarrow> (original, original)
         | Some completed \<Rightarrow> (original, completed))"

definition NAVIGATION_CANCEL_WORDS :: "ustr list" where
  "NAVIGATION_CANCEL_WORDS = [
     [0x53D6, 0x6D88, 0x5BFC, 0x822A],
     [0x505C, 0x6B62, 0x5BFC, 0x822A],
     [0x9000, 0x51FA, 0x5BFC, 0x822A],
     [0x53D6, 0x6D88, 0x5DE1, 0x822A],
     [0x505C, 0x6B62, 0x5DE1, 0x822A]]"

definition normalize_place_text :: "ustr \<Rightarrow> ustr" where
  "normalize_place_text t = filter (\<lambda>c. \<not> is_completion_punctuation c) t"

definition is_navigation_cancel :: "ustr \<Rightarrow> bool" where
  "is_navigation_cancel t \<longleftrightarrow> contains_any NAVIGATION_CANCEL_WORDS (normalize_place_text t)"

section \<open>The control plane\<close>

text \<open>The dictionaries of feedback, by their status and their varying entries.\<close>

datatype feedback =
    FB_normalized ustr ustr
  | FB_ignored string ustr
  | FB_retry ustr int int
  | FB_session_timeout ustr
  | FB_completed ustr ustr
  | FB_queue_rejected string ustr int
  | FB_nlu_retry string ustr ustr

record TranscriptControlDecision =
  td_directive :: string
  td_transcript :: ustr
  td_command :: ustr
  td_state :: string
  td_session_event :: SessionEvent
  td_feedback :: "feedback list"
  td_queue_event :: "CommandQueueEvent option"
  td_cancel_reason :: string
  td_priority_action :: string
  td_dropped :: int

record AgentControlPlane =
  cp_source :: string
  cp_continuous_enabled :: bool
  cp_queue :: ContinuousCommandQueue
  cp_session :: ContinuousVoiceSession
  cp_retry :: RecognitionRetryTracker
  cp_normalization_enabled :: bool
  cp_normalization_feedback :: bool
  cp_completion_enabled :: bool
  cp_nlu_batch_sequence :: int

definition control_decision ::
  "string \<Rightarrow> ustr \<Rightarrow> string \<Rightarrow> SessionEvent \<Rightarrow> feedback list \<Rightarrow> TranscriptControlDecision" where
  "control_decision directive transcript state event feedback =
     \<lparr>td_directive = directive, td_transcript = transcript, td_command = [], td_state = state,
      td_session_event = event, td_feedback = feedback, td_queue_event = None,
      td_cancel_reason = '''', td_priority_action = '''', td_dropped = 0\<rparr>"

text \<open>The queue is emptied and the event of it made.\<close>

definition clear_with_event ::
  "ustr \<Rightarrow> string \<Rightarrow> bool \<Rightarrow> AgentControlPlane \<Rightarrow> int \<times> CommandQueueEvent \<times> AgentControlPlane" where
  "clear_with_event t reason priority_stop cp =
     (case queue_clear (cp_queue cp) of (dropped, q) \<Rightarrow>
        (dropped,
         queue_event (cp_source cp) ''clear'' t
           \<lparr>qs_accepted = True, qs_size = queue_size q, qs_dropped = dropped, qs_reason = reason,
            qs_metadata = []\<rparr> priority_stop,
         cp\<lparr>cp_queue := q\<rparr>))"

definition retry_feedback ::
  "ustr \<Rightarrow> AgentControlPlane \<Rightarrow> feedback \<times> AgentControlPlane" where
  "retry_feedback transcript cp =
     (case retry_failed (cp_retry cp) of (attempt, r) \<Rightarrow>
        (FB_retry transcript attempt (rt_max_attempts r), cp\<lparr>cp_retry := r\<rparr>))"

text \<open>The branches for a transcript that gives no command.\<close>

definition refused_transcript ::
  "bool \<Rightarrow> ustr \<Rightarrow> SessionDecision \<Rightarrow> feedback list \<Rightarrow> AgentControlPlane \<Rightarrow> clock
     \<Rightarrow> TranscriptControlDecision \<times> AgentControlPlane \<times> clock" where
  "refused_transcript wake_word_required clean session fb cp clk =
     (if sd_reason session = ''session_sleep'' then
        (case clear_with_event [] '''' False cp of (dropped, event, cp) \<Rightarrow>
           ((control_decision ''sleep'' clean ''sleeping'' (sd_event session) fb)
              \<lparr>td_queue_event := Some event, td_cancel_reason := ''session_sleep'',
               td_priority_action := ''stop'', td_dropped := dropped\<rparr>, cp, clk))
      else if sd_reason session = ''session_awake'' then
        (control_decision ''awake'' clean ''session_awake'' (sd_event session) fb, cp, clk)
      else if sd_reason session \<in> {''filler'', ''duplicate_command''} then
        (control_decision ''ignored'' clean ''listening'' (sd_event session)
           (fb @ [FB_ignored (sd_reason session) clean]), cp, clk)
      else if sd_reason session = ''session_timeout'' then
        (case retry_feedback clean cp of (f, cp) \<Rightarrow>
           (control_decision ''retry'' clean ''retry_listening'' (sd_event session)
              (fb @ [f, FB_session_timeout clean]), cp, clk))
      else case (if wake_word_required then gate_active (vs_gate (cp_session cp)) clk
                 else (True, clk)) of (active, clk) \<Rightarrow>
        if wake_word_required \<and> \<not> active then
          (case retry_feedback clean cp of (f, cp) \<Rightarrow>
             (control_decision ''retry'' clean ''retry_listening'' (sd_event session) (fb @ [f]), cp, clk))
        else (control_decision ''noop'' clean '''' (sd_event session) fb, cp, clk))"

definition accepted_transcript ::
  "ustr \<Rightarrow> ustr \<Rightarrow> SessionDecision \<Rightarrow> feedback list \<Rightarrow> AgentControlPlane
     \<Rightarrow> TranscriptControlDecision \<times> AgentControlPlane" where
  "accepted_transcript clean command session fb cp =
     (let cp = cp\<lparr>cp_retry := retry_succeeded (cp_retry cp)\<rparr>;
          (original, completed) =
            (if sd_priority_stop session then (command, command)
             else complete (cp_completion_enabled cp) command);
          fb = (if \<not> sd_priority_stop session \<and> original \<noteq> completed
                then fb @ [FB_completed original completed] else fb);
          navigation_cancel = is_navigation_cancel completed
      in if cp_continuous_enabled cp \<and> (sd_priority_stop session \<or> navigation_cancel) then
           (let cancel_reason = (if sd_priority_stop session then ''priority_stop''
                                 else ''priority_navigation_cancel'')
            in case clear_with_event completed cancel_reason (sd_priority_stop session) cp of
                 (dropped, event, cp) \<Rightarrow>
                   ((control_decision ''priority'' clean ''listening'' (sd_event session) fb)
                      \<lparr>td_command := completed, td_queue_event := Some event,
                       td_cancel_reason := cancel_reason,
                       td_priority_action :=
                         (if sd_priority_stop session then ''stop'' else ''cancel_navigation''),
                       td_dropped := dropped\<rparr>, cp))
         else ((control_decision ''command'' clean '''' (sd_event session) fb)
                 \<lparr>td_command := completed\<rparr>, cp))"

text \<open>\<open>normalizer\<close> gives the stripped and the normalised text.\<close>

definition accept_transcript ::
  "(ustr \<Rightarrow> ustr \<times> ustr) \<Rightarrow> ustr \<Rightarrow> bool \<Rightarrow> AgentControlPlane \<Rightarrow> clock
     \<Rightarrow> TranscriptControlDecision \<times> AgentControlPlane \<times> clock" where
  "accept_transcript normalizer transcript wake_word_required cp clk =
     (let (original, clean) =
            (if cp_normalization_enabled cp then normalizer transcript else (transcript, transcript));
          fb = (if cp_normalization_enabled cp \<and> original \<noteq> clean \<and> cp_normalization_feedback cp
                then [FB_normalized original clean] else [])
      in case session_accept clean (cp_session cp) clk of (session, s, clk) \<Rightarrow>
        (let cp = cp\<lparr>cp_session := s\<rparr>
         in case (sd_accepted session, sd_command session) of
              (True, Some command) \<Rightarrow>
                (case accepted_transcript clean command session fb cp of (d, cp) \<Rightarrow> (d, cp, clk))
            | _ \<Rightarrow> refused_transcript wake_word_required clean session fb cp clk))"

text \<open>The lifecycle boundary; the transcript stabiliser, which it clears too, is not part of the record.\<close>

definition reset_session :: "string \<Rightarrow> AgentControlPlane \<Rightarrow> SessionEvent \<times> AgentControlPlane" where
  "reset_session provider cp =
     (case external_sleep provider (cp_session cp) of (event, s) \<Rightarrow>
        (event, cp\<lparr>cp_retry := retry_succeeded (cp_retry cp), cp_session := s\<rparr>))"

section \<open>Enqueueing\<close>

record ParsedCommand =
  pc_intent :: ustr
  pc_span_text :: ustr
  pc_actions :: json
  pc_confidence :: pyfloat

record NluResult =
  nlu_commands :: "ParsedCommand list"
  nlu_reason :: string
  nlu_retry_prompt :: ustr

record CommandEnqueueDecision =
  ed_status :: string
  ed_state :: string
  ed_queue_events :: "CommandQueueEvent list"
  ed_feedback :: "feedback list"
  ed_batch_id :: string
  ed_queue_size :: int
  ed_reason :: string

definition batch_metadata :: "string \<Rightarrow> nat \<Rightarrow> nat \<Rightarrow> ustr \<Rightarrow> ParsedCommand \<Rightarrow> metadata" where
  "batch_metadata batch_id index count command parsed =
     [(''batch_id'', JString (codes batch_id)), (''batch_index'', JInt (int index)),
      (''batch_size'', JInt (int count)), (''source_text'', JString command),
      (''nlu_intent'', JString (pc_intent parsed)), (''nlu_confidence'', JFloat (pc_confidence parsed))]"

text \<open>The commands of one utterance in order, until the queue is full. The confidence is already
  rounded.\<close>

fun enqueue_batch ::
  "string \<Rightarrow> string \<Rightarrow> nat \<Rightarrow> nat \<Rightarrow> ustr \<Rightarrow> metadata \<Rightarrow> ParsedCommand list
     \<Rightarrow> ContinuousCommandQueue \<Rightarrow> clock
     \<Rightarrow> CommandQueueEvent list \<times> (ParsedCommand \<times> QueueSnapshot) option
        \<times> ContinuousCommandQueue \<times> clock" where
  "enqueue_batch source batch_id index count command extras [] q clk = ([], None, q, clk)"
| "enqueue_batch source batch_id index count command extras (parsed # others) q clk =
     (let meta = batch_metadata batch_id index count command parsed
      in case queue_put (pc_span_text parsed) False
           (Some (extras @ meta @ [(''preparsed_actions'', pc_actions parsed)])) (Some meta) q clk of
           (snapshot, q, clk) \<Rightarrow>
             (let event = queue_event source ''enqueue'' (pc_span_text parsed) snapshot False
              in if \<not> qs_accepted snapshot then ([event], Some (parsed, snapshot), q, clk)
                 else case enqueue_batch source batch_id (Suc index) count command extras others q clk of
                   (events, stop, q, clk) \<Rightarrow> (event # events, stop, q, clk)))"

definition queue_rejected_feedback :: "ustr \<Rightarrow> QueueSnapshot \<Rightarrow> feedback" where
  "queue_rejected_feedback t snapshot = FB_queue_rejected (qs_reason snapshot) t (qs_size snapshot)"

definition enqueue_command ::
  "(ustr \<Rightarrow> NluResult) \<Rightarrow> ustr \<Rightarrow> metadata \<Rightarrow> metadata option \<Rightarrow> AgentControlPlane \<Rightarrow> clock
     \<Rightarrow> CommandEnqueueDecision \<times> AgentControlPlane \<times> clock" where
  "enqueue_command nlu command extras fallback_context cp clk =
     (let parsed = nlu command
      in if nlu_commands parsed \<noteq> [] then
           (let n = cp_nlu_batch_sequence cp + 1;
                batch_id = cp_source cp @ ''-nlu-'' @ show_int n
            in case enqueue_batch (cp_source cp) batch_id 1 (length (nlu_commands parsed)) command extras
                 (nlu_commands parsed) (cp_queue cp) clk of
                 (events, stop, q, clk) \<Rightarrow>
                   (case stop of
                      Some (bad, snapshot) \<Rightarrow>
                        \<lparr>ed_status = ''rejected'', ed_state = ''queue_full'', ed_queue_events = events,
                         ed_feedback = [queue_rejected_feedback (pc_span_text bad) snapshot],
                         ed_batch_id = batch_id, ed_queue_size = qs_size snapshot,
                         ed_reason = qs_reason snapshot\<rparr>
                    | None \<Rightarrow>
                        \<lparr>ed_status = ''queued'', ed_state = ''queued'', ed_queue_events = events,
                         ed_feedback = [], ed_batch_id = batch_id, ed_queue_size = queue_size q,
                         ed_reason = ''''\<rparr>,
                    cp\<lparr>cp_queue := q, cp_nlu_batch_sequence := n\<rparr>, clk))
         else if nlu_retry_prompt parsed \<noteq> [] then
           (\<lparr>ed_status = ''retry'', ed_state = ''retry_listening'', ed_queue_events = [],
             ed_feedback = [FB_nlu_retry (nlu_reason parsed) command (nlu_retry_prompt parsed)],
             ed_batch_id = '''', ed_queue_size = 0, ed_reason = nlu_reason parsed\<rparr>, cp, clk)
         else
           (case queue_put command False fallback_context None (cp_queue cp) clk of
              (snapshot, q, clk) \<Rightarrow>
                (\<lparr>ed_status = (if qs_accepted snapshot then ''queued'' else ''rejected''),
                  ed_state = (if qs_accepted snapshot then ''queued'' else ''queue_full''),
                  ed_queue_events = [queue_event (cp_source cp) ''enqueue'' command snapshot False],
                  ed_feedback = (if qs_accepted snapshot then []
                                 else [queue_rejected_feedback command snapshot]),
                  ed_batch_id = '''', ed_queue_size = qs_size snapshot, ed_reason = qs_reason snapshot\<rparr>,
                 cp\<lparr>cp_queue := q\<rparr>, clk)))"

section \<open>The queue is a preemptive FIFO\<close>

lemma drain_items_length [simp]: "drain_items items = int (length items)"
  by (induction items) auto

text \<open>What a caller does with the queue, and what each call did to the commands in it.\<close>

datatype queue_op = Put ustr bool "metadata option" "metadata option" | Get | Clear

datatype fifo_event = Enqueued QueuedCommand | Delivered QueuedCommand | Expired QueuedCommand | Emptied

fun queue_step :: "queue_op \<Rightarrow> ContinuousCommandQueue \<times> clock \<Rightarrow> fifo_event list \<times> ContinuousCommandQueue \<times> clock" where
  "queue_step (Put t priority_stop context metadata) (q, clk) =
     (case queue_put t priority_stop context metadata q clk of (snapshot, q', clk) \<Rightarrow>
        ((if priority_stop then [Emptied] else [])
           @ (if qs_accepted snapshot then [Enqueued (List.last (cq_items q'))] else []), q', clk))"
| "queue_step Get (q, clk) =
     (case queue_get q clk of (got, expired, q, clk) \<Rightarrow>
        (map Expired expired @ (case got of None \<Rightarrow> [] | Some item \<Rightarrow> [Delivered item]), q, clk))"
| "queue_step Clear (q, clk) = (case queue_clear q of (dropped, q) \<Rightarrow> ([Emptied], q, clk))"

fun queue_run :: "queue_op list \<Rightarrow> ContinuousCommandQueue \<times> clock \<Rightarrow> fifo_event list \<times> ContinuousCommandQueue \<times> clock" where
  "queue_run [] w = ([], w)"
| "queue_run (op # ops) w =
     (case queue_step op w of (es, w) \<Rightarrow> case queue_run ops w of (es', w) \<Rightarrow> (es @ es', w))"

text \<open>The specification: a bounded first-in first-out queue whose stops never expire. \<open>None\<close> marks an
  event the specification does not allow.\<close>

fun fifo_spec :: "nat \<Rightarrow> fifo_event list \<Rightarrow> QueuedCommand list \<Rightarrow> QueuedCommand list option" where
  "fifo_spec n [] items = Some items"
| "fifo_spec n (Enqueued item # es) items =
     (if length items < n then fifo_spec n es (items @ [item]) else None)"
| "fifo_spec n (Delivered item # es) items =
     (case items of [] \<Rightarrow> None | x # xs \<Rightarrow> if x = item then fifo_spec n es xs else None)"
| "fifo_spec n (Expired item # es) items =
     (case items of [] \<Rightarrow> None
      | x # xs \<Rightarrow> if x = item \<and> \<not> qc_priority_stop item then fifo_spec n es xs else None)"
| "fifo_spec n (Emptied # es) items = fifo_spec n es []"

lemma fifo_spec_append:
  "fifo_spec n es items = Some items' \<Longrightarrow> fifo_spec n (es @ es') items = fifo_spec n es' items'"
  by (induction n es items rule: fifo_spec.induct) (auto split: list.splits if_splits)

lemma get_items_fifo:
  "get_items q items clk = (got, expired, rest, clk') \<Longrightarrow>
     fifo_spec n (map Expired expired @ (case got of None \<Rightarrow> [] | Some item \<Rightarrow> [Delivered item])) items = Some rest"
proof (induction items arbitrary: clk got expired rest clk')
  case (Cons item items)
  show ?case
  proof (cases "fst (is_stale q item clk)")
    case True
    then have "\<not> qc_priority_stop item" by (auto simp: is_stale_def)
    then show ?thesis
      using Cons.prems True Cons.IH by (auto split: prod.splits)
  next
    case False
    then show ?thesis using Cons.prems by (auto split: prod.splits)
  qed
qed auto

lemma queue_put_fifo:
  assumes "queue_put t stop context metadata q clk = (snapshot, q', clk')" "cq_max_size q = int n"
  shows "fifo_spec n ((if stop then [Emptied] else [])
        @ (if qs_accepted snapshot then [Enqueued (List.last (cq_items q'))] else [])) (cq_items q) = Some (cq_items q')
    \<and> cq_max_size q' = cq_max_size q"
  using assms by (auto simp: queue_put_def queue_clear_def queue_size_def tick_def Let_def split: if_splits)

lemma queue_step_fifo:
  assumes "queue_step op (q, clk) = (es, q', clk')" "cq_max_size q = int n"
  shows "fifo_spec n es (cq_items q) = Some (cq_items q') \<and> cq_max_size q' = cq_max_size q"
proof (cases op)
  case (Put t stop ctx metadata)
  then show ?thesis
    using assms queue_put_fifo [of t stop ctx metadata q clk _ q' clk' n]
    by (auto split: prod.splits simp del: append_assoc)
next
  case Get
  then show ?thesis
    using assms get_items_fifo [of q "cq_items q" clk]
    by (auto simp: queue_get_def split: prod.splits)
qed (use assms in \<open>auto simp: queue_clear_def\<close>)

lemma queue_run_fifo:
  "queue_run ops (q, clk) = (es, q', clk') \<Longrightarrow> cq_max_size q = int n \<Longrightarrow>
     fifo_spec n es (cq_items q) = Some (cq_items q') \<and> cq_max_size q' = cq_max_size q"
proof (induction ops arbitrary: q clk es)
  case (Cons op ops)
  obtain es1 q1 clk1 where s: "queue_step op (q, clk) = (es1, q1, clk1)" by (metis prod_cases3)
  obtain es2 where r: "queue_run ops (q1, clk1) = (es2, q', clk')" "es = es1 @ es2"
    using Cons.prems(1) s by (auto split: prod.splits)
  show ?case
    using queue_step_fifo [OF s Cons.prems(2)] Cons.IH [OF r(1)] Cons.prems(2) r(2) fifo_spec_append
    by fastforce
qed simp

lemma fifo_spec_length:
  "fifo_spec n es items = Some items' \<Longrightarrow> length items \<le> n \<Longrightarrow> length items' \<le> n"
  by (induction n es items rule: fifo_spec.induct) (auto split: list.splits if_splits)

text \<open>C18. The command queue is a bounded, preemptive first-in first-out queue. Whatever calls of put, get
  and clear follow each other, what they did is a run of the specification: commands leave in the order
  in which they entered, only a command that is not a stop expires, never more than the configured number
  wait, and the commands that wait are those of the specification. In every state so reached a stop is
  taken, also by a full queue, and it is what the next get delivers, whatever its age.\<close>

theorem queue_is_preemptive_fifo:
  assumes "queue_run ops (command_queue max_size max_age_s, clk) = (es, q, clk')"
  shows "fifo_spec (nat (max 1 max_size)) es [] = Some (cq_items q)
    \<and> length (cq_items q) \<le> nat (max 1 max_size)
    \<and> (case queue_put t True context metadata q clk2 of (snapshot, q2, clk3) \<Rightarrow>
        qs_accepted snapshot \<and> qs_dropped snapshot = queue_size q
        \<and> (case queue_get q2 clk4 of (got, expired, q3, _) \<Rightarrow>
             map_option qc_text got = Some t \<and> expired = [] \<and> cq_items q3 = []))"
proof -
  have m: "cq_max_size (command_queue max_size max_age_s) = int (nat (max 1 max_size))"
    by (simp add: command_queue_def)
  note run = queue_run_fifo [OF assms m]
  have 1: "fifo_spec (nat (max 1 max_size)) es [] = Some (cq_items q)"
    using run by (simp add: command_queue_def)
  have "0 < cq_max_size q" using run m by (auto simp: max_def split: if_splits)
  then have "case queue_put t True context metadata q clk2 of (snapshot, q2, clk3) \<Rightarrow>
      qs_accepted snapshot \<and> qs_dropped snapshot = queue_size q
      \<and> (case queue_get q2 clk4 of (got, expired, q3, _) \<Rightarrow>
           map_option qc_text got = Some t \<and> expired = [] \<and> cq_items q3 = [])"
    by (auto simp: queue_put_def queue_clear_def queue_size_def tick_def Let_def queue_get_def is_stale_def)
  with 1 fifo_spec_length [OF 1] show ?thesis by simp
qed

theorem queue_is_preemptive_fifo_witness:
  "(case queue_run [Put [1] False None None, Put [2] False None None, Get] (command_queue 1 0, \<lambda>_. Fin 1) of
     (es, q, _) \<Rightarrow> fifo_spec 1 es [] = Some (cq_items q) \<and> length es = 2)"
proof -
  obtain es q clk' where run: "queue_run [Put [1] False None None, Put [2] False None None, Get]
      (command_queue 1 0, \<lambda>_. Fin 1) = (es, q, clk')" and n: "length es = 2"
    by (simp add: queue_put_def queue_clear_def queue_size_def tick_def Let_def queue_get_def is_stale_def
        command_queue_def flt_simps pymax_def)
  from queue_is_preemptive_fifo [OF run] have "fifo_spec 1 es [] = Some (cq_items q)" by simp
  with run n show ?thesis by simp
qed

section \<open>A spoken stop\<close>

lemma gate_process_subset:
  assumes "gate_process t g clk = (Some command, g', clk')"
  shows "set command \<subseteq> set t"
proof -
  have strip: "set (ustrip x) \<subseteq> set x" for x
    by (auto simp: ustrip_def dest!: set_dropWhileD)
  have strip_set: "set (strip_set cs x) \<subseteq> set x" for cs x
    by (auto simp: strip_set_def dest!: set_dropWhileD)
  have cut: "set (take i x @ drop j x) \<subseteq> set x" for i j and x :: ustr
    by (auto dest: in_set_takeD in_set_dropD)
  have "set (strip_set cs (take i (ustrip t) @ drop j (ustrip t))) \<subseteq> set t" for cs i j
    using strip_set cut strip by (meson order_trans)
  moreover note strip [of t]
  ultimately show ?thesis
    using assms
    by (auto simp: gate_process_def Let_def tick_def split: if_splits option.splits prod.splits)
qed

lemma provider_accept_subset:
  assumes "provider_accept t g clk = (w, g', clk')" "wd_command w = Some command"
  shows "set command \<subseteq> set t" and "t \<noteq> []"
proof -
  obtain clk1 clk2 where "gate_process t g clk1 = (Some command, g', clk2)"
    using assms by (auto simp: provider_accept_def Let_def split: prod.splits)
  then show "set command \<subseteq> set t" by (rule gate_process_subset)
  show "t \<noteq> []" using \<open>gate_process t g clk1 = (Some command, g', clk2)\<close>
    by (auto simp: gate_process_def ustrip_def)
qed

lemma contains_subset: "contains p t \<Longrightarrow> set p \<subseteq> set t"
  by (auto simp: contains_iff)

text \<open>The first characters of the stop words: no filler word holds one of them.\<close>

lemma stop_word_char:
  assumes "contains_any DEFAULT_PRIORITY_STOP_WORDS command"
  shows "\<exists>c \<in> {0x505C, 0x6025, 0x5239, 0x522B}. c \<in> set command"
  using assms
  by (auto simp: contains_any_def DEFAULT_PRIORITY_STOP_WORDS_def dest!: contains_subset)

lemma stop_is_no_filler:
  assumes "contains_any DEFAULT_PRIORITY_STOP_WORDS command" "set command \<subseteq> set t"
    and "vs_filler_words s = map normalize_short_text DEFAULT_FILLER_WORDS"
  shows "\<not> is_filler s t"
proof -
  obtain c where c: "c \<in> {0x505C, 0x6025, 0x5239, 0x522B}" "c \<in> set t"
    using stop_word_char [OF assms(1)] assms(2) by blast
  have "ulower c = c" "c \<notin> set PUNCTUATION_CHARS" using c(1) by (auto simp: ulower_def PUNCTUATION_CHARS_def)
  with c(2) have "c \<in> set (normalize_short_text t)"
    by (auto simp: normalize_short_text_def intro!: image_eqI [where x = c])
  moreover have "\<forall>w \<in> set (map normalize_short_text DEFAULT_FILLER_WORDS). c \<notin> set w"
    using c(1) by (auto simp: DEFAULT_FILLER_WORDS_def normalize_short_text_def ulower_def PUNCTUATION_CHARS_def)
  ultimately show ?thesis using assms(3) by (auto simp: is_filler_def)
qed

lemma spoken_stop_session:
  assumes "provider_accept (ustrip t) (vs_gate s) clk = (w, g, clk1)" "wd_command w = Some command"
    and "contains_any DEFAULT_PRIORITY_STOP_WORDS command"
    and "vs_priority_stop_words s = DEFAULT_PRIORITY_STOP_WORDS"
    and "vs_filler_words s = map normalize_short_text DEFAULT_FILLER_WORDS"
    and "session_accept t s clk = (d, s', clk')"
  shows "sd_reason d = ''session_sleep'' \<and> \<not> sd_accepted d
    \<or> sd_accepted d \<and> sd_command d = Some command \<and> sd_priority_stop d"
proof -
  note sub = provider_accept_subset [OF assms(1,2)]
  have "\<not> is_filler s (ustrip t)" by (rule stop_is_no_filler [OF assms(3) sub(1) assms(5)])
  then show ?thesis
    using assms(1-4,6) sub(2)
    by (auto simp: session_accept_def Let_def sleep_session_def command_decision_def decision_from_wake_def
        forget_command_def split: if_splits prod.splits)
qed

text \<open>A transcript is decided by the session on the normalised text.\<close>

lemma accept_transcript_decides:
  assumes "clean = (if cp_normalization_enabled cp then snd (normalizer transcript) else transcript)"
    and "session_accept clean (cp_session cp) clk = (session, s, clk2)"
  obtains fb where "accept_transcript normalizer transcript wake_word_required cp clk =
     (case (sd_accepted session, sd_command session) of
       (True, Some command) \<Rightarrow>
         (case accepted_transcript clean command session fb (cp\<lparr>cp_session := s\<rparr>) of (d, cp) \<Rightarrow> (d, cp, clk2))
     | _ \<Rightarrow> refused_transcript wake_word_required clean session fb (cp\<lparr>cp_session := s\<rparr>) clk2)"
proof -
  obtain original where n: "(if cp_normalization_enabled cp then normalizer transcript
      else (transcript, transcript)) = (original, clean)"
    using assms(1) by (metis prod.collapse snd_conv)
  define fb where "fb = (if cp_normalization_enabled cp \<and> original \<noteq> clean \<and> cp_normalization_feedback cp
      then [FB_normalized original clean] else [])"
  show ?thesis
    by (rule that [of fb]) (unfold accept_transcript_def n fb_def, simp add: Let_def assms(2))
qed

text \<open>A spoken stop always stops. With continuous control on and the default word lists, a transcript
  whose command, after the wake word is taken off, contains a stop word ends in the priority action stop
  and empties the command queue, also when the same words were said a moment before, when the queue is
  full or when the utterance puts the session to sleep as well.\<close>

lemma spoken_stop_always_stops:
  assumes "cp_continuous_enabled cp"
    and "vs_priority_stop_words (cp_session cp) = DEFAULT_PRIORITY_STOP_WORDS"
    and "vs_filler_words (cp_session cp) = map normalize_short_text DEFAULT_FILLER_WORDS"
    and "clean = (if cp_normalization_enabled cp then snd (normalizer transcript) else transcript)"
    and "provider_accept (ustrip clean) (vs_gate (cp_session cp)) clk = (w, g, clk1)"
    and "wd_command w = Some command" "contains_any DEFAULT_PRIORITY_STOP_WORDS command"
    and "accept_transcript normalizer transcript wake_word_required cp clk = (d, cp', clk')"
  shows "td_priority_action d = ''stop'' \<and> td_cancel_reason d \<noteq> [] \<and> cq_items (cp_queue cp') = []
    \<and> td_dropped d = queue_size (cp_queue cp)"
proof -
  obtain session s clk2 where sess: "session_accept clean (cp_session cp) clk = (session, s, clk2)"
    by (metis prod_cases3)
  note stop = spoken_stop_session [OF assms(5,6,7,2,3) sess]
  from accept_transcript_decides [where normalizer = normalizer and transcript = transcript, OF assms(4) sess] obtain fb where
    "accept_transcript normalizer transcript wake_word_required cp clk =
     (case (sd_accepted session, sd_command session) of
       (True, Some command) \<Rightarrow>
         (case accepted_transcript clean command session fb (cp\<lparr>cp_session := s\<rparr>) of (d, cp) \<Rightarrow> (d, cp, clk2))
     | _ \<Rightarrow> refused_transcript wake_word_required clean session fb (cp\<lparr>cp_session := s\<rparr>) clk2)" .
  then show ?thesis
    using stop assms(1,8)
    by (auto simp: refused_transcript_def accepted_transcript_def clear_with_event_def queue_clear_def
        queue_size_def control_decision_def Let_def split: prod.splits)
qed

section \<open>Well-formed control planes\<close>

definition control_plane ::
  "string \<Rightarrow> bool \<Rightarrow> int \<Rightarrow> pyfloat \<Rightarrow> WakeWordGate \<Rightarrow> pyfloat \<Rightarrow> int \<Rightarrow> bool \<Rightarrow> bool \<Rightarrow> bool \<Rightarrow> AgentControlPlane" where
  "control_plane source continuous_enabled queue_limit command_max_age_s gate duplicate_window_s
     recognition_max_retries normalization_enabled normalization_feedback completion_enabled =
     \<lparr>cp_source = source, cp_continuous_enabled = continuous_enabled,
      cp_queue = command_queue queue_limit command_max_age_s,
      cp_session = voice_session gate continuous_enabled duplicate_window_s,
      cp_retry = retry_tracker recognition_max_retries,
      cp_normalization_enabled = normalization_enabled, cp_normalization_feedback = normalization_feedback,
      cp_completion_enabled = completion_enabled, cp_nlu_batch_sequence = 0\<rparr>"

datatype plane_op =
    Transcript ustr bool
  | Enqueue ustr metadata "metadata option"
  | TakeCommand
  | ResetSession string

fun plane_step ::
  "(ustr \<Rightarrow> ustr \<times> ustr) \<Rightarrow> (ustr \<Rightarrow> NluResult) \<Rightarrow> plane_op \<Rightarrow> AgentControlPlane \<times> clock
     \<Rightarrow> AgentControlPlane \<times> clock" where
  "plane_step normalizer nlu (Transcript t required) (cp, clk) = snd (accept_transcript normalizer t required cp clk)"
| "plane_step normalizer nlu (Enqueue t extras fallback) (cp, clk) = snd (enqueue_command nlu t extras fallback cp clk)"
| "plane_step normalizer nlu TakeCommand (cp, clk) =
     (case queue_get (cp_queue cp) clk of (got, expired, q, clk) \<Rightarrow> (cp\<lparr>cp_queue := q\<rparr>, clk))"
| "plane_step normalizer nlu (ResetSession provider) (cp, clk) = (snd (reset_session provider cp), clk)"

definition wf_queue :: "ContinuousCommandQueue \<Rightarrow> bool" where
  "wf_queue q \<longleftrightarrow> 1 \<le> cq_max_size q \<and> queue_size q \<le> cq_max_size q
     \<and> list_all (\<lambda>item. \<not> qc_priority_stop item) (cq_items q)"

definition wf_retry :: "RecognitionRetryTracker \<Rightarrow> bool" where
  "wf_retry r \<longleftrightarrow> 1 \<le> rt_max_attempts r \<and> 0 \<le> rt_attempt r \<and> rt_attempt r \<le> rt_max_attempts r"

definition wf_session :: "ContinuousVoiceSession \<Rightarrow> bool" where
  "wf_session s \<longleftrightarrow> \<not> vs_duplicate_window_s s < 0
     \<and> normalize_short_text (vs_last_command_text s) = vs_last_command_text s"

definition wf_plane :: "AgentControlPlane \<Rightarrow> bool" where
  "wf_plane cp \<longleftrightarrow> wf_queue (cp_queue cp) \<and> wf_retry (cp_retry cp) \<and> wf_session (cp_session cp)
     \<and> 0 \<le> cp_nlu_batch_sequence cp"

lemma wf_queue_clear: "wf_queue q \<Longrightarrow> wf_queue (snd (queue_clear q))"
  by (auto simp: wf_queue_def queue_clear_def queue_size_def)

lemma wf_queue_put:
  "wf_queue q \<Longrightarrow> queue_put t False ctx metadata q clk = (snapshot, q', clk') \<Longrightarrow> wf_queue q'"
  by (auto simp: wf_queue_def queue_put_def queue_size_def tick_def Let_def split: if_splits)

lemma get_items_suffix:
  "get_items q items clk = (got, expired, rest, clk') \<Longrightarrow> \<exists>pre. items = pre @ rest"
proof (induction items arbitrary: clk got expired rest clk')
  case (Cons item items)
  show ?case
  proof (cases "fst (is_stale q item clk)")
    case True
    then obtain got' expired' clk1 clk2 where "get_items q items clk1 = (got', expired', rest, clk2)"
      using Cons.prems by (auto split: prod.splits)
    then obtain pre where "items = pre @ rest" using Cons.IH by blast
    then show ?thesis by (intro exI [of _ "item # pre"]) simp
  next
    case False
    then have "rest = items" using Cons.prems by (auto split: prod.splits)
    then show ?thesis by (intro exI [of _ "[item]"]) simp
  qed
qed simp

lemma wf_queue_get:
  assumes "wf_queue q" "queue_get q clk = (got, expired, q', clk')"
  shows "wf_queue q'"
proof -
  obtain rest where r: "get_items q (cq_items q) clk = (got, expired, rest, clk')" "q' = q\<lparr>cq_items := rest\<rparr>"
    using assms(2) by (auto simp: queue_get_def split: prod.splits)
  obtain pre where "cq_items q = pre @ rest" using get_items_suffix [OF r(1)] by blast
  then show ?thesis using assms(1) r(2) by (auto simp: wf_queue_def queue_size_def)
qed

lemma wf_retry_steps:
  "wf_retry r \<Longrightarrow> wf_retry (snd (retry_failed r))" "wf_retry r \<Longrightarrow> wf_retry (retry_succeeded r)"
proof -
  assume r: "wf_retry r"
  then have "0 \<le> rt_attempt r mod rt_max_attempts r" "rt_attempt r mod rt_max_attempts r < rt_max_attempts r"
    by (auto simp: wf_retry_def)
  then show "wf_retry (snd (retry_failed r))" using r by (auto simp: wf_retry_def retry_failed_def Let_def)
  show "wf_retry (retry_succeeded r)" using r by (auto simp: wf_retry_def retry_succeeded_def)
qed

lemma normalize_short_idem [simp]:
  "normalize_short_text (normalize_short_text t) = normalize_short_text t"
proof -
  have "ulower c \<notin> set PUNCTUATION_CHARS" if "c \<notin> set PUNCTUATION_CHARS" for c
    using that by (auto simp: ulower_def PUNCTUATION_CHARS_def)
  then have "filter (\<lambda>c. c \<notin> set PUNCTUATION_CHARS) (map ulower (filter (\<lambda>c. c \<notin> set PUNCTUATION_CHARS) t))
      = map ulower (filter (\<lambda>c. c \<notin> set PUNCTUATION_CHARS) t)"
    by (induction t) auto
  then show ?thesis by (simp add: normalize_short_text_def)
qed

lemma wf_forget [simp]: "wf_session s \<Longrightarrow> wf_session (forget_command s)"
  by (simp add: wf_session_def forget_command_def normalize_short_text_def)

lemma wf_session_parts [simp]:
  "wf_session (s\<lparr>vs_gate := g\<rparr>) = wf_session s" "wf_session (s\<lparr>vs_had_active_session := b\<rparr>) = wf_session s"
  by (simp_all add: wf_session_def)

lemma wf_remember: "wf_session s \<Longrightarrow> remember_command c s clk = (s', clk') \<Longrightarrow> wf_session s'"
  by (auto simp: wf_session_def remember_command_def tick_def)

lemma wf_command_decision:
  assumes "wf_session s" "command_decision command w s clk = (d, s', clk')"
  shows "wf_session s'"
  using assms wf_remember [OF assms(1), of command]
  by (auto simp: command_decision_def Let_def split: if_splits prod.splits)

lemma wf_no_command_decision:
  "wf_session s \<Longrightarrow> wf_session (snd (no_command_decision w s))"
  by (simp add: no_command_decision_def)

lemma wf_session_accept:
  assumes "wf_session s" "session_accept t s clk = (d, s', clk')"
  shows "wf_session s'"
proof -
  obtain w g clk1 where w: "provider_accept (ustrip t) (vs_gate s) clk = (w, g, clk1)" by (metis prod_cases3)
  define s1 where "s1 = (if we_kind (wd_event w) = WK_WAKE
      then forget_command (s\<lparr>vs_gate := g, vs_had_active_session := True\<rparr>) else s\<lparr>vs_gate := g\<rparr>)"
  have s1: "wf_session s1" using assms(1) by (simp add: s1_def)
  have "wf_session (snd (sleep_session t s))" using assms(1) by (simp add: sleep_session_def)
  moreover have "session_accept t s clk = (case wd_command w of
        None \<Rightarrow> (case no_command_decision w s1 of (d, s) \<Rightarrow> (d, s, clk1))
      | Some command \<Rightarrow> command_decision command w s1 clk1)"
    if "ustrip t \<noteq> []" "\<not> is_filler s (ustrip t)" "\<not> (vs_enabled s \<and> is_sleep_command s (ustrip t))"
    using that w unfolding session_accept_def s1_def Let_def by auto
  ultimately show ?thesis
    using assms wf_no_command_decision [OF s1, of w] wf_command_decision [OF s1]
    by (cases "ustrip t = []"; cases "is_filler s (ustrip t)"; cases "vs_enabled s \<and> is_sleep_command s (ustrip t)")
      (auto simp: session_accept_def refuse_def Let_def split: prod.splits option.splits)
qed

lemma wf_enqueue_batch:
  "wf_queue q \<Longrightarrow> enqueue_batch source batch_id index count command extras parsed q clk = (events, stop, q', clk')
     \<Longrightarrow> wf_queue q'"
proof (induction parsed arbitrary: index q clk events)
  case (Cons p parsed)
  then show ?case
    by (auto simp: Let_def dest: wf_queue_put split: prod.splits if_splits)
qed auto

lemma wf_enqueue_command:
  assumes "wf_plane cp" "enqueue_command nlu command extras fallback cp clk = (d, cp', clk')"
  shows "wf_plane cp'"
  using assms
  by (auto simp: wf_plane_def enqueue_command_def Let_def dest: wf_queue_put wf_enqueue_batch
      split: if_splits prod.splits)

lemma wf_refused:
  assumes "wf_plane cp" "refused_transcript required clean session fb cp clk = (d, cp', clk')"
  shows "wf_plane cp'"
  using assms wf_queue_clear [of "cp_queue cp"] wf_retry_steps(1) [of "cp_retry cp"]
  by (auto simp: wf_plane_def refused_transcript_def clear_with_event_def retry_feedback_def
      split: if_splits prod.splits)

lemma wf_accepted:
  assumes "wf_plane cp" "accepted_transcript clean command session fb cp = (d, cp')"
  shows "wf_plane cp'"
  using assms wf_queue_clear [of "cp_queue cp"] wf_retry_steps(2) [of "cp_retry cp"]
  by (auto simp: wf_plane_def accepted_transcript_def clear_with_event_def Let_def
      split: if_splits prod.splits)

lemma wf_accept_transcript:
  assumes "wf_plane cp" "accept_transcript normalizer t required cp clk = (d, cp', clk')"
  shows "wf_plane cp'"
proof -
  have s: "wf_plane (cp\<lparr>cp_session := s\<rparr>)" if "session_accept x (cp_session cp) clk = (y, s, clk1)" for x y s clk1
    using that assms(1) wf_session_accept [of "cp_session cp"] by (auto simp: wf_plane_def)
  obtain session s clk2 where sess: "session_accept (if cp_normalization_enabled cp then snd (normalizer t) else t)
      (cp_session cp) clk = (session, s, clk2)"
    by (metis prod_cases3)
  from accept_transcript_decides [where normalizer = normalizer and transcript = t, OF refl sess] obtain fb where
    "accept_transcript normalizer t required cp clk =
     (case (sd_accepted session, sd_command session) of
       (True, Some command) \<Rightarrow>
         (case accepted_transcript (if cp_normalization_enabled cp then snd (normalizer t) else t) command session fb
            (cp\<lparr>cp_session := s\<rparr>) of (d, cp) \<Rightarrow> (d, cp, clk2))
     | _ \<Rightarrow> refused_transcript required (if cp_normalization_enabled cp then snd (normalizer t) else t) session fb
         (cp\<lparr>cp_session := s\<rparr>) clk2)" .
  from trans [OF this [symmetric] assms(2)] show ?thesis
    using wf_refused [OF s [OF sess]] wf_accepted [OF s [OF sess]]
    by (auto split: bool.splits option.splits prod.splits)
qed

lemma wf_plane_step:
  assumes "wf_plane (fst w)"
  shows "wf_plane (fst (plane_step normalizer nlu op w))"
proof -
  obtain cp clk where w: "w = (cp, clk)" by fastforce
  then have cp: "wf_plane cp" using assms by simp
  show ?thesis
  proof (cases op)
    case (Transcript t required)
    then show ?thesis
      using wf_accept_transcript [OF cp] by (cases "accept_transcript normalizer t required cp clk") (auto simp: w)
  next
    case (Enqueue t extras fallback)
    then show ?thesis
      using wf_enqueue_command [OF cp] by (cases "enqueue_command nlu t extras fallback cp clk") (auto simp: w)
  next
    case TakeCommand
    then show ?thesis
      using cp wf_queue_get [of "cp_queue cp" clk] by (auto simp: w wf_plane_def split: prod.splits)
  next
    case (ResetSession provider)
    then show ?thesis
      using cp wf_retry_steps(2) [of "cp_retry cp"] by (auto simp: w wf_plane_def reset_session_def external_sleep_def)
  qed
qed

interpretation plane: invariant_system "plane_step normalizer nlu" "\<lambda>w. wf_plane (fst w)" for normalizer nlu
  by unfold_locales (rule wf_plane_step)

text \<open>C19. A control plane stays well formed. Whatever transcripts, commands, takes and session resets follow
  each other, and whatever the normaliser and the language understanding answer, the queue holds at most the
  configured number of commands and no stop among them, since a stop acts at once, the retry counter stays
  between zero and its limit, the remembered command is in normal form and batch numbers are not negative.\<close>

theorem control_plane_stays_well_formed:
  assumes "run (plane_step normalizer nlu) ops
      (control_plane source continuous_enabled queue_limit max_age gate duplicate_window_s max_retries normalize_on feedback_on completion, clk)
      = (cp, clk')"
  shows "queue_size (cp_queue cp) \<le> cq_max_size (cp_queue cp)
    \<and> list_all (\<lambda>item. \<not> qc_priority_stop item) (cq_items (cp_queue cp))
    \<and> 0 \<le> rt_attempt (cp_retry cp) \<and> rt_attempt (cp_retry cp) \<le> rt_max_attempts (cp_retry cp)
    \<and> normalize_short_text (vs_last_command_text (cp_session cp)) = vs_last_command_text (cp_session cp)
    \<and> 0 \<le> cp_nlu_batch_sequence cp"
proof -
  have "wf_plane (control_plane source continuous_enabled queue_limit max_age gate duplicate_window_s max_retries normalize_on feedback_on completion)"
    by (cases "0 < duplicate_window_s")
      (auto simp: wf_plane_def control_plane_def wf_queue_def command_queue_def queue_size_def wf_retry_def
        retry_tracker_def wf_session_def voice_session_def normalize_short_text_def pymax_def flt_simps
        dest: flt_less_trans)
  then have "wf_plane (fst (run (plane_step normalizer nlu) ops
      (control_plane source continuous_enabled queue_limit max_age gate duplicate_window_s max_retries normalize_on feedback_on completion, clk)))"
    by (intro plane.run_inv) simp
  then show ?thesis using assms by (auto simp: wf_plane_def wf_queue_def wf_retry_def wf_session_def)
qed

theorem control_plane_stays_well_formed_witness:
  "\<exists>cp clk'. run (plane_step (\<lambda>t. (t, t)) (\<lambda>_. \<lparr>nlu_commands = [], nlu_reason = [], nlu_retry_prompt = []\<rparr>))
      [Transcript [0x524D, 0x8FDB] False, Enqueue [0x524D, 0x8FDB] [] None, Enqueue [0x505C] [] None]
      (control_plane ''agent'' True 1 0 (wake_word_gate [] [] False (Fin 8)) (Fin 2) 3 True True True, \<lambda>_. Fin 1)
      = (cp, clk') \<and> queue_size (cp_queue cp) \<le> cq_max_size (cp_queue cp)"
proof -
  obtain cp clk' where "run (plane_step (\<lambda>t. (t, t)) (\<lambda>_. \<lparr>nlu_commands = [], nlu_reason = [], nlu_retry_prompt = []\<rparr>))
      [Transcript [0x524D, 0x8FDB] False, Enqueue [0x524D, 0x8FDB] [] None, Enqueue [0x505C] [] None]
      (control_plane ''agent'' True 1 0 (wake_word_gate [] [] False (Fin 8)) (Fin 2) 3 True True True, \<lambda>_. Fin 1)
      = (cp, clk')"
    by (rule prod.exhaust)
  from this control_plane_stays_well_formed [OF this] show ?thesis by blast
qed

end
