(* ===== verification/Schedules.thy ===== *)
theory Schedules
  imports Prelude
begin

text \<open>
  Interleavings. Runs of a step relation with the invariants of its steps, and schedules: calls that wait
  while other threads act take one moment after another from a list, and settle when the moments they took
  are enough for every longer list.
\<close>

section \<open>Step relations\<close>

text \<open>Runs of a step relation, with the operations in order.\<close>

inductive steps :: "('op \<Rightarrow> 's \<Rightarrow> 's \<Rightarrow> bool) \<Rightarrow> 'op list \<Rightarrow> 's \<Rightarrow> 's \<Rightarrow> bool" for step where
  none: "steps step [] s s"
| more: "step op s s1 \<Longrightarrow> steps step ops s1 s' \<Longrightarrow> steps step (op # ops) s s'"

inductive_simps steps_Nil [simp]: "steps step [] s s'"
inductive_simps steps_Cons: "steps step (op # ops) s s'"

lemma steps_append:
  "steps step (ops @ ops') s s' \<longleftrightarrow> (\<exists>s1. steps step ops s s1 \<and> steps step ops' s1 s')"
  by (induction ops arbitrary: s) (auto simp: steps_Cons)

text \<open>Steps given by a partial function.\<close>

fun run_partial :: "('op \<Rightarrow> 's \<Rightarrow> 's option) \<Rightarrow> 'op list \<Rightarrow> 's \<Rightarrow> 's option" where
  "run_partial f [] s = Some s"
| "run_partial f (op # ops) s = (case f op s of None \<Rightarrow> None | Some s1 \<Rightarrow> run_partial f ops s1)"

lemma steps_run_partial:
  "(\<And>op s s'. step op s s' \<longleftrightarrow> f op s = Some s') \<Longrightarrow> steps step ops s s' \<longleftrightarrow> run_partial f ops s = Some s'"
  by (induction ops arbitrary: s) (auto simp: steps_Cons split: option.splits)

text \<open>An invariant that every step keeps holds after every run.\<close>

locale step_invariant =
  fixes step :: "'op \<Rightarrow> 's \<Rightarrow> 's \<Rightarrow> bool" and inv :: "'s \<Rightarrow> bool"
  assumes step_inv: "step op s s' \<Longrightarrow> inv s \<Longrightarrow> inv s'"
begin

lemma steps_inv: "steps step ops s s' \<Longrightarrow> inv s \<Longrightarrow> inv s'"
  by (induction rule: steps.induct) (auto intro: step_inv)

end

section \<open>Traces\<close>

text \<open>What holds of each event of a trace and the events before it.\<close>

definition at_each :: "('e list \<Rightarrow> 'e \<Rightarrow> bool) \<Rightarrow> 'e list \<Rightarrow> bool" where
  "at_each P tr \<longleftrightarrow> (\<forall>a x b. tr = a @ x # b \<longrightarrow> P a x)"

lemma at_each_Nil [simp]: "at_each P []"
  by (simp add: at_each_def)

lemma at_eachD: "at_each P tr \<Longrightarrow> tr = a @ x # b \<Longrightarrow> P a x"
  by (simp add: at_each_def)

lemma at_each_snoc [simp]: "at_each P (tr @ [ev]) \<longleftrightarrow> at_each P tr \<and> P tr ev"
proof
  assume each: "at_each P (tr @ [ev])"
  have "P a x" if "tr = a @ x # b" for a x b using at_eachD [OF each, of a x "b @ [ev]"] that by simp
  moreover have "P tr ev" using at_eachD [OF each, of tr ev "[]"] by simp
  ultimately show "at_each P tr \<and> P tr ev" by (simp add: at_each_def)
next
  assume each: "at_each P tr \<and> P tr ev"
  have "P a x" if "tr @ [ev] = a @ x # b" for a x b
    using that each by (cases b rule: rev_cases) (auto dest: at_eachD)
  then show "at_each P (tr @ [ev])" by (simp add: at_each_def)
qed

section \<open>Schedules of moments\<close>

text \<open>A call that uses the moments of a schedule from \<open>k\<close> on and returns at some moment \<open>m\<close>, however
  many moments follow.\<close>

definition settles ::
  "(nat \<Rightarrow> 'm) \<Rightarrow> ('s \<Rightarrow> bool) \<Rightarrow> ('m list \<Rightarrow> ('r \<times> 'm list \<times> 's) option) \<Rightarrow> nat \<Rightarrow> bool" where
  "settles sched ok f k \<longleftrightarrow>
     (\<exists>r m s'. k \<le> m \<and> ok s' \<and> (\<forall>M \<ge> m. f (map sched [k..<M]) = Some (r, map sched [m..<M], s')))"

definition clock_advances :: "(nat \<Rightarrow> 'o \<times> pyfloat) \<Rightarrow> bool" where
  "clock_advances sched \<longleftrightarrow> (\<forall>n. isfinite (snd (sched n))) \<and> (\<forall>b. \<exists>n0. \<forall>n \<ge> n0. Fin b \<le> snd (sched n))"

text \<open>One moment is taken and the call goes on.\<close>

lemma settles_step:
  assumes "\<And>ms. f (sched k # ms) = g ms" "settles sched ok g (Suc k)"
  shows "settles sched ok f k"
proof -
  obtain r m s' where g: "Suc k \<le> m" "ok s'" "\<forall>M \<ge> m. g (map sched [Suc k..<M]) = Some (r, map sched [m..<M], s')"
    using assms(2) by (auto simp: settles_def)
  have "f (map sched [k..<M]) = g (map sched [Suc k..<M])" if "m \<le> M" for M
    using assms(1) that g(1) by (simp add: upt_conv_Cons)
  then have "k \<le> m \<and> ok s' \<and> (\<forall>M \<ge> m. f (map sched [k..<M]) = Some (r, map sched [m..<M], s'))"
    using g by simp
  then show ?thesis unfolding settles_def by blast
qed

lemma settles_now: "(\<And>ms. f ms = Some (r, ms, s')) \<Longrightarrow> ok s' \<Longrightarrow> settles sched ok f k"
  by (auto simp: settles_def)

lemma settles_bind:
  assumes "settles sched ok f k" "\<And>r s' m. ok s' \<Longrightarrow> settles sched ok' (\<lambda>ms. g r ms s') m"
  shows "settles sched ok' (\<lambda>ms. case f ms of None \<Rightarrow> None | Some (r, ms, s') \<Rightarrow> g r ms s') k"
proof -
  obtain r m s' where f: "k \<le> m" "ok s'" "\<And>M. m \<le> M \<Longrightarrow> f (map sched [k..<M]) = Some (r, map sched [m..<M], s')"
    using assms(1) unfolding settles_def by blast
  obtain r' m' s'' where g: "m \<le> m'" "ok' s''"
      "\<And>M. m' \<le> M \<Longrightarrow> g r (map sched [m..<M]) s' = Some (r', map sched [m'..<M], s'')"
    using assms(2) [OF f(2), of r m] unfolding settles_def by blast
  have "\<forall>M \<ge> m'. (case f (map sched [k..<M]) of None \<Rightarrow> None | Some (r, ms, s') \<Rightarrow> g r ms s')
      = Some (r', map sched [m'..<M], s'')"
    using f(3) g by simp
  then show ?thesis using f(1) g(1,2) unfolding settles_def by (meson order_trans)
qed

section \<open>Polling loops\<close>

text \<open>A loop that looks at its state once per moment and returns as soon as the look gives a result.\<close>

fun poll_rounds :: "('m \<Rightarrow> 's \<Rightarrow> 'r option \<times> 's) \<Rightarrow> 'm list \<Rightarrow> 's \<Rightarrow> ('r \<times> 'm list \<times> 's) option" where
  "poll_rounds look [] s = None"
| "poll_rounds look (m # ms) s =
     (case look m s of (None, s) \<Rightarrow> poll_rounds look ms s | (Some r, s) \<Rightarrow> Some (r, ms, s))"

text \<open>What a look relies on to end: it gives a result at the latest when the clock has reached a bound.\<close>

locale timed_look =
  fixes look :: "'o \<times> pyfloat \<Rightarrow> 's \<Rightarrow> 'r option \<times> 's" and ok :: "'s \<Rightarrow> bool" and bound :: real
  assumes look_ok: "ok s \<Longrightarrow> ok (snd (look m s))"
    and look_ends: "ok s \<Longrightarrow> Fin bound \<le> snd m \<Longrightarrow> fst (look m s) \<noteq> None"
begin

lemma rounds_settle:
  assumes "clock_advances sched" "ok s"
  shows "settles sched ok (\<lambda>ms. poll_rounds look ms s) k"
proof -
  obtain n0 where n0: "\<forall>n \<ge> n0. Fin bound \<le> snd (sched n)"
    using assms(1) unfolding clock_advances_def by blast
  show ?thesis
    using assms(2)
  proof (induction "n0 - k" arbitrary: k s rule: less_induct)
    case less
    obtain r s1 where l: "look (sched k) s = (r, s1)" by fastforce
    have s1: "ok s1" using look_ok [OF less.prems, of "sched k"] l by simp
    show ?case
    proof (cases r)
      case None
      then have "\<not> Fin bound \<le> snd (sched k)" using look_ends [OF less.prems, of "sched k"] l by auto
      then have "k < n0" using n0 by (meson not_le)
      then have "settles sched ok (\<lambda>ms. poll_rounds look ms s1) (Suc k)"
        using s1 by (intro less.hyps) auto
      then show ?thesis by (rule settles_step [rotated]) (simp add: l None)
    next
      case (Some x)
      show ?thesis
        by (rule settles_step [where g = "\<lambda>ms. Some (x, ms, s1)"]) (auto simp: l Some intro: settles_now s1)
    qed
  qed
qed

end

end
