(* ===== verification/Agent_Execution.thy ===== *)
theory Agent_Execution
  imports Agent_Control Schedules
begin

text \<open>
  The execution runtime of \<open>agent_execution_runtime.py\<close>: the busy flag, the continuous worker, the
  background turns and the stop. Every atomic section of the code, what it does under the state lock
  or between two looks at shared state, is one function; the threads and the calls in progress are
  places in the code, and a step relation lets them interleave in any order. A join only lets time
  pass, so the section after the joins may follow at any moment. The publishers of events do not raise.
\<close>

section \<open>Threads and calls\<close>

datatype turn_outcome = Completed | Cancelled ustr | Raised ustr

datatype thread =
    Absent
  | Background
  | BackgroundFinally
  | BackgroundLeaving
  | WorkerLoop
  | WorkerGet
  | WorkerTaken QueuedCommand
  | WorkerWaiting QueuedCommand
  | WorkerTrying QueuedCommand
  | WorkerTurn QueuedCommand
  | WorkerFinally
  | Ended

definition is_alive :: "thread \<Rightarrow> bool" where
  "is_alive t \<longleftrightarrow> t \<noteq> Absent \<and> t \<noteq> Ended"

text \<open>Calls of \<open>start_background_turn\<close> that have claimed the turn, and calls of \<open>stop\<close>.\<close>

datatype call = NoCall | Claimed | StopAsked | StopJoining "nat list" | StopReturned bool

datatype execution_event =
    Started QueuedCommand
  | Finished QueuedCommand bool ustr
  | ErrorReported ustr
  | QueueExpired QueuedCommand

record AgentExecutionRuntime =
  ex_continuous :: bool
  ex_queue :: ContinuousCommandQueue
  ex_busy :: bool
  ex_stop :: bool
  ex_worker :: "nat option"
  ex_background :: "nat list"
  ex_threads :: "nat \<Rightarrow> thread"
  ex_calls :: "nat \<Rightarrow> call"
  ex_trace :: "execution_event list"

definition execution_runtime :: "bool \<Rightarrow> ContinuousCommandQueue \<Rightarrow> AgentExecutionRuntime" where
  "execution_runtime continuous_enabled q =
     \<lparr>ex_continuous = continuous_enabled, ex_queue = q, ex_busy = False, ex_stop = False, ex_worker = None,
      ex_background = [], ex_threads = (\<lambda>_. Absent), ex_calls = (\<lambda>_. NoCall), ex_trace = []\<rparr>"

definition set_thread :: "nat \<Rightarrow> thread \<Rightarrow> AgentExecutionRuntime \<Rightarrow> AgentExecutionRuntime" where
  "set_thread t p s = s\<lparr>ex_threads := (ex_threads s)(t := p)\<rparr>"

definition set_call :: "nat \<Rightarrow> call \<Rightarrow> AgentExecutionRuntime \<Rightarrow> AgentExecutionRuntime" where
  "set_call c p s = s\<lparr>ex_calls := (ex_calls s)(c := p)\<rparr>"

definition emit :: "execution_event list \<Rightarrow> AgentExecutionRuntime \<Rightarrow> AgentExecutionRuntime" where
  "emit es s = s\<lparr>ex_trace := ex_trace s @ es\<rparr>"

section \<open>The sections under the lock\<close>

definition thread_alive :: "AgentExecutionRuntime \<Rightarrow> nat \<Rightarrow> bool" where
  "thread_alive s t \<longleftrightarrow> is_alive (ex_threads s t)"

definition worker_alive :: "AgentExecutionRuntime \<Rightarrow> bool" where
  "worker_alive s \<longleftrightarrow> (case ex_worker s of None \<Rightarrow> False | Some w \<Rightarrow> thread_alive s w)"

definition discard_finished_threads :: "AgentExecutionRuntime \<Rightarrow> AgentExecutionRuntime" where
  "discard_finished_threads s = s\<lparr>ex_background := filter (thread_alive s) (ex_background s)\<rparr>"

text \<open>\<open>start\<close>; \<open>t\<close> is the thread it may create.\<close>

definition start_runtime :: "nat \<Rightarrow> AgentExecutionRuntime \<Rightarrow> bool \<times> AgentExecutionRuntime" where
  "start_runtime t s =
     (let s = discard_finished_threads s;
          background_alive = list_ex (thread_alive s) (ex_background s)
      in if ex_stop s \<and> (background_alive \<or> worker_alive s) then (False, s)
         else if background_alive then (False, s)
         else if worker_alive s then (True, s)
         else
           (let s = s\<lparr>ex_stop := False\<rparr>
            in if \<not> ex_continuous s then (True, s)
               else (True, set_thread t WorkerLoop (s\<lparr>ex_worker := Some t\<rparr>))))"

definition try_begin_turn :: "AgentExecutionRuntime \<Rightarrow> bool \<times> AgentExecutionRuntime" where
  "try_begin_turn s = (if ex_busy s \<or> ex_stop s then (False, s) else (True, s\<lparr>ex_busy := True\<rparr>))"

definition finish_turn :: "AgentExecutionRuntime \<Rightarrow> AgentExecutionRuntime" where
  "finish_turn s = s\<lparr>ex_busy := False\<rparr>"

text \<open>The end of \<open>start_background_turn\<close>: the thread is registered and started in one section.\<close>

definition launch_background :: "nat \<Rightarrow> AgentExecutionRuntime \<Rightarrow> AgentExecutionRuntime" where
  "launch_background t s =
     set_thread t Background (s\<lparr>ex_background := List.insert t (ex_background s)\<rparr>)"

definition discard_background :: "nat \<Rightarrow> AgentExecutionRuntime \<Rightarrow> AgentExecutionRuntime" where
  "discard_background t s = s\<lparr>ex_background := removeAll t (ex_background s)\<rparr>"

definition stop_snapshot :: "AgentExecutionRuntime \<Rightarrow> nat list" where
  "stop_snapshot s = ex_background s @ (case ex_worker s of None \<Rightarrow> [] | Some w \<Rightarrow> [w])"

definition stop_return :: "nat list \<Rightarrow> AgentExecutionRuntime \<Rightarrow> bool \<times> AgentExecutionRuntime" where
  "stop_return threads s =
     (let s = discard_finished_threads s;
          s = (if ex_worker s \<noteq> None \<and> \<not> worker_alive s then s\<lparr>ex_worker := None\<rparr> else s)
      in (\<not> list_ex (thread_alive s) threads, s))"

text \<open>The exception of \<open>raise_if_stopping\<close>.\<close>

definition raise_if_stopping :: "AgentExecutionRuntime \<Rightarrow> string option" where
  "raise_if_stopping s = (if ex_stop s then Some ''agent lifecycle deactivated'' else None)"

definition should_wait_for_action_results :: "AgentExecutionRuntime \<Rightarrow> nat \<Rightarrow> int \<Rightarrow> bool" where
  "should_wait_for_action_results s current action_count \<longleftrightarrow>
     1 < action_count \<or> 0 < action_count \<and> ex_continuous s \<and> ex_worker s = Some current"

section \<open>What a thread does next\<close>

text \<open>The events of a turn of the worker and of a background turn, by how the turn ended.\<close>

fun worker_events :: "QueuedCommand \<Rightarrow> turn_outcome \<Rightarrow> execution_event list" where
  "worker_events item Completed = [Finished item True (codes ''completed'')]"
| "worker_events item (Cancelled reason) = [Finished item False reason]"
| "worker_events item (Raised reason) = [Finished item False reason, ErrorReported reason]"

fun background_events :: "turn_outcome \<Rightarrow> execution_event list" where
  "background_events (Raised reason) = [ErrorReported reason]"
| "background_events _ = []"

text \<open>The next section of thread \<open>t\<close>, with the outcome of the turn and the clock as the
  environment gives them.\<close>

definition thread_step ::
  "turn_outcome \<Rightarrow> clock \<Rightarrow> nat \<Rightarrow> AgentExecutionRuntime \<Rightarrow> AgentExecutionRuntime" where
  "thread_step out clk t s =
     (case ex_threads s t of
        Absent \<Rightarrow> s
      | Background \<Rightarrow> set_thread t BackgroundFinally (emit (background_events out) s)
      | BackgroundFinally \<Rightarrow> set_thread t BackgroundLeaving (finish_turn s)
      | BackgroundLeaving \<Rightarrow> set_thread t Ended (discard_background t s)
      | WorkerLoop \<Rightarrow> set_thread t (if ex_stop s then Ended else WorkerGet) s
      | WorkerGet \<Rightarrow>
          (case queue_get (ex_queue s) clk of (got, expired, q, _) \<Rightarrow>
             set_thread t (case got of None \<Rightarrow> WorkerLoop | Some item \<Rightarrow> WorkerTaken item)
               (emit (map QueueExpired expired) (s\<lparr>ex_queue := q\<rparr>)))
      | WorkerTaken item \<Rightarrow> set_thread t (if ex_stop s then Ended else WorkerWaiting item) s
      | WorkerWaiting item \<Rightarrow> set_thread t (if ex_stop s then Ended else WorkerTrying item) s
      | WorkerTrying item \<Rightarrow>
          (if ex_busy s then set_thread t (WorkerWaiting item) s
           else set_thread t (WorkerTurn item) (emit [Started item] (s\<lparr>ex_busy := True\<rparr>)))
      | WorkerTurn item \<Rightarrow> set_thread t WorkerFinally (emit (worker_events item out) s)
      | WorkerFinally \<Rightarrow> set_thread t WorkerLoop (finish_turn s)
      | Ended \<Rightarrow> s)"

section \<open>Interleavings\<close>

datatype execution_op =
    Start nat
  | Claim nat
  | Launch nat nat
  | Thread nat turn_outcome clock
  | StopAsk nat
  | StopSnapshot nat
  | StopReturn nat
  | QueueOp queue_op clock

text \<open>One step: a call of \<open>start\<close>, the two sections of \<open>start_background_turn\<close>, a section of a
  thread, the three sections of \<open>stop\<close>, or another client of the queue.\<close>

inductive exec_step :: "execution_op \<Rightarrow> AgentExecutionRuntime \<Rightarrow> AgentExecutionRuntime \<Rightarrow> bool" where
  start: "ex_threads s t = Absent \<Longrightarrow> start_runtime t s = (r, s') \<Longrightarrow> exec_step (Start t) s s'"
| claim: "ex_calls s c = NoCall \<Longrightarrow> try_begin_turn s = (True, s')
     \<Longrightarrow> exec_step (Claim c) s (set_call c Claimed s')"
| launch: "ex_calls s c = Claimed \<Longrightarrow> ex_threads s t = Absent
     \<Longrightarrow> exec_step (Launch c t) s (set_call c NoCall (launch_background t s))"
| thread: "thread_alive s t \<Longrightarrow> exec_step (Thread t out clk) s (thread_step out clk t s)"
| stop_ask: "ex_calls s c = NoCall
     \<Longrightarrow> exec_step (StopAsk c) s (set_call c StopAsked (s\<lparr>ex_stop := True\<rparr>))"
| stop_snap: "ex_calls s c = StopAsked
     \<Longrightarrow> exec_step (StopSnapshot c) s (set_call c (StopJoining (stop_snapshot s)) s)"
| stop_ret: "ex_calls s c = StopJoining threads \<Longrightarrow> stop_return threads s = (r, s')
     \<Longrightarrow> exec_step (StopReturn c) s (set_call c (StopReturned r) s')"
| queue_op: "queue_step op (ex_queue s, clk) = (es, q, clk')
     \<Longrightarrow> exec_step (QueueOp op clk) s (s\<lparr>ex_queue := q\<rparr>)"

inductive_cases exec_stepE: "exec_step op s s'"

section \<open>Turns exclude each other\<close>

fun holds_turn :: "thread \<Rightarrow> bool" where
  "holds_turn Background = True"
| "holds_turn BackgroundFinally = True"
| "holds_turn (WorkerTurn item) = True"
| "holds_turn WorkerFinally = True"
| "holds_turn _ = False"

text \<open>The busy flag and its owner: at most one call that claimed the turn or one thread.\<close>

definition one_owner :: "AgentExecutionRuntime \<Rightarrow> bool" where
  "one_owner s \<longleftrightarrow>
     (\<forall>t u. holds_turn (ex_threads s t) \<longrightarrow> holds_turn (ex_threads s u) \<longrightarrow> t = u)
   \<and> (\<forall>c d. ex_calls s c = Claimed \<longrightarrow> ex_calls s d = Claimed \<longrightarrow> c = d)
   \<and> (\<forall>c t. ex_calls s c = Claimed \<longrightarrow> \<not> holds_turn (ex_threads s t))
   \<and> (ex_busy s \<longleftrightarrow> (\<exists>t. holds_turn (ex_threads s t)) \<or> (\<exists>c. ex_calls s c = Claimed))"

lemmas exec_defs = set_thread_def set_call_def emit_def finish_turn_def discard_background_def
  discard_finished_threads_def launch_background_def

lemma holds_alive: "holds_turn p \<Longrightarrow> is_alive p"
  by (cases p) (auto simp: is_alive_def)

lemma start_runtime_cases:
  assumes "start_runtime t s = (r, s')"
  shows "(ex_threads s' = ex_threads s \<and> ex_worker s' = ex_worker s
      \<or> ex_threads s' = (ex_threads s)(t := WorkerLoop) \<and> ex_worker s' = Some t \<and> \<not> worker_alive s)
    \<and> ex_calls s' = ex_calls s \<and> ex_busy s' = ex_busy s \<and> ex_trace s' = ex_trace s
    \<and> ex_background s' = filter (thread_alive s) (ex_background s)"
  using assms
  by (auto simp: start_runtime_def exec_defs worker_alive_def thread_alive_def Let_def split: if_splits option.splits)

lemma stop_return_same:
  assumes "stop_return threads s = (r, s')"
  shows "ex_threads s' = ex_threads s \<and> ex_calls s' = ex_calls s \<and> ex_busy s' = ex_busy s \<and> ex_stop s' = ex_stop s
    \<and> ex_trace s' = ex_trace s \<and> ex_background s' = filter (thread_alive s) (ex_background s)
    \<and> (ex_worker s' = ex_worker s \<or> \<not> worker_alive s)
    \<and> (r \<longleftrightarrow> (\<forall>t \<in> set threads. \<not> thread_alive s t))"
  using assms
  by (auto simp: stop_return_def exec_defs worker_alive_def thread_alive_def Let_def list_ex_iff split: if_splits option.splits)

lemma thread_step_effect:
  obtains p where "ex_threads (thread_step out clk t s) = (ex_threads s)(t := p)"
    and "ex_calls (thread_step out clk t s) = ex_calls s" "ex_stop (thread_step out clk t s) = ex_stop s"
    and "ex_worker (thread_step out clk t s) = ex_worker s"
    and "ex_background (thread_step out clk t s) =
      (if ex_threads s t = BackgroundLeaving then removeAll t (ex_background s) else ex_background s)"
    and "holds_turn p = holds_turn (ex_threads s t) \<and> ex_busy (thread_step out clk t s) = ex_busy s
      \<or> \<not> holds_turn (ex_threads s t) \<and> holds_turn p \<and> \<not> ex_busy s \<and> ex_busy (thread_step out clk t s)
      \<or> holds_turn (ex_threads s t) \<and> \<not> holds_turn p \<and> \<not> ex_busy (thread_step out clk t s)"
    and "ex_threads s t = BackgroundLeaving \<longrightarrow> p = Ended" "ex_threads s t = Absent \<longrightarrow> p = Absent"
    and "p = Absent \<longrightarrow> ex_threads s t = Absent"
proof -
  show ?thesis
    by (rule that [of "ex_threads (thread_step out clk t s) t"])
      (auto simp: thread_step_def exec_defs fun_upd_idem split: thread.split prod.split option.split)
qed

lemma one_owner_cong:
  assumes "one_owner s" "\<And>t. holds_turn (ex_threads s' t) = holds_turn (ex_threads s t)"
    and "\<And>c. (ex_calls s' c = Claimed) = (ex_calls s c = Claimed)" "ex_busy s' = ex_busy s"
  shows "one_owner s'"
  using assms unfolding one_owner_def by simp

lemma one_owner_step:
  assumes "exec_step op s s'" "one_owner s"
  shows "one_owner s'"
  using assms(1)
proof (cases rule: exec_step.cases)
  case (start t r)
  then have "holds_turn (ex_threads s' u) = holds_turn (ex_threads s u)" for u
    using start_runtime_cases [of t s r s'] by (auto split: if_splits)
  then show ?thesis using start_runtime_cases [OF start(3)] by (intro one_owner_cong [OF assms(2)]) auto
next
  case (claim c s1)
  then show ?thesis
    using assms(2) by (auto simp: one_owner_def try_begin_turn_def exec_defs split: if_splits)
next
  case (launch c t)
  then show ?thesis using assms(2) by (auto simp: one_owner_def exec_defs)
next
  case (thread t out clk)
  obtain p where p: "ex_threads s' = (ex_threads s)(t := p)" "ex_calls s' = ex_calls s"
      "holds_turn p = holds_turn (ex_threads s t) \<and> ex_busy s' = ex_busy s
      \<or> \<not> holds_turn (ex_threads s t) \<and> holds_turn p \<and> \<not> ex_busy s \<and> ex_busy s'
      \<or> holds_turn (ex_threads s t) \<and> \<not> holds_turn p \<and> \<not> ex_busy s'"
    using thread_step_effect [of out clk t s] thread(2) by metis
  have T: "holds_turn (ex_threads s' u) = (if u = t then holds_turn p else holds_turn (ex_threads s u))" for u
    by (simp add: p(1))
  from p(3) show ?thesis
  proof (elim disjE conjE)
    assume "holds_turn p = holds_turn (ex_threads s t)" "ex_busy s' = ex_busy s"
    then have "holds_turn (ex_threads s' u) = holds_turn (ex_threads s u)" for u by (simp add: T)
    then show ?thesis using \<open>ex_busy s' = ex_busy s\<close> by (intro one_owner_cong [OF assms(2)]) (auto simp: p(2))
  next
    assume b: "holds_turn p" "\<not> ex_busy s" "ex_busy s'"
    then have "\<not> holds_turn (ex_threads s u)" "ex_calls s c \<noteq> Claimed" for u c
      using assms(2) unfolding one_owner_def by blast+
    then show ?thesis using b by (simp add: one_owner_def T p(2))
  next
    assume b: "holds_turn (ex_threads s t)" "\<not> holds_turn p" "\<not> ex_busy s'"
    then have "holds_turn (ex_threads s u) \<longrightarrow> u = t" "ex_calls s c \<noteq> Claimed" for u c
      using assms(2) unfolding one_owner_def by blast+
    moreover from this b have "\<not> holds_turn (ex_threads s' u)" for u using T by metis
    ultimately show ?thesis using b by (simp add: one_owner_def p(2))
  qed
next
  case (stop_ret c threads r s1)
  then show ?thesis
    using stop_return_same [OF stop_ret(4)] by (intro one_owner_cong [OF assms(2)]) (auto simp: set_call_def)
qed (auto simp: set_call_def split: if_splits intro!: one_owner_cong [OF assms(2)])

text \<open>The log of the turns: a finished event follows the started event of the same command and nothing
  else is started in between. The value is the command whose turn is under way; \<open>None\<close> marks a log
  that is not of this form.\<close>

fun turn_log :: "QueuedCommand option option \<Rightarrow> execution_event \<Rightarrow> QueuedCommand option option" where
  "turn_log (Some None) (Started item) = Some (Some item)"
| "turn_log (Some (Some item')) (Finished item ok reason) = (if item = item' then Some None else None)"
| "turn_log cur (ErrorReported reason) = cur"
| "turn_log cur (QueueExpired item) = cur"
| "turn_log cur e = None"

definition turn_under_way :: "execution_event list \<Rightarrow> QueuedCommand option option" where
  "turn_under_way es = foldl turn_log (Some None) es"

lemma turn_under_way_append: "turn_under_way (es @ fs) = foldl turn_log (turn_under_way es) fs"
  by (simp add: turn_under_way_def)

lemma turn_log_expired [simp]: "foldl turn_log cur (map QueueExpired items) = cur"
  by (induction items) auto

lemma turn_log_background [simp]: "foldl turn_log cur (background_events out) = cur"
  by (cases out) auto

lemma turn_log_worker [simp]: "foldl turn_log (Some (Some item)) (worker_events item out) = Some None"
  by (cases out) auto

definition log_matches :: "AgentExecutionRuntime \<Rightarrow> bool" where
  "log_matches s \<longleftrightarrow>
     (\<exists>cur. turn_under_way (ex_trace s) = Some cur
        \<and> (\<forall>item. cur = Some item \<longleftrightarrow> (\<exists>t. ex_threads s t = WorkerTurn item)))"

lemma log_matches_keep:
  assumes "log_matches s" "turn_under_way (ex_trace s') = turn_under_way (ex_trace s)"
    and "ex_threads s' = (ex_threads s)(t := p)"
    and "\<And>item. p \<noteq> WorkerTurn item" "\<And>item. ex_threads s t \<noteq> WorkerTurn item"
  shows "log_matches s'"
proof -
  have "ex_threads s' u = WorkerTurn item \<longleftrightarrow> ex_threads s u = WorkerTurn item" for u item
    using assms(3-5) by auto
  then show ?thesis using assms(1,2) by (simp add: log_matches_def)
qed

lemma log_matches_thread:
  assumes "one_owner s" "log_matches s"
  shows "log_matches (thread_step out clk t s)"
proof -
  obtain cur where cur: "turn_under_way (ex_trace s) = Some cur"
      "\<And>item. cur = Some item \<longleftrightarrow> (\<exists>t. ex_threads s t = WorkerTurn item)"
    using assms(2) by (auto simp: log_matches_def)
  have idle: "cur = None" if "\<not> ex_busy s"
  proof (rule ccontr)
    assume "cur \<noteq> None"
    then obtain u item where "ex_threads s u = WorkerTurn item" using cur(2) by (metis option.exhaust)
    then have "holds_turn (ex_threads s u)" by simp
    with that assms(1) show False unfolding one_owner_def by blast
  qed
  have only: "u = t" if "ex_threads s t = WorkerTurn item" "ex_threads s u = WorkerTurn item'" for u item item'
  proof -
    have "holds_turn (ex_threads s t)" "holds_turn (ex_threads s u)" using that by simp_all
    with assms(1) show ?thesis unfolding one_owner_def by blast
  qed
  let ?s' = "thread_step out clk t s"
  consider (turn) item where "ex_threads s t = WorkerTurn item"
    | (starts) item where "ex_threads s t = WorkerTrying item" "\<not> ex_busy s"
    | (other) "\<And>item. ex_threads s t \<noteq> WorkerTurn item" "\<And>item. ex_threads ?s' t \<noteq> WorkerTurn item"
        "ex_threads ?s' = (ex_threads s)(t := ex_threads ?s' t)"
        "turn_under_way (ex_trace ?s') = turn_under_way (ex_trace s)"
    by (cases "ex_threads s t"; cases "ex_busy s")
      (auto simp: thread_step_def exec_defs turn_under_way_append fun_upd_idem split: prod.splits option.splits)
  then show ?thesis
  proof cases
    case starts
    have none: "ex_threads s u \<noteq> WorkerTurn x" for u x using idle [OF starts(2)] cur(2) by auto
    have "ex_threads ?s' u = WorkerTurn x \<longleftrightarrow> u = t \<and> x = item" for u x
    proof -
      have "ex_threads ?s' = (ex_threads s)(t := WorkerTurn item)"
        using starts by (simp add: thread_step_def exec_defs)
      then show ?thesis using none by (cases "u = t") auto
    qed
    moreover have "turn_under_way (ex_trace ?s') = Some (Some item)"
      using starts idle cur(1) by (simp add: thread_step_def exec_defs turn_under_way_append)
    ultimately show ?thesis by (auto simp: log_matches_def)
  next
    case turn
    have "ex_threads ?s' u \<noteq> WorkerTurn x" for u x
    proof -
      have "ex_threads ?s' = (ex_threads s)(t := WorkerFinally)"
        using turn by (simp add: thread_step_def exec_defs)
      then show ?thesis using only [OF turn, of u x] by (cases "u = t") auto
    qed
    moreover have "cur = Some item" using turn cur(2) by blast
    then have "turn_under_way (ex_trace ?s') = Some None"
      using turn cur(1) by (simp add: thread_step_def exec_defs turn_under_way_append)
    ultimately show ?thesis by (auto simp: log_matches_def)
  next
    case other
    show ?thesis by (rule log_matches_keep [OF assms(2) other(4,3,2,1)])
  qed
qed

lemma log_matches_cong:
  assumes "log_matches s" "ex_trace s' = ex_trace s" "ex_threads s' = ex_threads s"
  shows "log_matches s'"
  using assms by (simp add: log_matches_def)

lemma log_matches_step:
  assumes "exec_step op s s'" "one_owner s" "log_matches s"
  shows "log_matches s'"
  using assms(1)
proof (cases rule: exec_step.cases)
  case (start t r)
  then show ?thesis
    using start_runtime_cases [OF start(3)] assms(3) log_matches_keep [OF assms(3), of s' t WorkerLoop]
      log_matches_cong [OF assms(3), of s'] by auto
next
  case (launch c t)
  then show ?thesis by (intro log_matches_keep [OF assms(3), of _ t Background]) (auto simp: exec_defs)
next
  case (thread t out clk)
  then show ?thesis using log_matches_thread [OF assms(2,3)] by simp
next
  case (claim c s1)
  then show ?thesis
    by (intro log_matches_cong [OF assms(3)]) (auto simp: try_begin_turn_def set_call_def split: if_splits)
next
  case (stop_ret c threads r s1)
  then show ?thesis
    using stop_return_same [OF stop_ret(4)] by (intro log_matches_cong [OF assms(3)]) (auto simp: set_call_def)
qed (auto simp: set_call_def intro!: log_matches_cong [OF assms(3)])

interpretation turns: step_invariant exec_step "\<lambda>s. one_owner s \<and> log_matches s"
  by unfold_locales (auto intro: one_owner_step log_matches_step)

text \<open>C7. Turns are serialised. However the calls of start, start_background_turn and stop, the worker and
  the background threads interleave, at most one of them owns the turn, the busy flag is set exactly while
  it is owned, and the published events pair up: after a started event the next started or finished event
  is the finished event of that command, and a command that is being executed is the last one started.\<close>

theorem turns_are_serialised:
  assumes "steps exec_step ops (execution_runtime continuous_enabled q) s"
  shows "(\<forall>t u. holds_turn (ex_threads s t) \<longrightarrow> holds_turn (ex_threads s u) \<longrightarrow> t = u)
    \<and> (\<forall>c t. ex_calls s c = Claimed \<longrightarrow> \<not> holds_turn (ex_threads s t))
    \<and> (ex_busy s \<longleftrightarrow> (\<exists>t. holds_turn (ex_threads s t)) \<or> (\<exists>c. ex_calls s c = Claimed))
    \<and> (\<exists>cur. turn_under_way (ex_trace s) = Some cur
         \<and> (\<forall>item. cur = Some item \<longleftrightarrow> (\<exists>t. ex_threads s t = WorkerTurn item)))"
proof -
  have "one_owner (execution_runtime continuous_enabled q)" "log_matches (execution_runtime continuous_enabled q)"
    by (simp_all add: one_owner_def log_matches_def execution_runtime_def turn_under_way_def)
  then have "one_owner s" "log_matches s" using turns.steps_inv [OF assms] by simp_all
  then show ?thesis unfolding one_owner_def log_matches_def by blast
qed

theorem turns_are_serialised_witness:
  "\<exists>s. steps exec_step [Claim 3, Launch 3 0] (execution_runtime True (command_queue 1 0)) s
     \<and> ex_threads s 0 = Background \<and> ex_busy s \<and> turn_under_way (ex_trace s) = Some None"
proof -
  let ?r = "execution_runtime True (command_queue 1 0)"
  define s1 where "s1 = set_call 3 Claimed (?r\<lparr>ex_busy := True\<rparr>)"
  define s2 where "s2 = set_call 3 NoCall (launch_background 0 s1)"
  note d = s1_def s2_def set_call_def execution_runtime_def exec_defs
  have "exec_step (Claim 3) ?r s1" unfolding s1_def
    by (rule exec_step.claim) (auto simp: try_begin_turn_def execution_runtime_def)
  moreover have "exec_step (Launch 3 0) s1 s2" unfolding s2_def by (rule exec_step.launch) (simp_all add: d)
  ultimately have run: "steps exec_step [Claim 3, Launch 3 0] ?r s2" by (blast intro: steps.intros)
  have bg: "ex_threads s2 t = (if t = 0 then Background else Absent)" for t by (simp add: d)
  then have "ex_threads s2 t \<noteq> WorkerTurn item" for t item by simp
  then have "turn_under_way (ex_trace s2) = Some None" using turns_are_serialised [OF run] by (metis option.exhaust)
  moreover have "ex_busy s2" using turns_are_serialised [OF run] bg by (metis holds_turn.simps(1))
  ultimately show ?thesis using run bg by auto
qed

section \<open>Stopping\<close>

definition registered :: "AgentExecutionRuntime \<Rightarrow> bool" where
  "registered s \<longleftrightarrow> (\<forall>t. thread_alive s t \<longrightarrow> t \<in> set (stop_snapshot s))"

lemma stop_snapshot_iff: "t \<in> set (stop_snapshot s) \<longleftrightarrow> t \<in> set (ex_background s) \<or> ex_worker s = Some t"
  by (auto simp: stop_snapshot_def split: option.split)

lemma registered_cong:
  assumes "registered s" "ex_threads s' = ex_threads s"
    and "\<And>t. thread_alive s t \<Longrightarrow> t \<in> set (stop_snapshot s) \<Longrightarrow> t \<in> set (stop_snapshot s')"
  shows "registered s'"
  using assms by (simp add: registered_def thread_alive_def)

lemma registered_step:
  assumes "exec_step op s s'" "registered s"
  shows "registered s'"
  using assms(1)
proof (cases rule: exec_step.cases)
  case (start t r)
  have w: "ex_worker s \<noteq> Some u" if "\<not> worker_alive s" "thread_alive s u" for u
    using that by (auto simp: worker_alive_def)
  show ?thesis
    using start_runtime_cases [OF start(3)] assms(2) w
    by (auto simp: registered_def stop_snapshot_iff thread_alive_def split: if_splits)
next
  case (claim c s1)
  then show ?thesis
    by (intro registered_cong [OF assms(2)])
      (auto simp: try_begin_turn_def set_call_def stop_snapshot_iff split: if_splits)
next
  case (launch c t)
  then show ?thesis
    using assms(2) by (auto simp: registered_def exec_defs stop_snapshot_iff thread_alive_def split: if_splits)
next
  case (thread t out clk)
  obtain p where p: "ex_threads s' = (ex_threads s)(t := p)" "ex_worker s' = ex_worker s"
      "ex_background s' = (if ex_threads s t = BackgroundLeaving then removeAll t (ex_background s) else ex_background s)"
      "ex_threads s t = BackgroundLeaving \<longrightarrow> p = Ended"
    using thread_step_effect [of out clk t s] thread(2) by metis
  have "t \<in> set (stop_snapshot s)" using assms(2) thread(3) by (simp add: registered_def)
  then show ?thesis
    using assms(2) p by (auto simp: registered_def stop_snapshot_iff thread_alive_def is_alive_def)
next
  case (stop_ret c threads r s1)
  have w: "ex_worker s \<noteq> Some u" if "\<not> worker_alive s" "thread_alive s u" for u
    using that by (auto simp: worker_alive_def)
  show ?thesis
    using stop_return_same [OF stop_ret(4)] stop_ret(2) w
    by (intro registered_cong [OF assms(2)]) (auto simp: set_call_def stop_snapshot_iff)
qed (auto simp: set_call_def stop_snapshot_iff intro!: registered_cong [OF assms(2)])

interpretation registry: step_invariant exec_step registered
  by unfold_locales (rule registered_step)

fun is_start :: "execution_op \<Rightarrow> bool" where
  "is_start (Start t) = True"
| "is_start _ = False"

text \<open>The runtime is being stopped: the flag is set, nobody has claimed a turn, and every live thread is
  among the ones that the call of \<open>stop\<close> waits for.\<close>

definition stopping :: "nat \<Rightarrow> nat list \<Rightarrow> AgentExecutionRuntime \<Rightarrow> bool" where
  "stopping c threads s \<longleftrightarrow> ex_stop s \<and> (\<forall>d. ex_calls s d \<noteq> Claimed)
     \<and> (\<forall>t. thread_alive s t \<longrightarrow> t \<in> set threads)
     \<and> (ex_calls s c = StopJoining threads \<or> (\<exists>r. ex_calls s c = StopReturned r))"

lemma stopping_step:
  assumes "exec_step op s s'" "\<not> is_start op" "stopping c threads s"
  shows "stopping c threads s'"
  using assms(1)
proof (cases rule: exec_step.cases)
  case (thread t out clk)
  obtain p where "ex_threads s' = (ex_threads s)(t := p)" "ex_calls s' = ex_calls s" "ex_stop s' = ex_stop s"
    using thread_step_effect [of out clk t s] thread(2) by metis
  then show ?thesis using assms(3) thread(3) by (auto simp: stopping_def thread_alive_def)
next
  case (stop_ret d threads' r s1)
  then show ?thesis
    using assms(3) stop_return_same [OF stop_ret(4)] by (auto simp: stopping_def set_call_def thread_alive_def)
qed (use assms(2,3) in \<open>auto simp: stopping_def set_call_def try_begin_turn_def thread_alive_def split: if_splits\<close>)

interpretation stop_protocol: step_invariant "\<lambda>op s s'. exec_step op s s' \<and> \<not> is_start op" "stopping c threads" for c threads
  by unfold_locales (auto intro: stopping_step)

lemma steps_restrict:
  "steps step ops s s' \<Longrightarrow> list_all P ops \<Longrightarrow> steps (\<lambda>op s s'. step op s s' \<and> P op) ops s s'"
  by (induction rule: steps.induct) (auto intro: steps.intros)

lemma quiet_run:
  assumes "steps exec_step ops s s'" "list_all (\<lambda>op. \<not> is_start op) ops" "stopping c [] s"
  shows "ex_trace s' = ex_trace s \<and> (\<forall>t. \<not> thread_alive s' t)"
  using assms
proof (induction rule: steps.induct)
  case (more op s s1 ops s')
  have "stopping c [] s1" using more by (auto intro: stopping_step)
  moreover have "ex_trace s1 = ex_trace s"
    using more(1) more.prems
    by (cases rule: exec_step.cases)
      (auto simp: stopping_def set_call_def try_begin_turn_def stop_return_def exec_defs Let_def split: if_splits)
  ultimately show ?case using more by simp
qed (auto simp: stopping_def)

text \<open>C8. A stop that reports success leaves nothing running. When stop takes its list of threads after
  setting the flag and at that moment no call is between claiming a turn and starting its thread, then a
  result True means that no thread of the runtime is alive and the turn is free, and until the next start
  nothing is executed and no event is published, whatever calls are made.\<close>

theorem stop_true_means_quiet:
  assumes "steps exec_step before (execution_runtime continuous_enabled q) s0"
    and "ex_stop s0" "\<forall>d. ex_calls s0 d \<noteq> Claimed"
    and "steps exec_step (StopSnapshot c # during @ [StopReturn c]) s0 s1"
    and "list_all (\<lambda>op. \<not> is_start op) during" "ex_calls s1 c = StopReturned True"
    and "steps exec_step after s1 s2" "list_all (\<lambda>op. \<not> is_start op) after"
  shows "(\<forall>t. \<not> thread_alive s1 t) \<and> \<not> ex_busy s1
    \<and> (\<forall>t. \<not> thread_alive s2 t) \<and> ex_trace s2 = ex_trace s1"
proof -
  have init: "registered (execution_runtime continuous_enabled q)" "one_owner (execution_runtime continuous_enabled q)"
      "log_matches (execution_runtime continuous_enabled q)"
    by (simp_all add: registered_def one_owner_def log_matches_def execution_runtime_def turn_under_way_def
        thread_alive_def is_alive_def)
  have "registered s0" using registry.steps_inv [OF assms(1)] init by simp
  obtain sa sb where run: "exec_step (StopSnapshot c) s0 sa" "steps exec_step during sa sb" "exec_step (StopReturn c) sb s1"
    using assms(4) by (auto simp: steps_Cons steps_append)
  have "stopping c (stop_snapshot s0) sa"
    using run(1) \<open>registered s0\<close> assms(2,3)
    by (cases rule: exec_step.cases) (auto simp: stopping_def registered_def set_call_def thread_alive_def)
  then have sb: "stopping c (stop_snapshot s0) sb"
    using stop_protocol.steps_inv [OF steps_restrict [OF run(2) assms(5)]] by blast
  have dead: "\<not> thread_alive s1 t" for t
    using run(3)
  proof (cases rule: exec_step.cases)
    case (stop_ret threads r s')
    then show ?thesis
      using sb stop_return_same [OF stop_ret(3)] assms(6)
      by (auto simp: stopping_def set_call_def thread_alive_def)
  qed
  have s1: "stopping c [] s1"
    using stopping_step [OF run(3) _ sb] dead assms(6) by (auto simp: stopping_def)
  have "one_owner s1"
    using turns.steps_inv [OF assms(1)] turns.steps_inv [OF assms(4)] init by simp
  then have "\<not> ex_busy s1"
    using dead s1 holds_alive by (auto simp: one_owner_def stopping_def thread_alive_def)
  with dead quiet_run [OF assms(7,8) s1] show ?thesis by simp
qed

theorem stop_true_means_quiet_witness:
  "\<exists>s. steps exec_step [Start 0, StopAsk 1, StopSnapshot 1, Thread 0 Completed (\<lambda>_. 0), StopReturn 1]
        (execution_runtime True (command_queue 1 0)) s
     \<and> ex_calls s 1 = StopReturned True \<and> (\<forall>t. \<not> thread_alive s t) \<and> \<not> ex_busy s"
proof -
  let ?r = "execution_runtime True (command_queue 1 0)"
  define s1 where "s1 = snd (start_runtime 0 ?r)"
  define s2 where "s2 = set_call 1 StopAsked (s1\<lparr>ex_stop := True\<rparr>)"
  define s3 where "s3 = set_call 1 (StopJoining (stop_snapshot s2)) s2"
  define s4 where "s4 = thread_step Completed (\<lambda>_. 0) 0 s3"
  define s5 where "s5 = set_call 1 (StopReturned True) (snd (stop_return (stop_snapshot s2) s4))"
  note d = s1_def s2_def s3_def s4_def s5_def set_call_def execution_runtime_def stop_snapshot_def
    stop_return_def exec_defs start_runtime_def thread_step_def worker_alive_def thread_alive_def is_alive_def
  have 1: "exec_step (Start 0) ?r s1" unfolding s1_def
    by (rule exec_step.start [of _ _ True]) (simp_all add: d)
  have 2: "exec_step (StopAsk 1) s1 s2" unfolding s2_def by (rule exec_step.stop_ask) (simp add: d)
  have 3: "exec_step (StopSnapshot 1) s2 s3" unfolding s3_def by (rule exec_step.stop_snap) (simp add: d)
  have 4: "exec_step (Thread 0 Completed (\<lambda>_. 0)) s3 s4" unfolding s4_def by (rule exec_step.thread) (simp add: d)
  have 5: "exec_step (StopReturn 1) s4 s5" unfolding s5_def
    by (rule exec_step.stop_ret [of _ _ "stop_snapshot s2"]) (auto simp: d)
  have before: "steps exec_step [Start 0, StopAsk 1] ?r s2" using 1 2 by (blast intro: steps.intros)
  have run: "steps exec_step (StopSnapshot 1 # [Thread 0 Completed (\<lambda>_. 0)] @ [StopReturn 1]) s2 s5"
    using 3 4 5 by (auto intro: steps.intros)
  have ret: "ex_calls s5 1 = StopReturned True" by (simp add: d)
  have "(\<forall>t. \<not> thread_alive s5 t) \<and> \<not> ex_busy s5"
    using stop_true_means_quiet [OF before _ _ run _ ret steps.none] by (simp add: d)
  moreover have "steps exec_step [Start 0, StopAsk 1, StopSnapshot 1, Thread 0 Completed (\<lambda>_. 0), StopReturn 1] ?r s5"
    using before run steps_append [of exec_step "[Start 0, StopAsk 1]" _ ?r s5] by fastforce
  ultimately show ?thesis using ret by blast
qed


end
