(* ===== verification/Action_Sequence.thy ===== *)
theory Action_Sequence
  imports Voice_Session Schedules
begin

text \<open>
  The publisher of composed actions of \<open>action_sequence.py\<close>. Other threads notify results and cancel
  between any two sections under the lock: a moment is what they did before the next section and the
  time that section reads. A call that is still waiting when the moments are used up has not returned,
  which is \<open>None\<close>. One batch is published at a time.
\<close>

section \<open>State\<close>

record SequencePublishReport =
  sp_published :: int
  sp_completed :: int
  sp_failed :: bool
  sp_reason :: ustr

record action_result =
  ar_command_id :: ustr
  ar_success :: bool
  ar_status :: int
  ar_message :: ustr

record SequentialActionPublisher =
  sq_result_timeout_s :: pyfloat
  sq_long_action_result_timeout_s :: pyfloat
  sq_result_count :: int
  sq_last_result :: "action_result option"
  sq_results_by_id :: "ustr \<rightharpoonup> action_result"
  sq_cancel_generation :: int
  sq_cancel_reason :: ustr
  sq_request_sequence :: int

definition action_publisher :: "pyfloat \<Rightarrow> pyfloat option \<Rightarrow> SequentialActionPublisher" where
  "action_publisher result_timeout_s long_action_result_timeout_s =
     \<lparr>sq_result_timeout_s = result_timeout_s,
      sq_long_action_result_timeout_s =
        (case long_action_result_timeout_s of None \<Rightarrow> result_timeout_s | Some x \<Rightarrow> x),
      sq_result_count = 0, sq_last_result = None, sq_results_by_id = Map.empty,
      sq_cancel_generation = 0, sq_cancel_reason = codes ''cancelled'', sq_request_sequence = 0\<rparr>"

definition LONG_RUNNING_ACTIONS :: "ustr list" where
  "LONG_RUNNING_ACTIONS = [codes ''navigate_to'', codes ''follow_waypoints'']"

section \<open>Operations\<close>

definition notify_result ::
  "ustr \<Rightarrow> bool \<Rightarrow> ustr \<Rightarrow> int \<Rightarrow> SequentialActionPublisher \<Rightarrow> SequentialActionPublisher" where
  "notify_result command_id success message status s =
     (if command_id = [] then s
      else
        (let result = \<lparr>ar_command_id = command_id, ar_success = success, ar_status = status,
               ar_message = message\<rparr>
         in s\<lparr>sq_result_count := sq_result_count s + 1, sq_last_result := Some result,
              sq_results_by_id := (sq_results_by_id s)(command_id \<mapsto> result)\<rparr>))"

definition cancel_sequence :: "ustr \<Rightarrow> SequentialActionPublisher \<Rightarrow> SequentialActionPublisher" where
  "cancel_sequence reason s =
     s\<lparr>sq_cancel_generation := sq_cancel_generation s + 1, sq_cancel_reason := reason\<rparr>"

definition command_with_request_id ::
  "ActionCommand \<Rightarrow> SequentialActionPublisher \<Rightarrow> ActionCommand \<times> SequentialActionPublisher" where
  "command_with_request_id action s =
     (if ac_request_id action \<noteq> [] then (action, s)
      else
        (let n = sq_request_sequence s + 1
         in (action\<lparr>ac_request_id := codes (''agent-action-'' @ show_int n)\<rparr>,
             s\<lparr>sq_request_sequence := n\<rparr>)))"

fun commands_with_request_ids ::
  "ActionCommand list \<Rightarrow> SequentialActionPublisher \<Rightarrow> ActionCommand list \<times> SequentialActionPublisher" where
  "commands_with_request_ids [] s = ([], s)"
| "commands_with_request_ids (action # actions) s =
     (case command_with_request_id action s of (command, s) \<Rightarrow>
      case commands_with_request_ids actions s of (commands, s) \<Rightarrow> (command # commands, s))"

definition result_timeout_for :: "ActionCommand \<Rightarrow> SequentialActionPublisher \<Rightarrow> pyfloat" where
  "result_timeout_for command s =
     (if ac_name command \<in> set LONG_RUNNING_ACTIONS then sq_long_action_result_timeout_s s
      else sq_result_timeout_s s)"

section \<open>Other threads\<close>

datatype sequence_op = Notify ustr bool ustr int | Cancel ustr

fun sequence_step :: "sequence_op \<Rightarrow> SequentialActionPublisher \<Rightarrow> SequentialActionPublisher" where
  "sequence_step (Notify command_id success message status) = notify_result command_id success message status"
| "sequence_step (Cancel reason) = cancel_sequence reason"

type_synonym moment = "sequence_op list \<times> pyfloat"

section \<open>Publishing a batch\<close>

text \<open>The loop of \<open>_wait_for_result\<close>: each round is one section, between two waits on the condition.\<close>

fun wait_rounds ::
  "ustr \<Rightarrow> int \<Rightarrow> pyfloat \<Rightarrow> moment list \<Rightarrow> SequentialActionPublisher
     \<Rightarrow> ((bool \<times> ustr) \<times> moment list \<times> SequentialActionPublisher) option" where
  "wait_rounds request_id generation deadline [] s = None"
| "wait_rounds request_id generation deadline ((ops, now) # ms) s =
     (let s = run sequence_step ops s
      in case sq_results_by_id s request_id of
           None \<Rightarrow>
             if sq_cancel_generation s \<noteq> generation then Some ((False, sq_cancel_reason s), ms, s)
             else if deadline - now \<le> 0 then Some ((False, codes ''action_result_timeout''), ms, s)
             else wait_rounds request_id generation deadline ms s
         | Some result \<Rightarrow>
             if sq_cancel_generation s \<noteq> generation then Some ((False, sq_cancel_reason s), ms, s)
             else Some ((ar_success result, ar_message result), ms,
                        s\<lparr>sq_results_by_id := (sq_results_by_id s)(request_id := None)\<rparr>))"

definition wait_for_result ::
  "ustr \<Rightarrow> int \<Rightarrow> pyfloat \<Rightarrow> moment list \<Rightarrow> SequentialActionPublisher
     \<Rightarrow> ((bool \<times> ustr) \<times> moment list \<times> SequentialActionPublisher) option" where
  "wait_for_result request_id generation timeout_s ms s =
     (case ms of
        [] \<Rightarrow> None
      | (ops, now) # ms \<Rightarrow>
          wait_rounds request_id generation (now + pymax 0 timeout_s) ms (run sequence_step ops s))"

text \<open>The commands that were handed over, and the reason if a cancel was seen.\<close>

fun publish_commands ::
  "ActionCommand list \<Rightarrow> int \<Rightarrow> moment list \<Rightarrow> SequentialActionPublisher
     \<Rightarrow> ((ActionCommand list \<times> ustr option) \<times> moment list \<times> SequentialActionPublisher) option" where
  "publish_commands [] generation ms s = Some (([], None), ms, s)"
| "publish_commands (command # commands) generation [] s = None"
| "publish_commands (command # commands) generation ((ops, now) # ms) s =
     (let s = run sequence_step ops s
      in if sq_cancel_generation s \<noteq> generation then Some (([], Some (sq_cancel_reason s)), ms, s)
         else case publish_commands commands generation ms s of
           None \<Rightarrow> None
         | Some ((sent, r), ms, s) \<Rightarrow> Some ((command # sent, r), ms, s))"

text \<open>The number of results that came, and the reason if one of them is a failure.\<close>

fun await_results ::
  "ActionCommand list \<Rightarrow> int \<Rightarrow> moment list \<Rightarrow> SequentialActionPublisher
     \<Rightarrow> ((int \<times> ustr option) \<times> moment list \<times> SequentialActionPublisher) option" where
  "await_results [] generation ms s = Some ((0, None), ms, s)"
| "await_results (command # commands) generation ms s =
     (case wait_for_result (ac_request_id command) generation (result_timeout_for command s) ms s of
        None \<Rightarrow> None
      | Some ((success, reason), ms, s) \<Rightarrow>
          if \<not> success then Some ((0, Some reason), ms, s)
          else case await_results commands generation ms s of
            None \<Rightarrow> None
          | Some ((completed, r), ms, s) \<Rightarrow> Some ((completed + 1, r), ms, s))"

definition publish_report :: "ActionCommand list \<Rightarrow> int \<Rightarrow> bool \<Rightarrow> ustr \<Rightarrow> SequencePublishReport" where
  "publish_report payloads completed failed reason =
     \<lparr>sp_published = int (length payloads), sp_completed = completed, sp_failed = failed, sp_reason = reason\<rparr>"

definition stop_command :: ActionCommand where
  "stop_command = \<lparr>ac_name = codes ''stop'', ac_arguments = [], ac_request_id = [], ac_priority = True\<rparr>"

text \<open>The second part of \<open>publish\<close>, once all commands are handed over.\<close>

definition finish_batch ::
  "ActionCommand list \<Rightarrow> int \<Rightarrow> bool \<Rightarrow> ActionCommand list \<Rightarrow> moment list \<Rightarrow> SequentialActionPublisher
     \<Rightarrow> ((SequencePublishReport \<times> ActionCommand list) \<times> moment list \<times> SequentialActionPublisher) option" where
  "finish_batch commands generation wait_for_results sent ms s =
     (if \<not> wait_for_results then Some ((publish_report sent 0 False [], sent), ms, s)
      else case await_results commands generation ms s of
        None \<Rightarrow> None
      | Some ((completed, None), ms, s) \<Rightarrow> Some ((publish_report sent completed False [], sent), ms, s)
      | Some ((completed, Some reason), [], s) \<Rightarrow> None
      | Some ((completed, Some reason), (ops, now) # ms, s) \<Rightarrow>
          (let s = run sequence_step ops s
           in if reason = sq_cancel_reason s
              then Some ((publish_report sent completed True reason, sent), ms, s)
              else case command_with_request_id stop_command s of (stop, s) \<Rightarrow>
                Some ((publish_report (sent @ [stop]) completed True reason, sent @ [stop]), ms, s)))"

text \<open>\<open>publish\<close>: its report and the payloads it handed to \<open>publish_payload\<close>, in order.\<close>

definition publish ::
  "ActionCommand list \<Rightarrow> bool \<Rightarrow> moment list \<Rightarrow> SequentialActionPublisher
     \<Rightarrow> ((SequencePublishReport \<times> ActionCommand list) \<times> moment list \<times> SequentialActionPublisher) option" where
  "publish actions wait_for_results ms s =
     (if actions = [] then Some ((publish_report [] 0 False [], []), ms, s)
      else case ms of
        [] \<Rightarrow> None
      | (ops, now) # ms \<Rightarrow>
          (let s = run sequence_step ops s;
               generation = sq_cancel_generation s
           in case commands_with_request_ids actions s of (commands, s) \<Rightarrow>
              case publish_commands commands generation ms s of
                None \<Rightarrow> None
              | Some ((sent, Some reason), ms, s) \<Rightarrow> Some ((publish_report sent 0 True reason, sent), ms, s)
              | Some ((sent, None), ms, s) \<Rightarrow> finish_batch commands generation wait_for_results sent ms s))"

section \<open>What a publication hands over\<close>

text \<open>A command without its identifier.\<close>

definition command_core :: "ActionCommand \<Rightarrow> ustr \<times> (ustr \<times> json) list \<times> bool" where
  "command_core c = (ac_name c, ac_arguments c, ac_priority c)"

lemma with_request_id_core:
  assumes "command_with_request_id a s = (c, s')"
  shows "command_core c = command_core a \<and> ac_request_id c \<noteq> [] \<and> sq_cancel_generation s' = sq_cancel_generation s
    \<and> sq_cancel_reason s' = sq_cancel_reason s"
  using assms by (auto simp: command_with_request_id_def command_core_def codes_def Let_def split: if_splits)

lemma with_request_ids_core:
  "commands_with_request_ids actions s = (commands, s') \<Longrightarrow>
     map command_core commands = map command_core actions \<and> (\<forall>c \<in> set commands. ac_request_id c \<noteq> [])
     \<and> sq_cancel_generation s' = sq_cancel_generation s"
proof (induction actions arbitrary: s commands)
  case (Cons a actions)
  then show ?case using with_request_id_core [of a s] by (fastforce split: prod.splits)
qed simp

lemma sequence_generation: "sq_cancel_generation s \<le> sq_cancel_generation (run sequence_step ops s)"
proof (induction ops arbitrary: s)
  case (Cons op ops)
  have "sq_cancel_generation s \<le> sq_cancel_generation (sequence_step op s)"
    by (cases op) (auto simp: notify_result_def cancel_sequence_def Let_def)
  also note Cons.IH
  finally show ?case by simp
qed simp

text \<open>Either everything was handed over, or a cancel came and what was handed over is a beginning.\<close>

lemma publish_commands_sent:
  "publish_commands commands gen ms s = Some ((sent, r), ms', s') \<Longrightarrow>
     (r = None \<and> sent = commands)
   \<or> (r = Some (sq_cancel_reason s') \<and> sent = take (length sent) commands \<and> length sent < length commands)"
proof (induction commands gen ms s arbitrary: sent rule: publish_commands.induct)
  case (3 command commands gen ops now ms s)
  then show ?case by (fastforce simp: Let_def split: if_splits option.splits)
qed auto

lemma await_results_bound:
  "await_results commands gen ms s = Some ((completed, r), ms', s') \<Longrightarrow>
     0 \<le> completed \<and> completed \<le> int (length commands) \<and> (r = None \<longrightarrow> completed = int (length commands))"
proof (induction commands gen ms s arbitrary: completed rule: await_results.induct)
  case (2 command commands gen ms s)
  then show ?case by (fastforce split: option.splits if_splits prod.splits)
qed auto

lemma finish_batch_report:
  assumes "finish_batch commands gen wait sent ms s = Some ((report, payloads), ms', s')"
  shows "sp_published report = int (length payloads)
    \<and> 0 \<le> sp_completed report \<and> sp_completed report \<le> int (length commands)
    \<and> (\<not> sp_failed report \<and> payloads = sent \<and> (wait \<longrightarrow> sp_completed report = int (length commands))
     \<or> sp_failed report \<and> sp_reason report = sq_cancel_reason s' \<and> payloads = sent
     \<or> sp_failed report \<and> sp_reason report \<noteq> sq_cancel_reason s'
        \<and> (\<exists>stop. payloads = sent @ [stop] \<and> command_core stop = command_core stop_command
             \<and> ac_request_id stop \<noteq> []))"
proof -
  have stop: "command_core c = command_core stop_command \<and> ac_request_id c \<noteq> []
      \<and> sq_cancel_reason s2 = sq_cancel_reason s1"
    if "command_with_request_id stop_command s1 = (c, s2)" for c s1 s2
    using with_request_id_core [OF that] by simp
  show ?thesis
    using assms await_results_bound [of commands gen ms s]
    by (auto simp: finish_batch_def publish_report_def Let_def dest: stop
        split: if_splits option.splits prod.splits list.splits)
qed

text \<open>What a batch did, from its report. The number of published commands is the number of payloads,
  every payload carries an identifier, and no more results are counted than there are actions. Without a
  failure the payloads are the actions in order, and all of them completed when results were awaited. A
  failed batch either was cancelled, its reason being the reason of the cancel on record and its payloads
  a beginning of the actions, or all actions were handed over and a priority stop after them.\<close>

lemma publish_report_is_faithful:
  assumes "publish actions wait ms s = Some ((report, payloads), ms', s')"
  shows "sp_published report = int (length payloads) \<and> (\<forall>c \<in> set payloads. ac_request_id c \<noteq> [])
    \<and> 0 \<le> sp_completed report \<and> sp_completed report \<le> int (length actions)
    \<and> (if \<not> sp_failed report
       then map command_core payloads = map command_core actions
         \<and> (wait \<longrightarrow> sp_completed report = int (length actions))
       else sp_reason report = sq_cancel_reason s'
           \<and> map command_core payloads = take (length payloads) (map command_core actions)
         \<or> map command_core payloads = map command_core actions @ [command_core stop_command]
           \<and> sp_reason report \<noteq> sq_cancel_reason s')"
proof (cases "actions = []")
  case True
  then show ?thesis using assms by (auto simp: publish_def publish_report_def)
next
  case False
  then obtain ops now ms1 where ms: "ms = (ops, now) # ms1"
    using assms by (auto simp: publish_def split: list.splits)
  obtain commands s1 where ids: "commands_with_request_ids actions (run sequence_step ops s) = (commands, s1)"
    by fastforce
  note core = with_request_ids_core [OF ids]
  then have len: "length commands = length actions" by (metis length_map)
  define gen where "gen = sq_cancel_generation (run sequence_step ops s)"
  obtain sent r ms2 s2 where sent: "publish_commands commands gen ms1 s1 = Some ((sent, r), ms2, s2)"
    using assms False ms ids by (auto simp: publish_def Let_def gen_def split: option.splits)
  have out: "publish actions wait ms s = (case r of
      Some reason \<Rightarrow> Some ((publish_report sent 0 True reason, sent), ms2, s2)
    | None \<Rightarrow> finish_batch commands gen wait sent ms2 s2)"
    using False ms ids sent by (simp add: publish_def Let_def gen_def split: option.split)
  from publish_commands_sent [OF sent] show ?thesis
  proof (elim disjE conjE)
    assume r: "r = Some (sq_cancel_reason s2)" "sent = take (length sent) commands"
    then have "set sent \<subseteq> set commands" by (metis set_take_subset)
    moreover have "map command_core sent = take (length sent) (map command_core actions)"
      using r(2) core by (metis take_map)
    ultimately show ?thesis
      using r(1) out assms core by (auto simp: publish_report_def)
  next
    assume "r = None" "sent = commands"
    then have "finish_batch commands gen wait commands ms2 s2 = Some ((report, payloads), ms', s')"
      using out assms by simp
    from finish_batch_report [OF this] core len show ?thesis by auto
  qed
qed

section \<open>A publication returns\<close>

definition timeouts_finite :: "SequentialActionPublisher \<Rightarrow> bool" where
  "timeouts_finite s \<longleftrightarrow> isfinite (sq_result_timeout_s s) \<and> isfinite (sq_long_action_result_timeout_s s)"

lemma timeouts_run [simp]: "timeouts_finite (run sequence_step ops s) = timeouts_finite s"
proof (induction ops arbitrary: s)
  case (Cons op ops)
  have "timeouts_finite (sequence_step op s) = timeouts_finite s"
    by (cases op) (auto simp: timeouts_finite_def notify_result_def cancel_sequence_def Let_def)
  then show ?case using Cons by simp
qed simp

lemma wait_rounds_settles:
  assumes "clock_advances sched" "timeouts_finite s"
  shows "settles sched timeouts_finite (\<lambda>ms. wait_rounds request_id gen (Fin d) ms s) k"
proof -
  obtain n0 where n0: "\<forall>n \<ge> n0. Fin d \<le> snd (sched n)" using assms(1) unfolding clock_advances_def by blast
  show ?thesis
    using assms(2)
  proof (induction "n0 - k" arbitrary: k s rule: less_induct)
    case less
    obtain ops now where m: "sched k = (ops, Fin now)"
      using assms(1) unfolding clock_advances_def by (metis isfinite_iff prod.collapse)
    let ?s = "run sequence_step ops s"
    have pop: "timeouts_finite (?s\<lparr>sq_results_by_id := x\<rparr>)" for x
      using less.prems timeouts_run [of ops s] by (simp add: timeouts_finite_def)
    consider (ret) r s' where "\<And>ms. wait_rounds request_id gen (Fin d) (sched k # ms) s = Some (r, ms, s')"
          "timeouts_finite s'"
      | (go) "\<And>ms. wait_rounds request_id gen (Fin d) (sched k # ms) s = wait_rounds request_id gen (Fin d) ms ?s" "now < d"
      using less.prems pop
      by (cases "sq_results_by_id ?s request_id"; cases "sq_cancel_generation ?s = gen"; cases "d \<le> now")
        (auto simp: m Let_def flt_simps)
    then show ?case
    proof cases
      case ret
      show ?thesis
        by (rule settles_step [where g = "\<lambda>ms. Some (r, ms, s')"]) (auto intro: ret settles_now)
    next
      case go
      have "k < n0"
      proof (rule ccontr)
        assume "\<not> k < n0"
        then have "Fin d \<le> snd (sched k)" using n0 by simp
        then show False using go(2) m by simp
      qed
      then have "settles sched timeouts_finite (\<lambda>ms. wait_rounds request_id gen (Fin d) ms ?s) (Suc k)"
        using less.prems by (intro less.hyps) auto
      then show ?thesis by (rule settles_step [rotated]) (rule go(1))
    qed
  qed
qed

lemma wait_for_result_settles:
  assumes "clock_advances sched" "timeouts_finite s" "isfinite timeout_s"
  shows "settles sched timeouts_finite (\<lambda>ms. wait_for_result request_id gen timeout_s ms s) k"
proof -
  obtain ops now where m: "sched k = (ops, Fin now)"
    using assms(1) unfolding clock_advances_def by (metis isfinite_iff prod.collapse)
  obtain d where d: "Fin now + pymax 0 timeout_s = Fin d"
    using assms(3) by (cases "0 < timeout_s") (auto simp: isfinite_iff pymax_def flt_simps)
  have "settles sched timeouts_finite (\<lambda>ms. wait_rounds request_id gen (Fin d) ms (run sequence_step ops s)) (Suc k)"
    using assms by (intro wait_rounds_settles) auto
  then show ?thesis by (rule settles_step [rotated]) (simp add: wait_for_result_def m d)
qed

lemma publish_commands_settles:
  "timeouts_finite s \<Longrightarrow> settles sched timeouts_finite (\<lambda>ms. publish_commands commands gen ms s) k"
proof (induction commands arbitrary: s k)
  case Nil
  then show ?case by (auto intro: settles_now)
next
  case (Cons c commands s k)
  obtain ops now where m: "sched k = (ops, now)" by fastforce
  let ?s = "run sequence_step ops s"
  show ?case
  proof (cases "sq_cancel_generation ?s = gen")
    case True
    have "settles sched timeouts_finite (\<lambda>ms. case publish_commands commands gen ms ?s of None \<Rightarrow> None
        | Some (x, ms, s) \<Rightarrow> Some ((c # fst x, snd x), ms, s)) (Suc k)"
      using Cons by (intro settles_bind [where ok = timeouts_finite] Cons.IH) (auto intro: settles_now)
    then show ?thesis
      by (rule settles_step [rotated]) (auto simp: m True Let_def split: option.split)
  next
    case False
    show ?thesis
      by (rule settles_step [where g = "\<lambda>ms. Some (([], Some (sq_cancel_reason ?s)), ms, ?s)"])
        (use Cons.prems False in \<open>auto simp: m Let_def intro: settles_now\<close>)
  qed
qed

lemma timeout_finite: "timeouts_finite s \<Longrightarrow> isfinite (result_timeout_for c s)"
  by (simp add: result_timeout_for_def timeouts_finite_def)

lemma await_results_settles:
  assumes "clock_advances sched"
  shows "timeouts_finite s \<Longrightarrow> settles sched timeouts_finite (\<lambda>ms. await_results commands gen ms s) k"
proof (induction commands arbitrary: s k)
  case Nil
  then show ?case by (auto intro: settles_now)
next
  case (Cons c commands s k)
  have "settles sched timeouts_finite (\<lambda>ms. case await_results commands gen ms s' of None \<Rightarrow> None
      | Some (x, ms, s) \<Rightarrow> Some ((fst x + 1, snd x), ms, s)) m" if "timeouts_finite s'" for s' m
    using that by (intro settles_bind [where ok = timeouts_finite] Cons.IH) (auto intro: settles_now)
  then have "settles sched timeouts_finite (\<lambda>ms. if \<not> fst r then Some ((0, Some (snd r)), ms, s')
      else case await_results commands gen ms s' of None \<Rightarrow> None
        | Some (x, ms, s) \<Rightarrow> Some ((fst x + 1, snd x), ms, s)) m" if "timeouts_finite s'" for r s' m
    using that by (cases "fst r") (auto intro: settles_now)
  note rest = this
  have "settles sched timeouts_finite (\<lambda>ms. case wait_for_result (ac_request_id c) gen (result_timeout_for c s) ms s of
      None \<Rightarrow> None
    | Some (r, ms, s') \<Rightarrow> if \<not> fst r then Some ((0, Some (snd r)), ms, s')
        else case await_results commands gen ms s' of None \<Rightarrow> None
          | Some (x, ms, s) \<Rightarrow> Some ((fst x + 1, snd x), ms, s)) k"
    by (rule settles_bind [where ok = timeouts_finite])
      (rule wait_for_result_settles [OF assms Cons.prems timeout_finite [OF Cons.prems]], rule rest)
  then show ?case unfolding await_results.simps case_prod_unfold .
qed

lemma finish_batch_settles:
  assumes "clock_advances sched" "timeouts_finite s"
  shows "settles sched (\<lambda>_. True) (\<lambda>ms. finish_batch commands gen wait sent ms s) k"
proof (cases wait)
  case True
  have stop: "settles sched (\<lambda>_. True) (\<lambda>ms. case snd r of
        None \<Rightarrow> Some ((publish_report sent (fst r) False [], sent), ms, s')
      | Some reason \<Rightarrow> (case ms of [] \<Rightarrow> None | (ops, now) # ms \<Rightarrow>
          (let s = run sequence_step ops s'
           in if reason = sq_cancel_reason s
              then Some ((publish_report sent (fst r) True reason, sent), ms, s)
              else case command_with_request_id stop_command s of (stop, s) \<Rightarrow>
                Some ((publish_report (sent @ [stop]) (fst r) True reason, sent @ [stop]), ms, s)))) m"
    for r s' m
  proof (cases "snd r")
    case None
    then show ?thesis by (auto intro: settles_now)
  next
    case (Some reason)
    obtain ops now where m: "sched m = (ops, now)" by fastforce
    obtain stop s1 where st: "command_with_request_id stop_command (run sequence_step ops s') = (stop, s1)" by fastforce
    let ?s = "run sequence_step ops s'"
    show ?thesis
      by (rule settles_step [where g = "\<lambda>ms. if reason = sq_cancel_reason ?s
            then Some ((publish_report sent (fst r) True reason, sent), ms, ?s)
            else Some ((publish_report (sent @ [stop]) (fst r) True reason, sent @ [stop]), ms, s1)"])
        (cases "reason = sq_cancel_reason ?s"; auto simp: m st Some Let_def intro: settles_now)+
  qed
  have eq: "finish_batch commands gen wait sent = (\<lambda>ms s. case await_results commands gen ms s of
      None \<Rightarrow> None
    | Some (r, ms, s') \<Rightarrow> (case snd r of
        None \<Rightarrow> Some ((publish_report sent (fst r) False [], sent), ms, s')
      | Some reason \<Rightarrow> (case ms of [] \<Rightarrow> None | (ops, now) # ms \<Rightarrow>
          (let s = run sequence_step ops s'
           in if reason = sq_cancel_reason s
              then Some ((publish_report sent (fst r) True reason, sent), ms, s)
              else case command_with_request_id stop_command s of (stop, s) \<Rightarrow>
                Some ((publish_report (sent @ [stop]) (fst r) True reason, sent @ [stop]), ms, s)))))"
    using True by (auto simp: finish_batch_def fun_eq_iff Let_def split: option.split list.split prod.split)
  show ?thesis
    unfolding eq by (rule settles_bind [where ok = timeouts_finite])
      (rule await_results_settles [OF assms], rule stop)
qed (auto simp: finish_batch_def intro: settles_now)

lemma with_request_ids_timeouts:
  "commands_with_request_ids actions s = (commands, s') \<Longrightarrow> timeouts_finite s' = timeouts_finite s"
proof (induction actions arbitrary: s commands)
  case (Cons a actions)
  have "timeouts_finite (snd (command_with_request_id a s)) = timeouts_finite s"
    by (auto simp: command_with_request_id_def timeouts_finite_def Let_def)
  then show ?case using Cons by (auto split: prod.splits)
qed simp

text \<open>Publishing a batch always returns. With finite time limits and a clock that passes every bound, and
  whatever the other threads notify or cancel meanwhile, the call has a report after finitely many moments,
  also when no result ever comes.\<close>

lemma publish_returns:
  assumes "clock_advances sched" "isfinite (sq_result_timeout_s s)" "isfinite (sq_long_action_result_timeout_s s)"
  shows "\<exists>n. publish actions wait (map sched [0..<n]) s \<noteq> None"
proof (cases "actions = []")
  case False
  obtain ops now where m: "sched 0 = (ops, now)" by fastforce
  let ?s = "run sequence_step ops s" 
  obtain commands s1 where ids: "commands_with_request_ids actions ?s = (commands, s1)" by fastforce
  have s1: "timeouts_finite s1"
    using assms(2,3) with_request_ids_timeouts [OF ids] timeouts_run [of ops s] by (simp add: timeouts_finite_def)
  let ?g = "\<lambda>ms. case publish_commands commands (sq_cancel_generation ?s) ms s1 of
      None \<Rightarrow> None
    | Some (r, ms, s') \<Rightarrow> (case snd r of
        Some reason \<Rightarrow> Some ((publish_report (fst r) 0 True reason, fst r), ms, s')
      | None \<Rightarrow> finish_batch commands (sq_cancel_generation ?s) wait (fst r) ms s')"
  have "settles sched (\<lambda>_. True) (\<lambda>ms. case snd r of
        Some reason \<Rightarrow> Some ((publish_report (fst r) 0 True reason, fst r), ms, s')
      | None \<Rightarrow> finish_batch commands (sq_cancel_generation ?s) wait (fst r) ms s') k"
    if "timeouts_finite s'" for r s' k
    using that finish_batch_settles [OF assms(1) that] by (cases "snd r") (auto intro: settles_now)
  then have "settles sched (\<lambda>_. True) ?g (Suc 0)"
    by (intro settles_bind [where ok = timeouts_finite] publish_commands_settles [OF s1])
  then have "settles sched (\<lambda>_. True) (\<lambda>ms. publish actions wait ms s) 0"
    by (rule settles_step [rotated])
      (use False in \<open>simp add: publish_def m ids Let_def split: option.split prod.split\<close>)
  then show ?thesis unfolding settles_def by (metis option.distinct(1) order_refl)
qed (simp add: publish_def)

text \<open>Time passes one second per moment; the second moment cancels.\<close>

definition demo_moments :: "nat \<Rightarrow> moment" where
  "demo_moments n = (if n = 1 then [Cancel (codes ''priority_stop'')] else [], Fin (real n))"

section \<open>A cancel\<close>

lemma cancel_raises_generation:
  "Cancel reason \<in> set ops \<Longrightarrow> sq_cancel_generation s < sq_cancel_generation (run sequence_step ops s)"
proof (induction ops arbitrary: s)
  case (Cons op ops)
  show ?case
  proof (cases "op = Cancel reason")
    case True
    then have "sq_cancel_generation s < sq_cancel_generation (sequence_step op s)" by (simp add: cancel_sequence_def)
    also have "\<dots> \<le> sq_cancel_generation (run sequence_step ops (sequence_step op s))" by (rule sequence_generation)
    finally show ?thesis by simp
  next
    case False
    then have "sq_cancel_generation (sequence_step op s) < sq_cancel_generation (run sequence_step ops (sequence_step op s))"
      using Cons by simp
    moreover have "sq_cancel_generation s \<le> sq_cancel_generation (sequence_step op s)"
      using sequence_generation [of s "[op]"] by simp
    ultimately show ?thesis by simp
  qed
qed simp

lemma publish_commands_cancelled:
  assumes "Cancel reason \<in> set ops" "length pre < length commands" "gen \<le> sq_cancel_generation s"
  shows "\<exists>sent r ms' s'. publish_commands commands gen (pre @ (ops, now) # post) s = Some ((sent, Some r), ms', s')
    \<and> length sent \<le> length pre"
  using assms(2,3)
proof (induction pre arbitrary: commands s)
  case Nil
  then have "gen < sq_cancel_generation (run sequence_step ops s)"
    using cancel_raises_generation [OF assms(1), of s] by simp
  then show ?case using Nil by (cases commands) (auto simp: Let_def)
next
  case (Cons m pre)
  then obtain c cs where c: "commands = c # cs" by (cases commands) auto
  obtain ops0 now0 where m: "m = (ops0, now0)" by fastforce
  have "gen \<le> sq_cancel_generation (run sequence_step ops0 s)"
    using Cons.prems(2) sequence_generation [of s ops0] by simp
  then obtain sent r ms' s' where "publish_commands cs gen (pre @ (ops, now) # post) (run sequence_step ops0 s)
      = Some ((sent, Some r), ms', s')" "length sent \<le> length pre"
    using Cons.IH [of cs "run sequence_step ops0 s"] Cons.prems(1) c by auto
  then show ?case by (cases "sq_cancel_generation (run sequence_step ops0 s) = gen") (auto simp: c m Let_def)
qed



end
