(* ===== verification/User_Preferences.thy ===== *)
theory User_Preferences
  imports Stream_Protocol
begin

text \<open>
  \<open>user_preferences.py\<close>: how the preferences of a speaker change the arguments of motion actions.
  Arguments and preferences are JSON objects; \<open>float\<close> of a text is the argument \<open>parse_float\<close>, of which
  nothing is assumed.
\<close>

section \<open>Arguments\<close>

type_synonym arguments = "(ustr \<times> json) list"

text \<open>\<open>args[key] = value\<close>: an existing key keeps its place, a new one comes last.\<close>

fun set_arg :: "ustr \<Rightarrow> json \<Rightarrow> arguments \<Rightarrow> arguments" where
  "set_arg key v [] = [(key, v)]"
| "set_arg key v ((k, w) # args) = (if k = key then (k, v) # args else (k, w) # set_arg key v args)"

text \<open>\<open>_safe_float\<close> of the value of a key; a missing key is \<open>None\<close>.\<close>

fun safe_float :: "(ustr \<Rightarrow> pyfloat option) \<Rightarrow> json option \<Rightarrow> real option" where
  "safe_float parse_float (Some (JInt n)) = Some (real_of_int n)"
| "safe_float parse_float (Some (JBool b)) = Some (if b then 1 else 0)"
| "safe_float parse_float (Some (JFloat (Fin x))) = Some x"
| "safe_float parse_float (Some (JString t)) =
     (case parse_float t of Some (Fin x) \<Rightarrow> Some x | _ \<Rightarrow> None)"
| "safe_float parse_float _ = None"

definition close_to :: "real option \<Rightarrow> real \<Rightarrow> bool" where
  "close_to numeric expected \<longleftrightarrow> (case numeric of None \<Rightarrow> False | Some x \<Rightarrow> \<bar>x - expected\<bar> \<le> 0.05)"

definition clamp :: "real \<Rightarrow> real \<Rightarrow> real \<Rightarrow> real" where
  "clamp v lo hi = min hi (max lo v)"

text \<open>\<open>round\<close> with a number of digits.\<close>

definition round_digits :: "real \<Rightarrow> nat \<Rightarrow> real" where
  "round_digits x n = real_of_int (round_half_even (x * 10 ^ n)) / 10 ^ n"

definition number_arg :: "(ustr \<Rightarrow> pyfloat option) \<Rightarrow> ustr \<Rightarrow> arguments \<Rightarrow> real option" where
  "number_arg parse_float key args = safe_float parse_float (map_of args key)"

section \<open>Preferences\<close>

definition DURATION_S :: ustr where "DURATION_S = codes ''duration_s''"
definition LINEAR_X :: ustr where "LINEAR_X = codes ''linear_x''"
definition ANGULAR_Z :: ustr where "ANGULAR_Z = codes ''angular_z''"

definition DEFAULT_MOVE_DURATION_S :: real where "DEFAULT_MOVE_DURATION_S = 1"
definition DEFAULT_TURN_DURATION_S :: real where "DEFAULT_TURN_DURATION_S = 2.6"
definition DEFAULT_TURN_DEGREES :: real where "DEFAULT_TURN_DEGREES = 90"
definition SPIN_DURATION_S :: real where "SPIN_DURATION_S = 7.85"

text \<open>A value that is no text is never one of the two speeds.\<close>

definition movement_speed_factor :: "arguments \<Rightarrow> real" where
  "movement_speed_factor preferences =
     (case map_of preferences (codes ''movement_speed'') of
        Some (JString t) \<Rightarrow>
          (let v = map ulower (ustrip t)
           in if v = codes ''slow'' then 0.75 else if v = codes ''fast'' then 1.15 else 1)
      | _ \<Rightarrow> 1)"

definition scale_numeric_arg ::
  "(ustr \<Rightarrow> pyfloat option) \<Rightarrow> ustr \<Rightarrow> real \<Rightarrow> arguments \<Rightarrow> arguments" where
  "scale_numeric_arg parse_float key factor args =
     (if close_to (Some factor) 1 then args
      else case number_arg parse_float key args of
        None \<Rightarrow> args
      | Some v \<Rightarrow> set_arg key (JFloat (Fin (round_digits (v * factor) 4))) args)"

definition apply_default_move_duration ::
  "(ustr \<Rightarrow> pyfloat option) \<Rightarrow> arguments \<Rightarrow> arguments \<Rightarrow> arguments" where
  "apply_default_move_duration parse_float preferences args =
     (case number_arg parse_float (codes ''default_move_duration_s'') preferences of
        None \<Rightarrow> args
      | Some duration \<Rightarrow>
          if map_of args DURATION_S = None
             \<or> close_to (number_arg parse_float DURATION_S args) DEFAULT_MOVE_DURATION_S
          then set_arg DURATION_S (JFloat (Fin (clamp duration 0.2 10))) args
          else args)"

definition apply_default_turn_degrees ::
  "(ustr \<Rightarrow> pyfloat option) \<Rightarrow> arguments \<Rightarrow> arguments \<Rightarrow> bool \<times> arguments" where
  "apply_default_turn_degrees parse_float preferences args =
     (case number_arg parse_float (codes ''default_turn_degrees'') preferences of
        None \<Rightarrow> (False, args)
      | Some degrees \<Rightarrow>
          if map_of args DURATION_S \<noteq> None
             \<and> \<not> close_to (number_arg parse_float DURATION_S args) DEFAULT_TURN_DURATION_S
          then (False, args)
          else (True, set_arg DURATION_S
                  (JFloat (Fin (round_digits
                     (DEFAULT_TURN_DURATION_S * clamp degrees 15 360 / DEFAULT_TURN_DEGREES) 3))) args))"

definition scale_turn_speed ::
  "(ustr \<Rightarrow> pyfloat option) \<Rightarrow> real \<Rightarrow> bool \<Rightarrow> arguments \<Rightarrow> arguments" where
  "scale_turn_speed parse_float factor force_preserve_angle args =
     (if close_to (Some factor) 1 then args
      else
        (let original_duration = number_arg parse_float DURATION_S args;
             preserve_angle = force_preserve_angle \<or> close_to original_duration DEFAULT_TURN_DURATION_S
               \<or> close_to original_duration SPIN_DURATION_S;
             args = scale_numeric_arg parse_float ANGULAR_Z factor args
         in case original_duration of
              Some d \<Rightarrow>
                if preserve_angle
                then set_arg DURATION_S (JFloat (Fin (round_digits (clamp (d / factor) 0.2 12) 3))) args
                else args
            | None \<Rightarrow> args))"

definition scale_arc_speed :: "(ustr \<Rightarrow> pyfloat option) \<Rightarrow> real \<Rightarrow> arguments \<Rightarrow> arguments" where
  "scale_arc_speed parse_float factor args =
     (if close_to (Some factor) 1 then args
      else
        (let original_duration = number_arg parse_float DURATION_S args;
             args = scale_numeric_arg parse_float ANGULAR_Z factor (scale_numeric_arg parse_float LINEAR_X factor args)
         in case original_duration of
              Some d \<Rightarrow> set_arg DURATION_S (JFloat (Fin (round_digits (clamp (d / factor) 0.2 12) 3))) args
            | None \<Rightarrow> args))"

definition apply_to_action ::
  "(ustr \<Rightarrow> pyfloat option) \<Rightarrow> arguments \<Rightarrow> ActionCommand \<Rightarrow> ActionCommand" where
  "apply_to_action parse_float preferences action =
     (let factor = movement_speed_factor preferences
      in if ac_name action \<in> {codes ''stop'', codes ''cancel_navigation''} then action
         else action\<lparr>ac_arguments :=
           (if ac_name action = codes ''move'' then
              scale_numeric_arg parse_float LINEAR_X factor
                (apply_default_move_duration parse_float preferences (ac_arguments action))
            else if ac_name action = codes ''turn'' then
              (case apply_default_turn_degrees parse_float preferences (ac_arguments action) of
                 (default_turn_applied, args) \<Rightarrow> scale_turn_speed parse_float factor default_turn_applied args)
            else if ac_name action = codes ''arc'' then
              scale_arc_speed parse_float factor (ac_arguments action)
            else ac_arguments action)\<rparr>)"

definition apply_user_preferences ::
  "(ustr \<Rightarrow> pyfloat option) \<Rightarrow> ActionCommand list \<Rightarrow> arguments \<Rightarrow> ActionCommand list" where
  "apply_user_preferences parse_float actions preferences = map (apply_to_action parse_float preferences) actions"

section \<open>What preferences may change\<close>

lemma map_of_set_arg: "map_of (set_arg key v args) k = (if k = key then Some v else map_of args k)"
  by (induction key v args rule: set_arg.induct) auto

lemma round_half_even_bounds:
  "real_of_int k \<le> x \<Longrightarrow> k \<le> round_half_even x" "x \<le> real_of_int k \<Longrightarrow> round_half_even x \<le> k"
proof -
  show "k \<le> round_half_even x" if "real_of_int k \<le> x"
    using that le_floor_iff [of k x] by (auto simp: round_half_even_def Let_def)
  show "round_half_even x \<le> k" if "x \<le> real_of_int k"
  proof (cases "x = real_of_int \<lfloor>x\<rfloor>")
    case True
    then have "round_half_even x = \<lfloor>x\<rfloor>" by (simp add: round_half_even_def Let_def)
    then show ?thesis using that by (simp add: floor_le_iff)
  next
    case False
    then have "real_of_int \<lfloor>x\<rfloor> < real_of_int k" using that of_int_floor_le [of x] by linarith
    then have "\<lfloor>x\<rfloor> + 1 \<le> k" by simp
    then show ?thesis by (auto simp: round_half_even_def Let_def)
  qed
qed

lemma round_half_even_near: "\<bar>real_of_int (round_half_even x) - x\<bar> \<le> 1 / 2"
  unfolding round_half_even_def Let_def using floor_correct [of x] by (auto; linarith)

lemma round_digits_near: "\<bar>round_digits x n - x\<bar> \<le> 1 / (2 * 10 ^ n)"
proof -
  have "round_digits x n - x = (real_of_int (round_half_even (x * 10 ^ n)) - x * 10 ^ n) / 10 ^ n"
    by (simp add: round_digits_def field_simps)
  then have "\<bar>round_digits x n - x\<bar> = \<bar>real_of_int (round_half_even (x * 10 ^ n)) - x * 10 ^ n\<bar> / 10 ^ n"
    by (simp add: abs_divide)
  also have "\<dots> \<le> (1 / 2) / 10 ^ n"
    using round_half_even_near by (intro divide_right_mono) auto
  finally show ?thesis by simp
qed

lemma round_digits_between:
  assumes "real_of_int a \<le> x * 10 ^ n" "x * 10 ^ n \<le> real_of_int b"
  shows "real_of_int a / 10 ^ n \<le> round_digits x n" "round_digits x n \<le> real_of_int b / 10 ^ n"
  using round_half_even_bounds(1) [OF assms(1)] round_half_even_bounds(2) [OF assms(2)]
  by (auto simp: round_digits_def intro: divide_right_mono)

text \<open>A duration a preference may set, and a speed it may turn another one into.\<close>

definition duration_ok :: "json \<Rightarrow> bool" where
  "duration_ok v \<longleftrightarrow> (\<exists>x. v = JFloat (Fin x) \<and> 0.2 \<le> x \<and> x \<le> 12)"

definition speed_ok :: "(ustr \<Rightarrow> pyfloat option) \<Rightarrow> json option \<Rightarrow> json \<Rightarrow> bool" where
  "speed_ok parse_float old v \<longleftrightarrow>
     (\<exists>x y. safe_float parse_float old = Some x \<and> v = JFloat (Fin y) \<and> \<bar>y\<bar> \<le> 1.15 * \<bar>x\<bar> + 0.00005)"

definition changes_ok :: "(ustr \<Rightarrow> pyfloat option) \<Rightarrow> arguments \<Rightarrow> arguments \<Rightarrow> bool" where
  "changes_ok parse_float args args' \<longleftrightarrow>
     (\<forall>k. map_of args' k = map_of args k
        \<or> k = DURATION_S \<and> (\<exists>v. map_of args' k = Some v \<and> duration_ok v)
        \<or> k \<in> {LINEAR_X, ANGULAR_Z} \<and> (\<exists>v. map_of args' k = Some v \<and> speed_ok parse_float (map_of args k) v))"

lemma keys_distinct [simp]: "DURATION_S \<noteq> LINEAR_X" "DURATION_S \<noteq> ANGULAR_Z" "LINEAR_X \<noteq> ANGULAR_Z"
  by (simp_all add: DURATION_S_def LINEAR_X_def ANGULAR_Z_def codes_def)

lemma factor_range: "movement_speed_factor preferences \<in> {0.75, 1, 1.15}"
  by (auto simp: movement_speed_factor_def Let_def split: option.split json.split)

lemma scaled_speed_ok:
  assumes "safe_float parse_float old = Some x" "factor \<in> {0.75, 1, 1.15}"
  shows "speed_ok parse_float old (JFloat (Fin (round_digits (x * factor) 4)))"
proof -
  have "\<bar>factor\<bar> \<le> 1.15" using assms(2) by auto
  then have "\<bar>x * factor\<bar> \<le> 1.15 * \<bar>x\<bar>"
    using mult_left_mono [of "\<bar>factor\<bar>" "1.15" "\<bar>x\<bar>"] by (simp add: abs_mult mult.commute)
  moreover have "\<bar>round_digits (x * factor) 4 - x * factor\<bar> \<le> 0.00005"
    using round_digits_near [of "x * factor" 4] by simp
  ultimately have "\<bar>round_digits (x * factor) 4\<bar> \<le> 1.15 * \<bar>x\<bar> + 0.00005" by linarith
  then show ?thesis using assms(1) by (auto simp: speed_ok_def)
qed

lemma clamped_duration_ok: "duration_ok (JFloat (Fin (round_digits (clamp d 0.2 12) 3)))"
proof -
  have "0.2 \<le> clamp d 0.2 12" "clamp d 0.2 12 \<le> 12" by (auto simp: clamp_def)
  then show ?thesis
    using round_digits_between [of 200 "clamp d 0.2 12" 3 12000] by (simp add: duration_ok_def)
qed

lemma default_durations_ok:
  "duration_ok (JFloat (Fin (clamp d 0.2 10)))"
  "duration_ok (JFloat (Fin (round_digits (DEFAULT_TURN_DURATION_S * clamp d 15 360 / DEFAULT_TURN_DEGREES) 3)))"
proof -
  show "duration_ok (JFloat (Fin (clamp d 0.2 10)))" by (auto simp: duration_ok_def clamp_def)
  have "15 \<le> clamp d 15 360" "clamp d 15 360 \<le> 360" by (auto simp: clamp_def)
  then show "duration_ok (JFloat (Fin (round_digits (DEFAULT_TURN_DURATION_S * clamp d 15 360 / DEFAULT_TURN_DEGREES) 3)))"
    using round_digits_between [of 200 "DEFAULT_TURN_DURATION_S * clamp d 15 360 / DEFAULT_TURN_DEGREES" 3 12000]
    by (simp add: duration_ok_def DEFAULT_TURN_DURATION_S_def DEFAULT_TURN_DEGREES_def)
qed

lemma changes_ok_refl [simp]: "changes_ok parse_float args args"
  by (simp add: changes_ok_def)

lemma changes_duration:
  assumes "changes_ok parse_float args args'" "duration_ok v"
  shows "changes_ok parse_float args (set_arg DURATION_S v args')"
  using assms by (auto simp: changes_ok_def map_of_set_arg)

lemma changes_speed:
  assumes "changes_ok parse_float args args'" "map_of args' key = map_of args key" "key \<in> {LINEAR_X, ANGULAR_Z}"
    and "factor \<in> {0.75, 1, 1.15}"
  shows "changes_ok parse_float args (scale_numeric_arg parse_float key factor args')"
proof (cases "close_to (Some factor) 1 \<or> number_arg parse_float key args' = None")
  case False
  then obtain x where x: "safe_float parse_float (map_of args' key) = Some x" by (auto simp: number_arg_def)
  note ok = scaled_speed_ok [OF x assms(4)]
  show ?thesis
    using assms(1-3) False x ok by (auto simp: changes_ok_def scale_numeric_arg_def number_arg_def map_of_set_arg)
qed (use assms(1) in \<open>auto simp: scale_numeric_arg_def\<close>)

lemma scale_other: "k \<noteq> key \<Longrightarrow> map_of (scale_numeric_arg parse_float key factor args) k = map_of args k"
  by (auto simp: scale_numeric_arg_def map_of_set_arg split: option.split)

text \<open>C22. Preferences stay within bounds. Applying the preferences of a speaker keeps the number, order,
  names, identifiers and priorities of the actions, leaves stop and cancel commands as they are, and
  changes no argument but durations and speeds: a duration it sets lies between 0.2 and 12 seconds, and a
  speed it sets is at most 15 percent above the one that was asked for, up to rounding.\<close>

theorem preferences_stay_bounded:
  "length (apply_user_preferences parse_float actions preferences) = length actions
   \<and> (\<forall>i < length actions.
        let a = actions ! i; b = apply_user_preferences parse_float actions preferences ! i
        in ac_name b = ac_name a \<and> ac_request_id b = ac_request_id a \<and> ac_priority b = ac_priority a
         \<and> (ac_name a \<in> {codes ''stop'', codes ''cancel_navigation''} \<longrightarrow> b = a)
         \<and> changes_ok parse_float (ac_arguments a) (ac_arguments b))"
proof -
  have args: "changes_ok parse_float (ac_arguments a) (ac_arguments (apply_to_action parse_float preferences a))" for a
  proof -
    let ?f = "movement_speed_factor preferences" and ?args = "ac_arguments a"
    note f = factor_range [of preferences]
    have move: "changes_ok parse_float ?args
        (scale_numeric_arg parse_float LINEAR_X ?f (apply_default_move_duration parse_float preferences ?args))"
      by (rule changes_speed [OF _ _ _ f])
        (auto simp: apply_default_move_duration_def map_of_set_arg changes_duration default_durations_ok [simplified] keys_distinct [symmetric]
          split: option.split)
    have turn: "changes_ok parse_float ?args (scale_turn_speed parse_float ?f applied args)"
      if "apply_default_turn_degrees parse_float preferences ?args = (applied, args)" for applied args
    proof -
      have d: "changes_ok parse_float ?args args" "map_of args ANGULAR_Z = map_of ?args ANGULAR_Z"
        using that
        by (auto simp: apply_default_turn_degrees_def map_of_set_arg changes_duration default_durations_ok [simplified]
            keys_distinct [symmetric] split: option.splits if_splits)
      show ?thesis
        using changes_speed [OF d _ f] d(1)
        by (auto simp: scale_turn_speed_def Let_def intro: changes_duration clamped_duration_ok [simplified] split: option.split)
    qed
    have lin: "changes_ok parse_float ?args (scale_numeric_arg parse_float LINEAR_X ?f ?args)"
      by (rule changes_speed [OF _ _ _ f]) auto
    have arc: "changes_ok parse_float ?args (scale_arc_speed parse_float ?f ?args)"
      using changes_speed [OF lin _ _ f, of ANGULAR_Z]
      by (auto simp: scale_arc_speed_def Let_def scale_other keys_distinct [symmetric]
          intro: changes_duration clamped_duration_ok [simplified] split: option.split)
    show ?thesis
      using move turn arc by (auto simp: apply_to_action_def Let_def split: prod.split)
  qed
  have "ac_name (apply_to_action parse_float preferences a) = ac_name a
      \<and> ac_request_id (apply_to_action parse_float preferences a) = ac_request_id a
      \<and> ac_priority (apply_to_action parse_float preferences a) = ac_priority a
      \<and> (ac_name a \<in> {codes ''stop'', codes ''cancel_navigation''} \<longrightarrow> apply_to_action parse_float preferences a = a)" for a
    by (simp add: apply_to_action_def Let_def)
  with args show ?thesis by (simp add: apply_user_preferences_def Let_def)
qed

theorem preferences_stay_bounded_witness:
  "ac_name (apply_user_preferences (\<lambda>_. None) [action_command (codes ''move'') [(LINEAR_X, JInt 1)]]
      [(codes ''movement_speed'', JString (codes ''fast''))] ! 0) = codes ''move''
   \<and> changes_ok (\<lambda>_. None) [(LINEAR_X, JInt 1)]
      (ac_arguments (apply_user_preferences (\<lambda>_. None) [action_command (codes ''move'') [(LINEAR_X, JInt 1)]]
        [(codes ''movement_speed'', JString (codes ''fast''))] ! 0))"
  using preferences_stay_bounded [of "\<lambda>_. None" "[action_command (codes ''move'') [(LINEAR_X, JInt 1)]]"
      "[(codes ''movement_speed'', JString (codes ''fast''))]"]
  by (simp add: Let_def action_command_def)

end
