(* ===== verification/Agent_Application.thy ===== *)
theory Agent_Application
  imports Agent_Execution Action_Sequence User_Preferences
begin

text \<open>
  \<open>agent_application_runtime.py\<close>: the use cases that join the control plane, the action publisher and the
  preferences of the speaker. The memory commands, the normaliser and the language understanding are
  arguments, and so are the preferences of the context in force. What is handed to the callbacks and
  published is a log. Other threads act on the publisher at the moments of \<open>Action_Sequence\<close>.
\<close>

section \<open>State\<close>

datatype application_event =
    PublishSession SessionEvent
  | PublishState string
  | PublishQueue CommandQueueEvent
  | PublishDecision TranscriptControlDecision
  | PublishEnqueue CommandEnqueueDecision
  | PublishResponse ustr
  | BackgroundTurn ustr
  | ModelTurn ustr
  | FinishPreparsed

record AgentApplicationRuntime =
  app_control :: AgentControlPlane
  app_sequencer :: SequentialActionPublisher
  app_wake_word_required :: bool
  app_continuous_enabled :: bool
  app_payloads :: "ActionCommand list"
  app_log :: "application_event list"

definition tell :: "application_event list \<Rightarrow> AgentApplicationRuntime \<Rightarrow> AgentApplicationRuntime" where
  "tell es a = a\<lparr>app_log := app_log a @ es\<rparr>"

text \<open>The execution runtime, if there is one, and the thread that makes the call.\<close>

type_synonym caller = "(AgentExecutionRuntime \<times> nat) option"

section \<open>Use cases\<close>

definition wait_for_results :: "caller \<Rightarrow> nat \<Rightarrow> bool" where
  "wait_for_results caller n =
     (case caller of None \<Rightarrow> 1 < n | Some (e, current) \<Rightarrow> should_wait_for_action_results e current (int n))"

definition publish_actions ::
  "(ustr \<Rightarrow> pyfloat option) \<Rightarrow> arguments \<Rightarrow> caller \<Rightarrow> ActionCommand list \<Rightarrow> moment list \<Rightarrow> AgentApplicationRuntime
     \<Rightarrow> (SequencePublishReport \<times> moment list \<times> AgentApplicationRuntime) option" where
  "publish_actions parse_float preferences caller actions ms a =
     (let action_list = apply_user_preferences parse_float actions preferences
      in case publish action_list (wait_for_results caller (length action_list)) ms (app_sequencer a) of
           None \<Rightarrow> None
         | Some ((report, payloads), ms, s) \<Rightarrow>
             Some (report, ms, a\<lparr>app_sequencer := s, app_payloads := app_payloads a @ payloads\<rparr>))"

definition priority_command :: "string \<Rightarrow> ActionCommand" where
  "priority_command name =
     \<lparr>ac_name = codes name, ac_arguments = [], ac_request_id = [], ac_priority = True\<rparr>"

definition cancel_running :: "ustr \<Rightarrow> AgentApplicationRuntime \<Rightarrow> AgentApplicationRuntime" where
  "cancel_running reason a = a\<lparr>app_sequencer := cancel_sequence reason (app_sequencer a)\<rparr>"

text \<open>\<open>handle_wake_event\<close>; \<open>None\<close> when the publication does not return.\<close>

definition handle_wake_event ::
  "(ustr \<Rightarrow> pyfloat option) \<Rightarrow> arguments \<Rightarrow> caller \<Rightarrow> string \<Rightarrow> string \<Rightarrow> ustr \<Rightarrow> moment list
     \<Rightarrow> AgentApplicationRuntime \<Rightarrow> clock \<Rightarrow> (moment list \<times> AgentApplicationRuntime \<times> clock) option" where
  "handle_wake_event parse_float preferences caller kind provider transcript ms a clk =
     (if kind = ''wake'' then
        (case external_wake provider transcript (cp_session (app_control a)) clk of (event, s, clk) \<Rightarrow>
           Some (ms, tell [PublishSession event, PublishState ''session_awake'']
                       (a\<lparr>app_control := (app_control a)\<lparr>cp_session := s\<rparr>\<rparr>), clk))
      else
        (case clear_with_event [] [] False (app_control a) of (dropped, event, cp) \<Rightarrow>
           case publish_actions parse_float preferences caller [priority_command ''stop''] ms
                  (cancel_running (codes ''external_sleep'') (tell [PublishQueue event] (a\<lparr>app_control := cp\<rparr>))) of
             None \<Rightarrow> None
           | Some (report, ms, a) \<Rightarrow>
               (case external_sleep provider (cp_session (app_control a)) of (event, s) \<Rightarrow>
                  Some (ms, tell [PublishSession event, PublishState ''sleeping'']
                              (a\<lparr>app_control := (app_control a)\<lparr>cp_session := s\<rparr>\<rparr>), clk))))"

definition enqueue_continuous_command ::
  "(ustr \<Rightarrow> NluResult) \<Rightarrow> metadata \<Rightarrow> ustr \<Rightarrow> AgentApplicationRuntime \<Rightarrow> clock \<Rightarrow> AgentApplicationRuntime \<times> clock" where
  "enqueue_continuous_command nlu private_context command a clk =
     (case enqueue_command nlu command private_context (Some private_context) (app_control a) clk of
        (decision, cp, clk) \<Rightarrow> (tell [PublishEnqueue decision] (a\<lparr>app_control := cp\<rparr>), clk))"

text \<open>A memory command is answered at once and spoken in a background turn; a direct command of a session
  without a queue becomes a background turn. Whether such a turn begins is decided by the execution
  runtime.\<close>

definition perform_command ::
  "(ustr \<Rightarrow> NluResult) \<Rightarrow> (ustr \<Rightarrow> ustr option) \<Rightarrow> metadata \<Rightarrow> caller \<Rightarrow> ustr \<Rightarrow> AgentApplicationRuntime \<Rightarrow> clock
     \<Rightarrow> AgentApplicationRuntime \<times> clock" where
  "perform_command nlu memory private_context caller command a clk =
     (case memory command of
        Some response \<Rightarrow>
          (tell ([PublishResponse response] @ (if caller = None then [] else [BackgroundTurn response])
             @ [PublishState ''listening'']) a, clk)
      | None \<Rightarrow>
          if app_continuous_enabled a then enqueue_continuous_command nlu private_context command a clk
          else (tell (if caller = None then [] else [BackgroundTurn command]) a, clk))"

definition accept_transcript_runtime ::
  "(ustr \<Rightarrow> ustr \<times> ustr) \<Rightarrow> (ustr \<Rightarrow> NluResult) \<Rightarrow> (ustr \<Rightarrow> ustr option) \<Rightarrow> (ustr \<Rightarrow> pyfloat option) \<Rightarrow> arguments
     \<Rightarrow> metadata \<Rightarrow> caller \<Rightarrow> ustr \<Rightarrow> moment list \<Rightarrow> AgentApplicationRuntime \<Rightarrow> clock
     \<Rightarrow> (moment list \<times> AgentApplicationRuntime \<times> clock) option" where
  "accept_transcript_runtime normalizer nlu memory parse_float preferences private_context caller transcript ms a clk =
     (case accept_transcript normalizer transcript (app_wake_word_required a) (app_control a) clk of
        (decision, cp, clk) \<Rightarrow>
          (let a = tell [PublishDecision decision] (a\<lparr>app_control := cp\<rparr>)
           in if td_directive decision \<in> {''sleep'', ''priority''} then
                (case publish_actions parse_float preferences caller [priority_command (td_priority_action decision)] ms
                        (cancel_running (codes (td_cancel_reason decision)) a) of
                   None \<Rightarrow> None
                 | Some (report, ms, a) \<Rightarrow> Some (ms, a, clk))
              else if td_directive decision \<noteq> ''command'' then Some (ms, a, clk)
              else
                (case perform_command nlu memory private_context caller (td_command decision) a clk of
                   (a, clk) \<Rightarrow> Some (ms, a, clk))))"

text \<open>\<open>ActionCommand.as_dict\<close>, and \<open>preparsed_actions\<close>, which reads the actions back from the context of
  a queued command. Of equal keys of a context the last one counts. Entries that are no object with a text as
  name are passed over; arguments that are neither an object nor empty raise. \<open>py_str\<close> is \<open>str\<close> of a value
  that is no text.\<close>

definition as_dict :: "ActionCommand \<Rightarrow> json" where
  "as_dict action =
     JObject ([(codes ''name'', JString (ac_name action)), (codes ''arguments'', JObject (ac_arguments action))]
       @ (if ac_request_id action \<noteq> [] then [(codes ''request_id'', JString (ac_request_id action))] else [])
       @ (if ac_priority action then [(codes ''priority'', JBool True)] else []))"

fun restore_arguments :: "json option \<Rightarrow> arguments option" where
  "restore_arguments None = Some []"
| "restore_arguments (Some (JObject kvs)) = Some kvs"
| "restore_arguments (Some v) = (if falsy v then Some [] else None)"

fun restore_actions :: "(json \<Rightarrow> ustr) \<Rightarrow> json list \<Rightarrow> ActionCommand list option" where
  "restore_actions py_str [] = Some []"
| "restore_actions py_str (JObject raw # others) =
     (case map_of raw (codes ''name'') of
        Some (JString name) \<Rightarrow>
          (case (restore_arguments (map_of raw (codes ''arguments'')), restore_actions py_str others) of
             (Some args, Some actions) \<Rightarrow>
               Some (\<lparr>ac_name = name, ac_arguments = args,
                      ac_request_id = restore_text py_str (map_of raw (codes ''request_id'')),
                      ac_priority = (case map_of raw (codes ''priority'') of None \<Rightarrow> False | Some v \<Rightarrow> \<not> falsy v)\<rparr> # actions)
           | _ \<Rightarrow> None)
      | _ \<Rightarrow> restore_actions py_str others)"
| "restore_actions py_str (v # others) = restore_actions py_str others"

text \<open>The value under \<open>preparsed_actions\<close> is a list whenever it is there: the control plane is the only
  writer of this key.\<close>

definition preparsed_actions :: "(json \<Rightarrow> ustr) \<Rightarrow> metadata \<Rightarrow> ActionCommand list option" where
  "preparsed_actions py_str context =
     (case map_of (rev context) ''preparsed_actions'' of
        Some (JList raws) \<Rightarrow> restore_actions py_str raws
      | _ \<Rightarrow> Some [])"

fun join_names :: "ustr list \<Rightarrow> ustr" where
  "join_names [] = []"
| "join_names [n] = n"
| "join_names (n # ns) = n @ [0xFF0C] @ join_names ns"

definition preparsed_response :: "ActionCommand list \<Rightarrow> ustr" where
  "preparsed_response actions =
     [0x597D, 0x7684, 0xFF0C, 0x6309, 0x987A, 0x5E8F, 0x6267, 0x884C, 0xFF1A] @ join_names (map ac_name actions) @ [0x3002]"

text \<open>The turn of a queued command: actions that were parsed when it was queued are published, anything else
  goes to the model. \<open>None\<close> is a publication that does not return, \<open>Some None\<close> an exception.\<close>

definition run_queued_turn ::
  "(json \<Rightarrow> ustr) \<Rightarrow> (ustr \<Rightarrow> pyfloat option) \<Rightarrow> arguments \<Rightarrow> caller
     \<Rightarrow> QueuedCommand \<Rightarrow> moment list \<Rightarrow> AgentApplicationRuntime \<Rightarrow> (moment list \<times> AgentApplicationRuntime) option option" where
  "run_queued_turn py_str parse_float preferences caller item ms a =
     (case preparsed_actions py_str (qc_context item) of
        None \<Rightarrow> Some None
      | Some [] \<Rightarrow> Some (Some (ms, tell [ModelTurn (qc_text item)] a))
      | Some actions \<Rightarrow>
          (case publish_actions parse_float preferences caller actions ms
                  (tell [PublishState ''thinking'', PublishResponse (preparsed_response actions)] a) of
             None \<Rightarrow> None
           | Some (report, ms, a) \<Rightarrow> Some (Some (ms, tell [FinishPreparsed] a))))"

definition notify_action_result ::
  "ustr \<Rightarrow> bool \<Rightarrow> ustr \<Rightarrow> int \<Rightarrow> AgentApplicationRuntime \<Rightarrow> AgentApplicationRuntime" where
  "notify_action_result command_id success message status a =
     a\<lparr>app_sequencer := notify_result command_id success message status (app_sequencer a)\<rparr>"

section \<open>A stop reaches the robot\<close>

lemma no_cancel_generation:
  "\<forall>reason. Cancel reason \<notin> set ops \<Longrightarrow> sq_cancel_generation (run sequence_step ops s) = sq_cancel_generation s"
proof (induction ops arbitrary: s)
  case (Cons op ops)
  then have "sq_cancel_generation (sequence_step op s) = sq_cancel_generation s"
    by (cases op) (auto simp: notify_result_def Let_def)
  then show ?case using Cons by simp
qed simp

lemma publish_single:
  assumes "\<forall>reason. Cancel reason \<notin> set ops1"
  obtains report c s' where "publish [a] False ((ops0, now0) # (ops1, now1) # ms) s = Some ((report, [c]), ms, s')"
    and "command_core c = command_core a" "ac_request_id c \<noteq> []" "\<not> sp_failed report"
    and "sq_cancel_generation s \<le> sq_cancel_generation s'"
proof -
  let ?s = "run sequence_step ops0 s"
  obtain c s1 where ids: "command_with_request_id a ?s = (c, s1)" by fastforce
  note core = with_request_id_core [OF ids]
  let ?s1 = "run sequence_step ops1 s1"
  have g: "sq_cancel_generation ?s1 = sq_cancel_generation ?s"
    using no_cancel_generation [OF assms] core by simp
  have "publish [a] False ((ops0, now0) # (ops1, now1) # ms) s = Some ((publish_report [c] 0 False [], [c]), ms, ?s1)"
    using g by (simp add: publish_def ids finish_batch_def Let_def)
  then show ?thesis
    using that core g sequence_generation [of s ops0] by (simp add: publish_report_def)
qed

text \<open>A priority command, published from a thread that is not the worker, goes out unchanged whatever the
  preferences of the speaker are.\<close>

lemma publish_priority:
  assumes "caller = None \<or> (\<exists>e current. caller = Some (e, current) \<and> ex_worker e \<noteq> Some current)"
    and "name \<in> {''stop'', ''cancel_navigation''}" "\<forall>reason. Cancel reason \<notin> set ops1"
  obtains report c s' where "publish_actions parse_float preferences caller [priority_command name]
      ((ops0, now0) # (ops1, now1) # ms) a
      = Some (report, ms, a\<lparr>app_sequencer := s', app_payloads := app_payloads a @ [c]\<rparr>)"
    and "command_core c = command_core (priority_command name)" "ac_request_id c \<noteq> []"
    and "sq_cancel_generation (app_sequencer a) \<le> sq_cancel_generation s'"
proof -
  have w: "\<not> wait_for_results caller 1"
    using assms(1) by (auto simp: wait_for_results_def should_wait_for_action_results_def)
  have same: "apply_user_preferences parse_float [priority_command name] preferences = [priority_command name]"
    using assms(2) by (auto simp: apply_user_preferences_def apply_to_action_def priority_command_def)
  from publish_single [OF assms(3), of "priority_command name" ops0 now0 now1 ms "app_sequencer a"]
  obtain report c s' where p: "publish [priority_command name] False ((ops0, now0) # (ops1, now1) # ms) (app_sequencer a)
      = Some ((report, [c]), ms, s')" "command_core c = command_core (priority_command name)" "ac_request_id c \<noteq> []"
      "sq_cancel_generation (app_sequencer a) \<le> sq_cancel_generation s'" by metis
  show ?thesis
    by (rule that [of report c s']) (use p w in \<open>auto simp: publish_actions_def same\<close>)
qed

text \<open>A priority decision of the control plane is a sleep or a priority directive.\<close>

lemma stop_directive:
  assumes "accept_transcript normalizer transcript required cp clk = (d, cp', clk')" "td_priority_action d \<noteq> []"
  shows "td_directive d \<in> {''sleep'', ''priority''}"
proof -
  obtain session s clk2 where sess: "session_accept (if cp_normalization_enabled cp then snd (normalizer transcript)
      else transcript) (cp_session cp) clk = (session, s, clk2)"
    by (metis prod_cases3)
  from accept_transcript_decides [where normalizer = normalizer and transcript = transcript, OF refl sess]
  obtain fb where "accept_transcript normalizer transcript required cp clk =
     (case (sd_accepted session, sd_command session) of
       (True, Some command) \<Rightarrow>
         (case accepted_transcript (if cp_normalization_enabled cp then snd (normalizer transcript) else transcript)
            command session fb (cp\<lparr>cp_session := s\<rparr>) of (d, cp) \<Rightarrow> (d, cp, clk2))
     | _ \<Rightarrow> refused_transcript required (if cp_normalization_enabled cp then snd (normalizer transcript) else transcript)
         session fb (cp\<lparr>cp_session := s\<rparr>) clk2)" .
  from trans [OF this [symmetric] assms(1)] show ?thesis
    using assms(2)
    by (auto simp: refused_transcript_def accepted_transcript_def control_decision_def clear_with_event_def Let_def
        split: bool.splits option.splits prod.splits if_splits)
qed


definition demo_plane :: AgentControlPlane where
  "demo_plane =
     \<lparr>cp_source = ''agent'', cp_continuous_enabled = True, cp_queue = command_queue 3 0,
      cp_session = voice_session (wake_word_gate [] [] False (Fin 8)) True (Fin 2),
      cp_retry = retry_tracker 3, cp_normalization_enabled = False, cp_normalization_feedback = False,
      cp_completion_enabled = True, cp_nlu_batch_sequence = 0\<rparr>"

definition demo_application :: AgentApplicationRuntime where
  "demo_application =
     \<lparr>app_control = demo_plane, app_sequencer = action_publisher (Fin 12) None, app_wake_word_required = False,
      app_continuous_enabled = True, app_payloads = [], app_log = []\<rparr>"


section \<open>Queued actions come back\<close>

lemma restore_as_dict: "restore_actions py_str (map as_dict actions) = Some actions"
proof (induction actions)
  case (Cons x actions)
  then show ?case by (cases x) (auto simp: as_dict_def restore_text_def codes_def split: option.splits)
qed simp

text \<open>C24. Queued actions come back unchanged. When a command with actions found by the language understanding is
  queued, whatever else its context holds, the last item of the queue is this command, and its turn publishes
  exactly these actions later, in the same order and with the same names, arguments, identifiers and
  priorities.\<close>

theorem queued_actions_roundtrip:
  assumes "pc_actions parsed = JList (map as_dict actions)" "actions \<noteq> []"
    and "enqueue_batch source batch_id index count command extras [parsed] q clk = (events, None, q', clk')"
  shows "\<exists>items item. cq_items q' = items @ [item] \<and> qc_text item = pc_span_text parsed
    \<and> run_queued_turn py_str parse_float preferences caller item ms a
      = (case publish_actions parse_float preferences caller actions ms
               (tell [PublishState ''thinking'', PublishResponse (preparsed_response actions)] a) of
           None \<Rightarrow> None
         | Some (report, ms, a) \<Rightarrow> Some (Some (ms, tell [FinishPreparsed] a)))"
proof -
  have "\<exists>items item. cq_items q' = items @ [item] \<and> qc_text item = pc_span_text parsed
      \<and> qc_context item = extras @ batch_metadata batch_id index count command parsed
          @ [(''preparsed_actions'', pc_actions parsed)]"
    using assms(3)
    by (auto simp: queue_put_def Let_def split: if_splits prod.splits list.splits)
  then obtain items item where q: "cq_items q' = items @ [item]" "qc_text item = pc_span_text parsed"
      "qc_context item = extras @ batch_metadata batch_id index count command parsed
          @ [(''preparsed_actions'', pc_actions parsed)]" by blast
  then have "preparsed_actions py_str (qc_context item) = Some actions"
    using assms(1) by (simp add: preparsed_actions_def restore_as_dict)
  then show ?thesis using q assms(2) by (cases actions) (auto simp: run_queued_turn_def)
qed

theorem queued_actions_roundtrip_witness:
  "\<exists>(q' :: ContinuousCommandQueue) items item.
      cq_items q' = items @ [item] \<and> qc_text item = [65]
    \<and> run_queued_turn (\<lambda>_. []) (\<lambda>_. None) [] None item [([], 0), ([], 0)] demo_application
      = (case publish_actions (\<lambda>_. None) [] None [stop_command] [([], 0), ([], 0)]
               (tell [PublishState ''thinking'', PublishResponse (preparsed_response [stop_command])] demo_application) of
           None \<Rightarrow> None
         | Some (report, ms, a) \<Rightarrow> Some (Some (ms, tell [FinishPreparsed] a)))"
proof -
  let ?parsed = "\<lparr>pc_intent = [], pc_span_text = [65], pc_actions = JList (map as_dict [stop_command]), pc_confidence = Fin 1\<rparr>"
  obtain events q' clk' where "enqueue_batch ''agent'' ''b'' 1 1 [65] [(''preparsed_actions'', JNull)] [?parsed]
      (command_queue 3 0) (\<lambda>_. Fin 1) = (events, None, q', clk')"
    by (simp add: queue_put_def tick_def command_queue_def queue_size_def Let_def)
  note roundtrip = queued_actions_roundtrip [where actions = "[stop_command]" and parsed = ?parsed, OF _ _ this,
      where py_str = "\<lambda>_. []" and parse_float = "\<lambda>_. None" and preferences = "[]" and caller = None
        and ms = "[([], 0), ([], 0)]" and a = demo_application]
  show ?thesis by (rule exI [of _ q']) (use roundtrip in simp)
qed

end
