(* ===== verification/Action_Gateway.thy ===== *)
theory Action_Gateway
  imports Schedules Unicode_Text
begin

text \<open>
  \<open>agent_action_gateway.py\<close>: running an action of the agent by its text, or as a typed command, and waiting
  for the result that belongs to it. Callbacks record candidates and results, the request may be canceled and
  subscribers come and go at the moments between two looks of the caller. The text that is published and the
  calls that stop the motion are effects.
\<close>

section \<open>State\<close>

record AgentActionOutcome =
  ao_success :: bool
  ao_status :: int
  ao_message :: ustr

datatype gateway_effect = PublishText ustr | PublishCommand | CancelMotion | LogDryRun ustr

text \<open>The gateway with what its callbacks and its caller share: the flag of the request and the number of
  subscribers.\<close>

record AgentActionGateway =
  gw_candidate_generation :: int
  gw_candidates :: "(int \<times> int \<times> ustr) list"
  gw_result_generation :: int
  gw_results :: "(ustr \<times> int \<times> AgentActionOutcome) list"
  gw_canceled :: bool
  gw_subscribers :: int
  gw_effects :: "gateway_effect list"

definition action_gateway :: AgentActionGateway where
  "action_gateway =
     \<lparr>gw_candidate_generation = 0, gw_candidates = [], gw_result_generation = 0, gw_results = [],
      gw_canceled = False, gw_subscribers = 0, gw_effects = []\<rparr>"

datatype gateway_error = TimedOut ustr | MissionCancelled | ActionFailed ustr int ustr | EmptyCommandId

section \<open>Callbacks\<close>

text \<open>A deque with a bound drops its oldest entries.\<close>

definition last_n :: "nat \<Rightarrow> 'a list \<Rightarrow> 'a list" where
  "last_n n xs = drop (length xs - n) xs"

definition record_candidate :: "int \<Rightarrow> ustr \<Rightarrow> AgentActionGateway \<Rightarrow> AgentActionGateway" where
  "record_candidate action_type command_id g =
     (if command_id = [] then g
      else
        (let generation = gw_candidate_generation g + 1
         in g\<lparr>gw_candidate_generation := generation,
              gw_candidates := last_n 64 (gw_candidates g @ [(generation, action_type, command_id)])\<rparr>))"

text \<open>The entry of a known command is replaced and moved to the end.\<close>

definition record_result :: "ustr \<Rightarrow> AgentActionOutcome \<Rightarrow> AgentActionGateway \<Rightarrow> AgentActionGateway" where
  "record_result command_id outcome g =
     (if command_id = [] then g
      else
        (let generation = gw_result_generation g + 1
         in g\<lparr>gw_result_generation := generation,
              gw_results := last_n 128
                (filter (\<lambda>r. fst r \<noteq> command_id) (gw_results g) @ [(command_id, generation, outcome)])\<rparr>))"

datatype gateway_op =
    Candidate int ustr
  | Result ustr AgentActionOutcome
  | CancelRequest
  | Subscribers int

fun gateway_step :: "gateway_op \<Rightarrow> AgentActionGateway \<Rightarrow> AgentActionGateway" where
  "gateway_step (Candidate action_type command_id) g = record_candidate action_type command_id g"
| "gateway_step (Result command_id outcome) g = record_result command_id outcome g"
| "gateway_step CancelRequest g = g\<lparr>gw_canceled := True\<rparr>"
| "gateway_step (Subscribers n) g = g\<lparr>gw_subscribers := n\<rparr>"

section \<open>Looks\<close>

text \<open>\<open>_raise_if_canceled\<close>, before a look at the rest of the state.\<close>

definition cancel_check ::
  "(AgentActionGateway \<Rightarrow> (gateway_error + 'a) option \<times> AgentActionGateway) \<Rightarrow> AgentActionGateway
     \<Rightarrow> (gateway_error + 'a) option \<times> AgentActionGateway" where
  "cancel_check look g =
     (if gw_canceled g
      then (Some (Inl MissionCancelled), g\<lparr>gw_effects := gw_effects g @ [CancelMotion]\<rparr>)
      else look g)"

type_synonym gateway_moment = "gateway_op list \<times> pyfloat"

definition subscriber_look ::
  "pyfloat \<Rightarrow> gateway_moment \<Rightarrow> AgentActionGateway \<Rightarrow> (gateway_error + unit) option \<times> AgentActionGateway" where
  "subscriber_look deadline m g =
     (let g = run gateway_step (fst m) g
      in if gw_subscribers g \<noteq> 0 then (Some (Inr ()), g)
         else cancel_check (\<lambda>g.
           (if deadline \<le> snd m
            then Some (Inl (TimedOut (codes ''Agent text input subscriber unavailable''))) else None, g)) g)"

definition find_candidate :: "int \<Rightarrow> int \<Rightarrow> AgentActionGateway \<Rightarrow> ustr option" where
  "find_candidate baseline expected_type g =
     map_option (\<lambda>c. snd (snd c))
       (find (\<lambda>c. baseline < fst c \<and> fst (snd c) = expected_type) (gw_candidates g))"

definition candidate_look ::
  "int \<Rightarrow> int \<Rightarrow> pyfloat \<Rightarrow> gateway_moment \<Rightarrow> AgentActionGateway
     \<Rightarrow> (gateway_error + ustr) option \<times> AgentActionGateway" where
  "candidate_look baseline expected_type deadline m g =
     cancel_check (\<lambda>g.
       (case find_candidate baseline expected_type g of
          Some command_id \<Rightarrow> Some (Inr command_id)
        | None \<Rightarrow>
            if deadline - snd m \<le> 0
            then Some (Inl (TimedOut (codes ''Agent did not publish expected action''))) else None, g))
       (run gateway_step (fst m) g)"

definition result_look ::
  "ustr \<Rightarrow> int \<Rightarrow> pyfloat \<Rightarrow> ustr \<Rightarrow> gateway_moment \<Rightarrow> AgentActionGateway
     \<Rightarrow> (gateway_error + AgentActionOutcome) option \<times> AgentActionGateway" where
  "result_look command_id baseline deadline expected_name m g =
     cancel_check (\<lambda>g.
       (case map_of (gw_results g) command_id of
          Some (generation, outcome) \<Rightarrow>
            if baseline < generation
            then (Some (Inr outcome), g\<lparr>gw_results := filter (\<lambda>r. fst r \<noteq> command_id) (gw_results g)\<rparr>)
            else (if deadline - snd m \<le> 0
                  then Some (Inl (TimedOut (codes ''action result timeout for '' @ expected_name @ codes '':'' @ command_id)))
                  else None, g)
        | None \<Rightarrow>
            (if deadline - snd m \<le> 0
             then Some (Inl (TimedOut (codes ''action result timeout for '' @ expected_name @ codes '':'' @ command_id)))
             else None, g)))
       (run gateway_step (fst m) g)"

section \<open>Running an action\<close>

definition check_outcome :: "ustr \<Rightarrow> AgentActionOutcome \<Rightarrow> gateway_error + AgentActionOutcome" where
  "check_outcome expected_name outcome =
     (if ao_success outcome then Inr outcome
      else Inl (ActionFailed expected_name (ao_status outcome) (ao_message outcome)))"

text \<open>The baselines are taken in one section and the text is published after it.\<close>

definition await_action ::
  "ustr \<Rightarrow> int \<Rightarrow> ustr \<Rightarrow> pyfloat \<Rightarrow> gateway_moment list \<Rightarrow> AgentActionGateway
     \<Rightarrow> ((gateway_error + AgentActionOutcome) \<times> gateway_moment list \<times> AgentActionGateway) option" where
  "await_action t expected_type expected_name deadline ms g =
     (case ms of
        [] \<Rightarrow> None
      | (ops, now) # ms \<Rightarrow>
          (let g = run gateway_step ops g;
               candidate_baseline = gw_candidate_generation g;
               result_baseline = gw_result_generation g
           in case poll_rounds (candidate_look candidate_baseline expected_type deadline) ms
                     (g\<lparr>gw_effects := gw_effects g @ [PublishText t]\<rparr>) of
                None \<Rightarrow> None
              | Some (Inl e, ms, g) \<Rightarrow> Some (Inl e, ms, g)
              | Some (Inr command_id, ms, g) \<Rightarrow>
                  (case poll_rounds (result_look command_id result_baseline deadline expected_name) ms g of
                     None \<Rightarrow> None
                   | Some (Inl e, ms, g) \<Rightarrow> Some (Inl e, ms, g)
                   | Some (Inr outcome, ms, g) \<Rightarrow> Some (check_outcome expected_name outcome, ms, g))))"

definition run_once ::
  "ustr \<Rightarrow> int \<Rightarrow> ustr \<Rightarrow> pyfloat \<Rightarrow> gateway_moment list \<Rightarrow> AgentActionGateway
     \<Rightarrow> ((gateway_error + AgentActionOutcome) \<times> gateway_moment list \<times> AgentActionGateway) option" where
  "run_once t expected_type expected_name timeout_s ms g =
     (case ms of
        [] \<Rightarrow> None
      | (ops, now) # ms \<Rightarrow>
          (let deadline = now + pymax 0 timeout_s
           in case poll_rounds (subscriber_look deadline) ms (run gateway_step ops g) of
                None \<Rightarrow> None
              | Some (Inl e, ms, g) \<Rightarrow> Some (Inl e, ms, g)
              | Some (Inr _, ms, g) \<Rightarrow> await_action t expected_type expected_name deadline ms g))"

text \<open>\<open>run\<close>: a dry run is logged and returns nothing; a run holds the lock of the runs from end to end.\<close>

definition run_text ::
  "bool \<Rightarrow> ustr \<Rightarrow> int \<Rightarrow> ustr \<Rightarrow> pyfloat \<Rightarrow> gateway_moment list \<Rightarrow> AgentActionGateway
     \<Rightarrow> ((gateway_error + AgentActionOutcome option) \<times> gateway_moment list \<times> AgentActionGateway) option" where
  "run_text dry_run t expected_type expected_name timeout_s ms g =
     (if dry_run
      then Some (Inr None, ms, g\<lparr>gw_effects := gw_effects g @
        [LogDryRun (codes ''DRY RUN agent action: '' @ t @ codes '' -> '' @ expected_name)]\<rparr>)
      else case run_once t expected_type expected_name timeout_s ms g of
        None \<Rightarrow> None
      | Some (r, ms, g) \<Rightarrow> Some (map_sum id Some r, ms, g))"

definition run_typed ::
  "ustr \<Rightarrow> ustr \<Rightarrow> pyfloat \<Rightarrow> gateway_moment list \<Rightarrow> AgentActionGateway
     \<Rightarrow> ((gateway_error + AgentActionOutcome) \<times> gateway_moment list \<times> AgentActionGateway) option" where
  "run_typed command_id expected_name timeout_s ms g =
     (if command_id = [] then Some (Inl EmptyCommandId, ms, g)
      else case ms of
        (ops, now) # (ops', now') # ms \<Rightarrow>
          (let deadline = now + pymax 0 timeout_s;
               g = run gateway_step ops' (run gateway_step ops g);
               result_baseline = gw_result_generation g
           in case poll_rounds (result_look command_id result_baseline deadline expected_name) ms
                     (g\<lparr>gw_effects := gw_effects g @ [PublishCommand]\<rparr>) of
                None \<Rightarrow> None
              | Some (Inl e, ms, g) \<Rightarrow> Some (Inl e, ms, g)
              | Some (Inr outcome, ms, g) \<Rightarrow> Some (check_outcome expected_name outcome, ms, g))
      | _ \<Rightarrow> None)"

lemma find_SomeD: "find P xs = Some x \<Longrightarrow> P x \<and> x \<in> set xs"
  by (induction xs) (auto split: if_splits)

section \<open>Bounded and dated records\<close>

lemma last_n_subset: "set (last_n n xs) \<subseteq> set xs"
  by (auto simp: last_n_def dest: in_set_dropD)

lemma last_n_length: "length (last_n n xs) \<le> n"
  by (simp add: last_n_def)

text \<open>Every record carries a generation that has been reached, and the records are bounded.\<close>

definition dated :: "AgentActionGateway \<Rightarrow> bool" where
  "dated g \<longleftrightarrow> (\<forall>c \<in> set (gw_candidates g). fst c \<le> gw_candidate_generation g)
     \<and> (\<forall>r \<in> set (gw_results g). fst (snd r) \<le> gw_result_generation g)
     \<and> length (gw_candidates g) \<le> 64 \<and> length (gw_results g) \<le> 128"

lemma gateway_step_dated: "dated g \<Longrightarrow> dated (gateway_step op g)"
proof (cases op)
  case (Candidate ty cid)
  assume g: "dated g"
  have "c \<in> set (gw_candidates g) \<or> c = (gw_candidate_generation g + 1, ty, cid)"
    if "c \<in> set (last_n 64 (gw_candidates g @ [(gw_candidate_generation g + 1, ty, cid)]))" for c
    using that last_n_subset by fastforce
  then show ?thesis
    using g Candidate last_n_length [of 64] by (fastforce simp: dated_def record_candidate_def Let_def)
next
  case (Result cid outcome)
  assume g: "dated g"
  have "r \<in> set (gw_results g) \<or> r = (cid, gw_result_generation g + 1, outcome)"
    if "r \<in> set (last_n 128 (filter (\<lambda>r. fst r \<noteq> cid) (gw_results g) @ [(cid, gw_result_generation g + 1, outcome)]))" for r
    using that last_n_subset by fastforce
  then show ?thesis
    using g Result last_n_length [of 128] by (fastforce simp: dated_def record_result_def Let_def)
qed (auto simp: dated_def)

interpretation gateway: invariant_system gateway_step dated
  by unfold_locales (rule gateway_step_dated)

text \<open>What callbacks add: a candidate or result that is newer than a generation was recorded after it.\<close>

definition added_candidates :: "gateway_op list \<Rightarrow> AgentActionGateway \<Rightarrow> AgentActionGateway \<Rightarrow> bool" where
  "added_candidates ops g g' \<longleftrightarrow>
     (\<forall>n ty cid. (n, ty, cid) \<in> set (gw_candidates g') \<longrightarrow>
        (n, ty, cid) \<in> set (gw_candidates g) \<or> Candidate ty cid \<in> set ops)"

definition added_results :: "gateway_op list \<Rightarrow> AgentActionGateway \<Rightarrow> AgentActionGateway \<Rightarrow> bool" where
  "added_results ops g g' \<longleftrightarrow>
     (\<forall>cid n outcome. (cid, n, outcome) \<in> set (gw_results g') \<longrightarrow>
        (cid, n, outcome) \<in> set (gw_results g) \<or> Result cid outcome \<in> set ops)"

lemma gateway_step_added: "added_candidates [op] g (gateway_step op g) \<and> added_results [op] g (gateway_step op g)"
  by (cases op)
    (auto simp: added_candidates_def added_results_def record_candidate_def record_result_def Let_def
      dest!: subsetD [OF last_n_subset])

lemma gateway_run_added:
  "added_candidates ops g (run gateway_step ops g) \<and> added_results ops g (run gateway_step ops g)"
proof (induction ops arbitrary: g)
  case (Cons op ops)
  then show ?case
    using gateway_step_added [of op g] Cons.IH [of "gateway_step op g"]
    by (fastforce simp: added_candidates_def added_results_def)
qed (simp add: added_candidates_def added_results_def)

section \<open>A result belongs to its run\<close>

text \<open>What the callbacks did at a list of moments.\<close>

definition done_at :: "gateway_moment list \<Rightarrow> gateway_op list" where
  "done_at ms = concat (map fst ms)"

lemma done_at_simps [simp]: "done_at [] = []" "done_at (m # ms) = fst m @ done_at ms" "done_at (a @ b) = done_at a @ done_at b"
  by (simp_all add: done_at_def)

lemma poll_candidate:
  "poll_rounds (candidate_look baseline ty deadline) ms g = Some (Inr cid, ms', g') \<Longrightarrow>
     \<exists>used n. ms = used @ ms' \<and> baseline < n
       \<and> ((n, ty, cid) \<in> set (gw_candidates g) \<or> Candidate ty cid \<in> set (done_at used))
       \<and> added_results (done_at used) g g'"
proof (induction ms arbitrary: g)
  case (Cons m ms)
  let ?g = "run gateway_step (fst m) g"
  note add = gateway_run_added [of "fst m" g]
  show ?case
  proof (cases "fst (candidate_look baseline ty deadline m g)")
    case (Some x)
    then have x: "x = Inr cid" "ms = ms'" "g' = snd (candidate_look baseline ty deadline m g)"
      using Cons.prems by (auto split: prod.splits)
    with Some have "find_candidate baseline ty ?g = Some cid" "g' = ?g"
      by (auto simp: candidate_look_def cancel_check_def split: if_splits option.splits)
    moreover from this obtain c where
      "find (\<lambda>c. baseline < fst c \<and> fst (snd c) = ty) (gw_candidates ?g) = Some c" "cid = snd (snd c)"
      by (auto simp: find_candidate_def)
    then obtain n where n: "baseline < n" "(n, ty, cid) \<in> set (gw_candidates ?g)"
      by (cases c) (auto dest: find_SomeD)
    ultimately show ?thesis
      using x(2) add by (intro exI [of _ "[m]"] exI [of _ n]) (auto simp: added_candidates_def)
  next
    case None
    then have "snd (candidate_look baseline ty deadline m g) = ?g"
      by (auto simp: candidate_look_def cancel_check_def split: if_splits option.splits)
    with None have "poll_rounds (candidate_look baseline ty deadline) ms ?g = Some (Inr cid, ms', g')"
      using Cons.prems by (auto split: prod.splits)
    from Cons.IH [OF this] obtain used n where u: "ms = used @ ms'" "baseline < n"
      "(n, ty, cid) \<in> set (gw_candidates ?g) \<or> Candidate ty cid \<in> set (done_at used)"
      "added_results (done_at used) ?g g'" by blast
    have "added_results (done_at (m # used)) g g'"
      using u(4) add unfolding added_results_def done_at_simps set_append by blast
    moreover have "(n, ty, cid) \<in> set (gw_candidates g) \<or> Candidate ty cid \<in> set (done_at (m # used))"
      using u(3) add unfolding added_candidates_def done_at_simps set_append by blast
    ultimately show ?thesis using u(1,2) by (intro exI [of _ "m # used"] exI [of _ n]) simp
  qed
qed simp

lemma poll_result:
  "poll_rounds (result_look cid baseline deadline name) ms g = Some (Inr outcome, ms', g') \<Longrightarrow>
     \<exists>used n. ms = used @ ms' \<and> baseline < n
       \<and> ((cid, n, outcome) \<in> set (gw_results g) \<or> Result cid outcome \<in> set (done_at used))"
proof (induction ms arbitrary: g)
  case (Cons m ms)
  let ?g = "run gateway_step (fst m) g"
  note add = gateway_run_added [of "fst m" g]
  show ?case
  proof (cases "fst (result_look cid baseline deadline name m g)")
    case (Some x)
    then have "x = Inr outcome" "ms = ms'" using Cons.prems by (auto split: prod.splits)
    with Some obtain n where n: "baseline < n" "map_of (gw_results ?g) cid = Some (n, outcome)"
      by (auto simp: result_look_def cancel_check_def split: if_splits option.splits)
    then show ?thesis
      using add \<open>ms = ms'\<close> map_of_SomeD [OF n(2)]
      by (intro exI [of _ "[m]"] exI [of _ n]) (auto simp: added_results_def)
  next
    case None
    then have "snd (result_look cid baseline deadline name m g) = ?g"
      by (auto simp: result_look_def cancel_check_def split: if_splits option.splits)
    with None have "poll_rounds (result_look cid baseline deadline name) ms ?g = Some (Inr outcome, ms', g')"
      using Cons.prems by (auto split: prod.splits)
    from Cons.IH [OF this] obtain used n where u: "ms = used @ ms'" "baseline < n"
      "(cid, n, outcome) \<in> set (gw_results ?g) \<or> Result cid outcome \<in> set (done_at used)" by blast
    have "(cid, n, outcome) \<in> set (gw_results g) \<or> Result cid outcome \<in> set (done_at (m # used))"
      using u(3) add unfolding added_results_def done_at_simps set_append by blast
    then show ?thesis using u(1,2) by (intro exI [of _ "m # used"] exI [of _ n]) simp
  qed
qed simp



section \<open>Cancellation and termination\<close>

text \<open>A look that gives a result saw the cancellation exactly when it reports it, and has stopped the motion then.\<close>

definition cancel_honoured :: "gateway_error + 'a \<Rightarrow> AgentActionGateway \<Rightarrow> bool" where
  "cancel_honoured r g \<longleftrightarrow> (r = Inl MissionCancelled \<longleftrightarrow> gw_canceled g)
     \<and> (gw_canceled g \<longrightarrow> gw_effects g \<noteq> [] \<and> last (gw_effects g) = CancelMotion)"

lemma poll_rounds_look:
  "poll_rounds look ms s = Some (r, ms', s') \<Longrightarrow> \<exists>m s0. look m s0 = (Some r, s')"
  by (induction ms arbitrary: s) (auto split: prod.splits option.splits)

lemma looks_honour:
  "candidate_look baseline ty deadline m g = (Some r, g') \<Longrightarrow> cancel_honoured r g'"
  "result_look command_id baseline deadline name m g = (Some r', g') \<Longrightarrow> cancel_honoured r' g'"
  "subscriber_look deadline m g = (Some (Inl e), g') \<Longrightarrow> cancel_honoured (Inl e :: gateway_error + unit) g'"
  by (auto simp: candidate_look_def result_look_def subscriber_look_def cancel_check_def cancel_honoured_def Let_def
      split: if_splits option.splits)

lemma polls_honour:
  "poll_rounds (candidate_look baseline ty deadline) ms g = Some (r, ms', g') \<Longrightarrow> cancel_honoured r g'"
  "poll_rounds (result_look command_id baseline deadline name) ms g = Some (r', ms', g') \<Longrightarrow> cancel_honoured r' g'"
  "poll_rounds (subscriber_look deadline) ms g = Some (Inl e, ms', g') \<Longrightarrow> cancel_honoured (Inl e :: gateway_error + unit) g'"
  by (blast dest: poll_rounds_look looks_honour)+

lemma cancel_honoured_cong:
  "cancel_honoured (Inl e :: gateway_error + 'a) g \<Longrightarrow> cancel_honoured (Inl e :: gateway_error + 'b) g"
  "cancel_honoured (Inr x :: gateway_error + 'a) g \<Longrightarrow> cancel_honoured (Inr y :: gateway_error + 'b) g"
  "cancel_honoured (Inr x :: gateway_error + 'a) g \<Longrightarrow> cancel_honoured (check_outcome name outcome) g"
  by (auto simp: cancel_honoured_def check_outcome_def)

lemma await_action_honours:
  "await_action t ty name deadline ms g = Some (r, ms', g') \<Longrightarrow> cancel_honoured r g'"
  by (auto simp: await_action_def Let_def split: list.splits option.splits sum.splits prod.splits
      dest!: polls_honour intro: cancel_honoured_cong)

lemma run_once_honours:
  "run_once t ty name timeout_s ms g = Some (r, ms', g') \<Longrightarrow> cancel_honoured r g'"
  by (auto simp: run_once_def Let_def split: list.splits option.splits sum.splits prod.splits
      dest: await_action_honours polls_honour intro: cancel_honoured_cong)

text \<open>Every look gives a result once the clock has reached a finite deadline.\<close>

lemma nothing_remains: "Fin d \<le> t \<Longrightarrow> Fin d - t \<le> 0"
  by (cases t) (auto simp: flt_simps minus_pyfloat_def less_eq_pyfloat_def)

interpretation subscriber_wait: timed_look "subscriber_look (Fin d)" "\<lambda>_. True" d for d
  by unfold_locales (auto simp: subscriber_look_def cancel_check_def Let_def)

interpretation candidate_wait: timed_look "candidate_look baseline ty (Fin d)" "\<lambda>_. True" d for baseline ty d
  by unfold_locales (auto simp: candidate_look_def cancel_check_def nothing_remains split: option.splits)

interpretation result_wait: timed_look "result_look command_id baseline (Fin d) name" "\<lambda>_. True" d
  for command_id baseline d name
  by unfold_locales (auto simp: result_look_def cancel_check_def nothing_remains split: option.splits)

lemma await_action_settles:
  assumes "clock_advances sched"
  shows "settles sched (\<lambda>_. True) (\<lambda>ms. await_action t ty name (Fin d) ms g) k"
proof -
  define g0 where "g0 = run gateway_step (fst (sched k)) g"
  let ?result = "\<lambda>command_id ms g. case poll_rounds (result_look command_id (gw_result_generation g0) (Fin d) name) ms g of
      None \<Rightarrow> None | Some (r, ms, g) \<Rightarrow> Some (case r of Inl e \<Rightarrow> Inl e | Inr outcome \<Rightarrow> check_outcome name outcome, ms, g)"
  let ?next = "\<lambda>r ms g. case r of Inl e \<Rightarrow> Some (Inl e, ms, g) | Inr command_id \<Rightarrow> ?result command_id ms g"
  have result: "settles sched (\<lambda>_. True) (\<lambda>ms. ?result command_id ms g) m" for command_id g m
    by (rule settles_bind [OF result_wait.rounds_settle [OF assms]]) (auto intro: settles_now)
  have "settles sched (\<lambda>_. True) (\<lambda>ms. case poll_rounds (candidate_look (gw_candidate_generation g0) ty (Fin d)) ms
      (g0\<lparr>gw_effects := gw_effects g0 @ [PublishText t]\<rparr>) of None \<Rightarrow> None | Some (r, ms, g) \<Rightarrow> ?next r ms g) (Suc k)"
  proof (rule settles_bind [OF candidate_wait.rounds_settle [OF assms]])
    show "settles sched (\<lambda>_. True) (\<lambda>ms. ?next r ms g) m" for r g m
      by (cases r) (auto intro: settles_now result)
  qed simp
  then show ?thesis
    by (rule settles_step [rotated])
      (auto simp: await_action_def g0_def Let_def split: prod.splits option.splits sum.splits)
qed

lemma run_once_settles:
  assumes "clock_advances sched" "isfinite timeout_s"
  shows "settles sched (\<lambda>_. True) (\<lambda>ms. run_once t ty name timeout_s ms g) k"
proof -
  obtain ops now where m: "sched k = (ops, Fin now)"
    using assms(1) unfolding clock_advances_def by (metis isfinite_iff prod.collapse)
  obtain d where d: "Fin now + pymax 0 timeout_s = Fin d"
    using assms(2) by (cases "0 < timeout_s") (auto simp: isfinite_iff pymax_def flt_simps)
  let ?next = "\<lambda>r ms g. case r of Inl e \<Rightarrow> Some (Inl e, ms, g) | Inr _ \<Rightarrow> await_action t ty name (Fin d) ms g"
  have "settles sched (\<lambda>_. True) (\<lambda>ms. case poll_rounds (subscriber_look (Fin d)) ms (run gateway_step ops g) of
      None \<Rightarrow> None | Some (r, ms, g) \<Rightarrow> ?next r ms g) (Suc k)"
  proof (rule settles_bind [OF subscriber_wait.rounds_settle [OF assms(1)]])
    show "settles sched (\<lambda>_. True) (\<lambda>ms. ?next r ms g) m" for r g m
      by (cases r) (auto intro: settles_now await_action_settles assms)
  qed simp
  then show ?thesis
    by (rule settles_step [rotated])
      (auto simp: run_once_def m d Let_def split: prod.splits option.splits sum.splits)
qed

text \<open>C21. Running an action by its text always ends and honours cancellation. With a finite timeout and a clock
  that advances, a run returns from some moment on whatever the callbacks do, and it reports the mission as
  canceled exactly when the request is canceled at its end; then the last thing it did was to stop the motion.\<close>

theorem gateway_run_ends:
  assumes "clock_advances sched" "isfinite timeout_s"
  shows "\<exists>m r g'. (\<forall>M \<ge> m. run_text False t ty name timeout_s (map sched [0..<M]) g = Some (r, map sched [m..<M], g'))
     \<and> (r = Inl MissionCancelled \<longleftrightarrow> gw_canceled g')
     \<and> (gw_canceled g' \<longrightarrow> gw_effects g' \<noteq> [] \<and> last (gw_effects g') = CancelMotion)"
proof -
  obtain r m g' where r: "\<And>M. m \<le> M \<Longrightarrow> run_once t ty name timeout_s (map sched [0..<M]) g = Some (r, map sched [m..<M], g')"
    using run_once_settles [OF assms, of t ty name g 0] unfolding settles_def by blast
  have "cancel_honoured r g'" using run_once_honours [OF r [of m]] by simp
  moreover have "\<forall>M \<ge> m. run_text False t ty name timeout_s (map sched [0..<M]) g = Some (map_sum id Some r, map sched [m..<M], g')"
    using r by (simp add: run_text_def)
  ultimately show ?thesis
    by (intro exI [of _ m] exI [of _ "map_sum id Some r"] exI [of _ g'])
      (cases r; auto simp: cancel_honoured_def)
qed

theorem gateway_run_ends_witness:
  "\<exists>m r g'. \<forall>M \<ge> m. run_text False (codes ''go'') 2 (codes ''NAV'') (Fin 3)
     (map (\<lambda>n. (if n = 2 then [CancelRequest] else [], Fin (real n))) [0..<M]) action_gateway
   = Some (r, map (\<lambda>n. (if n = 2 then [CancelRequest] else [], Fin (real n))) [m..<M], g')"
proof -
  have "clock_advances (\<lambda>n. (if n = 2 then [CancelRequest] else [], Fin (real n)))"
    unfolding clock_advances_def by (simp add: flt_simps) (meson nat_ceiling_le_eq)
  from gateway_run_ends [OF this, of "Fin 3" "codes ''go''" 2 "codes ''NAV''" action_gateway]
  show ?thesis by auto
qed

end
