(* ===== verification/Stage_Processes.thy ===== *)
theory Stage_Processes
  imports Effects
begin

text \<open>
  \<open>stage_process_manager.py\<close>: starting, saving and reclaiming the processes of a session. The operating
  system is a \<open>stage_port\<close>, a record of functions on the environment: what \<open>/proc\<close> shows, signals, the
  \<open>subprocess\<close> module, files and the clock. Every call that reads a process identity or acts on a process
  is an event of the trace. The watcher threads make passes of their own: before each call of the manager
  the environment says which of them run next; a walk over the descendants of a process and a pass of a
  watcher are not interrupted. A recorded process tree is an object that the registry of
  the manager, its watcher and a stop in progress share, so the trees live in a store. The environment
  variables of a child and the printed messages are left out.
\<close>

section \<open>Operating system\<close>

datatype sig = SIGTERM | SIGKILL

text \<open>\<open>Popen\<close>: a handle is the object of one spawn.\<close>

record Popen =
  po_serial :: nat
  po_pid :: int

text \<open>What is run: a stage of the showcase script, the explorer with its configuration, or the query for its
  package.\<close>

datatype stage_command = ShowcaseScript string | Explorer string | PackagePrefix

datatype os_event =
    EvStat bool int "string option"
  | EvChildren int "int list"
  | EvSpawn stage_command Popen
  | EvRun stage_command
  | EvPoll Popen "int option"
  | EvSignal int sig
  | EvSignalGroup int sig

text \<open>The flag of \<open>EvStat\<close> tells the reads of a watcher from those of the manager. \<open>sp_stat\<close> and
  \<open>sp_children\<close> give \<open>None\<close> when the file cannot be read, \<open>sp_kill\<close> and \<open>sp_killpg\<close> whether the signal was
  delivered, \<open>sp_wait\<close> whether the process ended in time and \<open>sp_communicate\<close> the return code and the
  error output, or \<open>None\<close> after the timeout.\<close>

record 'e stage_port =
  sp_stat :: "int \<Rightarrow> 'e \<Rightarrow> string option \<times> 'e"
  sp_children :: "int \<Rightarrow> 'e \<Rightarrow> int list option \<times> 'e"
  sp_getpgid :: "int \<Rightarrow> 'e \<Rightarrow> int option \<times> 'e"
  sp_kill :: "int \<Rightarrow> sig \<Rightarrow> 'e \<Rightarrow> bool \<times> 'e"
  sp_killpg :: "int \<Rightarrow> sig \<Rightarrow> 'e \<Rightarrow> bool \<times> 'e"
  sp_spawn :: "stage_command \<Rightarrow> 'e \<Rightarrow> int result \<times> 'e"
  sp_run :: "stage_command \<Rightarrow> 'e \<Rightarrow> (int \<times> string) result \<times> 'e"
  sp_poll :: "Popen \<Rightarrow> 'e \<Rightarrow> int option \<times> 'e"
  sp_wait :: "Popen \<Rightarrow> pyfloat \<Rightarrow> 'e \<Rightarrow> bool \<times> 'e"
  sp_communicate :: "Popen \<Rightarrow> 'e \<Rightarrow> (int \<times> string) option \<times> 'e"
  sp_is_file :: "string \<Rightarrow> 'e \<Rightarrow> bool \<times> 'e"
  sp_clock :: "'e \<Rightarrow> pyfloat \<times> 'e"
  sp_sleep :: "pyfloat \<Rightarrow> 'e \<Rightarrow> 'e"
  sp_watchers :: "'e \<Rightarrow> nat list \<times> 'e"

section \<open>State\<close>

text \<open>\<open>_OwnedProcessTree\<close>; \<open>ot_watcher\<close> is the handle its watcher observes, while the thread runs.\<close>

record OwnedProcessTree =
  ot_root_pid :: int
  ot_root_start_ticks :: string
  ot_process_group_id :: "int option"
  ot_descendants :: "(int \<times> string) list"
  ot_stop_watcher :: bool
  ot_watcher :: "Popen option"

record StageProcessManager =
  sm_stop_timeout_s :: pyfloat
  sm_dry_run :: bool
  sm_persistent :: bool
  sm_map_prefix :: string
  sm_base_process :: "Popen option"
  sm_stage_process :: "Popen option"
  sm_explorer_process :: "Popen option"
  sm_map_save_process :: "Popen option"
  sm_base_started_once :: bool
  sm_runtime_params_prepared :: bool
  sm_dry_run_base_live :: bool
  sm_dry_run_stage_started :: bool
  sm_owned :: "(int \<times> nat) list"
  sm_shutdown :: bool
  sm_stage :: string

text \<open>The world of a manager: the environment, the store of tree objects, the number of handles and the
  trace.\<close>

record 'e stage_world =
  sw_env :: 'e
  sw_manager :: StageProcessManager
  sw_trees :: "OwnedProcessTree list"
  sw_spawned :: nat
  sw_trace :: "os_event list"

type_synonym ('e, 'a) stage_proc = "('e stage_world, 'a) proc"

definition stage_process_manager :: "string \<Rightarrow> pyfloat \<Rightarrow> bool \<Rightarrow> bool \<Rightarrow> StageProcessManager" where
  "stage_process_manager map_prefix stop_timeout_s dry_run persistent =
     \<lparr>sm_stop_timeout_s = stop_timeout_s, sm_dry_run = dry_run, sm_persistent = persistent,
      sm_map_prefix = map_prefix, sm_base_process = None, sm_stage_process = None,
      sm_explorer_process = None, sm_map_save_process = None, sm_base_started_once = False,
      sm_runtime_params_prepared = False, sm_dry_run_base_live = False, sm_dry_run_stage_started = False,
      sm_owned = [], sm_shutdown = False, sm_stage = ''''\<rparr>"

definition new_world :: "'e \<Rightarrow> StageProcessManager \<Rightarrow> 'e stage_world" where
  "new_world env m = \<lparr>sw_env = env, sw_manager = m, sw_trees = [], sw_spawned = 0, sw_trace = []\<rparr>"

section \<open>Steps\<close>

text \<open>\<open>d[key] = value\<close>, \<open>d.update(other)\<close> and \<open>del d[key]\<close> on a dictionary.\<close>

fun dict_set :: "'k \<Rightarrow> 'v \<Rightarrow> ('k \<times> 'v) list \<Rightarrow> ('k \<times> 'v) list" where
  "dict_set k v [] = [(k, v)]"
| "dict_set k v ((k', v') # d) = (if k' = k then (k, v) # d else (k', v') # dict_set k v d)"

definition dict_update :: "('k \<times> 'v) list \<Rightarrow> ('k \<times> 'v) list \<Rightarrow> ('k \<times> 'v) list" where
  "dict_update other d = fold (\<lambda>(k, v). dict_set k v) other d"

definition dict_del :: "'k \<Rightarrow> ('k \<times> 'v) list \<Rightarrow> ('k \<times> 'v) list" where
  "dict_del k d = filter (\<lambda>e. fst e \<noteq> k) d"

definition sys :: "('e \<Rightarrow> 'a \<times> 'e) \<Rightarrow> ('e, 'a) stage_proc" where
  "sys f = query (\<lambda>w. case f (sw_env w) of (x, env) \<Rightarrow> (x, w\<lparr>sw_env := env\<rparr>))"

definition emit :: "os_event \<Rightarrow> ('e, unit) stage_proc" where
  "emit ev = modify (\<lambda>w. w\<lparr>sw_trace := sw_trace w @ [ev]\<rparr>)"

definition manager :: "(StageProcessManager \<Rightarrow> 'a) \<Rightarrow> ('e, 'a) stage_proc" where
  "manager f = query (\<lambda>w. (f (sw_manager w), w))"

definition set_manager :: "(StageProcessManager \<Rightarrow> StageProcessManager) \<Rightarrow> ('e, unit) stage_proc" where
  "set_manager f = modify (\<lambda>w. w\<lparr>sw_manager := f (sw_manager w)\<rparr>)"

definition tree :: "nat \<Rightarrow> ('e, OwnedProcessTree option) stage_proc" where
  "tree i = query (\<lambda>w. (if i < length (sw_trees w) then Some (sw_trees w ! i) else None, w))"

definition set_tree :: "nat \<Rightarrow> (OwnedProcessTree \<Rightarrow> OwnedProcessTree) \<Rightarrow> ('e, unit) stage_proc" where
  "set_tree i f = modify (\<lambda>w. w\<lparr>sw_trees := (sw_trees w)[i := f (sw_trees w ! i)]\<rparr>)"

definition new_tree :: "OwnedProcessTree \<Rightarrow> ('e, nat \<times> OwnedProcessTree) stage_proc" where
  "new_tree t = query (\<lambda>w. ((length (sw_trees w), t), w\<lparr>sw_trees := sw_trees w @ [t]\<rparr>))"

text \<open>A tree object of the registry, entering one and removing it.\<close>

definition registered_tree :: "int \<Rightarrow> ('e, (nat \<times> OwnedProcessTree) option) stage_proc" where
  "registered_tree pid = query (\<lambda>w.
     (case map_of (sm_owned (sw_manager w)) pid of
        Some i \<Rightarrow> if i < length (sw_trees w) then Some (i, sw_trees w ! i) else None
      | None \<Rightarrow> None, w))"

text \<open>A loop with local variables: the body gives the variables of the next pass or the value of the loop.\<close>

partial_function (option) iterate ::
  "('s \<Rightarrow> 'w \<Rightarrow> (('s + 'a) result \<times> 'w) option) \<Rightarrow> 's \<Rightarrow> 'w \<Rightarrow> ('a result \<times> 'w) option" where
  "iterate m s w =
     (case m s w of
        None \<Rightarrow> None
      | Some (r, w') \<Rightarrow>
          (case r of
             Inl e \<Rightarrow> Some (Inl e, w')
           | Inr (Inl s') \<Rightarrow> iterate m s' w'
           | Inr (Inr x) \<Rightarrow> Some (Inr x, w')))"

section \<open>Process identities\<close>

text \<open>\<open>str.split()\<close> and the field of \<open>/proc/<pid>/stat\<close> that holds the start time, read after the last
  closing parenthesis.\<close>

fun words_of :: "string \<Rightarrow> string \<Rightarrow> string list" where
  "words_of word [] = (if word = [] then [] else [word])"
| "words_of word (c # t) =
     (if is_space c then (if word = [] then words_of [] t else word # words_of [] t) else words_of (word @ [c]) t)"

definition split_words :: "string \<Rightarrow> string list" where
  "split_words t = words_of [] t"

definition after_name :: "string \<Rightarrow> string" where
  "after_name stat =
     (if CHR '')'' \<in> set stat
      then drop 1 (rev (takeWhile (\<lambda>c. c \<noteq> CHR '')'') (rev stat)))
      else drop 1 stat)"

definition stat_start_ticks :: "string \<Rightarrow> string option" where
  "stat_start_ticks stat =
     (let fields = split_words (after_name stat)
      in if length fields \<le> 19 \<or> fields ! 0 = ''Z'' then None else Some (fields ! 19))"

definition process_start_ticks :: "'e stage_port \<Rightarrow> bool \<Rightarrow> int \<Rightarrow> ('e, string option) stage_proc" where
  "process_start_ticks p watcher pid =
     bind (sys (sp_stat p pid)) (\<lambda>stat.
       (let ticks = Option.bind stat stat_start_ticks
        in andthen (emit (EvStat watcher pid ticks)) (ret ticks)))"

text \<open>The children of one process: new ones are visited, and kept and put on the stack when they can be
  identified.\<close>

fun visit_children ::
  "'e stage_port \<Rightarrow> bool \<Rightarrow> int list \<Rightarrow> int list \<times> int set \<times> (int \<times> string) list
     \<Rightarrow> ('e, int list \<times> int set \<times> (int \<times> string) list) stage_proc" where
  "visit_children p watcher [] s = ret s"
| "visit_children p watcher (child # children) (pending, visited, descendants) =
     (if child \<in> visited then visit_children p watcher children (pending, visited, descendants)
      else bind (process_start_ticks p watcher child) (\<lambda>ticks.
        case ticks of
          None \<Rightarrow> visit_children p watcher children (pending, insert child visited, descendants)
        | Some start_ticks \<Rightarrow>
            visit_children p watcher children
              (pending @ [child], insert child visited, dict_set child start_ticks descendants)))"

definition descendants_pass ::
  "'e stage_port \<Rightarrow> bool \<Rightarrow> int list \<times> int set \<times> (int \<times> string) list
     \<Rightarrow> ('e, (int list \<times> int set \<times> (int \<times> string) list) + (int \<times> string) list) stage_proc" where
  "descendants_pass p watcher s =
     (case s of (pending, visited, descendants) \<Rightarrow>
        if pending = [] then ret (Inr descendants)
        else bind (sys (sp_children p (last pending))) (\<lambda>raw.
          case raw of
            None \<Rightarrow> ret (Inl (butlast pending, visited, descendants))
          | Some children \<Rightarrow>
              andthen (emit (EvChildren (last pending) children))
                (bind (visit_children p watcher children (butlast pending, visited, descendants)) (\<lambda>s. ret (Inl s)))))"

definition descendant_identities :: "'e stage_port \<Rightarrow> bool \<Rightarrow> int \<Rightarrow> ('e, (int \<times> string) list) stage_proc" where
  "descendant_identities p watcher root_pid =
     iterate (descendants_pass p watcher) ([root_pid], {root_pid}, [])"

section \<open>Watchers\<close>

text \<open>One pass of \<open>observe\<close>: a watcher ends when its process is no longer the one it was started for, when its
  tree is no longer registered or when the process has ended.\<close>

definition watcher_ends :: "nat \<Rightarrow> ('e, unit) stage_proc" where
  "watcher_ends i = set_tree i (\<lambda>t. t\<lparr>ot_watcher := None\<rparr>)"

definition watcher_poll :: "'e stage_port \<Rightarrow> nat \<Rightarrow> Popen \<Rightarrow> ('e, unit) stage_proc" where
  "watcher_poll p i process =
     bind (sys (sp_poll p process)) (\<lambda>code.
       andthen (emit (EvPoll process code)) (if code = None then skip else watcher_ends i))"

definition merge_descendants :: "'e stage_port \<Rightarrow> nat \<Rightarrow> Popen \<Rightarrow> (int \<times> string) list \<Rightarrow> ('e, unit) stage_proc" where
  "merge_descendants p i process descendants =
     (if descendants = [] then watcher_poll p i process
      else bind (manager sm_owned) (\<lambda>owned.
        if map_of owned (po_pid process) \<noteq> Some i then watcher_ends i
        else andthen (set_tree i (\<lambda>t. t\<lparr>ot_descendants := dict_update descendants (ot_descendants t)\<rparr>))
          (watcher_poll p i process)))"

definition observe_process :: "'e stage_port \<Rightarrow> nat \<Rightarrow> OwnedProcessTree \<Rightarrow> Popen \<Rightarrow> ('e, unit) stage_proc" where
  "observe_process p i t process =
     (if ot_stop_watcher t then watcher_ends i
      else bind (process_start_ticks p True (po_pid process)) (\<lambda>ticks.
        if ticks \<noteq> Some (ot_root_start_ticks t) then watcher_ends i
        else bind (descendant_identities p True (po_pid process)) (merge_descendants p i process)))"

definition observe_pass :: "'e stage_port \<Rightarrow> nat \<Rightarrow> ('e, unit) stage_proc" where
  "observe_pass p i =
     bind (tree i) (\<lambda>t. case t of
       None \<Rightarrow> skip
     | Some t \<Rightarrow> (case ot_watcher t of None \<Rightarrow> skip | Some process \<Rightarrow> observe_process p i t process))"

definition watchers :: "'e stage_port \<Rightarrow> ('e, unit) stage_proc" where
  "watchers p = bind (sys (sp_watchers p)) (each (observe_pass p))"

text \<open>A call of the manager, after the passes of the watchers that come before it.\<close>

definition call_os :: "'e stage_port \<Rightarrow> ('e \<Rightarrow> 'a \<times> 'e) \<Rightarrow> ('e, 'a) stage_proc" where
  "call_os p f = andthen (watchers p) (sys f)"

definition start_ticks :: "'e stage_port \<Rightarrow> int \<Rightarrow> ('e, string option) stage_proc" where
  "start_ticks p pid = andthen (watchers p) (process_start_ticks p False pid)"

definition poll :: "'e stage_port \<Rightarrow> Popen \<Rightarrow> ('e, int option) stage_proc" where
  "poll p h = bind (call_os p (sp_poll p h)) (\<lambda>code. andthen (emit (EvPoll h code)) (ret code))"

section \<open>Ownership\<close>

text \<open>The identity of a spawned process: its group counts only when the process leads it.\<close>

definition identify :: "'e stage_port \<Rightarrow> int \<Rightarrow> string \<Rightarrow> Popen option \<Rightarrow> ('e, OwnedProcessTree) stage_proc" where
  "identify p pid ticks watcher =
     bind (call_os p (sp_getpgid p pid)) (\<lambda>group.
       bind (descendant_identities p False pid) (\<lambda>descendants.
         ret \<lparr>ot_root_pid = pid, ot_root_start_ticks = ticks,
           ot_process_group_id = (if group = Some pid then group else None),
           ot_descendants = descendants, ot_stop_watcher = False, ot_watcher = watcher\<rparr>))"

definition register_tree :: "OwnedProcessTree \<Rightarrow> ('e, unit) stage_proc" where
  "register_tree t =
     modify (\<lambda>w. w\<lparr>sw_trees := sw_trees w @ [t],
       sw_manager := (sw_manager w)\<lparr>sm_owned := dict_set (ot_root_pid t) (length (sw_trees w)) (sm_owned (sw_manager w))\<rparr>\<rparr>)"

definition register_process_tree :: "'e stage_port \<Rightarrow> Popen \<Rightarrow> ('e, unit) stage_proc" where
  "register_process_tree p process =
     bind (start_ticks p (po_pid process)) (\<lambda>ticks. case ticks of
       None \<Rightarrow> skip
     | Some ticks \<Rightarrow> bind (identify p (po_pid process) ticks (Some process)) register_tree)"

text \<open>The last look at a registered tree, the end of its watcher and its removal from the registry.\<close>

definition refresh_descendants :: "'e stage_port \<Rightarrow> Popen \<Rightarrow> nat \<Rightarrow> OwnedProcessTree \<Rightarrow> ('e, unit) stage_proc" where
  "refresh_descendants p process i t =
     bind (start_ticks p (po_pid process)) (\<lambda>ticks.
       if ticks = Some (ot_root_start_ticks t)
       then bind (descendant_identities p False (po_pid process)) (\<lambda>descendants.
         set_tree i (\<lambda>t. t\<lparr>ot_descendants := dict_update descendants (ot_descendants t)\<rparr>))
       else skip)"

definition unregister :: "Popen \<Rightarrow> nat \<Rightarrow> ('e, unit) stage_proc" where
  "unregister process i =
     set_manager (\<lambda>m. m\<lparr>sm_owned :=
       (if map_of (sm_owned m) (po_pid process) = Some i then dict_del (po_pid process) (sm_owned m) else sm_owned m)\<rparr>)"

definition release_process_tree ::
  "'e stage_port \<Rightarrow> Popen \<Rightarrow> ('e, (nat \<times> OwnedProcessTree) option) stage_proc" where
  "release_process_tree p process =
     bind (registered_tree (po_pid process)) (\<lambda>ownership. case ownership of
       None \<Rightarrow>
         bind (start_ticks p (po_pid process)) (\<lambda>ticks. case ticks of
           None \<Rightarrow> ret None
         | Some ticks \<Rightarrow>
             bind (identify p (po_pid process) ticks None) (\<lambda>t. bind (new_tree t) (\<lambda>o'. ret (Some o'))))
     | Some (i, t) \<Rightarrow>
         andthen (refresh_descendants p process i t)
           (andthen (set_tree i (\<lambda>t. t\<lparr>ot_stop_watcher := True\<rparr>))
             (andthen (watchers p) (andthen (unregister process i) (ret (Some (i, t)))))))"

section \<open>Signals\<close>

definition signal_owned_process :: "'e stage_port \<Rightarrow> OwnedProcessTree \<Rightarrow> sig \<Rightarrow> ('e, bool) stage_proc" where
  "signal_owned_process p t s =
     bind (start_ticks p (ot_root_pid t)) (\<lambda>ticks.
       if ticks \<noteq> Some (ot_root_start_ticks t) then ret False
       else andthen (emit (EvSignal (ot_root_pid t) s)) (call_os p (sp_kill p (ot_root_pid t) s)))"

definition signal_owned_group :: "'e stage_port \<Rightarrow> OwnedProcessTree \<Rightarrow> sig \<Rightarrow> ('e, bool) stage_proc" where
  "signal_owned_group p t s =
     (if ot_process_group_id t \<noteq> Some (ot_root_pid t) then ret False
      else bind (start_ticks p (ot_root_pid t)) (\<lambda>ticks.
        if ticks \<noteq> Some (ot_root_start_ticks t) then ret False
        else bind (call_os p (sp_getpgid p (ot_root_pid t))) (\<lambda>group.
          if group \<noteq> ot_process_group_id t then ret False
          else andthen (emit (EvSignalGroup (ot_root_pid t) s)) (call_os p (sp_killpg p (ot_root_pid t) s)))))"

text \<open>The members of a tree that are still the recorded processes, in the order of the dictionary.\<close>

fun still_alive :: "'e stage_port \<Rightarrow> (int \<times> string) list \<Rightarrow> ('e, int list) stage_proc" where
  "still_alive p [] = ret []"
| "still_alive p ((pid, ticks) # identities) =
     bind (start_ticks p pid) (\<lambda>now_ticks.
       bind (still_alive p identities) (\<lambda>pids.
         ret (if now_ticks = Some ticks then pid # pids else pids)))"

definition alive :: "'e stage_port \<Rightarrow> nat \<Rightarrow> ('e, int list) stage_proc" where
  "alive p i =
     bind (tree i) (\<lambda>t. case t of None \<Rightarrow> ret [] | Some t \<Rightarrow> still_alive p (ot_descendants t))"

definition kill_all :: "'e stage_port \<Rightarrow> sig \<Rightarrow> int list \<Rightarrow> ('e, unit) stage_proc" where
  "kill_all p s pids =
     each (\<lambda>pid. andthen (emit (EvSignal pid s)) (bind (call_os p (sp_kill p pid s)) (\<lambda>_. skip))) (rev pids)"

definition reap_pass :: "'e stage_port \<Rightarrow> nat \<Rightarrow> pyfloat \<Rightarrow> ('e, unit option) stage_proc" where
  "reap_pass p i deadline =
     bind (alive p i) (\<lambda>pids.
       if pids = [] then ret (Some ())
       else bind (call_os p (sp_clock p)) (\<lambda>now.
         if now < deadline
         then bind (call_os p (\<lambda>e. ((), sp_sleep p (Fin 0.05) e))) (\<lambda>_. ret None)
         else ret (Some ())))"

definition terminate_descendants :: "'e stage_port \<Rightarrow> nat \<Rightarrow> ('e, unit) stage_proc" where
  "terminate_descendants p i =
     andthen (bind (alive p i) (kill_all p SIGTERM))
       (bind (call_os p (sp_clock p)) (\<lambda>now.
         andthen (repeat_until (reap_pass p i (now + Fin 3)))
           (bind (alive p i) (kill_all p SIGKILL))))"

definition wait :: "'e stage_port \<Rightarrow> Popen \<Rightarrow> pyfloat \<Rightarrow> ('e, bool) stage_proc" where
  "wait p h timeout_s = call_os p (sp_wait p h timeout_s)"

text \<open>First the process alone, then its group, then its group without mercy.\<close>

definition escalate :: "'e stage_port \<Rightarrow> Popen \<Rightarrow> OwnedProcessTree \<Rightarrow> pyfloat \<Rightarrow> ('e, unit) stage_proc" where
  "escalate p process t timeout_s =
     bind (poll p process) (\<lambda>code.
       if code \<noteq> None then skip
       else bind (signal_owned_process p t SIGTERM) (\<lambda>sent.
         if \<not> sent then skip
         else bind (wait p process timeout_s) (\<lambda>ended.
           if ended then skip
           else bind (signal_owned_group p t SIGTERM) (\<lambda>_.
             bind (wait p process (Fin 3)) (\<lambda>ended.
               if ended then skip
               else bind (signal_owned_group p t SIGKILL) (\<lambda>_.
                 bind (wait p process (Fin 3)) (\<lambda>_. skip)))))))"

definition stop_process_tree :: "'e stage_port \<Rightarrow> Popen option \<Rightarrow> pyfloat \<Rightarrow> ('e, unit) stage_proc" where
  "stop_process_tree p process timeout_s =
     (case process of
        None \<Rightarrow> skip
      | Some process \<Rightarrow>
          bind (release_process_tree p process) (\<lambda>ownership. case ownership of
            None \<Rightarrow> skip
          | Some (i, t) \<Rightarrow> ensure (escalate p process t timeout_s) (terminate_descendants p i)))"

section \<open>Lifecycle\<close>

text \<open>\<open>PurePath.with_suffix\<close> on the last component of a path.\<close>

definition last_component :: "string \<Rightarrow> string" where
  "last_component path = rev (takeWhile (\<lambda>c. c \<noteq> CHR ''/'') (rev path))"

definition path_suffix :: "string \<Rightarrow> string" where
  "path_suffix name =
     (let ext = rev (takeWhile (\<lambda>c. c \<noteq> CHR ''.'') (rev name))
      in if CHR ''.'' \<notin> set name \<or> ext = [] \<or> length ext + 1 = length name then [] else CHR ''.'' # ext)"

definition with_suffix :: "string \<Rightarrow> string \<Rightarrow> string" where
  "with_suffix path suffix = take (length path - length (path_suffix (last_component path))) path @ suffix"

definition require_open :: "('e, unit) stage_proc" where
  "require_open =
     bind (manager sm_shutdown) (\<lambda>closed. guard (\<not> closed) (RuntimeError ''stage process manager is shut down''))"

definition spawn :: "'e stage_port \<Rightarrow> stage_command \<Rightarrow> ('e, Popen) stage_proc" where
  "spawn p c =
     bind (call_os p (sp_spawn p c)) (\<lambda>r.
       bind (lift_result r) (\<lambda>pid.
         bind (query (\<lambda>w. (\<lparr>po_serial = sw_spawned w, po_pid = pid\<rparr>, w\<lparr>sw_spawned := sw_spawned w + 1\<rparr>))) (\<lambda>h.
           andthen (emit (EvSpawn c h)) (ret h))))"

definition run_command :: "'e stage_port \<Rightarrow> stage_command \<Rightarrow> ('e, int \<times> string) stage_proc" where
  "run_command p c = andthen (emit (EvRun c)) (bind (call_os p (sp_run p c)) lift_result)"

definition base_is_live :: "'e stage_port \<Rightarrow> ('e, bool) stage_proc" where
  "base_is_live p =
     bind (manager id) (\<lambda>m.
       if sm_dry_run m then ret (sm_dry_run_base_live m)
       else case sm_base_process m of
         None \<Rightarrow> ret False
       | Some h \<Rightarrow> bind (poll p h) (\<lambda>code. ret (code = None)))"

definition prepare_runtime_parameters :: "'e stage_port \<Rightarrow> ('e, unit) stage_proc" where
  "prepare_runtime_parameters p =
     bind (manager id) (\<lambda>m.
       if sm_runtime_params_prepared m then skip
       else if sm_dry_run m then set_manager (\<lambda>m. m\<lparr>sm_runtime_params_prepared := True\<rparr>)
       else bind (run_command p (ShowcaseScript ''prepare'')) (\<lambda>(returncode, stderr).
         if returncode \<noteq> 0
         then raise (RuntimeError (if strip stderr = [] then
           ''persistent runtime parameter preparation exited with code '' @ show_int returncode else strip stderr))
         else set_manager (\<lambda>m. m\<lparr>sm_runtime_params_prepared := True\<rparr>)))"

definition start_base :: "'e stage_port \<Rightarrow> ('e, unit) stage_proc" where
  "start_base p =
     seqs [
       require_open,
       bind (manager sm_base_started_once) (\<lambda>started. guard (\<not> started) (RuntimeError ''base process already running'')),
       bind (manager sm_persistent) (\<lambda>persistent. if persistent then prepare_runtime_parameters p else skip),
       bind (manager sm_dry_run) (\<lambda>dry_run.
         if dry_run then set_manager (\<lambda>m. m\<lparr>sm_base_started_once := True, sm_dry_run_base_live := True\<rparr>)
         else bind (spawn p (ShowcaseScript ''base'')) (\<lambda>h.
           seqs [
             set_manager (\<lambda>m. m\<lparr>sm_base_process := Some h\<rparr>),
             register_process_tree p h,
             set_manager (\<lambda>m. m\<lparr>sm_base_started_once := True\<rparr>)]))]"

text \<open>A live stage is refused; the tree of one that has ended is reclaimed before its handle is replaced.\<close>

definition clear_stage :: "'e stage_port \<Rightarrow> ('e, unit) stage_proc" where
  "clear_stage p =
     bind (manager id) (\<lambda>m. case sm_stage_process m of
       None \<Rightarrow> skip
     | Some h \<Rightarrow>
         bind (poll p h) (\<lambda>code.
           if code = None then raise (RuntimeError (''stage process already running: '' @ sm_stage m))
           else andthen (stop_process_tree p (Some h) (sm_stop_timeout_s m))
             (set_manager (\<lambda>m. m\<lparr>sm_stage_process := None, sm_stage := []\<rparr>))))"

definition require_base :: "'e stage_port \<Rightarrow> ('e, unit) stage_proc" where
  "require_base p =
     bind (base_is_live p) (\<lambda>live. guard live (RuntimeError ''base process is not running''))"

definition start_stage :: "'e stage_port \<Rightarrow> string \<Rightarrow> ('e, unit) stage_proc" where
  "start_stage p stage =
     seqs [
       require_open,
       bind (manager sm_persistent) (\<lambda>persistent. if persistent then require_base p else skip),
       clear_stage p,
       bind (manager id) (\<lambda>m.
         if sm_dry_run m then
           andthen (guard (\<not> sm_dry_run_stage_started m) (RuntimeError (''stage process already running: '' @ sm_stage m)))
             (set_manager (\<lambda>m. m\<lparr>sm_stage := stage, sm_dry_run_stage_started := True, sm_stage_process := None\<rparr>))
         else bind (spawn p (ShowcaseScript stage)) (\<lambda>h.
           seqs [
             set_manager (\<lambda>m. m\<lparr>sm_stage_process := Some h\<rparr>),
             register_process_tree p h,
             set_manager (\<lambda>m. m\<lparr>sm_stage := stage\<rparr>)]))]"

definition start_mapping :: "'e stage_port \<Rightarrow> ('e, unit) stage_proc" where
  "start_mapping p = seqs [require_open, require_base p, start_stage p ''mapping'']"

definition prepare_navigation :: "'e stage_port \<Rightarrow> string \<Rightarrow> ('e, unit) stage_proc" where
  "prepare_navigation p map_path =
     seqs [
       require_open,
       require_base p,
       bind (manager id) (\<lambda>m.
         bind (if sm_dry_run m then ret (sm_dry_run_stage_started m)
               else case sm_stage_process m of
                 None \<Rightarrow> ret False
               | Some h \<Rightarrow> bind (poll p h) (\<lambda>code. ret (code = None))) (\<lambda>live.
           guard (\<not> live) (RuntimeError ''stage process is still running''))),
       bind (call_os p (sp_is_file p map_path)) (\<lambda>found.
         guard found (RuntimeError (''saved map does not exist: '' @ map_path))),
       set_manager (\<lambda>m. m\<lparr>sm_map_prefix := with_suffix map_path []\<rparr>)]"

text \<open>\<open>save_map\<close> holds the lock only while it starts the process; the rest runs beside other operations. A dry
  run gives the path at once.\<close>

definition save_map_begin :: "'e stage_port \<Rightarrow> ('e, string + Popen) stage_proc" where
  "save_map_begin p =
     andthen require_open
       (bind (manager id) (\<lambda>m.
         if sm_dry_run m then ret (Inl (with_suffix (sm_map_prefix m) ''.yaml''))
         else bind (case sm_map_save_process m of
                 None \<Rightarrow> ret True
               | Some h \<Rightarrow> bind (poll p h) (\<lambda>code. ret (code \<noteq> None))) (\<lambda>idle.
           andthen (guard idle (RuntimeError ''map save is already running''))
             (bind (spawn p (ShowcaseScript ''save'')) (\<lambda>h.
               andthen (set_manager (\<lambda>m. m\<lparr>sm_map_save_process := Some h\<rparr>))
                 (andthen (register_process_tree p h) (ret (Inr h))))))))"

definition save_map_finish :: "'e stage_port \<Rightarrow> Popen \<Rightarrow> ('e, string) stage_proc" where
  "save_map_finish p h =
     bind (manager sm_stop_timeout_s) (\<lambda>timeout_s.
       bind
         (ensure
           (bind (call_os p (sp_communicate p h)) (\<lambda>r. case r of
              None \<Rightarrow> andthen (stop_process_tree p (Some h) timeout_s)
                (raise (RuntimeError ''map_saver timed out after 35 seconds''))
            | Some outcome \<Rightarrow> ret outcome))
           (andthen (stop_process_tree p (Some h) timeout_s)
             (set_manager (\<lambda>m. if sm_map_save_process m = Some h then m\<lparr>sm_map_save_process := None\<rparr> else m))))
         (\<lambda>(returncode, stderr).
           if returncode \<noteq> 0
           then raise (RuntimeError (if strip stderr = [] then
             ''map_saver exited with code '' @ show_int returncode else strip stderr))
           else bind (manager sm_map_prefix) (\<lambda>prefix.
             bind (call_os p (sp_is_file p (with_suffix prefix ''.yaml''))) (\<lambda>yaml.
               bind (if yaml then call_os p (sp_is_file p (with_suffix prefix ''.pgm'')) else ret False) (\<lambda>both.
                 andthen (guard both (RuntimeError ''map_saver returned success without YAML/PGM artifacts''))
                   (ret (with_suffix prefix ''.yaml'')))))))"

definition start_explorer :: "'e stage_port \<Rightarrow> string \<Rightarrow> ('e, unit) stage_proc" where
  "start_explorer p config_path =
     seqs [
       require_open,
       bind (manager sm_persistent) (\<lambda>persistent. if persistent then require_base p else skip),
       bind (manager id) (\<lambda>m.
         if sm_dry_run m then skip
         else seqs [
           bind (run_command p PackagePrefix) (\<lambda>(returncode, _).
             guard (returncode = 0) (RuntimeError
               ''Explore Lite is not installed; run bash scripts/setup_frontier_exploration.sh'')),
           (case sm_explorer_process m of
              None \<Rightarrow> skip
            | Some h \<Rightarrow>
                bind (poll p h) (\<lambda>code.
                  if code = None then raise (RuntimeError ''frontier explorer is already running'')
                  else andthen (stop_process_tree p (Some h) (sm_stop_timeout_s m))
                    (set_manager (\<lambda>m. m\<lparr>sm_explorer_process := None\<rparr>)))),
           bind (spawn p (Explorer config_path)) (\<lambda>h.
             andthen (set_manager (\<lambda>m. m\<lparr>sm_explorer_process := Some h\<rparr>)) (register_process_tree p h))])]"

text \<open>The handle goes first; a dry run has no process to stop.\<close>

definition stop_explorer :: "'e stage_port \<Rightarrow> ('e, unit) stage_proc" where
  "stop_explorer p =
     bind (manager id) (\<lambda>m.
       andthen (set_manager (\<lambda>m. m\<lparr>sm_explorer_process := None\<rparr>))
         (if sm_dry_run m then skip else stop_process_tree p (sm_explorer_process m) (Fin 5)))"

definition stop_stage :: "'e stage_port \<Rightarrow> ('e, unit) stage_proc" where
  "stop_stage p =
     andthen (stop_explorer p)
       (bind (manager id) (\<lambda>m.
         andthen
           (set_manager (\<lambda>m. m\<lparr>sm_stage_process := None, sm_stage := [], sm_dry_run_stage_started := False\<rparr>))
           (if sm_dry_run m then skip else stop_process_tree p (sm_stage_process m) (sm_stop_timeout_s m))))"

definition shutdown :: "'e stage_port \<Rightarrow> ('e, unit) stage_proc" where
  "shutdown p =
     bind (manager id) (\<lambda>m.
       seqs [
         set_manager (\<lambda>m. m\<lparr>sm_shutdown := True, sm_map_save_process := None\<rparr>),
         (if sm_dry_run m then skip else stop_process_tree p (sm_map_save_process m) (sm_stop_timeout_s m)),
         stop_stage p,
         bind (manager sm_base_process) (\<lambda>process.
           andthen (set_manager (\<lambda>m. m\<lparr>sm_base_process := None\<rparr>))
             (if sm_dry_run m then set_manager (\<lambda>m. m\<lparr>sm_dry_run_base_live := False\<rparr>)
              else stop_process_tree p process (sm_stop_timeout_s m)))])"

text \<open>The first role whose process has ended, the base before the others.\<close>

fun first_exit :: "'e stage_port \<Rightarrow> (string \<times> Popen option) list \<Rightarrow> ('e, (string \<times> int) option) stage_proc" where
  "first_exit p [] = ret None"
| "first_exit p ((role, None) # others) = first_exit p others"
| "first_exit p ((role, Some h) # others) =
     bind (poll p h) (\<lambda>code. case code of None \<Rightarrow> first_exit p others | Some c \<Rightarrow> ret (Some (role, c)))"

definition unexpected_exit :: "'e stage_port \<Rightarrow> ('e, (string \<times> int) option) stage_proc" where
  "unexpected_exit p =
     bind (manager id) (\<lambda>m.
       if sm_dry_run m then ret None
       else first_exit p [(''base'', sm_base_process m), (''stage'', sm_stage_process m),
         (''explorer'', sm_explorer_process m)])"

definition exited :: "'e stage_port \<Rightarrow> (StageProcessManager \<Rightarrow> Popen option) \<Rightarrow> ('e, bool \<times> int option) stage_proc" where
  "exited p handle =
     bind (manager id) (\<lambda>m.
       if sm_dry_run m then ret (False, None)
       else case handle m of
         None \<Rightarrow> ret (False, None)
       | Some h \<Rightarrow> bind (poll p h) (\<lambda>code. ret (code \<noteq> None, code)))"

section \<open>Operations in any order\<close>

text \<open>The operations of the manager and of its callers, each of which holds the lock from its first step to
  its last; \<open>SaveFinish\<close> is the part of \<open>save_map\<close> after the lock, by the thread whose handle has this number. Exceptions go back to the caller.\<close>

datatype manager_op =
    StartBase | StartMapping | PrepareNavigation string | StartStage string
  | SaveBegin | SaveFinish nat
  | StartExplorer string | StopExplorer | StopStage | Shutdown
  | UnexpectedExit | ExplorerExited | StageExited

text \<open>The handle of a spawned process by its number, for the thread that is saving the map.\<close>

fun spawned_handles :: "os_event list \<Rightarrow> Popen list" where
  "spawned_handles [] = []"
| "spawned_handles (EvSpawn c h # evs) = h # spawned_handles evs"
| "spawned_handles (ev # evs) = spawned_handles evs"

definition saver :: "nat \<Rightarrow> ('e, Popen option) stage_proc" where
  "saver n = query (\<lambda>w. (find (\<lambda>h. po_serial h = n) (spawned_handles (sw_trace w)), w))"

definition drop_value :: "('w, 'a) proc \<Rightarrow> ('w, unit) proc" where
  "drop_value m = bind (attempt m) (\<lambda>_. skip)"

fun manager_step :: "'e stage_port \<Rightarrow> manager_op \<Rightarrow> ('e, unit) stage_proc" where
  "manager_step p StartBase = drop_value (start_base p)"
| "manager_step p StartMapping = drop_value (start_mapping p)"
| "manager_step p (PrepareNavigation map_path) = drop_value (prepare_navigation p map_path)"
| "manager_step p (StartStage stage) = drop_value (start_stage p stage)"
| "manager_step p SaveBegin = drop_value (save_map_begin p)"
| "manager_step p (SaveFinish n) =
     bind (saver n) (\<lambda>h. case h of None \<Rightarrow> skip | Some h \<Rightarrow> drop_value (save_map_finish p h))"
| "manager_step p (StartExplorer config) = drop_value (start_explorer p config)"
| "manager_step p StopExplorer = drop_value (stop_explorer p)"
| "manager_step p StopStage = drop_value (stop_stage p)"
| "manager_step p Shutdown = drop_value (shutdown p)"
| "manager_step p UnexpectedExit = drop_value (unexpected_exit p)"
| "manager_step p ExplorerExited = drop_value (exited p sm_explorer_process)"
| "manager_step p StageExited = drop_value (exited p sm_stage_process)"

definition manager_run :: "'e stage_port \<Rightarrow> manager_op list \<Rightarrow> ('e, unit) stage_proc" where
  "manager_run p ops = each (manager_step p) ops"

end
