(* ===== verification/Stage_Ownership.thy ===== *)
theory Stage_Ownership
  imports Stage_Processes
begin

text \<open>
  The steps below the lifecycle of \<open>stage_process_manager.py\<close>: what they read of \<open>/proc\<close>, whom they signal
  and what they leave alone. \<open>spec\<close> is a Hoare triple over the trace whose conditions last while watchers run;
  its rules follow the statements of the code, up to \<open>stop_process_tree\<close>.
\<close>

section \<open>What a trace says of a process\<close>

text \<open>A process is owned when the manager spawned it or the kernel listed it as a child of an owned one; its
  start time is recorded when it was read after that; it is just_read when its recorded start time was read again
  and the manager has not read it anew since.\<close>

inductive owned :: "os_event list \<Rightarrow> int \<Rightarrow> bool" for tr where
  spawned: "EvSpawn c h \<in> set tr \<Longrightarrow> owned tr (po_pid h)"
| child: "EvChildren q children \<in> set tr \<Longrightarrow> owned tr q \<Longrightarrow> pid \<in> set children \<Longrightarrow> owned tr pid"

definition recorded :: "os_event list \<Rightarrow> int \<Rightarrow> string \<Rightarrow> bool" where
  "recorded tr pid ticks \<longleftrightarrow>
     (\<exists>before after watcher. tr = before @ after \<and> owned before pid \<and> EvStat watcher pid (Some ticks) \<in> set after)"

definition just_read :: "os_event list \<Rightarrow> int \<Rightarrow> bool" where
  "just_read tr pid \<longleftrightarrow>
     (\<exists>before ticks after. tr = before @ EvStat False pid (Some ticks) # after \<and> recorded before pid ticks
        \<and> (\<forall>t. EvStat False pid t \<notin> set after))"

fun signalled :: "os_event \<Rightarrow> int option" where
  "signalled (EvSignal pid s) = Some pid"
| "signalled (EvSignalGroup pid s) = Some pid"
| "signalled _ = None"

definition verified :: "os_event list \<Rightarrow> bool" where
  "verified tr \<longleftrightarrow> (\<forall>n < length tr. \<forall>pid. signalled (tr ! n) = Some pid \<longrightarrow> just_read (take n tr) pid)"

lemma owned_mono: "owned tr pid \<Longrightarrow> set tr \<subseteq> set tr' \<Longrightarrow> owned tr' pid"
  by (induction rule: owned.induct) (auto intro: owned.intros)

lemma owned_append [simp]: "owned tr pid \<Longrightarrow> owned (tr @ new) pid"
  by (erule owned_mono) simp

lemma recorded_append [simp]: "recorded tr pid ticks \<Longrightarrow> recorded (tr @ new) pid ticks"
  unfolding recorded_def by (metis Un_iff append.assoc set_append)

lemma recorded_read: "owned tr pid \<Longrightarrow> recorded (tr @ [EvStat watcher pid (Some ticks)]) pid ticks"
  unfolding recorded_def
  by (rule exI [of _ tr], rule exI [of _ "[EvStat watcher pid (Some ticks)]"], rule exI [of _ watcher]) simp

lemma just_read_read: "recorded tr pid ticks \<Longrightarrow> just_read (tr @ [EvStat False pid (Some ticks)]) pid"
  unfolding just_read_def by (intro exI [of _ tr]) auto

lemma just_read_append: "just_read tr pid \<Longrightarrow> (\<And>t. EvStat False pid t \<notin> set new) \<Longrightarrow> just_read (tr @ new) pid"
proof -
  assume "just_read tr pid" and new: "\<And>t. EvStat False pid t \<notin> set new"
  then obtain a ticks b where "tr = a @ EvStat False pid (Some ticks) # b" "recorded a pid ticks"
      "\<And>t. EvStat False pid t \<notin> set b" by (auto simp: just_read_def)
  then show ?thesis
    unfolding just_read_def using new
    by (intro exI [of _ a] exI [of _ ticks] exI [of _ "b @ new"]) simp
qed

lemma verified_append: "verified tr \<Longrightarrow> (\<And>ev. ev \<in> set new \<Longrightarrow> signalled ev = None) \<Longrightarrow> verified (tr @ new)"
  unfolding verified_def
proof (intro allI impI)
  fix n pid
  assume tr: "\<forall>n < length tr. \<forall>pid. signalled (tr ! n) = Some pid \<longrightarrow> just_read (take n tr) pid"
    and new: "\<And>ev. ev \<in> set new \<Longrightarrow> signalled ev = None"
    and n: "n < length (tr @ new)" "signalled ((tr @ new) ! n) = Some pid"
  show "just_read (take n (tr @ new)) pid"
  proof (cases "n < length tr")
    case True
    then show ?thesis using tr n by (simp add: nth_append)
  next
    case False
    then have "new ! (n - length tr) \<in> set new" using n(1) by simp
    then show ?thesis using new n(2) False by (simp add: nth_append)
  qed
qed

lemma verified_signal: "verified tr \<Longrightarrow> signalled ev = Some pid \<Longrightarrow> just_read tr pid \<Longrightarrow> verified (tr @ [ev])"
  by (auto simp: verified_def nth_append less_Suc_eq)

section \<open>Soundness of the store\<close>

definition tree_ok :: "os_event list \<Rightarrow> OwnedProcessTree \<Rightarrow> bool" where
  "tree_ok tr t \<longleftrightarrow> owned tr (ot_root_pid t) \<and> recorded tr (ot_root_pid t) (ot_root_start_ticks t)
     \<and> (\<forall>d \<in> set (ot_descendants t). recorded tr (fst d) (snd d)) \<and> distinct (map fst (ot_descendants t))
     \<and> (\<forall>h. ot_watcher t = Some h \<longrightarrow> po_pid h = ot_root_pid t)"

lemma tree_ok_append: "tree_ok tr t \<Longrightarrow> tree_ok (tr @ new) t"
  by (auto simp: tree_ok_def)

definition registry_ok :: "OwnedProcessTree list \<Rightarrow> (int \<times> nat) list \<Rightarrow> bool" where
  "registry_ok trees d \<longleftrightarrow> (\<forall>(pid, i) \<in> set d. i < length trees \<and> ot_root_pid (trees ! i) = pid)"

definition sound :: "'e stage_world \<Rightarrow> bool" where
  "sound w \<longleftrightarrow> verified (sw_trace w) \<and> (\<forall>t \<in> set (sw_trees w). tree_ok (sw_trace w) t)
     \<and> registry_ok (sw_trees w) (sm_owned (sw_manager w))"

text \<open>What the steps below the lifecycle do: they keep the store sound, add only events of \<open>E\<close> to the trace and
  leave everything of the manager but its registry as it is.\<close>

definition did :: "os_event set \<Rightarrow> 'e stage_world \<Rightarrow> 'e stage_world \<Rightarrow> bool" where
  "did E w w' \<longleftrightarrow> sound w' \<and> (\<exists>d. sw_manager w' = (sw_manager w)\<lparr>sm_owned := d\<rparr>)
     \<and> (\<exists>new. sw_trace w' = sw_trace w @ new \<and> set new \<subseteq> E)"

definition spec ::
  "os_event set \<Rightarrow> (os_event list \<Rightarrow> bool) \<Rightarrow> ('e, 'a) stage_proc \<Rightarrow> ('a \<Rightarrow> os_event list \<Rightarrow> bool) \<Rightarrow> bool" where
  "spec E P m Q \<longleftrightarrow>
     (\<forall>w r w'. sound w \<longrightarrow> P (sw_trace w) \<longrightarrow> m w = Some (r, w') \<longrightarrow>
        did E w w' \<and> (\<exists>x. r = Inr x \<and> Q x (sw_trace w')))"

definition lasting :: "os_event set \<Rightarrow> (os_event list \<Rightarrow> bool) \<Rightarrow> bool" where
  "lasting E P \<longleftrightarrow> (\<forall>tr new. P tr \<longrightarrow> set new \<subseteq> E \<longrightarrow> P (tr @ new))"

lemma did_trans: "did E w w1 \<Longrightarrow> did E w1 w2 \<Longrightarrow> did E w w2"
proof -
  assume "did E w w1" "did E w1 w2"
  then obtain d d' new new' where "sound w2" "sw_manager w1 = (sw_manager w)\<lparr>sm_owned := d\<rparr>"
    "sw_manager w2 = (sw_manager w1)\<lparr>sm_owned := d'\<rparr>" "sw_trace w1 = sw_trace w @ new" "set new \<subseteq> E"
    "sw_trace w2 = sw_trace w1 @ new'" "set new' \<subseteq> E" unfolding did_def by blast
  then have "sound w2" "sw_manager w2 = (sw_manager w)\<lparr>sm_owned := d'\<rparr>" "sw_trace w2 = sw_trace w @ (new @ new')"
    "set (new @ new') \<subseteq> E" by simp_all
  then show ?thesis unfolding did_def by blast
qed

lemma did_mono: "did E w w' \<Longrightarrow> E \<subseteq> E' \<Longrightarrow> did E' w w'"
  unfolding did_def by blast

lemma did_refl: "sound w \<Longrightarrow> did E w w"
  unfolding did_def by (metis StageProcessManager.surjective StageProcessManager.update_convs(13) append_Nil2 empty_set empty_subsetI)

lemma did_sound: "did E w w' \<Longrightarrow> sound w'"
  by (simp add: did_def)

lemma lastingD: "lasting E P \<Longrightarrow> did E w w' \<Longrightarrow> P (sw_trace w) \<Longrightarrow> P (sw_trace w')"
  unfolding lasting_def did_def by metis

lemma specD:
  assumes "spec E P m Q" "sound w" "P (sw_trace w)" "m w = Some (r, w')"
  obtains x where "r = Inr x" "did E w w'" "Q x (sw_trace w')"
  using assms unfolding spec_def by blast

lemma specI:
  assumes "\<And>w r w'. sound w \<Longrightarrow> P (sw_trace w) \<Longrightarrow> m w = Some (r, w') \<Longrightarrow> did E w w' \<and> (\<exists>x. r = Inr x \<and> Q x (sw_trace w'))"
  shows "spec E P m Q"
  using assms unfolding spec_def by blast

lemma spec_weaken:
  assumes "spec E P m Q" "E \<subseteq> E'" "\<And>tr. P' tr \<Longrightarrow> P tr" "\<And>x tr. Q x tr \<Longrightarrow> Q' x tr"
  shows "spec E' P' m Q'"
proof (rule specI)
  fix w r w'
  assume "sound w" "P' (sw_trace w)" "m w = Some (r, w')"
  then show "did E' w w' \<and> (\<exists>x. r = Inr x \<and> Q' x (sw_trace w'))"
    using specD [OF assms(1)] assms(2-4) did_mono by metis
qed

lemma spec_bind:
  assumes "spec E P m M" "lasting E P" "\<And>x. spec E (\<lambda>tr. P tr \<and> M x tr) (k x) Q"
  shows "spec E P (bind m k) Q"
proof (rule specI)
  fix w r w'
  assume w: "sound w" "P (sw_trace w)" "bind m k w = Some (r, w')"
  then obtain r1 w1 where m: "m w = Some (r1, w1)" by (auto simp: bind_def split: option.splits)
  from specD [OF assms(1) w(1,2) m] obtain x where 1: "r1 = Inr x" "did E w w1" "M x (sw_trace w1)" .
  have "P (sw_trace w1)" using lastingD [OF assms(2) 1(2)] w(2) .
  moreover have "k x w1 = Some (r, w')" using w(3) m 1(1) by (simp add: bind_def)
  ultimately obtain y where "r = Inr y" "did E w1 w'" "Q y (sw_trace w')"
    using specD [OF assms(3) [of x] did_sound [OF 1(2)]] 1(3) by metis
  then show "did E w w' \<and> (\<exists>x. r = Inr x \<and> Q x (sw_trace w'))" using did_trans [OF 1(2)] by blast
qed

lemma spec_andthen:
  "spec E P m (\<lambda>_. M) \<Longrightarrow> lasting E P \<Longrightarrow> spec E (\<lambda>tr. P tr \<and> M tr) k Q \<Longrightarrow> spec E P (andthen m k) Q"
  unfolding andthen_def by (rule spec_bind)

lemma spec_ret: "(\<And>tr. P tr \<Longrightarrow> Q x tr) \<Longrightarrow> spec E P (ret x) Q"
  by (rule specI) (auto simp: ret_def intro: did_refl)

lemma spec_skip: "(\<And>tr. P tr \<Longrightarrow> Q () tr) \<Longrightarrow> spec E P skip Q"
  unfolding skip_def by (rule spec_ret)

lemma spec_if: "(b \<Longrightarrow> spec E P m Q) \<Longrightarrow> (\<not> b \<Longrightarrow> spec E P n Q) \<Longrightarrow> spec E P (if b then m else n) Q"
  by simp

lemma spec_option:
  "(o' = None \<Longrightarrow> spec E P m Q) \<Longrightarrow> (\<And>x. o' = Some x \<Longrightarrow> spec E P (k x) Q) \<Longrightarrow> spec E P (case o' of None \<Rightarrow> m | Some x \<Rightarrow> k x) Q"
  by (cases o') auto

text \<open>Steps that leave the trace as it is.\<close>

lemma did_same:
  assumes "sound w" "sw_trace w' = sw_trace w" "sw_manager w' = (sw_manager w)\<lparr>sm_owned := d\<rparr>"
    and "\<And>t. t \<in> set (sw_trees w') \<Longrightarrow> tree_ok (sw_trace w) t" "registry_ok (sw_trees w') d"
  shows "did E w w'"
  unfolding did_def using assms by (auto simp: sound_def)

lemma did_same_manager:
  assumes "sound w" "sw_trace w' = sw_trace w" "sw_manager w' = sw_manager w"
    and "\<And>t. t \<in> set (sw_trees w') \<Longrightarrow> tree_ok (sw_trace w) t" "registry_ok (sw_trees w') (sm_owned (sw_manager w))"
  shows "did E w w'"
  using assms by (intro did_same [where d = "sm_owned (sw_manager w)"]) auto

lemma spec_sys: "(\<And>x tr. P tr \<Longrightarrow> Q x tr) \<Longrightarrow> spec E P (sys f) Q"
  by (rule specI) (auto simp: sys_def query_def sound_def split: prod.splits intro!: did_same_manager)

lemma spec_emit:
  assumes "ev \<in> E" "\<And>tr. P tr \<Longrightarrow> Q () (tr @ [ev])" "\<And>tr pid. P tr \<Longrightarrow> signalled ev = Some pid \<Longrightarrow> just_read tr pid"
  shows "spec E P (emit ev) Q"
proof (rule specI)
  fix w r and w' :: "'a stage_world"
  assume w: "sound w" "P (sw_trace w)" "emit ev w = Some (r, w')"
  then have w': "r = Inr ()" "w' = w\<lparr>sw_trace := sw_trace w @ [ev]\<rparr>" by (auto simp: emit_def modify_def)
  have "verified (sw_trace w @ [ev])"
    using w(1) assms(3) [OF w(2)] verified_append [of "sw_trace w" "[ev]"] verified_signal [of "sw_trace w" ev]
    by (cases "signalled ev") (auto simp: sound_def)
  then have "sound w'" using w(1) by (auto simp: w' sound_def tree_ok_append)
  then have "did E w w'"
    unfolding did_def using assms(1) by (auto simp: w' intro!: exI [of _ "sm_owned (sw_manager w)"])
  then show "did E w w' \<and> (\<exists>x. r = Inr x \<and> Q x (sw_trace w'))" using assms(2) w(2) by (simp add: w')
qed

lemma spec_manager: "(\<And>x tr. P tr \<Longrightarrow> Q x tr) \<Longrightarrow> spec E P (manager f) Q"
  by (rule specI) (auto simp: manager_def query_def intro: did_refl)

lemma spec_unregister: "(\<And>tr. P tr \<Longrightarrow> Q () tr) \<Longrightarrow> spec E P (unregister h i) Q"
  by (rule specI)
    (auto simp: unregister_def set_manager_def modify_def dict_del_def registry_ok_def sound_def intro!: did_same)

lemma spec_registered:
  assumes "\<And>ownership tr. P tr \<Longrightarrow> (\<And>i t. ownership = Some (i, t) \<Longrightarrow> tree_ok tr t \<and> ot_root_pid t = pid) \<Longrightarrow> Q ownership tr"
  shows "spec E P (registered_tree pid) Q"
proof (rule specI)
  fix w r and w' :: "'a stage_world"
  assume w: "sound w" "P (sw_trace w)" "registered_tree pid w = Some (r, w')"
  let ?x = "case map_of (sm_owned (sw_manager w)) pid of
      Some i \<Rightarrow> if i < length (sw_trees w) then Some (i, sw_trees w ! i) else None | None \<Rightarrow> None"
  have "w' = w" "r = Inr ?x" using w(3) by (auto simp: registered_tree_def query_def)
  moreover have "Q ?x (sw_trace w)"
    using w(1) by (intro assms [OF w(2)])
      (auto simp: sound_def registry_ok_def split: option.splits if_splits dest!: map_of_SomeD)
  ultimately show "did E w w' \<and> (\<exists>x. r = Inr x \<and> Q x (sw_trace w'))" using did_refl [OF w(1)] by blast
qed

lemma spec_tree:
  assumes "\<And>t tr. P tr \<Longrightarrow> (\<And>t'. t = Some t' \<Longrightarrow> tree_ok tr t') \<Longrightarrow> Q t tr"
  shows "spec E P (tree i) Q"
proof (rule specI)
  fix w r and w' :: "'a stage_world"
  assume w: "sound w" "P (sw_trace w)" "tree i w = Some (r, w')"
  let ?x = "if i < length (sw_trees w) then Some (sw_trees w ! i) else None"
  have "w' = w" "r = Inr ?x" using w(3) by (auto simp: tree_def query_def)
  moreover have "Q ?x (sw_trace w)"
    using w(1) by (intro assms [OF w(2)]) (auto simp: sound_def split: if_splits)
  ultimately show "did E w w' \<and> (\<exists>x. r = Inr x \<and> Q x (sw_trace w'))" using did_refl [OF w(1)] by blast
qed

lemma spec_set_tree:
  assumes "\<And>tr t. P tr \<Longrightarrow> tree_ok tr t \<Longrightarrow> tree_ok tr (f t)" "\<And>tr. P tr \<Longrightarrow> Q () tr" "\<And>t. ot_root_pid (f t) = ot_root_pid t"
  shows "spec E P (set_tree i f) Q"
proof (rule specI)
  fix w r and w' :: "'a stage_world"
  assume w: "sound w" "P (sw_trace w)" "set_tree i f w = Some (r, w')"
  then have w': "r = Inr ()" "w' = w\<lparr>sw_trees := (sw_trees w)[i := f (sw_trees w ! i)]\<rparr>"
    by (auto simp: set_tree_def modify_def)
  have "tree_ok (sw_trace w) t" if "t \<in> set (sw_trees w')" for t
  proof (cases "i < length (sw_trees w)")
    case True
    then show ?thesis
      using that w(1) assms(1) [OF w(2)] set_update_subset_insert [of "sw_trees w" i "f (sw_trees w ! i)"]
      by (auto simp: w' sound_def)
  next
    case False
    then have "(sw_trees w)[i := f (sw_trees w ! i)] = sw_trees w" by (simp add: list_update_beyond)
    then show ?thesis using that w(1) by (auto simp: w' sound_def)
  qed
  moreover have "registry_ok (sw_trees w') (sm_owned (sw_manager w))"
  proof -
    have "ot_root_pid (sw_trees w' ! k) = ot_root_pid (sw_trees w ! k)" if "k < length (sw_trees w)" for k
      using that by (cases "k = i") (simp_all add: w' assms(3))
    then show ?thesis using w(1) by (auto simp: w' sound_def registry_ok_def)
  qed
  ultimately have "did E w w'" using w(1) by (intro did_same_manager) (simp_all add: w')
  then show "did E w w' \<and> (\<exists>x. r = Inr x \<and> Q x (sw_trace w'))" using assms(2) w(2) by (simp add: w')
qed

lemma registry_ok_append: "registry_ok trees d \<Longrightarrow> registry_ok (trees @ [t]) d"
  by (auto simp: registry_ok_def nth_append)

lemma spec_new_tree:
  assumes "\<And>tr. P tr \<Longrightarrow> tree_ok tr t" "\<And>i tr. P tr \<Longrightarrow> Q (i, t) tr"
  shows "spec E P (new_tree t) Q"
  by (rule specI)
    (use assms in \<open>auto simp: new_tree_def query_def sound_def intro!: did_same_manager registry_ok_append\<close>)

lemma dict_setD: "e \<in> set (dict_set k v d) \<Longrightarrow> e = (k, v) \<or> e \<in> set d"
  by (induction k v d rule: dict_set.induct) (auto split: if_splits)

lemma spec_register_tree:
  assumes "\<And>tr. P tr \<Longrightarrow> tree_ok tr t" "\<And>tr. P tr \<Longrightarrow> Q () tr"
  shows "spec E P (register_tree t) Q"
proof (rule specI)
  fix w r and w' :: "'a stage_world"
  assume w: "sound w" "P (sw_trace w)" "register_tree t w = Some (r, w')"
  let ?d = "dict_set (ot_root_pid t) (length (sw_trees w)) (sm_owned (sw_manager w))"
  have w': "r = Inr ()" "w' = w\<lparr>sw_trees := sw_trees w @ [t], sw_manager := (sw_manager w)\<lparr>sm_owned := ?d\<rparr>\<rparr>"
    using w(3) by (auto simp: register_tree_def modify_def)
  have "registry_ok (sw_trees w @ [t]) (sm_owned (sw_manager w))"
    using w(1) by (simp add: sound_def registry_ok_append)
  then have "registry_ok (sw_trees w @ [t]) ?d"
    unfolding registry_ok_def by (auto dest!: dict_setD)
  then have "did E w w'"
    using w(1) assms(1) [OF w(2)] by (intro did_same [where d = ?d]) (auto simp: w' sound_def)
  then show "did E w w' \<and> (\<exists>x. r = Inr x \<and> Q x (sw_trace w'))" using assms(2) w(2) by (simp add: w')
qed

lemma spec_each: "(\<And>x. x \<in> set xs \<Longrightarrow> spec E P (f x) (\<lambda>_. P)) \<Longrightarrow> lasting E P \<Longrightarrow> spec E P (each f xs) (\<lambda>_. P)"
proof (induction xs)
  case (Cons x xs)
  then have "spec E (\<lambda>tr. P tr \<and> P tr) (each f xs) (\<lambda>_. P)" by simp
  then show ?case using Cons.prems by (auto intro!: spec_andthen [where M = P])
qed (auto intro: spec_skip)

lemma spec_ensure:
  assumes "spec E P m (\<lambda>_. M)" "spec E M f (\<lambda>_. Q)"
  shows "spec E P (ensure m f) (\<lambda>_. Q)"
proof (rule specI)
  fix w r w'
  assume w: "sound w" "P (sw_trace w)" "ensure m f w = Some (r, w')"
  then obtain r1 w1 where m: "m w = Some (r1, w1)" by (auto simp: ensure_def split: option.splits)
  from specD [OF assms(1) w(1,2) m] obtain x where 1: "r1 = Inr x" "did E w w1" "M (sw_trace w1)" .
  obtain r2 w2 where f: "f w1 = Some (r2, w2)" using w(3) m by (auto simp: ensure_def split: option.splits)
  from specD [OF assms(2) did_sound [OF 1(2)] 1(3) f] obtain y where 2: "r2 = Inr y" "did E w1 w2" "Q (sw_trace w2)" .
  have "r = Inr x" "w' = w2" using w(3) m f 1(1) 2(1) by (simp_all add: ensure_def)
  then show "did E w w' \<and> (\<exists>x. r = Inr x \<and> Q (sw_trace w'))" using did_trans [OF 1(2) 2(2)] 2(3) by blast
qed

lemma spec_iterate:
  fixes m :: "'s \<Rightarrow> ('e, 's + 'a) stage_proc"
  assumes step: "\<And>s. spec E (J s) (m s) (\<lambda>r tr. case r of Inl s' \<Rightarrow> J s' tr | Inr x \<Rightarrow> Q x tr)"
  shows "spec E (J s) (iterate m s) Q"
proof (rule specI)
  fix w r and w' :: "'e stage_world"
  assume w: "sound w" "J s (sw_trace w)" "iterate m s w = Some (r, w')"
  have "n = m \<longrightarrow> sound w \<longrightarrow> J s (sw_trace w) \<longrightarrow>
      did E w (snd y) \<and> (\<exists>x. fst y = Inr x \<and> Q x (sw_trace (snd y)))" if "iterate n s w = Some y" for n s w y
  proof (rule iterate.raw_induct [OF _ that, of "\<lambda>n s w y. n = m \<longrightarrow> sound w \<longrightarrow> J s (sw_trace w) \<longrightarrow>
      did E w (snd y) \<and> (\<exists>x. fst y = Inr x \<and> Q x (sw_trace (snd y)))"])
    fix it n s w y
    assume IH: "\<And>n s w y. it n s w = Some y \<Longrightarrow> n = m \<longrightarrow> sound w \<longrightarrow> J s (sw_trace w) \<longrightarrow>
        did E w (snd y) \<and> (\<exists>x. fst y = Inr x \<and> Q x (sw_trace (snd y)))"
      and it: "(case n s w of None \<Rightarrow> None
        | Some (r, w') \<Rightarrow> (case r of Inl e \<Rightarrow> Some (Inl e, w') | Inr (Inl s') \<Rightarrow> it n s' w' | Inr (Inr x) \<Rightarrow> Some (Inr x, w'))) = Some y"
    show "n = m \<longrightarrow> sound w \<longrightarrow> J s (sw_trace w) \<longrightarrow>
        did E w (snd y) \<and> (\<exists>x. fst y = Inr x \<and> Q x (sw_trace (snd y)))"
    proof (intro impI)
      assume n: "n = m" and w: "sound w" "J s (sw_trace w)"
      obtain r w1 where m: "m s w = Some (r, w1)" using it n by (cases "m s w") auto
      from specD [OF step w m] obtain c where c: "r = Inr c" "did E w w1"
        "case c of Inl s' \<Rightarrow> J s' (sw_trace w1) | Inr x \<Rightarrow> Q x (sw_trace w1)" .
      show "did E w (snd y) \<and> (\<exists>x. fst y = Inr x \<and> Q x (sw_trace (snd y)))"
      proof (cases c)
        case (Inl s')
        then have "it m s' w1 = Some y" using it m n c(1) by simp
        from IH [OF this] show ?thesis using c(2,3) Inl did_sound [OF c(2)] did_trans [OF c(2)] by auto
      next
        case (Inr x)
        then show ?thesis using it m n c by auto
      qed
    qed
  qed
  from this [OF w(3)] show "did E w w' \<and> (\<exists>x. r = Inr x \<and> Q x (sw_trace w'))" using w(1,2) by auto
qed

lemma spec_repeat_until:
  fixes m :: "('e, 'a option) stage_proc"
  assumes step: "spec E P m (\<lambda>r tr. case r of None \<Rightarrow> P tr | Some x \<Rightarrow> Q x tr)"
  shows "spec E P (repeat_until m) Q"
proof (rule specI)
  fix w r and w' :: "'e stage_world"
  assume w: "sound w" "P (sw_trace w)" "repeat_until m w = Some (r, w')"
  have "triple (\<lambda>w'. did E w w' \<and> P (sw_trace w')) (repeat_until m)
      (\<lambda>x w'. did E w w' \<and> Q x (sw_trace w')) (\<lambda>_ _. False)"
  proof (rule triple_repeat_until, unfold triple_def, intro allI impI)
    fix w1 assume 1: "did E w w1 \<and> P (sw_trace w1)"
    show "case m w1 of None \<Rightarrow> True | Some (Inl e, w') \<Rightarrow> False
        | Some (Inr x, w') \<Rightarrow> (case x of None \<Rightarrow> did E w w' \<and> P (sw_trace w') | Some x \<Rightarrow> did E w w' \<and> Q x (sw_trace w'))"
    proof (cases "m w1")
      case (Some y)
      then obtain r w2 where m: "m w1 = Some (r, w2)" by (cases y) auto
      from specD [OF step did_sound conjunct2 [OF 1] m] 1 obtain c where
        "r = Inr c" "did E w1 w2" "case c of None \<Rightarrow> P (sw_trace w2) | Some x \<Rightarrow> Q x (sw_trace w2)" by blast
      then show ?thesis using m 1 did_trans by (cases c) auto
    qed simp
  qed
  note loop = this
  have start: "did E w w \<and> P (sw_trace w)" using did_refl [OF w(1)] w(2) by blast
  show "did E w w' \<and> (\<exists>x. r = Inr x \<and> Q x (sw_trace w'))"
    using triple_normal [OF loop start] triple_error [OF loop start] w(3) by (cases r) auto
qed

section \<open>Reading identities\<close>

text \<open>The events of a walk, of the watchers, and of a step that reads the identities of some processes.\<close>

definition walk_events :: "bool \<Rightarrow> os_event set" where
  "walk_events watcher = {ev. (\<exists>pid t. ev = EvStat watcher pid t) \<or> (\<exists>pid cs. ev = EvChildren pid cs)}"

definition watch_events :: "os_event set" where
  "watch_events = walk_events True \<union> {ev. \<exists>h code. ev = EvPoll h code}"

definition read_events :: "int set \<Rightarrow> os_event set" where
  "read_events pids = watch_events \<union> {ev. \<exists>pid \<in> pids. \<exists>t. ev = EvStat False pid t}"

lemma read_events_simps [simp]:
  "EvStat True pid t \<in> read_events pids" "EvChildren pid cs \<in> read_events pids" "EvPoll h code \<in> read_events pids"
  "EvStat False pid t \<in> read_events pids \<longleftrightarrow> pid \<in> pids"
  "EvSpawn c h \<notin> read_events pids" "EvRun c \<notin> read_events pids"
  "EvSignal pid s \<notin> read_events pids" "EvSignalGroup pid s \<notin> read_events pids"
  by (auto simp: read_events_def watch_events_def walk_events_def)

lemma lasting_conj: "lasting E P \<Longrightarrow> lasting E Q \<Longrightarrow> lasting E (\<lambda>tr. P tr \<and> Q tr)"
  by (auto simp: lasting_def)

lemma lasting_all: "(\<And>x. lasting E (P x)) \<Longrightarrow> lasting E (\<lambda>tr. \<forall>x. P x tr)"
  by (auto simp: lasting_def)

lemma lasting_ball: "(\<And>x. x \<in> A \<Longrightarrow> lasting E (P x)) \<Longrightarrow> lasting E (\<lambda>tr. \<forall>x \<in> A. P x tr)"
  by (auto simp: lasting_def)

lemma lasting_const: "lasting E (\<lambda>tr. c)"
  by (auto simp: lasting_def)

lemma lasting_imp: "(c \<Longrightarrow> lasting E P) \<Longrightarrow> lasting E (\<lambda>tr. c \<longrightarrow> P tr)"
  by (auto simp: lasting_def)

lemma lasting_facts:
  "lasting E (\<lambda>tr. owned tr pid)" "lasting E (\<lambda>tr. recorded tr pid ticks)" "lasting E (\<lambda>tr. tree_ok tr t)"
  by (auto simp: lasting_def tree_ok_append)

lemma lasting_just_read: "(\<And>t. EvStat False pid t \<notin> E) \<Longrightarrow> lasting E (\<lambda>tr. just_read tr pid)"
  unfolding lasting_def by (blast intro: just_read_append)

lemma spec_process_start_ticks:
  assumes "\<And>t. EvStat watcher pid t \<in> E" "lasting E P"
  shows "spec E P (process_start_ticks p watcher pid)
     (\<lambda>ticks tr. P tr \<and> (\<exists>a. tr = a @ [EvStat watcher pid ticks] \<and> P a))"
proof -
  have "spec E P (andthen (emit (EvStat watcher pid t)) (ret t))
      (\<lambda>ticks tr. P tr \<and> (\<exists>a. tr = a @ [EvStat watcher pid ticks] \<and> P a))" for t
  proof (rule spec_andthen [where M = "\<lambda>tr. \<exists>a. tr = a @ [EvStat watcher pid t] \<and> P a"])
    show "spec E P (emit (EvStat watcher pid t)) (\<lambda>_ tr. \<exists>a. tr = a @ [EvStat watcher pid t] \<and> P a)"
      using assms by (intro spec_emit) auto
  qed (use assms in \<open>auto intro: spec_ret\<close>)
  then show ?thesis
    unfolding process_start_ticks_def Let_def
    by (intro spec_bind [where M = "\<lambda>_ _. True"]) (auto intro: spec_sys assms)
qed

text \<open>The variables of a walk: what is on the stack is owned and what was collected is recorded.\<close>

definition walk_ok :: "int list \<times> int set \<times> (int \<times> string) list \<Rightarrow> os_event list \<Rightarrow> bool" where
  "walk_ok s tr \<longleftrightarrow> (case s of (pending, visited, descendants) \<Rightarrow>
     (\<forall>pid \<in> set pending. owned tr pid) \<and> (\<forall>d \<in> set descendants. recorded tr (fst d) (snd d))
     \<and> distinct (map fst descendants))"

lemma lasting_walk_ok: "lasting E (walk_ok s)"
  by (cases s) (auto simp: walk_ok_def lasting_def)

lemmas lasting_intros = lasting_conj lasting_ball lasting_const lasting_facts lasting_just_read lasting_walk_ok

lemma keys_dict_set: "fst ` set (dict_set k v d) = insert k (fst ` set d)"
  by (induction k v d rule: dict_set.induct) auto

lemma distinct_dict_set: "distinct (map fst d) \<Longrightarrow> distinct (map fst (dict_set k v d))"
proof (induction k v d rule: dict_set.induct)
  case (2 k v k' v' d)
  then show ?case using keys_dict_set [of k v d] by auto
qed simp

lemma dict_update_ok:
  "\<forall>d \<in> set new \<union> set old. P d \<Longrightarrow> distinct (map fst old) \<Longrightarrow>
     (\<forall>d \<in> set (dict_update new old). P d) \<and> distinct (map fst (dict_update new old))"
proof (induction new arbitrary: old)
  case (Cons kv new)
  obtain k v where kv: "kv = (k, v)" by (cases kv)
  have "dict_update (kv # new) old = dict_update new (dict_set k v old)" by (simp add: dict_update_def kv)
  moreover have "\<forall>d \<in> set new \<union> set (dict_set k v old). P d"
    using Cons.prems(1) kv by (auto dest!: dict_setD)
  ultimately show ?case using Cons.IH [of "dict_set k v old"] distinct_dict_set [OF Cons.prems(2)] by simp
qed (simp add: dict_update_def)

lemma walk_ok_new:
  assumes "walk_ok (pending, visited, descendants) a" "owned a pid"
  shows "walk_ok (pending @ [pid], insert pid visited, dict_set pid ticks descendants) (a @ [EvStat watcher pid (Some ticks)])"
proof -
  have "\<forall>d \<in> insert (pid, ticks) (set descendants). recorded (a @ [EvStat watcher pid (Some ticks)]) (fst d) (snd d)"
    using assms recorded_read [OF assms(2)] by (simp add: walk_ok_def)
  then have "\<forall>d \<in> set (dict_set pid ticks descendants). recorded (a @ [EvStat watcher pid (Some ticks)]) (fst d) (snd d)"
    by (auto dest!: dict_setD)
  then show ?thesis using assms by (simp add: walk_ok_def distinct_dict_set)
qed

lemma spec_visit_children:
  assumes "\<And>pid t. EvStat watcher pid t \<in> E"
  shows "spec E (\<lambda>tr. walk_ok s tr \<and> (\<forall>c \<in> set children. owned tr c)) (visit_children p watcher children s)
     (\<lambda>s tr. walk_ok s tr)"
proof (induction children arbitrary: s)
  case (Cons c children)
  obtain pending visited descendants where s: "s = (pending, visited, descendants)" by (cases s)
  let ?P = "\<lambda>tr. walk_ok s tr \<and> (\<forall>c \<in> set (c # children). owned tr c)"
  have lasting: "lasting E ?P" by (intro lasting_intros)
  note read = spec_process_start_ticks [where watcher = watcher and pid = c and P = ?P and p = p, OF assms lasting]
  have rest: "spec E (\<lambda>tr. ?P tr \<and> ?P tr \<and> (\<exists>a. tr = a @ [EvStat watcher c ticks] \<and> ?P a))
      (case ticks of None \<Rightarrow> visit_children p watcher children (pending, insert c visited, descendants)
       | Some t \<Rightarrow> visit_children p watcher children (pending @ [c], insert c visited, dict_set c t descendants))
      (\<lambda>s tr. walk_ok s tr)" for ticks
  proof (cases ticks)
    case None
    show ?thesis
      unfolding None option.case by (rule spec_weaken [OF Cons.IH]) (auto simp: s walk_ok_def)
  next
    case (Some t)
    show ?thesis
      unfolding Some option.case
      by (rule spec_weaken [OF Cons.IH]) (auto simp: s intro!: walk_ok_new)
  qed
  show ?case
  proof (cases "c \<in> visited")
    case True
    then have "visit_children p watcher (c # children) s = visit_children p watcher children s" by (simp add: s)
    then show ?thesis by (simp only:) (rule spec_weaken [OF Cons.IH], auto)
  next
    case False
    then show ?thesis
      unfolding s visit_children.simps if_False
      using spec_bind [OF read lasting rest] by (simp add: s)
  qed
qed (auto intro: spec_ret)

lemma spec_descendant_identities:
  assumes "walk_events watcher \<subseteq> E" "lasting E P"
  shows "spec E (\<lambda>tr. P tr \<and> owned tr pid) (descendant_identities p watcher pid)
     (\<lambda>d tr. P tr \<and> owned tr pid \<and> walk_ok ([], {}, d) tr)"
proof -
  let ?J = "\<lambda>s tr. (P tr \<and> owned tr pid) \<and> walk_ok s tr"
  have ev: "EvStat watcher q t \<in> E" "EvChildren q cs \<in> E" for q t cs
    using assms(1) by (auto simp: walk_events_def)
  have J: "lasting E (?J s)" for s by (intro lasting_intros assms(2))
  have "spec E (?J s) (descendants_pass p watcher s)
      (\<lambda>r tr. case r of Inl s' \<Rightarrow> ?J s' tr | Inr d \<Rightarrow> P tr \<and> owned tr pid \<and> walk_ok ([], {}, d) tr)" for s
  proof -
    obtain pending visited descendants where s: "s = (pending, visited, descendants)" by (cases s)
    show ?thesis
    proof (cases "pending = []")
      case True
      then show ?thesis unfolding descendants_pass_def s prod.case by (auto intro: spec_ret simp: walk_ok_def)
    next
      case False
      let ?s = "(butlast pending, visited, descendants)"
      have some: "spec E (\<lambda>tr. ?J s tr \<and> True) (andthen (emit (EvChildren (last pending) children))
          (bind (visit_children p watcher children ?s) (\<lambda>s. ret (Inl s))))
          (\<lambda>r tr. case r of Inl s' \<Rightarrow> ?J s' tr | Inr d \<Rightarrow> P tr \<and> owned tr pid \<and> walk_ok ([], {}, d) tr)" for children
      proof -
        let ?M = "\<lambda>tr. walk_ok ?s tr \<and> (\<forall>c \<in> set children. owned tr c)"
        have "owned (tr @ [EvChildren (last pending) children]) c" if "walk_ok s tr" "c \<in> set children" for tr c
          using that False last_in_set [of pending] owned.child [of "last pending" children "tr @ [EvChildren (last pending) children]" c]
          by (auto simp: s walk_ok_def)
        then have "spec E (?J s) (emit (EvChildren (last pending) children)) (\<lambda>_ tr. ?M tr)"
          using J [of s] ev False in_set_butlastD [of _ pending]
          by (intro spec_emit) (auto simp: s walk_ok_def)
        moreover have "spec E (\<lambda>tr. ?J s tr \<and> ?M tr) (bind (visit_children p watcher children ?s) (\<lambda>s. ret (Inl s)))
          (\<lambda>r tr. case r of Inl s' \<Rightarrow> ?J s' tr | Inr d \<Rightarrow> P tr \<and> owned tr pid \<and> walk_ok ([], {}, d) tr)"
        proof (rule spec_bind)
          show "spec E (\<lambda>tr. ?J s tr \<and> ?M tr) (visit_children p watcher children ?s) (\<lambda>s tr. walk_ok s tr)"
            by (rule spec_weaken [OF spec_visit_children [OF ev(1)]]) auto
        qed (auto intro!: spec_ret lasting_intros assms(2))
        ultimately show ?thesis using spec_andthen [OF _ J] by simp
      qed
      have none: "spec E (\<lambda>tr. ?J s tr \<and> True) (ret (Inl ?s))
          (\<lambda>r tr. case r of Inl s' \<Rightarrow> ?J s' tr | Inr d \<Rightarrow> P tr \<and> owned tr pid \<and> walk_ok ([], {}, d) tr)"
        using in_set_butlastD [of _ pending] by (intro spec_ret) (auto simp: s walk_ok_def)
      have "descendants_pass p watcher s = bind (sys (sp_children p (last pending))) (\<lambda>raw.
          case raw of None \<Rightarrow> ret (Inl ?s)
          | Some children \<Rightarrow> andthen (emit (EvChildren (last pending) children))
              (bind (visit_children p watcher children ?s) (\<lambda>s. ret (Inl s))))"
        using False by (simp add: descendants_pass_def s)
      then show ?thesis
        by (simp only:) (rule spec_bind [OF spec_sys J], simp, rule spec_option [OF none some])
    qed
  qed
  from spec_iterate [OF this, of "([pid], {pid}, [])"] show ?thesis
    unfolding descendant_identities_def by (rule spec_weaken) (auto simp: walk_ok_def)
qed

section \<open>Watchers and reads\<close>

lemma walk_watch: "walk_events True \<subseteq> read_events pids"
  by (auto simp: read_events_def watch_events_def)

lemma tree_ok_update:
  assumes "tree_ok tr t" "walk_ok ([], {}, d) tr"
  shows "tree_ok tr (t\<lparr>ot_descendants := dict_update d (ot_descendants t)\<rparr>)"
proof -
  have "\<forall>d \<in> set d \<union> set (ot_descendants t). recorded tr (fst d) (snd d)" "distinct (map fst (ot_descendants t))"
    using assms by (auto simp: tree_ok_def walk_ok_def)
  from dict_update_ok [OF this] show ?thesis using assms(1) by (auto simp: tree_ok_def)
qed

text \<open>Rules that carry the condition before a step along, for sequences of steps.\<close>

lemma spec_seq:
  assumes "spec E P m M" "\<And>x. spec E (M x) (k x) Q"
  shows "spec E P (bind m k) Q"
proof (rule specI)
  fix w r w'
  assume w: "sound w" "P (sw_trace w)" "bind m k w = Some (r, w')"
  then obtain r1 w1 where m: "m w = Some (r1, w1)" by (auto simp: bind_def split: option.splits)
  from specD [OF assms(1) w(1,2) m] obtain x where 1: "r1 = Inr x" "did E w w1" "M x (sw_trace w1)" .
  have "k x w1 = Some (r, w')" using w(3) m 1(1) by (simp add: bind_def)
  from specD [OF assms(2) did_sound [OF 1(2)] 1(3) this] obtain y where "r = Inr y" "did E w1 w'" "Q y (sw_trace w')" .
  then show "did E w w' \<and> (\<exists>x. r = Inr x \<and> Q x (sw_trace w'))" using did_trans [OF 1(2)] by blast
qed

lemma spec_then: "spec E P m (\<lambda>_. M) \<Longrightarrow> spec E M k Q \<Longrightarrow> spec E P (andthen m k) Q"
  unfolding andthen_def by (rule spec_seq)

lemma spec_keep:
  "spec E P (sys f) (\<lambda>_. P)" "spec E P (manager g) (\<lambda>_. P)"
  "spec E P (tree i) (\<lambda>t tr. P tr \<and> (\<forall>t'. t = Some t' \<longrightarrow> tree_ok tr t'))"
  by (auto intro: spec_sys spec_manager spec_tree)

lemma spec_emit_keep:
  "ev \<in> E \<Longrightarrow> lasting E P \<Longrightarrow> signalled ev = None \<Longrightarrow> spec E P (emit ev) (\<lambda>_ tr. P tr \<and> (\<exists>a. tr = a @ [ev] \<and> P a))"
  by (rule spec_emit) (auto simp: lasting_def)

lemma spec_post: "spec E P m Q \<Longrightarrow> (\<And>x tr. Q x tr \<Longrightarrow> Q' x tr) \<Longrightarrow> spec E P m Q'"
  by (erule spec_weaken) auto

lemma spec_pre: "spec E P m Q \<Longrightarrow> (\<And>tr. P' tr \<Longrightarrow> P tr) \<Longrightarrow> spec E P' m Q"
  by (erule spec_weaken) auto

lemma spec_frame:
  assumes "spec E P m Q" "lasting E R"
  shows "spec E (\<lambda>tr. P tr \<and> R tr) m (\<lambda>x tr. Q x tr \<and> R tr)"
  using assms unfolding spec_def by (blast dest: lastingD)

lemma spec_known: "(c \<Longrightarrow> spec E P m Q) \<Longrightarrow> (\<And>tr. P tr \<Longrightarrow> c) \<Longrightarrow> spec E P m Q"
  unfolding spec_def by blast

lemma spec_watcher_ends: "spec E P (watcher_ends i) (\<lambda>_. P)"
  unfolding watcher_ends_def by (intro spec_set_tree) (auto simp: tree_ok_def)

lemma spec_watcher_poll:
  assumes "lasting (read_events pids) P"
  shows "spec (read_events pids) P (watcher_poll p i h) (\<lambda>_. P)"
  unfolding watcher_poll_def
  by (intro spec_seq [OF spec_keep(1)] spec_then [OF spec_emit_keep] spec_if spec_skip spec_pre [OF spec_watcher_ends])
    (auto intro: assms)

lemma spec_merge_descendants:
  assumes P: "lasting (read_events {}) P"
  shows "spec (read_events {}) (\<lambda>tr. P tr \<and> walk_ok ([], {}, d) tr) (merge_descendants p i h d) (\<lambda>_. P)"
  unfolding merge_descendants_def
  by (intro spec_if spec_pre [OF spec_watcher_poll [OF P]] spec_seq [OF spec_keep(2)] spec_pre [OF spec_watcher_ends]
      spec_then [where M = P] spec_set_tree) (auto intro: tree_ok_update)

lemma spec_observe_process:
  assumes P: "lasting (read_events {}) P"
  shows "spec (read_events {}) (\<lambda>tr. P tr \<and> owned tr (po_pid h)) (observe_process p i t h) (\<lambda>_. P)"
proof -
  have read: "spec (read_events {}) (\<lambda>tr. P tr \<and> owned tr (po_pid h)) (process_start_ticks p True (po_pid h))
      (\<lambda>_ tr. P tr \<and> owned tr (po_pid h))"
    by (rule spec_post [OF spec_process_start_ticks]) (auto intro: lasting_intros P)
  show ?thesis
    unfolding observe_process_def
    by (intro spec_if spec_seq [OF read] spec_seq [OF spec_descendant_identities [OF walk_watch P]]
        spec_pre [OF spec_merge_descendants [OF P]] spec_pre [OF spec_watcher_ends]) auto
qed

lemma spec_observe_pass:
  assumes P: "lasting (read_events {}) P"
  shows "spec (read_events {}) P (observe_pass p i) (\<lambda>_. P)"
  unfolding observe_pass_def
  by (intro spec_seq [OF spec_keep(3)] spec_option spec_skip spec_pre [OF spec_observe_process [OF P]])
    (auto simp: tree_ok_def)

lemma spec_watchers: "lasting (read_events {}) P \<Longrightarrow> spec (read_events {}) P (watchers p) (\<lambda>_. P)"
  unfolding watchers_def by (intro spec_seq [OF spec_keep(1)] spec_each spec_observe_pass)

lemma read_events_mono: "A \<subseteq> B \<Longrightarrow> read_events A \<subseteq> read_events B"
  by (auto simp: read_events_def)

lemma lasting_mono: "lasting E P \<Longrightarrow> E' \<subseteq> E \<Longrightarrow> lasting E' P"
  unfolding lasting_def by blast

lemma spec_call_os:
  assumes "read_events {} \<subseteq> E" "lasting (read_events {}) P"
  shows "spec E P (call_os p f) (\<lambda>_. P)"
proof (rule spec_weaken [OF _ assms(1)])
  show "spec (read_events {}) P (call_os p f) (\<lambda>_. P)"
    unfolding call_os_def by (rule spec_then [OF spec_watchers [OF assms(2)] spec_keep(1)])
qed

lemma spec_start_ticks:
  assumes "read_events {pid} \<subseteq> E" "lasting (read_events {pid}) P"
  shows "spec E P (start_ticks p pid) (\<lambda>ticks tr. P tr \<and> (\<exists>a. tr = a @ [EvStat False pid ticks] \<and> P a))"
proof (rule spec_weaken [OF _ assms(1)])
  have "lasting (read_events {}) P" by (rule lasting_mono [OF assms(2)]) (simp add: read_events_mono)
  then have "spec (read_events {pid}) P (watchers p) (\<lambda>_. P)"
    by (rule spec_weaken [OF spec_watchers]) (simp_all add: read_events_mono)
  then show "spec (read_events {pid}) P (start_ticks p pid) (\<lambda>ticks tr. P tr \<and> (\<exists>a. tr = a @ [EvStat False pid ticks] \<and> P a))"
    unfolding start_ticks_def by (rule spec_then) (rule spec_process_start_ticks [OF _ assms(2)], simp)
qed

lemma spec_poll:
  assumes "read_events {} \<subseteq> E" "lasting E P"
  shows "spec E P (poll p h) (\<lambda>code tr. P tr \<and> (\<exists>a. tr = a @ [EvPoll h code] \<and> P a))"
proof -
  have P: "lasting (read_events {}) P" by (rule lasting_mono [OF assms(2,1)])
  have ev: "EvPoll h code \<in> E" for code by (rule subsetD [OF assms(1)]) simp
  show ?thesis
    unfolding poll_def
    by (rule spec_seq [OF spec_call_os [OF assms(1) P]], rule spec_then [OF spec_emit_keep [OF ev assms(2)]], simp,
        rule spec_ret, simp)
qed

section \<open>Stopping a process tree\<close>

definition stop_events :: "os_event set" where
  "stop_events = {ev. (\<forall>c h. ev \<noteq> EvSpawn c h) \<and> (\<forall>c. ev \<noteq> EvRun c)}"

lemma stop_events_simps [simp]:
  "EvStat b pid t \<in> stop_events" "EvChildren pid cs \<in> stop_events" "EvPoll h code \<in> stop_events"
  "EvSignal pid s \<in> stop_events" "EvSignalGroup pid s \<in> stop_events"
  "EvSpawn c h \<notin> stop_events" "EvRun c \<notin> stop_events"
  by (simp_all add: stop_events_def)

lemma read_stop [simp]: "read_events pids \<subseteq> stop_events"
  by (auto simp: read_events_def watch_events_def walk_events_def stop_events_def)

lemma walk_stop [simp]: "walk_events b \<subseteq> stop_events"
  by (auto simp: walk_events_def stop_events_def)

text \<open>A process that was spawned has been dealt with when, after that, it was seen to have ended, it was told
  to terminate, or its start time could not be read or was not one on record.\<close>

definition handled_by :: "os_event list \<Rightarrow> Popen \<Rightarrow> os_event \<Rightarrow> bool" where
  "handled_by tr h ev \<longleftrightarrow> (\<exists>code. ev = EvPoll h (Some code)) \<or> ev = EvSignal (po_pid h) SIGTERM
     \<or> ev = EvStat False (po_pid h) None
     \<or> (\<exists>ticks old. ev = EvStat False (po_pid h) (Some ticks) \<and> recorded tr (po_pid h) old \<and> old \<noteq> ticks)"

definition handled :: "os_event list \<Rightarrow> Popen \<Rightarrow> bool" where
  "handled tr h \<longleftrightarrow> (\<exists>before c after ev. tr = before @ EvSpawn c h # after \<and> ev \<in> set after \<and> handled_by tr h ev)"

definition was_spawned :: "os_event list \<Rightarrow> Popen \<Rightarrow> bool" where
  "was_spawned tr h \<longleftrightarrow> (\<exists>c. EvSpawn c h \<in> set tr)"

lemma was_spawned_owned: "was_spawned tr h \<Longrightarrow> owned tr (po_pid h)"
  by (auto simp: was_spawned_def intro: owned.spawned)

lemma was_spawned_append [simp]: "was_spawned tr h \<Longrightarrow> was_spawned (tr @ new) h"
  by (auto simp: was_spawned_def)

lemma handled_by_append: "handled_by tr h ev \<Longrightarrow> handled_by (tr @ new) h ev"
  unfolding handled_by_def using recorded_append by blast

lemma handled_append: "handled tr h \<Longrightarrow> handled (tr @ new) h"
proof -
  assume "handled tr h"
  then obtain a c b ev where "tr = a @ EvSpawn c h # b" "ev \<in> set b" "handled_by tr h ev" by (auto simp: handled_def)
  then have "tr @ new = a @ EvSpawn c h # (b @ new)" "ev \<in> set (b @ new)" by auto
  then show ?thesis using handled_by_append [OF \<open>handled_by tr h ev\<close>] unfolding handled_def by blast
qed

lemma handled_now: "was_spawned tr h \<Longrightarrow> handled_by (tr @ [ev]) h ev \<Longrightarrow> handled (tr @ [ev]) h"
proof -
  assume "was_spawned tr h" and ev: "handled_by (tr @ [ev]) h ev"
  then obtain a c b where "tr = a @ EvSpawn c h # b" by (auto simp: was_spawned_def in_set_conv_decomp)
  then have "tr @ [ev] = a @ EvSpawn c h # (b @ [ev])" "ev \<in> set (b @ [ev])" by simp_all
  then show ?thesis using ev unfolding handled_def by blast
qed

lemma handled_mismatch:
  assumes "was_spawned tr h" "recorded tr (po_pid h) old" "ticks \<noteq> Some old"
  shows "handled (tr @ [EvStat False (po_pid h) ticks]) h"
proof (rule handled_now [OF assms(1)])
  show "handled_by (tr @ [EvStat False (po_pid h) ticks]) h (EvStat False (po_pid h) ticks)"
    using assms(3) recorded_append [OF assms(2)] by (cases ticks) (auto simp: handled_by_def)
qed

lemma lasting_handled: "lasting E (\<lambda>tr. handled tr h)" "lasting E (\<lambda>tr. was_spawned tr h)"
  by (auto simp: lasting_def handled_append)

lemmas lasting_rules = lasting_intros lasting_handled lasting_all lasting_imp

lemma spec_signal_owned_process:
  assumes P: "lasting stop_events P"
  shows "spec stop_events (\<lambda>tr. P tr \<and> tree_ok tr t \<and> was_spawned tr h \<and> ot_root_pid t = po_pid h)
     (signal_owned_process p t SIGTERM) (\<lambda>_ tr. P tr \<and> handled tr h)"
proof -
  let ?P = "\<lambda>tr. P tr \<and> tree_ok tr t \<and> was_spawned tr h \<and> ot_root_pid t = po_pid h"
  let ?pid = "ot_root_pid t"
  have P': "lasting (read_events {?pid}) ?P" by (intro lasting_rules lasting_mono [OF P] read_stop)
  have other: "spec stop_events (\<lambda>tr. ?P tr \<and> (\<exists>a. tr = a @ [EvStat False ?pid ticks] \<and> ?P a)) (ret False)
      (\<lambda>_ tr. P tr \<and> handled tr h)" if "ticks \<noteq> Some (ot_root_start_ticks t)" for ticks
    using that by (intro spec_ret) (auto simp: tree_ok_def intro!: handled_mismatch)
  have send: "spec stop_events (\<lambda>tr. ?P tr \<and> (\<exists>a. tr = a @ [EvStat False ?pid (Some (ot_root_start_ticks t))] \<and> ?P a))
      (andthen (emit (EvSignal ?pid SIGTERM)) (call_os p (sp_kill p ?pid SIGTERM))) (\<lambda>_ tr. P tr \<and> handled tr h)"
  proof (rule spec_then [where M = "\<lambda>tr. P tr \<and> handled tr h"])
    show "spec stop_events (\<lambda>tr. ?P tr \<and> (\<exists>a. tr = a @ [EvStat False ?pid (Some (ot_root_start_ticks t))] \<and> ?P a))
        (emit (EvSignal ?pid SIGTERM)) (\<lambda>_ tr. P tr \<and> handled tr h)"
      using P by (intro spec_emit) (auto simp: lasting_def tree_ok_def handled_by_def intro: just_read_read handled_now)
    show "spec stop_events (\<lambda>tr. P tr \<and> handled tr h) (call_os p (sp_kill p ?pid SIGTERM)) (\<lambda>_ tr. P tr \<and> handled tr h)"
      by (rule spec_call_os) (intro lasting_rules lasting_mono [OF P] read_stop)+
  qed
  show ?thesis
    unfolding signal_owned_process_def
    by (rule spec_seq [OF spec_start_ticks [OF read_stop P']], rule spec_if, erule other, simp only: not_not, rule send)
qed

lemma spec_signal_owned_group:
  assumes P: "lasting stop_events P"
  shows "spec stop_events (\<lambda>tr. P tr \<and> tree_ok tr t) (signal_owned_group p t s) (\<lambda>_ tr. P tr \<and> tree_ok tr t)"
proof -
  let ?P = "\<lambda>tr. P tr \<and> tree_ok tr t" and ?pid = "ot_root_pid t"
  have P': "lasting E ?P" if "E \<subseteq> stop_events" for E by (intro lasting_rules lasting_mono [OF P] that)
  let ?F = "\<lambda>tr. ?P tr \<and> just_read tr ?pid"
  have F: "lasting (read_events {}) ?F" by (intro lasting_rules P' read_stop lasting_mono [OF P]) simp
  have send: "spec stop_events ?F (andthen (emit (EvSignalGroup ?pid s)) (call_os p (sp_killpg p ?pid s))) (\<lambda>_ tr. ?P tr)"
  proof (rule spec_then [where M = ?P])
    show "spec stop_events ?F (emit (EvSignalGroup ?pid s)) (\<lambda>_ tr. ?P tr)"
      using P' [of stop_events] by (intro spec_emit) (auto simp: lasting_def)
  qed (rule spec_call_os; intro P' read_stop)
  have group: "spec stop_events ?F (call_os p (sp_getpgid p ?pid)) (\<lambda>_. ?F)"
    by (rule spec_call_os [OF read_stop F])
  have read: "spec stop_events ?P (start_ticks p ?pid)
      (\<lambda>ticks tr. ?P tr \<and> (ticks = Some (ot_root_start_ticks t) \<longrightarrow> just_read tr ?pid))"
    by (rule spec_post [OF spec_start_ticks [OF read_stop P' [OF read_stop]]])
      (auto simp: tree_ok_def intro: just_read_read)
  show ?thesis
    unfolding signal_owned_group_def
  proof (intro spec_if spec_ret spec_seq [OF read] spec_seq [OF spec_pre [OF group]] spec_pre [OF send])
  qed auto
qed

text \<open>The processes that are still alive are just_read, each of them, until the manager reads again.\<close>

lemma spec_still_alive:
  assumes P: "lasting stop_events P"
  shows "distinct (map fst ids) \<Longrightarrow>
    spec (read_events (fst ` set ids)) (\<lambda>tr. P tr \<and> (\<forall>d \<in> set ids. recorded tr (fst d) (snd d))) (still_alive p ids)
     (\<lambda>pids tr. P tr \<and> set pids \<subseteq> fst ` set ids \<and> (\<forall>pid \<in> set pids. just_read tr pid))"
proof (induction ids)
  case (Cons d ids)
  obtain pid ticks where d: "d = (pid, ticks)" by (cases d)
  let ?E = "read_events (fst ` set (d # ids))"
  let ?P = "\<lambda>tr. P tr \<and> (\<forall>d \<in> set (d # ids). recorded tr (fst d) (snd d))"
  have P': "lasting E P" if "E \<subseteq> stop_events" for E by (rule lasting_mono [OF P that])
  have read: "spec ?E ?P (start_ticks p pid) (\<lambda>now tr. ?P tr \<and> (now = Some ticks \<longrightarrow> just_read tr pid))"
    by (rule spec_post [OF spec_start_ticks])
      (auto intro!: lasting_rules P' read_events_mono subsetD [OF read_stop] just_read_read simp: d)
  have rest: "spec ?E (\<lambda>tr. ?P tr \<and> (now = Some ticks \<longrightarrow> just_read tr pid)) (still_alive p ids)
      (\<lambda>pids tr. (P tr \<and> set pids \<subseteq> fst ` set ids \<and> (\<forall>q \<in> set pids. just_read tr q)) \<and> (now = Some ticks \<longrightarrow> just_read tr pid))" for now
  proof -
    have n: "pid \<notin> fst ` set ids" using Cons.prems by (simp add: d)
    have E: "read_events (fst ` set ids) \<subseteq> ?E" by (intro read_events_mono) auto
    have ids: "spec (read_events (fst ` set ids)) (\<lambda>tr. P tr \<and> (\<forall>d \<in> set ids. recorded tr (fst d) (snd d)))
        (still_alive p ids) (\<lambda>pids tr. P tr \<and> set pids \<subseteq> fst ` set ids \<and> (\<forall>pid \<in> set pids. just_read tr pid))"
      using Cons.IH Cons.prems by simp
    have "lasting (read_events (fst ` set ids)) (\<lambda>tr. now = Some ticks \<longrightarrow> just_read tr pid)"
      using n by (intro lasting_rules) simp
    from spec_frame [OF ids this] show ?thesis by (rule spec_weaken [OF _ E]) auto
  qed
  show ?case
    unfolding d still_alive.simps
    by (rule spec_seq [OF read [unfolded d]], rule spec_seq [OF rest [unfolded d]], rule spec_ret) (auto simp: d)
qed (auto intro: spec_ret)

lemma spec_alive:
  assumes P: "lasting stop_events P"
  shows "spec stop_events P (alive p i) (\<lambda>pids tr. P tr \<and> (\<forall>pid \<in> set pids. just_read tr pid))"
proof -
  have "spec stop_events (\<lambda>tr. P tr \<and> tree_ok tr t) (still_alive p (ot_descendants t))
      (\<lambda>pids tr. P tr \<and> (\<forall>pid \<in> set pids. just_read tr pid))" for t
  proof (rule spec_known [where c = "distinct (map fst (ot_descendants t))"])
    assume "distinct (map fst (ot_descendants t))"
    from spec_still_alive [OF P this] show "spec stop_events (\<lambda>tr. P tr \<and> tree_ok tr t)
        (still_alive p (ot_descendants t)) (\<lambda>pids tr. P tr \<and> (\<forall>pid \<in> set pids. just_read tr pid))"
      by (rule spec_weaken [OF _ read_stop]) (auto simp: tree_ok_def)
  qed (simp add: tree_ok_def)
  then show ?thesis
    unfolding alive_def
    by (intro spec_seq [OF spec_keep(3)] spec_option spec_ret) (auto elim!: spec_pre)
qed

lemma spec_kill_all:
  assumes P: "lasting stop_events P"
  shows "spec stop_events (\<lambda>tr. P tr \<and> (\<forall>pid \<in> set pids. just_read tr pid)) (kill_all p s pids) (\<lambda>_. P)"
proof -
  let ?P = "\<lambda>tr. P tr \<and> (\<forall>pid \<in> set pids. just_read tr pid)"
  let ?E = "read_events {} \<union> range (\<lambda>pid. EvSignal pid s)"
  have E: "?E \<subseteq> stop_events" using read_stop by auto
  have lE: "lasting ?E ?P" by (intro lasting_rules lasting_mono [OF P E]) auto
  have "spec ?E ?P (andthen (emit (EvSignal pid s)) (bind (call_os p (sp_kill p pid s)) (\<lambda>_. skip))) (\<lambda>_. ?P)"
    if "pid \<in> set pids" for pid
  proof (rule spec_then [where M = ?P])
    show "spec ?E ?P (emit (EvSignal pid s)) (\<lambda>_. ?P)"
      using lE that by (intro spec_emit) (auto simp: lasting_def)
    have "spec ?E ?P (call_os p (sp_kill p pid s)) (\<lambda>_. ?P)"
      by (rule spec_call_os) (auto intro: lasting_mono [OF lE])
    then show "spec ?E ?P (bind (call_os p (sp_kill p pid s)) (\<lambda>_. skip)) (\<lambda>_. ?P)"
      by (rule spec_seq) (auto intro: spec_skip)
  qed
  then have "spec ?E ?P (kill_all p s pids) (\<lambda>_. ?P)"
    unfolding kill_all_def by (intro spec_each lE) auto
  then show ?thesis by (rule spec_weaken [OF _ E]) auto
qed

lemma spec_reap_pass:
  assumes P: "lasting stop_events P"
  shows "spec stop_events P (reap_pass p i deadline) (\<lambda>r tr. case r of None \<Rightarrow> P tr | Some _ \<Rightarrow> P tr)"
proof -
  have os: "spec stop_events P (call_os p f) (\<lambda>_. P)" for f
    by (rule spec_call_os) (intro read_stop lasting_mono [OF P])+
  show ?thesis
    unfolding reap_pass_def
    by (intro spec_seq [OF spec_alive [OF P]] spec_if spec_seq [OF spec_pre [OF os]] spec_seq [OF os] spec_ret) auto
qed

lemma spec_terminate_descendants:
  assumes P: "lasting stop_events P"
  shows "spec stop_events P (terminate_descendants p i) (\<lambda>_. P)"
proof -
  have os: "spec stop_events P (call_os p f) (\<lambda>_. P)" for f
    by (rule spec_call_os) (intro read_stop lasting_mono [OF P])+
  have loop: "spec stop_events P (repeat_until (reap_pass p i deadline)) (\<lambda>_. P)" for deadline
    by (rule spec_repeat_until [OF spec_reap_pass [OF P]])
  show ?thesis
    unfolding terminate_descendants_def
    by (intro spec_then [where M = P] spec_seq [OF spec_alive [OF P]] spec_kill_all [OF P] spec_seq [OF os] loop)
qed

lemma spec_escalate:
  assumes P: "lasting stop_events P"
  shows "spec stop_events (\<lambda>tr. P tr \<and> tree_ok tr t \<and> was_spawned tr h \<and> ot_root_pid t = po_pid h)
     (escalate p h t timeout_s) (\<lambda>_ tr. P tr \<and> handled tr h)"
proof -
  let ?P = "\<lambda>tr. P tr \<and> tree_ok tr t \<and> was_spawned tr h \<and> ot_root_pid t = po_pid h"
  let ?H = "\<lambda>tr. P tr \<and> handled tr h"
  have lP: "lasting stop_events ?P" and lH: "lasting stop_events (\<lambda>tr. ?H tr)" and lT: "lasting stop_events (\<lambda>tr. tree_ok tr t)"
    by (intro lasting_rules P)+
  have wait: "spec stop_events (\<lambda>tr. ?H tr \<and> tree_ok tr t) (wait p h timeout) (\<lambda>_ tr. ?H tr \<and> tree_ok tr t)" for timeout
    unfolding wait_def by (rule spec_call_os) (intro read_stop lasting_rules lasting_mono [OF P])+
  have sent: "spec stop_events (\<lambda>tr. ?P tr) (signal_owned_process p t SIGTERM) (\<lambda>_ tr. ?H tr \<and> tree_ok tr t)"
    using spec_frame [OF spec_signal_owned_process [OF P, of t h p] lT] by (rule spec_weaken) auto
  note group = spec_signal_owned_group [OF lH, of t p]
  have polled: "spec stop_events ?P (poll p h) (\<lambda>code tr. ?P tr \<and> (code \<noteq> None \<longrightarrow> handled tr h))"
    by (rule spec_post [OF spec_poll [OF read_stop lP]]) (auto simp: handled_by_def intro!: handled_now)
  show ?thesis
    unfolding escalate_def
    by (intro spec_seq [OF polled] spec_if spec_skip spec_seq [OF spec_pre [OF sent]] spec_seq [OF wait]
        spec_seq [OF group]) auto
qed

lemma spec_identify:
  assumes P: "lasting stop_events P" and w: "\<And>h. watcher = Some h \<Longrightarrow> po_pid h = pid"
  shows "spec stop_events (\<lambda>tr. P tr \<and> owned tr pid \<and> recorded tr pid ticks) (identify p pid ticks watcher)
     (\<lambda>t tr. P tr \<and> tree_ok tr t \<and> ot_root_pid t = pid)"
proof -
  let ?P = "\<lambda>tr. P tr \<and> owned tr pid \<and> recorded tr pid ticks"
  have os: "spec stop_events ?P (call_os p f) (\<lambda>_. ?P)" for f
    by (rule spec_call_os) (intro read_stop lasting_rules lasting_mono [OF P])+
  have P': "lasting stop_events (\<lambda>tr. P tr \<and> recorded tr pid ticks)" by (intro lasting_rules P)
  show ?thesis
    unfolding identify_def
    by (intro spec_seq [OF os] spec_seq [OF spec_pre [OF spec_descendant_identities [OF walk_stop P']]] spec_ret)
      (auto simp: tree_ok_def walk_ok_def w)
qed

text \<open>A read start time of an owned process is on record.\<close>

lemma spec_read_identity:
  assumes P: "lasting stop_events P"
  shows "spec stop_events (\<lambda>tr. P tr \<and> owned tr pid) (start_ticks p pid)
     (\<lambda>ticks tr. P tr \<and> owned tr pid \<and> (\<forall>t. ticks = Some t \<longrightarrow> recorded tr pid t)
        \<and> (\<exists>a. tr = a @ [EvStat False pid ticks] \<and> P a \<and> owned a pid))"
proof -
  have "lasting (read_events {pid}) (\<lambda>tr. P tr \<and> owned tr pid)" by (intro lasting_rules lasting_mono [OF P] read_stop)
  from spec_start_ticks [OF read_stop this] show ?thesis
    by (rule spec_post) (auto intro: recorded_read)
qed

lemma spec_register_process_tree:
  assumes P: "lasting stop_events P"
  shows "spec stop_events (\<lambda>tr. P tr \<and> owned tr (po_pid h)) (register_process_tree p h) (\<lambda>_. P)"
  unfolding register_process_tree_def
proof (rule spec_seq [OF spec_read_identity [OF P]], rule spec_option)
  fix ticks and t :: string
  assume t: "ticks = Some t"
  have "spec stop_events (\<lambda>tr. P tr \<and> owned tr (po_pid h) \<and> recorded tr (po_pid h) t)
      (bind (identify p (po_pid h) t (Some h)) register_tree) (\<lambda>_. P)"
    by (rule spec_seq [OF spec_identify [OF P]]) (auto intro: spec_register_tree)
  then show "spec stop_events (\<lambda>tr. P tr \<and> owned tr (po_pid h) \<and> (\<forall>t. ticks = Some t \<longrightarrow> recorded tr (po_pid h) t)
      \<and> (\<exists>a. tr = a @ [EvStat False (po_pid h) ticks] \<and> P a \<and> owned a (po_pid h)))
      (bind (identify p (po_pid h) t (Some h)) register_tree) (\<lambda>_. P)"
    by (rule spec_pre) (simp add: t)
qed (auto intro: spec_skip)

lemma spec_refresh:
  assumes P: "lasting stop_events P"
  shows "spec stop_events (\<lambda>tr. P tr \<and> owned tr (po_pid h)) (refresh_descendants p h i t) (\<lambda>_. P)"
  unfolding refresh_descendants_def
  by (intro spec_seq [OF spec_read_identity [OF P]] spec_if spec_skip
      spec_seq [OF spec_pre [OF spec_descendant_identities [OF walk_stop P]]] spec_set_tree)
    (auto intro: tree_ok_update)

lemma spec_release:
  assumes P: "lasting stop_events P"
  shows "spec stop_events (\<lambda>tr. P tr \<and> was_spawned tr h) (release_process_tree p h)
     (\<lambda>o' tr. P tr \<and> was_spawned tr h \<and>
        (case o' of None \<Rightarrow> handled tr h | Some (i, t) \<Rightarrow> tree_ok tr t \<and> ot_root_pid t = po_pid h))"
proof -
  let ?P = "\<lambda>tr. P tr \<and> was_spawned tr h"
  let ?Q = "\<lambda>o' tr. P tr \<and> was_spawned tr h \<and> (case o' of None \<Rightarrow> handled tr h | Some (i, t) \<Rightarrow> tree_ok tr t \<and> ot_root_pid t = po_pid h)"
  have P': "lasting stop_events ?P" by (intro lasting_rules P)
  have new: "spec stop_events ?P (bind (start_ticks p (po_pid h)) (\<lambda>ticks. case ticks of
           None \<Rightarrow> ret None
         | Some ticks \<Rightarrow> bind (identify p (po_pid h) ticks None) (\<lambda>t. bind (new_tree t) (\<lambda>o'. ret (Some o'))))) ?Q"
  proof (rule spec_seq [OF spec_pre [OF spec_read_identity [OF P']]], simp add: was_spawned_owned, rule spec_option)
    fix ticks and t :: string
    assume t: "ticks = Some t"
    have "spec stop_events (\<lambda>tr. ?P tr \<and> owned tr (po_pid h) \<and> recorded tr (po_pid h) t)
        (bind (identify p (po_pid h) t None) (\<lambda>t. bind (new_tree t) (\<lambda>o'. ret (Some o')))) ?Q"
    proof (rule spec_seq [OF spec_identify [OF P']], simp)
      show "spec stop_events (\<lambda>tr. ?P tr \<and> tree_ok tr t \<and> ot_root_pid t = po_pid h)
          (bind (new_tree t) (\<lambda>o'. ret (Some o'))) ?Q" for t
        by (rule spec_seq [where M = "\<lambda>o' tr. ?Q (Some o') tr"], rule spec_new_tree) (auto intro: spec_ret)
    qed
    then show "spec stop_events (\<lambda>tr. ?P tr \<and> owned tr (po_pid h) \<and> (\<forall>t. ticks = Some t \<longrightarrow> recorded tr (po_pid h) t)
        \<and> (\<exists>a. tr = a @ [EvStat False (po_pid h) ticks] \<and> ?P a \<and> owned a (po_pid h)))
        (bind (identify p (po_pid h) t None) (\<lambda>t. bind (new_tree t) (\<lambda>o'. ret (Some o')))) ?Q"
      by (rule spec_pre) (simp add: t)
  qed (rule spec_ret, auto simp: handled_by_def intro!: handled_now)
  have old: "spec stop_events (\<lambda>tr. ?P tr \<and> tree_ok tr t \<and> ot_root_pid t = po_pid h)
      (andthen (refresh_descendants p h i t) (andthen (set_tree i (\<lambda>t. t\<lparr>ot_stop_watcher := True\<rparr>))
             (andthen (watchers p) (andthen (unregister h i) (ret (Some (i, t))))))) ?Q" for i t
  proof -
    let ?T = "\<lambda>tr. ?P tr \<and> tree_ok tr t \<and> ot_root_pid t = po_pid h"
    have T: "lasting stop_events ?T" by (intro lasting_rules P)
    have watch: "spec stop_events ?T (watchers p) (\<lambda>_. ?T)"
      by (rule spec_weaken [OF spec_watchers [OF lasting_mono [OF T read_stop]] read_stop]) simp_all
    show ?thesis
      by (intro spec_then [where M = ?T] spec_pre [OF spec_refresh [OF T]] spec_set_tree watch spec_unregister spec_ret)
        (auto simp: was_spawned_owned tree_ok_def)
  qed
  show ?thesis
    unfolding release_process_tree_def
  proof (rule spec_seq [OF spec_registered [where Q = "\<lambda>o' tr. ?P tr \<and>
      (\<forall>i t. o' = Some (i, t) \<longrightarrow> tree_ok tr t \<and> ot_root_pid t = po_pid h)"]], simp, rule spec_option)
    fix o' and it :: "nat \<times> OwnedProcessTree"
    assume o: "o' = Some it"
    obtain i t where it: "it = (i, t)" by (cases it)
    show "spec stop_events (\<lambda>tr. ?P tr \<and> (\<forall>i t. o' = Some (i, t) \<longrightarrow> tree_ok tr t \<and> ot_root_pid t = po_pid h))
      (case it of (i, t) \<Rightarrow> andthen (refresh_descendants p h i t) (andthen (set_tree i (\<lambda>t. t\<lparr>ot_stop_watcher := True\<rparr>))
             (andthen (watchers p) (andthen (unregister h i) (ret (Some (i, t))))))) ?Q"
      unfolding it prod.case by (rule spec_pre [OF old]) (simp add: o it)
  qed (rule spec_pre [OF new], simp)
qed

lemma spec_stop_process_tree:
  assumes P: "lasting stop_events P"
  shows "spec stop_events (\<lambda>tr. P tr \<and> (\<forall>h. process = Some h \<longrightarrow> was_spawned tr h)) (stop_process_tree p process timeout_s)
     (\<lambda>_ tr. P tr \<and> (\<forall>h. process = Some h \<longrightarrow> handled tr h))"
proof (cases process)
  case None
  then show ?thesis by (auto simp: stop_process_tree_def intro: spec_skip)
next
  case (Some h)
  have H: "lasting stop_events (\<lambda>tr. P tr \<and> handled tr h)" by (intro lasting_rules P)
  have stop: "spec stop_events (\<lambda>tr. P tr \<and> tree_ok tr t \<and> was_spawned tr h \<and> ot_root_pid t = po_pid h)
      (ensure (escalate p h t timeout_s) (terminate_descendants p i)) (\<lambda>_ tr. P tr \<and> handled tr h)" for i t
    by (rule spec_ensure [OF spec_escalate [OF P] spec_terminate_descendants [OF H]])
  have "spec stop_events (\<lambda>tr. P tr \<and> was_spawned tr h) (stop_process_tree p (Some h) timeout_s) (\<lambda>_ tr. P tr \<and> handled tr h)"
    unfolding stop_process_tree_def option.case
  proof (rule spec_seq [OF spec_release [OF P]], rule spec_option)
    fix o' and it :: "nat \<times> OwnedProcessTree"
    assume o: "o' = Some it"
    obtain i t where it: "it = (i, t)" by (cases it)
    show "spec stop_events (\<lambda>tr. P tr \<and> was_spawned tr h \<and>
        (case o' of None \<Rightarrow> handled tr h | Some (i, t) \<Rightarrow> tree_ok tr t \<and> ot_root_pid t = po_pid h))
        (case it of (i, t) \<Rightarrow> ensure (escalate p h t timeout_s) (terminate_descendants p i)) (\<lambda>_ tr. P tr \<and> handled tr h)"
      unfolding it prod.case by (rule spec_pre [OF stop]) (simp add: o it)
  qed (rule spec_skip, auto)
  then show ?thesis unfolding Some by (rule spec_weaken) auto
qed

end
