(* ===== verification/Stage_Lifecycle.thy ===== *)
theory Stage_Lifecycle
  imports Stage_Ownership
begin

text \<open>
  The operations of \<open>stage_process_manager.py\<close> in any order: every process that was spawned has a handle or
  has been dealt with, signals go to recorded processes only, and after a shutdown nothing starts.
\<close>

section \<open>Handles\<close>

fun is_start :: "os_event \<Rightarrow> bool" where
  "is_start (EvSpawn c h) = True"
| "is_start (EvRun c) = True"
| "is_start _ = False"

definition held :: "StageProcessManager \<Rightarrow> Popen set" where
  "held m = {h. Some h \<in> {sm_base_process m, sm_stage_process m, sm_explorer_process m, sm_map_save_process m}}"

text \<open>Every process that was ever spawned has a handle, is in \<open>H\<close>, or has been dealt with. A manager of dry
  runs spawns nothing, and with \<open>s = Some evs\<close> the manager is shut down and has started nothing but \<open>evs\<close>.\<close>

definition covered :: "os_event list option \<Rightarrow> Popen set \<Rightarrow> 'e stage_world \<Rightarrow> bool" where
  "covered s H w \<longleftrightarrow> (\<forall>h \<in> held (sw_manager w) \<union> H. was_spawned (sw_trace w) h)
     \<and> (\<forall>h. was_spawned (sw_trace w) h \<longrightarrow> h \<in> held (sw_manager w) \<union> H \<or> handled (sw_trace w) h)
     \<and> (sm_dry_run (sw_manager w) \<longrightarrow> (\<forall>h. \<not> was_spawned (sw_trace w) h))
     \<and> (\<forall>evs. s = Some evs \<longrightarrow> sm_shutdown (sw_manager w) \<and> filter is_start (sw_trace w) = evs)"

text \<open>The manager as it was read, but for its registry.\<close>

definition same :: "StageProcessManager \<Rightarrow> 'e stage_world \<Rightarrow> bool" where
  "same m w \<longleftrightarrow> (\<exists>d. sw_manager w = m\<lparr>sm_owned := d\<rparr>)"

text \<open>Facts that the steps below the lifecycle keep.\<close>

definition kept :: "('e stage_world \<Rightarrow> bool) \<Rightarrow> bool" where
  "kept K \<longleftrightarrow> (\<forall>w w'. K w \<longrightarrow> did stop_events w w' \<longrightarrow> K w')"

lemma held_owned [simp]: "held (m\<lparr>sm_owned := d\<rparr>) = held m"
  by (simp add: held_def)

lemma did_stop_trace:
  assumes "did stop_events w w'"
  shows "was_spawned (sw_trace w') h \<longleftrightarrow> was_spawned (sw_trace w) h"
    "filter is_start (sw_trace w') = filter is_start (sw_trace w)"
    "handled (sw_trace w) h \<Longrightarrow> handled (sw_trace w') h"
proof -
  obtain new where new: "sw_trace w' = sw_trace w @ new" "set new \<subseteq> stop_events" using assms by (auto simp: did_def)
  have "\<not> is_start ev" if "ev \<in> set new" for ev using new(2) that by (cases ev) auto
  then have "filter is_start new = []" by (simp add: filter_empty_conv)
  moreover have "EvSpawn c h \<notin> set new" for c using new(2) by auto
  ultimately show "was_spawned (sw_trace w') h \<longleftrightarrow> was_spawned (sw_trace w) h"
      "filter is_start (sw_trace w') = filter is_start (sw_trace w)"
      "handled (sw_trace w) h \<Longrightarrow> handled (sw_trace w') h"
    by (auto simp: new(1) was_spawned_def handled_append)
qed

lemma kept_covered: "kept (covered s H)"
  unfolding kept_def
proof (intro allI impI)
  fix w w' assume c: "covered s H w" and d: "did stop_events w w'"
  then obtain o' where "sw_manager w' = (sw_manager w)\<lparr>sm_owned := o'\<rparr>" by (auto simp: did_def)
  then show "covered s H w'" using c did_stop_trace [OF d] by (auto simp: covered_def)
qed

text \<open>Facts about the manager alone.\<close>

definition of_manager :: "(StageProcessManager \<Rightarrow> bool) \<Rightarrow> 'e stage_world \<Rightarrow> bool" where
  "of_manager M w \<longleftrightarrow> M (sw_manager w) \<and> (\<forall>d. M ((sw_manager w)\<lparr>sm_owned := d\<rparr>))"

lemma kept_of_manager: "kept (of_manager M)"
  unfolding kept_def of_manager_def did_def by auto

lemma of_manager_conj: "of_manager M w \<and> of_manager N w \<longleftrightarrow> of_manager (\<lambda>m. M m \<and> N m) w"
  by (auto simp: of_manager_def)

lemma of_manager_mono: "of_manager M w \<Longrightarrow> (\<And>m. M m \<Longrightarrow> N m) \<Longrightarrow> of_manager N w"
  by (auto simp: of_manager_def)

definition once :: "StageProcessManager \<Rightarrow> bool" where
  "once m \<longleftrightarrow> (sm_base_process m \<noteq> None \<longrightarrow> sm_base_started_once m)"

definition base_ok :: "'e stage_world \<Rightarrow> bool" where
  "base_ok = of_manager once"

lemma kept_base_ok: "kept base_ok"
  unfolding base_ok_def by (rule kept_of_manager)

lemma kept_same: "kept (same m)"
  unfolding kept_def same_def did_def by auto

lemma kept_conj: "kept K \<Longrightarrow> kept L \<Longrightarrow> kept (\<lambda>w. K w \<and> L w)"
  by (auto simp: kept_def)

lemma kept_trace: "lasting stop_events P \<Longrightarrow> kept (\<lambda>w. P (sw_trace w))"
  unfolding kept_def by (blast dest: lastingD)

lemmas kept_rules = kept_covered kept_of_manager kept_base_ok kept_same kept_conj kept_trace lasting_handled

lemma spec_triple:
  assumes "spec stop_events P m Q" "kept K"
  shows "triple (\<lambda>w. sound w \<and> K w \<and> P (sw_trace w)) m (\<lambda>x w. sound w \<and> K w \<and> Q x (sw_trace w)) R"
  unfolding triple_def
proof (intro allI impI)
  fix w assume w: "sound w \<and> K w \<and> P (sw_trace w)"
  show "case m w of None \<Rightarrow> True | Some (Inl e, w') \<Rightarrow> R e w' | Some (Inr x, w') \<Rightarrow> sound w' \<and> K w' \<and> Q x (sw_trace w')"
  proof (cases "m w")
    case (Some y)
    then obtain r w' where m: "m w = Some (r, w')" by (cases y) auto
    from specD [OF assms(1) _ _ m] w obtain x where "r = Inr x" "did stop_events w w'" "Q x (sw_trace w')" by metis
    then show ?thesis using m w assms(2) did_sound unfolding kept_def by auto
  qed simp
qed

section \<open>Steps of the lifecycle\<close>

lemma manager_triple: "triple (\<lambda>w. Q (f (sw_manager w)) w) (manager f) Q R"
  by (auto simp: triple_def manager_def query_def)

lemma set_manager_triple: "triple (\<lambda>w. Q () (w\<lparr>sw_manager := f (sw_manager w)\<rparr>)) (set_manager f) Q R"
  by (auto simp: triple_def set_manager_def modify_def)

lemma os_triple: "kept K \<Longrightarrow> triple (\<lambda>w. sound w \<and> K w) (call_os p f) (\<lambda>_ w. sound w \<and> K w) R"
  using spec_triple [OF spec_call_os [where P = "\<lambda>_. True", OF read_stop], of K p f R]
  by (simp add: lasting_const)

lemma poll_triple:
  assumes K: "kept K"
  shows "triple (\<lambda>w. sound w \<and> K w \<and> was_spawned (sw_trace w) h) (poll p h)
    (\<lambda>code w. sound w \<and> K w \<and> (code \<noteq> None \<longrightarrow> handled (sw_trace w) h)) R"
proof -
  have "spec stop_events (\<lambda>tr. was_spawned tr h) (poll p h) (\<lambda>code tr. code \<noteq> None \<longrightarrow> handled tr h)"
    by (rule spec_post [OF spec_poll [OF read_stop lasting_handled(2)]])
      (auto simp: handled_by_def intro!: handled_now)
  from spec_triple [OF this K, where R = R] show ?thesis .
qed

lemma stop_triple:
  assumes "kept K"
  shows "triple (\<lambda>w. sound w \<and> K w \<and> (\<forall>h. process = Some h \<longrightarrow> was_spawned (sw_trace w) h)) (stop_process_tree p process timeout_s)
    (\<lambda>_ w. sound w \<and> K w \<and> (\<forall>h. process = Some h \<longrightarrow> handled (sw_trace w) h)) R"
  using spec_triple [OF spec_stop_process_tree [where P = "\<lambda>_. True", OF lasting_const] assms] by simp

lemma register_triple:
  assumes "kept K"
  shows "triple (\<lambda>w. sound w \<and> K w \<and> was_spawned (sw_trace w) h) (register_process_tree p h) (\<lambda>_ w. sound w \<and> K w) R"
  using spec_triple [OF spec_register_process_tree [where P = "\<lambda>_. True", OF lasting_const] assms, of h p R]
  by (rule triple_weaken) (auto simp: was_spawned_owned)

text \<open>A start adds an event that no earlier fact depends on.\<close>

lemma spawned_irrelevant [simp]:
  "sound (w\<lparr>sw_spawned := n\<rparr>) \<longleftrightarrow> sound w" "covered s H (w\<lparr>sw_spawned := n\<rparr>) \<longleftrightarrow> covered s H w"
  by (simp_all add: sound_def covered_def)

lemma sound_start:
  assumes "sound w" "is_start ev"
  shows "sound (w\<lparr>sw_trace := sw_trace w @ [ev]\<rparr>)"
proof -
  have "signalled ev = None" using assms(2) by (cases ev) auto
  then show ?thesis using assms(1) verified_append [of "sw_trace w" "[ev]"] by (auto simp: sound_def tree_ok_append)
qed

lemma was_spawned_snoc: "was_spawned (tr @ [ev]) h \<longleftrightarrow> was_spawned tr h \<or> (\<exists>c. ev = EvSpawn c h)"
  by (auto simp: was_spawned_def)

lemma covered_spawn:
  assumes "covered None H w" "\<not> sm_dry_run (sw_manager w)"
  shows "covered None (insert h H) (w\<lparr>sw_trace := sw_trace w @ [EvSpawn c h]\<rparr>)"
  using assms by (auto simp: covered_def was_spawned_snoc handled_append)

lemma covered_run:
  "covered None H w \<Longrightarrow> covered None H (w\<lparr>sw_trace := sw_trace w @ [EvRun c]\<rparr>)"
  by (auto simp: covered_def was_spawned_snoc handled_append)

lemma spawn_triple:
  assumes "\<And>m. M m \<Longrightarrow> \<not> sm_dry_run m" and T: "lasting UNIV T"
  shows "triple (\<lambda>w. sound w \<and> covered None H w \<and> of_manager M w \<and> T (sw_trace w)) (spawn p c)
     (\<lambda>h w. sound w \<and> covered None (insert h H) w \<and> of_manager M w \<and> T (sw_trace w) \<and> was_spawned (sw_trace w) h)
     (\<lambda>_ w. sound w \<and> covered None H w \<and> of_manager M w \<and> T (sw_trace w))"
proof -
  let ?K = "\<lambda>w. covered None H w \<and> of_manager M w \<and> T (sw_trace w)"
  let ?R = "\<lambda>_ w. sound w \<and> covered None H w \<and> of_manager M w \<and> T (sw_trace w)"
  have K: "kept ?K" by (intro kept_rules lasting_mono [OF T]) simp
  have lift: "triple (\<lambda>w. sound w \<and> ?K w) (lift_result r) (\<lambda>_ w. sound w \<and> ?K w) ?R" for r :: "int result"
    by (rule triple_pre [OF triple_lift_result]) (auto split: sum.splits)
  have tail: "triple (\<lambda>w. sound w \<and> ?K w)
      (bind (query (\<lambda>w. (\<lparr>po_serial = sw_spawned w, po_pid = pid\<rparr>, w\<lparr>sw_spawned := sw_spawned w + 1\<rparr>))) (\<lambda>h.
         andthen (emit (EvSpawn c h)) (ret h)))
      (\<lambda>h w. sound w \<and> covered None (insert h H) w \<and> of_manager M w \<and> T (sw_trace w) \<and> was_spawned (sw_trace w) h) ?R" for pid
    unfolding triple_def
  proof (intro allI impI)
    fix w assume w: "sound w \<and> ?K w"
    let ?h = "\<lparr>po_serial = sw_spawned w, po_pid = pid\<rparr>"
    let ?w = "w\<lparr>sw_spawned := Suc (sw_spawned w), sw_trace := sw_trace w @ [EvSpawn c ?h]\<rparr>"
    have "\<not> sm_dry_run (sw_manager w)" using w assms by (auto simp: of_manager_def)
    then have "covered None (insert ?h H) ?w" using w covered_spawn [where H = H and w = "w\<lparr>sw_spawned := Suc (sw_spawned w)\<rparr>" and c = c and h = ?h] by simp
    moreover have "sound ?w" using w sound_start [of "w\<lparr>sw_spawned := Suc (sw_spawned w)\<rparr>" "EvSpawn c ?h"] by simp
    moreover have "of_manager M ?w \<and> T (sw_trace ?w)" using w T by (simp add: of_manager_def lasting_def)
    moreover have "was_spawned (sw_trace ?w) ?h" by (auto simp: was_spawned_def)
    ultimately show "case bind (query (\<lambda>w. (\<lparr>po_serial = sw_spawned w, po_pid = pid\<rparr>, w\<lparr>sw_spawned := sw_spawned w + 1\<rparr>))) (\<lambda>h.
         andthen (emit (EvSpawn c h)) (ret h)) w of None \<Rightarrow> True | Some (Inl e, w') \<Rightarrow> ?R e w'
       | Some (Inr h, w') \<Rightarrow> sound w' \<and> covered None (insert h H) w' \<and> of_manager M w' \<and> T (sw_trace w') \<and> was_spawned (sw_trace w') h"
      by (simp add: bind_def query_def andthen_def emit_def modify_def ret_def)
  qed
  show ?thesis
    unfolding spawn_def
    by (rule triple_bind [OF os_triple [OF K]], rule triple_bind [OF lift tail])
qed

lemma run_command_triple:
  "triple (\<lambda>w. sound w \<and> covered None H w \<and> of_manager M w) (run_command p c)
     (\<lambda>_ w. sound w \<and> covered None H w \<and> of_manager M w) (\<lambda>_ w. sound w \<and> covered None H w \<and> of_manager M w)"
proof -
  let ?K = "\<lambda>w. covered None H w \<and> of_manager M w"
  have K: "kept ?K" by (intro kept_conj kept_covered kept_of_manager)
  have "triple (\<lambda>w. sound w \<and> ?K w) (emit (EvRun c)) (\<lambda>_ w. sound w \<and> ?K w) R" for R :: "exn \<Rightarrow> 'a stage_world \<Rightarrow> bool"
    unfolding triple_def
  proof (intro allI impI)
    fix w :: "'a stage_world" assume w: "sound w \<and> ?K w"
    then show "case emit (EvRun c) w of None \<Rightarrow> True | Some (Inl e, w') \<Rightarrow> R e w' | Some (Inr x, w') \<Rightarrow> sound w' \<and> ?K w'"
      using sound_start [of w "EvRun c"] covered_run [where H = H and w = w and c = c]
      by (simp add: emit_def modify_def of_manager_def)
  qed
  then show ?thesis
    unfolding run_command_def
    by (rule triple_andthen, intro triple_bind [OF os_triple [OF K]] triple_pre [OF triple_lift_result])
      (auto split: sum.splits)
qed

section \<open>Operations\<close>

text \<open>The state in the middle of an operation, with the facts \<open>K\<close> it relies on, and the rules of its steps.\<close>

definition during :: "os_event list option \<Rightarrow> Popen set \<Rightarrow> ('e stage_world \<Rightarrow> bool) \<Rightarrow> 'e stage_world \<Rightarrow> bool" where
  "during s H K w \<longleftrightarrow> sound w \<and> covered s H w \<and> K w"

lemma during_os: "kept K \<Longrightarrow> triple (during s H K) (call_os p f) (\<lambda>_. during s H K) R"
  unfolding during_def by (intro os_triple kept_conj kept_covered)

lemma during_poll:
  assumes "kept K" "\<And>w. during s H K w \<Longrightarrow> was_spawned (sw_trace w) h"
  shows "triple (during s H K) (poll p h) (\<lambda>code. during s H (\<lambda>w. K w \<and> (code \<noteq> None \<longrightarrow> handled (sw_trace w) h))) R"
  using poll_triple [where h = h and p = p and R = R, OF kept_conj [OF kept_covered [of s H] assms(1)]] assms(2)
  by (elim triple_weaken) (auto simp: during_def)

lemma during_stop:
  assumes "kept K" "\<And>w h. during s H K w \<Longrightarrow> process = Some h \<Longrightarrow> was_spawned (sw_trace w) h"
  shows "triple (during s H K) (stop_process_tree p process timeout_s)
     (\<lambda>_. during s H (\<lambda>w. K w \<and> (\<forall>h. process = Some h \<longrightarrow> handled (sw_trace w) h))) R"
  using stop_triple [where process = process and p = p and timeout_s = timeout_s and R = R, OF kept_conj [OF kept_covered [of s H] assms(1)]] assms(2)
  by (elim triple_weaken) (auto simp: during_def)

lemma during_register:
  assumes "kept K" "h \<in> H \<or> (\<forall>w. K w \<longrightarrow> h \<in> held (sw_manager w))"
  shows "triple (during s H K) (register_process_tree p h) (\<lambda>_. during s H K) R"
  using register_triple [where h = h and p = p and R = R, OF kept_conj [OF kept_covered [of s H] assms(1)]] assms(2)
  by (elim triple_weaken) (auto simp: during_def covered_def)

lemma during_spawn:
  "(\<And>m. M m \<Longrightarrow> \<not> sm_dry_run m) \<Longrightarrow> lasting UNIV T \<Longrightarrow>
     triple (during None H (\<lambda>w. of_manager M w \<and> T (sw_trace w))) (spawn p c)
       (\<lambda>h. during None (insert h H) (\<lambda>w. of_manager M w \<and> T (sw_trace w)))
       (\<lambda>_. during None H (\<lambda>w. of_manager M w \<and> T (sw_trace w)))"
  unfolding during_def by (rule triple_weaken [OF spawn_triple]) auto

lemma during_run:
  "triple (during None H (of_manager M)) (run_command p c) (\<lambda>_. during None H (of_manager M))
     (\<lambda>_. during None H (of_manager M))"
  unfolding during_def by (rule run_command_triple)

lemma during_read:
  "(\<And>m d. f (m\<lparr>sm_owned := d\<rparr>) = f m) \<Longrightarrow>
     triple (during s H K) (manager f) (\<lambda>x. during s H (\<lambda>w. K w \<and> of_manager (\<lambda>m. f m = x) w)) R"
  by (rule triple_pre [OF manager_triple]) (auto simp: during_def of_manager_def)

lemma same_refl: "same (sw_manager w) w"
  unfolding same_def by (rule exI [of _ "sm_owned (sw_manager w)"]) simp

lemma during_read_all: "triple (during s H K) (manager id) (\<lambda>m. during s H (\<lambda>w. K w \<and> same m w)) R"
  by (rule triple_pre [OF manager_triple]) (auto simp: during_def same_refl)

lemma during_set:
  "(\<And>w. during s H K w \<Longrightarrow> during s' H' K' (w\<lparr>sw_manager := f (sw_manager w)\<rparr>)) \<Longrightarrow>
     triple (during s H K) (set_manager f) (\<lambda>_. during s' H' K') R"
  by (rule triple_pre [OF set_manager_triple])

lemma during_mono: "during s H K w \<Longrightarrow> (\<And>w. K w \<Longrightarrow> K' w) \<Longrightarrow> during s H K' w"
  by (auto simp: during_def)

lemma triple_post:
  "triple P m Q R \<Longrightarrow> (\<And>x w. Q x w \<Longrightarrow> Q' x w) \<Longrightarrow> (\<And>e w. R e w \<Longrightarrow> R' e w) \<Longrightarrow> triple P m Q' R'"
  by (rule triple_weaken)

lemma triple_option:
  "(o' = None \<Longrightarrow> triple P m Q R) \<Longrightarrow> (\<And>x. o' = Some x \<Longrightarrow> triple P (k x) Q R) \<Longrightarrow>
     triple P (case o' of None \<Rightarrow> m | Some x \<Rightarrow> k x) Q R"
  by (cases o') auto

lemma same_held: "same m w \<Longrightarrow> held (sw_manager w) = held m"
  by (auto simp: same_def)

lemma heldI [simp]:
  "sm_base_process m = Some h \<Longrightarrow> h \<in> held m" "sm_stage_process m = Some h \<Longrightarrow> h \<in> held m"
  "sm_explorer_process m = Some h \<Longrightarrow> h \<in> held m" "sm_map_save_process m = Some h \<Longrightarrow> h \<in> held m"
  by (simp_all add: held_def)

text \<open>Between two operations.\<close>

definition calm :: "os_event list option \<Rightarrow> 'e stage_world \<Rightarrow> bool" where
  "calm s = during s {} base_ok"

lemma require_open_during:
  "triple (during s H K) require_open (\<lambda>_ w. s = None \<and> during None H K w) (\<lambda>_. during s H K)"
  unfolding require_open_def
  by (rule triple_bind [OF during_read], simp, rule triple_pre [OF triple_guard])
    (auto simp: during_def covered_def of_manager_def)

lemma base_is_live_during:
  assumes K: "kept K"
  shows "triple (during s H K) (base_is_live p) (\<lambda>_. during s H K) R"
  unfolding base_is_live_def
proof (rule triple_bind [OF during_read_all])
  fix m
  let ?I = "during s H (\<lambda>w. K w \<and> same m w)"
  have ret: "triple ?I (ret b) (\<lambda>_. during s H K) R" for b
    by (rule triple_pre [OF triple_ret]) (auto simp: during_def)
  have "triple ?I (bind (poll p h) (\<lambda>code. ret (code = None))) (\<lambda>_. during s H K) R" if "sm_base_process m = Some h" for h
  proof (rule triple_bind [OF during_poll])
    show "kept (\<lambda>w. K w \<and> same m w)" by (intro kept_conj K kept_same)
    show "was_spawned (sw_trace w) h" if "?I w" for w
      using that \<open>sm_base_process m = Some h\<close> by (auto simp: during_def covered_def same_held)
    show "triple (during s H (\<lambda>w. (K w \<and> same m w) \<and> (code \<noteq> None \<longrightarrow> handled (sw_trace w) h))) (ret (code = None)) (\<lambda>_. during s H K) R" for code
      by (rule triple_pre [OF triple_ret]) (auto simp: during_def)
  qed
  then show "triple ?I (if sm_dry_run m then ret (sm_dry_run_base_live m)
      else case sm_base_process m of None \<Rightarrow> ret False | Some h \<Rightarrow> bind (poll p h) (\<lambda>code. ret (code = None))) (\<lambda>_. during s H K) R"
    using ret by (auto split: option.split)
qed

lemma triple_cond:
  "(b \<Longrightarrow> triple P m Q R) \<Longrightarrow> (\<not> b \<Longrightarrow> triple P n Q R) \<Longrightarrow> triple P (if b then m else n) Q R"
  by simp

lemma during_ret: "(\<And>w. K w \<Longrightarrow> K' w) \<Longrightarrow> triple (during s H K) (ret x) (\<lambda>_. during s H K') R"
  by (rule triple_pre [OF triple_ret]) (auto simp: during_def)

lemma during_skip: "(\<And>w. K w \<Longrightarrow> K' w) \<Longrightarrow> triple (during s H K) skip (\<lambda>_. during s H K') R"
  unfolding skip_def by (rule during_ret)

lemma during_raise: "(\<And>w. K w \<Longrightarrow> K' w) \<Longrightarrow> triple (during s H K) (raise e) Q (\<lambda>_. during s H K')"
  by (rule triple_pre [OF triple_raise]) (auto simp: during_def)

lemma during_guard:
  "(\<And>w. c \<Longrightarrow> K w \<Longrightarrow> K' w) \<Longrightarrow> (\<And>w. \<not> c \<Longrightarrow> K w \<Longrightarrow> L w) \<Longrightarrow>
     triple (during s H K) (guard c e) (\<lambda>_. during s H K') (\<lambda>_. during s H L)"
  by (rule triple_pre [OF triple_guard]) (auto simp: during_def)

lemma during_pre: "triple (during s H K) m Q R \<Longrightarrow> (\<And>w. K' w \<Longrightarrow> K w) \<Longrightarrow> triple (during s H K') m Q R"
  by (erule triple_pre) (auto simp: during_def)

lemma during_post:
  "triple P m (\<lambda>_. during s H K) R \<Longrightarrow> (\<And>w. K w \<Longrightarrow> K' w) \<Longrightarrow> triple P m (\<lambda>_. during s H K') R"
  by (erule triple_post) (auto simp: during_def)

lemma during_errors:
  "triple P m Q (\<lambda>_. during s H K) \<Longrightarrow> (\<And>w. K w \<Longrightarrow> K' w) \<Longrightarrow> triple P m Q (\<lambda>_. during s H K')"
  by (erule triple_post) (auto simp: during_def)

text \<open>A handle of the manager that was read is spawned.\<close>

lemma poll_held:
  assumes "kept K" "h \<in> held m"
  shows "triple (during s H (\<lambda>w. K w \<and> same m w)) (poll p h)
     (\<lambda>code. during s H (\<lambda>w. (K w \<and> same m w) \<and> (code \<noteq> None \<longrightarrow> handled (sw_trace w) h))) R"
proof (rule during_poll)
  show "was_spawned (sw_trace w) h" if "during s H (\<lambda>w. K w \<and> same m w) w" for w
    using that assms(2) by (auto simp: during_def covered_def same_held)
qed (intro kept_rules assms(1))

lemma poll_live:
  assumes "kept K" "h \<in> held m"
  shows "triple (during s H (\<lambda>w. K w \<and> same m w)) (bind (poll p h) (\<lambda>code. ret (f code))) (\<lambda>_. during s H K) R"
  by (rule triple_bind [OF poll_held [OF assms]], rule during_ret) simp

lemma stop_held:
  assumes "kept K" "\<And>h. process = Some h \<Longrightarrow> h \<in> held m \<union> H"
  shows "triple (during s H (\<lambda>w. K w \<and> same m w)) (stop_process_tree p process timeout_s)
     (\<lambda>_. during s H (\<lambda>w. (K w \<and> same m w) \<and> (\<forall>h. process = Some h \<longrightarrow> handled (sw_trace w) h))) R"
proof (rule during_stop)
  show "was_spawned (sw_trace w) h" if "during s H (\<lambda>w. K w \<and> same m w) w" "process = Some h" for w h
    using that assms(2) by (auto simp: during_def covered_def same_held)
qed (intro kept_rules assms(1))

text \<open>What comes after \<open>require_open\<close> runs in a manager that is not shut down.\<close>

lemma open_first:
  assumes "triple (during None H K) k (\<lambda>_. during None H' K') (\<lambda>_. during None H K)"
  shows "triple (during s H K) (andthen require_open k) (\<lambda>_. during s H' K') (\<lambda>_. during s H K)"
proof (rule triple_andthen [OF require_open_during])
  show "triple (\<lambda>w. s = None \<and> during None H K w) k (\<lambda>_. during s H' K') (\<lambda>_. during s H K)"
    using assms by (cases s) (auto simp: triple_def)
qed

lemma require_base_during:
  assumes "kept K"
  shows "triple (during s H K) (require_base p) (\<lambda>_. during s H K) (\<lambda>_. during s H K)"
  unfolding require_base_def by (rule triple_bind [OF base_is_live_during [OF assms]], rule during_guard)

lemma persistent_during:
  assumes "kept K" "triple (during s H K) m (\<lambda>_. during s H K) (\<lambda>_. during s H K)"
  shows "triple (during s H K) (bind (manager sm_persistent) (\<lambda>persistent. if persistent then m else skip))
    (\<lambda>_. during s H K) (\<lambda>_. during s H K)"
  by (rule triple_bind [OF during_read], simp, rule triple_cond) (auto intro: during_pre [OF assms(2)] during_skip)

lemma configure_during:
  assumes "\<And>m. M m \<Longrightarrow> M (f m)" "\<And>m. held (f m) = held m \<and> sm_dry_run (f m) = sm_dry_run m \<and> sm_shutdown (f m) = sm_shutdown m \<and> sm_owned (f m) = sm_owned m"
    and "\<And>m d. f (m\<lparr>sm_owned := d\<rparr>) = (f m)\<lparr>sm_owned := d\<rparr>"
  shows "triple (during s H (of_manager M)) (set_manager f) (\<lambda>_. during s H (of_manager M)) R"
proof (rule during_set)
  fix w assume w: "during s H (of_manager M) w"
  have "of_manager M (w\<lparr>sw_manager := f (sw_manager w)\<rparr>)"
    using w assms(1,3) by (auto simp: during_def of_manager_def) (metis assms(3))
  then show "during s H (of_manager M) (w\<lparr>sw_manager := f (sw_manager w)\<rparr>)"
    using w assms(2) by (auto simp: during_def sound_def covered_def)
qed

lemma prepare_during:
  assumes "\<And>m. M (m\<lparr>sm_runtime_params_prepared := True\<rparr>) = M m"
  shows "triple (during None H (of_manager M)) (prepare_runtime_parameters p) (\<lambda>_. during None H (of_manager M))
    (\<lambda>_. during None H (of_manager M))"
proof -
  have set: "triple (during None H (of_manager M)) (set_manager (\<lambda>m. m\<lparr>sm_runtime_params_prepared := True\<rparr>))
      (\<lambda>_. during None H (of_manager M)) (\<lambda>_. during None H (of_manager M))"
    by (rule configure_during) (auto simp: assms held_def)
  show ?thesis
    unfolding prepare_runtime_parameters_def
    by (rule triple_bind [OF during_read_all], rule during_pre [where K = "of_manager M"])
      (auto intro!: triple_cond during_skip set triple_bind [OF during_run] during_raise)
qed

text \<open>A just_read handle takes the place of one that is gone or has been dealt with.\<close>

lemma install_during:
  assumes "\<And>m. held (f m) \<subseteq> insert h (held m)" "\<And>m. h \<in> held (f m)"
    and "\<And>m. sm_dry_run (f m) = sm_dry_run m \<and> sm_shutdown (f m) = sm_shutdown m \<and> sm_owned (f m) = sm_owned m"
    and "\<And>m d. f (m\<lparr>sm_owned := d\<rparr>) = (f m)\<lparr>sm_owned := d\<rparr>" "\<And>m. M m \<Longrightarrow> N (f m)"
    and "\<And>m g tr. M m \<Longrightarrow> T tr \<Longrightarrow> g \<in> held m - held (f m) \<Longrightarrow> handled tr g"
  shows "triple (during None {h} (\<lambda>w. of_manager M w \<and> T (sw_trace w))) (set_manager f) (\<lambda>_. during None {} (of_manager N)) R"
proof (rule during_set)
  fix w assume w: "during None {h} (\<lambda>w. of_manager M w \<and> T (sw_trace w)) w"
  let ?m = "sw_manager w"
  have M: "M ?m" "T (sw_trace w)" using w by (auto simp: during_def of_manager_def)
  have "of_manager N (w\<lparr>sw_manager := f ?m\<rparr>)"
    using w assms(4,5) unfolding during_def of_manager_def by (simp flip: assms(4))
  moreover have "covered None {} (w\<lparr>sw_manager := f ?m\<rparr>)"
  proof -
    have c: "covered None {h} w" using w by (simp add: during_def)
    then have "g \<in> held (f ?m) \<or> handled (sw_trace w) g" if "was_spawned (sw_trace w) g" for g
      using that assms(2) [of ?m] assms(6) [OF M, of g] unfolding covered_def by blast
    moreover have "was_spawned (sw_trace w) g" if "g \<in> held (f ?m)" for g
      using that c assms(1) [of ?m] unfolding covered_def by blast
    ultimately show ?thesis using c assms(3) [of ?m] by (simp add: covered_def)
  qed
  ultimately show "during None {} (of_manager N) (w\<lparr>sw_manager := f ?m\<rparr>)"
    using w assms(3) by (auto simp: during_def sound_def)
qed

lemma register_held:
  assumes "\<And>m. N m \<Longrightarrow> h \<in> held m"
  shows "triple (during s H (of_manager N)) (register_process_tree p h) (\<lambda>_. during s H (of_manager N)) R"
  by (rule during_register [OF kept_of_manager]) (use assms in \<open>auto simp: of_manager_def\<close>)

lemma calm_eq: "calm s = during s {} base_ok"
  by (simp add: calm_def)

lemma start_base_calm: "triple (calm s) (start_base p) (\<lambda>_. calm s) (\<lambda>_. calm s)"
proof -
  let ?M = "\<lambda>m. sm_base_process m = None"
  have ok: "base_ok w" if "of_manager ?M w" for w :: "'a stage_world"
    using that unfolding base_ok_def by (rule of_manager_mono) (simp add: once_def)
  have once: "triple (during None {} base_ok) (bind (manager sm_base_started_once) (\<lambda>started. guard (\<not> started) e))
      (\<lambda>_. during None {} (of_manager ?M)) (\<lambda>_. during None {} base_ok)" for e
    by (rule triple_bind [OF during_read], simp, rule during_guard)
      (auto simp: base_ok_def of_manager_conj once_def elim: of_manager_mono)
  have prepare: "triple (during None {} (of_manager ?M)) (bind (manager sm_persistent) (\<lambda>persistent. if persistent then prepare_runtime_parameters p else skip))
      (\<lambda>_. during None {} (of_manager ?M)) (\<lambda>_. during None {} base_ok)"
    by (rule during_errors [OF persistent_during [OF kept_of_manager prepare_during]]) (auto intro: ok)
  have dry: "triple (during None {} (of_manager ?M)) (set_manager (\<lambda>m. m\<lparr>sm_base_started_once := True, sm_dry_run_base_live := True\<rparr>))
      (\<lambda>_. during None {} base_ok) R" for R :: "exn \<Rightarrow> 'a stage_world \<Rightarrow> bool"
    by (rule during_post [OF configure_during]) (auto simp: held_def intro: ok)
  have wet: "triple (during None {} (of_manager (\<lambda>m. ?M m \<and> \<not> sm_dry_run m))) (bind (spawn p (ShowcaseScript ''base'')) (\<lambda>h.
       seqs [set_manager (\<lambda>m. m\<lparr>sm_base_process := Some h\<rparr>), register_process_tree p h,
             set_manager (\<lambda>m. m\<lparr>sm_base_started_once := True\<rparr>)])) (\<lambda>_. during None {} base_ok) (\<lambda>_. during None {} base_ok)"
  proof (rule triple_bind [OF during_errors [OF during_pre [OF during_spawn [where T = "\<lambda>_. True"]]]])
    fix h
    let ?N = "\<lambda>m. sm_base_process m = Some h"
    have first: "triple (during None {h} (\<lambda>w. of_manager (\<lambda>m. ?M m \<and> \<not> sm_dry_run m) w \<and> True)) (set_manager (\<lambda>m. m\<lparr>sm_base_process := Some h\<rparr>))
        (\<lambda>_. during None {} (of_manager ?N)) (\<lambda>_. during None {} base_ok)"
      by (rule install_during) (auto simp: held_def once_def)
    have last: "triple (during None {} (of_manager ?N)) (set_manager (\<lambda>m. m\<lparr>sm_base_started_once := True\<rparr>))
        (\<lambda>_. during None {} base_ok) (\<lambda>_. during None {} base_ok)"
      by (rule during_set) (auto simp: during_def sound_def covered_def held_def of_manager_def base_ok_def once_def)
    show "triple (during None {h} (\<lambda>w. of_manager (\<lambda>m. ?M m \<and> \<not> sm_dry_run m) w \<and> True))
        (seqs [set_manager (\<lambda>m. m\<lparr>sm_base_process := Some h\<rparr>), register_process_tree p h,
             set_manager (\<lambda>m. m\<lparr>sm_base_started_once := True\<rparr>)]) (\<lambda>_. during None {} base_ok) (\<lambda>_. during None {} base_ok)"
      unfolding seqs.simps by (rule triple_andthen [OF first triple_andthen [OF register_held last]]) (simp add: held_def)
  qed (auto intro: lasting_const ok elim: of_manager_mono)
  show ?thesis
    unfolding start_base_def calm_eq seqs.simps
  proof (rule open_first, rule triple_andthen [OF once], rule triple_andthen [OF prepare], rule triple_bind [OF during_read], simp)
    fix dry_run
    show "triple (during None {} (\<lambda>w. of_manager ?M w \<and> of_manager (\<lambda>m. sm_dry_run m = dry_run) w))
      (if dry_run then set_manager (\<lambda>m. m\<lparr>sm_base_started_once := True, sm_dry_run_base_live := True\<rparr>)
       else bind (spawn p (ShowcaseScript ''base'')) (\<lambda>h.
         andthen (set_manager (\<lambda>m. m\<lparr>sm_base_process := Some h\<rparr>)) (andthen (register_process_tree p h)
             (set_manager (\<lambda>m. m\<lparr>sm_base_started_once := True\<rparr>))))) (\<lambda>_. during None {} base_ok) (\<lambda>_. during None {} base_ok)"
      by (rule triple_cond, rule during_pre [OF dry], simp, rule during_pre [OF wet [unfolded seqs.simps]], simp add: of_manager_conj)
  qed
qed

text \<open>Letting go of a handle: first the handle is forgotten, then its tree is stopped.\<close>

lemma settle:
  assumes "during s D K w" "\<And>h. h \<in> D \<Longrightarrow> handled (sw_trace w) h"
  shows "during s {} K w"
  using assms by (auto simp: during_def covered_def)

lemma settle_dry: "during s D K w \<Longrightarrow> sm_dry_run (sw_manager w) \<Longrightarrow> during s {} K w"
  by (auto simp: during_def covered_def)

lemma detach_during:
  assumes "\<And>m. M m \<Longrightarrow> held (f m) \<subseteq> held m \<and> held m \<subseteq> held (f m) \<union> D \<and> D \<subseteq> held m"
    and "\<And>m. sm_dry_run (f m) = sm_dry_run m \<and> (sm_shutdown m \<longrightarrow> sm_shutdown (f m)) \<and> sm_owned (f m) = sm_owned m"
    and "\<And>m d. f (m\<lparr>sm_owned := d\<rparr>) = (f m)\<lparr>sm_owned := d\<rparr>" "\<And>m. M m \<Longrightarrow> N (f m)"
  shows "triple (during s {} (of_manager M)) (set_manager f) (\<lambda>_. during s D (of_manager N)) R"
proof (rule during_set)
  fix w assume w: "during s {} (of_manager M) w"
  let ?m = "sw_manager w"
  have M: "M ?m" using w by (auto simp: during_def of_manager_def)
  have "of_manager N (w\<lparr>sw_manager := f ?m\<rparr>)"
    using w assms(3,4) unfolding during_def of_manager_def by (simp flip: assms(3))
  moreover have "covered s D (w\<lparr>sw_manager := f ?m\<rparr>)"
  proof -
    have c: "covered s {} w" using w by (simp add: during_def)
    note h = assms(1) [OF M]
    have "g \<in> held (f ?m) \<union> D \<or> handled (sw_trace w) g" if "was_spawned (sw_trace w) g" for g
      using that c h unfolding covered_def by blast
    moreover have "was_spawned (sw_trace w) g" if "g \<in> held (f ?m) \<union> D" for g
      using that c h unfolding covered_def by blast
    ultimately show ?thesis using c assms(2) [of ?m] by (auto simp: covered_def)
  qed
  ultimately show "during s D (of_manager N) (w\<lparr>sw_manager := f ?m\<rparr>)"
    using w assms(2) by (auto simp: during_def sound_def)
qed

lemma let_go:
  assumes "\<And>m. M m \<Longrightarrow> held (f m) \<subseteq> held m \<and> held m \<subseteq> held (f m) \<union> set_option process \<and> set_option process \<subseteq> held m"
    and "\<And>m. sm_dry_run (f m) = sm_dry_run m \<and> (sm_shutdown m \<longrightarrow> sm_shutdown (f m)) \<and> sm_owned (f m) = sm_owned m"
    and "\<And>m d. f (m\<lparr>sm_owned := d\<rparr>) = (f m)\<lparr>sm_owned := d\<rparr>" "\<And>m. M m \<Longrightarrow> N (f m)"
    and "\<And>m. N m \<Longrightarrow> sm_dry_run m = dry"
    and "dry \<Longrightarrow> triple (during s {} (of_manager N)) x (\<lambda>_. during s {} (of_manager N')) R" "\<And>m. N m \<Longrightarrow> N' m"
  shows "triple (during s {} (of_manager M)) (andthen (set_manager f) (if dry then x else stop_process_tree p process timeout_s))
    (\<lambda>_. during s {} (of_manager N')) R"
proof (rule triple_andthen [OF detach_during [where M = M and f = f and N = N, OF assms(1-4)]], assumption, assumption, rule triple_cond)
  assume dry
  show "triple (during s (set_option process) (of_manager N)) x (\<lambda>_. during s {} (of_manager N')) R"
  proof (rule triple_pre [OF assms(6) [OF \<open>dry\<close>]])
    fix w assume w: "during s (set_option process) (of_manager N) w"
    then have "N (sw_manager w)" by (simp add: during_def of_manager_def)
    then show "during s {} (of_manager N) w" using settle_dry [OF w] assms(5) \<open>dry\<close> by blast
  qed
next
  assume "\<not> dry"
  have "triple (during s (set_option process) (of_manager N)) (stop_process_tree p process timeout_s)
      (\<lambda>_. during s (set_option process) (\<lambda>w. of_manager N w \<and> (\<forall>h. process = Some h \<longrightarrow> handled (sw_trace w) h))) R"
    by (rule during_stop [OF kept_of_manager]) (auto simp: during_def covered_def)
  then show "triple (during s (set_option process) (of_manager N)) (stop_process_tree p process timeout_s)
      (\<lambda>_. during s {} (of_manager N')) R"
  proof (rule triple_post)
    fix w assume w: "during s (set_option process) (\<lambda>w. of_manager N w \<and> (\<forall>h. process = Some h \<longrightarrow> handled (sw_trace w) h)) w"
    then have "during s {} (\<lambda>w. of_manager N w \<and> (\<forall>h. process = Some h \<longrightarrow> handled (sw_trace w) h)) w"
      by (rule settle) (use w in \<open>auto simp: during_def\<close>)
    then show "during s {} (of_manager N') w" by (auto simp: during_def assms(7) elim: of_manager_mono)
  qed
qed

lemma same_facts: "same m w \<Longrightarrow> (\<And>d. F (m\<lparr>sm_owned := d\<rparr>)) \<Longrightarrow> of_manager F w"
  by (auto simp: same_def of_manager_def)

lemma stop_explorer_during:
  assumes "\<And>m. M m \<Longrightarrow> M (m\<lparr>sm_explorer_process := None\<rparr>)"
  shows "triple (during s {} (of_manager M)) (stop_explorer p)
    (\<lambda>_. during s {} (of_manager (\<lambda>m. M m \<and> sm_explorer_process m = None))) R"
  unfolding stop_explorer_def
proof (rule triple_bind [OF during_read_all])
  fix m :: StageProcessManager
  let ?F = "\<lambda>m'. sm_explorer_process m' = sm_explorer_process m \<and> sm_dry_run m' = sm_dry_run m"
  have "triple (during s {} (of_manager (\<lambda>m'. M m' \<and> ?F m')))
     (andthen (set_manager (\<lambda>m. m\<lparr>sm_explorer_process := None\<rparr>))
       (if sm_dry_run m then skip else stop_process_tree p (sm_explorer_process m) (Fin 5)))
     (\<lambda>_. during s {} (of_manager (\<lambda>m. M m \<and> sm_explorer_process m = None))) R"
    by (rule let_go [where N = "\<lambda>m'. M m' \<and> sm_explorer_process m' = None \<and> sm_dry_run m' = sm_dry_run m"])
      (auto simp: held_def assms intro!: during_skip elim: of_manager_mono)
  then show "triple (during s {} (\<lambda>w. of_manager M w \<and> same m w))
     (andthen (set_manager (\<lambda>m. m\<lparr>sm_explorer_process := None\<rparr>))
       (if sm_dry_run m then skip else stop_process_tree p (sm_explorer_process m) (Fin 5)))
     (\<lambda>_. during s {} (of_manager (\<lambda>m. M m \<and> sm_explorer_process m = None))) R"
    by (rule during_pre) (auto simp flip: of_manager_conj intro!: same_facts [where m = m])
qed

lemma stop_stage_during:
  assumes "\<And>m. M m \<Longrightarrow> M (m\<lparr>sm_explorer_process := None\<rparr>)"
    and "\<And>m. M m \<Longrightarrow> M (m\<lparr>sm_stage_process := None, sm_stage := [], sm_dry_run_stage_started := False\<rparr>)"
  shows "triple (during s {} (of_manager M)) (stop_stage p)
    (\<lambda>_. during s {} (of_manager (\<lambda>m. M m \<and> sm_explorer_process m = None \<and> sm_stage_process m = None))) R"
  unfolding stop_stage_def
proof (rule triple_andthen [OF stop_explorer_during [where M = M, OF assms(1)]], assumption, rule triple_bind [OF during_read_all])
  fix m :: StageProcessManager
  let ?F = "\<lambda>m'. sm_stage_process m' = sm_stage_process m \<and> sm_dry_run m' = sm_dry_run m"
  let ?f = "\<lambda>m. m\<lparr>sm_stage_process := None, sm_stage := [], sm_dry_run_stage_started := False\<rparr>"
  have "triple (during s {} (of_manager (\<lambda>m'. (M m' \<and> sm_explorer_process m' = None) \<and> ?F m')))
     (andthen (set_manager ?f) (if sm_dry_run m then skip else stop_process_tree p (sm_stage_process m) (sm_stop_timeout_s m)))
     (\<lambda>_. during s {} (of_manager (\<lambda>m. M m \<and> sm_explorer_process m = None \<and> sm_stage_process m = None))) R"
    by (rule let_go [where N = "\<lambda>m'. M m' \<and> sm_explorer_process m' = None \<and> sm_stage_process m' = None \<and> sm_dry_run m' = sm_dry_run m"])
      (auto simp: held_def assms intro!: during_skip elim: of_manager_mono)
  then show "triple (during s {} (\<lambda>w. of_manager (\<lambda>m. M m \<and> sm_explorer_process m = None) w \<and> same m w))
     (andthen (set_manager ?f) (if sm_dry_run m then skip else stop_process_tree p (sm_stage_process m) (sm_stop_timeout_s m)))
     (\<lambda>_. during s {} (of_manager (\<lambda>m. M m \<and> sm_explorer_process m = None \<and> sm_stage_process m = None))) R"
    by (rule during_pre) (auto simp flip: of_manager_conj intro!: same_facts [where m = m])
qed

definition released :: "StageProcessManager \<Rightarrow> bool" where
  "released m \<longleftrightarrow> sm_shutdown m \<and> sm_base_process m = None \<and> sm_stage_process m = None
     \<and> sm_explorer_process m = None \<and> sm_map_save_process m = None"

lemma andthen_assoc: "andthen a (andthen b c) = andthen (andthen a b) c"
  by (rule ext) (simp add: andthen_def bind_def split: option.split sum.split prod.split)

lemma shutdown_calm: "triple (calm s) (shutdown p) (\<lambda>_. during s {} (of_manager released)) R"
  unfolding shutdown_def calm_eq
proof (rule triple_bind [OF during_read_all])
  fix m :: StageProcessManager
  let ?f = "\<lambda>m. m\<lparr>sm_shutdown := True, sm_map_save_process := None\<rparr>"
  let ?N = "\<lambda>m'. (sm_shutdown m' \<and> sm_map_save_process m' = None) \<and> sm_dry_run m' = sm_dry_run m"
  let ?base = "bind (manager sm_base_process) (\<lambda>process.
      andthen (set_manager (\<lambda>m. m\<lparr>sm_base_process := None\<rparr>))
        (if sm_dry_run m then set_manager (\<lambda>m. m\<lparr>sm_dry_run_base_live := False\<rparr>)
         else stop_process_tree p process (sm_stop_timeout_s m)))"
  have saver: "triple (during s {} (of_manager (\<lambda>m'. sm_map_save_process m' = sm_map_save_process m \<and> sm_dry_run m' = sm_dry_run m)))
      (andthen (set_manager ?f) (if sm_dry_run m then skip else stop_process_tree p (sm_map_save_process m) (sm_stop_timeout_s m)))
      (\<lambda>_. during s {} (of_manager ?N)) R"
    by (rule let_go [where N = ?N]) (auto simp: held_def intro!: during_skip)
  have stage: "triple (during s {} (of_manager ?N)) (stop_stage p)
      (\<lambda>_. during s {} (of_manager (\<lambda>m. ?N m \<and> sm_explorer_process m = None \<and> sm_stage_process m = None))) R"
    by (rule stop_stage_during) auto
  have base: "triple (during s {} (of_manager (\<lambda>m. ?N m \<and> sm_explorer_process m = None \<and> sm_stage_process m = None))) ?base
      (\<lambda>_. during s {} (of_manager released)) R"
  proof (rule triple_bind [OF during_read], simp)
    fix process
    let ?L = "\<lambda>m'. released m' \<and> sm_dry_run m' = sm_dry_run m"
    have "triple (during s {} (of_manager (\<lambda>m. (?N m \<and> sm_explorer_process m = None \<and> sm_stage_process m = None) \<and> sm_base_process m = process)))
        (andthen (set_manager (\<lambda>m. m\<lparr>sm_base_process := None\<rparr>))
          (if sm_dry_run m then set_manager (\<lambda>m. m\<lparr>sm_dry_run_base_live := False\<rparr>)
           else stop_process_tree p process (sm_stop_timeout_s m)))
        (\<lambda>_. during s {} (of_manager released)) R"
      by (rule let_go [where N = ?L])
        (auto simp: held_def released_def intro!: during_post [OF configure_during] elim!: of_manager_mono)
    then show "triple (during s {} (\<lambda>w. of_manager (\<lambda>m. ?N m \<and> sm_explorer_process m = None \<and> sm_stage_process m = None) w
           \<and> of_manager (\<lambda>m. sm_base_process m = process) w))
        (andthen (set_manager (\<lambda>m. m\<lparr>sm_base_process := None\<rparr>))
          (if sm_dry_run m then set_manager (\<lambda>m. m\<lparr>sm_dry_run_base_live := False\<rparr>)
           else stop_process_tree p process (sm_stop_timeout_s m)))
        (\<lambda>_. during s {} (of_manager released)) R"
      by (rule during_pre) (simp add: of_manager_conj)
  qed
  show "triple (during s {} (\<lambda>w. base_ok w \<and> same m w)) (seqs [set_manager ?f,
      if sm_dry_run m then skip else stop_process_tree p (sm_map_save_process m) (sm_stop_timeout_s m), stop_stage p, ?base])
      (\<lambda>_. during s {} (of_manager released)) R"
    unfolding seqs.simps andthen_assoc [where a = "set_manager ?f"]
    by (rule triple_andthen [OF during_pre [OF saver] triple_andthen [OF stage base]])
      (auto intro!: same_facts [where m = m])
qed

lemma clear_stage_during:
  fixes p :: "'e stage_port"
  shows "triple (during s {} base_ok) (clear_stage p) (\<lambda>_. during s {} (of_manager (\<lambda>m. once m \<and> sm_stage_process m = None)))
    (\<lambda>_. during s {} base_ok)"
  unfolding clear_stage_def
proof (rule triple_bind [OF during_read_all], rule triple_option)
  fix m :: StageProcessManager
  assume none: "sm_stage_process m = None"
  have "of_manager (\<lambda>m. once m \<and> sm_stage_process m = None) w" if "base_ok w" "same m w" for w :: "'e stage_world"
    using that same_facts [OF that(2), of "\<lambda>m. sm_stage_process m = None"] none
    unfolding of_manager_conj [symmetric] base_ok_def by simp
  then show "triple (during s {} (\<lambda>w. base_ok w \<and> same m w)) (skip :: ('e, unit) stage_proc)
      (\<lambda>_. during s {} (of_manager (\<lambda>m. once m \<and> sm_stage_process m = None))) (\<lambda>_. during s {} base_ok)"
    by (intro during_skip) auto
next
  fix m :: StageProcessManager and h
  assume h: "sm_stage_process m = Some h"
  let ?f = "\<lambda>m. m\<lparr>sm_stage_process := None, sm_stage := []\<rparr>"
  have drop: "triple (during s {} (\<lambda>w. (base_ok w \<and> same m w) \<and> (\<forall>h'. Some h = Some h' \<longrightarrow> handled (sw_trace w) h')))
      (set_manager ?f) (\<lambda>_. during s {} (of_manager (\<lambda>m. once m \<and> sm_stage_process m = None))) (\<lambda>_. during s {} base_ok)"
  proof (rule during_set)
    fix w assume w: "during s {} (\<lambda>w. (base_ok w \<and> same m w) \<and> (\<forall>h'. Some h = Some h' \<longrightarrow> handled (sw_trace w) h')) w"
    then have "sm_stage_process (sw_manager w) = Some h" "handled (sw_trace w) h"
      using h by (auto simp: during_def same_def)
    then have "covered s {} (w\<lparr>sw_manager := ?f (sw_manager w)\<rparr>)"
      using w by (auto simp: during_def covered_def held_def)
    then show "during s {} (of_manager (\<lambda>m. once m \<and> sm_stage_process m = None)) (w\<lparr>sw_manager := ?f (sw_manager w)\<rparr>)"
      using w by (auto simp: during_def sound_def base_ok_def of_manager_def once_def)
  qed
  show "triple (during s {} (\<lambda>w. base_ok w \<and> same m w)) (bind (poll p h) (\<lambda>code.
      if code = None then raise (RuntimeError (''stage process already running: '' @ sm_stage m))
      else andthen (stop_process_tree p (Some h) (sm_stop_timeout_s m)) (set_manager ?f)))
      (\<lambda>_. during s {} (of_manager (\<lambda>m. once m \<and> sm_stage_process m = None))) (\<lambda>_. during s {} base_ok)"
    by (rule triple_bind [OF poll_held [OF kept_base_ok]], simp add: h, rule triple_cond, rule during_raise, simp,
        rule triple_andthen [OF during_pre [OF stop_held [OF kept_base_ok]] drop]) (simp_all add: h)
qed

lemma set_stage_calm:
  "(\<And>m. N m \<Longrightarrow> once m) \<Longrightarrow> triple (during s {} (of_manager N)) (set_manager (\<lambda>m. m\<lparr>sm_stage := stage\<rparr>)) (\<lambda>_. during s {} base_ok) R"
  by (rule during_set) (auto simp: during_def sound_def covered_def held_def of_manager_def base_ok_def once_def)

lemma start_stage_calm:
  fixes p :: "'e stage_port"
  shows "triple (calm s) (start_stage p stage) (\<lambda>_. calm s) (\<lambda>_. calm s)"
proof -
  let ?M = "\<lambda>m. once m \<and> sm_stage_process m = None"
  have ok: "base_ok w" if "of_manager N w" "\<And>m. N m \<Longrightarrow> once m" for w :: "'e stage_world" and N
    using that unfolding base_ok_def by (rule of_manager_mono)
  have dry: "triple (during None {} (of_manager ?M)) (andthen (guard c e :: ('e, unit) stage_proc)
      (set_manager (\<lambda>m. m\<lparr>sm_stage := stage, sm_dry_run_stage_started := True, sm_stage_process := None\<rparr>)))
      (\<lambda>_. during None {} base_ok) (\<lambda>_. during None {} base_ok)" for c e
  proof (rule triple_andthen [OF during_guard [where K' = "of_manager ?M"]])
    show "triple (during None {} (of_manager ?M))
       (set_manager (\<lambda>m. m\<lparr>sm_stage := stage, sm_dry_run_stage_started := True, sm_stage_process := None\<rparr>))
       (\<lambda>_. during None {} base_ok) (\<lambda>_. during None {} base_ok)"
      by (rule during_set) (auto simp: during_def sound_def covered_def held_def of_manager_def base_ok_def once_def)
  qed (auto intro: ok elim: of_manager_mono)
  have wet: "triple (during None {} (of_manager (\<lambda>m. ?M m \<and> \<not> sm_dry_run m))) (bind (spawn p (ShowcaseScript stage)) (\<lambda>h.
       seqs [set_manager (\<lambda>m. m\<lparr>sm_stage_process := Some h\<rparr>), register_process_tree p h,
             set_manager (\<lambda>m. m\<lparr>sm_stage := stage\<rparr>)])) (\<lambda>_. during None {} base_ok) (\<lambda>_. during None {} base_ok)"
  proof (rule triple_bind [OF during_errors [OF during_pre [OF during_spawn [where T = "\<lambda>_. True"]]]])
    fix h
    let ?N = "\<lambda>m. once m \<and> sm_stage_process m = Some h"
    have first: "triple (during None {h} (\<lambda>w. of_manager (\<lambda>m. ?M m \<and> \<not> sm_dry_run m) w \<and> True)) (set_manager (\<lambda>m. m\<lparr>sm_stage_process := Some h\<rparr>))
        (\<lambda>_. during None {} (of_manager ?N)) (\<lambda>_. during None {} base_ok)"
      by (rule install_during) (auto simp: held_def once_def)
    show "triple (during None {h} (\<lambda>w. of_manager (\<lambda>m. ?M m \<and> \<not> sm_dry_run m) w \<and> True))
        (seqs [set_manager (\<lambda>m. m\<lparr>sm_stage_process := Some h\<rparr>), register_process_tree p h,
             set_manager (\<lambda>m. m\<lparr>sm_stage := stage\<rparr>)]) (\<lambda>_. during None {} base_ok) (\<lambda>_. during None {} base_ok)"
      unfolding seqs.simps by (rule triple_andthen [OF first triple_andthen [OF register_held set_stage_calm]]) auto
  qed (auto intro: lasting_const ok)
  show ?thesis
    unfolding start_stage_def calm_eq seqs.simps
  proof (rule open_first, rule triple_andthen [OF persistent_during [OF kept_base_ok require_base_during [OF kept_base_ok]]],
      rule triple_andthen [OF clear_stage_during], rule triple_bind [OF during_read_all])
    fix m :: StageProcessManager
    show "triple (during None {} (\<lambda>w. of_manager ?M w \<and> same m w))
      (if sm_dry_run m then andthen (guard (\<not> sm_dry_run_stage_started m) (RuntimeError (''stage process already running: '' @ sm_stage m)))
             (set_manager (\<lambda>m. m\<lparr>sm_stage := stage, sm_dry_run_stage_started := True, sm_stage_process := None\<rparr>))
       else bind (spawn p (ShowcaseScript stage)) (\<lambda>h.
         andthen (set_manager (\<lambda>m. m\<lparr>sm_stage_process := Some h\<rparr>)) (andthen (register_process_tree p h)
             (set_manager (\<lambda>m. m\<lparr>sm_stage := stage\<rparr>))))) (\<lambda>_. during None {} base_ok) (\<lambda>_. during None {} base_ok)"
      by (rule triple_cond, rule during_pre [OF dry], simp, rule during_pre [OF wet [unfolded seqs.simps]])
        (auto simp flip: of_manager_conj intro: same_facts [where m = m])
  qed
qed

lemma start_mapping_calm:
  fixes p :: "'e stage_port"
  shows "triple (calm s) (start_mapping p) (\<lambda>_. calm s) (\<lambda>_. calm s)"
  unfolding start_mapping_def calm_eq seqs.simps
  by (rule open_first, rule triple_andthen [OF require_base_during [OF kept_base_ok] start_stage_calm [unfolded calm_eq]])

lemma prepare_navigation_calm:
  fixes p :: "'e stage_port"
  shows "triple (calm s) (prepare_navigation p path) (\<lambda>_. calm s) (\<lambda>_. calm s)"
proof -
  have idle: "triple (during None {} base_ok) (bind (manager id) (\<lambda>m.
      bind (if sm_dry_run m then ret (sm_dry_run_stage_started m)
            else case sm_stage_process m of None \<Rightarrow> ret False | Some h \<Rightarrow> bind (poll p h) (\<lambda>code. ret (code = None)))
        (\<lambda>live. guard (\<not> live) e))) (\<lambda>_. during None {} base_ok) (\<lambda>_. during None {} base_ok)" for e
  proof (rule triple_bind [OF during_read_all])
    fix m :: StageProcessManager
    show "triple (during None {} (\<lambda>w. base_ok w \<and> same m w))
        (bind (if sm_dry_run m then ret (sm_dry_run_stage_started m)
            else case sm_stage_process m of None \<Rightarrow> ret False | Some h \<Rightarrow> bind (poll p h) (\<lambda>code. ret (code = None)))
          (\<lambda>live. guard (\<not> live) e)) (\<lambda>_. during None {} base_ok) (\<lambda>_. during None {} base_ok)"
      by (rule triple_bind [where M = "\<lambda>_. during None {} base_ok"])
        (auto intro!: triple_cond triple_option during_ret poll_live [OF kept_base_ok] during_guard)
  qed
  have set: "triple (during None {} base_ok) (set_manager (\<lambda>m. m\<lparr>sm_map_prefix := x\<rparr>))
      (\<lambda>_. during None {} base_ok) (\<lambda>_. during None {} base_ok)" for x
    unfolding base_ok_def by (rule configure_during) (auto simp: held_def once_def)
  have found: "triple (during None {} base_ok) (bind (call_os p (sp_is_file p path)) (\<lambda>found. guard found e))
      (\<lambda>_. during None {} base_ok) (\<lambda>_. during None {} base_ok)" for e
    by (rule triple_bind [OF during_os [OF kept_base_ok] during_guard])
  show ?thesis
    unfolding prepare_navigation_def calm_eq seqs.simps
    by (rule open_first, rule triple_andthen [OF require_base_during [OF kept_base_ok]
          triple_andthen [OF idle triple_andthen [OF found set]]])
qed

lemma save_map_begin_calm:
  fixes p :: "'e stage_port"
  shows "triple (calm s) (save_map_begin p) (\<lambda>_. calm s) (\<lambda>_. calm s)"
proof -
  let ?T = "\<lambda>m tr. \<forall>h. sm_map_save_process m = Some h \<longrightarrow> handled tr h"
  let ?M = "\<lambda>m m'. (once m' \<and> sm_map_save_process m' = sm_map_save_process m) \<and> \<not> sm_dry_run m'"
  let ?I = "\<lambda>m. during None {} (\<lambda>w. of_manager (?M m) w \<and> ?T m (sw_trace w))"
  have ok: "base_ok w" if "of_manager (?M m) w" for w :: "'e stage_world" and m
    using that unfolding base_ok_def by (rule of_manager_mono) simp
  have start: "triple (?I m) (bind (spawn p (ShowcaseScript ''save'')) (\<lambda>h.
      andthen (set_manager (\<lambda>m. m\<lparr>sm_map_save_process := Some h\<rparr>)) (andthen (register_process_tree p h) (ret (Inr h)))))
      (\<lambda>_. during None {} base_ok) (\<lambda>_. during None {} base_ok)" for m
  proof (rule triple_bind [OF during_errors [OF during_spawn]])
    fix h
    let ?N = "\<lambda>m'. once m' \<and> sm_map_save_process m' = Some h"
    have first: "triple (during None {h} (\<lambda>w. of_manager (?M m) w \<and> ?T m (sw_trace w))) (set_manager (\<lambda>m. m\<lparr>sm_map_save_process := Some h\<rparr>))
        (\<lambda>_. during None {} (of_manager ?N)) (\<lambda>_. during None {} base_ok)"
      by (rule install_during) (auto simp: held_def once_def)
    show "triple (during None {h} (\<lambda>w. of_manager (?M m) w \<and> ?T m (sw_trace w)))
        (andthen (set_manager (\<lambda>m. m\<lparr>sm_map_save_process := Some h\<rparr>)) (andthen (register_process_tree p h) (ret (Inr h))))
        (\<lambda>_. during None {} base_ok) (\<lambda>_. during None {} base_ok)"
      by (rule triple_andthen [OF first triple_andthen [OF register_held during_ret]])
        (auto simp: base_ok_def elim: of_manager_mono)
  qed (auto intro: ok intro!: lasting_all lasting_imp lasting_handled)
  have check: "triple (during None {} (\<lambda>w. base_ok w \<and> same m w)) (case sm_map_save_process m of
        None \<Rightarrow> ret True | Some h \<Rightarrow> bind (poll p h) (\<lambda>code. ret (code \<noteq> None)))
      (\<lambda>idle. during None {} (\<lambda>w. (base_ok w \<and> same m w) \<and> (idle \<longrightarrow> ?T m (sw_trace w)))) (\<lambda>_. during None {} base_ok)" for m
  proof (rule triple_option, rule triple_pre [OF triple_ret], simp add: during_def)
    fix h assume h: "sm_map_save_process m = Some h"
    show "triple (during None {} (\<lambda>w. base_ok w \<and> same m w)) (bind (poll p h) (\<lambda>code. ret (code \<noteq> None)))
      (\<lambda>idle. during None {} (\<lambda>w. (base_ok w \<and> same m w) \<and> (idle \<longrightarrow> ?T m (sw_trace w)))) (\<lambda>_. during None {} base_ok)"
      by (rule triple_bind [OF poll_held [OF kept_base_ok]], simp add: h, rule triple_pre [OF triple_ret])
        (auto simp: during_def h)
  qed
  show ?thesis
    unfolding save_map_begin_def calm_eq
  proof (rule open_first, rule triple_bind [OF during_read_all], rule triple_cond)
    fix m :: StageProcessManager
    assume dry: "\<not> sm_dry_run m"
    show "triple (during None {} (\<lambda>w. base_ok w \<and> same m w)) (bind (case sm_map_save_process m of
        None \<Rightarrow> ret True | Some h \<Rightarrow> bind (poll p h) (\<lambda>code. ret (code \<noteq> None))) (\<lambda>idle.
           andthen (guard idle (RuntimeError ''map save is already running''))
             (bind (spawn p (ShowcaseScript ''save'')) (\<lambda>h.
               andthen (set_manager (\<lambda>m. m\<lparr>sm_map_save_process := Some h\<rparr>))
                 (andthen (register_process_tree p h) (ret (Inr h)))))))
      (\<lambda>_. during None {} base_ok) (\<lambda>_. during None {} base_ok)"
    proof (rule triple_bind [OF check], rule triple_andthen [OF during_guard start])
      fix idle and w :: "'e stage_world"
      assume w: "idle" "(base_ok w \<and> same m w) \<and> (idle \<longrightarrow> ?T m (sw_trace w))"
      then have "of_manager (\<lambda>m'. sm_map_save_process m' = sm_map_save_process m \<and> \<not> sm_dry_run m') w"
        using dry by (intro same_facts [where m = m]) auto
      then show "of_manager (?M m) w \<and> ?T m (sw_trace w)"
        using w by (auto simp: base_ok_def of_manager_def)
    qed auto
  qed (rule during_ret, simp)
qed

lemma save_map_finish_calm:
  fixes p :: "'e stage_port"
  shows "triple (during s {} (\<lambda>w. base_ok w \<and> was_spawned (sw_trace w) h)) (save_map_finish p h) (\<lambda>_. calm s) (\<lambda>_. calm s)"
proof -
  let ?K = "\<lambda>w :: 'e stage_world. base_ok w \<and> was_spawned (sw_trace w) h"
  have K: "kept ?K" by (intro kept_rules)
  have stop: "triple (during s {} ?K) (stop_process_tree p (Some h) t) (\<lambda>_. during s {} (\<lambda>w. ?K w \<and> handled (sw_trace w) h)) R" for t R
    using during_stop [OF K, where process = "Some h" and s = s and H = "{}" and p = p and timeout_s = t and R = R]
    by (simp add: during_def)
  have clear: "triple (during s {} (\<lambda>w. ?K w \<and> handled (sw_trace w) h))
      (set_manager (\<lambda>m. if sm_map_save_process m = Some h then m\<lparr>sm_map_save_process := None\<rparr> else m))
      (\<lambda>_. during s {} base_ok) R" for R
    by (rule during_set) (auto simp: during_def covered_def sound_def held_def base_ok_def of_manager_def once_def)
  have last: "triple (during s {} ?K) (andthen (stop_process_tree p (Some h) t)
      (set_manager (\<lambda>m. if sm_map_save_process m = Some h then m\<lparr>sm_map_save_process := None\<rparr> else m)))
      (\<lambda>_. during s {} base_ok) R" for t R
    by (rule triple_andthen [OF stop clear])
  have first: "triple (during s {} ?K) (bind (call_os p (sp_communicate p h)) (\<lambda>r. case r of
        None \<Rightarrow> andthen (stop_process_tree p (Some h) t) (raise e)
      | Some outcome \<Rightarrow> ret outcome)) (\<lambda>_. during s {} ?K) (\<lambda>_. during s {} ?K)" for t e
    by (rule triple_bind [OF during_os [OF K]], rule triple_option, rule triple_andthen [OF stop during_raise])
      (auto intro: during_ret)
  have os: "triple (during s {} base_ok) (call_os p f) (\<lambda>_. during s {} base_ok) R" for f :: "'e \<Rightarrow> 'x \<times> 'e" and R
    by (rule during_os [OF kept_base_ok])
  have files: "triple (during s {} base_ok) (bind (manager sm_map_prefix) (\<lambda>prefix.
      bind (call_os p (sp_is_file p (with_suffix prefix ''.yaml''))) (\<lambda>yaml.
        bind (if yaml then call_os p (sp_is_file p (with_suffix prefix ''.pgm'')) else ret False) (\<lambda>both.
          andthen (guard both e) (ret (with_suffix prefix ''.yaml''))))))
      (\<lambda>_. during s {} base_ok) (\<lambda>_. during s {} base_ok)" for e
  proof (rule triple_bind [OF during_read], simp)
    fix prefix
    have "triple (during s {} base_ok) (bind (call_os p (sp_is_file p (with_suffix prefix ''.yaml''))) (\<lambda>yaml.
        bind (if yaml then call_os p (sp_is_file p (with_suffix prefix ''.pgm'')) else ret False) (\<lambda>both.
          andthen (guard both e) (ret (with_suffix prefix ''.yaml'')))))
      (\<lambda>_. during s {} base_ok) (\<lambda>_. during s {} base_ok)"
      by (intro triple_bind [OF os] triple_bind [where M = "\<lambda>_. during s {} base_ok"] triple_cond os during_ret
          triple_andthen [OF during_guard]) auto
    then show "triple (during s {} (\<lambda>w. base_ok w \<and> of_manager (\<lambda>m. sm_map_prefix m = prefix) w))
        (bind (call_os p (sp_is_file p (with_suffix prefix ''.yaml''))) (\<lambda>yaml.
        bind (if yaml then call_os p (sp_is_file p (with_suffix prefix ''.pgm'')) else ret False) (\<lambda>both.
          andthen (guard both e) (ret (with_suffix prefix ''.yaml'')))))
      (\<lambda>_. during s {} base_ok) (\<lambda>_. during s {} base_ok)"
      by (rule during_pre) simp
  qed
  have rest: "triple (during s {} base_ok) (case outcome of (returncode, stderr) \<Rightarrow>
      if returncode \<noteq> 0 then raise (f returncode stderr)
      else bind (manager sm_map_prefix) (\<lambda>prefix.
             bind (call_os p (sp_is_file p (with_suffix prefix ''.yaml''))) (\<lambda>yaml.
               bind (if yaml then call_os p (sp_is_file p (with_suffix prefix ''.pgm'')) else ret False) (\<lambda>both.
                 andthen (guard both e) (ret (with_suffix prefix ''.yaml''))))))
      (\<lambda>_. during s {} base_ok) (\<lambda>_. during s {} base_ok)" for outcome :: "int \<times> string" and f e
    by (cases outcome) (auto intro!: triple_cond during_raise files)
  show ?thesis
    unfolding save_map_finish_def calm_eq
    by (rule triple_bind [OF during_read], simp, rule triple_bind [OF triple_ensure [OF during_pre [OF first] last last] rest]) auto
qed

lemma start_explorer_calm:
  fixes p :: "'e stage_port"
  shows "triple (calm s) (start_explorer p config) (\<lambda>_. calm s) (\<lambda>_. calm s)"
proof -
  let ?M = "\<lambda>m m'. once m' \<and> sm_explorer_process m' = sm_explorer_process m \<and> \<not> sm_dry_run m'"
  let ?N = "\<lambda>m'. (once m' \<and> sm_explorer_process m' = None) \<and> \<not> sm_dry_run m'"
  have ok: "base_ok w" if "of_manager N w" "\<And>m. N m \<Longrightarrow> once m" for w :: "'e stage_world" and N
    using that unfolding base_ok_def by (rule of_manager_mono)
  have installed: "triple (during None {} (of_manager (?M m))) (bind (run_command p PackagePrefix) (\<lambda>(returncode, x). guard (returncode = 0) e))
      (\<lambda>_. during None {} (of_manager (?M m))) (\<lambda>_. during None {} base_ok)" for m e
    by (rule triple_bind [OF during_errors [OF during_run]]) (auto intro!: during_guard intro: ok)
  have cleared: "triple (during None {} (of_manager (?M m))) (case sm_explorer_process m of
        None \<Rightarrow> skip
      | Some h \<Rightarrow> bind (poll p h) (\<lambda>code.
          if code = None then raise e
          else andthen (stop_process_tree p (Some h) t) (set_manager (\<lambda>m. m\<lparr>sm_explorer_process := None\<rparr>))))
      (\<lambda>_. during None {} (of_manager ?N)) (\<lambda>_. during None {} base_ok)" for m e t
  proof (rule triple_option, rule during_skip, simp add: conj_assoc)
    fix h assume h: "sm_explorer_process m = Some h"
    have spawned: "was_spawned (sw_trace w) h" if "during None {} (of_manager (?M m)) w" for w :: "'e stage_world"
      using that h by (auto simp: during_def covered_def of_manager_def)
    have poll: "triple (during None {} (of_manager (?M m))) (poll p h) (\<lambda>_. during None {} (of_manager (?M m))) (\<lambda>_. during None {} base_ok)"
      by (rule triple_post [OF during_poll [OF kept_of_manager]]) (use spawned in \<open>auto simp: during_def\<close>)
    have stop: "triple (during None {} (of_manager (?M m))) (stop_process_tree p (Some h) t)
        (\<lambda>_. during None {} (\<lambda>w. of_manager (?M m) w \<and> handled (sw_trace w) h)) (\<lambda>_. during None {} base_ok)"
      by (rule triple_post [OF during_stop [OF kept_of_manager]]) (use spawned in \<open>auto simp: during_def\<close>)
    have drop: "triple (during None {} (\<lambda>w. of_manager (?M m) w \<and> handled (sw_trace w) h))
        (set_manager (\<lambda>m. m\<lparr>sm_explorer_process := None\<rparr>)) (\<lambda>_. during None {} (of_manager ?N)) (\<lambda>_. during None {} base_ok)"
      by (rule during_set) (auto simp: during_def covered_def sound_def held_def of_manager_def once_def h)
    show "triple (during None {} (of_manager (?M m))) (bind (poll p h) (\<lambda>code.
          if code = None then raise e
          else andthen (stop_process_tree p (Some h) t) (set_manager (\<lambda>m. m\<lparr>sm_explorer_process := None\<rparr>))))
      (\<lambda>_. during None {} (of_manager ?N)) (\<lambda>_. during None {} base_ok)"
      by (rule triple_bind [OF poll], rule triple_cond, rule during_raise, erule ok, simp, rule triple_andthen [OF stop drop])
  qed
  have start: "triple (during None {} (of_manager ?N)) (bind (spawn p (Explorer config)) (\<lambda>h.
      andthen (set_manager (\<lambda>m. m\<lparr>sm_explorer_process := Some h\<rparr>)) (register_process_tree p h)))
      (\<lambda>_. during None {} base_ok) (\<lambda>_. during None {} base_ok)"
  proof (rule triple_bind [OF during_errors [OF during_pre [OF during_spawn [where T = "\<lambda>_. True"]]]])
    fix h
    let ?H = "\<lambda>m'. once m' \<and> sm_explorer_process m' = Some h"
    have first: "triple (during None {h} (\<lambda>w. of_manager ?N w \<and> True)) (set_manager (\<lambda>m. m\<lparr>sm_explorer_process := Some h\<rparr>))
        (\<lambda>_. during None {} (of_manager ?H)) (\<lambda>_. during None {} base_ok)"
      by (rule install_during) (auto simp: held_def once_def)
    show "triple (during None {h} (\<lambda>w. of_manager ?N w \<and> True))
        (andthen (set_manager (\<lambda>m. m\<lparr>sm_explorer_process := Some h\<rparr>)) (register_process_tree p h))
        (\<lambda>_. during None {} base_ok) (\<lambda>_. during None {} base_ok)"
      by (rule triple_andthen [OF first during_post [OF register_held]]) (auto intro: ok)
  qed (auto intro: ok lasting_const)
  show ?thesis
    unfolding start_explorer_def calm_eq seqs.simps
  proof (rule open_first, rule triple_andthen [OF persistent_during [OF kept_base_ok require_base_during [OF kept_base_ok]]],
      rule triple_bind [OF during_read_all], rule triple_cond)
    fix m :: StageProcessManager
    assume dry: "\<not> sm_dry_run m"
    have "of_manager (?M m) w" if "base_ok w \<and> same m w" for w :: "'e stage_world"
      using that dry same_facts [of m w "\<lambda>m'. sm_explorer_process m' = sm_explorer_process m \<and> \<not> sm_dry_run m'"]
      by (auto simp: base_ok_def of_manager_def)
    then show "triple (during None {} (\<lambda>w. base_ok w \<and> same m w)) (andthen
        (bind (run_command p PackagePrefix) (\<lambda>(returncode, x). guard (returncode = 0) (RuntimeError
               ''Explore Lite is not installed; run bash scripts/setup_frontier_exploration.sh'')))
        (andthen (case sm_explorer_process m of
              None \<Rightarrow> skip
            | Some h \<Rightarrow>
                bind (poll p h) (\<lambda>code.
                  if code = None then raise (RuntimeError ''frontier explorer is already running'')
                  else andthen (stop_process_tree p (Some h) (sm_stop_timeout_s m))
                    (set_manager (\<lambda>m. m\<lparr>sm_explorer_process := None\<rparr>))))
          (bind (spawn p (Explorer config)) (\<lambda>h.
             andthen (set_manager (\<lambda>m. m\<lparr>sm_explorer_process := Some h\<rparr>)) (register_process_tree p h)))))
      (\<lambda>_. during None {} base_ok) (\<lambda>_. during None {} base_ok)"
      by (intro triple_andthen [OF during_pre [OF installed] triple_andthen [OF cleared start]]) auto
  qed (rule during_skip, simp)
qed

lemma first_exit_during:
  assumes "kept K" "\<And>role h. (role, Some h) \<in> set roles \<Longrightarrow> h \<in> held m"
  shows "triple (during s H (\<lambda>w. K w \<and> same m w)) (first_exit p roles) (\<lambda>_. during s H K) R"
  using assms(2)
proof (induction p roles rule: first_exit.induct)
  case (3 p role h roles)
  have poll: "triple (during s H (\<lambda>w. K w \<and> same m w)) (poll p h) (\<lambda>_. during s H (\<lambda>w. K w \<and> same m w)) R"
    by (rule triple_post [OF poll_held [OF assms(1)]]) (use 3 in \<open>auto simp: during_def\<close>)
  have rest: "triple (during s H (\<lambda>w. K w \<and> same m w)) (first_exit p roles) (\<lambda>_. during s H K) R"
    by (rule 3(1)) (use 3(2) in auto)
  show ?case
    unfolding first_exit.simps
    by (rule triple_bind [OF poll], rule triple_option, rule rest, rule during_ret, simp)
qed (auto intro: during_ret)

lemma unexpected_exit_calm: "triple (calm s) (unexpected_exit p) (\<lambda>_. calm s) R"
  unfolding unexpected_exit_def calm_eq
  by (rule triple_bind [OF during_read_all], rule triple_cond, rule during_ret, simp,
      rule first_exit_during [OF kept_base_ok]) auto

lemma exited_calm:
  assumes "\<And>m h. handle m = Some h \<Longrightarrow> h \<in> held m"
  shows "triple (calm s) (exited p handle) (\<lambda>_. calm s) R"
  unfolding exited_def calm_eq
  by (rule triple_bind [OF during_read_all], rule triple_cond, rule during_ret, simp, rule triple_option,
      rule during_ret, simp, rule poll_live [OF kept_base_ok assms])

section \<open>Any sequence of operations\<close>

lemma triple_drop: "triple P m (\<lambda>_. Q) (\<lambda>_. Q) \<Longrightarrow> triple P (drop_value m) (\<lambda>_. Q) R"
  unfolding drop_value_def by (rule triple_bind [OF triple_attempt [where Q = "\<lambda>_. Q"] triple_skip])

lemma stop_calm:
  "triple (calm s) (stop_explorer p) (\<lambda>_. calm s) R" "triple (calm s) (stop_stage p) (\<lambda>_. calm s) R"
  unfolding calm_eq base_ok_def
  by (rule during_post [OF stop_explorer_during], auto simp: once_def elim: of_manager_mono)
    (rule during_post [OF stop_stage_during], auto simp: once_def elim: of_manager_mono)

lemma spawned_handles_was: "h \<in> set (spawned_handles tr) \<Longrightarrow> was_spawned tr h"
  by (induction tr rule: spawned_handles.induct) (auto simp: was_spawned_def)

lemma manager_step_calm:
  fixes p :: "'e stage_port"
  shows "triple (calm s) (manager_step p op) (\<lambda>_. calm s) R"
proof (cases op)
  case Shutdown
  have "triple (calm s) (shutdown p) (\<lambda>_. calm s) (\<lambda>_. calm s)"
    unfolding calm_eq base_ok_def
    by (rule during_post [OF shutdown_calm [unfolded calm_eq base_ok_def]]) (auto simp: released_def once_def elim: of_manager_mono)
  then show ?thesis using Shutdown by (auto intro: triple_drop)
next
  case (SaveFinish n)
  let ?Q = "\<lambda>h w. calm s w \<and> (\<forall>g. h = Some g \<longrightarrow> was_spawned (sw_trace w) g)"
  have find: "triple (calm s) (saver n) ?Q R"
    unfolding saver_def by (rule triple_pre [OF triple_query]) (auto intro: spawned_handles_was simp: find_Some_iff)
  have "triple (?Q h) (case h of None \<Rightarrow> skip | Some h \<Rightarrow> drop_value (save_map_finish p h)) (\<lambda>_. calm s) R" for h
  proof (cases h)
    case None
    then show ?thesis by (auto intro: triple_pre [OF triple_skip])
  next
    case (Some g)
    then show ?thesis
      by (auto simp: calm_eq during_def intro!: triple_drop triple_pre [OF save_map_finish_calm [unfolded calm_eq]])
  qed
  then show ?thesis unfolding SaveFinish manager_step.simps by (rule triple_bind [OF find])
qed (auto intro!: triple_drop start_base_calm start_mapping_calm prepare_navigation_calm start_stage_calm
    save_map_begin_calm start_explorer_calm stop_calm unexpected_exit_calm exited_calm)

lemma manager_run_calm: "triple (calm s) (manager_run p ops) (\<lambda>_. calm s) R"
  unfolding manager_run_def by (rule triple_each) (rule manager_step_calm)

lemma new_world_calm: "calm None (new_world env (stage_process_manager prefix timeout_s dry_run persistent))"
  by (auto simp: calm_def during_def sound_def verified_def registry_ok_def covered_def held_def was_spawned_def
      base_ok_def of_manager_def once_def new_world_def stage_process_manager_def)

lemma run_calm:
  assumes "calm s w" "manager_run p ops w = Some (r, w')"
  shows "calm s w'"
  using triple_normal [OF manager_run_calm assms(1)] triple_error [OF manager_run_calm [where R = "\<lambda>_ _. False"] assms(1)]
    assms(2) by (cases r) blast+



text \<open>A system with one process, which answers the first signal.\<close>

definition lively_port :: "bool stage_port" where
  "lively_port =
     \<lparr>sp_stat = (\<lambda>pid e. (if pid = 7 then Some ''7 (bash) S 1 7 7 0 0 0 0 0 0 0 0 0 0 0 0 0 0 0 42 0'' else None, e)),
      sp_children = (\<lambda>pid e. (Some [], e)), sp_getpgid = (\<lambda>pid e. (Some pid, e)),
      sp_kill = (\<lambda>pid s e. (True, e)), sp_killpg = (\<lambda>pid s e. (True, e)),
      sp_spawn = (\<lambda>c e. (Inr 7, e)), sp_run = (\<lambda>c e. (Inr (0, []), e)),
      sp_poll = (\<lambda>h e. (None, e)), sp_wait = (\<lambda>h t e. (True, e)),
      sp_communicate = (\<lambda>h e. (Some (0, []), e)), sp_is_file = (\<lambda>path e. (True, e)),
      sp_clock = (\<lambda>e. (0, e)), sp_sleep = (\<lambda>t e. e), sp_watchers = (\<lambda>e. ([], e))\<rparr>"

definition lively_world :: "bool stage_world" where
  "lively_world = new_world True (stage_process_manager ''map'' (Fin 5) False False)"

lemma lively_port_sel [simp]:
  "sp_children lively_port pid e = (Some [], e)" "sp_getpgid lively_port pid e = (Some pid, e)"
  "sp_kill lively_port pid s e = (True, e)" "sp_killpg lively_port pid s e = (True, e)" "sp_spawn lively_port c e = (Inr 7, e)"
  "sp_run lively_port c e = (Inr (0, []), e)" "sp_poll lively_port h e = (None, e)" "sp_wait lively_port h t e = (True, e)"
  "sp_communicate lively_port h e = (Some (0, []), e)" "sp_is_file lively_port path e = (True, e)"
  "sp_clock lively_port e = (0, e)" "sp_sleep lively_port t e = e" "sp_watchers lively_port e = ([], e)"
  by (simp_all add: lively_port_def)

lemma lively_stat: "process_start_ticks lively_port b 7 w = Some (Inr (Some ''42''), w\<lparr>sw_trace := sw_trace w @ [EvStat b 7 (Some ''42'')]\<rparr>)"
proof -
  have "stat_start_ticks ''7 (bash) S 1 7 7 0 0 0 0 0 0 0 0 0 0 0 0 0 0 0 42 0'' = Some ''42''"
    by (simp add: stat_start_ticks_def after_name_def split_words_def is_space_def)
  then show ?thesis by (simp add: process_start_ticks_def sys_def emit_def proc_defs lively_port_def Let_def)
qed

lemma lively_walk: "descendant_identities lively_port b pid w = Some (Inr [], w\<lparr>sw_trace := sw_trace w @ [EvChildren pid []]\<rparr>)"
  unfolding descendant_identities_def
  by (subst iterate.simps, simp add: descendants_pass_def sys_def emit_def proc_defs, subst iterate.simps,
      simp add: descendants_pass_def proc_defs)

lemma lively_watchers: "watchers lively_port w = Some (Inr (), w)"
  by (simp add: watchers_def sys_def proc_defs)

lemma lively_reap:
  "i < length (sw_trees w) \<Longrightarrow> ot_descendants (sw_trees w ! i) = [] \<Longrightarrow> terminate_descendants lively_port i w = Some (Inr (), w)"
  unfolding terminate_descendants_def
  by (simp add: alive_def tree_def kill_all_def call_os_def sys_def lively_watchers proc_defs,
      subst repeat_until.simps, simp add: reap_pass_def kill_all_def alive_def tree_def proc_defs)

lemmas lively_eval = lively_stat lively_walk lively_watchers lively_reap drop_value_def attempt_def require_open_def spawn_def
  call_os_def start_ticks_def poll_def sys_def emit_def manager_def set_manager_def set_tree_def proc_defs
  register_process_tree_def identify_def register_tree_def

lemma lively_run:
  "\<exists>w. manager_run lively_port [StartStage ''mapping'', StopStage] lively_world = Some (Inr (), w)
     \<and> sw_trace w = [EvSpawn (ShowcaseScript ''mapping'') \<lparr>po_serial = 0, po_pid = 7\<rparr>, EvStat False 7 (Some ''42''), EvChildren 7 [],
         EvStat False 7 (Some ''42''), EvChildren 7 [], EvPoll \<lparr>po_serial = 0, po_pid = 7\<rparr> None,
         EvStat False 7 (Some ''42''), EvSignal 7 SIGTERM]"
  by (simp add: manager_run_def start_stage_def clear_stage_def stop_stage_def stop_explorer_def stop_process_tree_def
      release_process_tree_def registered_tree_def refresh_descendants_def unregister_def dict_update_def dict_del_def
      escalate_def signal_owned_process_def wait_def new_world_def stage_process_manager_def lively_world_def lively_eval)



end
