(* ===== verification/Stage_Progress.thy ===== *)
theory Stage_Progress
  imports Stage_Lifecycle
begin

text \<open>
  The operations of the stage manager end: a walk over descendants visits every process number once, and the
  waiting for descendants to die reads a clock that the sleep between two looks moves on.
\<close>

section \<open>Environment\<close>

text \<open>A clock with finite readings that nothing turns back and that a sleep moves on by its length.\<close>

definition stage_clock :: "'e stage_port \<Rightarrow> ('e \<Rightarrow> real) \<Rightarrow> bool" where
  "stage_clock p time \<longleftrightarrow> (\<forall>e.
     fst (sp_clock p e) = Fin (time e) \<and> time e \<le> time (snd (sp_clock p e))
     \<and> time e + 0.05 \<le> time (sp_sleep p (Fin 0.05) e)
     \<and> (\<forall>pid. time e \<le> time (snd (sp_stat p pid e)) \<and> time e \<le> time (snd (sp_children p pid e))
          \<and> time e \<le> time (snd (sp_getpgid p pid e)))
     \<and> (\<forall>pid s. time e \<le> time (snd (sp_kill p pid s e)) \<and> time e \<le> time (snd (sp_killpg p pid s e)))
     \<and> (\<forall>c. time e \<le> time (snd (sp_spawn p c e)) \<and> time e \<le> time (snd (sp_run p c e)))
     \<and> (\<forall>h. time e \<le> time (snd (sp_poll p h e)) \<and> time e \<le> time (snd (sp_communicate p h e)))
     \<and> (\<forall>h t. time e \<le> time (snd (sp_wait p h t e)))
     \<and> (\<forall>f. time e \<le> time (snd (sp_is_file p f e)))
     \<and> time e \<le> time (snd (sp_watchers p e)))"

text \<open>The kernel gives process numbers from a finite set.\<close>

definition process_numbers :: "'e stage_port \<Rightarrow> int set \<Rightarrow> bool" where
  "process_numbers p pids \<longleftrightarrow>
     finite pids \<and> (\<forall>pid e cs. fst (sp_children p pid e) = Some cs \<longrightarrow> set cs \<subseteq> pids)"

definition not_before :: "('e \<Rightarrow> real) \<Rightarrow> real \<Rightarrow> 'e stage_world \<Rightarrow> bool" where
  "not_before time t w \<longleftrightarrow> t \<le> time (sw_env w)"

section \<open>Steps\<close>

lemma returns_sys:
  "(\<And>e. time e \<le> time (snd (f e))) \<Longrightarrow> returns (not_before time t) (sys f)"
  unfolding sys_def
  by (intro returns_query) (auto simp: not_before_def split: prod.split intro: order_trans, metis order_trans snd_conv)

lemma returns_steps [returns_rules]:
  "returns (not_before time t) (emit ev)" "returns (not_before time t) (manager f)"
  "returns (not_before time t) (set_manager g)" "returns (not_before time t) (tree i)"
  "returns (not_before time t) (set_tree i h)" "returns (not_before time t) (new_tree tr)"
  "returns (not_before time t) (registered_tree pid)" "returns (not_before time t) (register_tree tr)"
  unfolding emit_def manager_def set_manager_def tree_def set_tree_def new_tree_def registered_tree_def register_tree_def
  by (auto intro!: returns_modify returns_query simp: not_before_def)

lemma returns_ports [returns_rules]:
  assumes "stage_clock p time"
  shows "returns (not_before time t) (sys (sp_stat p pid))" "returns (not_before time t) (sys (sp_children p pid))"
    "returns (not_before time t) (sys (sp_getpgid p pid))" "returns (not_before time t) (sys (sp_kill p pid s))"
    "returns (not_before time t) (sys (sp_killpg p pid s))" "returns (not_before time t) (sys (sp_spawn p c))"
    "returns (not_before time t) (sys (sp_run p c))" "returns (not_before time t) (sys (sp_poll p h))"
    "returns (not_before time t) (sys (sp_communicate p h))" "returns (not_before time t) (sys (sp_wait p h d))"
    "returns (not_before time t) (sys (sp_is_file p path))" "returns (not_before time t) (sys (sp_clock p))"
    "returns (not_before time t) (sys (sp_watchers p))"
    "returns (not_before time t) (sys (\<lambda>e. ((), sp_sleep p (Fin 0.05) e)))"
proof -
  have "time e \<le> time (sp_sleep p (Fin 0.05) e)" for e
  proof -
    have "time e + 0.05 \<le> time (sp_sleep p (Fin 0.05) e)" using assms by (simp add: stage_clock_def)
    then show ?thesis by (rule order_trans [rotated]) simp
  qed
  then show "returns (not_before time t) (sys (\<lambda>e. ((), sp_sleep p (Fin 0.05) e)))"
    by (intro returns_sys) simp
qed (use assms in \<open>simp add: stage_clock_def all_conj_distrib returns_sys\<close>)+

text \<open>A loop with local variables returns when every pass brings a measure of them down.\<close>

lemma returns_iterate:
  fixes size_of :: "'s \<Rightarrow> nat"
  assumes "\<And>s. returns P (m s)" "\<And>s. yields (\<lambda>r. \<forall>s'. r = Inl s' \<longrightarrow> size_of s' < size_of s) (m s)"
  shows "returns P (iterate m s)"
proof -
  have "P w \<longrightarrow> (\<exists>r w'. iterate m s w = Some (r, w') \<and> P w')" for w
  proof (induction "size_of s" arbitrary: s w rule: less_induct)
    case less
    show ?case
    proof
      assume "P w"
      then obtain r w1 where m: "m s w = Some (r, w1)" "P w1" using assms(1) [of s] by (auto simp: returns_def)
      show "\<exists>r w'. iterate m s w = Some (r, w') \<and> P w'"
      proof (cases "\<exists>s'. r = Inr (Inl s')")
        case True
        then obtain s' where r: "r = Inr (Inl s')" by blast
        then have "size_of s' < size_of s" using yieldsD [OF assms(2)] m(1) by blast
        then show ?thesis using less m r by (simp add: iterate.simps [of m s w])
      next
        case False
        then show ?thesis
          using m by (auto simp: iterate.simps [of m s w] split: sum.split)
      qed
    qed
  qed
  then show ?thesis by (simp add: returns_def)
qed

section \<open>Walks\<close>

lemma returns_process_start_ticks [returns_rules]:
  "stage_clock p time \<Longrightarrow> returns (not_before time t) (process_start_ticks p watcher pid)"
  unfolding process_start_ticks_def Let_def by (intro returns_rules)

lemma returns_visit_children [returns_rules]:
  "stage_clock p time \<Longrightarrow> returns (not_before time t) (visit_children p watcher children s)"
  by (induction p watcher children s rule: visit_children.induct)
    (auto intro!: returns_rules split: option.split)

text \<open>What is left of a walk: the numbers not yet visited and the processes on the stack.\<close>

definition walk_size :: "int set \<Rightarrow> int list \<times> int set \<times> (int \<times> string) list \<Rightarrow> nat" where
  "walk_size pids s = (case s of (pending, visited, _) \<Rightarrow> card (pids - visited) + length pending)"

lemma yields_visit_children:
  "finite pids \<Longrightarrow> set children \<subseteq> pids \<Longrightarrow>
     yields (\<lambda>s'. walk_size pids s' \<le> walk_size pids s) (visit_children p watcher children s)"
proof (induction children arbitrary: s)
  case (Cons c children)
  obtain pending visited descendants where s: "s = (pending, visited, descendants)" by (cases s)
  note IH = Cons.IH [OF Cons.prems(1)]
  show ?case
  proof (cases "c \<in> visited")
    case True
    then show ?thesis using IH [of s] Cons.prems(2) by (simp add: s)
  next
    case False
    have "pids - insert c visited = (pids - visited) - {c}" by blast
    then have less: "card (pids - insert c visited) + 1 = card (pids - visited)"
      using False Cons.prems card_Suc_Diff1 [of "pids - visited" c] by simp
    have weaken: "yields (\<lambda>s'. walk_size pids s' \<le> walk_size pids s) (visit_children p watcher children s1)"
      if "walk_size pids s1 \<le> walk_size pids s" for s1
      using IH [of s1] Cons.prems(2) order_trans [OF _ that] by (simp add: yields_def)
    show ?thesis
      using False less
      by (auto simp: s walk_size_def intro!: yields_bind weaken [unfolded s walk_size_def prod.case] split: option.split)
  qed
qed (auto intro: yields_ret)

lemma yields_children:
  "process_numbers p pids \<Longrightarrow> yields (\<lambda>raw. \<forall>cs. raw = Some cs \<longrightarrow> set cs \<subseteq> pids) (sys (sp_children p pid))"
  by (auto simp: yields_def sys_def query_def process_numbers_def split: prod.splits) (metis fst_conv subsetD)

lemma yields_descendants_pass:
  assumes "process_numbers p pids"
  shows "yields (\<lambda>r. \<forall>s'. r = Inl s' \<longrightarrow> walk_size pids s' < walk_size pids s) (descendants_pass p watcher s)"
proof -
  obtain pending visited descendants where s: "s = (pending, visited, descendants)" by (cases s)
  let ?s = "(butlast pending, visited, descendants)"
  have fin: "finite pids" using assms by (simp add: process_numbers_def)
  show ?thesis
  proof (cases "pending = []")
    case True
    then show ?thesis by (auto simp: descendants_pass_def s intro: yields_ret)
  next
    case False
    then have less: "walk_size pids ?s < walk_size pids s" by (cases pending) (auto simp: s walk_size_def)
    have pass: "yields (\<lambda>r. \<forall>s'. r = Inl s' \<longrightarrow> walk_size pids s' < walk_size pids s)
        (case raw of None \<Rightarrow> ret (Inl ?s)
         | Some children \<Rightarrow> andthen (emit (EvChildren (last pending) children))
             (bind (visit_children p watcher children ?s) (\<lambda>s. ret (Inl s))))"
      if "\<forall>cs. raw = Some cs \<longrightarrow> set cs \<subseteq> pids" for raw
    proof (cases raw)
      case (Some cs)
      then show ?thesis
        using that less
        by (auto intro!: yields_andthen yields_bind_value [OF yields_visit_children [OF fin]] yields_ret)
    qed (use less in \<open>auto intro: yields_ret\<close>)
    show ?thesis
      unfolding descendants_pass_def s prod.case if_not_P [OF False]
      by (rule yields_bind_value [OF yields_children [OF assms]]) (rule pass [unfolded s])
  qed
qed

lemma returns_descendant_identities [returns_rules]:
  assumes "stage_clock p time" "process_numbers p pids"
  shows "returns (not_before time t) (descendant_identities p watcher pid)"
  unfolding descendant_identities_def
  by (rule returns_iterate [OF _ yields_descendants_pass [OF assms(2)]])
    (auto simp: descendants_pass_def intro!: returns_rules assms(1) split: prod.split option.split)

section \<open>Watchers and signals\<close>

text \<open>A procedure ends when it returns in every such environment and keeps the clock going.\<close>

definition ends :: "'e stage_port \<Rightarrow> ('e, 'a) stage_proc \<Rightarrow> bool" where
  "ends p m \<longleftrightarrow> (\<forall>time pids t. stage_clock p time \<longrightarrow> process_numbers p pids \<longrightarrow> returns (not_before time t) m)"

named_theorems ends_rules \<open>procedures of the stage manager that end\<close>

lemma endsD:
  "ends p m \<Longrightarrow> stage_clock p time \<Longrightarrow> process_numbers p pids \<Longrightarrow> not_before time t w \<Longrightarrow>
     \<exists>r w'. m w = Some (r, w') \<and> not_before time t w'"
  by (auto simp: ends_def returns_def)

lemma ends_basic [ends_rules]:
  "ends p (ret x)" "ends p (raise e)" "ends p skip" "ends p (guard ok e)" "ends p (lift_result r)"
  "ends p (emit ev)" "ends p (manager f)" "ends p (set_manager g)" "ends p (tree i)" "ends p (set_tree i h)"
  "ends p (new_tree tr)" "ends p (registered_tree pid)" "ends p (register_tree tr)" "ends p (saver n)"
  by (auto simp: ends_def saver_def intro!: returns_rules)

lemma ends_flow [ends_rules]:
  "ends p m \<Longrightarrow> (\<And>x. ends p (k x)) \<Longrightarrow> ends p (bind m k)"
  "ends p m' \<Longrightarrow> ends p n \<Longrightarrow> ends p (andthen m' n)"
  "ends p m \<Longrightarrow> ends p m' \<Longrightarrow> ends p (ensure m m')"
  "ends p m \<Longrightarrow> ends p (attempt m)"
  "(b \<Longrightarrow> ends p m) \<Longrightarrow> (\<not> b \<Longrightarrow> ends p l) \<Longrightarrow> ends p (if b then m else l)"
  unfolding ends_def by (blast intro: returns_bind returns_andthen returns_ensure returns_attempt returns_if)+

lemma ends_query: "(\<And>w. sw_env (snd (f w)) = sw_env w) \<Longrightarrow> ends p (query f)"
  by (auto simp: ends_def not_before_def intro!: returns_query)

lemma ends_each [ends_rules]: "(\<And>x. ends p (f x)) \<Longrightarrow> ends p (each f xs)"
  by (auto simp: ends_def intro!: returns_each)

lemma ends_seqs [ends_rules]: "(\<And>m. m \<in> set ms \<Longrightarrow> ends p m) \<Longrightarrow> ends p (seqs ms)"
  by (induction ms rule: seqs.induct) (auto intro: ends_rules)

lemma ends_walks [ends_rules]:
  "ends p (process_start_ticks p watcher pid)" "ends p (descendant_identities p watcher pid)"
  by (auto simp: ends_def intro: returns_process_start_ticks returns_descendant_identities)

lemma ends_ports [ends_rules]:
  "ends p (sys (sp_poll p h))" "ends p (sys (sp_watchers p))"
  by (auto simp: ends_def intro: returns_ports)

lemma watchers_end [ends_rules]: "ends p (watchers p)"
  unfolding watchers_def observe_pass_def observe_process_def merge_descendants_def watcher_poll_def watcher_ends_def
  by (intro ends_rules; clarsimp split: option.split; intro conjI impI allI ends_rules)

lemma call_os_ends [ends_rules]:
  "ends p (call_os p (sp_getpgid p pid))" "ends p (call_os p (sp_kill p pid s))" "ends p (call_os p (sp_killpg p pid s))"
  "ends p (call_os p (sp_spawn p c))" "ends p (call_os p (sp_run p c))" "ends p (call_os p (sp_poll p h))"
  "ends p (call_os p (sp_communicate p h))" "ends p (call_os p (sp_wait p h d))" "ends p (call_os p (sp_is_file p path))"
  "ends p (call_os p (sp_clock p))"
  unfolding call_os_def by (intro ends_flow watchers_end; auto simp: ends_def intro: returns_ports)+

lemma start_ticks_ends [ends_rules]: "ends p (start_ticks p pid)"
  unfolding start_ticks_def by (intro ends_rules watchers_end)

lemma poll_ends [ends_rules]: "ends p (poll p h)"
  unfolding poll_def by (intro ends_rules)

lemma still_alive_ends [ends_rules]: "ends p (still_alive p ids)"
proof (induction ids)
  case (Cons d ids)
  then show ?case by (cases d) (auto intro!: ends_rules start_ticks_ends)
qed (auto intro: ends_rules)

lemma alive_ends [ends_rules]: "ends p (alive p i)"
  unfolding alive_def by (intro ends_rules) (auto intro!: ends_rules still_alive_ends split: option.split)

lemma kill_all_ends [ends_rules]: "ends p (kill_all p s ids)"
  unfolding kill_all_def by (intro ends_rules)

lemma clock_reading:
  assumes clock: "stage_clock p time" "process_numbers p pids" and "not_before time t w" "call_os p (sp_clock p) w = Some (Inr now, w1)"
  shows "\<exists>r. now = Fin r \<and> t \<le> r \<and> r \<le> time (sw_env w1)"
proof -
  obtain w' where w': "watchers p w = Some (Inr (), w')" "sys (sp_clock p) w' = Some (Inr now, w1)"
    using assms(4) by (auto simp: call_os_def andthen_def bind_def split: option.splits sum.splits prod.splits)
  have "not_before time t w'" using endsD [OF watchers_end clock assms(3)] w'(1) by auto
  moreover have "fst (sp_clock p (sw_env w')) = Fin (time (sw_env w'))"
    "time (sw_env w') \<le> time (snd (sp_clock p (sw_env w')))" using clock(1) by (simp_all add: stage_clock_def)
  ultimately show ?thesis
    using w'(2) by (auto simp: sys_def query_def not_before_def split: prod.splits)
qed

lemma sleeping:
  assumes clock: "stage_clock p time" "process_numbers p pids" and "not_before time t w"
  shows "\<exists>w1. call_os p (\<lambda>e. ((), sp_sleep p (Fin 0.05) e)) w = Some (Inr (), w1) \<and> not_before time (t + 0.05) w1
    \<or> (\<exists>e w1. call_os p (\<lambda>e. ((), sp_sleep p (Fin 0.05) e)) w = Some (Inl e, w1) \<and> not_before time t w1)"
proof -
  obtain r w' where w': "watchers p w = Some (r, w')" "not_before time t w'"
    using endsD [OF watchers_end clock assms(3)] by blast
  have later: "time e + 0.05 \<le> time (sp_sleep p (Fin 0.05) e)" for e using clock(1) by (simp add: stage_clock_def)
  have "not_before time (t + 0.05) (w'\<lparr>sw_env := sp_sleep p (Fin 0.05) (sw_env w')\<rparr>)"
    using later [of "sw_env w'"] w'(2) by (simp add: not_before_def)
  then show ?thesis using w'
    by (cases r) (auto simp: call_os_def andthen_def bind_def sys_def query_def)
qed

lemma reap_pass_ends:
  assumes clock: "stage_clock p time" "process_numbers p pids" and start: "not_before time t w"
  shows "\<exists>r w'. reap_pass p i (Fin d) w = Some (r, w') \<and> not_before time t w'
    \<and> (r = Inr None \<longrightarrow> nat \<lceil>(d - time (sw_env w')) / 0.05\<rceil> < nat \<lceil>(d - time (sw_env w)) / 0.05\<rceil>)"
proof -
  let ?now = "not_before time (time (sw_env w))"
  have rise: "not_before time t w'" if "?now w'" for w' using start that by (simp add: not_before_def)
  have w: "?now w" by (simp add: not_before_def)
  obtain a w1 where a: "alive p i w = Some (a, w1)" "?now w1" using endsD [OF alive_ends clock w] by blast
  obtain c w2 where c: "call_os p (sp_clock p) w1 = Some (c, w2)" "?now w2"
    using endsD [OF call_os_ends(10) clock a(2)] by blast
  consider "(\<exists>e. a = Inl e) \<or> a = Inr []" | pids e where "a = Inr pids" "pids \<noteq> []" "c = Inl e"
    | pids now where "a = Inr pids" "pids \<noteq> []" "c = Inr now"
    by (cases a; cases c) auto
  then show ?thesis
  proof cases
    case 1
    then show ?thesis using a rise by (auto simp: reap_pass_def bind_def ret_def)
  next
    case 2
    then show ?thesis using a c rise by (auto simp: reap_pass_def bind_def ret_def)
  next
    case 3
    obtain n where n: "now = Fin n" "time (sw_env w) \<le> n" "n \<le> time (sw_env w2)"
      using clock_reading [OF clock a(2)] c(1) 3(3) by blast
    show ?thesis
    proof (cases "n < d")
      case False
      then show ?thesis using a c 3 n rise by (auto simp: reap_pass_def bind_def ret_def)
    next
      case True
      have less: "nat \<lceil>(d - time (sw_env w')) / 0.05\<rceil> < nat \<lceil>(d - time (sw_env w)) / 0.05\<rceil>"
        if "not_before time (time (sw_env w) + 0.05) w'" for w'
      proof -
        have "(d - time (sw_env w')) / 0.05 \<le> (d - time (sw_env w)) / 0.05 - 1"
          using that by (simp add: not_before_def divide_right_mono diff_divide_distrib)
        then have "\<lceil>(d - time (sw_env w')) / 0.05\<rceil> \<le> \<lceil>(d - time (sw_env w)) / 0.05\<rceil> - 1"
          by (metis ceiling_diff_one ceiling_mono)
        moreover have "0 < \<lceil>(d - time (sw_env w)) / 0.05\<rceil>" using True n(2) by simp
        ultimately show ?thesis by linarith
      qed
      have more: "not_before time t w'" if "not_before time (time (sw_env w) + 0.05) w'" for w'
        using rise that by (simp add: not_before_def)
      have eq: "reap_pass p i (Fin d) w
          = bind (call_os p (\<lambda>e. ((), sp_sleep p (Fin 0.05) e))) (\<lambda>_. ret None) w2"
        using a c 3 n True by (simp add: reap_pass_def bind_def)
      from sleeping [OF clock c(2)] show ?thesis
        unfolding eq using less more rise by (auto simp: bind_def ret_def)
    qed
  qed
qed

lemma terminate_descendants_ends [ends_rules]: "ends p (terminate_descendants p i)"
  unfolding terminate_descendants_def
proof (rule ends_flow(2))
  have loop: "ends p (repeat_until (reap_pass p i (Fin d)))" for d
    unfolding ends_def by (intro allI impI, rule returns_repeat_until, rule reap_pass_ends)
  show "ends p (bind (call_os p (sp_clock p)) (\<lambda>now. andthen (repeat_until (reap_pass p i (now + Fin 3)))
      (bind (alive p i) (kill_all p SIGKILL))))" (is "ends p (bind ?m ?k)")
    unfolding ends_def returns_def
  proof (intro allI impI)
    fix time pids t w assume env: "stage_clock p time" "process_numbers p pids" and w: "not_before time t w"
    obtain c w1 where c: "call_os p (sp_clock p) w = Some (c, w1)" "not_before time t w1"
      using endsD [OF call_os_ends(10) env w] by blast
    show "\<exists>r w'. bind ?m ?k w = Some (r, w') \<and> not_before time t w'"
    proof (cases c)
      case (Inr now)
      then obtain n where "now = Fin n" using clock_reading [OF env w] c(1) by blast
      then have "ends p (?k now)" by (auto intro!: ends_rules loop alive_ends kill_all_ends)
      then show ?thesis using c Inr endsD [OF _ env c(2)] by (simp add: bind_def)
    qed (use c in \<open>simp add: bind_def\<close>)
  qed
qed (intro ends_rules alive_ends kill_all_ends)

section \<open>Operations\<close>

lemma identify_ends [ends_rules]: "ends p (identify p pid ticks h)"
  unfolding identify_def by (intro ends_rules)

lemma register_process_tree_ends [ends_rules]: "ends p (register_process_tree p h)"
  unfolding register_process_tree_def
  by (intro ends_rules start_ticks_ends) (auto intro!: ends_rules identify_ends split: option.split)

lemma release_process_tree_ends [ends_rules]: "ends p (release_process_tree p h)"
  unfolding release_process_tree_def refresh_descendants_def unregister_def
  by (intro ends_rules) (auto intro!: ends_rules start_ticks_ends identify_ends watchers_end split: option.split)

lemma signals_end [ends_rules]: "ends p (signal_owned_process p tr s)" "ends p (signal_owned_group p tr s)"
  unfolding signal_owned_process_def signal_owned_group_def by (intro ends_rules start_ticks_ends)+

lemma stop_process_tree_ends [ends_rules]: "ends p (stop_process_tree p h d)"
  unfolding stop_process_tree_def escalate_def wait_def
  by (auto intro!: ends_rules poll_ends signals_end release_process_tree_ends terminate_descendants_ends
      split: option.split)

lemma spawn_ends [ends_rules]: "ends p (spawn p c)"
  unfolding spawn_def by (intro ends_rules) (auto intro!: ends_rules ends_query)

lemma run_command_ends [ends_rules]: "ends p (run_command p c)"
  unfolding run_command_def by (intro ends_rules)

lemma base_ends [ends_rules]: "ends p (base_is_live p)" "ends p (require_base p)" "ends p require_open"
  unfolding require_base_def base_is_live_def require_open_def
  by (auto intro!: ends_rules poll_ends split: option.split)

lemma starts_end [ends_rules]: "ends p (start_base p)" "ends p (start_stage p stage)" "ends p (start_mapping p)"
  "ends p (start_explorer p config)" "ends p (prepare_navigation p path)"
  unfolding start_base_def prepare_runtime_parameters_def start_stage_def clear_stage_def start_mapping_def
    start_explorer_def prepare_navigation_def
  by (auto intro!: ends_rules split: option.split prod.split)

lemma saves_end [ends_rules]: "ends p (save_map_begin p)" "ends p (save_map_finish p h)" "ends p (saver n)"
  unfolding save_map_begin_def save_map_finish_def
  by (auto intro!: ends_rules split: option.split prod.split)

lemma stops_end [ends_rules]: "ends p (stop_explorer p)" "ends p (stop_stage p)" "ends p (shutdown p)"
  unfolding shutdown_def stop_stage_def stop_explorer_def by (auto intro!: ends_rules)

lemma first_exit_ends [ends_rules]: "ends p (first_exit p roles)"
proof (induction roles)
  case (Cons role roles)
  then show ?case by (cases role; cases "snd role") (auto intro!: ends_rules split: option.split)
qed (auto intro: ends_rules)

lemma exits_end [ends_rules]: "ends p (unexpected_exit p)" "ends p (exited p handle)"
  unfolding unexpected_exit_def exited_def by (auto intro!: ends_rules first_exit_ends split: option.split)

lemma manager_step_ends [ends_rules]: "ends p (manager_step p op)"
  by (cases op) (auto simp: drop_value_def intro!: ends_rules starts_end saves_end stops_end exits_end split: option.split)

lemma manager_run_ends: "ends p (manager_run p ops)"
  unfolding manager_run_def by (intro ends_rules)

section \<open>Theorem\<close>


text \<open>A system whose clock is the environment: process 7 has a child 8, which does not die.\<close>

definition stubborn_port :: "real stage_port" where
  "stubborn_port =
     \<lparr>sp_stat = (\<lambda>pid e. (if pid = 7 \<or> pid = 8 then Some ''7 (bash) S 1 7 7 0 0 0 0 0 0 0 0 0 0 0 0 0 0 0 42 0'' else None, e)),
      sp_children = (\<lambda>pid e. (Some (if pid = 7 then [8] else []), e)), sp_getpgid = (\<lambda>pid e. (Some pid, e)),
      sp_kill = (\<lambda>pid s e. (True, e)), sp_killpg = (\<lambda>pid s e. (True, e)),
      sp_spawn = (\<lambda>c e. (Inr 7, e)), sp_run = (\<lambda>c e. (Inr (0, []), e)),
      sp_poll = (\<lambda>h e. (None, e)), sp_wait = (\<lambda>h t e. (True, e)),
      sp_communicate = (\<lambda>h e. (Some (0, []), e)), sp_is_file = (\<lambda>path e. (True, e)),
      sp_clock = (\<lambda>e. (Fin e, e)), sp_sleep = (\<lambda>t e. (case t of Fin s \<Rightarrow> e + s | _ \<Rightarrow> e)), sp_watchers = (\<lambda>e. ([0], e))\<rparr>"


end
