(* ===== verification/Asr_Endpoint.thy ===== *)
theory Asr_Endpoint
  imports Unicode_Text Schedules
begin

text \<open>
  The endpoint runtime of \<open>asr_endpoint_runtime.py\<close>: the end of an utterance becomes at most one commit of the
  recogniser, at once or by a timer, unless it is cancelled before. What a call does under the lock or between
  two calls of a callback is one section; calls of \<open>request\<close>, timer threads and calls of \<open>close\<close> and
  \<open>cancel_pending\<close> interleave in any order. The timer of a request has the number of the request. The gate
  \<open>blocked\<close>, the readings of the clock and whether a callback raises are chosen by the step; \<open>blocked\<close>,
  \<open>on_duplicate\<close> and \<open>on_error\<close> do not raise.
\<close>

section \<open>State\<close>

text \<open>Where a request is, with its source and the generation it was accepted in; the flag tells whether its
  timer thread runs it.\<close>

datatype place =
    Absent
  | Asked ustr
  | Accepted ustr nat
  | TimerMade ustr nat
  | TimerAdded ustr nat
  | TimerRunning ustr nat
  | Gate bool ustr nat
  | GatePassed bool ustr
  | Unblocked bool ustr
  | Committing bool ustr
  | Leaving
  | Returned bool
  | RaisedOut

datatype endpoint_event =
    EvAccepted nat ustr pyfloat
  | EvDuplicate nat ustr
  | EvEndpoint nat ustr int
  | EvGatePassed nat
  | EvOnCommit nat ustr
  | EvCommit nat
  | EvError nat
  | EvCancelled
  | EvClosed

text \<open>\<open>ae_cancelling\<close> holds, for each call of \<open>close\<close> or \<open>cancel_pending\<close> under way, the timers it has still to
  cancel.\<close>

record AsrEndpointRuntime =
  ae_delay_ms :: int
  ae_duplicate_window_s :: pyfloat
  ae_last_request_at :: pyfloat
  ae_last_request_source :: "ustr option"
  ae_closed :: bool
  ae_generation :: nat
  ae_timers :: "nat set"
  ae_places :: "nat \<Rightarrow> place"
  ae_cancelled :: "nat set"
  ae_cancelling :: "nat \<Rightarrow> nat set option"
  ae_trace :: "endpoint_event list"

definition asr_endpoint_runtime :: "int \<Rightarrow> pyfloat \<Rightarrow> AsrEndpointRuntime" where
  "asr_endpoint_runtime delay_ms duplicate_window_s =
     \<lparr>ae_delay_ms = max 0 delay_ms, ae_duplicate_window_s = pymax 0 duplicate_window_s,
      ae_last_request_at = NegInf, ae_last_request_source = None, ae_closed = False, ae_generation = 0,
      ae_timers = {}, ae_places = (\<lambda>_. Absent), ae_cancelled = {}, ae_cancelling = (\<lambda>_. None), ae_trace = []\<rparr>"

definition put :: "nat \<Rightarrow> place \<Rightarrow> AsrEndpointRuntime \<Rightarrow> AsrEndpointRuntime" where
  "put n p s = s\<lparr>ae_places := (ae_places s)(n := p)\<rparr>"

definition log_event :: "endpoint_event \<Rightarrow> AsrEndpointRuntime \<Rightarrow> AsrEndpointRuntime" where
  "log_event ev s = s\<lparr>ae_trace := ae_trace s @ [ev]\<rparr>"

section \<open>Sections\<close>

text \<open>The section of \<open>request\<close> under the lock: a mirrored endpoint of another source within the window is
  dropped.\<close>

definition accept_request :: "nat \<Rightarrow> ustr \<Rightarrow> pyfloat \<Rightarrow> AsrEndpointRuntime \<Rightarrow> AsrEndpointRuntime" where
  "accept_request n source now s =
     (if ae_closed s then put n (Returned False) s
      else if Some source \<noteq> ae_last_request_source s \<and> now - ae_last_request_at s < ae_duplicate_window_s s
      then put n (Returned False) (log_event (EvDuplicate n source) s)
      else put n (Accepted source (ae_generation s))
        (log_event (EvAccepted n source now)
          (s\<lparr>ae_last_request_at := now, ae_last_request_source := Some source\<rparr>)))"

text \<open>\<open>on_endpoint\<close>, and then either the commit or a timer.\<close>

definition announce_endpoint :: "nat \<Rightarrow> ustr \<Rightarrow> nat \<Rightarrow> bool \<Rightarrow> AsrEndpointRuntime \<Rightarrow> AsrEndpointRuntime" where
  "announce_endpoint n source generation ok s =
     put n (if \<not> ok then RaisedOut else if ae_delay_ms s \<le> 0 then Gate False source generation
            else TimerMade source generation)
       (log_event (EvEndpoint n source (ae_delay_ms s)) s)"

definition add_timer :: "nat \<Rightarrow> ustr \<Rightarrow> nat \<Rightarrow> AsrEndpointRuntime \<Rightarrow> AsrEndpointRuntime" where
  "add_timer n source generation s =
     (if ae_closed s then put n (Returned False) s
      else put n (TimerAdded source generation) (s\<lparr>ae_timers := insert n (ae_timers s)\<rparr>))"

text \<open>The end of \<open>perform_commit\<close>: a timer thread has its \<open>finally\<close> to do.\<close>

definition commit_done :: "nat \<Rightarrow> bool \<Rightarrow> bool \<Rightarrow> AsrEndpointRuntime \<Rightarrow> AsrEndpointRuntime" where
  "commit_done n timer result = put n (if timer then Leaving else Returned result)"

definition check_gate :: "nat \<Rightarrow> bool \<Rightarrow> ustr \<Rightarrow> nat \<Rightarrow> AsrEndpointRuntime \<Rightarrow> AsrEndpointRuntime" where
  "check_gate n timer source generation s =
     (if ae_closed s \<or> generation \<noteq> ae_generation s then commit_done n timer False s
      else put n (GatePassed timer source) (log_event (EvGatePassed n) s))"

definition close_endpoint :: "nat \<Rightarrow> AsrEndpointRuntime \<Rightarrow> AsrEndpointRuntime" where
  "close_endpoint c s =
     log_event EvClosed (s\<lparr>ae_closed := True, ae_generation := ae_generation s + 1, ae_timers := {},
       ae_cancelling := (ae_cancelling s)(c \<mapsto> ae_timers s)\<rparr>)"

text \<open>\<open>cancel_pending\<close>, which is also all of \<open>resume_utterance\<close>.\<close>

definition cancel_pending :: "nat \<Rightarrow> AsrEndpointRuntime \<Rightarrow> AsrEndpointRuntime" where
  "cancel_pending c s =
     (if ae_closed s then s
      else log_event EvCancelled (s\<lparr>ae_generation := ae_generation s + 1, ae_last_request_at := NegInf,
        ae_last_request_source := None, ae_timers := {}, ae_cancelling := (ae_cancelling s)(c \<mapsto> ae_timers s)\<rparr>))"

text \<open>\<open>timer.cancel()\<close> for one timer of the snapshot; after the last one the call returns.\<close>

definition cancel_timer :: "nat \<Rightarrow> nat \<Rightarrow> nat set \<Rightarrow> AsrEndpointRuntime \<Rightarrow> AsrEndpointRuntime" where
  "cancel_timer c n timers s =
     s\<lparr>ae_cancelled := insert n (ae_cancelled s), ae_cancelling := (ae_cancelling s)(c \<mapsto> timers - {n})\<rparr>"

section \<open>Steps\<close>

datatype endpoint_op =
    Request nat ustr bool
  | Accept nat pyfloat
  | Endpoint nat bool
  | AddTimer nat
  | StartTimer nat
  | Fire nat
  | CheckGate nat
  | CheckBlocked nat bool
  | OnCommit nat bool
  | Commit nat bool
  | LeaveTimer nat
  | Close nat
  | CancelPending nat
  | CancelTimer nat nat
  | CancelReturn nat

text \<open>The next section of a call or thread; \<open>None\<close> when it is not at this point. A cancelled timer ends without
  calling its function.\<close>

fun endpoint_section :: "endpoint_op \<Rightarrow> AsrEndpointRuntime \<Rightarrow> AsrEndpointRuntime option" where
  "endpoint_section (Request n source blocked) s =
     (case ae_places s n of
        Absent \<Rightarrow> Some (put n (if blocked then Returned False else Asked source) s)
      | _ \<Rightarrow> None)"
| "endpoint_section (Accept n now) s =
     (case ae_places s n of Asked source \<Rightarrow> Some (accept_request n source now s) | _ \<Rightarrow> None)"
| "endpoint_section (Endpoint n ok) s =
     (case ae_places s n of Accepted source g \<Rightarrow> Some (announce_endpoint n source g ok s) | _ \<Rightarrow> None)"
| "endpoint_section (AddTimer n) s =
     (case ae_places s n of TimerMade source g \<Rightarrow> Some (add_timer n source g s) | _ \<Rightarrow> None)"
| "endpoint_section (StartTimer n) s =
     (case ae_places s n of TimerAdded source g \<Rightarrow> Some (put n (TimerRunning source g) s) | _ \<Rightarrow> None)"
| "endpoint_section (Fire n) s =
     (case ae_places s n of
        TimerRunning source g \<Rightarrow>
          if n \<in> ae_cancelled s then None else Some (put n (Gate True source g) s)
      | _ \<Rightarrow> None)"
| "endpoint_section (CheckGate n) s =
     (case ae_places s n of Gate timer source g \<Rightarrow> Some (check_gate n timer source g s) | _ \<Rightarrow> None)"
| "endpoint_section (CheckBlocked n blocked) s =
     (case ae_places s n of
        GatePassed timer source \<Rightarrow>
          Some (if blocked then commit_done n timer False s
                else put n (Unblocked timer source) s)
      | _ \<Rightarrow> None)"
| "endpoint_section (OnCommit n ok) s =
     (case ae_places s n of
        Unblocked timer source \<Rightarrow>
          Some (let s = log_event (EvOnCommit n source) s
            in if ok then put n (Committing timer source) s else commit_done n timer False (log_event (EvError n) s))
      | _ \<Rightarrow> None)"
| "endpoint_section (Commit n ok) s =
     (case ae_places s n of
        Committing timer source \<Rightarrow>
          Some (let s = log_event (EvCommit n) s
            in if ok then commit_done n timer True s else commit_done n timer False (log_event (EvError n) s))
      | _ \<Rightarrow> None)"
| "endpoint_section (LeaveTimer n) s =
     (case ae_places s n of
        Leaving \<Rightarrow> Some (put n (Returned True) (s\<lparr>ae_timers := ae_timers s - {n}\<rparr>))
      | _ \<Rightarrow> None)"
| "endpoint_section (Close c) s = (if ae_cancelling s c = None then Some (close_endpoint c s) else None)"
| "endpoint_section (CancelPending c) s = (if ae_cancelling s c = None then Some (cancel_pending c s) else None)"
| "endpoint_section (CancelTimer c n) s =
     (case ae_cancelling s c of
        Some timers \<Rightarrow> if n \<in> timers then Some (cancel_timer c n timers s) else None
      | None \<Rightarrow> None)"
| "endpoint_section (CancelReturn c) s =
     (if ae_cancelling s c = Some {} then Some (s\<lparr>ae_cancelling := (ae_cancelling s)(c := None)\<rparr>) else None)"

definition endpoint_step :: "endpoint_op \<Rightarrow> AsrEndpointRuntime \<Rightarrow> AsrEndpointRuntime \<Rightarrow> bool" where
  "endpoint_step op s s' \<longleftrightarrow> endpoint_section op s = Some s'"

section \<open>What the trace tells of a request\<close>

text \<open>The request was accepted and has not been cancelled since; it passed the gate before any cancel.\<close>

definition pending_request :: "endpoint_event list \<Rightarrow> nat \<Rightarrow> bool" where
  "pending_request tr n \<longleftrightarrow> (\<exists>a b source t. tr = a @ EvAccepted n source t # b
     \<and> EvCancelled \<notin> set b \<and> EvClosed \<notin> set (a @ b))"

definition granted_request :: "endpoint_event list \<Rightarrow> nat \<Rightarrow> bool" where
  "granted_request tr n \<longleftrightarrow> (\<exists>a b. tr = a @ EvGatePassed n # b \<and> pending_request a n)"

lemma pending_append: "pending_request tr n \<Longrightarrow> EvCancelled \<notin> set evs \<Longrightarrow> EvClosed \<notin> set evs \<Longrightarrow> pending_request (tr @ evs) n"
  unfolding pending_request_def by fastforce

lemma granted_append: "granted_request tr n \<Longrightarrow> granted_request (tr @ evs) n"
  unfolding granted_request_def by fastforce

lemma granted_now: "pending_request tr n \<Longrightarrow> granted_request (tr @ [EvGatePassed n]) n"
  unfolding granted_request_def by blast

lemma pending_now: "EvClosed \<notin> set tr \<Longrightarrow> pending_request (tr @ [EvAccepted n source t]) n"
  unfolding pending_request_def by fastforce

text \<open>The generation of a request before the gate, and its permission after it.\<close>

fun awaits :: "place \<Rightarrow> nat option" where
  "awaits (Accepted source g) = Some g"
| "awaits (TimerMade source g) = Some g"
| "awaits (TimerAdded source g) = Some g"
| "awaits (TimerRunning source g) = Some g"
| "awaits (Gate timer source g) = Some g"
| "awaits _ = None"

fun in_commit :: "place \<Rightarrow> bool" where
  "in_commit (GatePassed timer source) = True"
| "in_commit (Unblocked timer source) = True"
| "in_commit (Committing timer source) = True"
| "in_commit _ = False"

fun unfinished :: "place \<Rightarrow> bool" where
  "unfinished Leaving = False"
| "unfinished (Returned result) = False"
| "unfinished RaisedOut = False"
| "unfinished _ = True"

definition place_ok :: "AsrEndpointRuntime \<Rightarrow> nat \<Rightarrow> bool" where
  "place_ok s n \<longleftrightarrow>
     (\<forall>g. awaits (ae_places s n) = Some g \<longrightarrow> g \<le> ae_generation s
        \<and> (g = ae_generation s \<longrightarrow> pending_request (ae_trace s) n))
     \<and> (in_commit (ae_places s n) \<longrightarrow> granted_request (ae_trace s) n)
     \<and> (unfinished (ae_places s n) \<longrightarrow> EvCommit n \<notin> set (ae_trace s))"

definition commits_ok :: "endpoint_event list \<Rightarrow> bool" where
  "commits_ok = at_each (\<lambda>a ev. \<forall>n. ev = EvCommit n \<longrightarrow> granted_request a n \<and> EvCommit n \<notin> set a)"

definition endpoint_inv :: "AsrEndpointRuntime \<Rightarrow> bool" where
  "endpoint_inv s \<longleftrightarrow> (\<forall>n. place_ok s n) \<and> commits_ok (ae_trace s)
     \<and> (ae_closed s \<longleftrightarrow> EvClosed \<in> set (ae_trace s))
     \<and> (ae_closed s \<longrightarrow> (\<forall>n g. awaits (ae_places s n) = Some g \<longrightarrow> g < ae_generation s))"

lemma commits_ok_snoc:
  "commits_ok (tr @ [ev]) \<longleftrightarrow> commits_ok tr \<and> (\<forall>n. ev = EvCommit n \<longrightarrow> granted_request tr n \<and> EvCommit n \<notin> set tr)"
  by (simp add: commits_ok_def)

definition harmless :: "endpoint_event \<Rightarrow> bool" where
  "harmless ev \<longleftrightarrow> ev \<noteq> EvCancelled \<and> ev \<noteq> EvClosed"

lemma place_ok_frame:
  assumes "place_ok s m" "ae_trace s' = ae_trace s @ evs" "ae_generation s' = ae_generation s"
    "ae_places s' m = ae_places s m" "\<forall>ev \<in> set evs. harmless ev" "EvCommit m \<notin> set evs"
  shows "place_ok s' m"
  using assms unfolding place_ok_def harmless_def
  by (auto intro!: pending_append granted_append)

text \<open>A section of one request: it moves this request and adds to the trace.\<close>

lemma inv_move:
  assumes inv: "endpoint_inv s" and s': "ae_trace s' = ae_trace s @ evs" "ae_generation s' = ae_generation s"
      "ae_closed s' = ae_closed s" "ae_places s' = (ae_places s)(n := p)"
    and evs: "\<forall>ev \<in> set evs. harmless ev" "\<forall>m. m \<noteq> n \<longrightarrow> EvCommit m \<notin> set evs" "commits_ok (ae_trace s @ evs)"
    and p: "place_ok s' n" "\<And>g. awaits p = Some g \<Longrightarrow> ae_closed s \<Longrightarrow> g < ae_generation s"
  shows "endpoint_inv s'"
proof -
  have "place_ok s' m" for m
  proof (cases "m = n")
    case False
    then show ?thesis using inv s' evs by (intro place_ok_frame [of s m s' evs]) (auto simp: endpoint_inv_def)
  qed (use p in simp)
  moreover have "EvClosed \<notin> set evs" using evs(1) by (auto simp: harmless_def)
  ultimately show ?thesis using inv s' evs(3) p(2) by (auto simp: endpoint_inv_def)
qed

text \<open>A section of a cancel: the generation moves on.\<close>

lemma inv_cancel:
  assumes inv: "endpoint_inv s" and s': "ae_trace s' = ae_trace s @ [ev]" "ae_generation s' = ae_generation s + 1"
      "ae_closed s' = (ae_closed s \<or> ev = EvClosed)" "ae_places s' = ae_places s"
    and ev: "ev = EvClosed \<or> ev = EvCancelled"
  shows "endpoint_inv s'"
proof -
  have old: "g \<le> ae_generation s" if "awaits (ae_places s n) = Some g" for n g
    using inv that by (auto simp: endpoint_inv_def place_ok_def)
  have "place_ok s n" for n using inv by (simp add: endpoint_inv_def)
  then have "place_ok s' n" for n
    using s' ev unfolding place_ok_def
    by (auto intro!: granted_append dest: old simp: le_Suc_eq)
  moreover have "commits_ok (ae_trace s')" using inv s'(1) ev by (auto simp: endpoint_inv_def commits_ok_snoc)
  ultimately show ?thesis
    using inv s' ev old by (auto simp: endpoint_inv_def less_Suc_eq_le)
qed

lemmas section_defs = put_def log_event_def accept_request_def announce_endpoint_def add_timer_def commit_done_def
  check_gate_def close_endpoint_def cancel_pending_def cancel_timer_def Let_def

lemma inv_same:
  "endpoint_inv s \<Longrightarrow> ae_trace s' = ae_trace s \<Longrightarrow> ae_generation s' = ae_generation s \<Longrightarrow>
     ae_closed s' = ae_closed s \<Longrightarrow> ae_places s' = ae_places s \<Longrightarrow> endpoint_inv s'"
  by (auto simp: endpoint_inv_def place_ok_def)

lemma accept_cases:
  obtains (refused) "ae_closed s" "accept_request n source now s = put n (Returned False) s"
  | (duplicate) "\<not> ae_closed s" "accept_request n source now s = put n (Returned False) (log_event (EvDuplicate n source) s)"
  | (accepted) "\<not> ae_closed s"
      "Some source = ae_last_request_source s \<or> \<not> now - ae_last_request_at s < ae_duplicate_window_s s"
      "accept_request n source now s = put n (Accepted source (ae_generation s)) (log_event (EvAccepted n source now)
        (s\<lparr>ae_last_request_at := now, ae_last_request_source := Some source\<rparr>))"
proof (cases "ae_closed s")
  case True
  then show thesis using refused by (simp add: accept_request_def)
next
  case False
  show thesis
  proof (cases "Some source \<noteq> ae_last_request_source s \<and> now - ae_last_request_at s < ae_duplicate_window_s s")
    case True
    then show thesis using False duplicate by (simp add: accept_request_def)
  next
    case no: False
    then show thesis using False by (intro accepted) (auto simp: accept_request_def)
  qed
qed

lemma endpoint_step_inv:
  assumes step: "endpoint_step op s s'" and inv: "endpoint_inv s"
  shows "endpoint_inv s'"
proof -
  have ok: "place_ok s n" for n using inv by (simp add: endpoint_inv_def)
  have commits: "commits_ok (ae_trace s)" using inv by (simp add: endpoint_inv_def)
  have closed: "ae_closed s \<Longrightarrow> awaits (ae_places s n) = Some g \<Longrightarrow> g < ae_generation s" for n g
    using inv by (auto simp: endpoint_inv_def)
  have opened: "\<not> ae_closed s \<Longrightarrow> EvClosed \<notin> set (ae_trace s)" using inv by (simp add: endpoint_inv_def)
  note facts = place_ok_def harmless_def commits_ok_snoc
  note did = step [unfolded endpoint_step_def]
  show ?thesis
  proof (cases op)
    case (Request n source blocked)
    then show ?thesis
      using did ok [of n] commits
      by (intro inv_move [OF inv, where evs = "[]" and n = n and p = "if blocked then Returned False else Asked source"])
        (auto simp: section_defs facts split: place.splits if_splits)
  next
    case (Accept n now)
    then obtain source where at: "ae_places s n = Asked source" and s': "s' = accept_request n source now s"
      using did by (auto split: place.splits)
    from accept_cases [of s n source now] show ?thesis
    proof cases
      case refused
      then show ?thesis
        using ok [of n] commits
        by (intro inv_move [OF inv, where evs = "[]" and n = n]) (auto simp: s' section_defs facts)
    next
      case duplicate
      then show ?thesis
        using ok [of n] commits
        by (intro inv_move [OF inv, where evs = "[EvDuplicate n source]" and n = n]) (auto simp: s' section_defs facts)
    next
      case accepted
      then show ?thesis
        using ok [of n] commits opened at
        by (intro inv_move [OF inv, where evs = "[EvAccepted n source now]" and n = n])
          (auto simp: s' section_defs facts intro!: pending_now)
    qed
  next
    case (Endpoint n ok')
    then obtain source g where at: "ae_places s n = Accepted source g" and s': "s' = announce_endpoint n source g ok' s"
      using did by (auto split: place.splits)
    show ?thesis
      unfolding s'
      using ok [of n] commits at closed [of n]
      by (intro inv_move [OF inv, where evs = "[EvEndpoint n source (ae_delay_ms s)]" and n = n])
        (auto simp: section_defs facts split: if_splits intro!: pending_append)
  next
    case (AddTimer n)
    then obtain source g where at: "ae_places s n = TimerMade source g" and s': "s' = add_timer n source g s"
      using did by (auto split: place.splits)
    show ?thesis
      unfolding s'
      using ok [of n] commits at closed [of n]
      by (intro inv_move [OF inv, where evs = "[]" and n = n and p = "if ae_closed s then Returned False else TimerAdded source g"])
        (auto simp: section_defs facts)
  next
    case (StartTimer n)
    then obtain source g where at: "ae_places s n = TimerAdded source g" and s': "s' = put n (TimerRunning source g) s"
      using did by (auto split: place.splits)
    show ?thesis
      unfolding s'
      using ok [of n] commits at closed [of n]
      by (intro inv_move [OF inv, where evs = "[]" and n = n]) (auto simp: section_defs facts)
  next
    case (Fire n)
    then obtain source g where at: "ae_places s n = TimerRunning source g" and s': "s' = put n (Gate True source g) s"
      using did by (auto split: place.splits if_splits)
    show ?thesis
      unfolding s'
      using ok [of n] commits at closed [of n]
      by (intro inv_move [OF inv, where evs = "[]" and n = n]) (auto simp: section_defs facts)
  next
    case (CheckGate n)
    then obtain timer source g where at: "ae_places s n = Gate timer source g" and s': "s' = check_gate n timer source g s"
      using did by (auto split: place.splits)
    show ?thesis
    proof (cases "ae_closed s \<or> g \<noteq> ae_generation s")
      case True
      then show ?thesis
        unfolding s' check_gate_def if_P [OF True]
        using ok [of n] commits at
        by (intro inv_move [OF inv, where evs = "[]" and n = n and p = "if timer then Leaving else Returned False"])
          (auto simp: section_defs facts split: if_splits)
    next
      case False
      then show ?thesis
        unfolding s' check_gate_def if_not_P [OF False]
        using ok [of n] commits at
        by (intro inv_move [OF inv, where evs = "[EvGatePassed n]" and n = n])
          (auto simp: section_defs facts intro!: granted_now)
    qed
  next
    case (CheckBlocked n blocked)
    then obtain timer source where at: "ae_places s n = GatePassed timer source"
        and s': "s' = (if blocked then commit_done n timer False s else put n (Unblocked timer source) s)"
      using did by (auto split: place.splits)
    show ?thesis
      unfolding s'
      using ok [of n] commits at
      by (intro inv_move [OF inv, where evs = "[]" and n = n
            and p = "if \<not> blocked then Unblocked timer source else if timer then Leaving else Returned False"])
        (auto simp: section_defs facts split: if_splits)
  next
    case (OnCommit n ok')
    then obtain timer source where at: "ae_places s n = Unblocked timer source"
      using did by (auto split: place.splits)
    show ?thesis
      using did OnCommit ok [of n] commits at
      by (intro inv_move [OF inv, where evs = "EvOnCommit n source # (if ok' then [] else [EvError n])" and n = n
            and p = "ae_places s' n"])
        (auto simp: section_defs facts commits_ok_snoc [of "_ @ [_]", simplified] intro!: granted_append split: if_splits)
  next
    case (Commit n ok')
    then obtain timer source where at: "ae_places s n = Committing timer source"
      using did by (auto split: place.splits)
    show ?thesis
      using did Commit ok [of n] commits at
      by (intro inv_move [OF inv, where evs = "EvCommit n # (if ok' then [] else [EvError n])" and n = n
            and p = "ae_places s' n"])
        (auto simp: section_defs facts commits_ok_snoc [of "_ @ [_]", simplified] intro!: granted_append split: if_splits)
  next
    case (LeaveTimer n)
    then show ?thesis
      using did ok [of n] commits
      by (intro inv_move [OF inv, where evs = "[]" and n = n]) (auto simp: section_defs facts split: place.splits)
  next
    case (Close c)
    then show ?thesis
      using did by (intro inv_cancel [OF inv, where ev = EvClosed]) (auto simp: section_defs split: if_splits)
  next
    case (CancelPending c)
    show ?thesis
    proof (cases "ae_closed s")
      case True
      then have "s' = s" using did CancelPending by (auto simp: section_defs split: if_splits)
      then show ?thesis using inv by simp
    next
      case False
      then show ?thesis
        using did CancelPending
        by (intro inv_cancel [OF inv, where ev = EvCancelled]) (auto simp: section_defs split: if_splits)
    qed
  qed (use did in \<open>auto simp: section_defs intro!: inv_same [OF inv] split: option.splits if_splits\<close>)
qed

interpretation endpoint: step_invariant endpoint_step endpoint_inv
  by unfold_locales (rule endpoint_step_inv)

lemma endpoint_inv_init: "endpoint_inv (asr_endpoint_runtime delay_ms window)"
  by (simp add: endpoint_inv_def place_ok_def commits_ok_def asr_endpoint_runtime_def)

section \<open>Windows\<close>

text \<open>The last accepted request since the last cancel.\<close>

fun last_accept :: "endpoint_event \<Rightarrow> (ustr \<times> pyfloat) option \<Rightarrow> (ustr \<times> pyfloat) option" where
  "last_accept (EvAccepted n source t) acc = Some (source, t)"
| "last_accept EvCancelled acc = None"
| "last_accept ev acc = acc"

definition last_accepted :: "endpoint_event list \<Rightarrow> (ustr \<times> pyfloat) option" where
  "last_accepted tr = fold last_accept tr None"

definition accepts_apart :: "pyfloat \<Rightarrow> endpoint_event list \<Rightarrow> bool" where
  "accepts_apart window = at_each (\<lambda>a ev. \<forall>n source t source' t'. ev = EvAccepted n source t \<longrightarrow>
     last_accepted a = Some (source', t') \<longrightarrow> source \<noteq> source' \<longrightarrow> \<not> t - t' < window)"

definition window_inv :: "pyfloat \<Rightarrow> AsrEndpointRuntime \<Rightarrow> bool" where
  "window_inv w s \<longleftrightarrow> ae_duplicate_window_s s = w \<and> accepts_apart w (ae_trace s)
     \<and> (\<not> ae_closed s \<longrightarrow> (case last_accepted (ae_trace s) of
          None \<Rightarrow> ae_last_request_source s = None
        | Some (source, t) \<Rightarrow> ae_last_request_source s = Some source \<and> ae_last_request_at s = t))"

lemma last_accepted_snoc: "last_accepted (tr @ [ev]) = last_accept ev (last_accepted tr)"
  by (simp add: last_accepted_def)

lemma accepts_apart_snoc:
  "accepts_apart window (tr @ [ev]) \<longleftrightarrow> accepts_apart window tr \<and>
     (\<forall>n source t source' t'. ev = EvAccepted n source t \<longrightarrow> last_accepted tr = Some (source', t') \<longrightarrow> source \<noteq> source'
        \<longrightarrow> \<not> t - t' < window)"
  by (simp add: accepts_apart_def)

lemma window_keep:
  assumes "window_inv w s" "ae_trace s' = ae_trace s @ evs" "\<forall>ev \<in> set evs. \<forall>acc. last_accept ev acc = acc"
    "ae_duplicate_window_s s' = ae_duplicate_window_s s" "ae_closed s' = ae_closed s"
    "ae_last_request_source s' = ae_last_request_source s" "ae_last_request_at s' = ae_last_request_at s"
  shows "window_inv w s'"
proof -
  have "\<forall>ev \<in> set es. \<forall>acc. last_accept ev acc = acc \<Longrightarrow>
      accepts_apart v (tr @ es) = accepts_apart v tr \<and> last_accepted (tr @ es) = last_accepted tr" for es v tr
  proof (induction es rule: rev_induct)
    case (snoc ev es)
    have "\<nexists>n source t. ev = EvAccepted n source t" using snoc.prems by auto
    then show ?case
      using snoc accepts_apart_snoc [of v "tr @ es" ev] last_accepted_snoc [of "tr @ es" ev] by simp
  qed simp
  then show ?thesis using assms by (auto simp: window_inv_def split: option.splits)
qed

lemma window_step:
  assumes step: "endpoint_step op s s'" and inv: "window_inv w s"
  shows "window_inv w s'"
proof -
  note did = step [unfolded endpoint_step_def]
  show ?thesis
  proof (cases op)
    case (Accept n now)
    then obtain source where s': "s' = accept_request n source now s" using did by (auto split: place.splits)
    from accept_cases [of s n source now] show ?thesis
    proof cases
      case refused
      then show ?thesis by (intro window_keep [OF inv, where evs = "[]"]) (auto simp: s' section_defs)
    next
      case duplicate
      then show ?thesis
        by (intro window_keep [OF inv, where evs = "[EvDuplicate n source]"]) (auto simp: s' section_defs)
    next
      case accepted
      then show ?thesis
        using inv
        by (auto simp: s' put_def log_event_def window_inv_def accepts_apart_snoc last_accepted_snoc split: option.splits)
    qed
  next
    case (Close c)
    then show ?thesis
      using did inv by (auto simp: section_defs window_inv_def accepts_apart_snoc last_accepted_snoc split: if_splits)
  next
    case (CancelPending c)
    then show ?thesis
      using did inv by (auto simp: section_defs window_inv_def accepts_apart_snoc last_accepted_snoc split: if_splits)
  next
    case (Endpoint n ok)
    then obtain source g where "s' = announce_endpoint n source g ok s" using did by (auto split: place.splits)
    then show ?thesis
      by (intro window_keep [OF inv, where evs = "[EvEndpoint n source (ae_delay_ms s)]"]) (auto simp: section_defs)
  next
    case (CheckGate n)
    then obtain timer source g where s': "s' = check_gate n timer source g s" using did by (auto split: place.splits)
    then show ?thesis
      by (intro window_keep [OF inv, where evs = "if ae_closed s \<or> g \<noteq> ae_generation s then [] else [EvGatePassed n]"])
        (auto simp: section_defs)
  next
    case (OnCommit n ok)
    then obtain timer source where at: "ae_places s n = Unblocked timer source" using did by (auto split: place.splits)
    show ?thesis
      using did OnCommit at
      by (intro window_keep [OF inv, where evs = "EvOnCommit n source # (if ok then [] else [EvError n])"])
        (auto simp: section_defs split: if_splits)
  next
    case (Commit n ok)
    then obtain timer source where at: "ae_places s n = Committing timer source" using did by (auto split: place.splits)
    show ?thesis
      using did Commit at
      by (intro window_keep [OF inv, where evs = "EvCommit n # (if ok then [] else [EvError n])"])
        (auto simp: section_defs split: if_splits)
  next
    case (CheckBlocked n blocked)
    then obtain timer source where at: "ae_places s n = GatePassed timer source" using did by (auto split: place.splits)
    show ?thesis
      using did CheckBlocked at by (intro window_keep [OF inv, where evs = "[]"]) (auto simp: section_defs split: if_splits)
  next
    case (AddTimer n)
    then obtain source g where at: "ae_places s n = TimerMade source g" using did by (auto split: place.splits)
    show ?thesis
      using did AddTimer at by (intro window_keep [OF inv, where evs = "[]"]) (auto simp: section_defs split: if_splits)
  next
    case (Request n source blocked)
    then have "s' = put n (if blocked then Returned False else Asked source) s" using did by (auto split: place.splits)
    then show ?thesis by (intro window_keep [OF inv, where evs = "[]"]) (auto simp: section_defs)
  next
    case (StartTimer n)
    then show ?thesis
      using did by (intro window_keep [OF inv, where evs = "[]"]) (auto simp: section_defs split: place.splits)
  next
    case (Fire n)
    then show ?thesis
      using did by (intro window_keep [OF inv, where evs = "[]"]) (auto simp: section_defs split: place.splits if_splits)
  next
    case (LeaveTimer n)
    then show ?thesis
      using did by (intro window_keep [OF inv, where evs = "[]"]) (auto simp: section_defs split: place.splits)
  next
    case (CancelTimer c n)
    then show ?thesis
      using did by (intro window_keep [OF inv, where evs = "[]"]) (auto simp: section_defs split: option.splits if_splits)
  next
    case (CancelReturn c)
    then show ?thesis
      using did by (intro window_keep [OF inv, where evs = "[]"]) (auto simp: section_defs split: if_splits)
  qed
qed

interpretation endpoint_window: step_invariant endpoint_step "window_inv w" for w
  by unfold_locales (rule window_step)

lemma window_init: "window_inv (pymax 0 window) (asr_endpoint_runtime delay_ms window)"
  by (simp add: window_inv_def accepts_apart_def last_accepted_def asr_endpoint_runtime_def)

text \<open>Two endpoints of different sources that are accepted one after the other, with no cancel in between, are
  at least a window apart.\<close>

lemma mirrored_endpoints_are_dropped:
  assumes "steps endpoint_step ops (asr_endpoint_runtime delay_ms window) s"
    "ae_trace s = a @ EvAccepted n source t # b @ EvAccepted n' source' t' # c"
    "\<forall>ev \<in> set b. \<forall>acc. last_accept ev acc = acc" "source \<noteq> source'"
  shows "\<not> t' - t < pymax 0 window"
proof -
  have "window_inv (pymax 0 window) s" by (rule endpoint_window.steps_inv [OF assms(1) window_init])
  moreover have "fold last_accept b acc = acc" for acc using assms(3) by (induction b) auto
  then have "last_accepted (a @ EvAccepted n source t # b) = Some (source, t)" by (simp add: last_accepted_def)
  ultimately show ?thesis
    using assms(4) at_eachD [where x = "EvAccepted n' source' t'" and a = "a @ EvAccepted n source t # b" and b = c] assms(2)
    by (fastforce simp: window_inv_def accepts_apart_def)
qed

section \<open>Closing\<close>

text \<open>A timer that waits is registered, cancelled or about to be cancelled.\<close>

fun waiting :: "place \<Rightarrow> bool" where
  "waiting (TimerAdded source g) = True"
| "waiting (TimerRunning source g) = True"
| "waiting _ = False"

definition doomed :: "AsrEndpointRuntime \<Rightarrow> nat \<Rightarrow> bool" where
  "doomed s n \<longleftrightarrow> n \<in> ae_cancelled s \<or> (\<exists>c timers. ae_cancelling s c = Some timers \<and> n \<in> timers)"

definition timers_inv :: "AsrEndpointRuntime \<Rightarrow> bool" where
  "timers_inv s \<longleftrightarrow> (\<forall>n. waiting (ae_places s n) \<longrightarrow> n \<in> ae_timers s \<or> doomed s n)
     \<and> (ae_closed s \<longrightarrow> ae_timers s = {})"

lemma doomed_cancel_timer:
  "ae_cancelling s c = Some timers \<Longrightarrow> doomed s m \<Longrightarrow> doomed (cancel_timer c n timers s) m"
  unfolding doomed_def cancel_timer_def by (cases "m = n") (auto, metis option.inject)

lemma doomed_return:
  "ae_cancelling s c = Some {} \<Longrightarrow> doomed s m \<Longrightarrow> doomed (s\<lparr>ae_cancelling := (ae_cancelling s)(c := None)\<rparr>) m"
  unfolding doomed_def by (auto, metis empty_iff option.inject)

lemma doomed_snapshot:
  "ae_cancelling s c = None \<Longrightarrow> ae_cancelled s' = ae_cancelled s \<Longrightarrow>
     ae_cancelling s' = (ae_cancelling s)(c \<mapsto> timers) \<Longrightarrow> doomed s m \<or> m \<in> timers \<Longrightarrow> doomed s' m"
  unfolding doomed_def by (auto, metis option.distinct(1))

lemma timers_keep:
  assumes "timers_inv s" "ae_cancelled s' = ae_cancelled s" "ae_cancelling s' = ae_cancelling s" "ae_closed s' = ae_closed s"
    "\<And>m. waiting (ae_places s' m) \<Longrightarrow> waiting (ae_places s m) \<and> (m \<in> ae_timers s \<longrightarrow> m \<in> ae_timers s') \<or> m \<in> ae_timers s'"
    "ae_closed s \<Longrightarrow> ae_timers s' = {}"
  shows "timers_inv s'"
  using assms unfolding timers_inv_def doomed_def by metis

lemma timers_step:
  assumes "endpoint_step op s s'" and inv: "timers_inv s"
  shows "timers_inv s'"
proof -
  note did = assms(1) [unfolded endpoint_step_def]
  show ?thesis
  proof (cases op)
    case (Accept n now)
    then obtain source where "s' = accept_request n source now s" using did by (auto split: place.splits)
    then show ?thesis
      using inv by (intro timers_keep [OF inv]) (auto simp: section_defs timers_inv_def split: if_splits)
  next
    case (CancelTimer c n)
    then obtain timers where t: "ae_cancelling s c = Some timers" "s' = cancel_timer c n timers s"
      using did by (auto split: option.splits if_splits)
    have same: "ae_places s' = ae_places s" "ae_timers s' = ae_timers s" "ae_closed s' = ae_closed s"
      by (simp_all add: t(2) cancel_timer_def)
    show ?thesis
      using inv doomed_cancel_timer [OF t(1)] unfolding timers_inv_def same by (metis t(2))
  next
    case (CancelReturn c)
    then have t: "ae_cancelling s c = Some {}" "s' = s\<lparr>ae_cancelling := (ae_cancelling s)(c := None)\<rparr>"
      using did by (auto split: if_splits)
    have same: "ae_places s' = ae_places s" "ae_timers s' = ae_timers s" "ae_closed s' = ae_closed s"
      by (simp_all add: t(2))
    show ?thesis
      using inv doomed_return [OF t(1)] unfolding timers_inv_def same by (metis t(2))
  next
    case (Close c)
    then have t: "ae_cancelling s c = None" "s' = close_endpoint c s" using did by (auto split: if_splits)
    have "doomed s' m" if "waiting (ae_places s m)" for m
      using inv that t by (intro doomed_snapshot [OF t(1), of s' "ae_timers s"]) (auto simp: section_defs timers_inv_def)
    then show ?thesis by (auto simp: t(2) section_defs timers_inv_def)
  next
    case (CancelPending c)
    then have t: "ae_cancelling s c = None" "s' = cancel_pending c s" using did by (auto split: if_splits)
    show ?thesis
    proof (cases "ae_closed s")
      case True
      then show ?thesis using inv by (simp add: t(2) cancel_pending_def)
    next
      case False
      have "doomed s' m" if "waiting (ae_places s m)" for m
        using inv that t False
        by (intro doomed_snapshot [OF t(1), of s' "ae_timers s"]) (auto simp: section_defs timers_inv_def)
      then show ?thesis using False by (auto simp: t(2) section_defs timers_inv_def)
    qed
  next
    case (Request n source blocked)
    then have "s' = put n (if blocked then Returned False else Asked source) s" using did by (auto split: place.splits)
    then show ?thesis
      using inv by (intro timers_keep [OF inv]) (auto simp: section_defs timers_inv_def split: if_splits)
  next
    case (AddTimer n)
    then obtain source g where "s' = add_timer n source g s" using did by (auto split: place.splits)
    then show ?thesis
      using inv by (intro timers_keep [OF inv]) (auto simp: section_defs timers_inv_def split: if_splits)
  next
    case (StartTimer n)
    then obtain source g where "ae_places s n = TimerAdded source g" "s' = put n (TimerRunning source g) s"
      using did by (auto split: place.splits)
    then show ?thesis
      using inv by (intro timers_keep [OF inv]) (auto simp: section_defs timers_inv_def split: if_splits)
  next
    case (Endpoint n ok)
    then obtain source g where "s' = announce_endpoint n source g ok s" using did by (auto split: place.splits)
    then show ?thesis
      using inv by (intro timers_keep [OF inv]) (auto simp: section_defs timers_inv_def split: if_splits)
  next
    case (CheckGate n)
    then obtain timer source g where "s' = check_gate n timer source g s" using did by (auto split: place.splits)
    then show ?thesis
      using inv by (intro timers_keep [OF inv]) (auto simp: section_defs timers_inv_def split: if_splits)
  next
    case (Fire n)
    then obtain source g where "s' = put n (Gate True source g) s" using did by (auto split: place.splits if_splits)
    then show ?thesis
      using inv by (intro timers_keep [OF inv]) (auto simp: section_defs timers_inv_def split: if_splits)
  next
    case (CheckBlocked n blocked)
    then obtain timer source where "s' = (if blocked then commit_done n timer False s else put n (Unblocked timer source) s)"
      using did by (auto split: place.splits)
    then show ?thesis
      using inv by (intro timers_keep [OF inv]) (auto simp: section_defs timers_inv_def split: if_splits)
  next
    case (OnCommit n ok)
    then obtain timer source where "ae_places s n = Unblocked timer source" using did by (auto split: place.splits)
    then show ?thesis
      using inv did OnCommit by (intro timers_keep [OF inv]) (auto simp: section_defs timers_inv_def split: if_splits)
  next
    case (Commit n ok)
    then obtain timer source where "ae_places s n = Committing timer source" using did by (auto split: place.splits)
    then show ?thesis
      using inv did Commit by (intro timers_keep [OF inv]) (auto simp: section_defs timers_inv_def split: if_splits)
  next
    case (LeaveTimer n)
    then have "s' = put n (Returned True) (s\<lparr>ae_timers := ae_timers s - {n}\<rparr>)" using did by (auto split: place.splits)
    then show ?thesis
      using inv by (intro timers_keep [OF inv]) (auto simp: section_defs timers_inv_def split: if_splits)
  qed
qed

interpretation endpoint_timers: step_invariant endpoint_step timers_inv
  by unfold_locales (rule timers_step)

text \<open>After a close that has returned, seen from its state \<open>s0\<close>.\<close>

definition silent_since :: "AsrEndpointRuntime \<Rightarrow> AsrEndpointRuntime \<Rightarrow> bool" where
  "silent_since s0 s \<longleftrightarrow> ae_closed s
     \<and> (\<forall>n. waiting (ae_places s n) \<longrightarrow> n \<in> ae_cancelled s)
     \<and> (\<forall>n. in_commit (ae_places s n) \<longrightarrow> in_commit (ae_places s0 n))
     \<and> (\<exists>evs. ae_trace s = ae_trace s0 @ evs \<and> (\<forall>n. EvGatePassed n \<notin> set evs) \<and> (\<forall>n source t. EvAccepted n source t \<notin> set evs)
          \<and> (\<forall>n. EvCommit n \<in> set evs \<longrightarrow> in_commit (ae_places s0 n)))"

lemma silent_keep:
  assumes "silent_since s0 s" "ae_closed s' = ae_closed s" "ae_cancelled s \<subseteq> ae_cancelled s'"
    "\<And>m. waiting (ae_places s' m) \<Longrightarrow> waiting (ae_places s m)" "\<And>m. in_commit (ae_places s' m) \<Longrightarrow> in_commit (ae_places s m)"
    "ae_trace s' = ae_trace s @ evs" "\<forall>n. EvGatePassed n \<notin> set evs" "\<forall>n source t. EvAccepted n source t \<notin> set evs"
    "\<And>n. EvCommit n \<in> set evs \<Longrightarrow> in_commit (ae_places s n)"
  shows "silent_since s0 s'"
proof -
  obtain old where "ae_trace s = ae_trace s0 @ old" "\<forall>n. EvGatePassed n \<notin> set old"
      "\<forall>n source t. EvAccepted n source t \<notin> set old" "\<forall>n. EvCommit n \<in> set old \<longrightarrow> in_commit (ae_places s0 n)"
    using assms(1) by (auto simp: silent_since_def)
  then have "ae_trace s' = ae_trace s0 @ (old @ evs)" "\<forall>n. EvGatePassed n \<notin> set (old @ evs)"
      "\<forall>n source t. EvAccepted n source t \<notin> set (old @ evs)"
      "\<forall>n. EvCommit n \<in> set (old @ evs) \<longrightarrow> in_commit (ae_places s0 n)"
    using assms(1,6-9) by (auto simp: silent_since_def)
  then show ?thesis using assms(1-5) unfolding silent_since_def by blast
qed

lemma silent_step:
  assumes "endpoint_step op s s'" and silent: "silent_since s0 s"
  shows "silent_since s0 s'"
proof -
  note did = assms(1) [unfolded endpoint_step_def]
  have closed: "ae_closed s" using silent by (simp add: silent_since_def)
  show ?thesis
  proof (cases op)
    case (Accept n now)
    then have "s' = put n (Returned False) s" using did closed by (auto simp: accept_request_def split: place.splits)
    then show ?thesis by (intro silent_keep [OF silent, where evs = "[]"]) (auto simp: section_defs split: if_splits)
  next
    case (Request n source blocked)
    then have "s' = put n (if blocked then Returned False else Asked source) s" using did by (auto split: place.splits)
    then show ?thesis by (intro silent_keep [OF silent, where evs = "[]"]) (auto simp: section_defs split: if_splits)
  next
    case (AddTimer n)
    then have "s' = put n (Returned False) s" using did closed by (auto simp: add_timer_def split: place.splits)
    then show ?thesis by (intro silent_keep [OF silent, where evs = "[]"]) (auto simp: section_defs split: if_splits)
  next
    case (StartTimer n)
    then obtain source g where "ae_places s n = TimerAdded source g" "s' = put n (TimerRunning source g) s"
      using did by (auto split: place.splits)
    then show ?thesis by (intro silent_keep [OF silent, where evs = "[]"]) (auto simp: section_defs split: if_splits)
  next
    case (Endpoint n ok)
    then obtain source g where "s' = announce_endpoint n source g ok s" using did by (auto split: place.splits)
    then show ?thesis
      by (intro silent_keep [OF silent, where evs = "[EvEndpoint n source (ae_delay_ms s)]"]) (auto simp: section_defs split: if_splits)
  next
    case (CheckGate n)
    then obtain timer source g where "s' = check_gate n timer source g s" using did by (auto split: place.splits)
    then show ?thesis using closed
      by (intro silent_keep [OF silent, where evs = "[]"]) (auto simp: section_defs split: if_splits)
  next
    case (Fire n)
    then obtain source g where "s' = put n (Gate True source g) s" using did by (auto split: place.splits if_splits)
    then show ?thesis by (intro silent_keep [OF silent, where evs = "[]"]) (auto simp: section_defs split: if_splits)
  next
    case (CheckBlocked n blocked)
    then obtain timer source where "ae_places s n = GatePassed timer source"
        "s' = (if blocked then commit_done n timer False s else put n (Unblocked timer source) s)"
      using did by (auto split: place.splits)
    then show ?thesis by (intro silent_keep [OF silent, where evs = "[]"]) (auto simp: section_defs split: if_splits)
  next
    case (OnCommit n ok)
    then obtain timer source where "ae_places s n = Unblocked timer source" using did by (auto split: place.splits)
    then show ?thesis
      using did OnCommit
      by (intro silent_keep [OF silent, where evs = "EvOnCommit n source # (if ok then [] else [EvError n])"])
        (auto simp: section_defs split: if_splits)
  next
    case (Commit n ok)
    then obtain timer source where "ae_places s n = Committing timer source" using did by (auto split: place.splits)
    then show ?thesis
      using did Commit
      by (intro silent_keep [OF silent, where evs = "EvCommit n # (if ok then [] else [EvError n])"])
        (auto simp: section_defs split: if_splits)
  next
    case (LeaveTimer n)
    then have "s' = put n (Returned True) (s\<lparr>ae_timers := ae_timers s - {n}\<rparr>)" using did by (auto split: place.splits)
    then show ?thesis by (intro silent_keep [OF silent, where evs = "[]"]) (auto simp: section_defs split: if_splits)
  next
    case (Close c)
    then show ?thesis
      using did closed by (intro silent_keep [OF silent, where evs = "[EvClosed]"]) (auto simp: section_defs split: if_splits)
  next
    case (CancelPending c)
    then show ?thesis
      using did closed by (intro silent_keep [OF silent, where evs = "[]"]) (auto simp: section_defs split: if_splits)
  next
    case (CancelTimer c n)
    then show ?thesis
      using did by (intro silent_keep [OF silent, where evs = "[]"]) (auto simp: section_defs split: option.splits if_splits)
  next
    case (CancelReturn c)
    then show ?thesis
      using did by (intro silent_keep [OF silent, where evs = "[]"]) (auto simp: section_defs split: if_splits)
  qed
qed

interpretation endpoint_silent: step_invariant endpoint_step "silent_since s0" for s0
  by unfold_locales (rule silent_step)

section \<open>Theorems\<close>

lemmas endpoint_runs = steps_run_partial [where f = endpoint_section, OF endpoint_step_def]

lemma first_request_apart: "\<not> Fin t - NegInf < w"
  by (simp add: minus_pyfloat_def)

lemmas endpoint_eval = first_request_apart endpoint_runs section_defs asr_endpoint_runtime_def

text \<open>C12. An utterance is committed at most once, and only while it stands. However calls and timers interleave, a
  request whose commit is called is committed only once; it was accepted before, and it passed the gate with no
  cancel or close between its acceptance and the gate, and the runtime was not closed before.\<close>

theorem commits_are_granted_once:
  assumes "steps endpoint_step ops (asr_endpoint_runtime delay_ms window) s" "ae_trace s = a @ EvCommit n # b"
  shows "EvCommit n \<notin> set a \<and> EvCommit n \<notin> set b
    \<and> (\<exists>p q r source t. a = p @ EvAccepted n source t # q @ EvGatePassed n # r \<and> EvCancelled \<notin> set q \<and> EvClosed \<notin> set (p @ q))"
proof -
  have "commits_ok (ae_trace s)"
    using endpoint.steps_inv [OF assms(1) endpoint_inv_init] by (simp add: endpoint_inv_def)
  note each = this [unfolded commits_ok_def]
  have now: "granted_request a n" "EvCommit n \<notin> set a" using at_eachD [OF each assms(2)] by simp_all
  have "EvCommit n \<notin> set b"
  proof
    assume "EvCommit n \<in> set b"
    then obtain c d where "b = c @ EvCommit n # d" by (meson split_list)
    then have "EvCommit n \<notin> set (a @ EvCommit n # c)"
      using at_eachD [OF each, of "a @ EvCommit n # c" "EvCommit n" d] assms(2) by simp
    then show False by simp
  qed
  moreover obtain p q r source t where "a = (p @ EvAccepted n source t # q) @ EvGatePassed n # r"
      "EvCancelled \<notin> set q" "EvClosed \<notin> set (p @ q)"
    using now(1) unfolding granted_request_def pending_request_def by blast
  then have "a = p @ EvAccepted n source t # q @ EvGatePassed n # r" "EvCancelled \<notin> set q" "EvClosed \<notin> set (p @ q)"
    by simp_all
  ultimately show ?thesis using now(2) by blast
qed

theorem commits_are_granted_once_witness:
  "\<exists>s a. steps endpoint_step [Request 0 [1] False, Accept 0 (Fin 1), Endpoint 0 True, AddTimer 0, StartTimer 0, Fire 0,
        CheckGate 0, CheckBlocked 0 False, OnCommit 0 True, Commit 0 True] (asr_endpoint_runtime 200 (Fin 0.25)) s
     \<and> ae_trace s = a @ [EvCommit 0] \<and> EvCommit 0 \<notin> set a"
proof -
  have "\<exists>s. steps endpoint_step [Request 0 [1] False, Accept 0 (Fin 1), Endpoint 0 True, AddTimer 0, StartTimer 0,
      Fire 0, CheckGate 0, CheckBlocked 0 False, OnCommit 0 True, Commit 0 True] (asr_endpoint_runtime 200 (Fin 0.25)) s
    \<and> ae_trace s = [EvAccepted 0 [1] (Fin 1), EvEndpoint 0 [1] 200, EvGatePassed 0, EvOnCommit 0 [1]] @ EvCommit 0 # []"
    by (simp add: endpoint_eval)
  then obtain s where s: "steps endpoint_step [Request 0 [1] False, Accept 0 (Fin 1), Endpoint 0 True, AddTimer 0, StartTimer 0,
      Fire 0, CheckGate 0, CheckBlocked 0 False, OnCommit 0 True, Commit 0 True] (asr_endpoint_runtime 200 (Fin 0.25)) s"
    and tr: "ae_trace s = [EvAccepted 0 [1] (Fin 1), EvEndpoint 0 [1] 200, EvGatePassed 0, EvOnCommit 0 [1]] @ EvCommit 0 # []"
    by blast
  show ?thesis using commits_are_granted_once [OF s tr] s tr by blast
qed

text \<open>C13. A closed endpoint falls silent. Once the runtime is closed and no cancelling call is under way any more,
  no timer fires in any continuation, no request is accepted or passes the gate, and a commit is only called for a
  request that was past the gate already.\<close>

theorem closed_endpoint_falls_silent:
  assumes "steps endpoint_step ops (asr_endpoint_runtime delay_ms window) s" "ae_closed s" "\<forall>c. ae_cancelling s c = None"
    and "steps endpoint_step later s s'"
  shows "endpoint_section (Fire n) s' = None
    \<and> (\<exists>evs. ae_trace s' = ae_trace s @ evs \<and> (\<forall>n source t. EvAccepted n source t \<notin> set evs) \<and> (\<forall>n. EvGatePassed n \<notin> set evs)
         \<and> (\<forall>n. EvCommit n \<in> set evs \<longrightarrow> in_commit (ae_places s n)))"
proof -
  have "timers_inv (asr_endpoint_runtime delay_ms window)" by (simp add: timers_inv_def asr_endpoint_runtime_def)
  then have "timers_inv s" by (rule endpoint_timers.steps_inv [OF assms(1)])
  then have "\<forall>n. waiting (ae_places s n) \<longrightarrow> n \<in> ae_cancelled s" using assms(2,3) by (auto simp: timers_inv_def doomed_def)
  then have "silent_since s s" using assms(2) by (simp add: silent_since_def)
  then have silent: "silent_since s s'" by (rule endpoint_silent.steps_inv [OF assms(4)])
  then have "endpoint_section (Fire n) s' = None" by (auto simp: silent_since_def split: place.split)
  then show ?thesis using silent unfolding silent_since_def by blast
qed

theorem closed_endpoint_falls_silent_witness:
  "\<exists>s. steps endpoint_step [Request 0 [1] False, Accept 0 (Fin 1), Endpoint 0 True, AddTimer 0, StartTimer 0, Close 1, CancelTimer 1 0,
        CancelReturn 1] (asr_endpoint_runtime 200 (Fin 0.25)) s
     \<and> ae_places s 0 = TimerRunning [1] 0 \<and> endpoint_section (Fire 0) s = None"
proof -
  have "\<exists>s. steps endpoint_step [Request 0 [1] False, Accept 0 (Fin 1), Endpoint 0 True, AddTimer 0, StartTimer 0, Close 1,
      CancelTimer 1 0, CancelReturn 1] (asr_endpoint_runtime 200 (Fin 0.25)) s
    \<and> ae_closed s \<and> (\<forall>c. ae_cancelling s c = None) \<and> ae_places s 0 = TimerRunning [1] 0"
    by (simp add: endpoint_eval)
  then obtain s where s: "steps endpoint_step [Request 0 [1] False, Accept 0 (Fin 1), Endpoint 0 True, AddTimer 0, StartTimer 0, Close 1,
      CancelTimer 1 0, CancelReturn 1] (asr_endpoint_runtime 200 (Fin 0.25)) s"
    and facts: "ae_closed s" "\<forall>c. ae_cancelling s c = None" "ae_places s 0 = TimerRunning [1] 0"
    by blast
  show ?thesis using closed_endpoint_falls_silent [OF s facts(1,2) steps.none, of 0] s facts(3) by blast
qed


end
