(* ===== verification/User_Memory.thy ===== *)
theory User_Memory
  imports Effects User_Preferences Voice_Session "HOL-Library.List_Lexorder"
begin

text \<open>
  \<open>user_memory.py\<close>, \<open>memory_command_service.py\<close> and \<open>user_context_runtime.py\<close>: the profiles of speakers, the
  spoken commands that change them and the identity of the current speaker. A profile is a file with a JSON
  object; a file that cannot be read or is no JSON is \<open>Unreadable\<close>. A write is atomic (a temporary file is
  renamed) and may fail; the clock and the disk are sequences of future readings and outcomes. What \<open>str\<close>
  gives for a value that is no text is the argument \<open>py_str\<close>, what \<open>dict\<close> gives for a value that is neither an
  object nor empty the argument \<open>py_dict\<close>, and \<open>float\<close> of a text the argument \<open>parse_float\<close>; nothing is assumed of
  them.
\<close>

section \<open>Speakers\<close>

definition UNKNOWN_SPEAKER :: ustr where
  "UNKNOWN_SPEAKER = codes ''unknown''"

record SpeakerIdentity =
  si_speaker_id :: ustr
  si_confidence :: pyfloat
  si_enrolled :: bool
  si_model :: ustr
  si_display_name :: ustr
  si_updated_at :: pyfloat

definition speaker_identity :: SpeakerIdentity where
  "speaker_identity =
     \<lparr>si_speaker_id = UNKNOWN_SPEAKER, si_confidence = 0, si_enrolled = False, si_model = UNKNOWN_SPEAKER,
      si_display_name = [], si_updated_at = 0\<rparr>"

definition usable :: "SpeakerIdentity \<Rightarrow> bool" where
  "usable i \<longleftrightarrow> si_enrolled i \<and> si_speaker_id i \<noteq> [] \<and> si_speaker_id i \<noteq> UNKNOWN_SPEAKER"

text \<open>What the store takes as a speaker: an identity, a text or nothing.\<close>

datatype speaker = Identity SpeakerIdentity | SpeakerId ustr | NoSpeaker

definition speaker_id :: "speaker \<Rightarrow> ustr" where
  "speaker_id who =
     (case who of
        Identity i \<Rightarrow> if usable i then si_speaker_id i else UNKNOWN_SPEAKER
      | SpeakerId t \<Rightarrow> if ustrip t \<noteq> [] then ustrip t else UNKNOWN_SPEAKER
      | NoSpeaker \<Rightarrow> UNKNOWN_SPEAKER)"

text \<open>The file of a speaker, without \<open>.json\<close>: every run of other characters than letters, digits, \<open>_\<close>, \<open>-\<close> and the
  common Chinese characters becomes one \<open>_\<close>, and points and underscores at the ends go.\<close>

definition safe_id_char :: "nat \<Rightarrow> bool" where
  "safe_id_char c \<longleftrightarrow> 0x61 \<le> c \<and> c \<le> 0x7A \<or> 0x41 \<le> c \<and> c \<le> 0x5A \<or> 0x30 \<le> c \<and> c \<le> 0x39 \<or> c = 0x5F \<or> c = 0x2D
     \<or> 0x4E00 \<le> c \<and> c \<le> 0x9FFF"

fun replace_runs :: "bool \<Rightarrow> ustr \<Rightarrow> ustr" where
  "replace_runs inside [] = []"
| "replace_runs inside (c # cs) =
     (if safe_id_char c then c # replace_runs False cs
      else if inside then replace_runs True cs else 0x5F # replace_runs True cs)"

definition profile_path :: "ustr \<Rightarrow> ustr" where
  "profile_path who =
     (let safe = strip_set [0x2E, 0x5F] (replace_runs False (if who = [] then UNKNOWN_SPEAKER else who))
      in if safe = [] then UNKNOWN_SPEAKER else safe)"

section \<open>Profiles\<close>

record UserProfile =
  up_speaker_id :: ustr
  up_display_name :: ustr
  up_preferences :: arguments
  up_command_counts :: "(ustr \<times> int) list"
  up_recent_interactions :: "arguments list"
  up_corrections :: "arguments list"
  up_updated_at :: pyfloat

definition new_profile :: "ustr \<Rightarrow> pyfloat \<Rightarrow> UserProfile" where
  "new_profile who t =
     \<lparr>up_speaker_id = who, up_display_name = [], up_preferences = [], up_command_counts = [],
      up_recent_interactions = [], up_corrections = [], up_updated_at = t\<rparr>"

definition profile_as_dict :: "UserProfile \<Rightarrow> arguments" where
  "profile_as_dict p =
     [(codes ''speaker_id'', JString (up_speaker_id p)),
      (codes ''display_name'', JString (up_display_name p)),
      (codes ''preferences'', JObject (up_preferences p)),
      (codes ''command_counts'', JObject (map (\<lambda>(k, n). (k, JInt n)) (up_command_counts p))),
      (codes ''recent_interactions'', JList (map JObject (up_recent_interactions p))),
      (codes ''corrections'', JList (map JObject (up_corrections p))),
      (codes ''updated_at'', JFloat (up_updated_at p))]"

text \<open>\<open>_as_float\<close>; a missing value is \<open>None\<close>.\<close>

fun as_float :: "(ustr \<Rightarrow> pyfloat option) \<Rightarrow> json option \<Rightarrow> pyfloat \<Rightarrow> pyfloat" where
  "as_float parse_float (Some (JInt n)) dflt = Fin (real_of_int n)"
| "as_float parse_float (Some (JBool b)) dflt = Fin (if b then 1 else 0)"
| "as_float parse_float (Some (JFloat x)) dflt = x"
| "as_float parse_float (Some (JString t)) dflt = (case parse_float t of Some x \<Rightarrow> x | None \<Rightarrow> dflt)"
| "as_float parse_float v dflt = dflt"

text \<open>\<open>dict(v or {})\<close> and \<open>list(v or [])\<close>; what a list of something else than objects holds is dropped by the
  filter that follows. \<open>int\<close> of the counts that are numbers.\<close>

definition dict_value :: "(json \<Rightarrow> arguments option) \<Rightarrow> json option \<Rightarrow> arguments result" where
  "dict_value py_dict v =
     (case v of
        None \<Rightarrow> Inr []
      | Some v \<Rightarrow>
          if falsy v then Inr []
          else (case v of
                  JObject d \<Rightarrow> Inr d
                | _ \<Rightarrow> (case py_dict v of Some d \<Rightarrow> Inr d | None \<Rightarrow> Inl (TypeError ''not a dictionary''))))"

fun is_object :: "json \<Rightarrow> bool" where
  "is_object (JObject d) = True"
| "is_object _ = False"

fun object_items :: "json \<Rightarrow> arguments" where
  "object_items (JObject d) = d"
| "object_items _ = []"

definition objects_value :: "json option \<Rightarrow> arguments list result" where
  "objects_value v =
     (case v of
        None \<Rightarrow> Inr []
      | Some v \<Rightarrow>
          if falsy v then Inr []
          else (case v of
                  JList xs \<Rightarrow> Inr (map object_items (filter is_object xs))
                | JObject d \<Rightarrow> Inr []
                | JString t \<Rightarrow> Inr []
                | _ \<Rightarrow> Inl (TypeError ''not iterable'')))"

fun count_value :: "json \<Rightarrow> int option result" where
  "count_value (JBool b) = Inr (Some (if b then 1 else 0))"
| "count_value (JInt n) = Inr (Some n)"
| "count_value (JFloat x) =
     (case x of
        Fin r \<Rightarrow> Inr (Some (if 0 \<le> r then \<lfloor>r\<rfloor> else \<lceil>r\<rceil>))
      | NaN \<Rightarrow> Inl (ValueError ''cannot convert float NaN to integer'')
      | _ \<Rightarrow> Inl (OverflowError ''cannot convert float infinity to integer''))"
| "count_value _ = Inr None"

fun count_values :: "arguments \<Rightarrow> (ustr \<times> int) list result" where
  "count_values [] = Inr []"
| "count_values ((key, v) # items) =
     rbind (count_value v) (\<lambda>n. rbind (count_values items) (\<lambda>counts. Inr ((case n of None \<Rightarrow> [] | Some n \<Rightarrow> [(key, n)]) @ counts)))"

definition profile_from_dict ::
  "(json \<Rightarrow> ustr) \<Rightarrow> (json \<Rightarrow> arguments option) \<Rightarrow> (ustr \<Rightarrow> pyfloat option) \<Rightarrow> arguments \<Rightarrow> ustr \<Rightarrow> UserProfile result" where
  "profile_from_dict py_str py_dict parse_float raw who =
     (let stored_id = restore_text py_str (map_of raw (codes ''speaker_id''))
      in rbind (dict_value py_dict (map_of raw (codes ''preferences''))) (\<lambda>preferences.
           rbind (rbind (dict_value py_dict (map_of raw (codes ''command_counts''))) count_values) (\<lambda>counts.
             rbind (objects_value (map_of raw (codes ''recent_interactions''))) (\<lambda>recent.
               rbind (objects_value (map_of raw (codes ''corrections''))) (\<lambda>corrections.
                 Inr \<lparr>up_speaker_id = (if stored_id = [] then who else stored_id),
                   up_display_name = restore_text py_str (map_of raw (codes ''display_name'')),
                   up_preferences = preferences, up_command_counts = counts, up_recent_interactions = recent,
                   up_corrections = corrections,
                   up_updated_at = as_float parse_float (map_of raw (codes ''updated_at'')) 0\<rparr>)))))"

section \<open>Store\<close>

datatype stored = Unreadable | Content json

record memory_world =
  mw_files :: "ustr \<Rightarrow> stored option"
  mw_clock :: clock
  mw_disk :: "nat \<Rightarrow> bool"
  mw_identity :: SpeakerIdentity

record UserMemoryStore =
  us_max_recent :: nat
  us_retention_s :: pyfloat

type_synonym 'a memory_proc = "(memory_world, 'a) proc"

definition user_memory_store :: "int \<Rightarrow> pyfloat \<Rightarrow> UserMemoryStore" where
  "user_memory_store max_recent retention_s =
     \<lparr>us_max_recent = nat (max 1 max_recent), us_retention_s = pymax 0 retention_s\<rparr>"

text \<open>A reading of the clock, whether the disk takes the next write, and the write of a file.\<close>

definition memory_now :: "pyfloat memory_proc" where
  "memory_now = query (\<lambda>w. case tick (mw_clock w) of (t, clk) \<Rightarrow> (t, w\<lparr>mw_clock := clk\<rparr>))"

definition disk_takes :: "bool memory_proc" where
  "disk_takes = query (\<lambda>w. (mw_disk w 0, w\<lparr>mw_disk := (\<lambda>n. mw_disk w (Suc n))\<rparr>))"

definition write_file :: "ustr \<Rightarrow> stored option \<Rightarrow> unit memory_proc" where
  "write_file path content =
     bind disk_takes (\<lambda>ok.
       if ok then modify (\<lambda>w. w\<lparr>mw_files := (mw_files w)(path := content)\<rparr>) else raise (OSError ''disk''))"

definition writable_speaker_id :: "speaker \<Rightarrow> ustr memory_proc" where
  "writable_speaker_id who =
     (if speaker_id who = UNKNOWN_SPEAKER
      then raise (LowConfidenceSpeakerError ''low confidence speaker identity; refusing to write personal memory'')
      else ret (speaker_id who))"

definition save_profile :: "UserProfile \<Rightarrow> unit memory_proc" where
  "save_profile p = write_file (profile_path (up_speaker_id p)) (Some (Content (JObject (profile_as_dict p))))"

text \<open>\<open>int\<close> of an infinite count is the one exception that leaves this function.\<close>

definition load_profile ::
  "(json \<Rightarrow> ustr) \<Rightarrow> (json \<Rightarrow> arguments option) \<Rightarrow> (ustr \<Rightarrow> pyfloat option) \<Rightarrow> ustr \<Rightarrow> UserProfile memory_proc" where
  "load_profile py_str py_dict parse_float who =
     bind (query (\<lambda>w. (mw_files w (profile_path who), w))) (\<lambda>file.
       case file of
         Some (Content (JObject raw)) \<Rightarrow>
           (case profile_from_dict py_str py_dict parse_float raw who of
              Inr p \<Rightarrow> ret p
            | Inl (OverflowError m) \<Rightarrow> raise (OverflowError m)
            | Inl _ \<Rightarrow> bind memory_now (\<lambda>t. ret (new_profile who t)))
       | _ \<Rightarrow> bind memory_now (\<lambda>t. ret (new_profile who t)))"

definition prune_expired ::
  "(ustr \<Rightarrow> pyfloat option) \<Rightarrow> UserMemoryStore \<Rightarrow> UserProfile \<Rightarrow> (bool \<times> UserProfile) memory_proc" where
  "prune_expired parse_float store p =
     bind memory_now (\<lambda>t.
       (let cutoff = (if us_retention_s store \<le> 0 then t else t - us_retention_s store);
            recent = filter (\<lambda>item. cutoff \<le> as_float parse_float (map_of item (codes ''ts'')) 0) (up_recent_interactions p);
            corrections = filter (\<lambda>item. cutoff \<le> as_float parse_float (map_of item (codes ''ts'')) 0) (up_corrections p)
        in ret (length recent \<noteq> length (up_recent_interactions p) \<or> length corrections \<noteq> length (up_corrections p),
             p\<lparr>up_recent_interactions := recent, up_corrections := corrections\<rparr>)))"

section \<open>Operations of the store\<close>

text \<open>What the model takes from outside.\<close>

record memory_env =
  me_py_str :: "json \<Rightarrow> ustr"
  me_py_dict :: "json \<Rightarrow> arguments option"
  me_parse_float :: "ustr \<Rightarrow> pyfloat option"

definition load :: "memory_env \<Rightarrow> ustr \<Rightarrow> UserProfile memory_proc" where
  "load e who = load_profile (me_py_str e) (me_py_dict e) (me_parse_float e) who"

definition profile :: "memory_env \<Rightarrow> UserMemoryStore \<Rightarrow> speaker \<Rightarrow> UserProfile memory_proc" where
  "profile e store who =
     bind (load e (speaker_id who)) (\<lambda>p.
       bind (prune_expired (me_parse_float e) store p) (\<lambda>(expired, p).
         andthen (if expired then save_profile p else skip) (ret p)))"

text \<open>Load, change, note the time and save.\<close>

definition change_profile ::
  "memory_env \<Rightarrow> speaker \<Rightarrow> (UserProfile \<Rightarrow> UserProfile) \<Rightarrow> UserProfile memory_proc" where
  "change_profile e who f =
     bind (writable_speaker_id who) (\<lambda>who.
       bind (load e who) (\<lambda>p.
         bind memory_now (\<lambda>t.
           (let p = (f p)\<lparr>up_updated_at := t\<rparr> in andthen (save_profile p) (ret p)))))"

definition enroll :: "memory_env \<Rightarrow> speaker \<Rightarrow> ustr \<Rightarrow> UserProfile memory_proc" where
  "enroll e who display_name =
     change_profile e who (\<lambda>p. p\<lparr>up_display_name := (if ustrip display_name \<noteq> [] then ustrip display_name else up_display_name p)\<rparr>)"

definition set_preference :: "memory_env \<Rightarrow> speaker \<Rightarrow> ustr \<Rightarrow> json \<Rightarrow> UserProfile memory_proc" where
  "set_preference e who key v = change_profile e who (\<lambda>p. p\<lparr>up_preferences := set_arg key v (up_preferences p)\<rparr>)"

definition remove_preference :: "memory_env \<Rightarrow> speaker \<Rightarrow> ustr \<Rightarrow> UserProfile memory_proc" where
  "remove_preference e who key =
     change_profile e who (\<lambda>p. p\<lparr>up_preferences := filter (\<lambda>(k, v). k \<noteq> key) (up_preferences p)\<rparr>)"

definition clear_profile :: "speaker \<Rightarrow> unit memory_proc" where
  "clear_profile who =
     bind (writable_speaker_id who) (\<lambda>who.
       bind (query (\<lambda>w. (mw_files w (profile_path who) \<noteq> None, w))) (\<lambda>there.
         if there then write_file (profile_path who) None else skip))"

text \<open>The counts of the actions of an interaction, and the interaction itself.\<close>

fun add_count :: "ustr \<Rightarrow> (ustr \<times> int) list \<Rightarrow> (ustr \<times> int) list" where
  "add_count name [] = [(name, 1)]"
| "add_count name ((k, n) # counts) = (if k = name then (k, n + 1) # counts else (k, n) # add_count name counts)"

definition count_actions :: "(json \<Rightarrow> ustr) \<Rightarrow> arguments list \<Rightarrow> (ustr \<times> int) list \<Rightarrow> (ustr \<times> int) list" where
  "count_actions py_str actions counts =
     fold (\<lambda>action counts.
       (let name = restore_text py_str (map_of action (codes ''name'')) in if name = [] then counts else add_count name counts))
       actions counts"

definition interaction :: "pyfloat \<Rightarrow> ustr \<Rightarrow> ustr \<Rightarrow> arguments list \<Rightarrow> json \<Rightarrow> arguments" where
  "interaction t user_text assistant_text actions success =
     [(codes ''ts'', JFloat t), (codes ''user'', JString user_text), (codes ''assistant'', JString assistant_text),
      (codes ''actions'', JList (map JObject actions)), (codes ''success'', success)]"

definition last_items :: "nat \<Rightarrow> 'a list \<Rightarrow> 'a list" where
  "last_items n xs = drop (length xs - n) xs"

definition record_interaction ::
  "memory_env \<Rightarrow> UserMemoryStore \<Rightarrow> speaker \<Rightarrow> ustr \<Rightarrow> ustr \<Rightarrow> arguments list \<Rightarrow> json \<Rightarrow> UserProfile memory_proc" where
  "record_interaction e store who user_text assistant_text actions success =
     bind (writable_speaker_id who) (\<lambda>who.
       bind (load e who) (\<lambda>p.
         bind (prune_expired (me_parse_float e) store p) (\<lambda>(expired, p).
           bind memory_now (\<lambda>t.
             (let p = p\<lparr>up_command_counts := count_actions (me_py_str e) actions (up_command_counts p),
                   up_recent_interactions := last_items (us_max_recent store)
                     (up_recent_interactions p @ [interaction t user_text assistant_text actions success]),
                   up_updated_at := t\<rparr>
              in andthen (save_profile p) (ret p))))))"

text \<open>The text for the prompt: at most \<open>max_chars\<close> characters. Preferences are sorted by their keys, which are
  distinct; of equal counts the first comes first.\<close>

definition value_text :: "(json \<Rightarrow> ustr) \<Rightarrow> json \<Rightarrow> ustr" where
  "value_text py_str v = (case v of JString t \<Rightarrow> t | _ \<Rightarrow> py_str v)"

fun join_texts :: "ustr \<Rightarrow> ustr list \<Rightarrow> ustr" where
  "join_texts sep [] = []"
| "join_texts sep [t] = t"
| "join_texts sep (t # t' # ts) = t @ sep @ join_texts sep (t' # ts)"

definition preference_texts :: "(json \<Rightarrow> ustr) \<Rightarrow> arguments \<Rightarrow> ustr list" where
  "preference_texts py_str preferences = map (\<lambda>(k,
    v). k @ [0x3D] @ value_text py_str v) (sort_key fst preferences)"

definition top_counts :: "(ustr \<times> int) list \<Rightarrow> (ustr \<times> int) list" where
  "top_counts counts = take 3 (sort_key (\<lambda>(name, n). - n) counts)"

definition summary_parts :: "(json \<Rightarrow> ustr) \<Rightarrow> ustr \<Rightarrow> UserProfile \<Rightarrow> ustr list" where
  "summary_parts py_str who p =
     [[0x5F53, 0x524D, 0x8BC6, 0x522B, 0x7528, 0x6237,
       0xFF1A] @ (if up_display_name p \<noteq> [] then up_display_name p else who) @ [0xFF08, 0x0073, 0x0070,
       0x0065, 0x0061, 0x006B, 0x0065, 0x0072, 0x005F, 0x0069, 0x0064, 0x003D] @ who @ [0xFF09, 0x3002]]
     @ (if up_preferences p = [] then []
        else [[0x7528, 0x6237, 0x504F, 0x597D,
          0xFF1A] @ join_texts [0xFF1B] (preference_texts py_str (up_preferences p)) @ [0x3002]])
     @ (if up_command_counts p = [] then []
        else [[0x5E38, 0x7528, 0x52A8, 0x4F5C, 0xFF1A] @ join_texts [0xFF0C] (map (\<lambda>(name,
          n). name @ [0x00D7] @ codes (show_int n)) (top_counts (up_command_counts p)))
                @ [0x3002]])"

definition prompt_summary :: "memory_env \<Rightarrow> UserMemoryStore \<Rightarrow> speaker \<Rightarrow> int \<Rightarrow> ustr memory_proc" where
  "prompt_summary e store who max_chars =
     (let who = speaker_id who
      in if who = UNKNOWN_SPEAKER then ret []
         else bind (profile e store (SpeakerId who)) (\<lambda>p.
           ret (take (nat (max 0 max_chars)) (ustrip (join_texts [0x0A] (summary_parts (me_py_str e) who p))))))"

section \<open>Spoken commands\<close>

datatype MemoryCommand =
    WhoAmI
  | QueryPreferences
  | ClearMemory
  | DeletePreference ustr
  | EnrollRequested
  | EnrollName ustr
  | Preference "(ustr \<times> json) list"

definition normalize_memory_text :: "ustr \<Rightarrow> ustr" where
  "normalize_memory_text t =
     filter (\<lambda>c. c \<notin> set [0x0020, 0x0009, 0x000D, 0x000A, 0xFF0C, 0x3002, 0xFF01, 0xFF1F, 0x0021,
       0x003F, 0x3001, 0x002C, 0x002E, 0xFF1B, 0x003B, 0xFF1A, 0x003A]) (ustrip t)"

definition extract_name :: "ustr \<Rightarrow> ustr" where
  "extract_name phrase =
     (case find (\<lambda>prefix. contains prefix phrase) [[0x8BB0, 0x4F4F, 0x6211, 0x6211, 0x662F],
      [0x6211, 0x662F],
      [0x6211, 0x53EB]] of
        None \<Rightarrow> []
      | Some prefix \<Rightarrow>
          (case find_sub prefix phrase of
             None \<Rightarrow> []
           | Some i \<Rightarrow> take 12 (strip_set [0xFF0C, 0x3002, 0x002C, 0x002E, 0x0021, 0xFF01, 0x003F, 0xFF1F,
             0x0020] (take 12 (drop (i + length prefix) phrase)))))"

text \<open>A number in digits, and in Chinese characters.\<close>

definition is_digits :: "ustr \<Rightarrow> bool" where
  "is_digits t \<longleftrightarrow> t \<noteq> [] \<and> list_all (\<lambda>c. 0x30 \<le> c \<and> c \<le> 0x39) t"

definition digits_value :: "ustr \<Rightarrow> int" where
  "digits_value t = fold (\<lambda>c n. 10 * n + (int c - 0x30)) t 0"

definition CHINESE_DIGITS :: "(ustr \<times> int) list" where
  "CHINESE_DIGITS =
     [([0x96F6], 0), ([0x4E00], 1), ([0x4E8C], 2), ([0x4E24], 2), ([0x4E09], 3), ([0x56DB], 4), ([0x4E94], 5),
       ([0x516D], 6), ([0x4E03], 7), ([0x516B], 8), ([0x4E5D], 9)]"

definition SMALL_NUMBERS :: "(ustr \<times> int) list" where
  "SMALL_NUMBERS =
     [([0x4E00], 1), ([0x4E8C], 2), ([0x4E24], 2), ([0x4E09], 3), ([0x56DB], 4), ([0x4E94], 5), ([0x516D], 6),
       ([0x4E03], 7), ([0x516B], 8), ([0x4E5D], 9), ([0x5341], 10)]"

definition DEGREE_ALIASES :: "(ustr \<times> int) list" where
  "DEGREE_ALIASES =
     [([0x5341, 0x4E94], 15), ([0x4E09, 0x5341], 30), ([0x56DB, 0x5341, 0x4E94], 45), ([0x516D, 0x5341], 60),
       ([0x4E5D, 0x5341], 90), ([0x4E00, 0x767E, 0x516B, 0x5341], 180), ([0x4E09, 0x767E, 0x516D, 0x5341], 360)]"

definition parse_small_number :: "ustr \<Rightarrow> pyfloat option" where
  "parse_small_number t =
     (if is_digits t then
        (let n = digits_value t in if 0 < n \<and> n \<le> 10 then Some (Fin (real_of_int n)) else None)
      else map_option (\<lambda>n. Fin (real_of_int n)) (map_of SMALL_NUMBERS t))"

function parse_chinese_integer :: "ustr \<Rightarrow> int option" where
  "parse_chinese_integer t =
     (if t = [] then None
      else if map_of CHINESE_DIGITS t \<noteq> None then map_of CHINESE_DIGITS t
      else if 0x767E \<in> set t then
        (let left = takeWhile (\<lambda>c. c \<noteq> 0x767E) t; right = drop (length left + 1) t
         in case (if left = [] then Some 1 else map_of CHINESE_DIGITS left) of
              None \<Rightarrow> None
            | Some hundreds \<Rightarrow>
                map_option (\<lambda>remainder. hundreds * 100 + remainder)
                  (if right = [] then Some 0 else parse_chinese_integer right))
      else if 0x5341 \<in> set t then
        (let left = takeWhile (\<lambda>c. c \<noteq> 0x5341) t; right = drop (length left + 1) t
         in case (if left = [] then Some 1 else map_of CHINESE_DIGITS left,
                  if right = [] then Some 0 else map_of CHINESE_DIGITS right) of
              (Some tens, Some ones) \<Rightarrow> Some (tens * 10 + ones)
            | _ \<Rightarrow> None)
      else None)"
  by auto
termination
  by (relation "measure length") auto

definition parse_degree_number :: "ustr \<Rightarrow> pyfloat option" where
  "parse_degree_number t =
     (if is_digits t then
        (let n = digits_value t in if 15 \<le> n \<and> n \<le> 360 then Some (Fin (real_of_int n)) else None)
      else case map_of DEGREE_ALIASES t of
        Some n \<Rightarrow> Some (Fin (real_of_int n))
      | None \<Rightarrow>
          (case parse_chinese_integer t of
             Some n \<Rightarrow> if 15 \<le> n \<and> n \<le> 360 then Some (Fin (real_of_int n)) else None
           | None \<Rightarrow> None))"

text \<open>The searches for a default: the first place where the word for default, perhaps one of some words, a number
  and a unit follow each other. What may stand before it does not change the number found.\<close>

definition number_after :: "ustr list \<Rightarrow> ustr \<Rightarrow> nat \<Rightarrow> ustr \<Rightarrow> ustr option" where
  "number_after words number_chars unit_char t =
     (let t = (case find (\<lambda>w. starts_with w t) words of None \<Rightarrow> t | Some w \<Rightarrow> drop (length w) t);
          number = takeWhile (\<lambda>c. c \<in> set number_chars) t
      in if number \<noteq> [] \<and> starts_with [unit_char] (drop (length number) t) then Some number else None)"

fun search_default :: "ustr list \<Rightarrow> ustr \<Rightarrow> nat \<Rightarrow> ustr \<Rightarrow> ustr option" where
  "search_default words number_chars unit_char [] = None"
| "search_default words number_chars unit_char (c # t) =
     (case (if starts_with [0x9ED8,
       0x8BA4] (c # t) then number_after words number_chars unit_char (drop 2 (c # t)) else None) of
        Some number \<Rightarrow> Some number
      | None \<Rightarrow> search_default words number_chars unit_char t)"

definition default_seconds :: "ustr \<Rightarrow> pyfloat option" where
  "default_seconds phrase =
     Option.bind (search_default [[0x524D, 0x8FDB],
      [0x5411, 0x524D, 0x8D70],
      [0x5411, 0x524D]]
       [0x0030, 0x0031, 0x0032, 0x0033, 0x0034, 0x0035, 0x0036, 0x0037, 0x0038, 0x0039, 0x4E00, 0x4E8C, 0x4E24,
         0x4E09, 0x56DB, 0x4E94, 0x516D, 0x4E03, 0x516B, 0x4E5D, 0x5341] 0x79D2 phrase)
       parse_small_number"

definition default_degrees :: "ustr \<Rightarrow> pyfloat option" where
  "default_degrees phrase =
     Option.bind (search_default [[0x5DE6, 0x8F6C],
      [0x53F3, 0x8F6C],
      [0x8F6C, 0x5F2F],
      [0x8F6C, 0x5411]]
       [0x0030, 0x0031, 0x0032, 0x0033, 0x0034, 0x0035, 0x0036, 0x0037, 0x0038, 0x0039, 0x4E00, 0x4E8C, 0x4E24,
         0x4E09, 0x56DB, 0x4E94, 0x516D, 0x4E03, 0x516B, 0x4E5D, 0x5341, 0x767E] 0x5EA6 phrase)
       parse_degree_number"

definition extract_preference :: "ustr \<Rightarrow> (ustr \<times> json) list option" where
  "extract_preference phrase =
     (if contains [0x559C, 0x6B22, 0x6162, 0x4E00, 0x70B9] phrase \<or> contains [0x901F, 0x5EA6, 0x6162, 0x4E00,
       0x70B9] phrase
         \<or> phrase = [0x6162, 0x4E00, 0x70B9]
      then Some [(codes ''movement_speed'', JString (codes ''slow''))]
      else if contains [0x559C, 0x6B22, 0x5FEB, 0x4E00, 0x70B9] phrase \<or> contains [0x901F, 0x5EA6, 0x5FEB,
        0x4E00, 0x70B9] phrase
         \<or> phrase = [0x5FEB, 0x4E00, 0x70B9]
      then Some [(codes ''movement_speed'', JString (codes ''fast''))]
      else case default_seconds phrase of
        Some duration \<Rightarrow> Some [(codes ''default_move_duration_s'', JFloat duration)]
      | None \<Rightarrow>
          (case default_degrees phrase of
             Some degrees \<Rightarrow> Some [(codes ''default_turn_degrees'', JFloat degrees)]
           | None \<Rightarrow> None))"

definition extract_preference_deletion :: "ustr \<Rightarrow> ustr" where
  "extract_preference_deletion phrase =
     (if \<not> contains_any [[0x53D6, 0x6D88],
      [0x5220, 0x9664],
      [0x6E05, 0x9664],
      [0x6062, 0x590D, 0x9ED8, 0x8BA4]] phrase then []
      else if contains [0x901F, 0x5EA6] phrase \<or> contains [0x5FEB, 0x6162] phrase then codes ''movement_speed''
      else if contains [0x524D, 0x8FDB] phrase \<and> contains_any [[0x65F6, 0x957F],
      [0x65F6, 0x95F4],
      [0x79D2, 0x6570]] phrase then codes ''default_move_duration_s''
      else if contains_any [[0x8F6C, 0x5F2F],
      [0x5DE6, 0x8F6C],
      [0x53F3, 0x8F6C]] phrase \<and> contains [0x89D2, 0x5EA6] phrase then codes ''default_turn_degrees''
      else [])"

definition parse_memory_command :: "ustr \<Rightarrow> MemoryCommand option" where
  "parse_memory_command t =
     (let phrase = normalize_memory_text t
      in if phrase = [] then None
         else if contains_any [[0x6211, 0x662F, 0x8C01],
      [0x73B0, 0x5728, 0x662F, 0x8C01],
      [0x8BC6, 0x522B, 0x5230, 0x8C01]] phrase then Some WhoAmI
         else if contains_any [[0x6211, 0x7684, 0x504F, 0x597D],
      [0x67E5, 0x770B, 0x504F, 0x597D],
      [0x8BB0, 0x4F4F, 0x4E86, 0x4EC0, 0x4E48, 0x504F, 0x597D]] phrase then Some QueryPreferences
         else if contains_any [[0x6E05, 0x9664, 0x6211, 0x7684, 0x8BB0, 0x5FC6],
      [0x5220, 0x9664, 0x6211, 0x7684, 0x8BB0, 0x5FC6],
      [0x5FD8, 0x8BB0, 0x6211]] phrase then Some ClearMemory
         else if extract_preference_deletion phrase \<noteq> [] then Some (DeletePreference (extract_preference_deletion phrase))
         else if contains_any [[0x5F55, 0x5165, 0x6211, 0x7684, 0x58F0, 0x7EB9],
      [0x6CE8, 0x518C, 0x58F0, 0x7EB9],
      [0x8BB0, 0x4F4F, 0x6211, 0x7684, 0x58F0, 0x97F3]] phrase then Some EnrollRequested
         else if extract_name phrase \<noteq> [] then Some (EnrollName (extract_name phrase))
         else map_option Preference (extract_preference phrase))"

section \<open>Answering\<close>

record SpeakerEnrollRequest =
  er_speaker_id :: ustr
  er_display_name :: ustr
  er_samples_required :: int

record MemoryCommandResult =
  mr_response :: ustr
  mr_identity :: SpeakerIdentity
  mr_enroll_request :: "SpeakerEnrollRequest option"

definition enroll_request :: "ustr \<Rightarrow> ustr \<Rightarrow> SpeakerEnrollRequest" where
  "enroll_request who display_name = \<lparr>er_speaker_id = who, er_display_name = display_name, er_samples_required = 3\<rparr>"

definition listed_preferences :: "memory_env \<Rightarrow> UserProfile \<Rightarrow> ustr" where
  "listed_preferences e p = join_texts [0xFF0C] (preference_texts (me_py_str e) (up_preferences p))"

definition text_identity :: "ustr \<Rightarrow> pyfloat \<Rightarrow> SpeakerIdentity" where
  "text_identity name t =
     \<lparr>si_speaker_id = name, si_confidence = 1, si_enrolled = True, si_model = codes ''text-enroll-fallback'',
      si_display_name = name, si_updated_at = t\<rparr>"

text \<open>The response to a command, with the identity and the request for samples that come with it.\<close>

definition answer_command ::
  "memory_env \<Rightarrow> UserMemoryStore \<Rightarrow> SpeakerIdentity \<Rightarrow> MemoryCommand \<Rightarrow> MemoryCommandResult memory_proc" where
  "answer_command e store i parsed =
     (case parsed of
        WhoAmI \<Rightarrow>
          if usable i then
            bind (profile e store (Identity i)) (\<lambda>p.
              ret \<lparr>mr_response = [0x6211, 0x8BC6, 0x522B, 0x5230, 0x5F53, 0x524D, 0x7528, 0x6237, 0x662F,
                0xFF1A]
                    @ (if up_display_name p \<noteq> [] then up_display_name p
                       else if si_display_name i \<noteq> [] then si_display_name i else si_speaker_id i) @ [0x3002],
                  mr_identity = i, mr_enroll_request = None\<rparr>)
          else ret \<lparr>mr_response = [0x6211, 0x8FD8, 0x6CA1, 0x6709, 0x53EF, 0x9760, 0x8BC6, 0x522B, 0x5230,
            0x5F53, 0x524D, 0x7528, 0x6237, 0xFF0C, 0x53EF, 0x4EE5, 0x5148, 0x8BF4, 0x201C, 0x8BB0, 0x4F4F, 0x6211,
            0xFF0C, 0x6211, 0x662F, 0x67D0, 0x67D0, 0x201D, 0x3002],
                 mr_identity = i, mr_enroll_request = None\<rparr>
      | QueryPreferences \<Rightarrow>
          if usable i then
            bind (profile e store (Identity i)) (\<lambda>p.
              ret \<lparr>mr_response = (if up_preferences p \<noteq> [] then [0x4F60, 0x7684, 0x5F53, 0x524D,
                0x504F, 0x597D, 0xFF1A] @ listed_preferences e p
                    else [0x5F53, 0x524D, 0x6CA1, 0x6709, 0x4FDD, 0x5B58, 0x4E2A, 0x4EBA, 0x504F, 0x597D, 0x3002]),
                      mr_identity = i, mr_enroll_request = None\<rparr>)
          else ret \<lparr>mr_response = [0x6211, 0x8FD8, 0x6CA1, 0x6709, 0x53EF, 0x9760, 0x8BC6, 0x522B, 0x5F53,
            0x524D, 0x7528, 0x6237, 0xFF0C, 0x65E0, 0x6CD5, 0x67E5, 0x8BE2, 0x4E2A, 0x4EBA, 0x504F, 0x597D, 0x3002],
                 mr_identity = i, mr_enroll_request = None\<rparr>
      | ClearMemory \<Rightarrow>
          if usable i then
            andthen (clear_profile (Identity i))
              (ret \<lparr>mr_response = [0x5DF2, 0x6E05, 0x9664, 0x5F53, 0x524D, 0x7528, 0x6237, 0x7684, 0x672C,
                0x5730, 0x884C, 0x4E3A, 0x8BB0, 0x5FC6, 0x3002],
                 mr_identity = i, mr_enroll_request = None\<rparr>)
          else ret \<lparr>mr_response = [0x6211, 0x8FD8, 0x6CA1, 0x6709, 0x53EF, 0x9760, 0x8BC6, 0x522B, 0x5F53,
            0x524D, 0x7528, 0x6237, 0xFF0C, 0x65E0, 0x6CD5, 0x6E05, 0x9664, 0x4E2A, 0x4EBA, 0x8BB0, 0x5FC6, 0x3002],
                 mr_identity = i, mr_enroll_request = None\<rparr>
      | EnrollRequested \<Rightarrow>
          ret (if usable i then
                 \<lparr>mr_response = [0x5DF2, 0x5F00, 0x59CB, 0x58F0, 0x7EB9, 0x5F55, 0x5165, 0xFF0C, 0x8BF7,
                   0x8FDE, 0x7EED, 0x8BF4, 0x4E09, 0x53E5, 0x77ED, 0x53E5, 0x7528, 0x4E8E, 0x91C7, 0x96C6, 0x6837,
                   0x672C, 0x3002],
                   mr_identity = i,
                   mr_enroll_request = Some (enroll_request (si_speaker_id i)
                     (if si_display_name i \<noteq> [] then si_display_name i else si_speaker_id i))\<rparr>
               else
                 \<lparr>mr_response = [0x8BF7, 0x5148, 0x8BF4, 0x201C, 0x8BB0, 0x4F4F, 0x6211, 0xFF0C, 0x6211,
                   0x662F, 0x67D0, 0x67D0, 0x201D, 0xFF0C, 0x6211, 0x4F1A, 0x7528, 0x8FD9, 0x4E2A, 0x540D, 0x5B57,
                   0x5F00, 0x59CB, 0x58F0, 0x7EB9, 0x5F55, 0x5165, 0x3002],
                   mr_identity = i, mr_enroll_request = None\<rparr>)
      | EnrollName name \<Rightarrow>
          bind (if usable i then ret i else bind memory_now (\<lambda>t. ret (text_identity name t))) (\<lambda>i.
            bind (enroll e (Identity i) name) (\<lambda>p.
              ret \<lparr>mr_response = [0x597D, 0x7684, 0xFF0C, 0x6211, 0x8BB0, 0x4F4F, 0x4F60, 0x662F, 0x0020]
                    @ (if up_display_name p \<noteq> [] then up_display_name p else up_speaker_id p)
                    @ [0x3002, 0x5982, 0x679C, 0x5DF2, 0x542F, 0x52A8, 0x58F0, 0x7EB9, 0x0020, 0x0073, 0x0069,
                      0x0064, 0x0065, 0x0063, 0x0061, 0x0072, 0xFF0C, 0x8BF7, 0x7EE7, 0x7EED, 0x8BF4, 0x4E09, 0x53E5,
                      0x77ED, 0x53E5, 0x5B8C, 0x6210, 0x6837, 0x672C, 0x91C7, 0x96C6, 0x3002],
                  mr_identity = i, mr_enroll_request = Some (enroll_request (si_speaker_id i) (up_display_name p))\<rparr>))
      | Preference changes \<Rightarrow>
          if \<not> usable i then
            ret \<lparr>mr_response = [0x6211, 0x8FD8, 0x6CA1, 0x6709, 0x53EF, 0x9760, 0x8BC6, 0x522B, 0x5F53,
              0x524D, 0x7528, 0x6237, 0xFF0C, 0x5148, 0x8BF4, 0x201C, 0x8BB0, 0x4F4F, 0x6211, 0xFF0C, 0x6211, 0x662F,
              0x67D0, 0x67D0, 0x201D, 0x540E, 0x518D, 0x8BB0, 0x5F55, 0x504F, 0x597D, 0x3002],
                  mr_identity = i, mr_enroll_request = None\<rparr>
          else
            bind (bind (profile e store (Identity i)) (\<lambda>p.
                    fold (\<lambda>(key, v) m. bind m (\<lambda>_. set_preference e (Identity i) key v)) changes (ret p))) (\<lambda>p.
              ret \<lparr>mr_response = [0x5DF2, 0x8BB0, 0x5F55, 0x4F60, 0x7684, 0x504F, 0x597D,
                0xFF1A] @ listed_preferences e p,
                  mr_identity = i, mr_enroll_request = None\<rparr>)
      | DeletePreference key \<Rightarrow>
          if \<not> usable i then
            ret \<lparr>mr_response = [0x6211, 0x8FD8, 0x6CA1, 0x6709, 0x53EF, 0x9760, 0x8BC6, 0x522B, 0x5F53,
              0x524D, 0x7528, 0x6237, 0xFF0C, 0x65E0, 0x6CD5, 0x5220, 0x9664, 0x4E2A, 0x4EBA, 0x504F, 0x597D, 0x3002],
                  mr_identity = i, mr_enroll_request = None\<rparr>
          else
            bind (remove_preference e (Identity i) key) (\<lambda>p.
              ret \<lparr>mr_response = [0x5DF2, 0x5220, 0x9664, 0x504F, 0x597D, 0xFF1A] @ key @ [0x3002]
                    @ (if up_preferences p \<noteq> [] then [0x5F53, 0x524D, 0x4FDD, 0x7559,
                      0xFF1A] @ listed_preferences e p else []),
                  mr_identity = i, mr_enroll_request = None\<rparr>))"

text \<open>A write that is refused or fails does not spoil the answer.\<close>

definition tolerate :: "unit memory_proc \<Rightarrow> unit memory_proc" where
  "tolerate m = catch m (\<lambda>err. case err of LowConfidenceSpeakerError t \<Rightarrow> skip | OSError t \<Rightarrow> skip | _ \<Rightarrow> raise err)"

definition handle_memory_command ::
  "memory_env \<Rightarrow> UserMemoryStore \<Rightarrow> ustr \<Rightarrow> SpeakerIdentity \<Rightarrow> MemoryCommandResult option memory_proc" where
  "handle_memory_command e store command i =
     (case parse_memory_command command of
        None \<Rightarrow> ret None
      | Some parsed \<Rightarrow>
          bind (answer_command e store i parsed) (\<lambda>result.
            andthen
              (if parsed = ClearMemory then skip
               else tolerate (bind (record_interaction e store (Identity (mr_identity result)) command (mr_response result) []
                      (JBool True)) (\<lambda>_. skip)))
              (ret (Some result))))"

section \<open>The context of a turn\<close>

record UserContextSnapshot =
  cs_identity :: SpeakerIdentity
  cs_preferences :: arguments
  cs_prompt_summary :: ustr

definition system_prompt :: "UserContextSnapshot \<Rightarrow> ustr \<Rightarrow> ustr" where
  "system_prompt c base_prompt =
     (if cs_prompt_summary c = [] then base_prompt
      else base_prompt @ [0x000A, 0x000A, 0x005B, 0x7528, 0x6237, 0x753B, 0x50CF, 0x8BB0, 0x5FC6, 0x005D,
        0x000A] @ cs_prompt_summary c
        @ [0x000A, 0x8BF7, 0x4EC5, 0x628A, 0x7528, 0x6237, 0x753B, 0x50CF, 0x4F5C, 0x4E3A, 0x504F, 0x597D, 0x53C2,
          0x8003, 0xFF0C, 0x6240, 0x6709, 0x52A8, 0x4F5C, 0x4ECD, 0x5FC5, 0x987B, 0x9075, 0x5B88, 0x8F93, 0x51FA,
          0x683C, 0x5F0F, 0x548C, 0x5B89, 0x5168, 0x9650, 0x5E45, 0x3002])"

definition current_identity :: "SpeakerIdentity memory_proc" where
  "current_identity = query (\<lambda>w. (mw_identity w, w))"

definition update_identity :: "SpeakerIdentity \<Rightarrow> unit memory_proc" where
  "update_identity i = modify (\<lambda>w. w\<lparr>mw_identity := i\<rparr>)"

definition context_snapshot :: "memory_env \<Rightarrow> UserMemoryStore \<Rightarrow> UserContextSnapshot memory_proc" where
  "context_snapshot e store =
     bind current_identity (\<lambda>i.
       if \<not> usable i then ret \<lparr>cs_identity = i, cs_preferences = [], cs_prompt_summary = []\<rparr>
       else bind (profile e store (Identity i)) (\<lambda>p.
         bind (prompt_summary e store (Identity i) 360) (\<lambda>summary.
           ret \<lparr>cs_identity = i, cs_preferences = up_preferences p, cs_prompt_summary = summary\<rparr>)))"

definition context_handle_command :: "memory_env \<Rightarrow> UserMemoryStore \<Rightarrow> ustr \<Rightarrow> MemoryCommandResult option memory_proc" where
  "context_handle_command e store command =
     bind current_identity (\<lambda>i.
       bind (handle_memory_command e store command i) (\<lambda>result.
         case result of
           None \<Rightarrow> ret None
         | Some r \<Rightarrow> andthen (update_identity (mr_identity r)) (ret (Some r))))"

text \<open>A refused or failed write is reported as \<open>False\<close>.\<close>

definition succeeds :: "unit memory_proc \<Rightarrow> bool memory_proc" where
  "succeeds m =
     catch (andthen m (ret True))
       (\<lambda>err. case err of LowConfidenceSpeakerError t \<Rightarrow> ret False | OSError t \<Rightarrow> ret False | _ \<Rightarrow> raise err)"

definition clear_current :: "bool memory_proc" where
  "clear_current = bind current_identity (\<lambda>i. succeeds (clear_profile (Identity i)))"

definition context_record_interaction ::
  "memory_env \<Rightarrow> UserMemoryStore \<Rightarrow> UserContextSnapshot \<Rightarrow> ustr \<Rightarrow> ustr \<Rightarrow> arguments list \<Rightarrow> bool \<Rightarrow> bool memory_proc" where
  "context_record_interaction e store c user_text assistant_text actions success =
     succeeds (bind (record_interaction e store (Identity (cs_identity c)) user_text assistant_text actions (JBool success))
       (\<lambda>_. skip))"

end
