(* ===== verification/Memory_Isolation.thy ===== *)
theory Memory_Isolation
  imports User_Memory
begin

text \<open>
  Properties of the personal memories: what is saved is loaded back, the history is bounded, and every
  operation depends on and changes only the file of the speaker it acts for. Speakers whose names fall
  together in the name of a file share it, which is proved as an error.
\<close>

section \<open>Local procedures\<close>

text \<open>A file names a speaker whose file it is, or none.\<close>

definition file_ok :: "memory_env \<Rightarrow> ustr \<Rightarrow> stored option \<Rightarrow> bool" where
  "file_ok e path file \<longleftrightarrow>
     (\<forall>raw. file = Some (Content (JObject raw)) \<longrightarrow>
        (let stored_id = restore_text (me_py_str e) (map_of raw (codes ''speaker_id''))
         in stored_id = [] \<or> profile_path stored_id = path))"

text \<open>Two worlds that look the same from the files of a set.\<close>

definition agree :: "memory_env \<Rightarrow> ustr set \<Rightarrow> memory_world \<Rightarrow> memory_world \<Rightarrow> bool" where
  "agree e Q w1 w2 \<longleftrightarrow> (\<forall>q \<in> Q. mw_files w1 q = mw_files w2 q \<and> file_ok e q (mw_files w1 q))
     \<and> mw_clock w1 = mw_clock w2 \<and> mw_disk w1 = mw_disk w2 \<and> mw_identity w1 = mw_identity w2"

text \<open>A procedure is local to the files of a set when it always returns, gives the same in worlds that agree on
  the set, keeps them in agreement and changes no other file. The values it gives satisfy \<open>V\<close>.\<close>

definition local_to :: "memory_env \<Rightarrow> ustr set \<Rightarrow> ('a \<Rightarrow> bool) \<Rightarrow> 'a memory_proc \<Rightarrow> bool" where
  "local_to e Q V m \<longleftrightarrow> (\<forall>w1 w2. agree e Q w1 w2 \<longrightarrow>
     (\<exists>r w1' w2'. m w1 = Some (r, w1') \<and> m w2 = Some (r, w2') \<and> agree e Q w1' w2' \<and> (\<forall>x. r = Inr x \<longrightarrow> V x)
        \<and> (\<forall>q. q \<notin> Q \<longrightarrow> mw_files w1' q = mw_files w1 q \<and> mw_files w2' q = mw_files w2 q)))"

named_theorems local_rules \<open>local procedures\<close>

lemma local_toD:
  assumes "local_to e Q V m" "agree e Q w1 w2"
  obtains r w1' w2' where "m w1 = Some (r, w1')" "m w2 = Some (r, w2')" "agree e Q w1' w2'" "\<And>x. r = Inr x \<Longrightarrow> V x"
    "\<And>q. q \<notin> Q \<Longrightarrow> mw_files w1' q = mw_files w1 q \<and> mw_files w2' q = mw_files w2 q"
  using assms unfolding local_to_def by blast

lemma local_toI:
  assumes "\<And>w1 w2. agree e Q w1 w2 \<Longrightarrow> \<exists>r w1' w2'. m w1 = Some (r, w1') \<and> m w2 = Some (r, w2') \<and> agree e Q w1' w2'
      \<and> (\<forall>x. r = Inr x \<longrightarrow> V x) \<and> (\<forall>q. q \<notin> Q \<longrightarrow> mw_files w1' q = mw_files w1 q \<and> mw_files w2' q = mw_files w2 q)"
  shows "local_to e Q V m"
  using assms unfolding local_to_def by blast

lemma local_ret [local_rules]: "V x \<Longrightarrow> local_to e Q V (ret x)"
  by (auto simp: local_to_def proc_defs)

lemma local_raise [local_rules]: "local_to e Q V (raise err)"
  by (auto simp: local_to_def proc_defs)

lemma local_skip [local_rules]: "V () \<Longrightarrow> local_to e Q V skip"
  by (auto simp: local_to_def proc_defs)

lemma local_steps [local_rules]:
  "local_to e Q (\<lambda>_. True) memory_now" "local_to e Q (\<lambda>_. True) disk_takes" "local_to e Q (\<lambda>_. True) (update_identity i)"
  by (auto simp: local_to_def memory_now_def disk_takes_def update_identity_def tick_def proc_defs agree_def)

lemma local_bind:
  assumes m: "local_to e Q U m" and k: "\<And>x. U x \<Longrightarrow> local_to e Q V (k x)"
  shows "local_to e Q V (bind m k)"
proof (rule local_toI)
  fix w1 w2 assume w: "agree e Q w1 w2"
  obtain r v1 v2 where r: "m w1 = Some (r, v1)" "m w2 = Some (r, v2)" "agree e Q v1 v2" "\<And>x. r = Inr x \<Longrightarrow> U x"
      "\<And>q. q \<notin> Q \<Longrightarrow> mw_files v1 q = mw_files w1 q \<and> mw_files v2 q = mw_files w2 q"
    using local_toD [OF m w] by blast
  show "\<exists>r w1' w2'. bind m k w1 = Some (r, w1') \<and> bind m k w2 = Some (r, w2') \<and> agree e Q w1' w2'
      \<and> (\<forall>x. r = Inr x \<longrightarrow> V x) \<and> (\<forall>q. q \<notin> Q \<longrightarrow> mw_files w1' q = mw_files w1 q \<and> mw_files w2' q = mw_files w2 q)"
  proof (cases r)
    case (Inl err)
    then show ?thesis using r by (simp add: bind_def)
  next
    case (Inr x)
    obtain s u1 u2 where s: "k x v1 = Some (s, u1)" "k x v2 = Some (s, u2)" "agree e Q u1 u2" "\<And>y. s = Inr y \<Longrightarrow> V y"
        "\<And>q. q \<notin> Q \<Longrightarrow> mw_files u1 q = mw_files v1 q \<and> mw_files u2 q = mw_files v2 q"
      using local_toD [OF k [OF r(4) [OF Inr]] r(3)] by blast
    then show ?thesis using r Inr by (simp add: bind_def)
  qed
qed

lemma local_andthen [local_rules]: "local_to e Q U m \<Longrightarrow> local_to e Q V k \<Longrightarrow> local_to e Q V (andthen m k)"
  unfolding andthen_def by (rule local_bind)

lemma local_catch:
  assumes m: "local_to e Q V m" and h: "\<And>err. local_to e Q V (h err)"
  shows "local_to e Q V (catch m h)"
proof (rule local_toI)
  fix w1 w2 assume w: "agree e Q w1 w2"
  obtain r v1 v2 where r: "m w1 = Some (r, v1)" "m w2 = Some (r, v2)" "agree e Q v1 v2" "\<And>x. r = Inr x \<Longrightarrow> V x"
      "\<And>q. q \<notin> Q \<Longrightarrow> mw_files v1 q = mw_files w1 q \<and> mw_files v2 q = mw_files w2 q"
    using local_toD [OF m w] by blast
  show "\<exists>r w1' w2'. catch m h w1 = Some (r, w1') \<and> catch m h w2 = Some (r, w2') \<and> agree e Q w1' w2'
      \<and> (\<forall>x. r = Inr x \<longrightarrow> V x) \<and> (\<forall>q. q \<notin> Q \<longrightarrow> mw_files w1' q = mw_files w1 q \<and> mw_files w2' q = mw_files w2 q)"
  proof (cases r)
    case (Inr x)
    then show ?thesis using r by (simp add: catch_def)
  next
    case (Inl err)
    obtain s u1 u2 where s: "h err v1 = Some (s, u1)" "h err v2 = Some (s, u2)" "agree e Q u1 u2" "\<And>y. s = Inr y \<Longrightarrow> V y"
        "\<And>q. q \<notin> Q \<Longrightarrow> mw_files u1 q = mw_files v1 q \<and> mw_files u2 q = mw_files v2 q"
      using local_toD [OF h r(3)] by blast
    then show ?thesis using r Inl by (simp add: catch_def)
  qed
qed

lemma local_weaken: "local_to e Q U m \<Longrightarrow> (\<And>x. U x \<Longrightarrow> V x) \<Longrightarrow> local_to e Q V m"
  unfolding local_to_def by blast

lemma local_if [local_rules]:
  "(b \<Longrightarrow> local_to e Q V m) \<Longrightarrow> (\<not> b \<Longrightarrow> local_to e Q V l) \<Longrightarrow> local_to e Q V (if b then m else l)"
  by simp

section \<open>Files\<close>

lemma local_write [local_rules]:
  assumes "path \<in> Q" "file_ok e path content"
  shows "local_to e Q (\<lambda>_. True) (write_file path content)"
  unfolding write_file_def
proof (rule local_bind [OF local_steps(2)])
  have "local_to e Q (\<lambda>_. True) (modify (\<lambda>w. w\<lparr>mw_files := (mw_files w)(path := content)\<rparr>))"
    using assms by (auto simp: local_to_def modify_def agree_def)
  then show "local_to e Q (\<lambda>_. True) (if ok then modify (\<lambda>w. w\<lparr>mw_files := (mw_files w)(path := content)\<rparr>)
      else raise (OSError ''disk''))" for ok
    by (auto intro: local_rules)
qed

lemma saved_file_ok: "file_ok e (profile_path (up_speaker_id p)) (Some (Content (JObject (profile_as_dict p))))"
  by (auto simp: file_ok_def profile_as_dict_def restore_text_def codes_def)

lemma local_save [local_rules]:
  "profile_path (up_speaker_id p) \<in> Q \<Longrightarrow> local_to e Q (\<lambda>_. True) (save_profile p)"
  unfolding save_profile_def by (rule local_write) (auto intro: saved_file_ok)

text \<open>A profile whose file is that of a speaker.\<close>

definition filed_for :: "ustr \<Rightarrow> UserProfile \<Rightarrow> bool" where
  "filed_for who p \<longleftrightarrow> profile_path (up_speaker_id p) = profile_path who"

lemma filed_update [simp]:
  "filed_for who (p\<lparr>up_display_name := a\<rparr>) = filed_for who p" "filed_for who (p\<lparr>up_preferences := b\<rparr>) = filed_for who p"
  "filed_for who (p\<lparr>up_updated_at := t\<rparr>) = filed_for who p" "filed_for who (p\<lparr>up_command_counts := c\<rparr>) = filed_for who p"
  "filed_for who (p\<lparr>up_recent_interactions := d\<rparr>) = filed_for who p"
  "filed_for who (p\<lparr>up_corrections := d\<rparr>) = filed_for who p"
  by (simp_all add: filed_for_def)

lemma local_read:
  assumes "path \<in> Q" "\<And>file. file_ok e path file \<Longrightarrow> local_to e Q V (k file)"
  shows "local_to e Q V (bind (query (\<lambda>w. (mw_files w path, w))) k)"
proof (rule local_toI)
  fix w1 w2 assume w: "agree e Q w1 w2"
  then have "file_ok e path (mw_files w1 path)" and eq: "mw_files w2 path = mw_files w1 path"
    using assms(1) by (auto simp: agree_def)
  note k = assms(2) [OF this(1)]
  show "\<exists>r w1' w2'. bind (query (\<lambda>w. (mw_files w path, w))) k w1 = Some (r, w1')
      \<and> bind (query (\<lambda>w. (mw_files w path, w))) k w2 = Some (r, w2') \<and> agree e Q w1' w2'
      \<and> (\<forall>x. r = Inr x \<longrightarrow> V x) \<and> (\<forall>q. q \<notin> Q \<longrightarrow> mw_files w1' q = mw_files w1 q \<and> mw_files w2' q = mw_files w2 q)"
    using k w eq by (simp add: bind_def query_def local_to_def)
qed

lemma local_new_profile: "local_to e Q (filed_for who) (bind memory_now (\<lambda>t. ret (new_profile who t)))"
  by (rule local_bind [OF local_steps(1)]) (auto intro!: local_ret simp: filed_for_def new_profile_def)

lemma loaded_filed:
  assumes "file_ok e (profile_path who) (Some (Content (JObject raw)))"
    "profile_from_dict (me_py_str e) py_dict parse_float raw who = Inr p"
  shows "filed_for who p"
  using assms by (auto simp: filed_for_def profile_from_dict_def file_ok_def Let_def rbind_Inr_iff)

lemma local_load [local_rules]:
  assumes "profile_path who \<in> Q"
  shows "local_to e Q (filed_for who) (load e who)"
  unfolding load_def load_profile_def
proof (rule local_read [OF assms])
  fix content assume ok: "file_ok e (profile_path who) content"
  have "local_to e Q (filed_for who) (case profile_from_dict (me_py_str e) (me_py_dict e) (me_parse_float e) raw who of
      Inr p \<Rightarrow> ret p | Inl (OverflowError m) \<Rightarrow> raise (OverflowError m) | Inl _ \<Rightarrow> bind memory_now (\<lambda>t. ret (new_profile who t)))"
    if "content = Some (Content (JObject raw))" for raw
    using loaded_filed [OF ok [unfolded that]]
    by (auto intro!: local_ret local_raise local_new_profile split: sum.split exn.split)
  then show "local_to e Q (filed_for who) (case content of Some (Content (JObject raw)) \<Rightarrow>
      (case profile_from_dict (me_py_str e) (me_py_dict e) (me_parse_float e) raw who of
        Inr p \<Rightarrow> ret p | Inl (OverflowError m) \<Rightarrow> raise (OverflowError m) | Inl _ \<Rightarrow> bind memory_now (\<lambda>t. ret (new_profile who t)))
      | _ \<Rightarrow> bind memory_now (\<lambda>t. ret (new_profile who t)))"
    by (auto intro: local_new_profile split: option.split stored.split json.split)
qed

section \<open>Operations\<close>

lemma local_prune [local_rules]:
  "filed_for who p \<Longrightarrow> local_to e Q (\<lambda>(expired, p). filed_for who p) (prune_expired parse_float store p)"
  unfolding prune_expired_def by (rule local_bind [OF local_steps(1)]) (auto simp: Let_def intro!: local_ret)

text \<open>The file of a speaker is among those of the set, unless the speaker is not known.\<close>

definition writes_in :: "ustr set \<Rightarrow> speaker \<Rightarrow> bool" where
  "writes_in Q who \<longleftrightarrow> (speaker_id who \<noteq> UNKNOWN_SPEAKER \<longrightarrow> profile_path (speaker_id who) \<in> Q)"

lemma local_save_filed: "filed_for who p \<Longrightarrow> profile_path who \<in> Q \<Longrightarrow> local_to e Q (\<lambda>_. True) (save_profile p)"
  by (rule local_save) (simp add: filed_for_def)

lemma local_profile [local_rules]:
  assumes "profile_path (speaker_id who) \<in> Q"
  shows "local_to e Q (filed_for (speaker_id who)) (profile e store who)"
  unfolding profile_def
proof (rule local_bind [OF local_load [OF assms]])
  fix p assume p: "filed_for (speaker_id who) p"
  have "local_to e Q (filed_for (speaker_id who)) (andthen (if expired then save_profile p else skip) (ret p))"
    if "filed_for (speaker_id who) p" for expired p
    using that assms
    by (intro local_andthen [where U = "\<lambda>_. True"] local_if local_save_filed local_skip local_ret) auto
  then show "local_to e Q (filed_for (speaker_id who))
      (bind (prune_expired (me_parse_float e) store p) (\<lambda>(expired, p). andthen (if expired then save_profile p else skip) (ret p)))"
    by (intro local_bind [OF local_prune [OF p]]) (simp only: split: prod.split, blast)
qed

lemma local_writable:
  "writes_in Q who \<Longrightarrow> local_to e Q (\<lambda>id. id = speaker_id who \<and> profile_path id \<in> Q) (writable_speaker_id who)"
  by (auto simp: writable_speaker_id_def writes_in_def intro: local_ret local_raise)

lemma local_change:
  assumes "writes_in Q who" "\<And>p. filed_for (speaker_id who) (f p) = filed_for (speaker_id who) p"
  shows "local_to e Q (filed_for (speaker_id who)) (change_profile e who f)"
  unfolding change_profile_def
proof (rule local_bind [OF local_writable [OF assms(1)]])
  fix id assume id: "id = speaker_id who \<and> profile_path id \<in> Q"
  have saved: "local_to e Q (filed_for (speaker_id who)) (let p = f p\<lparr>up_updated_at := t\<rparr> in andthen (save_profile p) (ret p))"
    if "filed_for (speaker_id who) p" for p t
    using that id assms(2) unfolding Let_def
    by (intro local_andthen [OF local_save_filed [where who = "speaker_id who"]] local_ret) auto
  have "local_to e Q (filed_for (speaker_id who)) (load e id)" using id by (auto intro: local_load)
  then show "local_to e Q (filed_for (speaker_id who)) (bind (load e id) (\<lambda>p.
      bind memory_now (\<lambda>t. let p = f p\<lparr>up_updated_at := t\<rparr> in andthen (save_profile p) (ret p))))"
    by (rule local_bind) (rule local_bind [OF local_steps(1)], erule saved)
qed

lemma local_changes [local_rules]:
  assumes "writes_in Q who"
  shows "local_to e Q (filed_for (speaker_id who)) (enroll e who name)"
    "local_to e Q (filed_for (speaker_id who)) (set_preference e who key v)"
    "local_to e Q (filed_for (speaker_id who)) (remove_preference e who key)"
  unfolding enroll_def set_preference_def remove_preference_def by (rule local_change [OF assms]; simp)+

lemma local_clear [local_rules]:
  assumes "writes_in Q who"
  shows "local_to e Q (\<lambda>_. True) (clear_profile who)"
  unfolding clear_profile_def
proof (rule local_bind [OF local_writable [OF assms]])
  fix id assume id: "id = speaker_id who \<and> profile_path id \<in> Q"
  have "bind (query (\<lambda>w. (mw_files w (profile_path id) \<noteq> None, w))) (\<lambda>there. if there then write_file (profile_path id) None else skip)
      = bind (query (\<lambda>w. (mw_files w (profile_path id), w)))
          (\<lambda>content. if content \<noteq> None then write_file (profile_path id) None else skip)"
    by (rule ext) (simp add: bind_def query_def)
  moreover have "local_to e Q (\<lambda>_. True) \<dots>"
    using id by (intro local_read local_if local_write local_skip) (auto simp: file_ok_def)
  ultimately show "local_to e Q (\<lambda>_. True) (bind (query (\<lambda>w. (mw_files w (profile_path id) \<noteq> None, w)))
      (\<lambda>there. if there then write_file (profile_path id) None else skip))" by simp
qed

lemma local_record [local_rules]:
  assumes "writes_in Q who"
  shows "local_to e Q (filed_for (speaker_id who)) (record_interaction e store who user_text assistant_text actions success)"
  unfolding record_interaction_def
proof (rule local_bind [OF local_writable [OF assms]])
  fix id assume id: "id = speaker_id who \<and> profile_path id \<in> Q"
  have saved: "local_to e Q (filed_for (speaker_id who)) (let p = p\<lparr>up_command_counts := count_actions (me_py_str e) actions (up_command_counts p),
                   up_recent_interactions := last_items (us_max_recent store)
                     (up_recent_interactions p @ [interaction t user_text assistant_text actions success]),
                   up_updated_at := t\<rparr>
              in andthen (save_profile p) (ret p))"
    if "filed_for (speaker_id who) p" for p t
    using that id unfolding Let_def
    by (intro local_andthen [OF local_save_filed [where who = "speaker_id who"]] local_ret) auto
  have "local_to e Q (filed_for (speaker_id who)) (load e id)" using id by (auto intro: local_load)
  then show "local_to e Q (filed_for (speaker_id who)) (bind (load e id) (\<lambda>p.
         bind (prune_expired (me_parse_float e) store p) (\<lambda>(expired, p).
           bind memory_now (\<lambda>t.
             (let p = p\<lparr>up_command_counts := count_actions (me_py_str e) actions (up_command_counts p),
                   up_recent_interactions := last_items (us_max_recent store)
                     (up_recent_interactions p @ [interaction t user_text assistant_text actions success]),
                   up_updated_at := t\<rparr>
              in andthen (save_profile p) (ret p))))))"
    by (rule local_bind, intro local_bind [OF local_prune])
      (auto split: prod.split intro!: local_bind [OF local_steps(1)] saved)
qed

text \<open>White space at the ends of a name does not change its file.\<close>

lemma space_unsafe: "is_uspace c \<Longrightarrow> \<not> safe_id_char c"
  by (auto simp: is_uspace_def safe_id_char_def)

lemma strip_left: "dropWhile (\<lambda>c. c \<in> set [0x2E, 0x5F]) (replace_runs True t) = dropWhile (\<lambda>c. c \<in> set [0x2E, 0x5F]) (replace_runs False t)"
  by (cases t) auto

lemma strip_left_space:
  "dropWhile (\<lambda>c. c \<in> set [0x2E, 0x5F]) (replace_runs False (dropWhile is_uspace t))
     = dropWhile (\<lambda>c. c \<in> set [0x2E, 0x5F]) (replace_runs False t)"
  by (induction t) (auto simp: space_unsafe strip_left [simplified])

lemma replace_snoc:
  "\<not> safe_id_char c \<Longrightarrow> replace_runs inside (t @ [c]) = replace_runs inside t \<or> replace_runs inside (t @ [c]) = replace_runs inside t @ [0x5F]"
  by (induction inside t rule: replace_runs.induct) auto

lemma strip_set_snoc: "c \<in> set cs \<Longrightarrow> strip_set cs (t @ [c]) = strip_set cs t"
  by (cases "\<forall>x \<in> set t. x \<in> set cs") (auto simp: strip_set_def dropWhile_append dropWhile_eq_Nil_conv [THEN iffD2])

lemma strip_right_space:
  "strip_set [0x2E, 0x5F] (replace_runs False (rev (dropWhile is_uspace (rev t)))) = strip_set [0x2E, 0x5F] (replace_runs False t)"
proof (induction t rule: rev_induct)
  case (snoc c t)
  show ?case
  proof (cases "is_uspace c")
    case True
    then have "strip_set [0x2E, 0x5F] (replace_runs False (t @ [c])) = strip_set [0x2E, 0x5F] (replace_runs False t)"
      using replace_snoc [OF space_unsafe [OF True], of False t] by (auto simp: strip_set_snoc)
    then show ?thesis using snoc True by simp
  qed simp
qed simp

lemma path_unknown: "profile_path UNKNOWN_SPEAKER = UNKNOWN_SPEAKER"
  by (simp add: profile_path_def UNKNOWN_SPEAKER_def codes_def strip_set_def safe_id_char_def)

lemma path_of_stripped: "ustrip t \<noteq> [] \<Longrightarrow> profile_path (ustrip t) = profile_path t"
proof -
  assume t: "ustrip t \<noteq> []"
  then have t': "t \<noteq> []" by (auto simp: ustrip_def)
  have "strip_set [0x2E, 0x5F] (replace_runs False (ustrip t)) = strip_set [0x2E, 0x5F] (replace_runs False t)"
    unfolding ustrip_def strip_right_space by (simp only: strip_set_def strip_left_space)
  then show ?thesis unfolding profile_path_def if_not_P [OF t] if_not_P [OF t'] by (simp only:)
qed

lemma path_of_blank: "ustrip t = [] \<Longrightarrow> profile_path t = UNKNOWN_SPEAKER"
proof -
  assume t: "ustrip t = []"
  have "strip_set [0x2E, 0x5F] (replace_runs False t) = strip_set [0x2E, 0x5F] (replace_runs False (ustrip t))"
    unfolding ustrip_def strip_right_space by (simp only: strip_set_def strip_left_space)
  also have "\<dots> = []" unfolding t by (simp add: strip_set_def)
  finally show ?thesis
    using path_unknown unfolding profile_path_def Let_def by (cases "t = []") (auto split: if_splits)
qed

lemma path_of_text: "profile_path (speaker_id (SpeakerId t)) = profile_path t"
  by (cases "ustrip t = []") (simp_all add: speaker_id_def path_of_stripped path_of_blank path_unknown)

lemma local_summary [local_rules]:
  assumes "writes_in Q who"
  shows "local_to e Q (\<lambda>_. True) (prompt_summary e store who max_chars)"
proof (cases "speaker_id who = UNKNOWN_SPEAKER")
  case False
  then have "profile_path (speaker_id (SpeakerId (speaker_id who))) \<in> Q"
    using assms by (simp add: path_of_text writes_in_def)
  then show ?thesis
    unfolding prompt_summary_def Let_def by (intro local_if local_ret local_bind [OF local_profile]) auto
qed (simp add: prompt_summary_def Let_def local_ret)

lemma usable_writes: "usable i \<Longrightarrow> writes_in Q (Identity i) \<longleftrightarrow> profile_path (speaker_id (Identity i)) \<in> Q"
  by (simp add: writes_in_def speaker_id_def usable_def)

lemma local_own_profile:
  "usable i \<Longrightarrow> writes_in Q (Identity i) \<Longrightarrow> local_to e Q (filed_for (speaker_id (Identity i))) (profile e store (Identity i))"
  by (rule local_profile) (simp add: usable_writes)

lemma local_fold_preferences:
  assumes "writes_in Q who"
  shows "local_to e Q (filed_for (speaker_id who)) m \<Longrightarrow>
     local_to e Q (filed_for (speaker_id who)) (fold (\<lambda>(key, v) m. bind m (\<lambda>_. set_preference e who key v)) changes m)"
proof (induction changes arbitrary: m)
  case (Cons change changes)
  obtain key v where change: "change = (key, v)" by (cases change)
  have "local_to e Q (filed_for (speaker_id who)) (bind m (\<lambda>_. set_preference e who key v))"
    by (rule local_bind [OF Cons.prems]) (rule local_changes [OF assms])
  then show ?case using Cons.IH by (simp add: change)
qed simp

definition command_identity :: "MemoryCommand \<Rightarrow> SpeakerIdentity \<Rightarrow> speaker" where
  "command_identity parsed i =
     (case parsed of EnrollName name \<Rightarrow> Identity (if usable i then i else text_identity name 0) | _ \<Rightarrow> Identity i)"

lemma text_identity_time: "speaker_id (Identity (text_identity name t)) = (if name = [] then UNKNOWN_SPEAKER else name)"
  by (simp add: speaker_id_def usable_def text_identity_def)

lemma local_answer:
  assumes "writes_in Q (command_identity parsed i)"
  shows "local_to e Q (\<lambda>r. speaker_id (Identity (mr_identity r)) = speaker_id (command_identity parsed i)) (answer_command e store i parsed)"
proof (cases parsed)
  case (EnrollName name)
  let ?V = "\<lambda>r. speaker_id (Identity (mr_identity r)) = speaker_id (command_identity parsed i)"
  let ?U = "\<lambda>j. speaker_id (Identity j) = speaker_id (command_identity parsed i)"
  have "local_to e Q ?U (if usable i then ret i else bind memory_now (\<lambda>t. ret (text_identity name t)))"
    using EnrollName by (auto intro!: local_if local_ret local_bind [OF local_steps(1)] simp: command_identity_def text_identity_time)
  moreover have "local_to e Q ?V (bind (enroll e (Identity j) name) (\<lambda>p. ret \<lparr>mr_response = f p,
      mr_identity = j, mr_enroll_request = g p\<rparr>))" if "?U j" for j f g
    using that assms by (intro local_bind [OF local_changes(1)] local_ret) (auto simp: writes_in_def)
  ultimately show ?thesis
    unfolding answer_command_def EnrollName MemoryCommand.case by (rule local_bind)
next
  case WhoAmI
  then have i: "command_identity parsed i = Identity i" by (simp add: command_identity_def)
  show ?thesis
    unfolding answer_command_def WhoAmI MemoryCommand.case i [unfolded WhoAmI]
    by (intro local_if local_bind [OF local_own_profile] local_ret; use assms i in \<open>simp add: WhoAmI\<close>)
next
  case QueryPreferences
  then have i: "command_identity parsed i = Identity i" by (simp add: command_identity_def)
  show ?thesis
    unfolding answer_command_def QueryPreferences MemoryCommand.case i [unfolded QueryPreferences]
    by (intro local_if local_bind [OF local_own_profile] local_ret; use assms i in \<open>simp add: QueryPreferences\<close>)
next
  case ClearMemory
  then have i: "command_identity parsed i = Identity i" by (simp add: command_identity_def)
  show ?thesis
    unfolding answer_command_def ClearMemory MemoryCommand.case i [unfolded ClearMemory]
    by (intro local_if local_andthen [OF local_clear] local_ret; use assms i in \<open>simp add: ClearMemory\<close>)
next
  case (DeletePreference key)
  then have i: "command_identity parsed i = Identity i" by (simp add: command_identity_def)
  show ?thesis
    unfolding answer_command_def DeletePreference MemoryCommand.case i [unfolded DeletePreference]
    by (intro local_if local_bind [OF local_changes(3)] local_ret; use assms i in \<open>simp add: DeletePreference\<close>)
next
  case EnrollRequested
  then have i: "command_identity parsed i = Identity i" by (simp add: command_identity_def)
  show ?thesis
    unfolding answer_command_def EnrollRequested MemoryCommand.case i [unfolded EnrollRequested]
    by (intro local_ret; use assms i in \<open>simp add: EnrollRequested\<close>)
next
  case (Preference changes)
  then have i: "command_identity parsed i = Identity i" by (simp add: command_identity_def)
  show ?thesis
    unfolding answer_command_def Preference MemoryCommand.case i [unfolded Preference]
    by (intro local_if local_bind [OF local_bind [OF local_own_profile local_fold_preferences]] local_ret; use assms i in \<open>simp add: Preference\<close>)
qed

lemma local_tolerate: "local_to e Q (\<lambda>_. True) m \<Longrightarrow> local_to e Q (\<lambda>_. True) (tolerate m)"
  unfolding tolerate_def by (rule local_catch) (auto intro: local_raise local_skip split: exn.split)

lemma local_succeeds: "local_to e Q (\<lambda>_. True) m \<Longrightarrow> local_to e Q (\<lambda>_. True) (succeeds m)"
  unfolding succeeds_def
  by (rule local_catch) (auto intro!: local_andthen local_raise local_ret split: exn.split)

lemma local_handle:
  assumes "\<And>parsed. parse_memory_command command = Some parsed \<Longrightarrow> writes_in Q (command_identity parsed i)"
  shows "local_to e Q (\<lambda>_. True) (handle_memory_command e store command i)"
proof (cases "parse_memory_command command")
  case (Some parsed)
  have "local_to e Q (\<lambda>_. True) (andthen (if parsed = ClearMemory then skip
      else tolerate (bind (record_interaction e store (Identity (mr_identity r)) command (mr_response r) [] (JBool True)) (\<lambda>_. skip)))
      (ret (Some r)))" if "speaker_id (Identity (mr_identity r)) = speaker_id (command_identity parsed i)" for r
    using that assms [OF Some]
    by (intro local_andthen [where U = "\<lambda>_. True"] local_if local_skip local_tolerate local_bind [OF local_record] local_ret)
      (auto simp: writes_in_def)
  then show ?thesis
    unfolding handle_memory_command_def Some option.case by (rule local_bind [OF local_answer [OF assms [OF Some]]])
qed (simp add: handle_memory_command_def local_ret)

section \<open>Operations of the context\<close>

datatype context_op =
    UpdateIdentity SpeakerIdentity
  | TakeSnapshot
  | HandleCommand ustr
  | ClearCurrent
  | RecordTurn UserContextSnapshot ustr ustr "arguments list" bool

datatype context_outcome =
    Updated
  | Snapshot UserContextSnapshot
  | Answered "MemoryCommandResult option"
  | Reported bool

fun context_step :: "memory_env \<Rightarrow> UserMemoryStore \<Rightarrow> context_op \<Rightarrow> context_outcome memory_proc" where
  "context_step e store (UpdateIdentity i) = bind (update_identity i) (\<lambda>_. ret Updated)"
| "context_step e store TakeSnapshot = bind (context_snapshot e store) (\<lambda>c. ret (Snapshot c))"
| "context_step e store (HandleCommand t) = bind (context_handle_command e store t) (\<lambda>r. ret (Answered r))"
| "context_step e store ClearCurrent = bind clear_current (\<lambda>ok. ret (Reported ok))"
| "context_step e store (RecordTurn c user_text assistant_text actions success) =
     bind (context_record_interaction e store c user_text assistant_text actions success) (\<lambda>ok. ret (Reported ok))"

definition context_run :: "memory_env \<Rightarrow> UserMemoryStore \<Rightarrow> context_op list \<Rightarrow> unit memory_proc" where
  "context_run e store ops = each (\<lambda>op. bind (attempt (context_step e store op)) (\<lambda>_. skip)) ops"

text \<open>The files an operation is entitled to: that of the current speaker, of the speaker of the recorded turn, or of the
  name that is enrolled.\<close>

definition speaker_files :: "speaker \<Rightarrow> ustr set" where
  "speaker_files who = (if speaker_id who = UNKNOWN_SPEAKER then {} else {profile_path (speaker_id who)})"

fun context_files :: "context_op \<Rightarrow> SpeakerIdentity \<Rightarrow> ustr set" where
  "context_files (UpdateIdentity j) i = {}"
| "context_files TakeSnapshot i = speaker_files (Identity i)"
| "context_files (HandleCommand t) i =
     (case parse_memory_command t of None \<Rightarrow> {} | Some parsed \<Rightarrow> speaker_files (command_identity parsed i))"
| "context_files ClearCurrent i = speaker_files (Identity i)"
| "context_files (RecordTurn c user_text assistant_text actions success) i = speaker_files (Identity (cs_identity c))"

lemma writes_speaker_files: "writes_in (speaker_files who) who"
  by (simp add: writes_in_def speaker_files_def)

lemma current_identity_eq: "bind current_identity k w = k (mw_identity w) w"
  by (simp add: current_identity_def bind_def query_def)

text \<open>A step with the identity it reads as an argument.\<close>

definition acting_as :: "SpeakerIdentity \<Rightarrow> memory_env \<Rightarrow> UserMemoryStore \<Rightarrow> context_op \<Rightarrow> context_outcome memory_proc" where
  "acting_as i e store op =
     (case op of
        TakeSnapshot \<Rightarrow>
          bind (if \<not> usable i then ret \<lparr>cs_identity = i, cs_preferences = [], cs_prompt_summary = []\<rparr>
            else bind (profile e store (Identity i)) (\<lambda>p.
              bind (prompt_summary e store (Identity i) 360) (\<lambda>summary.
                ret \<lparr>cs_identity = i, cs_preferences = up_preferences p, cs_prompt_summary = summary\<rparr>))) (\<lambda>c. ret (Snapshot c))
      | HandleCommand t \<Rightarrow>
          bind (bind (handle_memory_command e store t i) (\<lambda>result. case result of None \<Rightarrow> ret None
            | Some r \<Rightarrow> andthen (update_identity (mr_identity r)) (ret (Some r)))) (\<lambda>r. ret (Answered r))
      | ClearCurrent \<Rightarrow> bind (succeeds (clear_profile (Identity i))) (\<lambda>ok. ret (Reported ok))
      | _ \<Rightarrow> context_step e store op)"

lemma bind_cong_at: "m w = m' w \<Longrightarrow> bind m k w = bind m' k w"
  by (simp add: bind_def)

lemma acting_as_eq: "context_step e store op w = acting_as (mw_identity w) e store op w"
  by (cases op) (auto simp: acting_as_def context_snapshot_def context_handle_command_def clear_current_def
      current_identity_eq intro!: bind_cong_at)

lemma local_acting: "local_to e (context_files op i) (\<lambda>_. True) (acting_as i e store op)"
proof (cases op)
  case (UpdateIdentity j)
  then show ?thesis by (auto simp: acting_as_def intro!: local_bind [OF local_steps(3)] local_ret)
next
  case TakeSnapshot
  then show ?thesis
    using writes_speaker_files [of "Identity i"]
    by (auto simp: acting_as_def intro!: local_bind [where U = "\<lambda>_. True"] local_if local_ret local_summary
        local_weaken [OF local_own_profile])
next
  case (HandleCommand t)
  have "writes_in (context_files op i) (command_identity parsed i)" if "parse_memory_command t = Some parsed" for parsed
    using that HandleCommand writes_speaker_files by simp
  then have "local_to e (context_files op i) (\<lambda>_. True) (handle_memory_command e store t i)" by (rule local_handle)
  then show ?thesis
    unfolding acting_as_def HandleCommand context_op.case
    by (auto intro!: local_bind [where U = "\<lambda>_. True"] local_andthen [OF local_steps(3)] local_ret split: option.split
        simp: HandleCommand)
next
  case ClearCurrent
  then show ?thesis
    using writes_speaker_files [of "Identity i"]
    by (auto simp: acting_as_def intro!: local_bind [where U = "\<lambda>_. True"] local_succeeds local_clear local_ret)
next
  case (RecordTurn c user_text assistant_text actions success)
  then show ?thesis
    using writes_speaker_files [of "Identity (cs_identity c)"]
    by (auto simp: acting_as_def context_record_interaction_def intro!: local_bind [where U = "\<lambda>_. True"] local_succeeds
        local_weaken [OF local_record] local_skip local_ret)
qed

lemma acting_step:
  assumes "agree e (context_files op (mw_identity w1)) w1 w2"
  obtains r w1' w2' where "context_step e store op w1 = Some (r, w1')" "context_step e store op w2 = Some (r, w2')"
    "agree e (context_files op (mw_identity w1)) w1' w2'"
    "\<And>q. q \<notin> context_files op (mw_identity w1) \<Longrightarrow> mw_files w1' q = mw_files w1 q \<and> mw_files w2' q = mw_files w2 q"
proof -
  have "mw_identity w2 = mw_identity w1" using assms by (simp add: agree_def)
  then show thesis
    using local_toD [OF local_acting assms] that acting_as_eq [of e store op w1] acting_as_eq [of e store op w2] by metis
qed

definition store_ok :: "memory_env \<Rightarrow> memory_world \<Rightarrow> bool" where
  "store_ok e w \<longleftrightarrow> (\<forall>q. file_ok e q (mw_files w q))"

lemma context_step_ok:
  assumes "store_ok e w"
  obtains r w' where "context_step e store op w = Some (r, w')" "store_ok e w'"
proof -
  let ?Q = "context_files op (mw_identity w)"
  have "agree e ?Q w w" using assms by (simp add: agree_def store_ok_def)
  then obtain r w' w'' where w': "context_step e store op w = Some (r, w')" "agree e ?Q w' w''"
      "\<And>q. q \<notin> ?Q \<Longrightarrow> mw_files w' q = mw_files w q"
    using acting_step by metis
  have "file_ok e q (mw_files w' q)" for q
    using w'(2,3) assms by (cases "q \<in> ?Q") (auto simp: agree_def store_ok_def)
  then show thesis using that w'(1) by (simp add: store_ok_def)
qed

lemma context_run_ok: "store_ok e w \<Longrightarrow> \<exists>w'. context_run e store ops w = Some (Inr (), w') \<and> store_ok e w'"
proof (induction ops arbitrary: w)
  case (Cons op ops)
  obtain r w1 where "context_step e store op w = Some (r, w1)" "store_ok e w1" using context_step_ok [OF Cons.prems] .
  then show ?case using Cons.IH [of w1] by (simp add: context_run_def andthen_def bind_def attempt_def skip_def ret_def)
qed (simp add: context_run_def skip_def ret_def)

section \<open>Theorems\<close>

text \<open>C14. Personal memories are kept apart. Starting from no files, after any sequence of identity updates, spoken
  commands, snapshots, clearings and recorded turns, the next operation always returns, changes at most the file of
  the speaker it acts for (none, when the speaker is not known), and depends on no other file: in a world that
  differs only in other files it gives the same outcome and leaves the same content in this file. A recorded turn acts
  for the speaker of its snapshot, whoever is the current speaker by then.\<close>

theorem memories_are_kept_apart:
  assumes "context_run e store ops (w0\<lparr>mw_files := (\<lambda>_. None)\<rparr>) = Some (r0, w1)"
    and "\<forall>q \<in> context_files op (mw_identity w1). mw_files w2 q = mw_files w1 q"
    and "mw_clock w2 = mw_clock w1" "mw_disk w2 = mw_disk w1" "mw_identity w2 = mw_identity w1"
  shows "\<exists>r w1' w2'. context_step e store op w1 = Some (r, w1') \<and> context_step e store op w2 = Some (r, w2')
    \<and> (\<forall>q. if q \<in> context_files op (mw_identity w1) then mw_files w2' q = mw_files w1' q
           else mw_files w1' q = mw_files w1 q \<and> mw_files w2' q = mw_files w2 q)
    \<and> mw_identity w2' = mw_identity w1'"
proof -
  have "store_ok e (w0\<lparr>mw_files := (\<lambda>_. None)\<rparr>)" by (simp add: store_ok_def file_ok_def)
  then obtain w' where "context_run e store ops (w0\<lparr>mw_files := (\<lambda>_. None)\<rparr>) = Some (Inr (), w')" "store_ok e w'"
    using context_run_ok by blast
  then have "store_ok e w1" using assms(1) by simp
  then have agree: "agree e (context_files op (mw_identity w1)) w1 w2" using assms(2-) by (auto simp: agree_def store_ok_def)
  obtain r w1' w2' where step: "context_step e store op w1 = Some (r, w1')" "context_step e store op w2 = Some (r, w2')"
      "agree e (context_files op (mw_identity w1)) w1' w2'"
      "\<And>q. q \<notin> context_files op (mw_identity w1) \<Longrightarrow> mw_files w1' q = mw_files w1 q \<and> mw_files w2' q = mw_files w2 q"
    by (rule acting_step [OF agree, of store]) blast
  then show ?thesis by (auto simp: agree_def)
qed

text \<open>What is saved is loaded back, by whatever name the file is found.\<close>

lemma saved_file:
  "save_profile p w = Some (Inr (), w') \<Longrightarrow>
     mw_files w' (profile_path (up_speaker_id p)) = Some (Content (JObject (profile_as_dict p)))"
  by (auto simp: save_profile_def write_file_def disk_takes_def proc_defs split: if_splits)

lemma count_values_ints: "count_values (map (\<lambda>(k, n). (k, JInt n)) counts) = Inr counts"
  by (induction counts) (auto simp: rbind_def)

lemma listed_objects: "map (object_items \<circ> JObject) ds = ds" "filter (is_object \<circ> JObject) ds = ds"
  by (induction ds) auto

lemma profile_from_as_dict:
  "up_speaker_id p \<noteq> [] \<Longrightarrow> profile_from_dict py_str py_dict parse_float (profile_as_dict p) who = Inr p"
  by (cases p) (auto simp: profile_from_dict_def profile_as_dict_def restore_text_def dict_value_def objects_value_def codes_def
      count_values_ints listed_objects filter_map rbind_def)

lemma load_saved:
  "mw_files w (profile_path who) = Some (Content (JObject (profile_as_dict p))) \<Longrightarrow> up_speaker_id p \<noteq> [] \<Longrightarrow>
     load e who w = Some (Inr p, w)"
  by (simp add: load_def load_profile_def bind_def query_def ret_def profile_from_as_dict)

lemma bind_returns:
  assumes "bind m k w = Some (Inr x, w')"
  obtains y w1 where "m w = Some (Inr y, w1)" "k y w1 = Some (Inr x, w')"
  using assms by (auto simp: bind_def split: option.splits sum.splits)

text \<open>The age limit of interactions at a reading of the clock.\<close>

definition retention_cutoff :: "UserMemoryStore \<Rightarrow> pyfloat \<Rightarrow> pyfloat" where
  "retention_cutoff store t = (if us_retention_s store \<le> 0 then t else t - us_retention_s store)"

lemma load_clock: "load e who w = Some (r, w') \<Longrightarrow> \<exists>n \<le> 1. mw_clock w' 0 = mw_clock w n"
proof -
  assume load: "load e who w = Some (r, w')"
  have "mw_clock w' = mw_clock w \<or> mw_clock w' 0 = mw_clock w 1"
    using load by (auto simp: load_def load_profile_def memory_now_def tick_def proc_defs
        split: option.splits stored.splits json.splits sum.splits exn.splits)
  then show ?thesis by auto
qed

text \<open>C23. The recorded history is bounded. A recorded interaction is the last of the profile that is written, and the
  profile holds no more interactions than the store keeps; all the others come from the old profile and are not older
  than the retention time.\<close>

theorem recorded_history_is_bounded:
  assumes "record_interaction e (user_memory_store max_recent retention_s) who user_text assistant_text actions success w = Some (Inr p, w')"
  shows "int (length (up_recent_interactions p)) \<le> max 1 max_recent
    \<and> up_recent_interactions p \<noteq> []
    \<and> (\<exists>t. last (up_recent_interactions p) = interaction t user_text assistant_text actions success)
    \<and> (\<exists>n \<le> 1. \<forall>item \<in> set (butlast (up_recent_interactions p)).
          retention_cutoff (user_memory_store max_recent retention_s) (mw_clock w n) \<le> as_float (me_parse_float e) (map_of item (codes ''ts'')) 0)
    \<and> mw_files w' (profile_path (up_speaker_id p)) = Some (Content (JObject (profile_as_dict p)))"
proof -
  let ?store = "user_memory_store max_recent retention_s"
  obtain id w1 where writable: "writable_speaker_id who w = Some (Inr id, w1)"
    and 1: "bind (load e id) (\<lambda>p. bind (prune_expired (me_parse_float e) ?store p) (\<lambda>(expired, p). bind memory_now (\<lambda>t.
      let p = p\<lparr>up_command_counts := count_actions (me_py_str e) actions (up_command_counts p),
            up_recent_interactions := last_items (us_max_recent ?store)
              (up_recent_interactions p @ [interaction t user_text assistant_text actions success]), up_updated_at := t\<rparr>
      in andthen (save_profile p) (ret p)))) w1 = Some (Inr p, w')"
    using assms unfolding record_interaction_def by (rule bind_returns)
  obtain p1 w2 where loaded: "load e id w1 = Some (Inr p1, w2)" and 2: "bind (prune_expired (me_parse_float e) ?store p1) (\<lambda>(expired, p). bind memory_now (\<lambda>t.
      let p = p\<lparr>up_command_counts := count_actions (me_py_str e) actions (up_command_counts p),
            up_recent_interactions := last_items (us_max_recent ?store)
              (up_recent_interactions p @ [interaction t user_text assistant_text actions success]), up_updated_at := t\<rparr>
      in andthen (save_profile p) (ret p))) w2 = Some (Inr p, w')"
    using 1 by (rule bind_returns)
  obtain expired p2 w3 where prune: "prune_expired (me_parse_float e) ?store p1 w2 = Some (Inr (expired, p2), w3)"
    and 3: "bind memory_now (\<lambda>t.
      let p = p2\<lparr>up_command_counts := count_actions (me_py_str e) actions (up_command_counts p2),
            up_recent_interactions := last_items (us_max_recent ?store)
              (up_recent_interactions p2 @ [interaction t user_text assistant_text actions success]), up_updated_at := t\<rparr>
      in andthen (save_profile p) (ret p)) w3 = Some (Inr p, w')"
    using 2 by (rule bind_returns) auto
  obtain t w4 where "memory_now w3 = Some (Inr t, w4)"
    and 4: "(let p = p2\<lparr>up_command_counts := count_actions (me_py_str e) actions (up_command_counts p2),
            up_recent_interactions := last_items (us_max_recent ?store)
              (up_recent_interactions p2 @ [interaction t user_text assistant_text actions success]), up_updated_at := t\<rparr>
      in andthen (save_profile p) (ret p)) w4 = Some (Inr p, w')"
    using 3 by (rule bind_returns)
  from 4 have p: "up_recent_interactions p = last_items (us_max_recent ?store)
      (up_recent_interactions p2 @ [interaction t user_text assistant_text actions success])"
    and 5: "save_profile p w4 = Some (Inr (), w')"
    by (auto simp: Let_def andthen_def bind_def ret_def split: option.splits sum.splits)
  have saved: "mw_files w' (profile_path (up_speaker_id p)) = Some (Content (JObject (profile_as_dict p)))"
    by (rule saved_file [OF 5])
  have "w1 = w" using writable by (auto simp: writable_speaker_id_def ret_def raise_def split: if_splits)
  then obtain n where n: "n \<le> 1" "mw_clock w2 0 = mw_clock w n" using load_clock [OF loaded] by auto
  have cutoff: "\<forall>item \<in> set (up_recent_interactions p2). retention_cutoff ?store (mw_clock w n)
      \<le> as_float (me_parse_float e) (map_of item (codes ''ts'')) 0"
    using prune by (auto simp: prune_expired_def retention_cutoff_def memory_now_def proc_defs Let_def tick_def n(2))
  have max: "0 < us_max_recent ?store" "int (us_max_recent ?store) = max 1 max_recent" by (simp_all add: user_memory_store_def)
  define kept where "kept = drop (Suc (length (up_recent_interactions p2)) - us_max_recent ?store) (up_recent_interactions p2)"
  have recent: "up_recent_interactions p = kept @ [interaction t user_text assistant_text actions success]"
    using p max(1) by (simp add: last_items_def kept_def)
  have "set kept \<subseteq> set (up_recent_interactions p2)" by (simp add: kept_def set_drop_subset)
  moreover have "length (up_recent_interactions p) \<le> us_max_recent ?store" by (simp add: p last_items_def)
  ultimately show ?thesis using recent cutoff n(1) saved max(2) by auto
qed


section \<open>Witnesses\<close>

definition blank_env :: memory_env where
  "blank_env = \<lparr>me_py_str = (\<lambda>_. []), me_py_dict = (\<lambda>_. None), me_parse_float = (\<lambda>_. None)\<rparr>"

definition blank_memory :: memory_world where
  "blank_memory = \<lparr>mw_files = (\<lambda>_. None), mw_clock = (\<lambda>_. Fin 50), mw_disk = (\<lambda>_. True), mw_identity = speaker_identity\<rparr>"

definition SAKURA :: ustr where "SAKURA = [0x3055, 0x304F, 0x3089]"
definition HARUKA :: ustr where "HARUKA = [0x306F, 0x308B, 0x304B]"

lemma kana_paths: "profile_path SAKURA = UNKNOWN_SPEAKER" "profile_path HARUKA = UNKNOWN_SPEAKER"
  by (simp_all add: profile_path_def SAKURA_def HARUKA_def strip_set_def safe_id_char_def)

lemma kana_usable: "usable (text_identity SAKURA 0)" "usable (text_identity HARUKA 0)"
  by (simp_all add: usable_def text_identity_def SAKURA_def HARUKA_def UNKNOWN_SPEAKER_def codes_def)

lemma kana_ids: "speaker_id (Identity (text_identity SAKURA 0)) = SAKURA" "speaker_id (Identity (text_identity HARUKA 0)) = HARUKA"
  "SAKURA \<noteq> UNKNOWN_SPEAKER" "HARUKA \<noteq> UNKNOWN_SPEAKER" "SAKURA \<noteq> HARUKA" "SAKURA \<noteq> []" "HARUKA \<noteq> []"
  by (simp_all add: text_identity_time SAKURA_def HARUKA_def UNKNOWN_SPEAKER_def codes_def)

lemmas memory_eval = writable_speaker_id_def kana_ids load_def load_profile_def kana_paths blank_memory_def memory_now_def tick_def
  andthen_def proc_defs Let_def new_profile_def save_profile_def write_file_def disk_takes_def

lemma sakura_sets:
  "\<exists>p w1. set_preference blank_env (Identity (text_identity SAKURA 0)) [1] JNull blank_memory = Some (Inr p, w1)
     \<and> up_speaker_id p = SAKURA \<and> up_recent_interactions p = [] \<and> up_corrections p = []
     \<and> mw_files w1 UNKNOWN_SPEAKER = Some (Content (JObject (profile_as_dict p)))"
  by (simp add: set_preference_def change_profile_def memory_eval)

lemma haruka_reads:
  assumes "mw_files w UNKNOWN_SPEAKER = Some (Content (JObject (profile_as_dict p)))" "up_speaker_id p = SAKURA"
    "up_recent_interactions p = []" "up_corrections p = []" "mw_identity w = text_identity HARUKA 0"
  shows "\<exists>c w2. context_snapshot blank_env store w = Some (Inr c, w2)"
proof -
  have load: "load blank_env HARUKA w = Some (Inr p, w)" if "mw_files w UNKNOWN_SPEAKER = Some (Content (JObject (profile_as_dict p)))" for w
    using that assms(2) by (intro load_saved) (simp_all add: kana_paths kana_ids)
  have "\<exists>w2. profile blank_env store who w = Some (Inr p, w2) \<and> mw_files w2 = mw_files w"
    if "speaker_id who = HARUKA" "mw_files w UNKNOWN_SPEAKER = Some (Content (JObject (profile_as_dict p)))" for who w
    using that assms(3,4) by (simp add: profile_def prune_expired_def memory_now_def tick_def andthen_def proc_defs load Let_def)
  note profile = this
  obtain w1 where 1: "profile blank_env store (Identity (text_identity HARUKA 0)) w = Some (Inr p, w1)" "mw_files w1 = mw_files w"
    using profile [OF kana_ids(2) assms(1)] by blast
  have "speaker_id (SpeakerId HARUKA) = HARUKA" by (simp add: speaker_id_def ustrip_def is_uspace_def HARUKA_def)
  then obtain w2 where 2: "profile blank_env store (SpeakerId HARUKA) w1 = Some (Inr p, w2)"
    using profile [of "SpeakerId HARUKA" w1] 1(2) assms(1) by auto
  show ?thesis
    using assms(5) kana_usable(2) 1(1) 2
    by (simp add: context_snapshot_def current_identity_def query_def prompt_summary_def kana_ids Let_def bind_def ret_def)
qed


theorem recorded_history_is_bounded_witness:
  "\<exists>p w'. record_interaction blank_env (user_memory_store 8 (Fin 100)) (Identity (text_identity SAKURA 0)) [1] [2] [] JNull blank_memory
       = Some (Inr p, w') \<and> length (up_recent_interactions p) \<le> 8 \<and> up_recent_interactions p \<noteq> []"
proof -
  have "\<exists>p w'. record_interaction blank_env (user_memory_store 8 (Fin 100)) (Identity (text_identity SAKURA 0)) [1] [2] [] JNull
      blank_memory = Some (Inr p, w')"
    by (simp add: record_interaction_def prune_expired_def memory_eval)
  then obtain p w' where p: "record_interaction blank_env (user_memory_store 8 (Fin 100)) (Identity (text_identity SAKURA 0)) [1] [2] []
      JNull blank_memory = Some (Inr p, w')" by blast
  show ?thesis using recorded_history_is_bounded [OF p] p by auto
qed

theorem memories_are_kept_apart_witness:
  "\<forall>store. \<exists>w1 r w1' w2'. context_run blank_env store [UpdateIdentity (text_identity SAKURA 0)] blank_memory = Some (Inr (), w1)
     \<and> context_step blank_env store TakeSnapshot w1 = Some (r, w1')
     \<and> context_step blank_env store TakeSnapshot (w1\<lparr>mw_files := (mw_files w1)([0x61] := Some Unreadable)\<rparr>) = Some (r, w2')
     \<and> mw_files w1' [0x61] = None"
proof
  fix store
  have blank: "blank_memory\<lparr>mw_files := (\<lambda>_. None)\<rparr> = blank_memory" by (simp add: blank_memory_def)
  define w1 where "w1 = blank_memory\<lparr>mw_identity := text_identity SAKURA 0\<rparr>"
  have run: "context_run blank_env store [UpdateIdentity (text_identity SAKURA 0)] (blank_memory\<lparr>mw_files := (\<lambda>_. None)\<rparr>) = Some (Inr (), w1)"
    by (simp add: blank w1_def context_run_def attempt_def update_identity_def andthen_def proc_defs)
  have files: "context_files TakeSnapshot (mw_identity w1) = {UNKNOWN_SPEAKER}"
    by (simp add: w1_def speaker_files_def kana_ids kana_paths)
  let ?w2 = "w1\<lparr>mw_files := (mw_files w1)([0x61] := Some Unreadable)\<rparr>"
  have other: "[0x61] \<noteq> UNKNOWN_SPEAKER" by (simp add: UNKNOWN_SPEAKER_def codes_def)
  then have "\<forall>q \<in> context_files TakeSnapshot (mw_identity w1). mw_files ?w2 q = mw_files w1 q" by (simp only: files) simp
  from memories_are_kept_apart [OF run this] obtain r w1' w2' where
      step: "context_step blank_env store TakeSnapshot w1 = Some (r, w1')" "context_step blank_env store TakeSnapshot ?w2 = Some (r, w2')"
      "\<forall>q. if q \<in> context_files TakeSnapshot (mw_identity w1) then mw_files w2' q = mw_files w1' q
        else mw_files w1' q = mw_files w1 q \<and> mw_files w2' q = mw_files ?w2 q" by auto
  have "mw_files w1' [0x61] = None" using step(3) [rule_format, of "[0x61]"] files other by (simp add: w1_def blank_memory_def)
  then show "\<exists>w1 r w1' w2'. context_run blank_env store [UpdateIdentity (text_identity SAKURA 0)] blank_memory = Some (Inr (), w1)
     \<and> context_step blank_env store TakeSnapshot w1 = Some (r, w1')
     \<and> context_step blank_env store TakeSnapshot (w1\<lparr>mw_files := (mw_files w1)([0x61] := Some Unreadable)\<rparr>) = Some (r, w2')
     \<and> mw_files w1' [0x61] = None"
    using run [unfolded blank] step(1,2) by blast
qed

end
