(* ===== verification/Spec2Isabelle.thy ===== *)
theory Spec2Isabelle
  imports Authority_Bootstrap Quiescence Mission_Safety Goal_Sampler Nav2_Evidence Replay_Core
    Streaming_Turn Agent_Application Action_Gateway Stage_Progress Asr_Endpoint
    Memory_Isolation
begin

text \<open>
  A verification library for the autonomy and voice-control logic of the embodied agent workspace.

  \<^bold>\<open>The program.\<close> A mobile robot is driven by spoken commands and by autonomous missions. Under
  \<open>src/src/embodied_slam_tools\<close> live the missions: a session chooses what to run
  (\<open>showcase_session.py\<close>), a mission explores an unknown world, returns, saves the map and navigates
  in it (\<open>mission_executor.py\<close>), a monitor decides when the exploration is over
  (\<open>frontier_monitor.py\<close>, \<open>exploration_saturation.py\<close>) from recorded evidence
  (\<open>mapping_evidence.py\<close>, \<open>mapping_return.py\<close>), goals are sampled from the map
  (\<open>mapped_goal_sampler.py\<close>) and each is driven to in a transaction around Nav2
  (\<open>nav2_motion_transaction.py\<close>); actions of the agent are run through a gateway
  (\<open>agent_action_gateway.py\<close>); the processes of a stage are started and reclaimed by one manager
  (\<open>stage_process_manager.py\<close>). All of it runs under an authority lease
  (\<open>control_authority_lease.py\<close>, \<open>control_authority_bootstrap.py\<close>), and when autonomy is revoked a
  barrier proves that nothing moves any more (\<open>autonomy_quiescence.py\<close>). Under
  \<open>src/src/embodied_agent_core\<close> lives the agent: a session hears transcripts (\<open>wakeword.py\<close>,
  \<open>wake_provider.py\<close>, \<open>continuous_voice.py\<close>), a control plane turns them into stops, cancels or
  queued commands (\<open>agent_control_plane.py\<close>), a runtime executes one turn at a time
  (\<open>agent_execution_runtime.py\<close>), a turn parses the answer of a language model as it streams in
  (\<open>protocol.py\<close>, \<open>streaming_turn.py\<close>), and its actions, adjusted to the preferences of the speaker
  (\<open>user_preferences.py\<close>), are published as a batch whose results are awaited (\<open>action_sequence.py\<close>).
  An application runtime joins these parts into use cases (\<open>agent_application_runtime.py\<close>), the end of a
  speech segment is decided in \<open>asr_endpoint_runtime.py\<close>, and what a speaker asked to remember is kept in
  files (\<open>user_memory.py\<close>) behind spoken commands (\<open>memory_command_service.py\<close>,
  \<open>user_context_runtime.py\<close>).

  \<^bold>\<open>Foundations.\<close> \<open>Prelude\<close> holds Python's floats (\<open>pyfloat\<close>: the infinities and NaN are values,
  finite ones are reals, so rounding and the sign of zero are not modelled), exceptions as values
  (\<open>result\<close>), text helpers and the locales of machines with invariants, monotone measures and bounded
  memories. \<open>Effects\<close> holds procedures over a world that return, raise or do not return, with the rules
  \<open>triple\<close> for partial correctness and \<open>returns\<close> for termination. \<open>Unicode_Text\<close> holds texts as code
  points. \<open>Schedules\<close> holds interleavings: runs of step relations, and calls that wait while other threads act
  at the moments of a schedule.

  \<^bold>\<open>Authority.\<close> \<open>Authority_Lease\<close> and \<open>Authority_Bootstrap\<close> model the lease as a machine over received
  snapshots, every branch of \<open>update\<close> included. Once lapsed it stays lapsed until a restart, a generation
  identifies one authority, and a cold start gives fresh autonomy. \<open>Quiescence\<close> models the barrier as a
  machine over the operations of all threads: an acknowledgement needs drained frontier goals, no Nav2
  goal, the result of the STOP and a zero velocity. A STOP result without an id that comes before the
  request counts all the same, which is proved as an error.

  \<^bold>\<open>Missions.\<close> \<open>Showcase_Session\<close>, \<open>Saturation\<close>, \<open>Mapping_Evidence\<close>, \<open>Mapping_Return\<close> and
  \<open>Frontier_Monitor\<close> model the decisions and the evidence they rest on; \<open>Mission_Policy\<close> and
  \<open>Mission_Executor\<close> the missions as procedures over a record of port functions that may raise at any
  call; \<open>Mission_Safety\<close> proves that no recovery motion runs beside an explorer, that a mission that
  returns has passed its milestones in order, that it ends when the clock advances, and what is cleaned up
  on failure. One missing cleanup is proved as an error. \<open>Action_Gateway\<close> models the gateway with callbacks
  between its looks: an outcome belongs to the run that returns it, a run ends, and a cancellation is reported
  exactly when there is one, after the motion was stopped. \<open>Stage_Processes\<close> models the process manager with
  the operating system as a record of functions and watcher threads between its calls; \<open>Stage_Ownership\<close> and
  \<open>Stage_Lifecycle\<close> prove that only processes the manager recorded are signalled and that a shutdown deals
  with every process and is final, \<open>Stage_Progress\<close> that every operation ends.

  \<^bold>\<open>Navigation.\<close> \<open>Goal_Sampler\<close> models the occupancy grid, the breadth-first search and the ranking:
  returned goals are reachable and clear, the search is exact, a path is called free exactly when it is.
  \<open>Nav2_Transaction\<close> models the transaction with its preflight, waits, cleanup and evidence;
  \<open>Nav2_Safety\<close> that no motion is left behind whatever the runtime does, \<open>Nav2_Progress\<close> that it ends, and
  \<open>Nav2_Evidence\<close> that a sampled goal ends terminal in the ledger. \<open>Replay_Core\<close> models the pacing of
  dataset replays.

  \<^bold>\<open>The agent.\<close> \<open>Stream_Protocol\<close> models the tagged stream parser: cutting the stream differently changes
  nothing, and a printed answer is parsed back. \<open>Streaming_Turn\<close> models sentence cutting and the choice of
  actions: no action without permission, and deterministic commands win over the model's.
  \<open>Voice_Session\<close> models wake words and the session, with the clock as the sequence of its readings: a
  sleeping session gives no command until a wake word. \<open>Agent_Control\<close> models the command queue, refined by
  a preemptive first-in first-out specification, and the control plane: a spoken stop always stops, and the
  plane stays well formed. \<open>Agent_Execution\<close> models the execution runtime as an interleaving step relation
  over its atomic sections: turns are serialised, a successful stop leaves nothing running unless a turn was
  claimed just before, and that exception is proved as an error. \<open>Action_Sequence\<close> models the batch
  publisher with other threads acting between its sections: a cancel stops it, its report is faithful and it
  returns. \<open>User_Preferences\<close> models what preferences may change, within bounds. \<open>Agent_Application\<close> composes
  session, control plane, preferences and publisher: a spoken stop reaches the robot, and queued actions come
  back unchanged. \<open>Asr_Endpoint\<close> models the end of speech as sections of timer threads that interleave: a
  segment is committed at most once and a closed runtime falls silent, but a commit that has passed its gate
  still runs after the close, which is proved as an error. \<open>User_Memory\<close> models the profiles with their
  files and the spoken memory commands; \<open>Memory_Isolation\<close> proves that an operation of a speaker touches
  the file of that speaker only and that histories stay bounded, and that speakers whose names have no
  character of the file name alphabet share a file, which is proved as an error.

  \<^bold>\<open>Interfaces.\<close> The locales \<open>invariant_system\<close>, \<open>monotone_system\<close>, \<open>bounded_memory\<close>, \<open>evolving_store\<close>,
  \<open>step_invariant\<close> and \<open>timed_look\<close> state what a machine promises its clients; they are interpreted on the lease, the
  barrier, the saturation tracker, the evidence, the goal ledger, the control plane, the execution
  runtime, the endpoint runtime and the looks of the gateway, and the properties rest on their facts.

  \<^bold>\<open>Loops and fuel.\<close> Loops over data are structural or have a measure. Waiting loops of missions, of the
  Nav2 transaction and of the process manager may not return, which is the value \<open>None\<close>; that they do return is proved from a clock
  that advances. The waits of the publisher and of the gateway consume a list of moments, and enough moments give a result.
  No property assumes that a wait returned without another one that shows that it does.

  \<^bold>\<open>Parameters.\<close> The ROS runtime, Nav2 and the explorer are port records or schedules of the environment.
  \<open>json.loads\<close>, the command normaliser, the language understanding and the fallback patterns are function
  arguments of which nothing is assumed; so are Python's \<open>str\<close>, \<open>dict\<close> and \<open>float\<close> on values of a JSON
  file. The disk is a map from file names to contents whose writes may fail, the clock the sequence of its
  readings.

  \<^bold>\<open>Not modelled.\<close> The ROS nodes and transports that connect these classes
  (\<open>showcase_session_node.py\<close>, \<open>nav2_motion_ros.py\<close>, the agent nodes and \<open>ros_*.py\<close>), the
  crash-safe writing of files, the environment variables of processes, command understanding (\<open>command_nlu.py\<close>, \<open>command_normalizer.py\<close>, \<open>command_fallback.py\<close>),
  the file of recent turns and the prompts, the lifecycle orchestration, the acceptance and evaluation tools, launch files,
  scripts and the C++ packages. They are listed with reasons in the manifest.
\<close>

end
